(* ===== verification/Prelude.thy ===== *)
theory Prelude
  imports Main "HOL-Library.Sublist" "HOL-Library.Word" "HOL-Library.Code_Target_Numeral"
begin

text \<open>
  Shared foundations of the development: the type names the model uses for Go's values, the
  simplification collections of the components, generic lemmas on lists and maps, and the
  interface the stateful components share: a transition system with an inductive invariant.
\<close>

subsection \<open>Types\<close>

text \<open>
  A Go \<^verbatim>\<open>string\<close> or \<^verbatim>\<open>[]byte\<close> is a list of bytes; Isabelle's \<^typ>\<open>char\<close> is a byte. A
  \<^verbatim>\<open>time.Time\<close> is a number of nanoseconds on one clock and a \<^verbatim>\<open>time.Duration\<close> a signed
  number of nanoseconds; where the code multiplies durations the 64-bit wrap-around is written
  out with \<open>int64\<close>.
\<close>

type_synonym bytes = string
type_synonym time = int
type_synonym duration = int

abbreviation Nanosecond :: duration where "Nanosecond \<equiv> 1"
abbreviation Millisecond :: duration where "Millisecond \<equiv> 1000000"
abbreviation Second :: duration where "Second \<equiv> 1000000000"
abbreviation Minute :: duration where "Minute \<equiv> 60000000000"

text \<open>Go's \<^verbatim>\<open>int64\<close> (and \<^verbatim>\<open>int\<close> on the 64-bit targets) wraps around two's complement.\<close>

definition int64 :: "int \<Rightarrow> int" where
  "int64 i = (i + 2 ^ 63) mod 2 ^ 64 - 2 ^ 63"

text \<open>A finding of the Go runtime that stops the goroutine: \<open>Panic\<close> with its message.\<close>

datatype 'a go = Ret 'a | Panic string

subsection \<open>Collections of simplification rules\<close>

named_theorems go_string_defs \<open>definitions of the string library\<close>
named_theorems inv_defs \<open>definitions of the components' invariants\<close>

subsection \<open>Integers at 64 bits\<close>

lemma int64_range: "- (2 ^ 63) \<le> int64 i" "int64 i < 2 ^ 63"
  by (simp_all add: int64_def)

lemma int64_id: "- (2 ^ 63) \<le> i \<Longrightarrow> i < 2 ^ 63 \<Longrightarrow> int64 i = i"
  by (simp add: int64_def)

lemma unat_of_nat_small: "n < 2 ^ LENGTH('a) \<Longrightarrow> unat (of_nat n :: 'a::len word) = n"
  by (simp add: unat_of_nat)

subsection \<open>Lists\<close>

lemma foldl_snoc_append: "foldl (\<lambda>acc x. acc @ f x) a xs = a @ concat (map f xs)"
  by (induction xs arbitrary: a) auto

subsection \<open>Reachability and invariants\<close>

text \<open>
  The states a component can be in: those some number of steps away from an initial one.
\<close>

definition reachable :: "('s \<Rightarrow> bool) \<Rightarrow> ('s \<Rightarrow> 's \<Rightarrow> bool) \<Rightarrow> 's \<Rightarrow> bool" where
  "reachable init step s \<longleftrightarrow> (\<exists>s0. init s0 \<and> step\<^sup>*\<^sup>* s0 s)"

lemma reachable_init: "init s \<Longrightarrow> reachable init step s"
  by (auto simp: reachable_def)

lemma reachable_step: "reachable init step s \<Longrightarrow> step s t \<Longrightarrow> reachable init step t"
  by (auto simp: reachable_def intro: rtranclp.rtrancl_into_rtrancl)

text \<open>
  An inductive invariant: it holds initially and every step keeps it. Whatever implies is then
  true of every reachable state.
\<close>

locale invariant_system =
  fixes init :: "'s \<Rightarrow> bool"
    and step :: "'s \<Rightarrow> 's \<Rightarrow> bool"
    and inv :: "'s \<Rightarrow> bool"
  assumes init_inv: "init s \<Longrightarrow> inv s"
    and step_inv: "inv s \<Longrightarrow> step s t \<Longrightarrow> inv t"
begin

lemma steps_inv: "step\<^sup>*\<^sup>* s t \<Longrightarrow> inv s \<Longrightarrow> inv t"
  by (induction rule: rtranclp_induct) (auto intro: step_inv)

lemma reachable_inv: "reachable init step s \<Longrightarrow> inv s"
  by (auto simp: reachable_def intro: steps_inv init_inv)

end

end
