(* ===== verification/GoStrings.thy ===== *)
theory GoStrings
  imports Prelude
begin

text \<open>
  The parts of Go's \<^verbatim>\<open>strings\<close>, \<^verbatim>\<open>unicode/utf8\<close> and \<^verbatim>\<open>strconv\<close> packages the program calls,
  on byte strings. White space is Unicode white space, given by its UTF-8 encodings; a lead byte
  of a multi-byte encoding is never a continuation byte, so an encoding found at a byte position
  is a rune that Go's decoder finds there, also in strings that are not valid UTF-8.
\<close>

subsection \<open>Searching\<close>

definition has_prefix :: "bytes \<Rightarrow> bytes \<Rightarrow> bool" where
  "has_prefix s p \<longleftrightarrow> take (length p) s = p"

definition has_suffix :: "bytes \<Rightarrow> bytes \<Rightarrow> bool" where
  "has_suffix s p \<longleftrightarrow> has_prefix (rev s) (rev p)"

text \<open>\<^verbatim>\<open>strings.CutPrefix\<close>: the original string comes back when the prefix is absent.\<close>

definition cut_prefix :: "bytes \<Rightarrow> bytes \<Rightarrow> bytes \<times> bool" where
  "cut_prefix s p = (if has_prefix s p then (drop (length p) s, True) else (s, False))"

fun contains_sub :: "bytes \<Rightarrow> bytes \<Rightarrow> bool" where
  "contains_sub [] t = (t = [])"
| "contains_sub (c # s) t = (has_prefix (c # s) t \<or> contains_sub s t)"

text \<open>\<^verbatim>\<open>strings.ContainsAny\<close> with an ASCII character list.\<close>

definition contains_any :: "bytes \<Rightarrow> bytes \<Rightarrow> bool" where
  "contains_any s cs \<longleftrightarrow> list_ex (\<lambda>c. c \<in> set cs) s"

text \<open>\<^verbatim>\<open>strings.IndexByte\<close>: \<^const>\<open>None\<close> is Go's \<open>-1\<close>.\<close>

fun index_byte :: "bytes \<Rightarrow> char \<Rightarrow> nat option" where
  "index_byte [] c = None"
| "index_byte (x # xs) c = (if x = c then Some 0 else map_option Suc (index_byte xs c))"

definition count_byte :: "bytes \<Rightarrow> char \<Rightarrow> nat" where
  "count_byte s c = length (filter (\<lambda>x. x = c) s)"

lemma has_prefix_append [simp]: "has_prefix (p @ s) p"
  by (simp add: has_prefix_def)

lemma has_prefix_Nil [simp]: "has_prefix s []"
  by (simp add: has_prefix_def)

lemma has_prefix_Nil_left [simp]: "has_prefix [] p \<longleftrightarrow> p = []"
  by (auto simp: has_prefix_def)

lemma has_prefix_Cons [simp]:
  "has_prefix (c # s) (d # p) \<longleftrightarrow> c = d \<and> has_prefix s p"
  by (auto simp: has_prefix_def)

lemma has_prefix_iff: "has_prefix s p \<longleftrightarrow> (\<exists>r. s = p @ r)"
  by (metis append_take_drop_id has_prefix_append has_prefix_def)

lemma has_prefix_length: "has_prefix s p \<Longrightarrow> length p \<le> length s"
  by (auto simp: has_prefix_iff)

lemma contains_sub_iff: "contains_sub s t \<longleftrightarrow> (\<exists>a b. s = a @ t @ b)"
proof (induction s t rule: contains_sub.induct)
  case (1 t)
  then show ?case by auto
next
  case (2 c s t)
  show ?case
  proof
    assume "contains_sub (c # s) t"
    then consider "has_prefix (c # s) t" | "contains_sub s t" by auto
    then show "\<exists>a b. c # s = a @ t @ b"
    proof cases
      case 1
      then show ?thesis by (metis append_Nil has_prefix_iff)
    next
      case 2
      then obtain a b where "s = a @ t @ b" using "2.IH" by auto
      then have "c # s = (c # a) @ t @ b" by simp
      then show ?thesis by blast
    qed
  next
    assume "\<exists>a b. c # s = a @ t @ b"
    then obtain a b where ab: "c # s = a @ t @ b" by blast
    show "contains_sub (c # s) t"
    proof (cases a)
      case Nil
      with ab have "has_prefix (c # s) t" by (auto simp: has_prefix_iff)
      then show ?thesis by simp
    next
      case (Cons x a')
      with ab have "s = a' @ t @ b" by simp
      with "2.IH" show ?thesis by auto
    qed
  qed
qed

lemma index_byte_None: "index_byte s c = None \<longleftrightarrow> c \<notin> set s"
  by (induction s) auto

lemma index_byte_Some:
  "index_byte s c = Some i \<longleftrightarrow> i < length s \<and> s ! i = c \<and> c \<notin> set (take i s)"
proof (induction s arbitrary: i)
  case Nil
  then show ?case by simp
next
  case (Cons x xs)
  then show ?case by (cases i) auto
qed

lemma count_byte_0: "count_byte s c = 0 \<longleftrightarrow> c \<notin> set s"
  by (induction s) (auto simp: count_byte_def)

lemma count_byte_append [simp]: "count_byte (s @ t) c = count_byte s c + count_byte t c"
  by (simp add: count_byte_def)

subsection \<open>White space\<close>

text \<open>The UTF-8 encodings of the runes for which \<^verbatim>\<open>unicode.IsSpace\<close> holds.\<close>

definition wide_spaces :: "bytes list" where
  "wide_spaces =
     [
      [CHR 0xC2, CHR 0x85], [CHR 0xC2, CHR 0xA0],
      [CHR 0xE1, CHR 0x9A, CHR 0x80], [CHR 0xE2, CHR 0x80, CHR 0x80],
      [CHR 0xE2, CHR 0x80, CHR 0x81], [CHR 0xE2, CHR 0x80, CHR 0x82],
      [CHR 0xE2, CHR 0x80, CHR 0x83], [CHR 0xE2, CHR 0x80, CHR 0x84],
      [CHR 0xE2, CHR 0x80, CHR 0x85], [CHR 0xE2, CHR 0x80, CHR 0x86],
      [CHR 0xE2, CHR 0x80, CHR 0x87], [CHR 0xE2, CHR 0x80, CHR 0x88],
      [CHR 0xE2, CHR 0x80, CHR 0x89], [CHR 0xE2, CHR 0x80, CHR 0x8A],
      [CHR 0xE2, CHR 0x80, CHR 0xA8], [CHR 0xE2, CHR 0x80, CHR 0xA9],
      [CHR 0xE2, CHR 0x80, CHR 0xAF], [CHR 0xE2, CHR 0x81, CHR 0x9F],
      [CHR 0xE3, CHR 0x80, CHR 0x80]]"

definition ascii_spaces :: bytes where
  "ascii_spaces = [CHR 0x09, CHR 0x0A, CHR 0x0B, CHR 0x0C, CHR 0x0D, CHR '' '']"

definition space_runes :: "bytes list" where
  "space_runes = map (\<lambda>c. [c]) ascii_spaces @ wide_spaces"

text \<open>The length of the white-space rune at the head of a string, 0 when there is none.\<close>

definition space_len :: "bytes \<Rightarrow> nat" where
  "space_len s = (case find (has_prefix s) space_runes of None \<Rightarrow> 0 | Some r \<Rightarrow> length r)"

definition space_len_end :: "bytes \<Rightarrow> nat" where
  "space_len_end s = (case find (has_suffix s) space_runes of None \<Rightarrow> 0 | Some r \<Rightarrow> length r)"

lemma space_runes_nonempty: "r \<in> set space_runes \<Longrightarrow> r \<noteq> []"
  by (auto simp: space_runes_def wide_spaces_def)

lemma space_len_le: "space_len s \<le> length s"
  by (auto simp: space_len_def find_Some_iff has_prefix_length split: option.splits)

lemma space_len_0_iff: "space_len s = 0 \<longleftrightarrow> (\<forall>r \<in> set space_runes. \<not> has_prefix s r)"
proof (cases "find (has_prefix s) space_runes")
  case None
  then have "\<forall>r \<in> set space_runes. \<not> has_prefix s r"
    by (auto simp: find_None_iff)
  with None show ?thesis by (simp add: space_len_def)
next
  case (Some r)
  then have "r \<in> set space_runes" "has_prefix s r"
    by (auto simp: find_Some_iff)
  then show ?thesis using Some space_runes_nonempty by (auto simp: space_len_def)
qed

lemma space_len_Nil [simp]: "space_len [] = 0"
  using space_runes_nonempty by (auto simp: space_len_0_iff)

subsection \<open>Fields, Join, TrimSpace\<close>

text \<open>\<^verbatim>\<open>strings.Fields\<close>; \<open>cur\<close> is the token being read, backwards.\<close>

function fields_go :: "bytes \<Rightarrow> bytes \<Rightarrow> bytes list" where
  "fields_go cur s =
     (case s of
        [] \<Rightarrow> (if cur = [] then [] else [rev cur])
      | c # cs \<Rightarrow>
          if space_len s = 0 then fields_go (c # cur) cs
          else (if cur = [] then [] else [rev cur]) @ fields_go [] (drop (space_len s) s))"
  by pat_completeness auto
termination
  by (relation "measure (\<lambda>(cur, s). length s)") auto

declare fields_go.simps [simp del]

definition Fields :: "bytes \<Rightarrow> bytes list" where
  "Fields s = fields_go [] s"

text \<open>\<^verbatim>\<open>strings.Join\<close>.\<close>

fun join :: "bytes list \<Rightarrow> bytes \<Rightarrow> bytes" where
  "join [] sep = []"
| "join [x] sep = x"
| "join (x # y # zs) sep = x @ sep @ join (y # zs) sep"

function trim_left_space :: "bytes \<Rightarrow> bytes" where
  "trim_left_space s =
     (if space_len s = 0 then s else trim_left_space (drop (space_len s) s))"
  by pat_completeness auto
termination
proof (relation "measure length")
  show "wf (measure length)" by simp
next
  fix s :: bytes
  assume "space_len s \<noteq> 0"
  moreover from this have "s \<noteq> []" by auto
  ultimately show "(drop (space_len s) s, s) \<in> measure length" by simp
qed

function trim_right_space :: "bytes \<Rightarrow> bytes" where
  "trim_right_space s =
     (if space_len_end s = 0 \<or> s = [] then s
      else trim_right_space (take (length s - space_len_end s) s))"
  by pat_completeness auto
termination
  by (relation "measure length") auto

declare trim_left_space.simps [simp del] trim_right_space.simps [simp del]

text \<open>\<^verbatim>\<open>strings.TrimSpace\<close>.\<close>

definition trim_space :: "bytes \<Rightarrow> bytes" where
  "trim_space s = trim_right_space (trim_left_space s)"

text \<open>\<^verbatim>\<open>strings.Trim\<close> with an ASCII cut set.\<close>

definition trim_chars :: "bytes \<Rightarrow> bytes \<Rightarrow> bytes" where
  "trim_chars s cs = rev (dropWhile (\<lambda>c. c \<in> set cs) (rev (dropWhile (\<lambda>c. c \<in> set cs) s)))"

text \<open>A string in which no white-space rune starts.\<close>

fun space_free :: "bytes \<Rightarrow> bool" where
  "space_free [] = True"
| "space_free (c # s) = (space_len (c # s) = 0 \<and> space_free s)"

lemma has_prefix_append_mono: "has_prefix u r \<Longrightarrow> has_prefix (u @ v) r"
  by (auto simp: has_prefix_iff)

lemma space_len_append: "space_len (u @ v) = 0 \<Longrightarrow> space_len u = 0"
  by (auto simp: space_len_0_iff has_prefix_append_mono)

lemma space_len_ascii: "c \<in> set ascii_spaces \<Longrightarrow> space_len (c # s) \<noteq> 0"
  by (auto simp: space_len_0_iff space_runes_def intro!: bexI [of _ "[c]"])

lemma wide_spaces_high: "r \<in> set wide_spaces \<Longrightarrow> c \<in> set r \<Longrightarrow> 128 \<le> (of_char c :: nat)"
  by (auto simp: wide_spaces_def)

lemma ascii_spaces_low: "c \<in> set ascii_spaces \<Longrightarrow> (of_char c :: nat) < 128"
  by (auto simp: ascii_spaces_def)

lemma space_in_ascii: "CHR '' '' \<in> set ascii_spaces"
  by (simp add: ascii_spaces_def)

lemma space_len_space [simp]: "space_len (CHR '' '' # s) = 1"
proof -
  have "find (has_prefix (CHR '' '' # s)) space_runes = Some '' ''"
    by (simp add: space_runes_def ascii_spaces_def)
  then show ?thesis by (simp add: space_len_def)
qed

text \<open>
  A white-space rune never straddles an ASCII byte, so what follows a separator does not change
  what a token is.
\<close>

lemma space_len_before_ascii:
  assumes "t \<noteq> []" and "space_len t = 0" and "(of_char a :: nat) < 128"
  shows "space_len (t @ a # r) = 0"
  unfolding space_len_0_iff
proof (intro ballI notI)
  fix w assume w: "w \<in> set space_runes" and p: "has_prefix (t @ a # r) w"
  from assms(2) w have no: "\<not> has_prefix t w" by (auto simp: space_len_0_iff)
  have long: "length t < length w"
  proof (rule ccontr)
    assume "\<not> length t < length w"
    with p have "has_prefix t w" by (simp add: has_prefix_def)
    with no show False by simp
  qed
  from p have "take (length w) (t @ a # r) = w" by (simp add: has_prefix_def)
  with long have aw: "a \<in> set w"
    by (metis append_Cons append_Nil in_set_conv_decomp le_simps(2) length_append_singleton
        take_all_iff append_assoc take_append take_Suc_Cons Suc_diff_le diff_is_0_eq
        list.set_intros(1) nat_less_le zero_less_diff take_Cons' Un_iff set_append)
  show False
  proof (cases "w \<in> set wide_spaces")
    case True
    with aw assms(3) wide_spaces_high show False by fastforce
  next
    case False
    with w obtain c where "w = [c]" by (auto simp: space_runes_def)
    with long assms(1) show False by simp
  qed
qed

lemma fields_go_token:
  assumes "space_free t" and "(of_char a :: nat) < 128"
  shows "fields_go cur (t @ a # r) = fields_go (rev t @ cur) (a # r)"
  using assms
proof (induction t arbitrary: cur)
  case Nil
  then show ?case by simp
next
  case (Cons c t)
  from Cons.prems have "space_len ((c # t) @ a # r) = 0"
    by (intro space_len_before_ascii) auto
  then have "fields_go cur ((c # t) @ a # r) = fields_go (c # cur) (t @ a # r)"
    by (subst fields_go.simps) simp
  with Cons show ?case by simp
qed

lemma fields_go_end: "space_free t \<Longrightarrow> fields_go cur t = (if rev t @ cur = [] then [] else [rev cur @ t])"
proof (induction t arbitrary: cur)
  case Nil
  then show ?case by (subst fields_go.simps) simp
next
  case (Cons c t)
  then have "fields_go cur (c # t) = fields_go (c # cur) t"
    by (subst fields_go.simps) simp
  with Cons show ?case by simp
qed

lemma fields_go_space:
  "fields_go cur (CHR '' '' # r) = (if cur = [] then [] else [rev cur]) @ fields_go [] r"
  by (subst fields_go.simps) simp

text \<open>Splitting a joined list of tokens gives the tokens back.\<close>

lemma fields_join:
  assumes "\<forall>t \<in> set ts. t \<noteq> [] \<and> space_free t"
  shows "Fields (join ts '' '') = ts"
  using assms unfolding Fields_def
proof (induction ts "'' ''" rule: join.induct)
  case 1
  then show ?case by (simp add: fields_go.simps)
next
  case (2 x)
  then show ?case by (simp add: fields_go_end)
next
  case (3 x y zs)
  then have "fields_go [] (x @ CHR '' '' # join (y # zs) '' '') = x # fields_go [] (join (y # zs) '' '')"
    by (subst fields_go_token) (auto simp: fields_go_space)
  with 3 show ?case by simp
qed

lemma space_free_iff: "space_free t \<longleftrightarrow> (\<forall>v u. t = v @ u \<and> u \<noteq> [] \<longrightarrow> space_len u = 0)"
proof (induction t)
  case Nil
  then show ?case by simp
next
  case (Cons c t)
  then show ?case by (auto simp: Cons_eq_append_conv)
qed

text \<open>Every field is a non-empty string without white space.\<close>

lemma fields_go_tokens:
  assumes "\<forall>v u. rev cur = v @ u \<and> u \<noteq> [] \<longrightarrow> space_len (u @ s) = 0"
    and "t \<in> set (fields_go cur s)"
  shows "t \<noteq> [] \<and> space_free t"
  using assms
proof (induction cur s rule: fields_go.induct)
  case (1 cur s)
  have fin: "rev cur \<noteq> [] \<and> space_free (rev cur)" if "cur \<noteq> []"
    using that "1.prems"(1) by (auto simp: space_free_iff dest: space_len_append)
  show ?case
  proof (cases s)
    case Nil
    with "1.prems"(2) fin show ?thesis
      by (subst (asm) fields_go.simps) (auto split: if_splits)
  next
    case (Cons c cs)
    show ?thesis
    proof (cases "space_len s = 0")
      case True
      with Cons "1.prems"(2) have "t \<in> set (fields_go (c # cur) cs)"
        by (subst (asm) fields_go.simps) simp
      moreover have "\<forall>v u. rev (c # cur) = v @ u \<and> u \<noteq> [] \<longrightarrow> space_len (u @ cs) = 0"
      proof (intro allI impI)
        fix v u assume vu: "rev (c # cur) = v @ u \<and> u \<noteq> []"
        then obtain u' where u': "u = u' @ [c]" "rev cur = v @ u'"
          by (metis append_butlast_last_id butlast_append last_appendR butlast_snoc last_snoc rev.simps(2))
        show "space_len (u @ cs) = 0"
        proof (cases "u' = []")
          case True
          with u' \<open>space_len s = 0\<close> Cons show ?thesis by simp
        next
          case False
          with u' "1.prems"(1) Cons show ?thesis by simp
        qed
      qed
      ultimately show ?thesis using "1.IH"(1) True Cons by blast
    next
      case False
      with Cons "1.prems"(2) have
        "t \<in> set (if cur = [] then [] else [rev cur]) \<or> t \<in> set (fields_go [] (drop (space_len s) s))"
        by (subst (asm) fields_go.simps) auto
      then show ?thesis
      proof
        assume "t \<in> set (if cur = [] then [] else [rev cur])"
        with fin show ?thesis by (auto split: if_splits)
      next
        assume "t \<in> set (fields_go [] (drop (space_len s) s))"
        with False Cons "1.IH"(2) show ?thesis by simp
      qed
    qed
  qed
qed

lemma fields_tokens: "t \<in> set (Fields s) \<Longrightarrow> t \<noteq> [] \<and> space_free t"
  unfolding Fields_def by (rule fields_go_tokens) auto

text \<open>Trimming leaves nothing exactly when every character is in the cut set.\<close>

lemma trim_chars_Nil: "trim_chars p cs = [] \<longleftrightarrow> set p \<subseteq> set cs"
proof -
  let ?d = "dropWhile (\<lambda>c. c \<in> set cs) p"
  have "trim_chars p cs = [] \<longleftrightarrow> (\<forall>c \<in> set ?d. c \<in> set cs)"
    by (simp add: trim_chars_def dropWhile_eq_Nil_conv)
  moreover have "?d = []" if "\<forall>c \<in> set ?d. c \<in> set cs"
  proof (rule ccontr)
    assume "?d \<noteq> []"
    then have "hd ?d \<notin> set cs" "hd ?d \<in> set ?d" by (rule hd_dropWhile, rule hd_in_set)
    with that show False by blast
  qed
  moreover have "?d = [] \<longleftrightarrow> set p \<subseteq> set cs" by (auto simp: dropWhile_eq_Nil_conv)
  ultimately show ?thesis by (metis empty_iff list.set(1))
qed

text \<open>Tokens separated by single blanks, between runs of blanks.\<close>

lemma fields_padded:
  assumes "\<forall>t \<in> set ts. t \<noteq> [] \<and> space_free t"
  shows "Fields (replicate i CHR '' '' @ join ts '' '' @ replicate j CHR '' '') = ts"
proof -
  have tail: "fields_go cur (replicate j CHR '' '') = (if cur = [] then [] else [rev cur])" for cur j
    by (induction j arbitrary: cur) (simp_all add: fields_go.simps [of _ "[]"] fields_go_space)
  have end_: "fields_go [] (t @ replicate j CHR '' '') = [t]" if "t \<noteq> []" "space_free t" for t
    using that fields_go_end [of t "[]"] fields_go_token [of t "CHR '' ''" "[]" "replicate (j - 1) CHR '' ''"] tail [of "rev t" j]
    by (cases j) simp_all
  have "fields_go [] (join ts '' '' @ replicate j CHR '' '') = ts"
    using assms
  proof (induction ts "'' ''" rule: join.induct)
    case (3 x y zs)
    then show ?case by (simp add: fields_go_token fields_go_space)
  qed (simp_all add: tail end_)
  then show ?thesis unfolding Fields_def by (induction i) (simp_all add: fields_go_space)
qed

lemma space_free_ascii:
  assumes "\<forall>c \<in> set t. (of_char c :: nat) < 128 \<and> c \<notin> set ascii_spaces"
  shows "space_free t"
  unfolding space_free_iff space_len_0_iff
proof (intro allI impI ballI notI)
  fix v u w assume t: "t = v @ u \<and> u \<noteq> []" and w: "w \<in> set space_runes" "has_prefix u w"
  have "w \<noteq> []" using w(1) by (auto simp: space_runes_def wide_spaces_def)
  then have "hd w \<in> set w" by simp
  moreover have "set w \<subseteq> set t" using w(2) t by (auto simp: has_prefix_iff)
  ultimately have "hd w \<in> set t" and h: "hd w \<in> set w" by auto
  then have "(of_char (hd w) :: nat) < 128" "hd w \<notin> set ascii_spaces" using assms by auto
  then show False using w(1) h wide_spaces_high [of w "hd w"] by (auto simp: space_runes_def)
qed

lemma space_free_no_break: "space_free t \<Longrightarrow> CHR 0x0A \<notin> set t \<and> CHR 0x0D \<notin> set t"
proof (rule ccontr)
  assume t: "space_free t" and "\<not> (CHR 0x0A \<notin> set t \<and> CHR 0x0D \<notin> set t)"
  then obtain c where c: "c \<in> set t" "c \<in> set ascii_spaces" by (auto simp: ascii_spaces_def)
  then obtain a b where "t = a @ c # b" by (meson split_list)
  with t have "space_len (c # b) = 0" unfolding space_free_iff by (metis list.distinct(1))
  with space_len_ascii [OF c(2), of b] show False by simp
qed

lemma set_join: "set (join ts sep) \<subseteq> \<Union> (set (map set ts)) \<union> set sep"
  by (induction ts sep rule: join.induct) auto

end
