(* ===== verification/GoConv.thy ===== *)
theory GoConv
  imports GoStrings
begin

text \<open>
  The parts of Go's \<^verbatim>\<open>unicode/utf8\<close> and \<^verbatim>\<open>strconv\<close> packages the program calls: UTF-8
  validity and rune boundaries, and decimal and hexadecimal numbers with their range checks.
\<close>

subsection \<open>UTF-8\<close>

definition cont_byte :: "char \<Rightarrow> bool" where
  "cont_byte c \<longleftrightarrow> 128 \<le> (of_char c :: nat) \<and> (of_char c :: nat) < 192"

text \<open>\<^verbatim>\<open>utf8.RuneStart\<close>: not a continuation byte.\<close>

definition rune_start :: "char \<Rightarrow> bool" where
  "rune_start c \<longleftrightarrow> \<not> cont_byte c"

definition second_byte_ok :: "nat \<Rightarrow> nat \<Rightarrow> bool" where
  "second_byte_ok b0 b1 \<longleftrightarrow>
     (if b0 = 0xE0 then 0xA0 else if b0 = 0xF0 then 0x90 else 0x80) \<le> b1 \<and>
     b1 \<le> (if b0 = 0xED then 0x9F else if b0 = 0xF4 then 0x8F else 0xBF)"

text \<open>The number of continuation bytes a lead byte asks for.\<close>

definition rune_need :: "nat \<Rightarrow> nat option" where
  "rune_need b0 =
     (if b0 < 0x80 then Some 0
      else if 0xC2 \<le> b0 \<and> b0 \<le> 0xDF then Some 1
      else if 0xE0 \<le> b0 \<and> b0 \<le> 0xEF then Some 2
      else if 0xF0 \<le> b0 \<and> b0 \<le> 0xF4 then Some 3
      else None)"

text \<open>The number of bytes of the valid encoding at the head of a string, 0 when there is none.\<close>

fun rune_len :: "bytes \<Rightarrow> nat" where
  "rune_len [] = 0"
| "rune_len (c0 # r) =
     (case rune_need (of_char c0) of
        None \<Rightarrow> 0
      | Some k \<Rightarrow>
          if k \<le> length r \<and> list_all cont_byte (take k r) \<and>
             (k \<noteq> 0 \<longrightarrow> second_byte_ok (of_char c0) (of_char (r ! 0)))
          then Suc k else 0)"

text \<open>\<^verbatim>\<open>utf8.ValidString\<close>.\<close>

function utf8_valid :: "bytes \<Rightarrow> bool" where
  "utf8_valid s =
     (if s = [] then True
      else if rune_len s = 0 then False
      else utf8_valid (drop (rune_len s) s))"
  by pat_completeness auto
termination
  by (relation "measure length") auto

declare utf8_valid.simps [simp del]

lemma rune_len_split:
  assumes "rune_len s = n" and "n \<noteq> 0"
  shows "\<exists>c w r. s = c # w @ r \<and> length w + 1 = n \<and> list_all cont_byte w \<and>
           (\<forall>t. rune_len (c # w @ t) = n)"
proof -
  from assms obtain c r0 where s: "s = c # r0" by (cases s) auto
  with assms obtain k where k: "rune_need (of_char c) = Some k" "n = Suc k" "k \<le> length r0"
    "list_all cont_byte (take k r0)" "k \<noteq> 0 \<longrightarrow> second_byte_ok (of_char c) (of_char (r0 ! 0))"
    by (auto split: option.splits if_splits)
  let ?w = "take k r0"
  have "rune_len (c # ?w @ t) = n" for t
    using k by (auto simp: nth_append)
  moreover have "s = c # ?w @ drop k r0" using s by simp
  ultimately show ?thesis
    using k by (intro exI [of _ c] exI [of _ ?w] exI [of _ "drop k r0"]) auto
qed

lemma drop_rune: "length w + 1 = n \<Longrightarrow> drop n (c # w @ r) = r"
  by auto

lemma utf8_valid_Nil [simp]: "utf8_valid []"
  by (simp add: utf8_valid.simps)

lemma utf8_valid_append: "utf8_valid s \<Longrightarrow> utf8_valid t \<Longrightarrow> utf8_valid (s @ t)"
proof (induction s rule: utf8_valid.induct)
  case (1 s)
  show ?case
  proof (cases "s = []")
    case True
    with "1.prems" show ?thesis by simp
  next
    case False
    with "1.prems"(1) have n: "rune_len s \<noteq> 0" and v: "utf8_valid (drop (rune_len s) s)"
      by (simp_all add: utf8_valid.simps [of s] split: if_splits)
    obtain c w r where s: "s = c # w @ r" and len: "length w + 1 = rune_len s"
      and pre: "\<And>t. rune_len (c # w @ t) = rune_len s"
      using rune_len_split [OF refl n] by blast
    have eq: "rune_len (s @ t) = rune_len s" using pre [of "r @ t"] s by simp
    moreover have "drop (rune_len s) (s @ t) = drop (rune_len s) s @ t"
      using drop_rune [OF len, of c r] drop_rune [OF len, of c "r @ t"] s by simp
    ultimately show ?thesis
      using "1.IH" [OF False n v "1.prems"(2)] n by (simp add: utf8_valid.simps [of "s @ t"])
  qed
qed

text \<open>In valid UTF-8 a byte that is not a continuation byte starts a rune: cutting there is safe.\<close>

lemma utf8_valid_take:
  "utf8_valid s \<Longrightarrow> i < length s \<Longrightarrow> rune_start (s ! i) \<Longrightarrow> utf8_valid (take i s)"
proof (induction s arbitrary: i rule: utf8_valid.induct)
  case (1 s)
  then have ne: "s \<noteq> []" by auto
  with "1.prems"(1) have n: "rune_len s \<noteq> 0" and v: "utf8_valid (drop (rune_len s) s)"
    by (simp_all add: utf8_valid.simps [of s] split: if_splits)
  obtain c w r where s: "s = c # w @ r" and len: "length w + 1 = rune_len s"
    and cw: "list_all cont_byte w" and pre: "\<And>t. rune_len (c # w @ t) = rune_len s"
    using rune_len_split [OF refl n] by blast
  show ?case
  proof (cases "i < rune_len s")
    case True
    have "i = 0"
    proof (rule ccontr)
      assume "i \<noteq> 0"
      then obtain j where j: "i = Suc j" by (cases i) auto
      with True len have "j < length w" by simp
      with cw s j have "cont_byte (s ! i)" by (simp add: list_all_length nth_append)
      with "1.prems"(3) show False by (simp add: rune_start_def)
    qed
    then show ?thesis by simp
  next
    case False
    let ?j = "i - rune_len s"
    from s have r: "drop (rune_len s) s = r" using drop_rune [OF len, of c r] by simp
    have i: "i = length (c # w) + ?j" using False len by simp
    have "length s = length (c # w) + length r" using s by simp
    with i "1.prems"(2) have "?j < length r" by linarith
    moreover have "r ! ?j = s ! i"
      using i s by (metis append_Cons nth_append_length_plus)
    ultimately have vr: "utf8_valid (take ?j r)"
      using "1.IH" [OF ne n v, of ?j] "1.prems"(3) n r by simp
    have t: "take i s = c # w @ take ?j r"
      using i s by (metis append_Cons append_eq_conv_conj append_take_drop_id length_Cons
          same_append_eq take_add)
    have "drop (rune_len s) (c # w @ take ?j r) = take ?j r" by (rule drop_rune [OF len])
    with vr n pre t show ?thesis by (simp add: utf8_valid.simps [of "c # w @ take ?j r"])
  qed
qed

lemma rune_need_le: "rune_need b = Some k \<Longrightarrow> k \<le> 3"
  by (auto simp: rune_need_def split: if_splits)

lemma rune_len_le: "rune_len s \<le> 4"
  using rune_need_le by (cases s) (fastforce split: option.splits)+

lemma rune_need_start: "rune_need (of_char c) = Some k \<Longrightarrow> rune_start c"
  by (auto simp: rune_need_def rune_start_def cont_byte_def split: if_splits)

lemma rune_len_start: "rune_len (c # s) \<noteq> 0 \<Longrightarrow> rune_start c"
  using rune_need_start by (fastforce split: option.splits)

text \<open>In valid UTF-8 every position is at most three bytes past the start of its rune.\<close>

lemma utf8_start_near:
  "utf8_valid s \<Longrightarrow> i < length s \<Longrightarrow> \<exists>j \<le> i. i \<le> j + 3 \<and> rune_start (s ! j)"
proof (induction s arbitrary: i rule: utf8_valid.induct)
  case (1 s)
  then have ne: "s \<noteq> []" by auto
  with "1.prems"(1) have n: "rune_len s \<noteq> 0" and v: "utf8_valid (drop (rune_len s) s)"
    by (simp_all add: utf8_valid.simps [of s] split: if_splits)
  show ?case
  proof (cases "i < rune_len s")
    case True
    have "rune_start (s ! 0)" using ne n rune_len_start by (cases s) auto
    moreover have "i \<le> 0 + 3" using True rune_len_le [of s] by simp
    ultimately show ?thesis by blast
  next
    case False
    then have "i - rune_len s < length (drop (rune_len s) s)" using "1.prems"(2) by simp
    then obtain j where j: "j \<le> i - rune_len s" "i - rune_len s \<le> j + 3"
      "rune_start (drop (rune_len s) s ! j)"
      using "1.IH" [OF ne n v] by blast
    have "rune_start (s ! (rune_len s + j))"
      using j "1.prems"(2) False by (simp add: nth_drop)
    then show ?thesis using j False by (intro exI [of _ "rune_len s + j"]) auto
  qed
qed

subsection \<open>Numbers\<close>

definition digit_char :: "nat \<Rightarrow> char" where
  "digit_char d = char_of (48 + d)"

fun show_nat :: "nat \<Rightarrow> bytes" where
  "show_nat n = (if n < 10 then [digit_char n] else show_nat (n div 10) @ [digit_char (n mod 10)])"

declare show_nat.simps [simp del]

text \<open>\<^verbatim>\<open>strconv.Itoa\<close> and the \<^verbatim>\<open>%d\<close> verb.\<close>

definition itoa :: "int \<Rightarrow> bytes" where
  "itoa i = (if i < 0 then CHR ''-'' # show_nat (nat (- i)) else show_nat (nat i))"

text \<open>The value of a digit in the bases up to 16.\<close>

definition digit_val :: "char \<Rightarrow> nat option" where
  "digit_val c = (let b = of_char c in
     if 48 \<le> b \<and> b \<le> 57 then Some (b - 48)
     else if 97 \<le> b \<and> b \<le> 102 then Some (b - 87)
     else if 65 \<le> b \<and> b \<le> 70 then Some (b - 55)
     else None)"

fun parse_digits :: "nat \<Rightarrow> nat \<Rightarrow> bytes \<Rightarrow> nat option" where
  "parse_digits base acc [] = Some acc"
| "parse_digits base acc (c # cs) =
     (case digit_val c of
        None \<Rightarrow> None
      | Some d \<Rightarrow> if d < base then parse_digits base (acc * base + d) cs else None)"

text \<open>\<^verbatim>\<open>strconv.ParseUint\<close> in a given base and bit size; \<^const>\<open>None\<close> is its error.\<close>

definition parse_uint :: "nat \<Rightarrow> nat \<Rightarrow> bytes \<Rightarrow> nat option" where
  "parse_uint base bits s =
     (if s = [] then None
      else case parse_digits base 0 s of
        None \<Rightarrow> None
      | Some n \<Rightarrow> if n < 2 ^ bits then Some n else None)"

text \<open>\<^verbatim>\<open>strconv.ParseInt\<close> in a given base and bit size.\<close>

definition parse_int :: "nat \<Rightarrow> nat \<Rightarrow> bytes \<Rightarrow> int option" where
  "parse_int base bits s =
     (let neg = has_prefix s ''-''; ds = (if has_prefix s ''-'' \<or> has_prefix s ''+'' then tl s else s)
      in if ds = [] then None
         else case parse_digits base 0 ds of
           None \<Rightarrow> None
         | Some n \<Rightarrow>
             (let i = (if neg then - int n else int n)
              in if - (2 ^ (bits - 1)) \<le> i \<and> i < 2 ^ (bits - 1) then Some i else None))"

text \<open>
  The value of \<^verbatim>\<open>strconv.ParseInt\<close> when its error is ignored: a number out of range is the nearest
  one in range and anything else is 0.
\<close>

definition parse_int_clamp :: "nat \<Rightarrow> nat \<Rightarrow> bytes \<Rightarrow> int" where
  "parse_int_clamp base bits s =
     (let neg = has_prefix s ''-''; ds = (if has_prefix s ''-'' \<or> has_prefix s ''+'' then tl s else s)
      in if ds = [] then 0
         else case parse_digits base 0 ds of
           None \<Rightarrow> 0
         | Some n \<Rightarrow> if neg then max (- (2 ^ (bits - 1))) (- int n) else min (2 ^ (bits - 1) - 1) (int n))"

text \<open>A hexadecimal digit in lower case.\<close>

definition hex_lower :: "nat \<Rightarrow> char" where
  "hex_lower n = (if n < 10 then char_of (48 + n) else char_of (87 + n))"

text \<open>\<^verbatim>\<open>strconv.Atoi\<close>: an optional sign, decimal digits, and the range of a 64-bit \<^verbatim>\<open>int\<close>.\<close>

definition atoi :: "bytes \<Rightarrow> int option" where
  "atoi s =
     (let (neg, ds) = (case s of
          c # cs \<Rightarrow> if c = CHR ''-'' then (True, cs) else if c = CHR ''+'' then (False, cs) else (False, s)
        | [] \<Rightarrow> (False, []))
      in if ds = [] then None
         else case parse_digits 10 0 ds of
           None \<Rightarrow> None
         | Some n \<Rightarrow>
             (let i = (if neg then - int n else int n)
              in if - (2 ^ 63) \<le> i \<and> i < 2 ^ 63 then Some i else None))"

lemma digit_val_digit_char: "d < 10 \<Longrightarrow> digit_val (digit_char d) = Some d"
  by (simp add: digit_val_def digit_char_def Let_def)

lemma parse_digits_append:
  "parse_digits base acc (s @ t) =
     (case parse_digits base acc s of None \<Rightarrow> None | Some a \<Rightarrow> parse_digits base a t)"
  by (induction base acc s rule: parse_digits.induct) (auto split: option.splits)

lemma parse_digits_show_nat: "parse_digits 10 0 (show_nat n) = Some n"
proof (induction n rule: show_nat.induct)
  case (1 n)
  show ?case
  proof (cases "n < 10")
    case True
    then show ?thesis by (subst show_nat.simps) (simp add: digit_val_digit_char)
  next
    case False
    with 1 show ?thesis
      by (subst show_nat.simps) (simp add: parse_digits_append digit_val_digit_char)
  qed
qed

lemma show_nat_nonempty [simp]: "show_nat n \<noteq> []"
  by (subst show_nat.simps) simp

lemma show_nat_digits: "c \<in> set (show_nat n) \<Longrightarrow> 48 \<le> (of_char c :: nat) \<and> (of_char c :: nat) \<le> 57"
proof (induction n rule: show_nat.induct)
  case (1 n)
  then show ?case
    by (subst (asm) (2) show_nat.simps) (auto simp: digit_char_def split: if_splits)
qed

lemma of_char_zero: "(of_char CHR ''0'' :: nat) = 48"
  by simp

lemma char_of_zero: "char_of (48 :: nat) = CHR ''0''"
  by (metis char_of_char of_char_zero)

lemma show_nat_hd: "0 < n \<Longrightarrow> hd (show_nat n) \<noteq> CHR ''0''"
proof (induction n rule: show_nat.induct)
  case (1 n)
  show ?case
  proof (cases "n < 10")
    case True
    have "(of_char (char_of (48 + n) :: char) :: nat) = 48 + n" using True by simp
    then have "char_of (48 + n) \<noteq> (CHR ''0'' :: char)" using 1(2) by (metis add_cancel_right_right neq0_conv of_char_zero)
    then show ?thesis using True by (subst show_nat.simps) (simp add: digit_char_def)
  next
    case False
    then show ?thesis using 1 by (subst show_nat.simps) auto
  qed
qed

lemma itoa_nonempty [simp]: "itoa i \<noteq> []"
  by (simp add: itoa_def)

lemma atoi_itoa:
  assumes "- (2 ^ 63) \<le> i" and "i < 2 ^ 63"
  shows "atoi (itoa i) = Some i"
proof (cases "i < 0")
  case True
  with assms show ?thesis by (simp add: atoi_def itoa_def parse_digits_show_nat)
next
  case False
  obtain c cs where s: "show_nat (nat i) = c # cs"
    by (cases "show_nat (nat i)") auto
  then have "48 \<le> (of_char c :: nat)" using show_nat_digits [of c "nat i"] by simp
  then have "c \<noteq> CHR ''-''" "c \<noteq> CHR ''+''" by auto
  with False assms s show ?thesis
    using parse_digits_show_nat [of "nat i"] by (simp add: atoi_def itoa_def)
qed

end
