(* ===== verification/Cache.thy ===== *)
theory Cache
  imports GoConv "HOL-Library.AList"
begin

text \<open>
  \<^verbatim>\<open>daemon/internal/daemon/cache\<close>: the daemon's in-process cache with its entry cap, and the
  bookkeeping that bounds how many invocations of a tool may be running at once. The Go map of
  entries is an association list without duplicate keys, so that its length is the code's
  \<^verbatim>\<open>len(c.m)\<close>. SHA-256 and the JSON decoder and encoder behind \<^verbatim>\<open>Key\<close> are arguments.
  \<^verbatim>\<open>singleflight\<close> is not modelled: which caller leads and which joins is left open, so what is
  shown here holds for every such choice.
\<close>

subsection \<open>Entries\<close>

record Entry =
  e_data :: bytes
  e_warnings :: "bytes list"
  e_builtat :: time
  e_ttl :: duration

definition Age :: "Entry \<Rightarrow> time \<Rightarrow> duration" where
  "Age e now = now - e_builtat e"

definition Expired :: "Entry \<Rightarrow> time \<Rightarrow> bool" where
  "Expired e now \<longleftrightarrow> e_ttl e < Age e now"

definition MaxEntries :: nat where
  "MaxEntries = 4096"

definition MaxInFlightPerKey :: int where
  "MaxInFlightPerKey = 2"

definition MaxInFlightTotal :: int where
  "MaxInFlightTotal = 64"

record Cache =
  c_m :: "(bytes \<times> Entry) list"
  c_inFlight :: "bytes \<rightharpoonup> int"
  c_inFlightTotal :: int
  c_stalled :: "bytes \<Rightarrow> bool"

definition NewCache :: Cache where
  "NewCache = \<lparr>c_m = [], c_inFlight = Map.empty, c_inFlightTotal = 0, c_stalled = (\<lambda>_. False)\<rparr>"

subsection \<open>Lookup, Store, Sweep\<close>

definition Lookup :: "Cache \<Rightarrow> bytes \<Rightarrow> time \<Rightarrow> Entry option" where
  "Lookup c key now =
     (case map_of (c_m c) key of
        None \<Rightarrow> None
      | Some e \<Rightarrow> if Expired e now then None else Some e)"

definition cache_sweepLocked :: "Cache \<Rightarrow> time \<Rightarrow> Cache" where
  "cache_sweepLocked c now = c\<lparr>c_m := filter (\<lambda>(k, e). \<not> Expired e now) (c_m c)\<rparr>"

definition Store :: "Cache \<Rightarrow> bytes \<Rightarrow> Entry \<Rightarrow> time \<Rightarrow> Cache" where
  "Store c key e now =
     (if map_of (c_m c) key = None \<and> MaxEntries \<le> length (c_m c) then
        (let c1 = cache_sweepLocked c now
         in if MaxEntries \<le> length (c_m c1) then c1
            else c1\<lparr>c_m := AList.update key e (c_m c1)\<rparr>)
      else c\<lparr>c_m := AList.update key e (c_m c)\<rparr>)"

definition Sweep :: "Cache \<Rightarrow> time \<Rightarrow> Cache" where
  "Sweep c now = cache_sweepLocked c now"

subsection \<open>Keys\<close>

definition hex_char :: "nat \<Rightarrow> char" where
  "hex_char d = char_of (if d < 10 then 48 + d else 87 + d)"

text \<open>\<^verbatim>\<open>hex.EncodeToString\<close>.\<close>

definition hex_encode :: "bytes \<Rightarrow> bytes" where
  "hex_encode bs = concat (map (\<lambda>c. [hex_char (of_char c div 16), hex_char (of_char c mod 16)]) bs)"

definition canonicaliseJSON :: "(bytes \<Rightarrow> 'j option) \<Rightarrow> ('j \<Rightarrow> bytes option) \<Rightarrow> bytes \<Rightarrow> bytes" where
  "canonicaliseJSON unmarshal marshal b =
     (case unmarshal b of
        None \<Rightarrow> b
      | Some v \<Rightarrow> (case marshal v of None \<Rightarrow> b | Some out \<Rightarrow> out))"

definition Key ::
  "(bytes \<Rightarrow> bytes) \<Rightarrow> (bytes \<Rightarrow> 'j option) \<Rightarrow> ('j \<Rightarrow> bytes option) \<Rightarrow> bytes \<Rightarrow> bytes \<Rightarrow> bytes" where
  "Key sha256 unmarshal marshal tool args =
     (let canon = canonicaliseJSON unmarshal marshal args
      in tool @ '':'' @ hex_encode (sha256 (tool @ [CHR 0x00] @ canon)))"

subsection \<open>Running invocations\<close>

definition inFlight_of :: "Cache \<Rightarrow> bytes \<Rightarrow> int" where
  "inFlight_of c k = (case c_inFlight c k of None \<Rightarrow> 0 | Some n \<Rightarrow> n)"

text \<open>\<^verbatim>\<open>admit\<close>: \<^const>\<open>False\<close> is \<^verbatim>\<open>ErrStalled\<close>.\<close>

definition admit :: "Cache \<Rightarrow> bytes \<Rightarrow> bool" where
  "admit c k \<longleftrightarrow> \<not> (MaxInFlightPerKey \<le> inFlight_of c k \<or> MaxInFlightTotal \<le> c_inFlightTotal c)"

definition enter :: "Cache \<Rightarrow> bytes \<Rightarrow> Cache" where
  "enter c k =
     (let c1 = c\<lparr>c_inFlight := (c_inFlight c)(k \<mapsto> inFlight_of c k + 1),
                 c_inFlightTotal := c_inFlightTotal c + 1\<rparr>
      in if MaxInFlightPerKey \<le> inFlight_of c1 k \<and> \<not> c_stalled c1 k
         then c1\<lparr>c_stalled := (c_stalled c1)(k := True)\<rparr> else c1)"

definition leave :: "Cache \<Rightarrow> bytes \<Rightarrow> Cache" where
  "leave c k =
     (let c1 = c\<lparr>c_inFlightTotal := c_inFlightTotal c - 1\<rparr>
      in if inFlight_of c1 k \<le> 1
         then c1\<lparr>c_inFlight := (c_inFlight c1)(k := None), c_stalled := (c_stalled c1)(k := False)\<rparr>
         else c1\<lparr>c_inFlight := (c_inFlight c1)(k \<mapsto> inFlight_of c1 k - 1)\<rparr>)"

definition InFlight :: "Cache \<Rightarrow> bytes \<Rightarrow> int \<times> int" where
  "InFlight c k = (inFlight_of c k, c_inFlightTotal c)"

subsection \<open>Do\<close>

text \<open>
  How the function given to \<^verbatim>\<open>Do\<close> ended, and how the caller's wait ended: with the result, or
  with its context done because the deadline passed or because the request was cancelled.
\<close>

datatype ('e, 'a) fn_result = FnOk 'a | FnErr 'e | FnPanic bytes

datatype wait_end = Delivered | DeadlinePassed | Cancelled

datatype 'e do_error = Stalled | DeadlineExceeded | ContextCanceled | ToolError 'e | Panicked bytes

definition fn_value :: "('e, 'a) fn_result \<Rightarrow> 'e do_error + 'a" where
  "fn_value r = (case r of
     FnOk a \<Rightarrow> Inr a
   | FnErr e \<Rightarrow> Inl (ToolError e)
   | FnPanic m \<Rightarrow> Inl (Panicked (''cache: tool panicked: '' @ m)))"

text \<open>
  One call of \<^verbatim>\<open>Do\<close> from admission to the end of the caller's wait. \<open>leads\<close> says whether
  singleflight started a new invocation for this caller; \<open>fin\<close> is the state of the cache and the
  result when that invocation (its own, or the one it joined) ends. An invocation whose caller
  gives up keeps running: it has been entered and not left.
\<close>

definition Do ::
  "Cache \<Rightarrow> bytes \<Rightarrow> bool \<Rightarrow> wait_end \<Rightarrow> (Cache \<Rightarrow> Cache \<times> ('e, 'a) fn_result) \<Rightarrow>
   Cache \<times> ('e do_error + 'a)" where
  "Do c k leads w fin =
     (if \<not> admit c k then (c, Inl Stalled)
      else
        (let c1 = (if leads then enter c k else c)
         in case w of
              Delivered \<Rightarrow>
                (let (c2, r) = fin c1
                 in (if leads then leave c2 k else c2, fn_value r))
            | DeadlinePassed \<Rightarrow> (c1, Inl DeadlineExceeded)
            | Cancelled \<Rightarrow> (c1, Inl ContextCanceled)))"

subsection \<open>The entries: capacity and freshness\<close>

definition cache_inv :: "Cache \<Rightarrow> bool" where
  [inv_defs]: "cache_inv c \<longleftrightarrow> distinct (map fst (c_m c)) \<and> length (c_m c) \<le> MaxEntries"

lemma cache_inv_new: "cache_inv NewCache"
  by (simp add: cache_inv_def NewCache_def)

lemma distinct_map_fst_filter: "distinct (map fst xs) \<Longrightarrow> distinct (map fst (filter P xs))"
  by (induction xs) auto

lemma map_of_filter_distinct:
  "distinct (map fst xs) \<Longrightarrow>
     map_of (filter (\<lambda>(k, e). P e) xs) k = (case map_of xs k of None \<Rightarrow> None | Some e \<Rightarrow> if P e then Some e else None)"
proof (induction xs)
  case Nil
  then show ?case by simp
next
  case (Cons x xs)
  obtain a e where x: "x = (a, e)" by (cases x)
  from Cons.prems x have a: "map_of xs a = None" by (simp add: map_of_eq_None_iff)
  from Cons have IH: "map_of (filter (\<lambda>(k, e). P e) xs) k =
      (case map_of xs k of None \<Rightarrow> None | Some e \<Rightarrow> if P e then Some e else None)" by simp
  show ?case
  proof (cases "k = a")
    case True
    with x a IH show ?thesis by simp
  next
    case False
    with x IH show ?thesis by simp
  qed
qed

lemma length_update_distinct:
  "length (AList.update k v xs) = (if k \<in> set (map fst xs) then length xs else Suc (length xs))"
  by (induction xs) auto

lemma sweep_length: "length (c_m (cache_sweepLocked c now)) \<le> length (c_m c)"
  by (simp add: cache_sweepLocked_def)

lemma sweep_inv: "cache_inv c \<Longrightarrow> cache_inv (cache_sweepLocked c now)"
  using sweep_length [of c now]
  by (simp add: cache_inv_def) (simp add: cache_sweepLocked_def distinct_map_fst_filter)

lemma Store_inv: "cache_inv c \<Longrightarrow> cache_inv (Store c key e now)"
  using sweep_inv [of c now]
  by (auto simp: Store_def Let_def cache_inv_def length_update_distinct distinct_update
      cache_sweepLocked_def map_of_eq_None_iff)

lemma Expired_mono: "Expired e t \<Longrightarrow> t \<le> u \<Longrightarrow> Expired e u"
  by (simp add: Expired_def Age_def)

text \<open>Dropping entries that have expired changes no later lookup.\<close>

lemma Lookup_sweep:
  assumes "cache_inv c" and "t \<le> u"
  shows "Lookup (cache_sweepLocked c t) k u = Lookup c k u"
proof -
  have "distinct (map fst (c_m c))" using assms(1) by (simp add: cache_inv_def)
  then show ?thesis
    using Expired_mono [OF _ assms(2)]
    by (auto simp: Lookup_def cache_sweepLocked_def map_of_filter_distinct split: option.splits)
qed

lemma Lookup_update_other: "k' \<noteq> k \<Longrightarrow> Lookup (c\<lparr>c_m := AList.update k e (c_m c)\<rparr>) k' u = Lookup c k' u"
  by (simp add: Lookup_def update_conv')

lemma Store_other:
  assumes "cache_inv c" and "t \<le> u" and "k' \<noteq> k"
  shows "Lookup (Store c k e t) k' u = Lookup c k' u"
proof -
  have "Lookup (cache_sweepLocked c t) k' u = Lookup c k' u" by (rule Lookup_sweep [OF assms(1,2)])
  then show ?thesis
    by (simp add: Store_def Let_def Lookup_update_other [OF assms(3)])
qed

lemma Store_same:
  assumes "Lookup (Store c k e t) k u = Some x" and "cache_inv c"
  shows "x = e"
proof -
  have "map_of (c_m (cache_sweepLocked c t)) k = None" if "map_of (c_m c) k = None"
    using that assms(2) by (simp add: cache_sweepLocked_def cache_inv_def map_of_filter_distinct)
  with assms(1) show ?thesis
    by (auto simp: Store_def Lookup_def Let_def update_conv' split: option.splits if_splits)
qed

lemma Store_kept:
  assumes "length (c_m c) < MaxEntries \<or> map_of (c_m c) k \<noteq> None \<or> (\<exists>(a, x) \<in> set (c_m c). Expired x t)"
    and "\<not> Expired e u" and "cache_inv c"
  shows "Lookup (Store c k e t) k u = Some e"
proof -
  have room: "length (c_m (cache_sweepLocked c t)) < MaxEntries"
    if "\<exists>(a, x) \<in> set (c_m c). Expired x t"
  proof -
    from that obtain y where "y \<in> set (c_m c)" "\<not> (case y of (k, x) \<Rightarrow> \<not> Expired x t)" by auto
    then have "length (filter (\<lambda>(k, x). \<not> Expired x t) (c_m c)) < length (c_m c)"
      by (rule length_filter_less)
    then show ?thesis using assms(3) by (simp add: cache_sweepLocked_def cache_inv_def)
  qed
  show ?thesis
  proof (cases "map_of (c_m c) k = None \<and> MaxEntries \<le> length (c_m c)")
    case True
    with assms(1) have "\<exists>(a, x) \<in> set (c_m c). Expired x t" by auto
    from room [OF this] True assms(2) show ?thesis
      by (simp add: Store_def Lookup_def Let_def update_conv')
  next
    case False
    with assms(2) show ?thesis
      by (auto simp: Store_def Lookup_def Let_def update_conv')
  qed
qed

text \<open>
  What a client of the cache relies on: it never gets an expired entry, it gets back what was
  stored last under the key or nothing, and storing under one key leaves the others alone.
\<close>

locale entry_cache =
  fixes lookup :: "'c \<Rightarrow> bytes \<Rightarrow> time \<Rightarrow> Entry option"
    and store :: "'c \<Rightarrow> bytes \<Rightarrow> Entry \<Rightarrow> time \<Rightarrow> 'c"
    and inv :: "'c \<Rightarrow> bool"
  assumes lookup_fresh: "lookup c k u = Some e \<Longrightarrow> \<not> Expired e u"
    and store_same: "inv c \<Longrightarrow> lookup (store c k e t) k u = Some x \<Longrightarrow> x = e"
    and store_other: "inv c \<Longrightarrow> t \<le> u \<Longrightarrow> k' \<noteq> k \<Longrightarrow> lookup (store c k e t) k' u = lookup c k' u"
    and store_inv: "inv c \<Longrightarrow> inv (store c k e t)"
begin

text \<open>After any sequence of stores a hit is the entry of the last store under its key.\<close>

fun store_all :: "'c \<Rightarrow> (bytes \<times> Entry \<times> time) list \<Rightarrow> 'c" where
  "store_all c [] = c"
| "store_all c ((k, e, t) # ss) = store_all (store c k e t) ss"

lemma store_all_other:
  "inv c \<Longrightarrow> \<forall>(k', e, t) \<in> set ss. k' \<noteq> k \<and> t \<le> u \<Longrightarrow> lookup (store_all c ss) k u = lookup c k u"
  by (induction c ss rule: store_all.induct) (auto simp: store_other store_inv)

lemma last_store_wins:
  assumes "inv c" and "\<forall>(k', x, t') \<in> set ss. k' \<noteq> k \<and> t' \<le> u"
    and "lookup (store_all (store c k e t) ss) k u = Some x"
  shows "x = e \<and> \<not> Expired e u"
proof -
  have "lookup (store_all (store c k e t) ss) k u = lookup (store c k e t) k u"
    using assms(1,2) by (intro store_all_other store_inv) auto
  with assms show ?thesis using store_same lookup_fresh by metis
qed

end

interpretation daemon_cache: entry_cache Lookup Store cache_inv
proof (unfold_locales, goal_cases)
  case (1 c k u e)
  then show ?case by (auto simp: Lookup_def split: option.splits if_splits)
next
  case (2 c k e t u x)
  then show ?case using Store_same by blast
next
  case (3 c t u k' k e)
  then show ?case by (simp add: Store_other)
next
  case (4 c k e t)
  then show ?case by (rule Store_inv)
qed

subsection \<open>Properties of the entries\<close>

text \<open>
  A lookup after a store and any later stores under other keys returns the entry that was
  stored or nothing, and never an entry whose time to live has passed.
\<close>

lemma lookup_returns_last_store:
  assumes "cache_inv c" and "\<forall>(k', x, t') \<in> set ss. k' \<noteq> k \<and> t' \<le> u"
    and "Lookup (daemon_cache.store_all (Store c k e t) ss) k u = Some x"
  shows "x = e \<and> \<not> Expired e u"
  using assms by (rule daemon_cache.last_store_wins)

text \<open>
  Storing keeps the map within its cap of 4096 entries; and the entry is really kept, so a
  lookup before its time to live ends finds it, unless the map is full of other keys that are
  all still live.
\<close>

lemma store_bounded_and_kept:
  assumes "cache_inv c"
  shows "length (c_m (Store c k e t)) \<le> 4096 \<and>
    (Lookup (Store c k e t) k u = (if Expired e u then None else Some e) \<or>
     length (c_m c) = 4096 \<and> map_of (c_m c) k = None \<and> (\<forall>(a, x) \<in> set (c_m c). \<not> Expired x t))"
proof -
  have "cache_inv (Store c k e t)" by (rule Store_inv [OF assms])
  then have b: "length (c_m (Store c k e t)) \<le> 4096" by (simp add: cache_inv_def MaxEntries_def)
  have n: "Lookup (Store c k e t) k u = None" if x: "Expired e u"
  proof (cases "Lookup (Store c k e t) k u")
    case (Some y)
    then have "y = e" "\<not> Expired y u"
      using Store_same [OF _ assms] daemon_cache.lookup_fresh by blast+
    with x show ?thesis by simp
  qed
  consider "length (c_m c) < MaxEntries \<or> map_of (c_m c) k \<noteq> None \<or> (\<exists>(a, x) \<in> set (c_m c). Expired x t)"
    | "MaxEntries \<le> length (c_m c) \<and> map_of (c_m c) k = None \<and> (\<forall>(a, x) \<in> set (c_m c). \<not> Expired x t)"
    by fastforce
  then show ?thesis
  proof cases
    case 1
    then show ?thesis using b n Store_kept [OF 1 _ assms] by auto
  next
    case 2
    then show ?thesis using b assms by (auto simp: cache_inv_def MaxEntries_def)
  qed
qed

subsection \<open>Running invocations as a transition system\<close>

text \<open>
  The concurrent callers of \<^verbatim>\<open>Do\<close>. Each locked section (\<^const>\<open>admit\<close>, \<^const>\<open>enter\<close>,
  \<^const>\<open>leave\<close>) is one step; between \<^const>\<open>admit\<close> and the moment singleflight either starts
  the function or joins the caller to a running one, other callers may act. \<open>N\<close> bounds how many
  callers can be in that gap at once; the listener's connection cap is such a bound.
\<close>

record flight =
  fl_cache :: Cache
  fl_admitted :: "bytes list"
  fl_running :: "bytes list"

definition flight_init :: "flight \<Rightarrow> bool" where
  "flight_init s \<longleftrightarrow> s = \<lparr>fl_cache = NewCache, fl_admitted = [], fl_running = []\<rparr>"

inductive flight_step :: "nat \<Rightarrow> flight \<Rightarrow> flight \<Rightarrow> bool" for N where
  fl_admit: "admit (fl_cache s) k \<Longrightarrow> length (fl_admitted s) < N \<Longrightarrow>
    flight_step N s (s\<lparr>fl_admitted := k # fl_admitted s\<rparr>)"
| fl_lead: "k \<in> set (fl_admitted s) \<Longrightarrow>
    flight_step N s (s\<lparr>fl_cache := enter (fl_cache s) k, fl_admitted := remove1 k (fl_admitted s),
      fl_running := k # fl_running s\<rparr>)"
| fl_join: "k \<in> set (fl_admitted s) \<Longrightarrow>
    flight_step N s (s\<lparr>fl_admitted := remove1 k (fl_admitted s)\<rparr>)"
| fl_store: "flight_step N s (s\<lparr>fl_cache := Store (fl_cache s) k e t\<rparr>)"
| fl_sweep: "flight_step N s (s\<lparr>fl_cache := Sweep (fl_cache s) t\<rparr>)"
| fl_return: "k \<in> set (fl_running s) \<Longrightarrow>
    flight_step N s (s\<lparr>fl_cache := leave (fl_cache s) k, fl_running := remove1 k (fl_running s)\<rparr>)"

definition flight_inv :: "nat \<Rightarrow> flight \<Rightarrow> bool" where
  [inv_defs]: "flight_inv N s \<longleftrightarrow>
     (\<forall>k. c_inFlight (fl_cache s) k =
        (if count_list (fl_running s) k = 0 then None else Some (int (count_list (fl_running s) k)))) \<and>
     c_inFlightTotal (fl_cache s) = int (length (fl_running s)) \<and>
     (\<forall>k. c_stalled (fl_cache s) k \<longrightarrow> k \<in> set (fl_running s)) \<and>
     length (fl_admitted s) \<le> N \<and>
     length (fl_running s) + length (fl_admitted s) \<le> 63 + N \<and>
     (\<forall>k. count_list (fl_running s) k + count_list (fl_admitted s) k \<le> 1 + N)"

lemma count_remove1: "count_list (remove1 a xs) k = (if a = k then count_list xs k - 1 else count_list xs k)"
  by (induction xs) (auto simp: count_list_0_iff gr0_conv_Suc neq0_conv[symmetric] simp del: neq0_conv)

lemma Store_flight [simp]:
  "c_inFlight (Store c k e t) = c_inFlight c" "c_inFlightTotal (Store c k e t) = c_inFlightTotal c"
  "c_stalled (Store c k e t) = c_stalled c"
  by (simp_all add: Store_def Let_def cache_sweepLocked_def)

lemma Sweep_flight [simp]:
  "c_inFlight (Sweep c t) = c_inFlight c" "c_inFlightTotal (Sweep c t) = c_inFlightTotal c"
  "c_stalled (Sweep c t) = c_stalled c"
  by (simp_all add: Sweep_def cache_sweepLocked_def)

text \<open>What each locked section does to the counters.\<close>

lemma inFlight_of_running:
  "flight_inv N s \<Longrightarrow> inFlight_of (fl_cache s) k = int (count_list (fl_running s) k)"
  by (simp add: flight_inv_def inFlight_of_def)

lemma enter_counts:
  "c_inFlight (enter c k) = (c_inFlight c)(k \<mapsto> inFlight_of c k + 1)"
  "c_inFlightTotal (enter c k) = c_inFlightTotal c + 1"
  "c_stalled (enter c k) j \<Longrightarrow> c_stalled c j \<or> j = k"
  by (auto simp: enter_def Let_def split: if_splits)

lemma leave_counts:
  "c_inFlight (leave c k) = (if inFlight_of c k \<le> 1 then (c_inFlight c)(k := None)
     else (c_inFlight c)(k \<mapsto> inFlight_of c k - 1))"
  "c_inFlightTotal (leave c k) = c_inFlightTotal c - 1"
  "c_stalled (leave c k) = (if inFlight_of c k \<le> 1 then (c_stalled c)(k := False) else c_stalled c)"
  by (simp_all add: leave_def Let_def inFlight_of_def)

lemma count_pos_mem: "0 < count_list xs k \<longleftrightarrow> k \<in> set xs"
  using count_list_0_iff [of xs k] by auto

lemma length_remove1_mem: "k \<in> set xs \<Longrightarrow> Suc (length (remove1 k xs)) = length xs"
  by (induction xs) auto

lemma admit_inv:
  assumes "flight_inv N s" and "admit (fl_cache s) k" and "length (fl_admitted s) < N"
  shows "flight_inv N (s\<lparr>fl_admitted := k # fl_admitted s\<rparr>)"
proof -
  have r: "count_list (fl_running s) k < 2" "length (fl_running s) < 64"
    using assms(2) inFlight_of_running [OF assms(1), of k] assms(1)
    by (simp_all add: admit_def MaxInFlightPerKey_def MaxInFlightTotal_def flight_inv_def)
  have a: "count_list (fl_admitted s) k \<le> length (fl_admitted s)" by (rule count_le_length)
  show ?thesis using assms(1,3) r a by (simp add: flight_inv_def)
qed

lemma lead_inv:
  assumes "flight_inv N s" and "k \<in> set (fl_admitted s)"
  shows "flight_inv N (s\<lparr>fl_cache := enter (fl_cache s) k, fl_admitted := remove1 k (fl_admitted s),
    fl_running := k # fl_running s\<rparr>)"
proof -
  have l: "Suc (length (remove1 k (fl_admitted s))) = length (fl_admitted s)"
    using assms(2) by (rule length_remove1_mem)
  have c: "Suc (count_list (remove1 k (fl_admitted s)) k) = count_list (fl_admitted s) k"
    using assms(2) count_pos_mem [of "fl_admitted s" k] by (simp add: count_remove1)
  have "c_stalled (enter (fl_cache s) k) j \<Longrightarrow> j = k \<or> j \<in> set (fl_running s)" for j
    using enter_counts(3) [of "fl_cache s" k j] assms(1) by (auto simp: flight_inv_def)
  moreover have "count_list (k # fl_running s) j + count_list (remove1 k (fl_admitted s)) j \<le> 1 + N" for j
  proof -
    have "count_list (fl_running s) j + count_list (fl_admitted s) j \<le> 1 + N"
      using assms(1) by (simp add: flight_inv_def)
    then show ?thesis using c by (cases "j = k") (auto simp: count_remove1)
  qed
  moreover have "c_inFlight (enter (fl_cache s) k) j =
      (if count_list (k # fl_running s) j = 0 then None else Some (int (count_list (k # fl_running s) j)))" for j
    using assms(1) inFlight_of_running [OF assms(1), of k] by (simp add: flight_inv_def enter_counts)
  ultimately show ?thesis
    using assms(1) l by (auto simp: flight_inv_def enter_counts(2))
qed

lemma return_inv:
  assumes "flight_inv N s" and "k \<in> set (fl_running s)"
  shows "flight_inv N (s\<lparr>fl_cache := leave (fl_cache s) k, fl_running := remove1 k (fl_running s)\<rparr>)"
proof -
  have l: "Suc (length (remove1 k (fl_running s))) = length (fl_running s)"
    using assms(2) by (rule length_remove1_mem)
  have c: "0 < count_list (fl_running s) k" using assms(2) by (simp add: count_pos_mem)
  have i: "inFlight_of (fl_cache s) k = int (count_list (fl_running s) k)"
    by (rule inFlight_of_running [OF assms(1)])
  have m: "j \<in> set (remove1 k (fl_running s))"
    if "c_stalled (leave (fl_cache s) k) j" for j
  proof -
    from that have "j \<in> set (fl_running s)" "j = k \<longrightarrow> 1 < count_list (fl_running s) k"
      using assms(1) i by (auto simp: flight_inv_def leave_counts split: if_splits)
    then have "0 < count_list (remove1 k (fl_running s)) j"
      using count_pos_mem [of "fl_running s" j] by (auto simp: count_remove1)
    then show ?thesis by (rule count_pos_mem [THEN iffD1])
  qed
  have t: "c_inFlightTotal (fl_cache s) - 1 = int (length (remove1 k (fl_running s)))"
    using assms(1) l by (simp add: flight_inv_def)
  have f: "c_inFlight (leave (fl_cache s) k) j =
      (if count_list (remove1 k (fl_running s)) j = 0 then None
       else Some (int (count_list (remove1 k (fl_running s)) j)))" for j
    using assms(1) c i by (auto simp: flight_inv_def leave_counts count_remove1 of_nat_diff)
  have b: "count_list (remove1 k (fl_running s)) j + count_list (fl_admitted s) j \<le> 1 + N" for j
  proof -
    have "count_list (fl_running s) j + count_list (fl_admitted s) j \<le> 1 + N"
      using assms(1) by (simp add: flight_inv_def)
    then show ?thesis by (auto simp: count_remove1)
  qed
  show ?thesis using assms(1) l f t m b by (simp add: flight_inv_def leave_counts(2))
qed

lemma join_inv:
  assumes "flight_inv N s"
  shows "flight_inv N (s\<lparr>fl_admitted := remove1 k (fl_admitted s)\<rparr>)"
proof -
  have "length (remove1 k (fl_admitted s)) \<le> length (fl_admitted s)" by (simp add: length_remove1)
  moreover have "count_list (fl_running s) j + count_list (remove1 k (fl_admitted s)) j \<le> 1 + N" for j
  proof -
    have "count_list (fl_running s) j + count_list (fl_admitted s) j \<le> 1 + N"
      using assms by (simp add: flight_inv_def)
    then show ?thesis by (auto simp: count_remove1)
  qed
  ultimately show ?thesis using assms by (simp add: flight_inv_def)
qed

interpretation flights: invariant_system flight_init "flight_step N" "flight_inv N" for N
proof (unfold_locales, goal_cases)
  case (1 s)
  then show ?case by (simp add: flight_init_def flight_inv_def NewCache_def)
next
  case (2 s t)
  from this(2) this(1) show ?case
  proof (induction rule: flight_step.induct)
    case (fl_store s k e t)
    then show ?case by (simp add: flight_inv_def)
  next
    case (fl_sweep s t)
    then show ?case by (simp add: flight_inv_def)
  qed (rule admit_inv lead_inv join_inv return_inv; assumption)+
qed

text \<open>
  C5: In every state the concurrent callers of the cache can reach, with at most N of them past
  admission and not yet started, the counters are exactly the numbers of invocations that are
  running, at most 63 + N invocations run in all and at most 1 + N under one key; a key that is
  marked stalled has a running invocation, and once nothing is running every key is admitted.
\<close>

theorem in_flight_bounded:
  assumes "reachable flight_init (flight_step N) s"
  shows "InFlight (fl_cache s) k = (int (count_list (fl_running s) k), int (length (fl_running s))) \<and>
    length (fl_running s) \<le> 63 + N \<and> count_list (fl_running s) k \<le> 1 + N \<and>
    (c_stalled (fl_cache s) k \<longrightarrow> k \<in> set (fl_running s)) \<and>
    (fl_running s = [] \<longrightarrow> admit (fl_cache s) k)"
proof -
  have i: "flight_inv N s" using assms by (rule flights.reachable_inv)
  then have n: "inFlight_of (fl_cache s) k = int (count_list (fl_running s) k)"
    by (rule inFlight_of_running)
  have b: "count_list (fl_running s) k + count_list (fl_admitted s) k \<le> 1 + N"
    "length (fl_running s) + length (fl_admitted s) \<le> 63 + N"
    "c_inFlightTotal (fl_cache s) = int (length (fl_running s))"
    "c_stalled (fl_cache s) k \<Longrightarrow> k \<in> set (fl_running s)"
    using i by (simp_all add: flight_inv_def)
  then show ?thesis
    using n by (auto simp: InFlight_def admit_def MaxInFlightPerKey_def MaxInFlightTotal_def)
qed

definition one_running :: flight where
  "one_running = \<lparr>fl_cache = enter NewCache ''a'', fl_admitted = [], fl_running = [''a'']\<rparr>"

lemma one_running_reachable: "reachable flight_init (flight_step 16) one_running"
proof -
  let ?s0 = "\<lparr>fl_cache = NewCache, fl_admitted = [], fl_running = []\<rparr>"
  let ?s1 = "?s0\<lparr>fl_admitted := [''a'']\<rparr>"
  have "reachable flight_init (flight_step 16) ?s0"
    by (rule reachable_init) (simp add: flight_init_def)
  moreover have "flight_step 16 ?s0 ?s1"
    using fl_admit [of ?s0 "''a''" 16]
    by (simp add: admit_def inFlight_of_def NewCache_def MaxInFlightPerKey_def MaxInFlightTotal_def)
  moreover have "flight_step 16 ?s1 one_running"
    using fl_lead [of "''a''" ?s1 16] by (simp add: one_running_def)
  ultimately show ?thesis by (blast intro: reachable_step)
qed

theorem in_flight_bounded_witness:
  "InFlight (fl_cache one_running) ''a'' = (int (count_list (fl_running one_running) ''a''), int (length (fl_running one_running))) \<and>
    length (fl_running one_running) \<le> 63 + 16 \<and> count_list (fl_running one_running) ''a'' \<le> 1 + 16"
  using in_flight_bounded [OF one_running_reachable] by blast

end
