(* ===== verification/RateLimit.thy ===== *)
theory RateLimit
  imports Complex_Main GoConv
begin

text \<open>
  \<^verbatim>\<open>daemon/internal/daemon/ratelimit\<close>: the two-level token-bucket limiter. Token counts are
  \<^verbatim>\<open>float64\<close> in the code and rationals here, so rounding is not modelled; times are
  nanoseconds. The two Go maps of buckets are maps, and the mutex makes each call of \<^verbatim>\<open>Allow\<close>
  and each tick of the sweeper one step. The clock reading of a call is an argument.
\<close>

subsection \<open>Buckets\<close>

record BucketCfg =
  SustainedPerMin :: int
  Burst :: int
  Disabled :: bool

record bucket =
  b_cfg :: BucketCfg
  b_tokens :: rat
  b_lastFill :: time
  b_lastTouched :: time

definition newBucket :: "BucketCfg \<Rightarrow> time \<Rightarrow> bucket" where
  "newBucket cfg now =
     \<lparr>b_cfg = cfg, b_tokens = of_int (Burst cfg), b_lastFill = now, b_lastTouched = now\<rparr>"

text \<open>The accrual of \<^verbatim>\<open>tryTake\<close>: \<open>dt\<close> seconds at \<open>SustainedPerMin / 60\<close> tokens a second, capped at
  the burst.\<close>

definition accrued :: "bucket \<Rightarrow> time \<Rightarrow> rat" where
  "accrued b now =
     (let dt = of_int (now - b_lastFill b) / of_int Second;
          rate = of_int (SustainedPerMin (b_cfg b)) / 60;
          t = b_tokens b + dt * rate
      in if of_int (Burst (b_cfg b)) < t then of_int (Burst (b_cfg b)) else t)"

definition tryTake :: "bucket \<Rightarrow> time \<Rightarrow> bucket \<times> bool" where
  "tryTake b now =
     (if SustainedPerMin (b_cfg b) = 0 \<and> Burst (b_cfg b) = 0 then (b, True)
      else
        (let b1 = b\<lparr>b_tokens := accrued b now, b_lastFill := now, b_lastTouched := now\<rparr>
         in if 1 \<le> b_tokens b1 then (b1\<lparr>b_tokens := b_tokens b1 - 1\<rparr>, True) else (b1, False)))"

definition refund :: "bucket \<Rightarrow> time \<Rightarrow> bucket" where
  "refund b now =
     (let t = b_tokens b + 1
      in b\<lparr>b_tokens := (if of_int (Burst (b_cfg b)) < t then of_int (Burst (b_cfg b)) else t),
           b_lastTouched := now\<rparr>)"

subsection \<open>The limiter\<close>

record Limiter =
  l_global :: BucketCfg
  l_perTool :: "bytes \<rightharpoonup> BucketCfg"
  l_expensive :: "bytes \<Rightarrow> bool"
  l_globalBkts :: "bytes \<rightharpoonup> bucket"
  l_toolBkts :: "bytes \<rightharpoonup> bucket"
  l_lastSwept :: time
  l_sweepEvery :: duration

definition NewLimiter :: "BucketCfg \<Rightarrow> (bytes \<rightharpoonup> BucketCfg) \<Rightarrow> time \<Rightarrow> Limiter" where
  "NewLimiter global perTool now =
     \<lparr>l_global = global, l_perTool = perTool, l_expensive = (\<lambda>k. perTool k \<noteq> None),
      l_globalBkts = Map.empty, l_toolBkts = Map.empty, l_lastSwept = now,
      l_sweepEvery = 5 * Minute\<rparr>"

definition idle :: duration where
  "idle = 10 * Minute"

definition sweep_map :: "(bytes \<rightharpoonup> bucket) \<Rightarrow> time \<Rightarrow> (bytes \<rightharpoonup> bucket)" where
  "sweep_map m now = (\<lambda>k. case m k of
     None \<Rightarrow> None
   | Some b \<Rightarrow> if idle < now - b_lastTouched b then None else Some b)"

definition sweepLocked :: "Limiter \<Rightarrow> time \<Rightarrow> Limiter" where
  "sweepLocked l now =
     l\<lparr>l_globalBkts := sweep_map (l_globalBkts l) now, l_toolBkts := sweep_map (l_toolBkts l) now\<rparr>"

text \<open>One tick of the sweeper goroutine (\<^verbatim>\<open>RunSweeper\<close>).\<close>

definition RunSweeper_tick :: "Limiter \<Rightarrow> time \<Rightarrow> Limiter" where
  "RunSweeper_tick l now = (sweepLocked l now)\<lparr>l_lastSwept := now\<rparr>"

definition tool_key :: "bytes \<Rightarrow> bytes \<Rightarrow> bytes" where
  "tool_key caller tool = caller @ '':'' @ tool"

text \<open>The lazy sweep at the head of \<^verbatim>\<open>Allow\<close>.\<close>

definition lazy_sweep :: "Limiter \<Rightarrow> time \<Rightarrow> Limiter" where
  "lazy_sweep l now =
     (if l_sweepEvery l < now - l_lastSwept l then (sweepLocked l now)\<lparr>l_lastSwept := now\<rparr> else l)"

text \<open>The map of configurations returns Go's zero value for a missing key.\<close>

definition perTool_cfg :: "Limiter \<Rightarrow> bytes \<Rightarrow> BucketCfg" where
  "perTool_cfg l tool = (case l_perTool l tool of
     Some c \<Rightarrow> c | None \<Rightarrow> \<lparr>SustainedPerMin = 0, Burst = 0, Disabled = False\<rparr>)"

definition bucket_or_new :: "(bytes \<rightharpoonup> bucket) \<Rightarrow> bytes \<Rightarrow> BucketCfg \<Rightarrow> time \<Rightarrow> bucket" where
  "bucket_or_new m k cfg now = (case m k of Some b \<Rightarrow> b | None \<Rightarrow> newBucket cfg now)"

definition Allow :: "Limiter \<Rightarrow> bytes \<Rightarrow> bytes \<Rightarrow> time \<Rightarrow> Limiter \<times> bool \<times> bytes" where
  "Allow l0 caller tool now =
     (let l = lazy_sweep l0 now;
          (gb, gok) = tryTake (bucket_or_new (l_globalBkts l) caller (l_global l) now) now;
          l1 = l\<lparr>l_globalBkts := (l_globalBkts l)(caller \<mapsto> gb)\<rparr>
      in if \<not> gok then (l1, False, ''global'')
         else if l_expensive l tool then
           (let cfg = perTool_cfg l tool
            in if Disabled cfg then (l1, True, '''')
               else
                 (let key = tool_key caller tool;
                      (tb, tok) = tryTake (bucket_or_new (l_toolBkts l) key cfg now) now;
                      l2 = l1\<lparr>l_toolBkts := (l_toolBkts l)(key \<mapsto> tb)\<rparr>
                  in if \<not> tok
                     then (l2\<lparr>l_globalBkts := (l_globalBkts l)(caller \<mapsto> refund gb now)\<rparr>, False, ''tool'')
                     else (l2, True, '''')))
         else (l1, True, ''''))"

subsection \<open>What a caller has left\<close>

text \<open>
  The abstract state of the limiter for one caller: the tokens its global bucket holds at a time.
  A caller without a bucket has a full one.
\<close>

definition avail :: "Limiter \<Rightarrow> bytes \<Rightarrow> time \<Rightarrow> rat" where
  "avail l c now = (case l_globalBkts l c of
     None \<Rightarrow> of_int (Burst (l_global l)) | Some b \<Rightarrow> accrued b now)"

definition rate :: "BucketCfg \<Rightarrow> rat" where
  "rate cfg = of_int (SustainedPerMin cfg) / of_int Minute"

text \<open>
  A global configuration under which eviction of an idle bucket is invisible: ten minutes of
  accrual fill it. The daemon's own (30 a minute, burst 10) is one.
\<close>

definition bucket_cfg_ok :: "BucketCfg \<Rightarrow> bool" where
  "bucket_cfg_ok cfg \<longleftrightarrow> 1 \<le> Burst cfg \<and> 0 \<le> SustainedPerMin cfg \<and> Burst cfg \<le> 10 * SustainedPerMin cfg"

definition bucket_inv :: "BucketCfg \<Rightarrow> time \<Rightarrow> bucket \<Rightarrow> bool" where
  [inv_defs]: "bucket_inv cfg now b \<longleftrightarrow>
     b_cfg b = cfg \<and> 0 \<le> b_tokens b \<and> b_tokens b \<le> of_int (Burst cfg) \<and>
     b_lastFill b \<le> b_lastTouched b \<and> b_lastTouched b \<le> now"

definition limiter_inv :: "Limiter \<Rightarrow> time \<Rightarrow> bool" where
  [inv_defs]: "limiter_inv l now \<longleftrightarrow>
     bucket_cfg_ok (l_global l) \<and>
     (\<forall>c b. l_globalBkts l c = Some b \<longrightarrow> bucket_inv (l_global l) now b)"

lemma accrued_min:
  "accrued b now =
     min (of_int (Burst (b_cfg b))) (b_tokens b + of_int (now - b_lastFill b) * rate (b_cfg b))"
  by (auto simp: accrued_def rate_def Let_def min_def)

lemma bucket_cfg_okD: "bucket_cfg_ok cfg \<Longrightarrow> 1 \<le> Burst cfg" "bucket_cfg_ok cfg \<Longrightarrow> 0 \<le> rate cfg"
  by (auto simp: bucket_cfg_ok_def rate_def)

lemma bucket_inv_mono: "bucket_inv cfg now b \<Longrightarrow> now \<le> now' \<Longrightarrow> bucket_inv cfg now' b"
  by (auto simp: bucket_inv_def)

lemma limiter_inv_mono: "limiter_inv l now \<Longrightarrow> now \<le> now' \<Longrightarrow> limiter_inv l now'"
  by (auto simp: limiter_inv_def intro: bucket_inv_mono)

lemma limiter_inv_new: "bucket_cfg_ok g \<Longrightarrow> limiter_inv (NewLimiter g p t) now"
  by (simp add: limiter_inv_def NewLimiter_def)

lemma accrued_nonneg:
  assumes "bucket_cfg_ok cfg" and "bucket_inv cfg now b"
  shows "0 \<le> accrued b now"
proof -
  from assms have "0 \<le> (of_int (now - b_lastFill b) :: rat) * rate cfg"
    by (intro mult_nonneg_nonneg bucket_cfg_okD(2)) (auto simp: bucket_inv_def)
  moreover from assms have "0 \<le> (of_int (Burst cfg) :: rat)"
    using bucket_cfg_okD(1) [of cfg] by simp
  ultimately show ?thesis using assms by (simp add: accrued_min bucket_inv_def)
qed

lemma accrued_le: "accrued b now \<le> of_int (Burst (b_cfg b))"
  by (simp add: accrued_min)

text \<open>A bucket that has been idle for ten minutes is full.\<close>

lemma accrued_idle:
  assumes ok: "bucket_cfg_ok cfg" and inv: "bucket_inv cfg t b" and "idle < now - b_lastTouched b"
  shows "accrued b now = of_int (Burst cfg)"
proof -
  let ?dt = "of_int (now - b_lastFill b) :: rat"
  from inv assms(3) have "10 * Minute \<le> now - b_lastFill b"
    by (simp add: bucket_inv_def idle_def)
  then have "of_int (10 * Minute) \<le> ?dt" by (simp only: of_int_le_iff)
  then have "of_int (10 * Minute) * rate cfg \<le> ?dt * rate cfg"
    using bucket_cfg_okD(2) [OF ok] by (rule mult_right_mono)
  moreover have "of_int (10 * Minute) * rate cfg = of_int (10 * SustainedPerMin cfg)"
    by (simp add: rate_def)
  moreover have "(of_int (Burst cfg) :: rat) \<le> of_int (10 * SustainedPerMin cfg)"
    using ok by (simp only: bucket_cfg_ok_def of_int_le_iff)
  ultimately have "of_int (Burst cfg) \<le> ?dt * rate cfg" by simp
  with inv show ?thesis by (simp add: accrued_min bucket_inv_def)
qed

lemma min_accrue: "0 \<le> (y::rat) \<Longrightarrow> min B (min B x + y) = min B (x + y)"
  by (simp add: min_def)

lemma accrued_later:
  assumes "bucket_cfg_ok cfg" and "b_cfg b = cfg" and "now \<le> t"
  shows "accrued b t = min (of_int (Burst cfg)) (accrued b now + of_int (t - now) * rate cfg)"
proof -
  have "0 \<le> of_int (t - now) * rate cfg"
    using assms by (intro mult_nonneg_nonneg bucket_cfg_okD(2)) auto
  moreover have "b_tokens b + of_int (t - b_lastFill b) * rate cfg =
      (b_tokens b + of_int (now - b_lastFill b) * rate cfg) + of_int (t - now) * rate cfg"
    by (simp add: algebra_simps)
  ultimately show ?thesis using assms(2) by (simp only: accrued_min min_accrue)
qed

lemma avail_le: "limiter_inv l now \<Longrightarrow> avail l c t \<le> of_int (Burst (l_global l))"
  using accrued_le [of "the (l_globalBkts l c)" t]
  by (auto simp: avail_def limiter_inv_def bucket_inv_def split: option.splits)

lemma avail_nonneg: "limiter_inv l now \<Longrightarrow> 0 \<le> avail l c now"
  using accrued_nonneg bucket_cfg_okD(1)
  by (fastforce simp: avail_def limiter_inv_def split: option.splits)

text \<open>Between calls a caller's tokens accrue at the sustained rate up to the burst.\<close>

lemma avail_later:
  assumes "limiter_inv l now" and "now \<le> t"
  shows "avail l c t =
     min (of_int (Burst (l_global l))) (avail l c now + of_int (t - now) * rate (l_global l))"
proof (cases "l_globalBkts l c")
  case None
  have "0 \<le> of_int (t - now) * rate (l_global l)"
    using assms by (intro mult_nonneg_nonneg bucket_cfg_okD(2)) (auto simp: limiter_inv_def)
  with None show ?thesis by (simp add: avail_def)
next
  case (Some b)
  with assms have "bucket_cfg_ok (l_global l)" "b_cfg b = l_global l"
    by (auto simp: limiter_inv_def bucket_inv_def)
  with accrued_later [OF this assms(2)] Some show ?thesis by (simp add: avail_def)
qed

subsection \<open>The sweeper is invisible\<close>

lemma sweep_map_Some: "sweep_map m now k = Some b \<Longrightarrow> m k = Some b"
  by (auto simp: sweep_map_def split: option.splits if_splits)

lemma sweepLocked_inv: "limiter_inv l now \<Longrightarrow> limiter_inv (sweepLocked l now) now"
  by (auto simp: limiter_inv_def sweepLocked_def dest: sweep_map_Some)

lemma avail_sweepLocked:
  assumes "limiter_inv l now" and "now \<le> t"
  shows "avail (sweepLocked l now) c t = avail l c t"
  using assms
  by (auto simp: avail_def sweepLocked_def sweep_map_def limiter_inv_def split: option.splits
      intro!: accrued_idle [symmetric])

lemma lazy_sweep_cases: "lazy_sweep l now = l \<or> lazy_sweep l now = RunSweeper_tick l now"
  by (simp add: lazy_sweep_def RunSweeper_tick_def)

lemma tick_inv: "limiter_inv l now \<Longrightarrow> limiter_inv (RunSweeper_tick l now) now"
  using sweepLocked_inv [of l now] by (simp add: RunSweeper_tick_def limiter_inv_def)

lemma avail_tick:
  "limiter_inv l now \<Longrightarrow> now \<le> t \<Longrightarrow> avail (RunSweeper_tick l now) c t = avail l c t"
  using avail_sweepLocked [of l now t c]
  by (simp add: RunSweeper_tick_def avail_def split: option.splits)

lemma tick_global [simp]: "l_global (RunSweeper_tick l now) = l_global l"
  by (simp add: RunSweeper_tick_def sweepLocked_def)

lemma lazy_sweep_props:
  assumes "limiter_inv l now"
  shows "limiter_inv (lazy_sweep l now) now"
    and "avail (lazy_sweep l now) c now = avail l c now"
    and "l_global (lazy_sweep l now) = l_global l"
  using lazy_sweep_cases [of l now] assms by (auto simp: tick_inv avail_tick)

subsection \<open>One call\<close>

lemma accrued_now: "b_lastFill b = now \<Longrightarrow> b_tokens b \<le> of_int (Burst (b_cfg b)) \<Longrightarrow> accrued b now = b_tokens b"
  by (simp add: accrued_min)

text \<open>Taking from the caller's bucket: accepted exactly when a token is there.\<close>

lemma take_global:
  assumes inv: "limiter_inv l now"
    and gb: "tryTake (bucket_or_new (l_globalBkts l) c (l_global l) now) now = (gb, ok)"
  shows "ok \<longleftrightarrow> 1 \<le> avail l c now"
    and "bucket_inv (l_global l) now gb"
    and "accrued gb now = avail l c now - (if ok then 1 else 0)"
    and "b_tokens gb = avail l c now - (if ok then 1 else 0)" and "b_lastFill gb = now"
proof -
  let ?b = "bucket_or_new (l_globalBkts l) c (l_global l) now"
  have cok: "bucket_cfg_ok (l_global l)" using inv by (simp add: limiter_inv_def)
  have b1: "1 \<le> Burst (l_global l)" by (rule bucket_cfg_okD(1) [OF cok])
  have binv: "bucket_inv (l_global l) now ?b"
    using inv b1 by (auto simp: bucket_or_new_def limiter_inv_def bucket_inv_def newBucket_def split: option.splits)
  have av: "accrued ?b now = avail l c now"
    by (auto simp: bucket_or_new_def avail_def newBucket_def accrued_min split: option.splits)
  have cfg: "b_cfg ?b = l_global l" using binv by (simp add: bucket_inv_def)
  have nz: "\<not> (SustainedPerMin (b_cfg ?b) = 0 \<and> Burst (b_cfg ?b) = 0)" using cfg b1 by simp
  have le: "avail l c now \<le> of_int (Burst (l_global l))" by (rule avail_le [OF inv])
  have ge: "0 \<le> avail l c now" by (rule avail_nonneg [OF inv])
  let ?b1 = "?b\<lparr>b_tokens := avail l c now, b_lastFill := now, b_lastTouched := now\<rparr>"
  have t: "tryTake ?b now =
      (if 1 \<le> avail l c now then (?b1\<lparr>b_tokens := avail l c now - 1\<rparr>, True) else (?b1, False))"
    unfolding tryTake_def if_not_P [OF nz] Let_def av by simp
  show "ok \<longleftrightarrow> 1 \<le> avail l c now" using t gb by (auto split: if_splits)
  show tok: "b_tokens gb = avail l c now - (if ok then 1 else 0)" and lf: "b_lastFill gb = now"
    using t gb by (auto split: if_splits)
  show bi: "bucket_inv (l_global l) now gb"
    using t gb le ge cfg by (auto simp: bucket_inv_def split: if_splits)
  show "accrued gb now = avail l c now - (if ok then 1 else 0)"
    using tok lf bi by (simp add: accrued_now bucket_inv_def)
qed

lemma refund_take:
  assumes inv: "limiter_inv l now"
    and gb: "tryTake (bucket_or_new (l_globalBkts l) c (l_global l) now) now = (gb, True)"
  shows "bucket_inv (l_global l) now (refund gb now)" and "accrued (refund gb now) now = avail l c now"
proof -
  note tg = take_global [OF inv gb, simplified]
  have le: "avail l c now \<le> of_int (Burst (l_global l))" by (rule avail_le [OF inv])
  have ge: "0 \<le> avail l c now" by (rule avail_nonneg [OF inv])
  show bi: "bucket_inv (l_global l) now (refund gb now)"
    using tg le ge by (auto simp: refund_def Let_def bucket_inv_def)
  have "b_tokens (refund gb now) = avail l c now"
    using tg le by (auto simp: refund_def Let_def bucket_inv_def)
  moreover have "b_lastFill (refund gb now) = now" using tg by (simp add: refund_def Let_def)
  ultimately show "accrued (refund gb now) now = avail l c now"
    using bi le by (simp add: accrued_now bucket_inv_def)
qed

text \<open>The whole of \<^verbatim>\<open>Allow\<close> as seen by the global buckets.\<close>

lemma Allow_shape:
  assumes "limiter_inv l0 now" and "Allow l0 caller tool now = (l', ok, reason)"
  shows "\<exists>gb. l_globalBkts l' = (l_globalBkts (lazy_sweep l0 now))(caller \<mapsto> gb) \<and>
           l_global l' = l_global l0 \<and>
           bucket_inv (l_global l0) now gb \<and>
           accrued gb now = avail l0 caller now - (if ok then 1 else 0) \<and>
           (ok \<longrightarrow> 1 \<le> avail l0 caller now) \<and>
           (reason = ''global'' \<longleftrightarrow> \<not> 1 \<le> avail l0 caller now)"
proof -
  let ?l = "lazy_sweep l0 now"
  note ls = lazy_sweep_props [OF assms(1)]
  obtain gb gok where gb: "tryTake (bucket_or_new (l_globalBkts ?l) caller (l_global ?l) now) now = (gb, gok)"
    by (cases "tryTake (bucket_or_new (l_globalBkts ?l) caller (l_global ?l) now) now")
  note tg = take_global [OF ls(1) gb, unfolded ls(2,3)]
  show ?thesis
  proof (cases gok)
    case False
    with assms(2) gb tg ls(3) show ?thesis
      by (intro exI [of _ gb]) (auto simp: Allow_def Let_def)
  next
    case True
    have "tryTake (bucket_or_new (l_globalBkts ?l) caller (l_global ?l) now) now = (gb, True)"
      using gb True by simp
    note rt = refund_take [OF ls(1) this, unfolded ls(2,3)]
    show ?thesis
    proof (cases "\<not> ok")
      case True
      with \<open>gok\<close> assms(2) gb tg ls(3) rt show ?thesis
        by (intro exI [of _ "refund gb now"])
          (auto simp: Allow_def Let_def split: if_splits prod.splits)
    next
      case False
      with \<open>gok\<close> assms(2) gb tg ls(3) show ?thesis
        by (intro exI [of _ gb]) (auto simp: Allow_def Let_def split: if_splits prod.splits)
    qed
  qed
qed

lemma Allow_inv:
  assumes "limiter_inv l now" and "Allow l caller tool now = (l', ok, reason)"
  shows "limiter_inv l' now"
  using Allow_shape [OF assms] lazy_sweep_props(1,3) [OF assms(1)] assms(1)
  by (auto simp: limiter_inv_def split: if_split_asm)

lemma Allow_avail:
  assumes "limiter_inv l now" and "Allow l caller tool now = (l', ok, reason)"
  shows "avail l' c now = avail l c now - (if ok \<and> c = caller then 1 else 0)"
proof -
  have "avail (lazy_sweep l now) c now = avail l c now" by (rule lazy_sweep_props [OF assms(1)])
  with Allow_shape [OF assms] lazy_sweep_props(3) [OF assms(1)] show ?thesis
    by (auto simp: avail_def split: option.splits)
qed

lemma Allow_avail_step:
  assumes "limiter_inv l now"
  shows "avail (fst (Allow l caller tool now)) c now =
           avail l c now - (if fst (snd (Allow l caller tool now)) \<and> c = caller then 1 else 0)"
  using Allow_avail [OF assms] by (cases "Allow l caller tool now") auto

lemma Allow_global: "limiter_inv l now \<Longrightarrow> Allow l caller tool now = (l', ok, reason) \<Longrightarrow> l_global l' = l_global l"
  using Allow_shape by blast

lemma Allow_inv_step: "limiter_inv l now \<Longrightarrow> limiter_inv (fst (Allow l caller tool now)) now"
  by (cases "Allow l caller tool now") (auto intro: Allow_inv)

lemma Allow_global_step:
  "limiter_inv l now \<Longrightarrow> l_global (fst (Allow l caller tool now)) = l_global l"
  by (cases "Allow l caller tool now") (auto dest: Allow_global)

subsection \<open>Runs\<close>

text \<open>The two things that happen to a limiter: a call of \<^verbatim>\<open>Allow\<close> and a tick of the sweeper.\<close>

datatype event = Call bytes bytes time | Tick time

fun event_at :: "event \<Rightarrow> time" where
  "event_at (Call _ _ t) = t" | "event_at (Tick t) = t"

definition limiter_step :: "Limiter \<Rightarrow> event \<Rightarrow> Limiter" where
  "limiter_step l e = (case e of
     Call c tool t \<Rightarrow> fst (Allow l c tool t) | Tick t \<Rightarrow> RunSweeper_tick l t)"

definition granted :: "bytes \<Rightarrow> Limiter \<Rightarrow> event \<Rightarrow> bool" where
  "granted caller l e = (case e of
     Call c tool t \<Rightarrow> c = caller \<and> fst (snd (Allow l c tool t)) | Tick t \<Rightarrow> False)"

fun count_granted :: "bytes \<Rightarrow> Limiter \<Rightarrow> event list \<Rightarrow> nat" where
  "count_granted caller l [] = 0"
| "count_granted caller l (e # es) =
     (if granted caller l e then 1 else 0) + count_granted caller (limiter_step l e) es"

text \<open>
  The contract of a token meter: a level that never passes the capacity and is never negative,
  grows at most at the rate, and is charged one unit by every granted event. Whatever meets it
  grants at most the level at the start plus the rate times the length of the window.
\<close>

locale token_meter =
  fixes level :: "'s \<Rightarrow> time \<Rightarrow> rat"
    and step :: "'s \<Rightarrow> 'e \<Rightarrow> 's"
    and stamp :: "'e \<Rightarrow> time"
    and granted :: "'s \<Rightarrow> 'e \<Rightarrow> bool"
    and count :: "'s \<Rightarrow> 'e list \<Rightarrow> nat"
    and inv :: "'s \<Rightarrow> time \<Rightarrow> bool"
    and cap :: rat
    and r :: rat
  assumes level_cap: "inv s t \<Longrightarrow> level s t \<le> cap"
    and level_nonneg: "inv s t \<Longrightarrow> 0 \<le> level s t"
    and level_later: "inv s t \<Longrightarrow> t \<le> u \<Longrightarrow> level s u \<le> level s t + of_int (u - t) * r"
    and level_step: "inv s (stamp e) \<Longrightarrow>
          level (step s e) (stamp e) = level s (stamp e) - (if granted s e then 1 else 0)"
    and inv_later: "inv s t \<Longrightarrow> t \<le> u \<Longrightarrow> inv s u"
    and inv_step: "inv s (stamp e) \<Longrightarrow> inv (step s e) (stamp e)"
    and count_Nil: "count s [] = 0"
    and count_Cons: "count s (e # es) = (if granted s e then 1 else 0) + count (step s e) es"
begin

lemma count_bound:
  assumes "inv s t" and "sorted (map stamp es)" and "\<forall>e \<in> set es. t \<le> stamp e \<and> stamp e \<le> u" and "t \<le> u"
  shows "of_nat (count s es) \<le> level s t + of_int (u - t) * r"
  using assms
proof (induction es arbitrary: s t)
  case Nil
  then have "level s u \<le> level s t + of_int (u - t) * r" "0 \<le> level s u"
    using level_later [of s t u] level_nonneg [OF inv_later [of s t u]] by auto
  then show ?case by (simp add: count_Nil)
next
  case (Cons e es)
  let ?s = "step s e"
  from Cons.prems have te: "t \<le> stamp e" "stamp e \<le> u" by auto
  have ie: "inv s (stamp e)" using Cons.prems(1) te(1) by (rule inv_later)
  have "of_nat (count ?s es) \<le> level ?s (stamp e) + of_int (u - stamp e) * r"
    using Cons.prems te by (intro Cons.IH inv_step ie) auto
  moreover have "level ?s (stamp e) = level s (stamp e) - (if granted s e then 1 else 0)"
    by (rule level_step [OF ie])
  moreover have "level s (stamp e) \<le> level s t + of_int (stamp e - t) * r"
    using Cons.prems(1) te(1) by (rule level_later)
  moreover have "of_int (u - t) * r = of_int (stamp e - t) * r + of_int (u - stamp e) * r"
    by (simp add: algebra_simps)
  ultimately show ?case by (auto simp: count_Cons)
qed

lemma count_burst:
  assumes "inv s t" and "sorted (map stamp es)" and "\<forall>e \<in> set es. t \<le> stamp e \<and> stamp e \<le> u" and "t \<le> u"
  shows "of_nat (count s es) \<le> cap + of_int (u - t) * r"
  using count_bound [OF assms] level_cap [OF assms(1)] by linarith

end

interpretation caller_meter: token_meter "\<lambda>l. avail l c" limiter_step event_at "granted c"
  "count_granted c" "\<lambda>l t. limiter_inv l t \<and> l_global l = g" "of_int (Burst g)" "rate g"
  for c :: bytes and g :: BucketCfg
proof (unfold_locales, goal_cases)
  case (1 s t)
  then show ?case using avail_le by blast
next
  case (2 s t)
  then show ?case using avail_nonneg by blast
next
  case (3 s t u)
  then show ?case using avail_later [of s t u c] by simp
next
  case (4 s e)
  then show ?case
    by (cases e) (auto simp: limiter_step_def granted_def avail_tick Allow_avail_step)
next
  case (5 s t u)
  then show ?case using limiter_inv_mono by blast
next
  case (6 s e)
  then show ?case
    by (cases e) (auto simp: limiter_step_def tick_inv Allow_inv_step Allow_global_step)
qed auto

subsection \<open>Properties\<close>

text \<open>the rate a caller gets. Over any window, whatever the other callers do, whichever tools
  are called and whenever the sweeper runs, the limiter grants a caller at most its burst plus
  the sustained rate times the length of the window.\<close>

theorem rate_bound:
  assumes "limiter_inv l t" and "l_global l = g" and "sorted (map event_at es)"
    and "\<forall>e \<in> set es. t \<le> event_at e \<and> event_at e \<le> u" and "t \<le> u"
  shows "of_nat (count_granted caller l es) \<le> of_int (Burst g) + of_int (u - t) * rate g"
  using assms by (intro caller_meter.count_burst) auto

abbreviation daemon_global :: BucketCfg where
  "daemon_global \<equiv> \<lparr>SustainedPerMin = 30, Burst = 10, Disabled = False\<rparr>"

theorem rate_bound_witness:
  "of_nat (count_granted ''ops'' (NewLimiter daemon_global Map.empty 0)
       [Call ''ops'' ''system'' 5, Tick 7, Call ''ops'' ''system'' Minute])
     \<le> of_int (Burst daemon_global) + of_int (Minute - 0) * rate daemon_global"
  by (rule rate_bound [of "NewLimiter daemon_global Map.empty 0" 0])
    (simp_all add: limiter_inv_new bucket_cfg_ok_def, simp add: NewLimiter_def)

text \<open>C4: a call refines the ideal bucket. It is refused for the global reason exactly when the
  caller has less than one token; a granted call costs its caller one token; a refused one costs
  nothing, also when the tool's own bucket refused it (the refund is exact); no other caller's
  tokens change; and the invariant of the buckets is kept.\<close>

theorem Allow_refines_bucket:
  assumes "limiter_inv l now" and "Allow l caller tool now = (l', ok, reason)"
  shows "limiter_inv l' now \<and>
         (reason = ''global'' \<longleftrightarrow> avail l caller now < 1) \<and>
         (ok \<longleftrightarrow> reason = []) \<and>
         avail l' caller now = avail l caller now - (if ok then 1 else 0) \<and>
         (\<forall>c. c \<noteq> caller \<longrightarrow> avail l' c now = avail l c now)"
proof -
  have "ok \<longleftrightarrow> reason = []"
    using assms(2) by (auto simp: Allow_def Let_def split: if_splits prod.splits)
  then show ?thesis
    using Allow_shape [OF assms] Allow_inv [OF assms] Allow_avail [OF assms] by (auto simp: not_le)
qed

theorem Allow_refines_bucket_witness:
  "let l = NewLimiter daemon_global Map.empty 0; (l', ok, reason) = Allow l ''ops'' ''system'' 5
   in limiter_inv l' 5 \<and> (reason = ''global'' \<longleftrightarrow> avail l ''ops'' 5 < 1) \<and>
      avail l' ''ops'' 5 = avail l ''ops'' 5 - (if ok then 1 else 0)"
proof -
  have "limiter_inv (NewLimiter daemon_global Map.empty 0) 5"
    by (rule limiter_inv_new) (simp add: bucket_cfg_ok_def)
  then show ?thesis
    using Allow_refines_bucket [of "NewLimiter daemon_global Map.empty 0" 5 "''ops''" "''system''"]
    by (auto simp: Let_def split: prod.splits)
qed

text \<open>eviction is not invisible for every configuration. A per-tool bucket of one call a minute
  with a burst of a hundred that a caller has emptied holds ten tokens after ten idle minutes, as
  the sustained rate says; the sweeper evicts it at that point, and the caller's next call is
  measured against a new, full bucket of a hundred.\<close>

theorem sweep_refills_slow_bucket:
  "let cfg = \<lparr>SustainedPerMin = 1, Burst = 100, Disabled = False\<rparr>;
       b = \<lparr>b_cfg = cfg, b_tokens = 0, b_lastFill = 0, b_lastTouched = 0\<rparr>;
       m = [''ops:storage'' \<mapsto> b];
       late = 10 * Minute + 1
   in accrued b late < 11 \<and>
      sweep_map m late ''ops:storage'' = None \<and>
      b_tokens (bucket_or_new (sweep_map m late) ''ops:storage'' cfg late) = 100"
  by (simp add: sweep_map_def idle_def bucket_or_new_def newBucket_def accrued_def Let_def)

text \<open>The key of a per-tool bucket names one caller and one tool when tool names have no colon.\<close>

lemma tool_key_inj:
  assumes "CHR '':'' \<notin> set t1" and "CHR '':'' \<notin> set t2" and "tool_key c1 t1 = tool_key c2 t2"
  shows "c1 = c2 \<and> t1 = t2"
proof -
  from assms(3) have "rev (tool_key c1 t1) = rev (tool_key c2 t2)" by simp
  then have eq: "rev t1 @ CHR '':'' # rev c1 = rev t2 @ CHR '':'' # rev c2"
    by (simp add: tool_key_def)
  have "takeWhile (\<lambda>c. c \<noteq> CHR '':'') (rev t @ CHR '':'' # r) = rev t" if "CHR '':'' \<notin> set t" for t r
    using that by (subst takeWhile_append2) auto
  from this [OF assms(1), of "rev c1"] this [OF assms(2), of "rev c2"] eq have "rev t1 = rev t2"
    by simp
  with eq show ?thesis by simp
qed

end
