(* ===== verification/Schema.thy ===== *)
theory Schema
  imports GoConv
begin

text \<open>
  \<^verbatim>\<open>daemon/internal/shared/schema\<close>: the wire types the daemon emits, the error codes and the
  message catalogue, and the bound on error messages (\<^verbatim>\<open>BoundMessage\<close>).
\<close>

subsection \<open>Envelopes\<close>

definition SchemaVersion :: bytes where
  "SchemaVersion = ''1.2.0''"

text \<open>\<open>env_data\<close> is the raw JSON of the tool's payload.\<close>

record Envelope =
  env_host :: bytes
  env_as_of :: time
  env_cache_age_s :: int
  env_schema_version :: bytes
  env_data :: bytes
  env_warnings :: "bytes list"

record Error =
  err_code :: bytes
  err_message :: bytes

record ErrorEnvelope =
  eenv_host :: bytes
  eenv_as_of :: time
  eenv_schema_version :: bytes
  eenv_error :: Error

text \<open>The structured per-source error block of a tool (\<^verbatim>\<open>HelperOpError\<close>).\<close>

record HelperOpError =
  hoe_op :: bytes
  hoe_code :: bytes
  hoe_message :: bytes
  hoe_argv :: "bytes list"
  hoe_exit_code :: "int option"
  hoe_stderr_sha256 :: bytes
  hoe_stderr_prefix :: bytes

subsection \<open>Codes and messages\<close>

definition ErrCodeAuthRequired :: bytes where "ErrCodeAuthRequired = ''auth_required''"
definition ErrCodeUnknownTool :: bytes where "ErrCodeUnknownTool = ''unknown_tool''"
definition ErrCodeBadArgument :: bytes where "ErrCodeBadArgument = ''bad_argument''"
definition ErrCodeRateLimited :: bytes where "ErrCodeRateLimited = ''rate_limited''"
definition ErrCodeToolTimeout :: bytes where "ErrCodeToolTimeout = ''tool_timeout''"
definition ErrCodeToolFailed :: bytes where "ErrCodeToolFailed = ''tool_failed''"

definition MsgAuthRequired :: bytes where "MsgAuthRequired = ''client certificate required''"
definition MsgUnknownTool :: bytes where "MsgUnknownTool = ''no such tool''"
definition MsgBadArgument :: bytes where "MsgBadArgument = ''argument failed validation''"
definition MsgRateLimited :: bytes where "MsgRateLimited = ''request rate limit exceeded''"
definition MsgToolTimeout :: bytes where "MsgToolTimeout = ''tool exceeded its timeout''"
definition MsgToolFailed :: bytes where "MsgToolFailed = ''tool failed to assemble its response''"
definition MsgToolStalled :: bytes where
  "MsgToolStalled = ''tool has invocations that have not returned''"

subsection \<open>BoundMessage\<close>

definition MaxMessageLen :: nat where
  "MaxMessageLen = 200"

text \<open>The rune U+2026 in UTF-8.\<close>

definition ellipsis :: bytes where
  "ellipsis = [CHR 0xE2, CHR 0x80, CHR 0xA6]"

text \<open>The loop \<^verbatim>\<open>for cut > 0 && !utf8.RuneStart(m[cut]) { cut-- }\<close>.\<close>

fun cut_back :: "bytes \<Rightarrow> nat \<Rightarrow> nat" where
  "cut_back m 0 = 0"
| "cut_back m (Suc n) = (if rune_start (m ! Suc n) then Suc n else cut_back m n)"

definition BoundMessage :: "bytes \<Rightarrow> bytes" where
  "BoundMessage m =
     (if length m \<le> MaxMessageLen then m
      else take (cut_back m (MaxMessageLen - length ellipsis)) m @ ellipsis)"

lemma ellipsis_valid: "utf8_valid ellipsis"
  by (simp add: ellipsis_def utf8_valid.simps rune_need_def cont_byte_def second_byte_ok_def)

lemma cut_back_le: "cut_back m n \<le> n"
  by (induction m n rule: cut_back.induct) auto

lemma cut_back_start: "cut_back m n = 0 \<or> rune_start (m ! cut_back m n)"
  by (induction m n rule: cut_back.induct) auto

lemma cut_back_ge: "j \<le> n \<Longrightarrow> rune_start (m ! j) \<Longrightarrow> j \<le> cut_back m n"
proof (induction m n rule: cut_back.induct)
  case (2 m n)
  then show ?case by (cases "j = Suc n") auto
qed simp

lemma BoundMessage_length: "length (BoundMessage m) \<le> MaxMessageLen"
proof (cases "length m \<le> MaxMessageLen")
  case True
  then show ?thesis by (simp add: BoundMessage_def)
next
  case False
  then show ?thesis
    using cut_back_le [of m "MaxMessageLen - length ellipsis"]
    by (auto simp: BoundMessage_def MaxMessageLen_def ellipsis_def)
qed

lemma BoundMessage_valid:
  assumes "utf8_valid m"
  shows "utf8_valid (BoundMessage m)"
proof (cases "length m \<le> MaxMessageLen")
  case True
  with assms show ?thesis by (simp add: BoundMessage_def)
next
  case False
  let ?k = "cut_back m (MaxMessageLen - length ellipsis)"
  have "?k < length m"
    using False cut_back_le [of m "MaxMessageLen - length ellipsis"] by (simp add: MaxMessageLen_def)
  then have "utf8_valid (take ?k m)"
    using cut_back_start [of m "MaxMessageLen - length ellipsis"] assms
    by (auto intro: utf8_valid_take)
  then show ?thesis using False ellipsis_valid by (simp add: BoundMessage_def utf8_valid_append)
qed

text \<open>In valid UTF-8 at most three bytes of the cut are given up to reach a rune boundary.\<close>

lemma BoundMessage_cut:
  assumes "utf8_valid m" and "MaxMessageLen < length m"
  shows "\<exists>k. 194 \<le> k \<and> k \<le> 197 \<and> utf8_valid (take k m) \<and> BoundMessage m = take k m @ ellipsis"
proof -
  have len: "197 < length m" using assms(2) by (simp add: MaxMessageLen_def)
  obtain j where "j \<le> 197" "197 \<le> j + 3" "rune_start (m ! j)"
    using utf8_start_near [OF assms(1) len] by blast
  then have "194 \<le> cut_back m 197" using cut_back_ge [of j 197 m] by linarith
  moreover have c: "cut_back m 197 \<le> 197" by (rule cut_back_le)
  moreover have "utf8_valid (take (cut_back m 197) m)"
    using cut_back_start [of m 197] assms(1) len c by (auto intro: utf8_valid_take)
  ultimately show ?thesis
    using assms(2) by (auto simp: BoundMessage_def MaxMessageLen_def ellipsis_def)
qed

text \<open>
  A bounded message has at most 200 bytes whatever the input. For a message that is valid
  UTF-8 the result is valid too: it is the message itself when that fits, and otherwise its first
  194 to 197 bytes, ending at a rune boundary, followed by an ellipsis.
\<close>

theorem bound_message_safe:
  assumes "utf8_valid m"
  shows "length (BoundMessage n) \<le> 200 \<and> utf8_valid (BoundMessage m) \<and>
    (if length m \<le> 200 then BoundMessage m = m
     else \<exists>k. 194 \<le> k \<and> k \<le> 197 \<and> utf8_valid (take k m) \<and> BoundMessage m = take k m @ ellipsis)"
proof -
  have "\<exists>k. 194 \<le> k \<and> k \<le> 197 \<and> utf8_valid (take k m) \<and> BoundMessage m = take k m @ ellipsis"
    if "200 < length m"
    using BoundMessage_cut [OF assms] that by (simp add: MaxMessageLen_def)
  then show ?thesis
    using BoundMessage_length [of n] BoundMessage_valid [OF assms]
    by (auto simp: BoundMessage_def MaxMessageLen_def)
qed

theorem bound_message_safe_witness:
  "length (BoundMessage ''x'') \<le> 200 \<and> utf8_valid (BoundMessage (replicate 300 CHR ''a'')) \<and>
    (if length (replicate 300 CHR ''a'') \<le> 200 then BoundMessage (replicate 300 CHR ''a'') = replicate 300 CHR ''a''
     else \<exists>k. 194 \<le> k \<and> k \<le> 197 \<and> utf8_valid (take k (replicate 300 CHR ''a'')) \<and>
       BoundMessage (replicate 300 CHR ''a'') = take k (replicate 300 CHR ''a'') @ ellipsis)"
  by (rule bound_message_safe) code_simp

end
