(* ===== verification/Proto.thy ===== *)
theory Proto
  imports GoConv
begin

text \<open>
  \<^verbatim>\<open>daemon/internal/shared/proto\<close>: the op tokens, the request and response bodies and the
  length-prefixed frames the daemon and the helper exchange over the unix socket. A frame is a
  32-bit little-endian length and that many bytes of JSON. The JSON text of a body is an argument
  of the frame functions (\<open>marshal\<close>, \<open>unmarshal\<close>); the frame layer itself is concrete.
\<close>

subsection \<open>Op tokens and codes\<close>

definition OpReadAuditStatus :: bytes where "OpReadAuditStatus = ''read_audit_status''"
definition OpReadAideSummary :: bytes where "OpReadAideSummary = ''read_aide_summary''"
definition OpReadRebootMarker :: bytes where "OpReadRebootMarker = ''read_reboot_marker''"
definition OpSmartSummary :: bytes where "OpSmartSummary = ''smart_summary''"
definition OpMdraidDetail :: bytes where "OpMdraidDetail = ''mdraid_detail''"
definition OpLvmReport :: bytes where "OpLvmReport = ''lvm_report''"
definition OpZpoolStatus :: bytes where "OpZpoolStatus = ''zpool_status''"
definition OpBtrfsScrub :: bytes where "OpBtrfsScrub = ''btrfs_scrub''"
definition OpPostqueue :: bytes where "OpPostqueue = ''postqueue''"
definition OpWireguardShow :: bytes where "OpWireguardShow = ''wireguard_show''"
definition OpAptPending :: bytes where "OpAptPending = ''apt_pending''"
definition OpNeedrestart :: bytes where "OpNeedrestart = ''needrestart''"
definition OpJournalQuery :: bytes where "OpJournalQuery = ''journal_query''"
definition OpNftTableCounts :: bytes where "OpNftTableCounts = ''nft_table_counts''"
definition OpFail2banStatus :: bytes where "OpFail2banStatus = ''fail2ban_status''"
definition OpSshJournalCounts :: bytes where "OpSshJournalCounts = ''ssh_journal_counts''"
definition OpSystemdTimerLastTrigger :: bytes where
  "OpSystemdTimerLastTrigger = ''systemd_timer_last_trigger''"
definition OpRkhunterSummary :: bytes where "OpRkhunterSummary = ''rkhunter_summary''"
definition OpUnattendedUpgradesStatus :: bytes where
  "OpUnattendedUpgradesStatus = ''unattended_upgrades_status''"
definition OpFirewallInspect :: bytes where "OpFirewallInspect = ''firewall_inspect''"
definition OpFirewallLookup :: bytes where "OpFirewallLookup = ''firewall_lookup''"
definition OpDovecotStatus :: bytes where "OpDovecotStatus = ''dovecot_status''"
definition OpNginxApacheStatus :: bytes where "OpNginxApacheStatus = ''nginx_apache_status''"

definition AllOps :: "bytes list" where
  "AllOps =
     [OpReadAuditStatus, OpReadAideSummary, OpReadRebootMarker, OpSmartSummary, OpMdraidDetail,
      OpLvmReport, OpZpoolStatus, OpBtrfsScrub, OpPostqueue, OpWireguardShow, OpAptPending,
      OpNeedrestart, OpJournalQuery, OpNftTableCounts, OpFail2banStatus, OpSshJournalCounts,
      OpSystemdTimerLastTrigger, OpRkhunterSummary, OpUnattendedUpgradesStatus,
      OpFirewallInspect, OpFirewallLookup, OpDovecotStatus, OpNginxApacheStatus]"

lemmas op_token_defs =
  OpReadAuditStatus_def OpReadAideSummary_def OpReadRebootMarker_def OpSmartSummary_def
  OpMdraidDetail_def OpLvmReport_def OpZpoolStatus_def OpBtrfsScrub_def OpPostqueue_def
  OpWireguardShow_def OpAptPending_def OpNeedrestart_def OpJournalQuery_def OpNftTableCounts_def
  OpFail2banStatus_def OpSshJournalCounts_def OpSystemdTimerLastTrigger_def
  OpRkhunterSummary_def OpUnattendedUpgradesStatus_def OpFirewallInspect_def
  OpFirewallLookup_def OpDovecotStatus_def OpNginxApacheStatus_def

text \<open>The linear search of \<^verbatim>\<open>IsKnownOp\<close>.\<close>

fun is_known_in :: "bytes list \<Rightarrow> bytes \<Rightarrow> bool" where
  "is_known_in [] op = False"
| "is_known_in (k # ks) op = (if k = op then True else is_known_in ks op)"

definition IsKnownOp :: "bytes \<Rightarrow> bool" where
  "IsKnownOp op = is_known_in AllOps op"

definition CodeBadOp :: bytes where "CodeBadOp = ''bad_op''"
definition CodeBadParam :: bytes where "CodeBadParam = ''bad_param''"
definition CodeToolMissing :: bytes where "CodeToolMissing = ''tool_missing''"
definition CodeToolFailed :: bytes where "CodeToolFailed = ''tool_failed''"
definition CodeOutputTruncated :: bytes where "CodeOutputTruncated = ''output_truncated''"
definition CodeDeadline :: bytes where "CodeDeadline = ''deadline''"
definition CodeInternal :: bytes where "CodeInternal = ''internal''"
definition StatusOK :: bytes where "StatusOK = ''ok''"
definition StatusErr :: bytes where "StatusErr = ''err''"

lemmas proto_code_defs =
  CodeBadOp_def CodeBadParam_def CodeToolMissing_def CodeToolFailed_def CodeOutputTruncated_def
  CodeDeadline_def CodeInternal_def StatusOK_def StatusErr_def

lemma is_known_in_iff: "is_known_in ks op \<longleftrightarrow> op \<in> set ks"
  by (induction ks) auto

lemma IsKnownOp_iff: "IsKnownOp op \<longleftrightarrow> op \<in> set AllOps"
  by (simp add: IsKnownOp_def is_known_in_iff)

lemma distinct_AllOps: "distinct AllOps"
  unfolding AllOps_def op_token_defs by code_simp

subsection \<open>Bodies\<close>

record Request =
  req_op :: bytes
  req_param :: bytes
  req_deadline_ms :: int

record Response =
  resp_status :: bytes
  resp_data :: bytes
  resp_code :: bytes
  resp_message :: bytes
  resp_stderr_bytes :: int
  resp_stderr_sha256 :: bytes
  resp_stderr_prefix :: bytes
  resp_tool_exit :: "int option"
  resp_argv :: "bytes list"

definition empty_response :: Response where
  "empty_response =
     \<lparr>resp_status = [], resp_data = [], resp_code = [], resp_message = [], resp_stderr_bytes = 0,
      resp_stderr_sha256 = [], resp_stderr_prefix = [], resp_tool_exit = None, resp_argv = []\<rparr>"

subsection \<open>Frames\<close>

definition MaxRequestFrame :: nat where
  "MaxRequestFrame = 16 * 1024"

definition MaxResponseFrame :: nat where
  "MaxResponseFrame = 4 * 1024 * 1024"

text \<open>
  An \<^verbatim>\<open>io.Writer\<close>: what it took so far and, for one that will fail, how many more bytes it
  takes before its error. An \<^verbatim>\<open>io.Reader\<close> over a connection is the bytes still to come; when
  they are used up it reports the end of the stream.
\<close>

record writer =
  w_out :: bytes
  w_room :: "nat option"

datatype frame_error =
    MarshalError
  | FrameTooLarge nat nat
  | WriteError
  | ReadEOF
  | ReadUnexpectedEOF
  | UnmarshalError

definition write_bytes :: "writer \<Rightarrow> bytes \<Rightarrow> writer \<times> bool" where
  "write_bytes w p =
     (case w_room w of
        None \<Rightarrow> (w\<lparr>w_out := w_out w @ p\<rparr>, True)
      | Some n \<Rightarrow>
          if length p \<le> n then (w\<lparr>w_out := w_out w @ p, w_room := Some (n - length p)\<rparr>, True)
          else (w\<lparr>w_out := w_out w @ take n p, w_room := Some 0\<rparr>, False))"

text \<open>\<^verbatim>\<open>binary.LittleEndian.PutUint32\<close> of a length converted to \<^verbatim>\<open>uint32\<close>, and its inverse.\<close>

definition put_le32 :: "nat \<Rightarrow> bytes" where
  "put_le32 n =
     [char_of (n mod 256), char_of (n div 256 mod 256),
      char_of (n div 65536 mod 256), char_of (n div 16777216 mod 256)]"

definition get_le32 :: "bytes \<Rightarrow> nat" where
  "get_le32 p =
     of_char (p ! 0) + of_char (p ! 1) * 256 + of_char (p ! 2) * 65536 + of_char (p ! 3) * 16777216"

definition WriteFrameWithCap ::
  "('v \<Rightarrow> bytes option) \<Rightarrow> writer \<Rightarrow> 'v \<Rightarrow> nat \<Rightarrow> writer \<times> frame_error option" where
  "WriteFrameWithCap marshal w v cap =
     (case marshal v of
        None \<Rightarrow> (w, Some MarshalError)
      | Some body \<Rightarrow>
          if cap < length body then (w, Some (FrameTooLarge (length body) cap))
          else
            (let (w1, ok1) = write_bytes w (put_le32 (length body))
             in if \<not> ok1 then (w1, Some WriteError)
                else let (w2, ok2) = write_bytes w1 body
                     in (w2, if ok2 then None else Some WriteError)))"

definition WriteFrame :: "('v \<Rightarrow> bytes option) \<Rightarrow> writer \<Rightarrow> 'v \<Rightarrow> writer \<times> frame_error option" where
  "WriteFrame marshal w v = WriteFrameWithCap marshal w v MaxRequestFrame"

text \<open>\<^verbatim>\<open>io.ReadFull\<close> into a buffer of \<open>n\<close> bytes: the bytes and the rest of the stream.\<close>

definition read_full :: "bytes \<Rightarrow> nat \<Rightarrow> (frame_error + bytes) \<times> bytes" where
  "read_full r n =
     (if n \<le> length r then (Inr (take n r), drop n r)
      else if r = [] then (Inl ReadEOF, [])
      else (Inl ReadUnexpectedEOF, []))"

definition ReadFrameWithCap ::
  "(bytes \<Rightarrow> 'v option) \<Rightarrow> bytes \<Rightarrow> nat \<Rightarrow> (frame_error + 'v) \<times> bytes" where
  "ReadFrameWithCap unmarshal r cap =
     (case read_full r 4 of
        (Inl e, r1) \<Rightarrow> (Inl e, r1)
      | (Inr pre, r1) \<Rightarrow>
          (let n = get_le32 pre
           in if cap < n then (Inl (FrameTooLarge n cap), r1)
              else case read_full r1 n of
                (Inl e, r2) \<Rightarrow> (Inl e, r2)
              | (Inr body, r2) \<Rightarrow>
                  (case unmarshal body of
                     None \<Rightarrow> (Inl UnmarshalError, r2)
                   | Some v \<Rightarrow> (Inr v, r2))))"

definition ReadFrame :: "(bytes \<Rightarrow> 'v option) \<Rightarrow> bytes \<Rightarrow> (frame_error + 'v) \<times> bytes" where
  "ReadFrame unmarshal r = ReadFrameWithCap unmarshal r MaxRequestFrame"

subsection \<open>The frame as a stream code\<close>

lemma length_put_le32 [simp]: "length (put_le32 n) = 4"
  by (simp add: put_le32_def)

lemma le32_digits:
  fixes n :: nat
  assumes "n < 4294967296"
  shows "n mod 256 + n div 256 mod 256 * 256 + n div 65536 mod 256 * 65536
           + n div 16777216 mod 256 * 16777216 = n"
proof -
  have "n div 65536 = n div 256 div 256" "n div 16777216 = n div 256 div 256 div 256"
    by (simp_all add: div_mult2_eq [symmetric])
  moreover have "n div 16777216 mod 256 = n div 16777216" using assms by simp
  moreover have comb: "r0 + r1 * 256 + r2 * 65536 + q3 * 16777216 = n"
    if "q1 * 256 + r0 = n" "q2 * 256 + r1 = q1" "q3 * 256 + r2 = q2" for q1 q2 q3 r0 r1 r2 :: nat
    using that by (auto simp: algebra_simps)
  ultimately show ?thesis
    using comb [OF div_mult_mod_eq [of n 256] div_mult_mod_eq [of "n div 256" 256]
        div_mult_mod_eq [of "n div 256 div 256" 256]] by simp
qed

lemma get_put_le32: "n < 2 ^ 32 \<Longrightarrow> get_le32 (put_le32 n) = n"
  using le32_digits [of n] by (simp add: get_le32_def put_le32_def)

text \<open>
  What a reader relies on: a code word followed by anything decodes to the word and leaves the
  rest. A sequence of code words then decodes word by word, whatever follows it.
\<close>

locale stream_code =
  fixes enc :: "'a \<Rightarrow> bytes"
    and dec :: "bytes \<Rightarrow> ('a \<times> bytes) option"
    and ok :: "'a \<Rightarrow> bool"
  assumes dec_enc: "ok x \<Longrightarrow> dec (enc x @ r) = Some (x, r)"
begin

fun dec_many :: "nat \<Rightarrow> bytes \<Rightarrow> ('a list \<times> bytes) option" where
  "dec_many 0 s = Some ([], s)"
| "dec_many (Suc n) s =
     (case dec s of
        None \<Rightarrow> None
      | Some (x, r) \<Rightarrow> (case dec_many n r of None \<Rightarrow> None | Some (xs, r') \<Rightarrow> Some (x # xs, r')))"

lemma dec_many_enc:
  "list_all ok xs \<Longrightarrow> dec_many (length xs) (concat (map enc xs) @ r) = Some (xs, r)"
  by (induction xs) (auto simp: dec_enc)

lemma enc_prefix_free: "ok x \<Longrightarrow> ok y \<Longrightarrow> enc x @ r = enc y @ r' \<Longrightarrow> x = y \<and> r = r'"
  by (metis dec_enc option.inject prod.inject)

end

text \<open>A frame body as raw bytes, below the JSON layer.\<close>

definition frame_bytes :: "bytes \<Rightarrow> bytes" where
  "frame_bytes body = put_le32 (length body) @ body"

definition take_frame :: "nat \<Rightarrow> bytes \<Rightarrow> (bytes \<times> bytes) option" where
  "take_frame cap s =
     (case ReadFrameWithCap Some s cap of (Inr body, r) \<Rightarrow> Some (body, r) | (Inl _, _) \<Rightarrow> None)"

lemma ReadFrameWithCap_frame:
  assumes "length body \<le> cap" and "cap < 2 ^ 32"
  shows "ReadFrameWithCap unmarshal (frame_bytes body @ r) cap =
     (case unmarshal body of None \<Rightarrow> (Inl UnmarshalError, r) | Some v \<Rightarrow> (Inr v, r))"
  using assms by (simp add: ReadFrameWithCap_def read_full_def frame_bytes_def get_put_le32 Let_def)

interpretation request_frames: stream_code frame_bytes "take_frame MaxRequestFrame"
  "\<lambda>body. length body \<le> MaxRequestFrame"
  by unfold_locales (simp add: take_frame_def ReadFrameWithCap_frame MaxRequestFrame_def)

interpretation response_frames: stream_code frame_bytes "take_frame MaxResponseFrame"
  "\<lambda>body. length body \<le> MaxResponseFrame"
  by unfold_locales (simp add: take_frame_def ReadFrameWithCap_frame MaxResponseFrame_def)

subsection \<open>What is written and what is read\<close>

text \<open>A writer that does not fail receives exactly one frame, or nothing.\<close>

lemma WriteFrameWithCap_ok:
  assumes "w_room w = None"
  shows "WriteFrameWithCap marshal w v cap =
     (case marshal v of
        None \<Rightarrow> (w, Some MarshalError)
      | Some body \<Rightarrow>
          if cap < length body then (w, Some (FrameTooLarge (length body) cap))
          else (w\<lparr>w_out := w_out w @ frame_bytes body\<rparr>, None))"
  using assms by (auto simp: WriteFrameWithCap_def write_bytes_def frame_bytes_def Let_def split: option.splits)

lemma read_full_suffix: "snd (read_full r n) = drop n r"
  by (auto simp: read_full_def)

text \<open>C12: a frame that was written within its cap reads back as the value written, and the reader
  is left at the byte after it, for every JSON coding that reads back what it wrote.\<close>

theorem frame_roundtrip:
  assumes "w_room w = None"
    and "cap < 2 ^ 32"
    and "\<And>body. marshal v = Some body \<Longrightarrow> unmarshal body = Some v"
    and "WriteFrameWithCap marshal w v cap = (w', None)"
  shows "\<exists>sent. w_out w' = w_out w @ sent \<and>
           ReadFrameWithCap unmarshal (sent @ rest) cap = (Inr v, rest)"
proof -
  from assms(1,4) obtain body where m: "marshal v = Some body" and len: "length body \<le> cap"
    and w': "w' = w\<lparr>w_out := w_out w @ frame_bytes body\<rparr>"
    by (auto simp: WriteFrameWithCap_ok split: option.splits if_splits)
  have "ReadFrameWithCap unmarshal (frame_bytes body @ rest) cap = (Inr v, rest)"
    using assms(2,3) m len by (simp add: ReadFrameWithCap_frame)
  then show ?thesis using w' by auto
qed

theorem frame_roundtrip_witness:
  "\<exists>sent. w_out (fst (WriteFrameWithCap Some \<lparr>w_out = [], w_room = None\<rparr> ''ok'' MaxRequestFrame)) = [] @ sent \<and>
     ReadFrameWithCap Some (sent @ ''tail'') MaxRequestFrame = (Inr ''ok'', ''tail'')"
  using frame_roundtrip [of "\<lparr>w_out = [], w_room = None\<rparr>" MaxRequestFrame Some "''ok''" Some
      "fst (WriteFrameWithCap Some \<lparr>w_out = [], w_room = None\<rparr> ''ok'' MaxRequestFrame)" "''tail''"]
  by (simp add: WriteFrameWithCap_ok MaxRequestFrame_def)

text \<open>the reader never takes a body longer than its cap: a frame whose declared length is
  larger is refused with only the four length bytes consumed, and in every case at most
  \<open>4 + cap\<close> bytes leave the stream.\<close>

theorem read_frame_bounded:
  "length r - length (snd (ReadFrameWithCap unmarshal r cap)) \<le> 4 + cap \<and>
   (4 \<le> length r \<longrightarrow> cap < get_le32 (take 4 r) \<longrightarrow>
      ReadFrameWithCap unmarshal r cap = (Inl (FrameTooLarge (get_le32 (take 4 r)) cap), drop 4 r))"
  by (auto simp: ReadFrameWithCap_def read_full_def Let_def split: option.splits)

theorem read_frame_bounded_witness:
  "ReadFrameWithCap Some (put_le32 20000 @ ''abc'') MaxRequestFrame =
     (Inl (FrameTooLarge 20000 MaxRequestFrame), ''abc'')"
  using read_frame_bounded [of "put_le32 20000 @ ''abc''" Some MaxRequestFrame]
  by (simp add: get_put_le32 MaxRequestFrame_def)

end
