(* ===== verification/Registry.thy ===== *)
theory Registry
  imports Proto
begin

text \<open>
  The two compile-time tables: \<^verbatim>\<open>daemon/internal/helper/dispatch\<close> (the helper's operations, filled
  by \<^verbatim>\<open>ops.RegisterAll\<close>) and the registry of \<^verbatim>\<open>daemon/internal/daemon/tools\<close> (the daemon's tools).
  A registration that Go refuses with a panic gives \<^const>\<open>Panic\<close>. What both promise their clients
  is one interface, interpreted for each.
\<close>

subsection \<open>The helper's dispatch table\<close>

text \<open>\<^verbatim>\<open>dispatch.Error\<close>.\<close>

record dispatch_Error =
  de_Code :: bytes
  de_Message :: bytes
  de_StderrBytes :: int
  de_StderrSHA256 :: bytes
  de_StderrPrefix :: bytes
  de_ToolExit :: "int option"
  de_Argv :: "bytes list"

definition zero_dispatch_Error :: dispatch_Error where
  "zero_dispatch_Error = \<lparr>de_Code = [], de_Message = [], de_StderrBytes = 0, de_StderrSHA256 = [],
     de_StderrPrefix = [], de_ToolExit = None, de_Argv = []\<rparr>"

definition dispatch_Error_Error :: "dispatch_Error \<Rightarrow> bytes" where
  "dispatch_Error_Error e = (if de_Message e \<noteq> [] then de_Code e @ '': '' @ de_Message e else de_Code e)"

record 'h op_registry =
  handlers :: "bytes \<rightharpoonup> 'h"

definition NewRegistry :: "'h op_registry" where
  "NewRegistry = \<lparr>handlers = Map.empty\<rparr>"

definition Register :: "'h op_registry \<Rightarrow> bytes \<Rightarrow> 'h \<Rightarrow> 'h op_registry go" where
  "Register r op h =
     (if \<not> IsKnownOp op then Panic (''dispatch: register: unknown op token '' @ op)
      else if handlers r op \<noteq> None then Panic (''dispatch: register: duplicate op token '' @ op)
      else Ret (r\<lparr>handlers := (handlers r)(op \<mapsto> h)\<rparr>))"

definition LookupOp :: "'h op_registry \<Rightarrow> bytes \<Rightarrow> 'h option" where
  "LookupOp r op = handlers r op"

definition Ops :: "'h op_registry \<Rightarrow> bytes list" where
  "Ops r = filter (\<lambda>op. handlers r op \<noteq> None) AllOps"

text \<open>
  The registrations of \<^verbatim>\<open>RegisterAll\<close>, in order: an op token and the name of its handler, which
  \<open>fn\<close> resolves.
\<close>

definition register_calls :: "(bytes \<times> bytes) list" where
  "register_calls =
     [(OpReadAuditStatus, ''ReadAuditStatus''), (OpReadAideSummary, ''ReadAideSummary''),
      (OpReadRebootMarker, ''ReadRebootMarker''), (OpSmartSummary, ''SmartSummaryHandler''),
      (OpMdraidDetail, ''MdraidDetail''), (OpLvmReport, ''LvmReport''), (OpZpoolStatus, ''ZpoolStatus''),
      (OpBtrfsScrub, ''BtrfsScrub''), (OpPostqueue, ''Postqueue''), (OpWireguardShow, ''WireguardShow''),
      (OpAptPending, ''AptPending''), (OpNeedrestart, ''Needrestart''), (OpJournalQuery, ''JournalQuery''),
      (OpNftTableCounts, ''NftTableCounts''), (OpFail2banStatus, ''Fail2banStatus''),
      (OpSshJournalCounts, ''SshJournalCounts''),
      (OpSystemdTimerLastTrigger, ''SystemdTimerLastTrigger''), (OpRkhunterSummary, ''RkhunterSummary''),
      (OpUnattendedUpgradesStatus, ''UnattendedUpgradesStatus''), (OpFirewallInspect, ''FirewallInspect''),
      (OpFirewallLookup, ''FirewallLookup''), (OpDovecotStatus, ''DovecotStatus''),
      (OpNginxApacheStatus, ''NginxApacheStatus'')]"

text \<open>A sequence of registrations; a panic ends it.\<close>

fun register_all :: "('r \<Rightarrow> 'e \<Rightarrow> 'r go) \<Rightarrow> 'r \<Rightarrow> 'e list \<Rightarrow> 'r go" where
  "register_all reg r [] = Ret r"
| "register_all reg r (x # xs) = (case reg r x of Panic m \<Rightarrow> Panic m | Ret r' \<Rightarrow> register_all reg r' xs)"

definition RegisterAll :: "(bytes \<Rightarrow> 'h) \<Rightarrow> 'h op_registry \<Rightarrow> 'h op_registry go" where
  "RegisterAll fn r =
     register_all (\<lambda>r (op, h). Register r op h) r (map (\<lambda>(op, name). (op, fn name)) register_calls)"

subsection \<open>The daemon's tools\<close>

text \<open>
  The part of the \<^verbatim>\<open>Tool\<close> interface the server reads; \<open>tool_AuditArgs\<close> is the optional
  \<^verbatim>\<open>AuditArgsExtractor\<close> extension.
\<close>

record Tool =
  tool_Name :: bytes
  tool_DefaultTTL :: duration
  tool_DefaultTimeout :: duration
  tool_AuditArgs :: "(bytes \<Rightarrow> (bytes \<times> bytes) list) option"

record tool_registry =
  tools :: "bytes \<rightharpoonup> Tool"

definition NewTools :: tool_registry where
  "NewTools = \<lparr>tools = Map.empty\<rparr>"

definition RegisterTool :: "tool_registry \<Rightarrow> Tool \<Rightarrow> tool_registry go" where
  "RegisterTool r t =
     (if tools r (tool_Name t) \<noteq> None then Panic (''tools: duplicate registration for '' @ tool_Name t)
      else Ret (r\<lparr>tools := (tools r)(tool_Name t \<mapsto> t)\<rparr>))"

definition LookupTool :: "tool_registry \<Rightarrow> bytes \<Rightarrow> Tool option" where
  "LookupTool r name = tools r name"

definition Names :: "tool_registry \<Rightarrow> bytes set" where
  "Names r = dom (tools r)"

subsection \<open>The interface\<close>

locale registry =
  fixes empty :: 'r
    and register :: "'r \<Rightarrow> 'e \<Rightarrow> 'r go"
    and key :: "'e \<Rightarrow> 'k"
    and val :: "'e \<Rightarrow> 'v"
    and lookup :: "'r \<Rightarrow> 'k \<Rightarrow> 'v option"
    and admissible :: "'e \<Rightarrow> bool"
  assumes lookup_empty: "lookup empty k = None"
    and register_ok: "register r e = Ret r' \<Longrightarrow>
      admissible e \<and> lookup r (key e) = None \<and> lookup r' = (lookup r)(key e \<mapsto> val e)"
    and register_total: "admissible e \<Longrightarrow> lookup r (key e) = None \<Longrightarrow> \<exists>r'. register r e = Ret r'"
begin

text \<open>Any sequence of registrations that does not panic gives exactly the table of its entries.\<close>

lemma register_all_lookup:
  "register_all register r es = Ret r' \<Longrightarrow>
     lookup r' k = (case map_of (map (\<lambda>e. (key e, val e)) es) k of Some v \<Rightarrow> Some v | None \<Rightarrow> lookup r k) \<and>
     distinct (map key es) \<and> (\<forall>e \<in> set es. admissible e \<and> lookup r (key e) = None)"
proof (induction es arbitrary: r)
  case Nil
  then show ?case by simp
next
  case (Cons e es)
  from Cons.prems obtain r1 where r1: "register r e = Ret r1" "register_all register r1 es = Ret r'"
    by (auto split: go.splits)
  note ih = Cons.IH [OF r1(2)] and ok = register_ok [OF r1(1)]
  have n: "x \<in> set es \<Longrightarrow> key x \<noteq> key e" for x using ih ok by fastforce
  then have "map_of (map (\<lambda>e. (key e, val e)) es) (key e) = None"
    by (force simp: map_of_eq_None_iff)
  moreover have "key e \<notin> key ` set es" using n by (metis imageE)
  ultimately show ?case using ih ok n by (auto split: option.splits if_splits)
qed

lemma register_all_total:
  assumes "distinct (map key es)" and "\<forall>e \<in> set es. admissible e \<and> lookup r (key e) = None"
  shows "\<exists>r'. register_all register r es = Ret r'"
  using assms
proof (induction es arbitrary: r)
  case Nil
  then show ?case by simp
next
  case (Cons e es)
  then obtain r1 where r1: "register r e = Ret r1" using register_total [of e r] by auto
  from register_ok [OF this] Cons.prems have "\<forall>x \<in> set es. admissible x \<and> lookup r1 (key x) = None"
    by (auto simp: image_iff)
  with Cons.IH [of r1] Cons.prems r1 show ?case by auto
qed

end

interpretation op_table: registry NewRegistry "\<lambda>r (op, h). Register r op h" fst snd LookupOp "\<lambda>(op, h). IsKnownOp op"
  by unfold_locales
    (auto simp: NewRegistry_def Register_def LookupOp_def fun_eq_iff split: if_splits)

interpretation tool_table: registry NewTools RegisterTool tool_Name id LookupTool "\<lambda>t. True"
  by unfold_locales
    (auto simp: NewTools_def RegisterTool_def LookupTool_def fun_eq_iff split: if_splits)

subsection \<open>The helper registers every op\<close>

lemma register_calls_AllOps: "map fst register_calls = AllOps"
  by (simp add: register_calls_def AllOps_def)

text \<open>
  The helper's start-up registers without a panic, and afterwards exactly the op tokens of
  the protocol have a handler, listed in protocol order: no op the daemon can send is left without
  one and no token outside the protocol is served.
\<close>

lemma register_all_covers_protocol:
  "\<exists>r. RegisterAll fn NewRegistry = Ret r \<and> Ops r = AllOps \<and>
     (\<forall>op. LookupOp r op = map_option fn (map_of register_calls op)) \<and>
     (\<forall>op. LookupOp r op \<noteq> None \<longleftrightarrow> IsKnownOp op)"
proof -
  let ?es = "map (\<lambda>(op, name). (op, fn name)) register_calls"
  have k: "map fst ?es = AllOps" using register_calls_AllOps by (simp add: comp_def split_def)
  have "\<exists>r. register_all (\<lambda>r (op, h). Register r op h) NewRegistry ?es = Ret r"
  proof (rule op_table.register_all_total)
    show "distinct (map fst ?es)" unfolding k by (rule distinct_AllOps)
    show "\<forall>e \<in> set ?es. (case e of (op, h) \<Rightarrow> IsKnownOp op) \<and> LookupOp NewRegistry (fst e) = None"
    proof
      fix e assume "e \<in> set ?es"
      then have "fst e \<in> set (map fst ?es)" by (metis imageI list.set_map)
      then have "IsKnownOp (fst e)" unfolding k by (simp add: IsKnownOp_iff)
      then show "(case e of (op, h) \<Rightarrow> IsKnownOp op) \<and> LookupOp NewRegistry (fst e) = None"
        by (simp add: split_beta op_table.lookup_empty)
    qed
  qed
  then obtain r where r: "register_all (\<lambda>r (op, h). Register r op h) NewRegistry ?es = Ret r" by blast
  have l: "LookupOp r op = map_option fn (map_of register_calls op)" for op
  proof -
    have "map (\<lambda>e. (fst e, snd e)) ?es = ?es" by simp
    moreover have "map_of ?es op = map_option fn (map_of register_calls op)"
      by (simp add: map_of_map)
    ultimately show ?thesis
      using op_table.register_all_lookup [OF r, of op] op_table.lookup_empty [of op]
      by (auto split: option.splits)
  qed
  have d: "LookupOp r op \<noteq> None \<longleftrightarrow> IsKnownOp op" for op
  proof -
    have "LookupOp r op = None \<longleftrightarrow> op \<notin> set (map fst register_calls)"
      by (simp add: l map_of_eq_None_iff)
    then show ?thesis by (simp add: register_calls_AllOps IsKnownOp_iff)
  qed
  have "Ops r = AllOps"
    using d by (simp add: Ops_def LookupOp_def IsKnownOp_iff)
  with r l d show ?thesis by (auto simp: RegisterAll_def)
qed

end
