(* ===== verification/Netip.thy ===== *)
theory Netip
  imports GoConv
begin

text \<open>
  The parts of Go's \<^verbatim>\<open>net/netip\<close> the program calls: textual IPv4 and IPv6 addresses (with
  zones and embedded IPv4), prefixes, containment, masking, order and the address classes. The
  lemmas say what containment in a prefix means as an interval of addresses.
\<close>

subsection \<open>Addresses and prefixes\<close>

text \<open>\<^verbatim>\<open>netip.Addr\<close> (valid ones) and \<^verbatim>\<open>netip.Prefix\<close>; an absent zone is the empty string.\<close>

datatype addr = IPv4 "32 word" | IPv6 "128 word" bytes

record prefix =
  prefix_addr :: addr
  prefix_bits :: nat

fun Is4 :: "addr \<Rightarrow> bool" where
  "Is4 (IPv4 _) = True" | "Is4 (IPv6 _ _) = False"

definition Is6 :: "addr \<Rightarrow> bool" where
  "Is6 a \<longleftrightarrow> \<not> Is4 a"

text \<open>An IPv4-mapped IPv6 address, \<^verbatim>\<open>::ffff:a.b.c.d\<close>; it is an IPv6 address.\<close>

fun Is4In6 :: "addr \<Rightarrow> bool" where
  "Is4In6 (IPv4 _) = False"
| "Is4In6 (IPv6 w _) = (unat w div 2 ^ 32 = 0xFFFF)"

fun Unmap :: "addr \<Rightarrow> addr" where
  "Unmap (IPv4 w) = IPv4 w"
| "Unmap (IPv6 w z) = (if Is4In6 (IPv6 w z) then IPv4 (of_nat (unat w mod 2 ^ 32)) else IPv6 w z)"

fun zone_of :: "addr \<Rightarrow> bytes" where
  "zone_of (IPv4 _) = []" | "zone_of (IPv6 _ z) = z"

fun addr_val :: "addr \<Rightarrow> nat" where
  "addr_val (IPv4 w) = unat w" | "addr_val (IPv6 w _) = unat w"

definition BitLen :: "addr \<Rightarrow> nat" where
  "BitLen a = (if Is4 a then 32 else 128)"

definition with_val :: "addr \<Rightarrow> nat \<Rightarrow> addr" where
  "with_val a n = (case a of IPv4 _ \<Rightarrow> IPv4 (of_nat n) | IPv6 _ z \<Rightarrow> IPv6 (of_nat n) z)"

text \<open>\<^verbatim>\<open>Prefix.Contains\<close>: a zoned address or one of the other family is in no prefix.\<close>

definition prefix_contains :: "prefix \<Rightarrow> addr \<Rightarrow> bool" where
  "prefix_contains p a \<longleftrightarrow>
     zone_of a = [] \<and> BitLen (prefix_addr p) = BitLen a \<and>
     (let k = BitLen a - prefix_bits p
      in addr_val a div 2 ^ k = addr_val (prefix_addr p) div 2 ^ k)"

text \<open>\<^verbatim>\<open>Prefix.Masked\<close>: the low bits of the address cleared and its zone dropped.\<close>

definition prefix_masked :: "prefix \<Rightarrow> prefix" where
  "prefix_masked p =
     (let a = prefix_addr p; k = BitLen a - prefix_bits p; n = addr_val a div 2 ^ k * 2 ^ k
      in \<lparr>prefix_addr = (case a of IPv4 _ \<Rightarrow> IPv4 (of_nat n) | IPv6 _ _ \<Rightarrow> IPv6 (of_nat n) []),
          prefix_bits = prefix_bits p\<rparr>)"

text \<open>\<^verbatim>\<open>Addr.Compare(x) <= 0\<close>: by bit length, then by value, then by zone.\<close>

fun bytes_le :: "bytes \<Rightarrow> bytes \<Rightarrow> bool" where
  "bytes_le [] t = True"
| "bytes_le (c # s) [] = False"
| "bytes_le (c # s) (d # t) =
     ((of_char c :: nat) < of_char d \<or> (c = d \<and> bytes_le s t))"

definition addr_le :: "addr \<Rightarrow> addr \<Rightarrow> bool" where
  "addr_le a b \<longleftrightarrow>
     BitLen a < BitLen b \<or>
     (BitLen a = BitLen b \<and>
       (addr_val a < addr_val b \<or> (addr_val a = addr_val b \<and> bytes_le (zone_of a) (zone_of b))))"

subsection \<open>Address classes\<close>

definition IsLoopback :: "addr \<Rightarrow> bool" where
  "IsLoopback a = (case Unmap a of
     IPv4 w \<Rightarrow> unat w div 2 ^ 24 = 127 | IPv6 w _ \<Rightarrow> unat w = 1)"

definition IsLinkLocalUnicast :: "addr \<Rightarrow> bool" where
  "IsLinkLocalUnicast a = (case Unmap a of
     IPv4 w \<Rightarrow> unat w div 2 ^ 16 = 169 * 256 + 254
   | IPv6 w _ \<Rightarrow> unat w div 2 ^ 118 = 0xFE80 div 2 ^ 6)"

definition IsPrivate :: "addr \<Rightarrow> bool" where
  "IsPrivate a = (case Unmap a of
     IPv4 w \<Rightarrow> unat w div 2 ^ 24 = 10 \<or> unat w div 2 ^ 20 = 172 * 16 + 1 \<or>
               unat w div 2 ^ 16 = 192 * 256 + 168
   | IPv6 w _ \<Rightarrow> unat w div 2 ^ 121 = 0xFC div 2)"

subsection \<open>Parsing\<close>

fun split_on :: "char \<Rightarrow> bytes \<Rightarrow> bytes \<Rightarrow> bytes list" where
  "split_on c cur [] = [rev cur]"
| "split_on c cur (x # xs) =
     (if x = c then rev cur # split_on c [] xs else split_on c (x # cur) xs)"

text \<open>One decimal octet: digits only, no leading zero, at most 255.\<close>

definition parse_octet :: "bytes \<Rightarrow> nat option" where
  "parse_octet s =
     (if s = [] \<or> (2 \<le> length s \<and> hd s = CHR ''0'') then None
      else case parse_digits 10 0 s of
        None \<Rightarrow> None | Some n \<Rightarrow> if n \<le> 255 then Some n else None)"

definition parse_ipv4 :: "bytes \<Rightarrow> nat option" where
  "parse_ipv4 s =
     (case map parse_octet (split_on (CHR ''.'') [] s) of
        [Some a, Some b, Some c, Some d] \<Rightarrow> Some (a * 2 ^ 24 + b * 2 ^ 16 + c * 2 ^ 8 + d)
      | _ \<Rightarrow> None)"

definition hex_digit :: "char \<Rightarrow> bool" where
  "hex_digit c \<longleftrightarrow> digit_val c \<noteq> None"

text \<open>
  The loop of the IPv6 parser. \<open>gs\<close> holds the 16-bit groups read so far in reverse, \<open>ell\<close> the
  number of groups before the \<^verbatim>\<open>::\<close>; the result is what is left of the string, the groups and
  the ellipsis. \<open>fuel\<close> is the number of groups still allowed (the loop runs while fewer than 16
  bytes are filled).
\<close>

fun ipv6_groups :: "nat \<Rightarrow> bytes \<Rightarrow> nat list \<Rightarrow> nat option \<Rightarrow> (bytes \<times> nat list \<times> nat option) option" where
  "ipv6_groups 0 s gs ell = Some (s, gs, ell)"
| "ipv6_groups (Suc fuel) s gs ell =
     (let ds = takeWhile hex_digit s; rest = dropWhile hex_digit s
      in if ds = [] \<or> 4 < length ds then None
         else if rest \<noteq> [] \<and> hd rest = CHR ''.'' then
           (if (ell = None \<and> length gs \<noteq> 6) \<or> 6 < length gs then None
            else case parse_ipv4 s of
              None \<Rightarrow> None
            | Some v \<Rightarrow> Some ([], (v mod 2 ^ 16) # (v div 2 ^ 16) # gs, ell))
         else case parse_digits 16 0 ds of
           None \<Rightarrow> None
         | Some g \<Rightarrow>
             (case rest of
                [] \<Rightarrow> Some ([], g # gs, ell)
              | c # t \<Rightarrow>
                  if c \<noteq> CHR '':'' \<or> t = [] then None
                  else if hd t = CHR '':'' then
                    (if ell \<noteq> None then None
                     else if tl t = [] then Some ([], g # gs, Some (Suc (length gs)))
                     else ipv6_groups fuel (tl t) (g # gs) (Some (Suc (length gs))))
                  else ipv6_groups fuel t (g # gs) ell))"

definition groups_val :: "nat list \<Rightarrow> nat" where
  "groups_val gs = foldl (\<lambda>a g. a * 2 ^ 16 + g) 0 gs"

definition parse_ipv6 :: "bytes \<Rightarrow> addr option" where
  "parse_ipv6 inp =
     (let (s, zone, zone_ok) = (case index_byte inp (CHR ''%'') of
          None \<Rightarrow> (inp, [], True)
        | Some i \<Rightarrow> (take i inp, drop (Suc i) inp, drop (Suc i) inp \<noteq> []))
      in if \<not> zone_ok then None
         else let (s1, ell0) = (if has_prefix s ''::'' then (drop 2 s, Some 0) else (s, None))
         in if ell0 = Some 0 \<and> s1 = [] then Some (IPv6 0 zone)
            else case ipv6_groups 8 s1 [] ell0 of
              None \<Rightarrow> None
            | Some (rest, rgs, ell) \<Rightarrow>
                if rest \<noteq> [] then None
                else let gs = rev rgs
                in if length gs < 8 then
                     (case ell of
                        None \<Rightarrow> None
                      | Some e \<Rightarrow>
                          Some (IPv6 (of_nat (groups_val
                            (take e gs @ replicate (8 - length gs) 0 @ drop e gs))) zone))
                   else if ell \<noteq> None then None
                   else Some (IPv6 (of_nat (groups_val gs)) zone))"

text \<open>\<^verbatim>\<open>netip.ParseAddr\<close>: the first \<^verbatim>\<open>.\<close>, \<^verbatim>\<open>:\<close> or \<^verbatim>\<open>%\<close> decides the form.\<close>

definition ParseAddr :: "bytes \<Rightarrow> addr option" where
  "ParseAddr s =
     (case find (\<lambda>c. c \<in> set ''.:%'') s of
        None \<Rightarrow> None
      | Some c \<Rightarrow>
          if c = CHR ''.'' then map_option (\<lambda>n. IPv4 (of_nat n)) (parse_ipv4 s)
          else if c = CHR '':'' then parse_ipv6 s
          else None)"

text \<open>\<^verbatim>\<open>netip.ParsePrefix\<close>: an address without zone, a slash, and a length without sign or
  leading zero that fits the family.\<close>

definition ParsePrefix :: "bytes \<Rightarrow> prefix option" where
  "ParsePrefix s =
     (case index_byte (rev s) (CHR ''/'') of
        None \<Rightarrow> None
      | Some j \<Rightarrow>
          (let i = length s - Suc j; bits = drop (Suc i) s
           in case ParseAddr (take i s) of
                None \<Rightarrow> None
              | Some ip \<Rightarrow>
                  if zone_of ip \<noteq> [] then None
                  else if 1 < length bits \<and> \<not> (49 \<le> (of_char (hd bits) :: nat) \<and> (of_char (hd bits) :: nat) \<le> 57)
                  then None
                  else case atoi bits of
                    None \<Rightarrow> None
                  | Some b \<Rightarrow>
                      if b < 0 \<or> int (BitLen ip) < b then None
                      else Some \<lparr>prefix_addr = ip, prefix_bits = nat b\<rparr>))"

subsection \<open>What containment means\<close>

text \<open>A prefix that \<^verbatim>\<open>ParsePrefix\<close> can return.\<close>

definition prefix_wf :: "prefix \<Rightarrow> bool" where
  "prefix_wf p \<longleftrightarrow> prefix_bits p \<le> BitLen (prefix_addr p) \<and> zone_of (prefix_addr p) = []"

definition prefix_first :: "prefix \<Rightarrow> nat" where
  "prefix_first p = addr_val (prefix_addr p) div 2 ^ (BitLen (prefix_addr p) - prefix_bits p)
                    * 2 ^ (BitLen (prefix_addr p) - prefix_bits p)"

definition prefix_last :: "prefix \<Rightarrow> nat" where
  "prefix_last p = prefix_first p + 2 ^ (BitLen (prefix_addr p) - prefix_bits p) - 1"

lemma div_eq_interval:
  fixes a b m :: nat
  assumes "0 < m"
  shows "a div m = b div m \<longleftrightarrow> b div m * m \<le> a \<and> a \<le> b div m * m + m - 1"
proof
  assume eq: "a div m = b div m"
  have "a = b div m * m + a mod m" using div_mult_mod_eq [of a m] eq by simp
  moreover have "a mod m \<le> m - 1" using mod_less_divisor [OF assms, of a] by linarith
  ultimately show "b div m * m \<le> a \<and> a \<le> b div m * m + m - 1"
    using assms by (intro conjI) linarith+
next
  assume r: "b div m * m \<le> a \<and> a \<le> b div m * m + m - 1"
  then obtain k where k: "a = b div m * m + k" using le_Suc_ex by blast
  with r assms have "k < m" by linarith
  with k assms show "a div m = b div m" by simp
qed

lemma prefix_contains_interval:
  "prefix_contains p a \<longleftrightarrow>
     zone_of a = [] \<and> BitLen (prefix_addr p) = BitLen a \<and>
     prefix_first p \<le> addr_val a \<and> addr_val a \<le> prefix_last p"
  by (auto simp: prefix_contains_def prefix_first_def prefix_last_def Let_def div_eq_interval)

lemma ParsePrefix_wf: "ParsePrefix s = Some p \<Longrightarrow> prefix_wf p"
  by (auto simp: ParsePrefix_def prefix_wf_def Let_def split: option.splits if_splits)

lemma BitLen_eq_iff: "BitLen a = BitLen b \<longleftrightarrow> Is6 a = Is6 b"
  by (auto simp: BitLen_def Is6_def)

lemma addr_val_bound: "addr_val a < 2 ^ BitLen a"
proof (cases a)
  case (IPv4 w)
  then show ?thesis using unsigned_less [of w, where 'a = nat] by (simp add: BitLen_def)
next
  case (IPv6 w z)
  then show ?thesis using unsigned_less [of w, where 'a = nat] by (simp add: BitLen_def)
qed

lemma prefix_masked_simps [simp]:
  "prefix_bits (prefix_masked p) = prefix_bits p"
  "BitLen (prefix_addr (prefix_masked p)) = BitLen (prefix_addr p)"
  "Is6 (prefix_addr (prefix_masked p)) = Is6 (prefix_addr p)"
  "zone_of (prefix_addr (prefix_masked p)) = []"
  by (auto simp: prefix_masked_def Let_def BitLen_def Is6_def split: addr.splits)

lemma prefix_masked_alt:
  "prefix_masked p =
     \<lparr>prefix_addr = (case prefix_addr p of
         IPv4 _ \<Rightarrow> IPv4 (of_nat (prefix_first p)) | IPv6 _ _ \<Rightarrow> IPv6 (of_nat (prefix_first p)) []),
      prefix_bits = prefix_bits p\<rparr>"
  by (simp only: prefix_masked_def prefix_first_def Let_def)

lemma prefix_masked_val: "addr_val (prefix_addr (prefix_masked p)) = prefix_first p"
proof -
  have "prefix_first p \<le> addr_val (prefix_addr p)" by (simp add: prefix_first_def)
  then have lt: "prefix_first p < 2 ^ BitLen (prefix_addr p)"
    using addr_val_bound le_less_trans by blast
  show ?thesis
  proof (cases "prefix_addr p")
    case (IPv4 w)
    with lt show ?thesis by (simp add: prefix_masked_alt BitLen_def unat_of_nat_small)
  next
    case (IPv6 w z)
    with lt show ?thesis by (simp add: prefix_masked_alt BitLen_def unat_of_nat_small)
  qed
qed

lemma prefix_masked_first [simp]: "prefix_first (prefix_masked p) = prefix_first p"
  by (simp add: prefix_first_def [of "prefix_masked p"] prefix_masked_val) (simp add: prefix_first_def)

lemma prefix_masked_last [simp]: "prefix_last (prefix_masked p) = prefix_last p"
  by (simp add: prefix_last_def)

lemma prefix_masked_contains [simp]: "prefix_contains (prefix_masked p) a = prefix_contains p a"
  by (simp add: prefix_contains_interval)

lemma prefix_first_le_last: "prefix_first p \<le> prefix_last p"
proof -
  have "1 \<le> (2::nat) ^ (BitLen (prefix_addr p) - prefix_bits p)" by simp
  then show ?thesis unfolding prefix_last_def by linarith
qed

subsection \<open>Host and port\<close>

fun last_index_byte :: "bytes \<Rightarrow> char \<Rightarrow> nat option" where
  "last_index_byte [] c = None"
| "last_index_byte (x # xs) c =
     (case last_index_byte xs c of
        Some i \<Rightarrow> Some (Suc i)
      | None \<Rightarrow> if x = c then Some 0 else None)"

text \<open>\<^verbatim>\<open>net.SplitHostPort\<close>: \<^const>\<open>None\<close> is any of its errors.\<close>

definition SplitHostPort :: "bytes \<Rightarrow> (bytes \<times> bytes) option" where
  "SplitHostPort hp =
     (case last_index_byte hp CHR '':'' of
        None \<Rightarrow> None
      | Some i \<Rightarrow>
          let port = drop (i + 1) hp
          in if hd hp = CHR ''['' then
               (case index_byte hp CHR '']'' of
                  None \<Rightarrow> None
                | Some e \<Rightarrow>
                    if e + 1 \<noteq> i then None
                    else if CHR ''['' \<in> set (drop 1 hp) \<or> CHR '']'' \<in> set (drop (e + 1) hp) then None
                    else Some (take (e - 1) (drop 1 hp), port))
             else
               (let host = take i hp
                in if CHR '':'' \<in> set host \<or> CHR ''['' \<in> set hp \<or> CHR '']'' \<in> set hp then None
                   else Some (host, port)))"

text \<open>\<^verbatim>\<open>net.JoinHostPort\<close>.\<close>

definition JoinHostPort :: "bytes \<Rightarrow> bytes \<Rightarrow> bytes" where
  "JoinHostPort host port =
     (if CHR '':'' \<in> set host then ''['' @ host @ '']:'' @ port else host @ '':'' @ port)"

lemma last_index_byte_None: "last_index_byte s c = None \<longleftrightarrow> c \<notin> set s"
  by (induction s) (auto split: option.splits)

lemma last_index_byte_append:
  "c \<notin> set t \<Longrightarrow> last_index_byte (s @ c # t) c = Some (length s)"
  by (induction s) (auto simp: last_index_byte_None split: option.splits)

lemma index_byte_append: "c \<notin> set s \<Longrightarrow> index_byte (s @ c # t) c = Some (length s)"
  by (simp add: index_byte_Some nth_append)

text \<open>Splitting undoes joining for every host without brackets and port without a colon.\<close>

lemma SplitHostPort_Join:
  assumes "CHR ''['' \<notin> set host" "CHR '']'' \<notin> set host"
    and "CHR '':'' \<notin> set port" "CHR ''['' \<notin> set port" "CHR '']'' \<notin> set port"
  shows "SplitHostPort (JoinHostPort host port) = Some (host, port)"
proof (cases "CHR '':'' \<in> set host")
  case True
  have l: "last_index_byte (''['' @ host @ '']'' @ '':'' @ port) CHR '':'' = Some (length host + 2)"
    using last_index_byte_append [OF assms(3), of "''['' @ host @ '']''"] by simp
  have i: "index_byte ((CHR ''['' # host) @ CHR '']'' # '':'' @ port) CHR '']'' = Some (length host + 1)"
    using assms(2) by (subst index_byte_append) auto
  show ?thesis using True l i assms
    by (simp add: SplitHostPort_def JoinHostPort_def)
next
  case False
  have l: "last_index_byte (host @ CHR '':'' # port) CHR '':'' = Some (length host)"
    by (rule last_index_byte_append [OF assms(3)])
  have h: "hd (host @ CHR '':'' # port) \<noteq> CHR ''[''"
    using assms(1) by (cases host) auto
  show ?thesis using False l h assms by (simp add: SplitHostPort_def JoinHostPort_def)
qed

end
