(* ===== verification/DaemonConfig.thy ===== *)
theory DaemonConfig
  imports Netip "HOL-Library.List_Lexorder" "HOL-Library.Char_ord" "HOL-Library.Multiset"
begin

text \<open>
  \<^verbatim>\<open>daemon/internal/daemon/config\<close>: the daemon's two configuration files after decoding, their
  validation, the values derived from them, and the classification of decoding errors by the
  lenient loaders. A Go map that the code ranges over is a list of pairs with distinct keys: the
  list is the iteration order, which Go leaves open. The YAML decoder and the file system are
  arguments.
\<close>

subsection \<open>The files\<close>

record BucketLimit =
  bl_SustainedPerMin :: int
  bl_Burst :: int
  bl_Enabled :: "bool option"

record Daemon =
  d_BindAddr :: bytes
  d_TLSCertPath :: bytes
  d_TLSKeyPath :: bytes
  d_ClientCAPath :: bytes
  d_ManifestPath :: bytes
  d_LogRedactionRules :: bytes
  d_CacheTTLOverrides :: "(bytes \<times> int) list"
  d_TimeoutOverrides :: "(bytes \<times> int) list"
  d_DNSProbeTargets :: "(bytes \<times> bytes) list"
  d_SensitiveDirs :: "bytes list"
  d_IPv4AllowlistRanges :: "bytes list"
  d_IPv6AllowlistRanges :: "bytes list"
  d_PublicBindAcknowledged :: bool
  d_ExpensiveToolBuckets :: "(bytes \<times> BucketLimit) list"
  d_MaxConcurrentHandshakes :: int
  d_HelperSocketPath :: bytes
  d_IPFilterAllow :: "bytes list"

record FirewallBanSet =
  bs_Family :: bytes
  bs_Table :: bytes
  bs_Name :: bytes
  bs_Source :: bytes

record Firewall =
  fw_Enabled :: bool
  fw_BanSets :: "FirewallBanSet list"
  fw_DetailModeAllowed :: bool
  fw_MaxSetElementsPerSet :: int
  fw_MaxRuleTextBytes :: int

record Manifest =
  m_EnabledTools :: "bytes list"
  m_WhitelistedUnits :: "bytes list"
  m_WhitelistedUnitPatterns :: "bytes list"
  m_StorageBackends :: "bytes list"
  m_WorkloadPlugins :: "bytes list"
  m_WorkloadPluginConfig :: "(bytes \<times> (bytes \<times> bytes) list) list"
  m_CertPaths :: "bytes list"
  m_CertRenewalUnits :: "bytes list"
  m_BackupLogPath :: bytes
  m_BackupBackend :: bytes
  m_BackupStatePath :: bytes
  m_DebsumsLogPath :: bytes
  m_AideLogPath :: bytes
  m_IPv6Policy :: bytes
  m_BtrfsMountpoints :: "bytes list"
  m_Firewall :: Firewall

definition defaultDaemon :: Daemon where
  "defaultDaemon =
     \<lparr>d_BindAddr = [], d_TLSCertPath = [], d_TLSKeyPath = [], d_ClientCAPath = [],
      d_ManifestPath = ''/etc/host-health-mcp/manifest.yml'', d_LogRedactionRules = [],
      d_CacheTTLOverrides = [], d_TimeoutOverrides = [], d_DNSProbeTargets = [],
      d_SensitiveDirs = [], d_IPv4AllowlistRanges = [], d_IPv6AllowlistRanges = [],
      d_PublicBindAcknowledged = False, d_ExpensiveToolBuckets = [],
      d_MaxConcurrentHandshakes = 16,
      d_HelperSocketPath = ''/run/host-health-mcp/helper.sock'', d_IPFilterAllow = []\<rparr>"

definition zeroManifest :: Manifest where
  "zeroManifest =
     \<lparr>m_EnabledTools = [], m_WhitelistedUnits = [], m_WhitelistedUnitPatterns = [],
      m_StorageBackends = [], m_WorkloadPlugins = [], m_WorkloadPluginConfig = [],
      m_CertPaths = [], m_CertRenewalUnits = [], m_BackupLogPath = [], m_BackupBackend = [],
      m_BackupStatePath = [], m_DebsumsLogPath = [], m_AideLogPath = [], m_IPv6Policy = [],
      m_BtrfsMountpoints = [],
      m_Firewall = \<lparr>fw_Enabled = False, fw_BanSets = [], fw_DetailModeAllowed = False,
        fw_MaxSetElementsPerSet = 0, fw_MaxRuleTextBytes = 0\<rparr>\<rparr>"

subsection \<open>Validation\<close>

datatype config_error =
    NoBindAddr
  | NoTLSPaths
  | NoHandshakeCap int
  | BucketBothZero bytes
  | BucketNoBurst bytes int
  | BucketNoRate bytes int
  | BadIPv4Range nat bytes
  | BadIPv6Range nat bytes
  | BadIPFilter nat bytes
  | UnitEmpty nat
  | UnitGlob nat bytes
  | PatternEmpty nat
  | PatternOnlyGlob nat bytes
  | NotPresent bytes
  | ReadFailed bytes
  | ParseFailed bytes

definition systemdIPFilterKeywords :: "bytes list" where
  "systemdIPFilterKeywords = [''any'', ''localhost'', ''link-local'', ''multicast'']"

definition validIPFilterEntry :: "bytes \<Rightarrow> bool" where
  "validIPFilterEntry e =
     (if e \<in> set systemdIPFilterKeywords then True
      else if ParsePrefix e \<noteq> None then True
      else ParseAddr e \<noteq> None)"

definition bucket_disabled :: "BucketLimit \<Rightarrow> bool" where
  "bucket_disabled b \<longleftrightarrow> bl_Enabled b = Some False"

definition check_bucket :: "bytes \<times> BucketLimit \<Rightarrow> config_error option" where
  "check_bucket tb =
     (let (tool, b) = tb
      in if bucket_disabled b then None
         else if bl_SustainedPerMin b = 0 \<and> bl_Burst b = 0 then Some (BucketBothZero tool)
         else if bl_Burst b \<le> 0 then Some (BucketNoBurst tool (bl_Burst b))
         else if bl_SustainedPerMin b \<le> 0 then Some (BucketNoRate tool (bl_SustainedPerMin b))
         else None)"

text \<open>A loop that returns the first error.\<close>

fun first_error :: "('a \<Rightarrow> config_error option) \<Rightarrow> 'a list \<Rightarrow> config_error option" where
  "first_error f [] = None"
| "first_error f (x # xs) = (case f x of Some e \<Rightarrow> Some e | None \<Rightarrow> first_error f xs)"

fun first_error_at :: "(nat \<Rightarrow> 'a \<Rightarrow> config_error option) \<Rightarrow> nat \<Rightarrow> 'a list \<Rightarrow> config_error option" where
  "first_error_at f i [] = None"
| "first_error_at f i (x # xs) = (case f i x of Some e \<Rightarrow> Some e | None \<Rightarrow> first_error_at f (i + 1) xs)"

text \<open>Run the checks in order; the first error is the result.\<close>

fun checks :: "config_error option list \<Rightarrow> config_error option" where
  "checks [] = None"
| "checks (c # cs) = (case c of Some e \<Rightarrow> Some e | None \<Rightarrow> checks cs)"

definition Validate :: "Daemon \<Rightarrow> config_error option" where
  "Validate d =
     checks
       [if d_BindAddr d = [] then Some NoBindAddr else None,
        if d_TLSCertPath d = [] \<or> d_TLSKeyPath d = [] \<or> d_ClientCAPath d = [] then Some NoTLSPaths else None,
        if d_MaxConcurrentHandshakes d \<le> 0 then Some (NoHandshakeCap (d_MaxConcurrentHandshakes d)) else None,
        first_error check_bucket (d_ExpensiveToolBuckets d),
        first_error_at (\<lambda>i r. if ParsePrefix r = None then Some (BadIPv4Range i r) else None) 0
          (d_IPv4AllowlistRanges d),
        first_error_at (\<lambda>i r. if ParsePrefix r = None then Some (BadIPv6Range i r) else None) 0
          (d_IPv6AllowlistRanges d),
        first_error_at (\<lambda>i e. if \<not> validIPFilterEntry e then Some (BadIPFilter i e) else None) 0
          (d_IPFilterAllow d)]"

definition unitGlobMetachars :: bytes where
  "unitGlobMetachars = ''*?[''"

definition ValidateUnitSelectors :: "Manifest \<Rightarrow> config_error option" where
  "ValidateUnitSelectors m =
     checks
       [first_error_at (\<lambda>i u. if trim_space u = [] then Some (UnitEmpty i)
          else if contains_any u unitGlobMetachars then Some (UnitGlob i u) else None) 0 (m_WhitelistedUnits m),
        first_error_at (\<lambda>i p. if trim_space p = [] then Some (PatternEmpty i)
          else if trim_chars p (unitGlobMetachars @ '']'') = [] then Some (PatternOnlyGlob i p) else None) 0
          (m_WhitelistedUnitPatterns m)]"

text \<open>The names that are not registered, sorted; \<^const>\<open>None\<close> when there are none.\<close>

definition unknown_tools :: "(bytes \<Rightarrow> bool) \<Rightarrow> Daemon \<Rightarrow> bytes list" where
  "unknown_tools registered d =
     map (\<lambda>t. ''expensive_tool_buckets.'' @ t) (filter (\<lambda>t. \<not> registered t) (map fst (d_ExpensiveToolBuckets d))) @
     map (\<lambda>t. ''timeout_overrides.'' @ t) (filter (\<lambda>t. \<not> registered t) (map fst (d_TimeoutOverrides d))) @
     map (\<lambda>t. ''cache_ttl_overrides.'' @ t) (filter (\<lambda>t. \<not> registered t) (map fst (d_CacheTTLOverrides d)))"

definition ValidateToolNames :: "(bytes \<Rightarrow> bool) \<Rightarrow> Daemon \<Rightarrow> bytes option" where
  "ValidateToolNames registered d =
     (let unknown = unknown_tools registered d
      in if unknown = [] then None
         else Some (''config: '' @ join (sort unknown) '', '' @ '' names no registered tool''))"

definition knownWorkloadPluginKeys :: "bytes \<rightharpoonup> bytes list" where
  "knownWorkloadPluginKeys =
     map_of [(''nginx_apache'', [''access_log_path'', ''access_log_window_minutes'', ''access_log_tail_bytes'']),
             (''wireguard'', []), (''postfix'', []), (''dovecot'', [])]"

text \<open>The warnings name a plugin and a key.\<close>

definition CheckWorkloadPluginConfig :: "Manifest \<Rightarrow> (bytes \<times> bytes) list" where
  "CheckWorkloadPluginConfig m =
     concat (map (\<lambda>(plugin, kv).
       case knownWorkloadPluginKeys plugin of
         None \<Rightarrow> []
       | Some allowed \<Rightarrow> map (\<lambda>k. (plugin, k)) (filter (\<lambda>k. k \<notin> set allowed) (map fst kv)))
       (m_WorkloadPluginConfig m))"

subsection \<open>Derived values\<close>

definition CacheTTL :: "Daemon \<Rightarrow> bytes \<Rightarrow> duration \<Rightarrow> duration" where
  "CacheTTL d tool fallback =
     (case map_of (d_CacheTTLOverrides d) tool of
        Some v \<Rightarrow> if 0 < v then int64 (v * Second) else fallback
      | None \<Rightarrow> fallback)"

definition Timeout :: "Daemon \<Rightarrow> bytes \<Rightarrow> duration \<Rightarrow> duration" where
  "Timeout d tool fallback =
     (let t = (case map_of (d_TimeoutOverrides d) tool of
                 Some v \<Rightarrow> if 0 < v then int64 (v * Second) else fallback
               | None \<Rightarrow> fallback)
      in if 10 * Second < t then 10 * Second else t)"

definition BindAddrIsPublic :: "Daemon \<Rightarrow> bool" where
  "BindAddrIsPublic d =
     (let host = (case SplitHostPort (d_BindAddr d) of Some (h, _) \<Rightarrow> h | None \<Rightarrow> d_BindAddr d)
      in if host = [] \<or> host = ''0.0.0.0'' \<or> host = ''::'' then True
         else case ParseAddr host of
                None \<Rightarrow> False
              | Some a \<Rightarrow> if IsLoopback a \<or> IsLinkLocalUnicast a \<or> IsPrivate a then False else True)"

subsection \<open>Loading\<close>

text \<open>
  What a read of the file gives, and what the strict decoder says of its bytes: every key the
  type declares has been stored by the time it returns a list of complaints.
\<close>

datatype file_read = Absent | Unreadable bytes | Content bytes

datatype decode_error = DecodeEOF | TypeErrors "bytes list" | Malformed bytes

definition decodeYAMLStrict ::
  "(bytes \<Rightarrow> file_read) \<Rightarrow> (bytes \<Rightarrow> 'c \<Rightarrow> 'c \<times> decode_error option) \<Rightarrow> bytes \<Rightarrow> 'c \<Rightarrow> config_error + 'c" where
  "decodeYAMLStrict readfile decode path into =
     (case readfile path of
        Absent \<Rightarrow> Inl (NotPresent path)
      | Unreadable e \<Rightarrow> Inl (ReadFailed path)
      | Content b \<Rightarrow> (case decode b into of (c, None) \<Rightarrow> Inr c | (c, Some _) \<Rightarrow> Inl (ParseFailed path)))"

definition LoadDaemon ::
  "(bytes \<Rightarrow> file_read) \<Rightarrow> (bytes \<Rightarrow> Daemon \<Rightarrow> Daemon \<times> decode_error option) \<Rightarrow> bytes \<Rightarrow> config_error + Daemon" where
  "LoadDaemon readfile decode path =
     (case decodeYAMLStrict readfile decode path defaultDaemon of
        Inl e \<Rightarrow> Inl e
      | Inr cfg \<Rightarrow> (case Validate cfg of Some e \<Rightarrow> Inl e | None \<Rightarrow> Inr cfg))"

definition LoadManifest ::
  "(bytes \<Rightarrow> file_read) \<Rightarrow> (bytes \<Rightarrow> Manifest \<Rightarrow> Manifest \<times> decode_error option) \<Rightarrow> bytes \<Rightarrow> config_error + Manifest" where
  "LoadManifest readfile decode path =
     (case decodeYAMLStrict readfile decode path zeroManifest of
        Inl e \<Rightarrow> Inl e
      | Inr cfg \<Rightarrow> (case ValidateUnitSelectors cfg of Some e \<Rightarrow> Inl e | None \<Rightarrow> Inr cfg))"

definition unknownFieldMarker :: bytes where
  "unknownFieldMarker = ''not found in type''"

text \<open>The decoded value, the warnings and the error.\<close>

definition decodeYAMLLenient ::
  "(bytes \<Rightarrow> file_read) \<Rightarrow> (bytes \<Rightarrow> 'c \<Rightarrow> 'c \<times> decode_error option) \<Rightarrow> bytes \<Rightarrow> 'c \<Rightarrow>
   'c \<times> bytes list \<times> config_error option" where
  "decodeYAMLLenient readfile decode path into =
     (case readfile path of
        Absent \<Rightarrow> (into, [], Some (NotPresent path))
      | Unreadable e \<Rightarrow> (into, [], Some (ReadFailed path))
      | Content b \<Rightarrow>
          (case decode b into of
             (c, None) \<Rightarrow> (c, [], None)
           | (c, Some DecodeEOF) \<Rightarrow> (c, [], None)
           | (c, Some (Malformed e)) \<Rightarrow> (c, [], Some (ParseFailed path))
           | (c, Some (TypeErrors es)) \<Rightarrow>
               let warnings = map (\<lambda>e. path @ '': '' @ e @ '' (ignored)'') (filter (\<lambda>e. contains_sub e unknownFieldMarker) es);
                   fatal = filter (\<lambda>e. \<not> contains_sub e unknownFieldMarker) es
               in (c, warnings, if fatal \<noteq> [] then Some (ParseFailed path) else None)))"

definition LoadManifestLenient where
  "LoadManifestLenient readfile decode path = decodeYAMLLenient readfile decode path zeroManifest"

definition LoadDaemonLenient where
  "LoadDaemonLenient readfile decode path = decodeYAMLLenient readfile decode path defaultDaemon"

subsection \<open>Validation accepts exactly the good files\<close>

lemma first_error_None: "first_error f xs = None \<longleftrightarrow> list_all (\<lambda>x. f x = None) xs"
  by (induction xs) (auto split: option.splits)

lemma first_error_at_None:
  assumes "\<And>i x. f i x = None \<longleftrightarrow> P x"
  shows "first_error_at f i xs = None \<longleftrightarrow> list_all P xs"
proof (induction xs arbitrary: i)
  case Nil
  then show ?case by simp
next
  case (Cons x xs)
  then show ?case using assms [of i x] by (cases "f i x") auto
qed

lemma checks_None: "checks cs = None \<longleftrightarrow> list_all (\<lambda>c. c = None) cs"
  by (induction cs) (auto split: option.splits)

definition bucket_limit_ok :: "BucketLimit \<Rightarrow> bool" where
  "bucket_limit_ok b \<longleftrightarrow> bucket_disabled b \<or> (0 < bl_Burst b \<and> 0 < bl_SustainedPerMin b)"

lemma check_bucket_None: "check_bucket (t, b) = None \<longleftrightarrow> bucket_limit_ok b"
  by (auto simp: check_bucket_def bucket_limit_ok_def)

lemma validIPFilterEntry_iff:
  "validIPFilterEntry e \<longleftrightarrow> e \<in> {''any'', ''localhost'', ''link-local'', ''multicast''} \<or> ParsePrefix e \<noteq> None \<or> ParseAddr e \<noteq> None"
  by (auto simp: validIPFilterEntry_def systemdIPFilterKeywords_def)

lemma Validate_None_iff:
  "Validate d = None \<longleftrightarrow>
     d_BindAddr d \<noteq> [] \<and> d_TLSCertPath d \<noteq> [] \<and> d_TLSKeyPath d \<noteq> [] \<and> d_ClientCAPath d \<noteq> [] \<and>
     0 < d_MaxConcurrentHandshakes d \<and>
     list_all (\<lambda>(t, b). bl_Enabled b = Some False \<or> 0 < bl_Burst b \<and> 0 < bl_SustainedPerMin b) (d_ExpensiveToolBuckets d) \<and>
     list_all (\<lambda>r. ParsePrefix r \<noteq> None) (d_IPv4AllowlistRanges d @ d_IPv6AllowlistRanges d) \<and>
     list_all (\<lambda>e. e \<in> {''any'', ''localhost'', ''link-local'', ''multicast''} \<or> ParsePrefix e \<noteq> None \<or> ParseAddr e \<noteq> None)
       (d_IPFilterAllow d)"
proof -
  have b: "list_all (\<lambda>x. check_bucket x = None) xs \<longleftrightarrow>
      list_all (\<lambda>(t, b). bl_Enabled b = Some False \<or> 0 < bl_Burst b \<and> 0 < bl_SustainedPerMin b) xs" for xs
    by (auto simp: list_all_iff check_bucket_None bucket_limit_ok_def bucket_disabled_def)
  have r4: "first_error_at (\<lambda>i r. if ParsePrefix r = None then Some (BadIPv4Range i r) else None) 0 xs = None
      \<longleftrightarrow> list_all (\<lambda>r. ParsePrefix r \<noteq> None) xs" for xs
    by (rule first_error_at_None) simp
  have r6: "first_error_at (\<lambda>i r. if ParsePrefix r = None then Some (BadIPv6Range i r) else None) 0 xs = None
      \<longleftrightarrow> list_all (\<lambda>r. ParsePrefix r \<noteq> None) xs" for xs
    by (rule first_error_at_None) simp
  have fi: "first_error_at (\<lambda>i e. if \<not> validIPFilterEntry e then Some (BadIPFilter i e) else None) 0 xs = None
      \<longleftrightarrow> list_all (\<lambda>e. e \<in> {''any'', ''localhost'', ''link-local'', ''multicast''} \<or> ParsePrefix e \<noteq> None \<or> ParseAddr e \<noteq> None) xs" for xs
    by (rule first_error_at_None) (simp add: validIPFilterEntry_iff)
  show ?thesis
    unfolding Validate_def checks_None
    by (simp only: list.pred_inject r4 r6 fi first_error_None b) auto
qed

definition sample_daemon :: Daemon where
  "sample_daemon = defaultDaemon\<lparr>d_BindAddr := ''127.0.0.1:8443'', d_TLSCertPath := ''c'', d_TLSKeyPath := ''k'',
     d_ClientCAPath := ''a'', d_TimeoutOverrides := [(''logs'', 5), (''disk'', 7)],
     d_ExpensiveToolBuckets := [(''logs'', \<lparr>bl_SustainedPerMin = 6, bl_Burst = 3, bl_Enabled = None\<rparr>)]\<rparr>"

text \<open>
  The report of tool names that are not registered does not depend on the order in which Go
  visits the three maps, and there is none exactly when every name is registered.
\<close>

theorem tool_names_report_deterministic:
  assumes "mset (map fst (d_ExpensiveToolBuckets d)) = mset (map fst (d_ExpensiveToolBuckets d'))"
    and "mset (map fst (d_TimeoutOverrides d)) = mset (map fst (d_TimeoutOverrides d'))"
    and "mset (map fst (d_CacheTTLOverrides d)) = mset (map fst (d_CacheTTLOverrides d'))"
  shows "ValidateToolNames registered d = ValidateToolNames registered d' \<and>
    (ValidateToolNames registered d = None \<longleftrightarrow>
     list_all registered (map fst (d_ExpensiveToolBuckets d) @ map fst (d_TimeoutOverrides d) @ map fst (d_CacheTTLOverrides d)))"
proof -
  have m: "mset (map g (filter P xs)) = mset (map g (filter P ys))" if "mset xs = mset ys"
    for g :: "bytes \<Rightarrow> bytes" and P xs ys
    using that by (simp only: mset_map mset_filter)
  have u: "mset (unknown_tools registered d) = mset (unknown_tools registered d')"
    unfolding unknown_tools_def mset_append
    by (intro arg_cong2 [where f = "(+)"] m assms)
  then have s: "sort (unknown_tools registered d) = sort (unknown_tools registered d')"
    by (intro properties_for_sort) simp_all
  have "unknown_tools registered d = [] \<longleftrightarrow> unknown_tools registered d' = []"
    by (simp only: mset_zero_iff [symmetric] u)
  with s have "ValidateToolNames registered d = ValidateToolNames registered d'"
    by (simp add: ValidateToolNames_def)
  moreover have "unknown_tools registered d = [] \<longleftrightarrow>
     list_all registered (map fst (d_ExpensiveToolBuckets d) @ map fst (d_TimeoutOverrides d) @ map fst (d_CacheTTLOverrides d))"
    by (auto simp: unknown_tools_def list_all_iff filter_empty_conv)
  moreover have "ValidateToolNames registered d = None \<longleftrightarrow> unknown_tools registered d = []"
    by (simp add: ValidateToolNames_def Let_def)
  ultimately show ?thesis by (simp only: simp_thms)
qed

theorem tool_names_report_deterministic_witness:
  "ValidateToolNames (\<lambda>t. t = ''logs'') sample_daemon =
     ValidateToolNames (\<lambda>t. t = ''logs'') (sample_daemon\<lparr>d_TimeoutOverrides := [(''disk'', 7), (''logs'', 5)]\<rparr>) \<and>
    (ValidateToolNames (\<lambda>t. t = ''logs'') sample_daemon = None \<longleftrightarrow>
     list_all (\<lambda>t. t = ''logs'') (map fst (d_ExpensiveToolBuckets sample_daemon) @
       map fst (d_TimeoutOverrides sample_daemon) @ map fst (d_CacheTTLOverrides sample_daemon)))"
  by (rule tool_names_report_deterministic) (simp_all add: sample_daemon_def)

text \<open>
  The timeout of a tool is never above ten seconds, and with a positive fallback and no
  override above 9223372036 seconds it is positive; the same bound keeps the time to live of a
  cache entry positive.
\<close>

theorem timeout_bounds:
  assumes "0 < fallback" and "\<forall>(t, v) \<in> set (d_TimeoutOverrides d @ d_CacheTTLOverrides d). v \<le> 9223372036"
  shows "0 < Timeout d tool fallback \<and> Timeout d tool fallback \<le> 10 * Second \<and> 0 < CacheTTL d tool fallback"
proof -
  have o: "0 < int64 (v * Second)" if "map_of xs tool = Some v" "0 < v" "set xs \<subseteq> set (d_TimeoutOverrides d @ d_CacheTTLOverrides d)"
    for xs v
  proof -
    have "(tool, v) \<in> set (d_TimeoutOverrides d @ d_CacheTTLOverrides d)"
      using map_of_SomeD [OF that(1)] that(3) by blast
    then have "v \<le> 9223372036" using assms(2) by blast
    with that(2) have "int64 (v * Second) = v * Second" by (intro int64_id) simp_all
    with that(2) show ?thesis by simp
  qed
  have "0 < CacheTTL d tool fallback"
    using o [of "d_CacheTTLOverrides d"] assms(1) by (simp add: CacheTTL_def split: option.splits)
  then show ?thesis
    using o [of "d_TimeoutOverrides d"] assms(1)
    by (simp add: Timeout_def Let_def split: option.splits)
qed

theorem timeout_bounds_witness:
  "0 < Timeout sample_daemon ''disk'' (2 * Second) \<and> Timeout sample_daemon ''disk'' (2 * Second) \<le> 10 * Second \<and>
   0 < CacheTTL sample_daemon ''disk'' (2 * Second)"
  by (rule timeout_bounds) (simp_all add: sample_daemon_def defaultDaemon_def)

text \<open>
  An override of 9223372037 seconds passes validation and makes the tool's timeout negative,
  as the multiplication by a second wraps around: the ten-second cap does not catch it.
\<close>

theorem timeout_override_wraps:
  "Validate (sample_daemon\<lparr>d_TimeoutOverrides := [(''logs'', 9223372037)]\<rparr>) = None \<and>
   Timeout (sample_daemon\<lparr>d_TimeoutOverrides := [(''logs'', 9223372037)]\<rparr>) ''logs'' (2 * Second) < 0"
  by code_simp

text \<open>
  The lenient loader agrees with the strict one where that accepts: same value, no warning, no
  error. Where the decoder complains field by field it warns once for each undeclared key and
  fails exactly when some complaint is about something else, so a value of the wrong type is
  never taken for a misspelt key.
\<close>

theorem lenient_decode_extends_strict:
  "(case decodeYAMLStrict readfile decode path into of
      Inr c \<Rightarrow> decodeYAMLLenient readfile decode path into = (c, [], None)
    | Inl e \<Rightarrow>
        (case readfile path of
           Content b \<Rightarrow>
             (case decode b into of
                (c, Some (TypeErrors es)) \<Rightarrow>
                  (let (c', ws, err) = decodeYAMLLenient readfile decode path into
                   in c' = c \<and> length ws = length (filter (\<lambda>m. contains_sub m ''not found in type'') es) \<and>
                      (err = None \<longleftrightarrow> list_all (\<lambda>m. contains_sub m ''not found in type'') es))
              | (c, Some DecodeEOF) \<Rightarrow> decodeYAMLLenient readfile decode path into = (c, [], None)
              | _ \<Rightarrow> snd (snd (decodeYAMLLenient readfile decode path into)) \<noteq> None)
         | _ \<Rightarrow> snd (snd (decodeYAMLLenient readfile decode path into)) \<noteq> None))"
  by (auto simp: decodeYAMLStrict_def decodeYAMLLenient_def Let_def unknownFieldMarker_def
      filter_empty_conv list_all_iff
      split: file_read.splits option.splits decode_error.splits prod.splits)

text \<open>
  A daemon configuration that loads has been validated and a manifest that loads has only
  non-blank unit names without glob characters and patterns that name something.
\<close>

theorem loaded_configs_validated:
  "(case LoadDaemon readfile decode path of Inr cfg \<Rightarrow> Validate cfg = None | Inl _ \<Rightarrow> True) \<and>
   (case LoadManifest readfile decodem path of
      Inr m \<Rightarrow>
        list_all (\<lambda>u. trim_space u \<noteq> [] \<and> CHR ''*'' \<notin> set u \<and> CHR ''?'' \<notin> set u \<and> CHR ''['' \<notin> set u) (m_WhitelistedUnits m) \<and>
        list_all (\<lambda>p. trim_space p \<noteq> [] \<and> \<not> set p \<subseteq> set ''*?[]'') (m_WhitelistedUnitPatterns m)
    | Inl _ \<Rightarrow> True)"
proof -
  have u: "first_error_at (\<lambda>i u. if trim_space u = [] then Some (UnitEmpty i)
          else if contains_any u unitGlobMetachars then Some (UnitGlob i u) else None) 0 us = None \<longleftrightarrow>
      list_all (\<lambda>u. trim_space u \<noteq> [] \<and> CHR ''*'' \<notin> set u \<and> CHR ''?'' \<notin> set u \<and> CHR ''['' \<notin> set u) us" for us
    by (rule first_error_at_None) (auto simp: contains_any_def list_ex_iff unitGlobMetachars_def)
  have p: "first_error_at (\<lambda>i p. if trim_space p = [] then Some (PatternEmpty i)
          else if trim_chars p (unitGlobMetachars @ '']'') = [] then Some (PatternOnlyGlob i p) else None) 0 ps = None \<longleftrightarrow>
      list_all (\<lambda>p. trim_space p \<noteq> [] \<and> \<not> set p \<subseteq> set ''*?[]'') ps" for ps
    by (rule first_error_at_None) (simp add: trim_chars_Nil unitGlobMetachars_def)
  have v: "ValidateUnitSelectors m = None \<longleftrightarrow>
     list_all (\<lambda>u. trim_space u \<noteq> [] \<and> CHR ''*'' \<notin> set u \<and> CHR ''?'' \<notin> set u \<and> CHR ''['' \<notin> set u) (m_WhitelistedUnits m) \<and>
     list_all (\<lambda>p. trim_space p \<noteq> [] \<and> \<not> set p \<subseteq> set ''*?[]'') (m_WhitelistedUnitPatterns m)" for m
    unfolding ValidateUnitSelectors_def checks_None by (simp only: list.pred_inject u p simp_thms)
  have "case LoadDaemon readfile decode path of Inr cfg \<Rightarrow> Validate cfg = None | Inl _ \<Rightarrow> True"
    by (simp add: LoadDaemon_def split: sum.split option.split)
  moreover have "case LoadManifest readfile decodem path of Inr m \<Rightarrow> ValidateUnitSelectors m = None | Inl _ \<Rightarrow> True"
    by (simp add: LoadManifest_def split: sum.split option.split)
  ultimately show ?thesis by (simp only: v)
qed

end
