(* ===== verification/HttpServer.thy ===== *)
theory HttpServer
  imports Cache RateLimit Schema Registry DaemonConfig
begin

text \<open>
  \<^verbatim>\<open>daemon/internal/daemon/httpserver\<close> and \<^verbatim>\<open>daemon/internal/daemon/audit\<close>: one request from the
  verified TLS connection to the response and its audit entry. The state is the cache, the rate
  limiter and the audit log. What happens outside the server is an argument: SHA-256, the JSON
  functions, how the tool ended and when, and how singleflight and the waiting caller fared (see
  \<^const>\<open>Do\<close>). The listener and TLS (\<^verbatim>\<open>Start\<close>) are in \<^verbatim>\<open>DaemonLife\<close>.
\<close>

subsection \<open>Certificates and identities\<close>

record Cert =
  cert_IsCA :: bool
  cert_ExtKeyUsage :: "nat list"
  cert_CommonName :: bytes
  cert_DNSNames :: "bytes list"

definition ExtKeyUsageClientAuth :: nat where "ExtKeyUsageClientAuth = 2"

datatype tls_error = NoVerifiedChain | LeafIsCA | NoClientAuthEKU | NoIdentity

text \<open>\<^verbatim>\<open>verifyClientCert\<close> on the verified chains, leaf first.\<close>

definition verifyClientCert :: "Cert list list \<Rightarrow> tls_error option" where
  "verifyClientCert verified =
     (case verified of
        (leaf # _) # _ \<Rightarrow>
          if cert_IsCA leaf then Some LeafIsCA
          else if ExtKeyUsageClientAuth \<notin> set (cert_ExtKeyUsage leaf) then Some NoClientAuthEKU
          else if trim_space (cert_CommonName leaf) = [] \<and> cert_DNSNames leaf = [] then Some NoIdentity
          else None
      | _ \<Rightarrow> Some NoVerifiedChain)"

definition callerIdentity :: "Cert list \<Rightarrow> bytes" where
  "callerIdentity peers =
     (case peers of
        [] \<Rightarrow> []
      | cert # _ \<Rightarrow>
          (let cn = trim_space (cert_CommonName cert)
           in if cn \<noteq> [] then cn
              else case cert_DNSNames cert of [] \<Rightarrow> [] | d # _ \<Rightarrow> d))"

subsection \<open>Requests, responses, audit entries\<close>

definition MaxRequestBody :: nat where "MaxRequestBody = 4 * 1024"
definition maxAuditToolName :: nat where "maxAuditToolName = 128"

definition truncateToolName :: "bytes \<Rightarrow> bytes" where
  "truncateToolName name =
     (if length name \<le> maxAuditToolName then name else take maxAuditToolName name @ ellipsis)"

text \<open>\<open>rq_body\<close> is \<^const>\<open>None\<close> when reading the body fails.\<close>

record http_request =
  rq_peers :: "Cert list"
  rq_path :: bytes
  rq_method :: bytes
  rq_body :: "bytes option"

record audit_Entry =
  au_CallerIdentity :: bytes
  au_Tool :: bytes
  au_Args :: "(bytes \<times> bytes) list"
  au_ResponseSize :: nat
  au_Duration :: duration
  au_Result :: bytes
  au_RejectReason :: bytes

datatype http_response = HttpOk Envelope | HttpError int ErrorEnvelope

text \<open>\<^verbatim>\<open>tools.Error\<close>, and the other ways a tool can fail.\<close>

record tools_Error =
  te_Code :: bytes
  te_Message :: bytes

datatype tool_error = TypedToolError tools_Error | ToolDeadline | OtherToolError bytes

datatype tool_outcome = ToolOk bytes "bytes list" | ToolUnmarshalable bytes | ToolFailed tool_error | ToolPanicked bytes

record 'j deps =
  dp_sha256 :: "bytes \<Rightarrow> bytes"
  dp_unmarshal :: "bytes \<Rightarrow> 'j option"
  dp_marshal :: "'j \<Rightarrow> bytes option"
  dp_valid :: "bytes \<Rightarrow> bool"

text \<open>
  How one request fares outside the server's own code: the clock when it arrives, when the tool
  starts and when the answer is written; whether this caller starts the tool or joins a running
  call; how its wait ends; how the tool ends; and, for a joined call, what that call delivers.
\<close>

record fate =
  ft_start :: time
  ft_observed :: time
  ft_written :: time
  ft_leads :: bool
  ft_wait :: wait_end
  ft_outcome :: tool_outcome
  ft_joined :: "Cache \<Rightarrow> Cache \<times> (tool_error, Entry) fn_result"

record http_config =
  hc_daemon :: Daemon
  hc_host :: bytes
  hc_registry :: tool_registry
  hc_enabled :: "bytes set"

record http_state =
  hs_cache :: Cache
  hs_limiter :: Limiter
  hs_audit :: "audit_Entry list"

subsection \<open>Answers\<close>

definition envelope :: "http_config \<Rightarrow> fate \<Rightarrow> bytes \<Rightarrow> int \<Rightarrow> bytes list \<Rightarrow> http_response" where
  "envelope c ft data age ws =
     HttpOk \<lparr>env_host = hc_host c, env_as_of = ft_written ft, env_cache_age_s = age,
       env_schema_version = SchemaVersion, env_data = data, env_warnings = ws\<rparr>"

definition audit_log :: "http_state \<Rightarrow> audit_Entry \<Rightarrow> http_state" where
  "audit_log s e = s\<lparr>hs_audit := hs_audit s @ [e]\<rparr>"

definition writeError ::
  "http_config \<Rightarrow> fate \<Rightarrow> http_state \<Rightarrow> http_request \<Rightarrow> bytes \<Rightarrow> int \<Rightarrow> bytes \<Rightarrow> bytes \<Rightarrow> bytes \<Rightarrow> http_state \<times> http_response" where
  "writeError c ft s r toolName status code msg rejectReason =
     (audit_log s \<lparr>au_CallerIdentity = callerIdentity (rq_peers r), au_Tool = toolName, au_Args = [],
        au_ResponseSize = 0, au_Duration = ft_written ft - ft_start ft, au_Result = code,
        au_RejectReason = rejectReason\<rparr>,
      HttpError status \<lparr>eenv_host = hc_host c, eenv_as_of = ft_written ft,
        eenv_schema_version = SchemaVersion, eenv_error = \<lparr>err_code = code, err_message = msg\<rparr>\<rparr>)"

definition writeOk ::
  "http_config \<Rightarrow> fate \<Rightarrow> http_state \<Rightarrow> bytes \<Rightarrow> bytes \<Rightarrow> (bytes \<times> bytes) list \<Rightarrow> Entry \<Rightarrow> int \<Rightarrow> http_state \<times> http_response" where
  "writeOk c ft s caller toolName args e age =
     (audit_log s \<lparr>au_CallerIdentity = caller, au_Tool = toolName, au_Args = args,
        au_ResponseSize = length (e_data e), au_Duration = ft_written ft - ft_start ft, au_Result = ''ok'',
        au_RejectReason = []\<rparr>,
      envelope c ft (e_data e) age (e_warnings e))"

text \<open>The error \<^const>\<open>Do\<close> returns, matched the way \<^verbatim>\<open>errors.As\<close> and \<^verbatim>\<open>errors.Is\<close> do.\<close>

definition handleToolError ::
  "http_config \<Rightarrow> fate \<Rightarrow> http_state \<Rightarrow> http_request \<Rightarrow> bytes \<Rightarrow> tool_error do_error \<Rightarrow> http_state \<times> http_response" where
  "handleToolError c ft s r toolName err =
     (case err of
        ToolError (TypedToolError te) \<Rightarrow>
          (let status = (if te_Code te = ErrCodeBadArgument then 400 else 502)
           in writeError c ft s r toolName status (te_Code te) (te_Message te) (te_Code te))
      | ToolError ToolDeadline \<Rightarrow> writeError c ft s r toolName 504 ErrCodeToolTimeout MsgToolTimeout ''deadline''
      | DeadlineExceeded \<Rightarrow> writeError c ft s r toolName 504 ErrCodeToolTimeout MsgToolTimeout ''deadline''
      | Stalled \<Rightarrow> writeError c ft s r toolName 503 ErrCodeToolFailed MsgToolStalled ''stalled''
      | _ \<Rightarrow> writeError c ft s r toolName 502 ErrCodeToolFailed MsgToolFailed ''tool_error'')"

definition extractAuditArgs :: "Tool \<Rightarrow> bytes \<Rightarrow> (bytes \<times> bytes) list" where
  "extractAuditArgs t body = (case tool_AuditArgs t of None \<Rightarrow> [] | Some f \<Rightarrow> f body)"

subsection \<open>The handler\<close>

text \<open>The function given to \<^const>\<open>Do\<close>: run the tool, and keep its result.\<close>

definition work :: "fate \<Rightarrow> bytes \<Rightarrow> duration \<Rightarrow> Cache \<Rightarrow> Cache \<times> (tool_error, Entry) fn_result" where
  "work ft key ttl c =
     (case ft_outcome ft of
        ToolFailed e \<Rightarrow> (c, FnErr e)
      | ToolPanicked m \<Rightarrow> (c, FnPanic m)
      | ToolUnmarshalable m \<Rightarrow> (c, FnErr (OtherToolError m))
      | ToolOk raw ws \<Rightarrow>
          (let e = \<lparr>e_data = raw, e_warnings = ws, e_builtat = ft_observed ft, e_ttl = ttl\<rparr>
           in (Store c key e (ft_written ft), FnOk e)))"

text \<open>\<^verbatim>\<open>int(entry.Age().Seconds())\<close>: towards zero.\<close>

definition age_seconds :: "duration \<Rightarrow> int" where
  "age_seconds d = (if 0 \<le> d then d div Second else - ((- d) div Second))"

definition handleToolBody ::
  "'j deps \<Rightarrow> http_config \<Rightarrow> fate \<Rightarrow> http_state \<Rightarrow> http_request \<Rightarrow> Tool \<Rightarrow> bytes \<Rightarrow> bytes \<Rightarrow> http_state \<times> http_response" where
  "handleToolBody dp c ft s r tool toolName caller =
     (case rq_body r of
        None \<Rightarrow> writeError c ft s r toolName 400 ErrCodeBadArgument MsgBadArgument ''read_body''
      | Some full \<Rightarrow>
          let body0 = take (MaxRequestBody + 1) full
          in if MaxRequestBody < length body0 then
               writeError c ft s r toolName 413 ErrCodeBadArgument ''request body exceeds cap'' ''body_too_large''
             else
               (let body = (if body0 = [] then ''{}'' else body0)
                in if \<not> dp_valid dp body then
                     writeError c ft s r toolName 400 ErrCodeBadArgument ''request body is not valid JSON'' ''invalid_json''
                   else
                     (let ttl = CacheTTL (hc_daemon c) toolName (tool_DefaultTTL tool);
                          key = Key (dp_sha256 dp) (dp_unmarshal dp) (dp_marshal dp) toolName body;
                          args = extractAuditArgs tool body
                      in case Lookup (hs_cache s) key (ft_start ft) of
                           Some e \<Rightarrow> writeOk c ft s caller toolName args e (age_seconds (Age e (ft_written ft)))
                         | None \<Rightarrow>
                             (let (cache', res) = Do (hs_cache s) key (ft_leads ft) (ft_wait ft)
                                    (if ft_leads ft then work ft key ttl else ft_joined ft);
                                  s' = s\<lparr>hs_cache := cache'\<rparr>
                              in case res of
                                   Inl err \<Rightarrow> handleToolError c ft s' r toolName err
                                 | Inr e \<Rightarrow> writeOk c ft s' caller toolName args e 0))))"

definition handleRequest ::
  "'j deps \<Rightarrow> http_config \<Rightarrow> fate \<Rightarrow> http_state \<Rightarrow> http_request \<Rightarrow> http_state \<times> http_response" where
  "handleRequest dp c ft s r =
     (let caller = callerIdentity (rq_peers r)
      in if caller = [] then writeError c ft s r [] 401 ErrCodeAuthRequired MsgAuthRequired ''no_client_cert''
         else
           (let (rest, hasPrefix) = cut_prefix (rq_path r) ''/v1/'';
                toolName = truncateToolName rest;
                (lim, allowed, reason) = Allow (hs_limiter s) caller toolName (ft_start ft);
                s1 = s\<lparr>hs_limiter := lim\<rparr>
            in if \<not> allowed then writeError c ft s1 r toolName 429 ErrCodeRateLimited MsgRateLimited (''rate_'' @ reason)
               else if \<not> hasPrefix \<or> toolName = [] \<or> contains_sub toolName ''/'' then
                 writeError c ft s1 r toolName 404 ErrCodeUnknownTool MsgUnknownTool ''bad_path''
               else if rq_method r \<noteq> ''POST'' then
                 writeError c ft s1 r toolName 405 ErrCodeBadArgument ''POST required'' ''method''
               else case LookupTool (hc_registry c) toolName of
                      None \<Rightarrow> writeError c ft s1 r toolName 404 ErrCodeUnknownTool MsgUnknownTool ''unknown_tool''
                    | Some tool \<Rightarrow>
                        if hc_enabled c \<noteq> {} \<and> toolName \<notin> hc_enabled c then
                          writeError c ft s1 r toolName 404 ErrCodeUnknownTool MsgUnknownTool ''tool_disabled''
                        else handleToolBody dp c ft s1 r tool toolName caller))"

subsection \<open>Every request is audited once\<close>

text \<open>The status of a response and the result an audit entry records for it.\<close>

fun status_of :: "http_response \<Rightarrow> int" where
  "status_of (HttpOk e) = 200"
| "status_of (HttpError st e) = st"

fun result_of :: "http_response \<Rightarrow> bytes" where
  "result_of (HttpOk e) = ''ok''"
| "result_of (HttpError st e) = err_code (eenv_error e)"

text \<open>
  The answers agree with their audit entry: one entry is appended, for the caller and the tool
  name, with the result that was sent.
\<close>

definition answers :: "bytes \<Rightarrow> http_state \<Rightarrow> http_state \<times> http_response \<Rightarrow> bool" where
  "answers caller s res \<longleftrightarrow>
     (\<exists>e. hs_audit (fst res) = hs_audit s @ [e] \<and> au_CallerIdentity e = caller \<and> au_Result e = result_of (snd res) \<and>
        length (au_Tool e) \<le> 131)"

lemma writeError_answers:
  "length t \<le> 131 \<Longrightarrow> hs_audit s' = hs_audit s \<Longrightarrow> caller = callerIdentity (rq_peers r) \<Longrightarrow>
     answers caller s (writeError c ft s' r t st code msg reason)"
  by (simp add: answers_def writeError_def audit_log_def)

lemma writeOk_answers:
  "length t \<le> 131 \<Longrightarrow> hs_audit s' = hs_audit s \<Longrightarrow> answers caller s (writeOk c ft s' caller t args e age)"
  by (simp add: answers_def writeOk_def audit_log_def envelope_def)

lemma handleToolError_answers:
  assumes "length t \<le> 131" and "hs_audit s' = hs_audit s" and "caller = callerIdentity (rq_peers r)"
  shows "answers caller s (handleToolError c ft s' r t err)"
  unfolding handleToolError_def Let_def
  by (split do_error.split, intro conjI allI impI; (split tool_error.split, intro conjI allI impI)?)
    (rule writeError_answers [OF assms])+

lemma handleToolBody_answers:
  assumes "length t \<le> 131" and "hs_audit s' = hs_audit s" and "caller = callerIdentity (rq_peers r)"
  shows "answers caller s (handleToolBody dp c ft s' r tool t caller)"
proof -
  have e: "answers caller s (writeError c ft s' r t st code msg reason)" for st code msg reason
    by (rule writeError_answers [OF assms])
  have o: "answers caller s (writeOk c ft s' caller t args x age)" for args x age
    by (rule writeOk_answers [OF assms(1,2)])
  have o2: "answers caller s (writeOk c ft (s'\<lparr>hs_cache := ch\<rparr>) caller t args x age)" for args x age ch
    using assms by (intro writeOk_answers) simp_all
  have te: "answers caller s (handleToolError c ft (s'\<lparr>hs_cache := ch\<rparr>) r t err)" for ch err
    using assms by (intro handleToolError_answers) simp_all
  show ?thesis
    unfolding handleToolBody_def Let_def
    by (simp add: e o o2 te split_beta split: option.split sum.split)
qed

lemma truncateToolName_length: "length (truncateToolName n) \<le> 131"
  by (simp add: truncateToolName_def maxAuditToolName_def ellipsis_def)

text \<open>
  How a request leaves the routing code: refused before the limiter, refused after it, or handed
  to a registered and enabled tool.
\<close>

definition path_tool :: "http_request \<Rightarrow> bytes" where
  "path_tool r = truncateToolName (fst (cut_prefix (rq_path r) ''/v1/''))"

abbreviation metered :: "http_state \<Rightarrow> http_request \<Rightarrow> fate \<Rightarrow> http_state" where
  "metered s r ft \<equiv> s\<lparr>hs_limiter := fst (Allow (hs_limiter s) (callerIdentity (rq_peers r)) (path_tool r) (ft_start ft))\<rparr>"

lemma handleRequest_cases:
  obtains (unauthenticated) "callerIdentity (rq_peers r) = []"
      "handleRequest dp c ft s r = writeError c ft s r [] 401 ErrCodeAuthRequired MsgAuthRequired ''no_client_cert''"
  | (refused) st code msg reason where "callerIdentity (rq_peers r) \<noteq> []"
      "(st, code) \<in> {(429, ErrCodeRateLimited), (404, ErrCodeUnknownTool), (405, ErrCodeBadArgument)}"
      "handleRequest dp c ft s r = writeError c ft (metered s r ft) r (path_tool r) st code msg reason"
  | (routed) tool where "callerIdentity (rq_peers r) \<noteq> []"
      "fst (snd (Allow (hs_limiter s) (callerIdentity (rq_peers r)) (path_tool r) (ft_start ft)))"
      "has_prefix (rq_path r) ''/v1/''" "rq_method r = ''POST''"
      "LookupTool (hc_registry c) (path_tool r) = Some tool" "hc_enabled c = {} \<or> path_tool r \<in> hc_enabled c"
      "handleRequest dp c ft s r =
         handleToolBody dp c ft (metered s r ft) r tool (path_tool r) (callerIdentity (rq_peers r))"
proof (cases "callerIdentity (rq_peers r) = []")
  case True
  then show ?thesis using unauthenticated by (simp add: handleRequest_def)
next
  case False
  obtain lim allowed reason where a: "Allow (hs_limiter s) (callerIdentity (rq_peers r)) (path_tool r) (ft_start ft) = (lim, allowed, reason)"
    by (metis prod_cases3)
  obtain rest hp where cp: "cut_prefix (rq_path r) ''/v1/'' = (rest, hp)" by fastforce
  then have pt: "path_tool r = truncateToolName rest" and hp: "hp \<longleftrightarrow> has_prefix (rq_path r) ''/v1/''"
    by (auto simp: path_tool_def cut_prefix_def split: if_splits)
  note eq = handleRequest_def [of dp c ft s r, unfolded cp Let_def prod.case, folded pt, unfolded a prod.case]
  have m: "metered s r ft = s\<lparr>hs_limiter := lim\<rparr>" by (simp add: a)
  let ?badpath = "\<not> hp \<or> path_tool r = [] \<or> contains_sub (path_tool r) ''/''"
  consider (lim) "\<not> allowed" | (path) "allowed" ?badpath
    | (meth) "allowed" "\<not> ?badpath" "rq_method r \<noteq> ''POST''"
    | (unknown) "allowed" "\<not> ?badpath" "rq_method r = ''POST''" "LookupTool (hc_registry c) (path_tool r) = None"
    | (disabled) tool where "allowed" "\<not> ?badpath" "rq_method r = ''POST''" "LookupTool (hc_registry c) (path_tool r) = Some tool"
        "hc_enabled c \<noteq> {} \<and> path_tool r \<notin> hc_enabled c"
    | (ok) tool where "allowed" "\<not> ?badpath" "rq_method r = ''POST''" "LookupTool (hc_registry c) (path_tool r) = Some tool"
        "\<not> (hc_enabled c \<noteq> {} \<and> path_tool r \<notin> hc_enabled c)"
    by blast
  then show ?thesis
  proof cases
    case lim
    show ?thesis using False lim eq m
      by (intro refused [OF False, of 429 ErrCodeRateLimited MsgRateLimited "''rate_'' @ reason"]) simp_all
  next
    case path
    then show ?thesis using False eq m
      by (intro refused [OF False, of 404 ErrCodeUnknownTool MsgUnknownTool "''bad_path''"]) simp_all
  next
    case meth
    then show ?thesis using False eq m
      by (intro refused [OF False, of 405 ErrCodeBadArgument "''POST required''" "''method''"]) simp_all
  next
    case unknown
    then show ?thesis using False eq m
      by (intro refused [OF False, of 404 ErrCodeUnknownTool MsgUnknownTool "''unknown_tool''"]) simp_all
  next
    case (disabled tool)
    then show ?thesis using False eq m
      by (intro refused [OF False, of 404 ErrCodeUnknownTool MsgUnknownTool "''tool_disabled''"]) simp_all
  next
    case (ok tool)
    then show ?thesis using False eq m a hp by (intro routed [OF False _ _ _ ok(4)]) auto
  qed
qed

text \<open>
  Every request, accepted or refused, appends exactly one audit entry: with the identity of
  the caller's certificate, a tool name of at most 131 bytes whatever path was sent, and the
  result code that the response carries.
\<close>

lemma one_audit_entry_per_request:
  "\<exists>e. hs_audit (fst (handleRequest dp c ft s r)) = hs_audit s @ [e] \<and>
     au_CallerIdentity e = callerIdentity (rq_peers r) \<and> length (au_Tool e) \<le> 131 \<and>
     au_Result e = result_of (snd (handleRequest dp c ft s r))"
proof -
  have "answers (callerIdentity (rq_peers r)) s (handleRequest dp c ft s r)"
  proof (cases rule: handleRequest_cases [of r dp c ft s])
    case unauthenticated
    then show ?thesis by (simp only: unauthenticated(2)) (rule writeError_answers, simp_all)
  next
    case (refused st code msg reason)
    then show ?thesis by (simp add: writeError_answers truncateToolName_length path_tool_def)
  next
    case (routed tool)
    then show ?thesis by (simp add: handleToolBody_answers truncateToolName_length path_tool_def)
  qed
  then show ?thesis by (auto simp: answers_def)
qed

subsection \<open>What reaches a tool\<close>

definition request_body :: "bytes \<Rightarrow> bytes" where
  "request_body full = (if full = [] then ''{}'' else full)"

definition request_key :: "'j deps \<Rightarrow> bytes \<Rightarrow> bytes \<Rightarrow> bytes" where
  "request_key dp tool full = Key (dp_sha256 dp) (dp_unmarshal dp) (dp_marshal dp) tool (request_body full)"

lemma handleToolBody_cases:
  obtains (rejected) st msg reason where "st \<in> {400, 413}"
      "\<nexists>full. rq_body r = Some full \<and> length full \<le> 4096 \<and> dp_valid dp (request_body full)"
      "handleToolBody dp c ft s r tool t caller = writeError c ft s r t st ErrCodeBadArgument msg reason"
  | (cached) full e where "rq_body r = Some full" "length full \<le> 4096" "dp_valid dp (request_body full)"
      "Lookup (hs_cache s) (request_key dp t full) (ft_start ft) = Some e"
      "handleToolBody dp c ft s r tool t caller =
        writeOk c ft s caller t (extractAuditArgs tool (request_body full)) e (age_seconds (Age e (ft_written ft)))"
  | (done_) full cache' res where "rq_body r = Some full" "length full \<le> 4096" "dp_valid dp (request_body full)"
      "Lookup (hs_cache s) (request_key dp t full) (ft_start ft) = None"
      "Do (hs_cache s) (request_key dp t full) (ft_leads ft) (ft_wait ft)
         (if ft_leads ft then work ft (request_key dp t full) (CacheTTL (hc_daemon c) t (tool_DefaultTTL tool)) else ft_joined ft) = (cache', res)"
      "handleToolBody dp c ft s r tool t caller =
        (case res of
           Inl err \<Rightarrow> handleToolError c ft (s\<lparr>hs_cache := cache'\<rparr>) r t err
         | Inr e \<Rightarrow> writeOk c ft (s\<lparr>hs_cache := cache'\<rparr>) caller t (extractAuditArgs tool (request_body full)) e 0)"
proof (cases "rq_body r")
  case None
  then show ?thesis by (intro rejected [of 400]) (simp_all add: handleToolBody_def)
next
  case (Some full)
  show ?thesis
  proof (cases "length full \<le> 4096")
    case False
    then have "4096 < length (take 4097 full)" by simp
    with Some show ?thesis by (intro rejected [of 413]) (simp_all add: handleToolBody_def MaxRequestBody_def)
  next
    case True
    then have take: "take 4097 full = full" by simp
    show ?thesis
    proof (cases "dp_valid dp (request_body full)")
      case False
      with Some True take show ?thesis
        by (intro rejected [of 400]) (simp_all add: handleToolBody_def MaxRequestBody_def request_body_def Let_def)
    next
      case valid: True
      show ?thesis
      proof (cases "Lookup (hs_cache s) (request_key dp t full) (ft_start ft)")
        case found: (Some e)
        then show ?thesis using Some True valid
          by (intro cached [of full e]) (simp_all add: handleToolBody_def take MaxRequestBody_def request_body_def request_key_def Let_def)
      next
        case missing: None
        obtain cache' res where d: "Do (hs_cache s) (request_key dp t full) (ft_leads ft) (ft_wait ft)
            (if ft_leads ft then work ft (request_key dp t full) (CacheTTL (hc_daemon c) t (tool_DefaultTTL tool)) else ft_joined ft) = (cache', res)"
          by fastforce
        have "handleToolBody dp c ft s r tool t caller =
            (case res of
               Inl err \<Rightarrow> handleToolError c ft (s\<lparr>hs_cache := cache'\<rparr>) r t err
             | Inr e \<Rightarrow> writeOk c ft (s\<lparr>hs_cache := cache'\<rparr>) caller t (extractAuditArgs tool (request_body full)) e 0)"
          using Some True valid missing d
          by (simp add: handleToolBody_def take MaxRequestBody_def request_body_def [symmetric]
              request_key_def [symmetric] Let_def del: if_split)
        then show ?thesis using done_ Some True valid missing d by blast
      qed
    qed
  qed
qed

lemma writeError_simps [simp]:
  "hs_cache (fst (writeError c ft s r t st code msg reason)) = hs_cache s"
  "hs_limiter (fst (writeError c ft s r t st code msg reason)) = hs_limiter s"
  "status_of (snd (writeError c ft s r t st code msg reason)) = st"
  "result_of (snd (writeError c ft s r t st code msg reason)) = code"
  by (simp_all add: writeError_def audit_log_def)

lemma writeOk_simps [simp]:
  "hs_cache (fst (writeOk c ft s caller t args e age)) = hs_cache s"
  "status_of (snd (writeOk c ft s caller t args e age)) = 200"
  "snd (writeOk c ft s caller t args e age) = envelope c ft (e_data e) age (e_warnings e)"
  by (simp_all add: writeOk_def audit_log_def envelope_def)

text \<open>
  C6: A request that changes the cache, starts a tool or is answered with success came over a
  connection with a client identity, was granted by the rate limiter, is a POST to
  \<^verbatim>\<open>/v1/<tool>\<close> for a registered tool that the manifest enables, and has a valid JSON body of at most
  4096 bytes. A request without an identity changes neither the cache nor the limiter and gets 401.
\<close>

theorem tool_reached_only_when_admitted:
  assumes "res = handleRequest dp c ft s r"
  shows "(hs_cache (fst res) \<noteq> hs_cache s \<or> status_of (snd res) = 200 \<longrightarrow>
      callerIdentity (rq_peers r) \<noteq> [] \<and>
      fst (snd (Allow (hs_limiter s) (callerIdentity (rq_peers r)) (path_tool r) (ft_start ft))) \<and>
      rq_method r = ''POST'' \<and> has_prefix (rq_path r) ''/v1/'' \<and>
      LookupTool (hc_registry c) (path_tool r) \<noteq> None \<and> (hc_enabled c = {} \<or> path_tool r \<in> hc_enabled c) \<and>
      (\<exists>full. rq_body r = Some full \<and> length full \<le> 4096 \<and> dp_valid dp (request_body full))) \<and>
    (callerIdentity (rq_peers r) = [] \<longrightarrow>
      hs_cache (fst res) = hs_cache s \<and> hs_limiter (fst res) = hs_limiter s \<and> status_of (snd res) = 401)"
proof (cases rule: handleRequest_cases [of r dp c ft s])
  case unauthenticated
  then show ?thesis using assms by simp
next
  case (refused st code msg reason)
  then show ?thesis using assms by auto
next
  case (routed tool)
  let ?s = "metered s r ft"
  have res: "res = handleToolBody dp c ft ?s r tool (path_tool r) (callerIdentity (rq_peers r))"
    using assms routed(7) by (rule trans)
  have "hs_cache (fst res) = hs_cache s \<and> status_of (snd res) \<noteq> 200 \<or>
    (\<exists>full. rq_body r = Some full \<and> length full \<le> 4096 \<and> dp_valid dp (request_body full))"
    unfolding res
    by (cases rule: handleToolBody_cases [of r dp c ft ?s tool "path_tool r" "callerIdentity (rq_peers r)"]) auto
  then show ?thesis using routed by auto
qed

definition sample_cert :: Cert where
  "sample_cert = \<lparr>cert_IsCA = False, cert_ExtKeyUsage = [2], cert_CommonName = ''ops'', cert_DNSNames = []\<rparr>"

definition sample_tool :: Tool where
  "sample_tool = \<lparr>tool_Name = ''logs'', tool_DefaultTTL = 30 * Second, tool_DefaultTimeout = 5 * Second, tool_AuditArgs = None\<rparr>"

definition sample_http :: http_config where
  "sample_http = \<lparr>hc_daemon = sample_daemon, hc_host = ''h1'',
     hc_registry = \<lparr>tools = (\<lambda>n. if n = ''logs'' then Some sample_tool else None)\<rparr>, hc_enabled = {''logs''}\<rparr>"

definition sample_deps :: "bytes deps" where
  "sample_deps = \<lparr>dp_sha256 = id, dp_unmarshal = Some, dp_marshal = Some, dp_valid = (\<lambda>b. b \<noteq> [])\<rparr>"

definition sample_state :: http_state where
  "sample_state = \<lparr>hs_cache = NewCache,
     hs_limiter = NewLimiter \<lparr>SustainedPerMin = 30, Burst = 10, Disabled = False\<rparr> Map.empty 0, hs_audit = []\<rparr>"

definition sample_request :: http_request where
  "sample_request = \<lparr>rq_peers = [sample_cert], rq_path = ''/v1/logs'', rq_method = ''POST'', rq_body = Some []\<rparr>"

definition sample_fate :: fate where
  "sample_fate = \<lparr>ft_start = 0, ft_observed = 0, ft_written = 10 * Second, ft_leads = True, ft_wait = Delivered,
     ft_outcome = ToolOk ''{}'' [], ft_joined = (\<lambda>c. (c, FnErr ToolDeadline))\<rparr>"

theorem tool_reached_only_when_admitted_witness:
  "status_of (snd (handleRequest sample_deps sample_http sample_fate sample_state sample_request)) = 200 \<and>
   fst (snd (Allow (hs_limiter sample_state) (callerIdentity (rq_peers sample_request)) (path_tool sample_request) (ft_start sample_fate))) \<and>
   LookupTool (hc_registry sample_http) (path_tool sample_request) \<noteq> None"
proof -
  have "status_of (snd (handleRequest sample_deps sample_http sample_fate sample_state sample_request)) = 200" by code_simp
  with tool_reached_only_when_admitted [OF refl, of sample_deps sample_http sample_fate sample_state sample_request]
  show ?thesis by blast
qed

text \<open>
  A call that starts its tool itself reports an age of zero in its response, however long the
  tool took: here ten seconds pass between the observation and the response, and the entry left in
  the cache knows it.
\<close>

theorem fresh_response_reports_age_zero:
  "let (s', resp) = handleRequest sample_deps sample_http sample_fate sample_state sample_request
   in (case resp of HttpOk env \<Rightarrow> env_cache_age_s env = 0 \<and> env_as_of env = 10 * Second | HttpError st e \<Rightarrow> False) \<and>
      (\<exists>k e. Lookup (hs_cache s') k (10 * Second) = Some e \<and> age_seconds (Age e (10 * Second)) = 10)"
proof -
  let ?res = "handleRequest sample_deps sample_http sample_fate sample_state sample_request"
  let ?e = "\<lparr>e_data = ''{}'', e_warnings = [], e_builtat = 0, e_ttl = 30 * Second\<rparr>"
  have r: "snd ?res = envelope sample_http sample_fate ''{}'' 0 []" by code_simp
  have l: "Lookup (hs_cache (fst ?res)) (request_key sample_deps ''logs'' []) (10 * Second) = Some ?e" by code_simp
  have a: "age_seconds (Age ?e (10 * Second)) = 10" by code_simp
  have w: "ft_written sample_fate = 10 * Second" by (simp add: sample_fate_def)
  have "\<exists>k e. Lookup (hs_cache (fst ?res)) k (10 * Second) = Some e \<and> age_seconds (Age e (10 * Second)) = 10"
    using l a by blast
  then show ?thesis using r w by (simp add: split_beta envelope_def)
qed



subsection \<open>Verified certificates\<close>

text \<open>
  A connection whose verified leaf certificate passes the extra checks is an end entity with
  the client-authentication usage, and its caller identity is empty only when its common name is
  blank and its first DNS name is the empty string.
\<close>

lemma verified_caller_identified:
  assumes "verifyClientCert ((leaf # rest) # others) = None" and "peers = leaf # rest'"
  shows "\<not> cert_IsCA leaf \<and> 2 \<in> set (cert_ExtKeyUsage leaf) \<and>
    (callerIdentity peers = [] \<longrightarrow> trim_space (cert_CommonName leaf) = [] \<and> (\<exists>ds. cert_DNSNames leaf = [] # ds))"
  using assms
  by (auto simp: verifyClientCert_def callerIdentity_def ExtKeyUsageClientAuth_def Let_def split: if_splits list.splits)

subsection \<open>The capped listener\<close>

text \<open>
  \<^verbatim>\<open>capped.go\<close>: \<open>ls_sem\<close> is the number of tokens taken; a connection is given with whether its
  \<^verbatim>\<open>sync.Once\<close> has run.
\<close>

record listener =
  ls_sem :: nat
  ls_conns :: "bool list"

definition listener_init :: "listener \<Rightarrow> bool" where
  "listener_init l \<longleftrightarrow> l = \<lparr>ls_sem = 0, ls_conns = []\<rparr>"

text \<open>A connection is admitted, dropped over the cap, or closed, possibly more than once.\<close>

inductive listener_step :: "nat \<Rightarrow> listener \<Rightarrow> listener \<Rightarrow> bool" for cap where
  ls_admit: "ls_sem l < cap \<Longrightarrow> listener_step cap l (l\<lparr>ls_sem := ls_sem l + 1, ls_conns := ls_conns l @ [False]\<rparr>)"
| ls_drop: "cap \<le> ls_sem l \<Longrightarrow> listener_step cap l l"
| ls_close: "i < length (ls_conns l) \<Longrightarrow> \<not> ls_conns l ! i \<Longrightarrow>
    listener_step cap l (l\<lparr>ls_sem := ls_sem l - 1, ls_conns := (ls_conns l)[i := True]\<rparr>)"
| ls_close_again: "i < length (ls_conns l) \<Longrightarrow> ls_conns l ! i \<Longrightarrow> listener_step cap l l"

definition listener_inv :: "nat \<Rightarrow> listener \<Rightarrow> bool" where
  [inv_defs]: "listener_inv cap l \<longleftrightarrow> ls_sem l = length (filter Not (ls_conns l)) \<and> ls_sem l \<le> cap"

lemma filter_Not_update:
  "i < length bs \<Longrightarrow> \<not> bs ! i \<Longrightarrow> Suc (length (filter Not (bs[i := True]))) = length (filter Not bs)"
  by (induction bs arbitrary: i) (auto simp: nth_Cons split: nat.splits)

interpretation capped_listener: invariant_system listener_init "listener_step cap" "listener_inv cap" for cap
proof (unfold_locales, goal_cases)
  case (1 l)
  then show ?case by (simp add: listener_init_def listener_inv_def)
next
  case (2 l l')
  from 2(2,1) show ?case
  proof (induction rule: listener_step.induct)
    case (ls_close i l)
    then show ?case using filter_Not_update [of i "ls_conns l"] by (simp add: listener_inv_def) linarith
  qed (auto simp: listener_inv_def)
qed

text \<open>
  Under any sequence of arriving and closing connections, also when a connection is closed
  several times, the listener holds exactly one token per open connection and never has more
  connections open than its cap.
\<close>

lemma listener_never_over_cap:
  assumes "reachable listener_init (listener_step cap) l"
  shows "length (filter Not (ls_conns l)) \<le> cap \<and> ls_sem l = length (filter Not (ls_conns l))"
  using capped_listener.reachable_inv [OF assms] by (simp add: listener_inv_def)

subsection \<open>The audit line\<close>

text \<open>\<^verbatim>\<open>stdLogger.Log\<close>; \<open>quote\<close> is the \<^verbatim>\<open>%q\<close> of \<^verbatim>\<open>fmt\<close>.\<close>

definition audit_args :: "(bytes \<Rightarrow> bytes) \<Rightarrow> (bytes \<times> bytes) list \<Rightarrow> bytes" where
  "audit_args quote as =
     join (map (\<lambda>k. quote k @ ''='' @ quote (the (map_of as k))) (sort (map fst as))) '',''"

text \<open>\<^verbatim>\<open>Duration.Milliseconds\<close>: towards zero.\<close>

definition milliseconds :: "duration \<Rightarrow> int" where
  "milliseconds d = (if 0 \<le> d then d div Millisecond else - ((- d) div Millisecond))"

definition Log :: "(bytes \<Rightarrow> bytes) \<Rightarrow> audit_Entry \<Rightarrow> bytes" where
  "Log quote e =
     ''audit caller='' @ quote (au_CallerIdentity e) @ '' tool='' @ quote (au_Tool e) @
     '' args=['' @ audit_args quote (au_Args e) @ ''] size='' @ itoa (int (au_ResponseSize e)) @
     '' duration_ms='' @ itoa (milliseconds (au_Duration e)) @ '' result='' @ quote (au_Result e) @
     '' reject_reason='' @ quote (au_RejectReason e)"

lemma audit_args_perm:
  assumes "mset as = mset bs" and "distinct (map fst as)"
  shows "audit_args quote as = audit_args quote bs"
proof -
  have m: "mset (map fst as) = mset (map fst bs)" using assms(1) by (metis mset_map)
  then have s: "sort (map fst as) = sort (map fst bs)" by (intro properties_for_sort) simp_all
  have "distinct (map fst bs)" using m assms(2) mset_eq_imp_distinct_iff by blast
  then have "map_of as = map_of bs"
    using assms mset_eq_setD by (metis map_of_eqI map_of_eq_Some_iff not_None_eq map_of_inject_set)
  with s show ?thesis by (simp add: audit_args_def)
qed

end
