(* ===== verification/Redact.thy ===== *)
theory Redact
  imports Netip
begin

text \<open>
  \<^verbatim>\<open>daemon/internal/daemon/redact\<close>: the positive-list filter of log samples and error texts.
  The package's own regular expressions are written out as matchers on bytes; they only name
  ASCII classes, so a byte of a multi-byte rune is outside every class. The operator's compiled
  patterns are predicates, and the file system, the YAML decoder and the regexp compiler behind
  \<^verbatim>\<open>LoadRuleFile\<close> are arguments.
\<close>

subsection \<open>The regular expressions\<close>

definition placeholder :: bytes where
  "placeholder = ''<redacted>''"

definition in_range :: "char \<Rightarrow> char \<Rightarrow> char \<Rightarrow> bool" where
  "in_range lo hi c \<longleftrightarrow> (of_char lo :: nat) \<le> of_char c \<and> (of_char c :: nat) \<le> of_char hi"

definition is_upper :: "char \<Rightarrow> bool" where "is_upper = in_range CHR ''A'' CHR ''Z''"
definition is_lower :: "char \<Rightarrow> bool" where "is_lower = in_range CHR ''a'' CHR ''z''"
definition is_digit :: "char \<Rightarrow> bool" where "is_digit = in_range CHR ''0'' CHR ''9''"

definition is_alpha :: "char \<Rightarrow> bool" where
  "is_alpha c \<longleftrightarrow> is_upper c \<or> is_lower c"

definition is_alnum :: "char \<Rightarrow> bool" where
  "is_alnum c \<longleftrightarrow> is_alpha c \<or> is_digit c"

definition is_b64url :: "char \<Rightarrow> bool" where
  "is_b64url c \<longleftrightarrow> is_alnum c \<or> c \<in> set ''_-''"

text \<open>A match anywhere in the text: at the head of some suffix.\<close>

fun match_anywhere :: "(bytes \<Rightarrow> bool) \<Rightarrow> bytes \<Rightarrow> bool" where
  "match_anywhere p [] = p []"
| "match_anywhere p (c # s) = (p (c # s) \<or> match_anywhere p s)"

definition safeToken :: "bytes \<Rightarrow> bool" where
  "safeToken t =
     (case t of
        [] \<Rightarrow> False
      | c # cs \<Rightarrow> is_alpha c \<and> length cs \<le> 63 \<and> list_all (\<lambda>x. is_alnum x \<or> x \<in> set ''._@-'') cs)"

definition run_of :: "nat \<Rightarrow> (char \<Rightarrow> bool) \<Rightarrow> bytes \<Rightarrow> bool" where
  "run_of n p s \<longleftrightarrow> n \<le> length s \<and> list_all p (take n s)"

definition awsKey :: "bytes \<Rightarrow> bool" where
  "awsKey = match_anywhere (\<lambda>s. (has_prefix s ''AKIA'' \<or> has_prefix s ''ASIA'') \<and>
     run_of 16 (\<lambda>c. is_upper c \<or> is_digit c) (drop 4 s))"

text \<open>
  A segment of eight or more and the dot after it: the dot is outside the class, so the segment
  is the whole run of class characters.
\<close>

definition jwt_segment :: "bytes \<Rightarrow> bytes option" where
  "jwt_segment s =
     (let run = takeWhile is_b64url s; rest = dropWhile is_b64url s
      in case rest of
           c # r \<Rightarrow> if 8 \<le> length run \<and> c = CHR ''.'' then Some r else None
         | [] \<Rightarrow> None)"

definition jwt :: "bytes \<Rightarrow> bool" where
  "jwt = match_anywhere (\<lambda>s.
     case jwt_segment s of
       None \<Rightarrow> False
     | Some s1 \<Rightarrow> (case jwt_segment s1 of None \<Rightarrow> False | Some s2 \<Rightarrow> run_of 8 is_b64url s2))"

definition bigBlob :: "bytes \<Rightarrow> bool" where
  "bigBlob = match_anywhere (run_of 33 (\<lambda>c. is_alnum c \<or> c \<in> set ''+/=_-''))"

definition is_hex :: "char \<Rightarrow> bool" where
  "is_hex c \<longleftrightarrow> is_digit c \<or> in_range CHR ''a'' CHR ''f'' c \<or> in_range CHR ''A'' CHR ''F'' c"

fun groups_match :: "nat list \<Rightarrow> bytes \<Rightarrow> bool" where
  "groups_match [] s = (s = [])"
| "groups_match [n] s = (length s = n \<and> list_all is_hex s)"
| "groups_match (n # ns) s =
     (run_of n is_hex s \<and> (case drop n s of c # r \<Rightarrow> c = CHR ''-'' \<and> groups_match ns r | [] \<Rightarrow> False))"

definition uuid :: "bytes \<Rightarrow> bool" where
  "uuid = groups_match [8, 4, 4, 4, 12]"

subsection \<open>The filter\<close>

record Rules =
  IPv4Allow :: "prefix list"
  IPv6Allow :: "prefix list"
  SensitiveDirs :: "bytes list"
  ScrubPatterns :: "(bytes \<Rightarrow> bool) list"

definition addrAllowed :: "Rules \<Rightarrow> addr \<Rightarrow> bool" where
  "addrAllowed f a =
     (if Is4 a \<or> Is4In6 a then list_ex (\<lambda>p. prefix_contains p a) (IPv4Allow f)
      else list_ex (\<lambda>p. prefix_contains p a) (IPv6Allow f))"

definition sensitive :: "bytes \<Rightarrow> bytes \<Rightarrow> bool" where
  "sensitive t d \<longleftrightarrow>
     d \<noteq> [] \<and>
     (has_prefix t d \<or>
      (case index_byte t CHR ''='' of None \<Rightarrow> False | Some i \<Rightarrow> has_prefix (drop (i + 1) t) d))"

definition tokenSafe :: "Rules \<Rightarrow> bytes \<Rightarrow> bool" where
  "tokenSafe f t =
     (if list_ex (\<lambda>re. re t) (ScrubPatterns f) then False
      else case ParseAddr t of
             Some a \<Rightarrow> addrAllowed f a
           | None \<Rightarrow>
               if list_ex (sensitive t) (SensitiveDirs f) then False
               else if awsKey t then False
               else if jwt t then False
               else if uuid t then True
               else if \<not> contains_any t ''@.'' \<and> bigBlob t then False
               else safeToken t)"

definition Redact :: "Rules \<Rightarrow> bytes \<Rightarrow> bytes" where
  "Redact f s =
     (if s = [] then []
      else join (map (\<lambda>t. if \<not> tokenSafe f t then placeholder else t) (Fields s)) '' '')"

subsection \<open>Paths\<close>

definition pathPlaceholder :: bytes where
  "pathPlaceholder = ''<path>''"

text \<open>The class \<^verbatim>\<open>\s\<close> of the regexp package, and the trailing punctuation.\<close>

definition re_space :: "char \<Rightarrow> bool" where
  "re_space c \<longleftrightarrow> c \<in> set [CHR 0x09, CHR 0x0A, CHR 0x0C, CHR 0x0D, CHR '' '']"

definition path_punct :: "char \<Rightarrow> bool" where
  "path_punct c \<longleftrightarrow> c \<in> set '':,;.''"

text \<open>
  \<^verbatim>\<open>/\S*[^\s:,;.]\<close> at the head of a string, greedily: what follows the match, when there is one.
\<close>

definition path_match :: "bytes \<Rightarrow> bytes option" where
  "path_match s =
     (case s of
        [] \<Rightarrow> None
      | c # r \<Rightarrow>
          let body = rev (dropWhile path_punct (rev (takeWhile (\<lambda>x. \<not> re_space x) r)))
          in if c = CHR ''/'' \<and> body \<noteq> [] then Some (drop (length body) r) else None)"

text \<open>\<^verbatim>\<open>(^|\s)\<close> before it, and every match replaced from left to right.\<close>

lemma path_match_shorter: "path_match s = Some r \<Longrightarrow> length r < length s"
  by (auto simp: path_match_def Let_def split: list.splits if_splits)

function paths_go :: "bool \<Rightarrow> bytes \<Rightarrow> bytes" where
  "paths_go start s =
     (case s of
        [] \<Rightarrow> []
      | c # cs \<Rightarrow>
          case (if start then path_match s else None) of
            Some r \<Rightarrow> pathPlaceholder @ paths_go False r
          | None \<Rightarrow>
              (case (if re_space c then path_match cs else None) of
                 Some r \<Rightarrow> c # pathPlaceholder @ paths_go False r
               | None \<Rightarrow> c # paths_go False cs))"
  by pat_completeness auto
termination
  by (relation "measure (\<lambda>(b, s). length s)")
    (auto dest!: path_match_shorter split: if_splits)

declare paths_go.simps [simp del]

definition Paths :: "bytes \<Rightarrow> bytes" where
  "Paths s = (if s = [] then s else paths_go True s)"

subsection \<open>The operator's rule file\<close>

definition MaxRuleFileBytes :: int where
  "MaxRuleFileBytes = 64 * 1024"

datatype os_error = NotExist | OtherOs bytes

datatype yaml_result = YamlOk "bytes list" | YamlEOF | YamlBad bytes

datatype rule_error =
    RuleStat os_error
  | RuleTooBig int
  | RuleRead os_error
  | RuleParse bytes
  | RuleEmpty nat
  | RuleRegexp nat

text \<open>The loop over the patterns; \<open>i\<close> is the index the code reports.\<close>

fun compile_rules :: "(bytes \<Rightarrow> (bytes \<Rightarrow> bool) option) \<Rightarrow> nat \<Rightarrow> bytes list \<Rightarrow> rule_error + (bytes \<Rightarrow> bool) list" where
  "compile_rules compile i [] = Inr []"
| "compile_rules compile i (p # ps) =
     (if trim_space p = [] then Inl (RuleEmpty i)
      else case compile p of
             None \<Rightarrow> Inl (RuleRegexp i)
           | Some re \<Rightarrow> map_sum id (\<lambda>res. re # res) (compile_rules compile (i + 1) ps))"

definition LoadRuleFile ::
  "(bytes \<Rightarrow> os_error + int) \<Rightarrow> (bytes \<Rightarrow> os_error + bytes) \<Rightarrow> (bytes \<Rightarrow> yaml_result) \<Rightarrow>
   (bytes \<Rightarrow> (bytes \<Rightarrow> bool) option) \<Rightarrow> bytes \<Rightarrow> rule_error + (bytes \<Rightarrow> bool) list" where
  "LoadRuleFile stat readfile decode compile path =
     (if trim_space path = [] then Inr []
      else case stat path of
             Inl e \<Rightarrow> Inl (RuleStat e)
           | Inr n \<Rightarrow>
               if MaxRuleFileBytes < n then Inl (RuleTooBig n)
               else case readfile path of
                      Inl e \<Rightarrow> Inl (RuleRead e)
                    | Inr b \<Rightarrow>
                        (case decode b of
                           YamlBad m \<Rightarrow> Inl (RuleParse m)
                         | YamlEOF \<Rightarrow> compile_rules compile 0 []
                         | YamlOk ps \<Rightarrow> compile_rules compile 0 ps))"

subsection \<open>What the filter lets through\<close>

lemma fields_join_map:
  assumes "\<And>t. g t = t \<or> (g t \<noteq> [] \<and> space_free (g t))"
  shows "Fields (join (map g (Fields s)) '' '') = map g (Fields s)"
proof (rule fields_join, intro ballI)
  fix x assume "x \<in> set (map g (Fields s))"
  then obtain t where "t \<in> set (Fields s)" "x = g t" by auto
  then show "x \<noteq> [] \<and> space_free x" using fields_tokens [of t s] assms [of t] by metis
qed

lemma placeholder_token: "placeholder \<noteq> [] \<and> space_free placeholder"
  by (simp add: placeholder_def space_len_0_iff space_runes_def ascii_spaces_def wide_spaces_def)

lemma Fields_Nil [simp]: "Fields [] = []"
  by (simp add: Fields_def fields_go.simps)

lemma Redact_join:
  "Redact f s = join (map (\<lambda>t. if tokenSafe f t then t else placeholder) (Fields s)) '' ''"
proof -
  have "(\<lambda>t. if \<not> tokenSafe f t then placeholder else t) = (\<lambda>t. if tokenSafe f t then t else placeholder)"
    by auto
  then show ?thesis by (simp add: Redact_def)
qed

text \<open>The tokens of the output are the tokens of the input, in order, each kept or replaced.\<close>

lemma Fields_Redact:
  "Fields (Redact f s) = map (\<lambda>t. if tokenSafe f t then t else placeholder) (Fields s)"
proof -
  have "Fields (join (map (\<lambda>t. if tokenSafe f t then t else placeholder) (Fields s)) '' '') =
      map (\<lambda>t. if tokenSafe f t then t else placeholder) (Fields s)"
    by (rule fields_join_map) (use placeholder_token in auto)
  then show ?thesis by (simp add: Redact_join)
qed

text \<open>
  C10: Every token of a redacted text is the placeholder or a token of the input for which no
  operator pattern matches and which is either an address inside an allowed prefix, or no
  address, outside every sensitive directory, without an AWS key or a JWT in it, and a UUID or a
  short identifier that is not a large blob.
\<close>

theorem redact_output_tokens:
  assumes "t \<in> set (Fields (Redact f s))"
  shows "t = ''<redacted>'' \<or>
    (t \<in> set (Fields s) \<and> (\<forall>re \<in> set (ScrubPatterns f). \<not> re t) \<and>
     (case ParseAddr t of
        Some a \<Rightarrow> \<exists>p \<in> set (IPv4Allow f) \<union> set (IPv6Allow f). prefix_contains p a
      | None \<Rightarrow>
          (\<forall>d \<in> set (SensitiveDirs f). d \<noteq> [] \<longrightarrow> \<not> has_prefix t d) \<and> \<not> awsKey t \<and> \<not> jwt t \<and>
          (uuid t \<or> safeToken t \<and> (bigBlob t \<longrightarrow> CHR ''@'' \<in> set t \<or> CHR ''.'' \<in> set t))))"
proof (cases "t = placeholder")
  case True
  then show ?thesis by (simp add: placeholder_def)
next
  case False
  with assms have t: "t \<in> set (Fields s)" "tokenSafe f t"
    by (auto simp: Fields_Redact split: if_splits)
  have scrub: "\<not> list_ex (\<lambda>re. re t) (ScrubPatterns f)" using t(2) by (auto simp: tokenSafe_def)
  show ?thesis
  proof (cases "ParseAddr t")
    case (Some a)
    with t(2) scrub have "addrAllowed f a" by (simp add: tokenSafe_def)
    then have "\<exists>p \<in> set (IPv4Allow f) \<union> set (IPv6Allow f). prefix_contains p a"
      by (auto simp: addrAllowed_def list_ex_iff split: if_splits)
    with Some t(1) scrub show ?thesis by (auto simp: list_ex_iff)
  next
    case None
    with t(2) scrub have n: "\<not> list_ex (sensitive t) (SensitiveDirs f)" "\<not> awsKey t" "\<not> jwt t"
      "uuid t \<or> safeToken t \<and> (bigBlob t \<longrightarrow> contains_any t ''@.'')"
      by (auto simp: tokenSafe_def split: if_splits)
    from n(1) have "\<forall>d \<in> set (SensitiveDirs f). d \<noteq> [] \<longrightarrow> \<not> has_prefix t d"
      by (auto simp: list_ex_iff sensitive_def)
    with n None t(1) scrub show ?thesis by (auto simp: list_ex_iff contains_any_def)
  qed
qed

definition sample_rules :: Rules where
  "sample_rules = \<lparr>IPv4Allow = [\<lparr>prefix_addr = IPv4 (of_nat (10 * 2 ^ 24)), prefix_bits = 8\<rparr>],
     IPv6Allow = [], SensitiveDirs = [''/etc/secret''], ScrubPatterns = [\<lambda>t. contains_sub t ''@'']\<rparr>"

theorem redact_output_tokens_witness:
  "''nginx'' = ''<redacted>'' \<or>
    (''nginx'' \<in> set (Fields ''nginx /etc/secret/key 10.1.2.3'') \<and> (\<forall>re \<in> set (ScrubPatterns sample_rules). \<not> re ''nginx'') \<and>
     (case ParseAddr ''nginx'' of
        Some a \<Rightarrow> \<exists>p \<in> set (IPv4Allow sample_rules) \<union> set (IPv6Allow sample_rules). prefix_contains p a
      | None \<Rightarrow>
          (\<forall>d \<in> set (SensitiveDirs sample_rules). d \<noteq> [] \<longrightarrow> \<not> has_prefix ''nginx'' d) \<and> \<not> awsKey ''nginx'' \<and> \<not> jwt ''nginx'' \<and>
          (uuid ''nginx'' \<or> safeToken ''nginx'' \<and> (bigBlob ''nginx'' \<longrightarrow> CHR ''@'' \<in> set ''nginx'' \<or> CHR ''.'' \<in> set ''nginx''))))"
  by (rule redact_output_tokens) code_simp

text \<open>
  Redacting keeps the number and order of the tokens, replacing exactly the unsafe ones, and
  redacting a second time changes nothing.
\<close>

theorem redact_idempotent:
  "Redact f (Redact f s) = Redact f s \<and>
   Fields (Redact f s) = map (\<lambda>t. if tokenSafe f t then t else placeholder) (Fields s)"
proof -
  let ?g = "\<lambda>t. if tokenSafe f t then t else placeholder"
  have "map ?g (map ?g (Fields s)) = map ?g (Fields s)" by simp
  then have "Redact f (Redact f s) = Redact f s"
    by (simp only: Redact_join [of f "Redact f s"] Fields_Redact) (simp only: Redact_join)
  then show ?thesis using Fields_Redact by simp
qed

text \<open>
  An IPv4-mapped IPv6 address is never let through, whatever the allowed IPv4 prefixes: it is
  looked up in the IPv4 list, and no IPv4 prefix contains a 128-bit address.
\<close>

theorem mapped_address_never_allowed:
  assumes "Is4In6 a" and "\<forall>p \<in> set (IPv4Allow f). Is4 (prefix_addr p)"
  shows "\<not> addrAllowed f a"
proof -
  have "\<not> prefix_contains p a" if "p \<in> set (IPv4Allow f)" for p
  proof -
    have "Is6 a" using assms(1) by (cases a) (auto simp: Is6_def)
    moreover have "\<not> Is6 (prefix_addr p)" using assms(2) that by (auto simp: Is6_def)
    ultimately show ?thesis by (auto simp: prefix_contains_def BitLen_eq_iff)
  qed
  with assms(1) show ?thesis by (auto simp: addrAllowed_def list_ex_iff)
qed

theorem mapped_address_never_allowed_witness:
  "\<not> addrAllowed sample_rules (the (ParseAddr ''::ffff:10.1.2.3''))"
  by (rule mapped_address_never_allowed) code_simp+

text \<open>
  An e-mail address whose domain has three long labels is scrubbed by the JWT class, though
  every character of it is on the positive list.
\<close>

theorem email_scrubbed_as_jwt:
  "let t = ''ops@webserver.datacentre.example-org''
   in safeToken t \<and> \<not> tokenSafe \<lparr>IPv4Allow = [], IPv6Allow = [], SensitiveDirs = [], ScrubPatterns = []\<rparr> t"
  by code_simp

subsection \<open>No path survives\<close>

text \<open>Does the path expression match somewhere, read from the same position?\<close>

fun has_path :: "bool \<Rightarrow> bytes \<Rightarrow> bool" where
  "has_path start [] = False"
| "has_path start (c # cs) =
     ((start \<and> path_match (c # cs) \<noteq> None) \<or> (re_space c \<and> path_match cs \<noteq> None) \<or> has_path False cs)"

lemma path_match_None:
  "path_match (c # r) = None \<longleftrightarrow> c = CHR ''/'' \<longrightarrow> list_all path_punct (takeWhile (\<lambda>x. \<not> re_space x) r)"
  by (auto simp: path_match_def Let_def dropWhile_eq_Nil_conv list_all_iff)

text \<open>Outside a match the text is copied, up to the next white space at least.\<close>

lemma paths_go_run:
  "list_all (\<lambda>x. \<not> re_space x) w \<Longrightarrow> paths_go False (w @ s) = w @ paths_go False s"
  by (induction w) (simp_all add: paths_go.simps)

lemma paths_go_head:
  "takeWhile (\<lambda>x. \<not> re_space x) (paths_go False s) = takeWhile (\<lambda>x. \<not> re_space x) s"
proof -
  let ?w = "takeWhile (\<lambda>x. \<not> re_space x) s" and ?r = "dropWhile (\<lambda>x. \<not> re_space x) s"
  have w: "list_all (\<lambda>x. \<not> re_space x) ?w" by (auto simp: list_all_iff dest: set_takeWhileD)
  then have "paths_go False s = ?w @ paths_go False ?r"
    using paths_go_run [of ?w ?r] by simp
  moreover have "takeWhile (\<lambda>x. \<not> re_space x) (paths_go False ?r) = []"
  proof (cases ?r)
    case Nil
    then show ?thesis by (simp only: paths_go.simps [of False "[]"] list.case takeWhile.simps)
  next
    case (Cons c cs)
    then have "re_space c" by (simp add: dropWhile_eq_Cons_conv)
    with Cons show ?thesis by (subst paths_go.simps) (simp split: option.splits)
  qed
  ultimately show ?thesis using w by (simp add: takeWhile_append list_all_iff)
qed

lemma path_match_paths_go: "path_match cs = None \<Longrightarrow> path_match (paths_go False cs) = None"
proof (cases cs)
  case Nil
  then show "path_match cs = None \<Longrightarrow> ?thesis" by (simp add: paths_go.simps path_match_def)
next
  case (Cons c r)
  assume p: "path_match cs = None"
  show ?thesis
  proof (cases "re_space c")
    case True
    then have "c \<noteq> CHR ''/''" by (auto simp: re_space_def)
    with Cons True show ?thesis
      by (subst paths_go.simps) (auto simp: path_match_None split: option.splits)
  next
    case False
    with Cons have "paths_go False cs = c # paths_go False r" by (simp add: paths_go.simps)
    with p Cons show ?thesis by (simp add: path_match_None paths_go_head)
  qed
qed

lemma has_path_run: "list_all (\<lambda>x. \<not> re_space x) w \<Longrightarrow> has_path False (w @ s) = has_path False s"
  by (induction w) simp_all

lemma pathPlaceholder_run: "list_all (\<lambda>x. \<not> re_space x) pathPlaceholder"
  by (simp add: pathPlaceholder_def re_space_def)

lemma has_path_placeholder [simp]: "has_path b (pathPlaceholder @ s) = has_path False s"
  using has_path_run [OF pathPlaceholder_run, of s]
  by (simp add: pathPlaceholder_def path_match_None)

lemma path_match_placeholder [simp]: "path_match (pathPlaceholder @ s) = None"
  by (simp add: pathPlaceholder_def path_match_None)

lemma paths_go_no_path: "\<not> has_path start (paths_go start s)"
proof (induction start s rule: paths_go.induct)
  case (1 start s)
  show ?case
  proof (cases s)
    case Nil
    then show ?thesis by (simp add: paths_go.simps)
  next
    case (Cons c cs)
    consider (a) r where "start" "path_match s = Some r"
      | (b) r where "\<not> (start \<and> path_match s \<noteq> None)" "re_space c" "path_match cs = Some r"
      | (c) "\<not> (start \<and> path_match s \<noteq> None)" "\<not> (re_space c \<and> path_match cs \<noteq> None)"
      by blast
    then show ?thesis
    proof cases
      case a
      with 1(3) [OF Cons] have "\<not> has_path False (paths_go False r)" by simp
      with a Cons show ?thesis by (subst paths_go.simps) simp
    next
      case b
      then have n: "c \<noteq> CHR ''/''" by (auto simp: re_space_def)
      then have m: "path_match (c # u) = None" for u by (simp add: path_match_None)
      from b Cons m have e: "paths_go start s = c # pathPlaceholder @ paths_go False r"
        by (subst paths_go.simps) simp
      have "\<not> has_path False (paths_go False r)" using 1(2) [OF Cons, of r] b Cons m by simp
      with e m show ?thesis by simp
    next
      case c
      then have e: "paths_go start s = c # paths_go False cs"
        using Cons by (subst paths_go.simps) (auto split: option.splits)
      have "\<not> has_path False (paths_go False cs)"
        using c 1(1) [OF Cons] by auto
      moreover have "start \<Longrightarrow> path_match (c # paths_go False cs) = None"
        using c Cons by (auto simp: path_match_None paths_go_head)
      moreover have "re_space c \<Longrightarrow> path_match (paths_go False cs) = None"
        using c path_match_paths_go by auto
      ultimately show ?thesis using e by auto
    qed
  qed
qed

lemma paths_go_id: "\<not> has_path start s \<Longrightarrow> paths_go start s = s"
  by (induction start s rule: has_path.induct) (auto simp: paths_go.simps)



subsection \<open>Loading the rules\<close>

lemma compile_rules_Inr:
  "compile_rules compile i ps = Inr res \<longleftrightarrow> (\<forall>p \<in> set ps. trim_space p \<noteq> []) \<and> map compile ps = map Some res"
proof (induction ps arbitrary: i res)
  case Nil
  then show ?case by auto
next
  case (Cons p ps)
  show ?case
  proof (cases "compile_rules compile (i + 1) ps")
    case (Inl e)
    then have "\<nexists>res. compile_rules compile (i + 1) ps = Inr res" by simp
    with Cons.IH have "\<nexists>res. (\<forall>p \<in> set ps. trim_space p \<noteq> []) \<and> map compile ps = map Some res" by blast
    with Inl show ?thesis by (auto split: option.splits simp: Cons_eq_map_conv)
  next
    case (Inr r)
    with Cons.IH have "(\<forall>p \<in> set ps. trim_space p \<noteq> []) \<and> map compile ps = map Some r" by blast
    with Inr show ?thesis
      by (auto split: option.splits simp: Cons_eq_map_conv dest: map_injective)
  qed
qed

text \<open>
  Rules are loaded from a named file only when it exists, is no larger than 64 KiB, parses,
  and every pattern in it is non-blank and compiles: then all of them are returned, in order. An
  unreadable, malformed or partly invalid file never gives a weaker rule set.
\<close>

theorem rule_file_all_or_error:
  assumes "LoadRuleFile stat readfile decode compile path = Inr res" and "trim_space path \<noteq> []"
  shows "\<exists>n b ps. stat path = Inr n \<and> n \<le> 65536 \<and> readfile path = Inr b \<and>
    (decode b = YamlOk ps \<or> decode b = YamlEOF \<and> ps = []) \<and>
    (\<forall>p \<in> set ps. trim_space p \<noteq> []) \<and> map compile ps = map Some res"
  using assms
  by (auto simp: LoadRuleFile_def MaxRuleFileBytes_def compile_rules_Inr
      split: sum.splits if_splits yaml_result.splits)

definition sample_stat :: "bytes \<Rightarrow> os_error + int" where "sample_stat p = Inr 20"
definition sample_read :: "bytes \<Rightarrow> os_error + bytes" where "sample_read p = Inr ''scrub_patterns: [a]''"
definition sample_decode :: "bytes \<Rightarrow> yaml_result" where "sample_decode b = YamlOk [''a'']"
definition sample_compile :: "bytes \<Rightarrow> (bytes \<Rightarrow> bool) option" where
  "sample_compile p = Some (\<lambda>t. contains_sub t p)"

theorem rule_file_all_or_error_witness:
  "\<exists>n b ps. sample_stat ''rules.yml'' = Inr n \<and> n \<le> 65536 \<and> sample_read ''rules.yml'' = Inr b \<and>
    (sample_decode b = YamlOk ps \<or> sample_decode b = YamlEOF \<and> ps = []) \<and>
    (\<forall>p \<in> set ps. trim_space p \<noteq> []) \<and> map sample_compile ps = map Some [\<lambda>t. contains_sub t ''a'']"
proof (rule rule_file_all_or_error)
  show t: "trim_space ''rules.yml'' \<noteq> []" by code_simp
  have "trim_space ''a'' \<noteq> []" by code_simp
  with t show "LoadRuleFile sample_stat sample_read sample_decode sample_compile ''rules.yml'' =
      Inr [\<lambda>t. contains_sub t ''a'']"
    by (simp add: LoadRuleFile_def MaxRuleFileBytes_def sample_stat_def sample_read_def
        sample_decode_def sample_compile_def)
qed

end
