(* ===== verification/HelperConfig.thy ===== *)
theory HelperConfig
  imports GoConv
begin

text \<open>
  \<^verbatim>\<open>daemon/internal/helper/config\<close>: the helper's configuration, the deadline it gives an
  operation, and the resolution of the daemon's user and group. The YAML decoder, the file system
  and the user database are arguments.
\<close>

record Config =
  h_DaemonUser :: bytes
  h_DaemonGroup :: bytes
  h_SocketPath :: bytes
  h_OpDeadlineMS :: "bytes \<rightharpoonup> int"
  h_AccessLogPrefixes :: "bytes list"

definition DefaultOpDeadline :: duration where "DefaultOpDeadline = 9500 * Millisecond"
definition MinOpDeadline :: duration where "MinOpDeadline = 250 * Millisecond"
definition MaxOpDeadline :: duration where "MaxOpDeadline = 15 * Second"

definition maxDeadlineMS :: int where
  "maxDeadlineMS = (2 ^ 63 - 1) div Millisecond"

definition msToDuration :: "int \<Rightarrow> duration \<Rightarrow> duration" where
  "msToDuration ms ceiling =
     (if maxDeadlineMS < ms then ceiling
      else
        (let d = int64 (ms * Millisecond)
         in if ceiling < d then ceiling else d))"

definition OpDeadline :: "Config \<Rightarrow> bytes \<Rightarrow> int \<Rightarrow> duration" where
  "OpDeadline c op callerMS =
     (let d0 = (case h_OpDeadlineMS c op of
                  Some v \<Rightarrow> if 0 < v then msToDuration v MaxOpDeadline else DefaultOpDeadline
                | None \<Rightarrow> DefaultOpDeadline);
          d1 = (if MaxOpDeadline < d0 then MaxOpDeadline else d0);
          d2 = (if 0 < callerMS then
                  (let caller = msToDuration callerMS MaxOpDeadline
                   in if caller < d1 then caller else d1)
                else d1)
      in if d2 < MinOpDeadline then MinOpDeadline else d2)"

definition Defaults :: Config where
  "Defaults = \<lparr>h_DaemonUser = ''host-health-mcp'', h_DaemonGroup = ''host-health-mcp'',
     h_SocketPath = ''/run/host-health-mcp/helper.sock'', h_OpDeadlineMS = Map.empty,
     h_AccessLogPrefixes = []\<rparr>"

datatype helper_config_error = HelperRead bytes | HelperParse bytes | LookupFailed bytes | BadId bytes

datatype helper_file = NoFile | FileError bytes | FileBytes bytes

definition Load ::
  "(bytes \<Rightarrow> helper_file) \<Rightarrow> (bytes \<Rightarrow> Config \<Rightarrow> Config option) \<Rightarrow> bytes \<Rightarrow> helper_config_error + Config" where
  "Load readfile decode path =
     (case readfile path of
        NoFile \<Rightarrow> Inr Defaults
      | FileError e \<Rightarrow> Inl (HelperRead path)
      | FileBytes b \<Rightarrow> (case decode b Defaults of None \<Rightarrow> Inl (HelperParse path) | Some c \<Rightarrow> Inr c))"

definition ResolveUID :: "(bytes \<Rightarrow> bytes option) \<Rightarrow> Config \<Rightarrow> helper_config_error + 32 word" where
  "ResolveUID lookup c =
     (case lookup (h_DaemonUser c) of
        None \<Rightarrow> Inl (LookupFailed (h_DaemonUser c))
      | Some uid \<Rightarrow>
          (case parse_uint 10 32 uid of None \<Rightarrow> Inl (BadId uid) | Some n \<Rightarrow> Inr (of_nat n)))"

definition ResolveGID :: "(bytes \<Rightarrow> bytes option) \<Rightarrow> Config \<Rightarrow> helper_config_error + 32 word" where
  "ResolveGID lookup c =
     (let name = (if h_DaemonGroup c = [] then h_DaemonUser c else h_DaemonGroup c)
      in case lookup name of
           None \<Rightarrow> Inl (LookupFailed name)
         | Some gid \<Rightarrow>
             (case parse_uint 10 32 gid of None \<Rightarrow> Inl (BadId gid) | Some n \<Rightarrow> Inr (of_nat n)))"

subsection \<open>The deadline\<close>

lemma msToDuration_exact:
  assumes "0 < ms"
  shows "msToDuration ms (15 * Second) = min (ms * Millisecond) (15 * Second)"
proof (cases "maxDeadlineMS < ms")
  case True
  then show ?thesis by (simp add: msToDuration_def maxDeadlineMS_def)
next
  case False
  with assms have "int64 (ms * Millisecond) = ms * Millisecond"
    by (intro int64_id) (simp_all add: maxDeadlineMS_def)
  with False show ?thesis by (simp add: msToDuration_def Let_def)
qed

text \<open>The deadline in closed form: the configured value, cut to the request's budget, clamped.\<close>

lemma OpDeadline_closed:
  "OpDeadline c op ms =
     max (250 * Millisecond)
       (let conf = (case h_OpDeadlineMS c op of
                      Some v \<Rightarrow> if 0 < v then min (v * Millisecond) (15 * Second) else 9500 * Millisecond
                    | None \<Rightarrow> 9500 * Millisecond)
        in if 0 < ms then min conf (ms * Millisecond) else conf)"
  by (cases "h_OpDeadlineMS c op")
    (simp_all add: OpDeadline_def Let_def msToDuration_exact [simplified] min_def max_def
      MinOpDeadline_def MaxOpDeadline_def DefaultOpDeadline_def)

lemma OpDeadline_bounds:
  "250 * Millisecond \<le> OpDeadline c op ms" "OpDeadline c op ms \<le> 15 * Second"
  "OpDeadline c op ms \<le> OpDeadline c op 0"
  by (simp_all only: OpDeadline_closed)
    (cases "h_OpDeadlineMS c op", simp_all add: Let_def min_def le_max_iff_disj, linarith?)+

lemma OpDeadline_caller:
  "0 < ms \<Longrightarrow> OpDeadline c op ms \<le> max (250 * Millisecond) (ms * Millisecond)"
  by (simp add: OpDeadline_closed Let_def)

text \<open>
  The deadline of an operation lies between 250 milliseconds and 15 seconds whatever the
  configuration and the request say, a request can only shorten it, and no conversion overflows:
  it is the configured value, cut to the request's budget, clamped.
\<close>

theorem op_deadline_bounds:
  "250 * Millisecond \<le> OpDeadline c op ms \<and> OpDeadline c op ms \<le> 15 * Second \<and>
   OpDeadline c op ms \<le> OpDeadline c op 0 \<and>
   OpDeadline c op ms =
     max (250 * Millisecond)
       (let conf = (case h_OpDeadlineMS c op of
                      Some v \<Rightarrow> if 0 < v then min (v * Millisecond) (15 * Second) else 9500 * Millisecond
                    | None \<Rightarrow> 9500 * Millisecond)
        in if 0 < ms then min conf (ms * Millisecond) else conf)"
  using OpDeadline_bounds OpDeadline_closed by blast

text \<open>
  The user and group the helper trusts come from the user database only: an identifier is
  accepted exactly when it is a decimal number below 2 to the 32, and then it is that number.
\<close>

theorem resolve_uid_exact:
  "ResolveUID lookup c = Inr u \<longleftrightarrow>
     (\<exists>s n. lookup (h_DaemonUser c) = Some s \<and> parse_uint 10 32 s = Some n \<and> n < 2 ^ 32 \<and> unat u = n)"
proof -
  have b: "n < 2 ^ 32" if "parse_uint 10 32 s = Some n" for s n
    using that by (auto simp: parse_uint_def split: if_splits option.splits)
  have w: "(of_nat n :: 32 word) = u \<longleftrightarrow> unat u = n" if "n < 2 ^ 32" for n
    using that by (auto simp: unat_of_nat_small)
  show ?thesis
    using b w by (auto simp: ResolveUID_def split: option.splits)
qed

end
