(* ===== verification/HelperInvoke.thy ===== *)
theory HelperInvoke
  imports Proto Schema Redact HelperConfig
begin

text \<open>
  \<^verbatim>\<open>daemon/internal/daemon/helperinvoke\<close>: the daemon's client of the helper. One call is modelled
  from the check of the op to the typed result. What the helper sends back for the bytes it
  received is a function (\<open>peer\<close>); whether the in-flight token and the connection are obtained,
  the deadline of the context and the two readings of the clock are arguments, and so is the JSON
  codec.
\<close>

subsection \<open>The client\<close>

definition HelperDeadlineBudget :: duration where
  "HelperDeadlineBudget = 500 * Millisecond"

record Client =
  cl_socketPath :: bytes
  cl_sem :: "nat option"
  cl_redactor :: "Rules option"

definition NewClient :: "bytes \<Rightarrow> int \<Rightarrow> Rules option \<Rightarrow> Client" where
  "NewClient path maxInFlight r =
     \<lparr>cl_socketPath = path, cl_sem = (if 0 < maxInFlight then Some (nat maxInFlight) else None), cl_redactor = r\<rparr>"

record HelperError =
  he_Code :: bytes
  he_Message :: bytes
  he_StderrBytes :: int
  he_StderrSHA256 :: bytes
  he_StderrPrefix :: bytes
  he_ToolExit :: "int option"
  he_Argv :: "bytes list"
  he_redactor :: "Rules option"

datatype call_error =
    UnknownOp bytes
  | CtxErr
  | DialErr
  | WriteErr frame_error
  | ReadErr frame_error
  | UnmarshalErr
  | HelperErr HelperError

text \<open>
  The deadline on the socket and the budget in the request, from the context's deadline, when it
  has one.
\<close>

definition socket_deadline :: "time \<Rightarrow> time \<Rightarrow> time" where
  "socket_deadline deadline now1 =
     (let helperDL = deadline - HelperDeadlineBudget in if \<not> now1 < helperDL then deadline else helperDL)"

definition deadline_ms :: "time option \<Rightarrow> time \<Rightarrow> time \<Rightarrow> int" where
  "deadline_ms ctxDeadline now1 now2 =
     (case ctxDeadline of
        None \<Rightarrow> 0
      | Some deadline \<Rightarrow>
          (let ns = socket_deadline deadline now1 - now2
           in if 0 < ns then int64 (ns + Millisecond - 1) div Millisecond else 1))"

definition response_result :: "Client \<Rightarrow> Response \<Rightarrow> call_error + bytes" where
  "response_result c resp =
     (if resp_status resp \<noteq> StatusOK then
        Inl (HelperErr \<lparr>he_Code = resp_code resp, he_Message = resp_message resp,
          he_StderrBytes = resp_stderr_bytes resp, he_StderrSHA256 = resp_stderr_sha256 resp,
          he_StderrPrefix = resp_stderr_prefix resp, he_ToolExit = resp_tool_exit resp,
          he_Argv = resp_argv resp, he_redactor = cl_redactor c\<rparr>)
      else Inr (resp_data resp))"

definition Call ::
  "(Request \<Rightarrow> bytes option) \<Rightarrow> (bytes \<Rightarrow> Response option) \<Rightarrow> Client \<Rightarrow> time option \<Rightarrow> time \<Rightarrow> time \<Rightarrow>
   bool \<Rightarrow> bool \<Rightarrow> (bytes \<Rightarrow> bytes) \<Rightarrow> bytes \<Rightarrow> bytes \<Rightarrow> call_error + bytes" where
  "Call enc dec c ctxDeadline now1 now2 gotToken dialOk peer op param =
     (if \<not> IsKnownOp op then Inl (UnknownOp op)
      else if cl_sem c \<noteq> None \<and> \<not> gotToken then Inl CtxErr
      else if \<not> dialOk then Inl DialErr
      else
        (case WriteFrame enc \<lparr>w_out = [], w_room = None\<rparr>
                \<lparr>req_op = op, req_param = param, req_deadline_ms = deadline_ms ctxDeadline now1 now2\<rparr> of
           (w, Some e) \<Rightarrow> Inl (WriteErr e)
         | (w, None) \<Rightarrow>
             (case ReadFrameWithCap dec (peer (w_out w)) MaxResponseFrame of
                (Inl e, _) \<Rightarrow> Inl (ReadErr e)
              | (Inr resp, _) \<Rightarrow> response_result c resp)))"

definition CallJSON :: "(bytes \<Rightarrow> 'v option) \<Rightarrow> call_error + bytes \<Rightarrow> call_error + 'v" where
  "CallJSON unmarshal res =
     (case res of
        Inl e \<Rightarrow> Inl e
      | Inr data \<Rightarrow> (case unmarshal data of None \<Rightarrow> Inl UnmarshalErr | Some v \<Rightarrow> Inr v))"

subsection \<open>Errors towards the caller\<close>

definition HelperError_Error :: "HelperError \<Rightarrow> bytes" where
  "HelperError_Error e =
     (if he_Message e \<noteq> [] then ''helper: '' @ he_Code e @ '': '' @ he_Message e else ''helper: '' @ he_Code e)"

definition AsOpError :: "HelperError \<Rightarrow> HelperOpError" where
  "AsOpError e =
     (let prefix = (case he_redactor e of None \<Rightarrow> he_StderrPrefix e | Some f \<Rightarrow> Redact f (he_StderrPrefix e));
          msg = Paths (he_Message e)
      in \<lparr>hoe_op = [], hoe_code = he_Code e, hoe_message = BoundMessage msg, hoe_argv = he_Argv e,
          hoe_exit_code = he_ToolExit e, hoe_stderr_sha256 = he_StderrSHA256 e, hoe_stderr_prefix = prefix\<rparr>)"

text \<open>An error of a tool: it wraps a helper error, or it is another one with its text.\<close>

datatype go_error = WrapsHelper HelperError | OtherError bytes

definition OpErrorFrom :: "go_error option \<Rightarrow> HelperOpError option" where
  "OpErrorFrom err =
     (case err of
        None \<Rightarrow> None
      | Some (WrapsHelper he) \<Rightarrow> Some (AsOpError he)
      | Some (OtherError text) \<Rightarrow>
          Some \<lparr>hoe_op = [], hoe_code = ''tool_failed'', hoe_message = BoundMessage (Paths text), hoe_argv = [],
            hoe_exit_code = None, hoe_stderr_sha256 = [], hoe_stderr_prefix = []\<rparr>)"

definition CodeOf :: "go_error option \<Rightarrow> bytes" where
  "CodeOf err = (case err of Some (WrapsHelper he) \<Rightarrow> he_Code he | _ \<Rightarrow> ''tool_failed'')"

subsection \<open>Properties\<close>

lemma ceil_ms:
  fixes ns :: int
  assumes "0 < ns" and "ns < 2 ^ 62"
  shows "ns \<le> int64 (ns + Millisecond - 1) div Millisecond * Millisecond"
    and "int64 (ns + Millisecond - 1) div Millisecond * Millisecond < ns + Millisecond"
    and "1 \<le> int64 (ns + Millisecond - 1) div Millisecond"
proof -
  have i: "int64 (ns + Millisecond - 1) = ns + Millisecond - 1"
    using assms by (intro int64_id) simp_all
  have "(ns + Millisecond - 1) div Millisecond * Millisecond + (ns + Millisecond - 1) mod Millisecond = ns + Millisecond - 1"
    by (rule div_mult_mod_eq)
  moreover have "0 \<le> (ns + Millisecond - 1) mod Millisecond" "(ns + Millisecond - 1) mod Millisecond < Millisecond"
    by simp_all
  ultimately show a: "ns \<le> int64 (ns + Millisecond - 1) div Millisecond * Millisecond"
    and "int64 (ns + Millisecond - 1) div Millisecond * Millisecond < ns + Millisecond"
    unfolding i by linarith+
  show "1 \<le> int64 (ns + Millisecond - 1) div Millisecond"
  proof (rule ccontr)
    assume "\<not> 1 \<le> int64 (ns + Millisecond - 1) div Millisecond"
    then have "int64 (ns + Millisecond - 1) div Millisecond * Millisecond \<le> 0"
      by (simp add: mult_le_0_iff)
    with a assms(1) show False by linarith
  qed
qed

lemma deadline_ms_bounds:
  assumes "d - now2 < 2 ^ 62" and "now1 \<le> now2"
  shows "1 \<le> deadline_ms (Some d) now1 now2"
    and "now2 < d - 500 * Millisecond \<Longrightarrow>
      d - 500 * Millisecond \<le> now2 + deadline_ms (Some d) now1 now2 * Millisecond \<and>
      now2 + deadline_ms (Some d) now1 now2 * Millisecond < d - 499 * Millisecond"
proof -
  let ?ns = "socket_deadline d now1 - now2"
  have n: "?ns < 2 ^ 62" using assms(1) by (auto simp: socket_deadline_def Let_def HelperDeadlineBudget_def)
  show "1 \<le> deadline_ms (Some d) now1 now2"
    using ceil_ms(3) [OF _ n] by (simp add: deadline_ms_def Let_def)
  assume r: "now2 < d - 500 * Millisecond"
  then have s: "?ns = d - 500 * Millisecond - now2" "0 < ?ns"
    using assms(2) by (simp_all add: socket_deadline_def HelperDeadlineBudget_def)
  then show "d - 500 * Millisecond \<le> now2 + deadline_ms (Some d) now1 now2 * Millisecond \<and>
      now2 + deadline_ms (Some d) now1 now2 * Millisecond < d - 499 * Millisecond"
    using ceil_ms(1,2) [OF s(2) n] by (simp add: deadline_ms_def Let_def)
qed



text \<open>
  Whatever error a tool surfaces, the block that leaves the daemon has a message of at most
  200 bytes cut from a text without absolute paths, and, for an error of a configured client, a
  standard-error prefix in which every token is a placeholder or safe under the operator's rules.
\<close>

theorem op_error_scrubbed:
  assumes "OpErrorFrom (Some err) = Some b"
  shows "length (hoe_message b) \<le> 200 \<and> (\<exists>m. \<not> has_path True m \<and> hoe_message b = BoundMessage m) \<and>
    (\<forall>f. (\<exists>he. err = WrapsHelper he \<and> he_redactor he = Some f) \<longrightarrow>
      (\<forall>t \<in> set (Fields (hoe_stderr_prefix b)). t = placeholder \<or> tokenSafe f t))"
proof -
  have p: "\<not> has_path True (Paths m)" for m
    using paths_go_no_path [of True m] by (auto simp: Paths_def)
  have l: "length (BoundMessage m) \<le> 200" for m
    using BoundMessage_length [of m] by (simp add: MaxMessageLen_def)
  have r: "t \<in> set (Fields (Redact f s)) \<Longrightarrow> t = placeholder \<or> tokenSafe f t" for t f s
    by (auto simp: Fields_Redact)
  show ?thesis
  proof (cases err)
    case (WrapsHelper he)
    with assms have b: "b = AsOpError he" by (simp add: OpErrorFrom_def)
    have "hoe_message b = BoundMessage (Paths (he_Message he))" by (simp add: b AsOpError_def Let_def)
    moreover have "he_redactor he = Some f \<Longrightarrow> hoe_stderr_prefix b = Redact f (he_StderrPrefix he)" for f
      by (simp add: b AsOpError_def Let_def)
    ultimately show ?thesis using p l r WrapsHelper by fastforce
  next
    case (OtherError m)
    with assms have "hoe_message b = BoundMessage (Paths m)" by (auto simp: OpErrorFrom_def)
    then show ?thesis using p l OtherError by auto
  qed
qed

definition sample_helper_error :: HelperError where
  "sample_helper_error = \<lparr>he_Code = ''tool_failed'', he_Message = ''open /etc/shadow: denied'', he_StderrBytes = 5,
     he_StderrSHA256 = [], he_StderrPrefix = ''cannot open'', he_ToolExit = Some 1, he_Argv = [], he_redactor = Some sample_rules\<rparr>"

theorem op_error_scrubbed_witness:
  "length (hoe_message (AsOpError sample_helper_error)) \<le> 200 \<and>
    (\<exists>m. \<not> has_path True m \<and> hoe_message (AsOpError sample_helper_error) = BoundMessage m) \<and>
    list_all (\<lambda>t. t = placeholder \<or> tokenSafe sample_rules t) (Fields (hoe_stderr_prefix (AsOpError sample_helper_error)))"
  using op_error_scrubbed [of "WrapsHelper sample_helper_error" "AsOpError sample_helper_error"]
  by (simp add: OpErrorFrom_def list_all_iff sample_helper_error_def)

end
