(* ===== verification/Linescan.thy ===== *)
theory Linescan
  imports GoConv
begin

text \<open>
  \<^verbatim>\<open>daemon/internal/shared/linescan\<close>: the line scanner every parser of the program reads its
  input through. \<^verbatim>\<open>bufio.Scanner\<close> with \<^verbatim>\<open>ScanLines\<close> is modelled on a whole input and the error
  its reader ends with: a line is looked for in a buffer that may grow to \<open>MaxLine\<close> bytes, and a
  buffer that is full without a line feed ends the scan.
\<close>

definition InitialBuffer :: nat where
  "InitialBuffer = 64 * 1024"

definition MaxLine :: nat where
  "MaxLine = 1048576"

datatype scan_error = ErrTooLong | ReadError bytes

record Scanner =
  sc_input :: bytes
  sc_readerr :: "bytes option"
  sc_max :: nat
  sc_what :: bytes

definition linescan_New :: "bytes \<Rightarrow> bytes option \<Rightarrow> bytes \<Rightarrow> Scanner" where
  "linescan_New inp readerr what =
     \<lparr>sc_input = inp, sc_readerr = readerr, sc_max = max InitialBuffer MaxLine, sc_what = what\<rparr>"

text \<open>\<^verbatim>\<open>bufio.dropCR\<close>.\<close>

definition drop_cr :: "bytes \<Rightarrow> bytes" where
  "drop_cr l = (if l \<noteq> [] \<and> last l = CHR 0x0D then butlast l else l)"

text \<open>The tokens and whether the scan ended because a line did not fit.\<close>

function scan_lines :: "nat \<Rightarrow> bytes \<Rightarrow> bytes list \<times> bool" where
  "scan_lines m s =
     (let l = takeWhile (\<lambda>c. c \<noteq> CHR 0x0A) s;
          r = dropWhile (\<lambda>c. c \<noteq> CHR 0x0A) s
      in if m \<le> length l then ([], True)
         else case r of
                [] \<Rightarrow> (if l = [] then [] else [drop_cr l], False)
              | _ # rest \<Rightarrow> (let (ts, tl) = scan_lines m rest in (drop_cr l # ts, tl)))"
  by pat_completeness auto
termination
proof (relation "measure (\<lambda>(m, s). length s)", goal_cases)
  case 1
  then show ?case by simp
next
  case (2 m s l r c rest)
  have "length (dropWhile (\<lambda>c. c \<noteq> CHR 0x0A) s) \<le> length s" by (rule length_dropWhile_le)
  moreover have "length (dropWhile (\<lambda>c. c \<noteq> CHR 0x0A) s) = Suc (length rest)" using 2 by (metis length_Cons)
  ultimately show ?case by simp
qed

declare scan_lines.simps [simp del]

definition Lines :: "Scanner \<Rightarrow> bytes list" where
  "Lines sc = fst (scan_lines (sc_max sc) (sc_input sc))"

definition bufio_Err :: "Scanner \<Rightarrow> scan_error option" where
  "bufio_Err sc =
     (if snd (scan_lines (sc_max sc) (sc_input sc)) then Some ErrTooLong
      else map_option ReadError (sc_readerr sc))"

definition linescan_Err :: "Scanner \<Rightarrow> bytes option" where
  "linescan_Err sc =
     (case bufio_Err sc of
        None \<Rightarrow> None
      | Some ErrTooLong \<Rightarrow>
          Some (sc_what sc @ '': line exceeds '' @ itoa (int MaxLine) @
            '' bytes; output truncated and any count from it is incomplete'')
      | Some (ReadError e) \<Rightarrow> Some (sc_what sc @ '': '' @ e))"

subsection \<open>No silent truncation\<close>

abbreviation terminated :: "bytes list \<Rightarrow> bytes" where
  "terminated ls \<equiv> concat (map (\<lambda>l. l @ [CHR 0x0A]) ls)"

lemma scan_lines_line:
  assumes "CHR 0x0A \<notin> set l"
  shows "scan_lines m (l @ CHR 0x0A # rest) =
    (if m \<le> length l then ([], True)
     else (drop_cr l # fst (scan_lines m rest), snd (scan_lines m rest)))"
proof -
  have "takeWhile (\<lambda>c. c \<noteq> CHR 0x0A) (l @ CHR 0x0A # rest) = l"
    using assms by (subst takeWhile_append2) auto
  moreover have "dropWhile (\<lambda>c. c \<noteq> CHR 0x0A) (l @ CHR 0x0A # rest) = CHR 0x0A # rest"
    using assms by (subst dropWhile_append2) auto
  ultimately show ?thesis by (subst scan_lines.simps) (simp add: split_beta)
qed

lemma scan_lines_last:
  assumes "CHR 0x0A \<notin> set l"
  shows "scan_lines m l =
    (if m \<le> length l then ([], True) else (if l = [] then [] else [drop_cr l], False))"
proof -
  have t: "takeWhile (\<lambda>c. c \<noteq> CHR 0x0A) l = l" and d: "dropWhile (\<lambda>c. c \<noteq> CHR 0x0A) l = []"
    using assms by (auto simp: takeWhile_eq_all_conv dropWhile_eq_Nil_conv)
  show ?thesis by (subst scan_lines.simps) (simp only: t d Let_def list.case)
qed

lemma scan_lines_spec:
  assumes "\<forall>l \<in> set (ls @ [l']). CHR 0x0A \<notin> set l"
  shows "scan_lines m (terminated ls @ l') =
    (let short = (\<lambda>l. length l < m)
     in if list_all short (ls @ [l'])
        then (map drop_cr ls @ (if l' = [] then [] else [drop_cr l']), False)
        else (map drop_cr (takeWhile short ls), True))"
  using assms
proof (induction ls)
  case Nil
  then show ?case by (simp add: scan_lines_last)
next
  case (Cons l ls)
  then show ?case by (auto simp: scan_lines_line Let_def)
qed

text \<open>
  C18: An input made of any lines is either delivered completely, one token per line, with no
  error of the scanner's own; or some line has a megabyte or more, and then the tokens are
  exactly the lines before the first such line and \<^verbatim>\<open>Err\<close> reports it. A count taken from the
  tokens is never wrong without an error.
\<close>

theorem scan_complete_or_error:
  assumes "\<forall>l \<in> set (ls @ [l']). CHR 0x0A \<notin> set l"
    and "sc = linescan_New (terminated ls @ l') readerr what"
  shows "if list_all (\<lambda>l. length l < 1048576) (ls @ [l'])
    then Lines sc = map drop_cr ls @ (if l' = [] then [] else [drop_cr l']) \<and>
         linescan_Err sc = map_option (\<lambda>e. what @ '': '' @ e) readerr
    else Lines sc = map drop_cr (takeWhile (\<lambda>l. length l < 1048576) ls) \<and> linescan_Err sc \<noteq> None"
  using assms(2) scan_lines_spec [OF assms(1), of MaxLine]
  by (auto simp: Lines_def linescan_Err_def bufio_Err_def linescan_New_def InitialBuffer_def MaxLine_def Let_def
      split: option.splits)

theorem scan_complete_or_error_witness:
  "if list_all (\<lambda>l. length l < 1048576) ([''ab'', [CHR 0x0D]] @ [''c''])
    then Lines (linescan_New (terminated [''ab'', [CHR 0x0D]] @ ''c'') None ''f'') =
           map drop_cr [''ab'', [CHR 0x0D]] @ (if ''c'' = [] then [] else [drop_cr ''c'']) \<and>
         linescan_Err (linescan_New (terminated [''ab'', [CHR 0x0D]] @ ''c'') None ''f'') = map_option (\<lambda>e. ''f'' @ '': '' @ e) None
    else Lines (linescan_New (terminated [''ab'', [CHR 0x0D]] @ ''c'') None ''f'') =
           map drop_cr (takeWhile (\<lambda>l. length l < 1048576) [''ab'', [CHR 0x0D]]) \<and>
         linescan_Err (linescan_New (terminated [''ab'', [CHR 0x0D]] @ ''c'') None ''f'') \<noteq> None"
  by (rule scan_complete_or_error) simp_all

text \<open>
  The longest line that is accepted has one byte less than \<^verbatim>\<open>MaxLine\<close>: a line of exactly
  \<^verbatim>\<open>MaxLine\<close> bytes, alone in its input, gives no token and an error.
\<close>

theorem max_line_rejected:
  assumes "CHR 0x0A \<notin> set l" and "length l = MaxLine"
  shows "Lines (linescan_New l None what) = [] \<and> linescan_Err (linescan_New l None what) \<noteq> None"
  using assms scan_lines_last [OF assms(1), of MaxLine]
  by (simp add: Lines_def linescan_Err_def bufio_Err_def linescan_New_def InitialBuffer_def MaxLine_def)

theorem max_line_rejected_witness:
  "Lines (linescan_New (replicate MaxLine CHR ''a'') None ''f'') = [] \<and>
    linescan_Err (linescan_New (replicate MaxLine CHR ''a'') None ''f'') \<noteq> None"
  by (rule max_line_rejected) simp_all

end
