(* ===== verification/CapsPlan.thy ===== *)
theory CapsPlan
  imports Linescan
begin

text \<open>
  Which Linux capabilities the root helper gets and how it sees what it got:
  \<^verbatim>\<open>daemon/internal/shared/capsplan\<close> (the rules), \<^verbatim>\<open>daemon/internal/helper/ops/required_caps.go\<close>
  (what the operations need) and \<^verbatim>\<open>daemon/internal/helper/caps\<close> (reading the effective set).
  Go's maps of known names are sets; where the code ranges over one the list is an iteration
  order.
\<close>

subsection \<open>Names\<close>

definition capChown :: bytes where "capChown = ''CAP_CHOWN''"
definition capDACReadSearch :: bytes where "capDACReadSearch = ''CAP_DAC_READ_SEARCH''"
definition capNetAdmin :: bytes where "capNetAdmin = ''CAP_NET_ADMIN''"
definition capSysRawIO :: bytes where "capSysRawIO = ''CAP_SYS_RAWIO''"
definition capSysAdmin :: bytes where "capSysAdmin = ''CAP_SYS_ADMIN''"
definition capAuditControl :: bytes where "capAuditControl = ''CAP_AUDIT_CONTROL''"

lemmas cap_names = capChown_def capDACReadSearch_def capNetAdmin_def capSysRawIO_def
  capSysAdmin_def capAuditControl_def

definition DefaultBackends :: "bytes list" where
  "DefaultBackends = [''smart'', ''lvm'', ''mdraid'']"

definition knownBackends :: "bytes list" where
  "knownBackends = [''smart'', ''lvm'', ''mdraid'', ''zfs'', ''btrfs'']"

definition knownTools :: "bytes list" where
  "knownTools =
     [''manifest'', ''system'', ''pressure'', ''kernel'', ''sockets'', ''updates'', ''storage'',
      ''systemd_units'', ''dns'', ''mail'', ''certs'', ''backup'', ''sensors'', ''network'',
      ''security'', ''firewall'', ''firewall_lookup'', ''logs'', ''workload'']"

definition KnownPlugins :: "bytes list" where
  "KnownPlugins = [''postfix'', ''nginx_apache'', ''wireguard'', ''dovecot'']"

subsection \<open>The plan\<close>

datatype plan_note = BackendsDefaulted bytes

datatype plan_warning = UnknownBackend bytes | UnknownTool bytes | UnknownPlugin bytes

record Plan =
  Bounding :: "bytes list"
  Ambient :: "bytes list"
  Backends :: "bytes list"
  Notes :: "plan_note list"
  Warnings :: "plan_warning list"

text \<open>The insertion-ordered set: \<^verbatim>\<open>newSet\<close>, \<^verbatim>\<open>add\<close>, \<^verbatim>\<open>list\<close>.\<close>

record oset =
  seen :: "bytes \<Rightarrow> bool"
  order :: "bytes list"

definition newSet :: oset where
  "newSet = \<lparr>seen = (\<lambda>_. False), order = []\<rparr>"

definition oset_add :: "oset \<Rightarrow> bytes \<Rightarrow> oset" where
  "oset_add s v =
     (if seen s v then s else s\<lparr>seen := (seen s)(v := True), order := order s @ [v]\<rparr>)"

fun caps_Has :: "bytes list \<Rightarrow> bytes \<Rightarrow> bool" where
  "caps_Has [] want = False"
| "caps_Has (v # vs) want = (if v = want then True else caps_Has vs want)"

fun joinSpace :: "bytes list \<Rightarrow> bytes" where
  "joinSpace [] = []"
| "joinSpace (s # ss) = s @ concat (map (\<lambda>x. '' '' @ x) ss)"

definition add_if :: "bool \<Rightarrow> bytes \<Rightarrow> oset \<Rightarrow> oset" where
  "add_if b c s = (if b then oset_add s c else s)"

definition granted_caps :: "bytes list \<Rightarrow> bytes list \<Rightarrow> bytes list \<Rightarrow> oset" where
  "granted_caps tools plugins backends =
     (let caps0 = oset_add newSet capChown;
          caps1 = (if caps_Has tools ''security''
                   then oset_add (oset_add caps0 capAuditControl) capDACReadSearch else caps0);
          caps2 = (if caps_Has tools ''storage''
                   then add_if (caps_Has backends ''btrfs'') capSysAdmin
                          (add_if (caps_Has backends ''zfs'') capSysAdmin
                             (add_if (caps_Has backends ''smart'') capSysRawIO
                                (oset_add caps1 capDACReadSearch)))
                   else caps1);
          caps3 = (if caps_Has tools ''workload''
                   then add_if (caps_Has plugins ''nginx_apache'') capDACReadSearch
                          (add_if (caps_Has plugins ''wireguard'') capNetAdmin caps2)
                   else caps2);
          caps4 = add_if (caps_Has tools ''firewall'') capNetAdmin caps3
      in add_if (caps_Has tools ''firewall_lookup'') capNetAdmin caps4)"

definition caps_For :: "bytes list \<Rightarrow> bytes list \<Rightarrow> bytes list \<Rightarrow> Plan" where
  "caps_For tools plugins backends0 =
     (let backends = (if backends0 = [] then DefaultBackends else backends0);
          notes = (if backends0 = [] \<and> caps_Has tools ''storage''
                   then [BackendsDefaulted (joinSpace DefaultBackends)] else []);
          warnings =
            map UnknownBackend (filter (\<lambda>b. b \<notin> set knownBackends) backends) @
            map UnknownTool (filter (\<lambda>n. n \<notin> set knownTools) tools) @
            map UnknownPlugin (filter (\<lambda>n. n \<notin> set KnownPlugins) plugins);
          bounding = order (granted_caps tools plugins backends);
          ambient = order (foldl (\<lambda>s c. if c = capChown then s else oset_add s c) newSet bounding)
      in \<lparr>Bounding = bounding, Ambient = ambient, Backends = backends, Notes = notes,
          Warnings = warnings\<rparr>)"

definition EveryGrantableCapability :: "bytes list" where
  "EveryGrantableCapability = Bounding (caps_For knownTools KnownPlugins knownBackends)"

subsection \<open>What the operations need\<close>

definition RequiredCap :: "(bytes \<times> bytes) list" where
  "RequiredCap =
     [(''zpool_status'', ''CAP_SYS_ADMIN''), (''btrfs_scrub'', ''CAP_SYS_ADMIN''),
      (''smart_summary'', ''CAP_SYS_RAWIO''), (''read_audit_status'', ''CAP_AUDIT_CONTROL''),
      (''wireguard_show'', ''CAP_NET_ADMIN''), (''firewall_inspect'', ''CAP_NET_ADMIN''),
      (''firewall_lookup'', ''CAP_NET_ADMIN'')]"

subsection \<open>The effective set\<close>

definition cap_bits :: "(bytes \<times> nat) list" where
  "cap_bits =
     [(''CAP_CHOWN'', 0), (''CAP_DAC_READ_SEARCH'', 2), (''CAP_NET_ADMIN'', 12),
      (''CAP_SYS_RAWIO'', 17), (''CAP_SYS_ADMIN'', 21), (''CAP_AUDIT_CONTROL'', 30),
      (''CAP_AUDIT_READ'', 37)]"

record CapSet =
  cs_mask :: "64 word"
  cs_read :: bool

definition zeroCapSet :: CapSet where
  "zeroCapSet = \<lparr>cs_mask = 0, cs_read = False\<rparr>"

text \<open>The loop over the scanned lines; this scanner has the library's own 64 KiB cap.\<close>

fun status_lines :: "bytes list \<Rightarrow> CapSet" where
  "status_lines [] = zeroCapSet"
| "status_lines (l # ls) =
     (let (v, ok) = cut_prefix l ''CapEff:''
      in if \<not> ok then status_lines ls
         else case parse_uint 16 64 (trim_space v) of
                None \<Rightarrow> zeroCapSet
              | Some m \<Rightarrow> \<lparr>cs_mask = of_nat m, cs_read = True\<rparr>)"

definition ParseStatus :: "bytes \<Rightarrow> CapSet" where
  "ParseStatus s = status_lines (fst (scan_lines 65536 s))"

definition Effective :: "bytes option \<Rightarrow> CapSet" where
  "Effective status = (case status of None \<Rightarrow> zeroCapSet | Some s \<Rightarrow> ParseStatus s)"

definition capset_Has :: "CapSet \<Rightarrow> bytes \<Rightarrow> bool" where
  "capset_Has s name =
     (if \<not> cs_read s then True
      else case map_of cap_bits name of
             None \<Rightarrow> True
           | Some b \<Rightarrow> bit (cs_mask s) b)"

definition cap_Known :: "bytes \<Rightarrow> bool" where
  "cap_Known name \<longleftrightarrow> map_of cap_bits name \<noteq> None"

definition cap_name :: "nat \<Rightarrow> bytes" where
  "cap_name b =
     (case map_of (map (\<lambda>(n, b). (b, n)) cap_bits) b of
        Some n \<Rightarrow> n
      | None \<Rightarrow> ''cap_'' @ itoa (int b))"

definition capset_String :: "CapSet \<Rightarrow> bytes" where
  "capset_String s =
     (if \<not> cs_read s then ''<unreadable>''
      else
        (let out = map cap_name (filter (\<lambda>b. bit (cs_mask s) b) [0..<64])
         in if out = [] then ''<none>'' else join out '' ''))"

subsection \<open>Least privilege\<close>

lemma caps_Has_iff [simp]: "caps_Has xs x \<longleftrightarrow> x \<in> set xs"
  by (induction xs) auto

definition oset_ok :: "oset \<Rightarrow> bool" where
  [inv_defs]: "oset_ok s \<longleftrightarrow> distinct (order s) \<and> (\<forall>x. seen s x \<longleftrightarrow> x \<in> set (order s))"

lemma oset_ok_new [simp]: "oset_ok newSet"
  by (simp add: oset_ok_def newSet_def)

lemma oset_ok_add [simp]: "oset_ok s \<Longrightarrow> oset_ok (oset_add s v)"
  by (auto simp: oset_ok_def oset_add_def)

lemma oset_ok_add_if [simp]: "oset_ok s \<Longrightarrow> oset_ok (add_if b v s)"
  by (simp add: add_if_def)

lemma set_oset_add [simp]: "oset_ok s \<Longrightarrow> set (order (oset_add s v)) = insert v (set (order s))"
  by (auto simp: oset_ok_def oset_add_def)

lemma set_add_if [simp]:
  "oset_ok s \<Longrightarrow> set (order (add_if b v s)) = (if b then {v} else {}) \<union> set (order s)"
  by (simp add: add_if_def)

lemma set_newSet [simp]: "order newSet = []"
  by (simp add: newSet_def)

lemma granted_caps_ok: "oset_ok (granted_caps tools plugins backends)"
  by (simp add: granted_caps_def Let_def)

lemma set_granted_caps:
  "set (order (granted_caps tools plugins backends)) =
     {capChown} \<union>
     (if ''security'' \<in> set tools then {capAuditControl, capDACReadSearch} else {}) \<union>
     (if ''storage'' \<in> set tools then
        {capDACReadSearch} \<union> (if ''smart'' \<in> set backends then {capSysRawIO} else {}) \<union>
        (if ''zfs'' \<in> set backends \<or> ''btrfs'' \<in> set backends then {capSysAdmin} else {}) else {}) \<union>
     (if ''workload'' \<in> set tools then
        (if ''wireguard'' \<in> set plugins then {capNetAdmin} else {}) \<union>
        (if ''nginx_apache'' \<in> set plugins then {capDACReadSearch} else {}) else {}) \<union>
     (if ''firewall'' \<in> set tools \<or> ''firewall_lookup'' \<in> set tools then {capNetAdmin} else {})"
  by (simp add: granted_caps_def Let_def) auto

lemma ambient_order:
  "oset_ok s \<Longrightarrow> distinct xs \<Longrightarrow> set xs \<inter> set (order s) = {} \<Longrightarrow>
   order (foldl (\<lambda>s c. if c = capChown then s else oset_add s c) s xs) = order s @ filter (\<lambda>c. c \<noteq> capChown) xs"
proof (induction xs arbitrary: s)
  case Nil
  then show ?case by simp
next
  case (Cons x xs)
  then have "order (oset_add s x) = order s @ [x]" by (auto simp: oset_add_def oset_ok_def)
  with Cons show ?case by auto
qed

lemma For_simps:
  "Bounding (caps_For tools plugins backends) =
     order (granted_caps tools plugins (if backends = [] then DefaultBackends else backends))"
  "Ambient (caps_For tools plugins backends) =
     filter (\<lambda>c. c \<noteq> capChown) (Bounding (caps_For tools plugins backends))"
proof -
  show b: "Bounding (caps_For tools plugins backends) =
     order (granted_caps tools plugins (if backends = [] then DefaultBackends else backends))"
    by (simp add: caps_For_def Let_def)
  show "Ambient (caps_For tools plugins backends) =
     filter (\<lambda>c. c \<noteq> capChown) (Bounding (caps_For tools plugins backends))"
    using ambient_order [OF oset_ok_new, of "order (granted_caps tools plugins (if backends = [] then DefaultBackends else backends))"]
      granted_caps_ok [of tools plugins "if backends = [] then DefaultBackends else backends"]
    by (simp add: caps_For_def Let_def oset_ok_def)
qed

text \<open>
  C11: The capability plan never repeats a capability, always has \<^verbatim>\<open>CAP_CHOWN\<close> in the bounding
  set and never in the ambient set, which is otherwise the same list; and it grants each other
  capability exactly for the tools that need it: \<^verbatim>\<open>CAP_SYS_ADMIN\<close> only for storage on a declared
  ZFS or btrfs backend, \<^verbatim>\<open>CAP_SYS_RAWIO\<close> only for storage with SMART, which is the default.
\<close>

theorem plan_least_privilege:
  "let p = caps_For tools plugins backends
   in distinct (Bounding p) \<and> Ambient p = filter (\<lambda>c. c \<noteq> ''CAP_CHOWN'') (Bounding p) \<and>
      ''CAP_CHOWN'' \<in> set (Bounding p) \<and>
      (''CAP_SYS_ADMIN'' \<in> set (Bounding p) \<longleftrightarrow>
         ''storage'' \<in> set tools \<and> (''zfs'' \<in> set backends \<or> ''btrfs'' \<in> set backends)) \<and>
      (''CAP_SYS_RAWIO'' \<in> set (Bounding p) \<longleftrightarrow>
         ''storage'' \<in> set tools \<and> (''smart'' \<in> set backends \<or> backends = [])) \<and>
      (''CAP_AUDIT_CONTROL'' \<in> set (Bounding p) \<longleftrightarrow> ''security'' \<in> set tools) \<and>
      (''CAP_NET_ADMIN'' \<in> set (Bounding p) \<longleftrightarrow>
         ''firewall'' \<in> set tools \<or> ''firewall_lookup'' \<in> set tools \<or>
         ''workload'' \<in> set tools \<and> ''wireguard'' \<in> set plugins) \<and>
      (''CAP_DAC_READ_SEARCH'' \<in> set (Bounding p) \<longleftrightarrow>
         ''security'' \<in> set tools \<or> ''storage'' \<in> set tools \<or>
         ''workload'' \<in> set tools \<and> ''nginx_apache'' \<in> set plugins) \<and>
      set (Bounding p) \<subseteq> {''CAP_CHOWN'', ''CAP_SYS_ADMIN'', ''CAP_SYS_RAWIO'', ''CAP_AUDIT_CONTROL'',
        ''CAP_NET_ADMIN'', ''CAP_DAC_READ_SEARCH''}"
proof -
  have d: "distinct (order (granted_caps tools plugins b))" for b
    using granted_caps_ok [of tools plugins b] by (simp add: oset_ok_def)
  show ?thesis
    unfolding Let_def For_simps set_granted_caps
    by (intro conjI) (simp_all add: d cap_names DefaultBackends_def)
qed

text \<open>
  Enabling fewer tools, plugins or declared backends never grants a capability that the
  larger configuration does not grant.
\<close>

theorem plan_monotone:
  assumes "set tools \<subseteq> set tools'" and "set plugins \<subseteq> set plugins'"
    and "set backends \<subseteq> set backends'" and "backends \<noteq> []"
  shows "set (Bounding (caps_For tools plugins backends)) \<subseteq> set (Bounding (caps_For tools' plugins' backends'))"
proof -
  have "backends' \<noteq> []" using assms(3,4) by auto
  then show ?thesis
    using assms unfolding For_simps set_granted_caps by (simp add: subset_iff)
qed

theorem plan_monotone_witness:
  "set (Bounding (caps_For [''storage''] [] [''smart''])) \<subseteq>
   set (Bounding (caps_For [''storage'', ''logs''] [''wireguard''] [''smart'', ''zfs'']))"
  by (rule plan_monotone) simp_all

text \<open>
  Every capability an operation is listed as needing can be granted by the rules and can be
  checked at run time, and the capabilities the rules can ever grant are exactly six.
\<close>

theorem required_caps_grantable:
  "set EveryGrantableCapability = set (map snd RequiredCap) \<union> {''CAP_CHOWN'', ''CAP_DAC_READ_SEARCH''} \<and>
   list_all (\<lambda>(op, c). c \<in> set EveryGrantableCapability \<and> cap_Known c) RequiredCap"
proof -
  have e: "set EveryGrantableCapability =
      {capChown, capAuditControl, capDACReadSearch, capSysRawIO, capSysAdmin, capNetAdmin}"
    unfolding EveryGrantableCapability_def For_simps set_granted_caps
    by (simp add: knownTools_def KnownPlugins_def knownBackends_def) auto
  show ?thesis unfolding e by (auto simp: RequiredCap_def cap_names cap_Known_def cap_bits_def)
qed

subsection \<open>Reading the effective set\<close>

lemma scan_lines_terminated:
  assumes "\<forall>l \<in> set ls. CHR 0x0A \<notin> set l \<and> length l < m"
  shows "fst (scan_lines m (terminated ls @ s)) = map drop_cr ls @ fst (scan_lines m s)"
  using assms by (induction ls) (auto simp: scan_lines_line)

lemma has_prefix_drop_cr: "has_prefix (drop_cr l) p \<Longrightarrow> has_prefix l p"
  by (auto simp: drop_cr_def has_prefix_iff split: if_splits)
    (metis append_assoc append_butlast_last_id)

lemma status_lines_skip:
  "\<forall>l \<in> set ls. \<not> has_prefix l ''CapEff:'' \<Longrightarrow> status_lines (map drop_cr ls @ ts) = status_lines ts"
  by (induction ls) (auto simp: cut_prefix_def dest: has_prefix_drop_cr)

text \<open>
  Reading a process status finds the mask of its first \<^verbatim>\<open>CapEff:\<close> line, whatever precedes and
  follows that line, and then a known capability is reported present exactly when its bit is set
  in the mask; an unknown name is always reported present.
\<close>

theorem parse_status_reads_mask:
  assumes "\<forall>l \<in> set ls. CHR 0x0A \<notin> set l \<and> length l < 65536 \<and> \<not> has_prefix l ''CapEff:''"
    and "CHR 0x0A \<notin> set h" and "CHR 0x0D \<notin> set h" and "length h < 60000"
    and "parse_uint 16 64 (trim_space h) = Some m"
  shows "capset_Has (ParseStatus (terminated ls @ ''CapEff:'' @ h @ CHR 0x0A # rest)) name \<longleftrightarrow>
    (case map_of cap_bits name of None \<Rightarrow> True | Some b \<Rightarrow> bit m b)"
proof -
  let ?l = "''CapEff:'' @ h"
  have n: "CHR 0x0A \<notin> set ?l" using assms(2) by simp
  have d: "drop_cr ?l = ?l" using assms(3) by (cases h rule: rev_cases) (auto simp: drop_cr_def)
  have "scan_lines 65536 (?l @ CHR 0x0A # rest) =
      (?l # fst (scan_lines 65536 rest), snd (scan_lines 65536 rest))"
    using assms(4) by (subst scan_lines_line [OF n]) (simp only: d, simp)
  then have "fst (scan_lines 65536 (terminated ls @ ''CapEff:'' @ h @ CHR 0x0A # rest)) =
      map drop_cr ls @ ?l # fst (scan_lines 65536 rest)"
    using scan_lines_terminated [of ls 65536 "?l @ CHR 0x0A # rest"] assms(1) by simp
  then have p: "ParseStatus (terminated ls @ ''CapEff:'' @ h @ CHR 0x0A # rest) =
      \<lparr>cs_mask = of_nat m, cs_read = True\<rparr>"
    using status_lines_skip [of ls "?l # fst (scan_lines 65536 rest)"] assms(1,5)
    by (simp add: ParseStatus_def cut_prefix_def)
  have b: "b < 64" if "map_of cap_bits name = Some b" for b
    using map_of_SomeD [OF that] by (auto simp: cap_bits_def)
  have "bit (of_nat m :: 64 word) b \<longleftrightarrow> bit m b" if "b < 64" for b
    using that by (simp add: bit_of_nat_iff)
  with b show ?thesis unfolding p by (auto simp: capset_Has_def split: option.split)
qed

theorem parse_status_reads_mask_witness:
  "capset_Has (ParseStatus (terminated [''Name: x''] @ ''CapEff:'' @ '' 0000000000201004'' @ CHR 0x0A # ''Seccomp: 0'')) ''CAP_SYS_ADMIN'' \<longleftrightarrow>
    (case map_of cap_bits ''CAP_SYS_ADMIN'' of None \<Rightarrow> True | Some b \<Rightarrow> bit (2101252 :: nat) b)"
proof (rule parse_status_reads_mask)
  show "parse_uint 16 64 (trim_space '' 0000000000201004'') = Some 2101252" by code_simp
qed simp_all

end
