(* ===== verification/DaemonMain.thy ===== *)
theory DaemonMain
  imports HttpServer HelperInvoke CapsPlan
begin

text \<open>
  \<^verbatim>\<open>daemon/cmd/daemon\<close>: how the daemon is put together from its two configuration files. The
  tools are represented by what the registry and the HTTP handler use of them (name, default
  lifetime, default timeout, audited arguments), taken from the files of \<^verbatim>\<open>tools/*\<close>; the argument
  extractors of \<^verbatim>\<open>logs\<close>, \<^verbatim>\<open>firewall\<close> and \<^verbatim>\<open>firewall_lookup\<close> are given to the model, as are the
  workload plugins compiled in by build tags.
\<close>

subsection \<open>The tools\<close>

definition tool_of :: "bytes \<Rightarrow> duration \<Rightarrow> duration \<Rightarrow> Tool" where
  "tool_of n ttl timeout =
     \<lparr>tool_Name = n, tool_DefaultTTL = ttl, tool_DefaultTimeout = timeout, tool_AuditArgs = None\<rparr>"

record audit_hooks =
  ah_logs :: "bytes \<Rightarrow> (bytes \<times> bytes) list"
  ah_firewall :: "bytes \<Rightarrow> (bytes \<times> bytes) list"
  ah_firewall_lookup :: "bytes \<Rightarrow> (bytes \<times> bytes) list"

text \<open>The name, the lifetime in the cache and the timeout each tool declares.\<close>

definition system_tool :: Tool where
  [simp]: "system_tool = tool_of ''system'' (15 * Second) (3 * Second)"

definition pressure_tool :: Tool where
  [simp]: "pressure_tool = tool_of ''pressure'' (15 * Second) (1 * Second)"

definition kernel_tool :: Tool where
  [simp]: "kernel_tool = tool_of ''kernel'' (60 * Second) (1 * Second)"

definition sockets_tool :: Tool where
  [simp]: "sockets_tool = tool_of ''sockets'' (30 * Second) (1 * Second)"

definition updates_tool :: Tool where
  [simp]: "updates_tool = tool_of ''updates'' (60 * Second) (8 * Second)"

definition storage_tool :: Tool where
  [simp]: "storage_tool = tool_of ''storage'' (60 * Second) (10 * Second)"

definition systemd_units_tool :: Tool where
  [simp]: "systemd_units_tool = tool_of ''systemd_units'' (15 * Second) (3 * Second)"

definition dns_tool :: Tool where
  [simp]: "dns_tool = tool_of ''dns'' (30 * Second) (3 * Second)"

definition mail_tool :: Tool where
  [simp]: "mail_tool = tool_of ''mail'' (60 * Second) (3 * Second)"

definition certs_tool :: Tool where
  [simp]: "certs_tool = tool_of ''certs'' (300 * Second) (3 * Second)"

definition backup_tool :: Tool where
  [simp]: "backup_tool = tool_of ''backup'' (300 * Second) (2 * Second)"

definition sensors_tool :: Tool where
  [simp]: "sensors_tool = tool_of ''sensors'' (15 * Second) (2 * Second)"

definition network_tool :: Tool where
  [simp]: "network_tool = tool_of ''network'' (30 * Second) (2 * Second)"

definition security_tool :: Tool where
  [simp]: "security_tool = tool_of ''security'' (60 * Second) (5 * Second)"

definition firewall_tool :: "audit_hooks \<Rightarrow> Tool" where
  [simp]: "firewall_tool h = (tool_of ''firewall'' (30 * Second) (6 * Second))\<lparr>tool_AuditArgs := Some (ah_firewall h)\<rparr>"

definition firewall_lookup_tool :: "audit_hooks \<Rightarrow> Tool" where
  [simp]: "firewall_lookup_tool h = (tool_of ''firewall_lookup'' (30 * Second) (6 * Second))\<lparr>tool_AuditArgs := Some (ah_firewall_lookup h)\<rparr>"

definition logs_tool :: "audit_hooks \<Rightarrow> Tool" where
  [simp]: "logs_tool h = (tool_of ''logs'' (15 * Second) (5 * Second))\<lparr>tool_AuditArgs := Some (ah_logs h)\<rparr>"

text \<open>In the order the command registers them; \<^verbatim>\<open>workload\<close> and \<^verbatim>\<open>manifest\<close> come after checks.\<close>

definition host_tools :: "audit_hooks \<Rightarrow> Tool list" where
  "host_tools h =
     [system_tool, pressure_tool, kernel_tool, sockets_tool, updates_tool, storage_tool,
      systemd_units_tool, dns_tool, mail_tool, certs_tool, backup_tool, sensors_tool, network_tool,
      security_tool, firewall_tool h, firewall_lookup_tool h, logs_tool h]"

definition workload_tool :: Tool where
  "workload_tool = tool_of ''workload'' (30 * Second) (5 * Second)"

definition manifest_tool :: Tool where
  "manifest_tool = tool_of ''manifest'' (60 * Second) (1 * Second)"

subsection \<open>Start-up\<close>

datatype startup_error =
    BadDaemonConfig config_error
  | PublicBind bytes
  | BadManifest config_error
  | BadRules rule_error
  | PluginNotCompiledIn bytes
  | BadToolNames bytes
  | UnknownEnabledTools "bytes list"
  | RegistryPanic bytes

record startup_env =
  se_readfile :: "bytes \<Rightarrow> file_read"
  se_decodeDaemon :: "bytes \<Rightarrow> Daemon \<Rightarrow> Daemon \<times> decode_error option"
  se_decodeManifest :: "bytes \<Rightarrow> Manifest \<Rightarrow> Manifest \<times> decode_error option"
  se_stat :: "bytes \<Rightarrow> os_error + int"
  se_readrules :: "bytes \<Rightarrow> os_error + bytes"
  se_decodeRules :: "bytes \<Rightarrow> yaml_result"
  se_compileRegexp :: "bytes \<Rightarrow> (bytes \<Rightarrow> bool) option"
  se_hostname :: "bytes option"
  se_compiledIn :: "bytes list"
  se_hooks :: audit_hooks
  se_now :: time

record running =
  rn_http :: http_config
  rn_state :: http_state
  rn_client :: Client
  rn_enforced :: "bytes set"
  rn_manifest :: Manifest

text \<open>The redaction rules: ranges that do not parse are left out.\<close>

definition redact_rules :: "Daemon \<Rightarrow> (bytes \<Rightarrow> bool) list \<Rightarrow> Rules" where
  "redact_rules cfg scrub =
     \<lparr>IPv4Allow = List.map_filter ParsePrefix (d_IPv4AllowlistRanges cfg),
      IPv6Allow = List.map_filter ParsePrefix (d_IPv6AllowlistRanges cfg),
      SensitiveDirs = d_SensitiveDirs cfg, ScrubPatterns = scrub\<rparr>"

text \<open>\<^verbatim>\<open>errors.Is(err, os.ErrNotExist)\<close> on the loader's error.\<close>

definition rule_file_absent :: "rule_error \<Rightarrow> bool" where
  "rule_file_absent e \<longleftrightarrow> e = RuleStat NotExist \<or> e = RuleRead NotExist"

definition scrub_patterns :: "rule_error + (bytes \<Rightarrow> bool) list \<Rightarrow> rule_error + (bytes \<Rightarrow> bool) list" where
  "scrub_patterns r =
     (case r of Inl e \<Rightarrow> if rule_file_absent e then Inr [] else Inl e | Inr ps \<Rightarrow> Inr ps)"

definition global_bucket :: BucketCfg where
  "global_bucket = \<lparr>SustainedPerMin = 30, Burst = 10, Disabled = False\<rparr>"

definition per_tool_buckets :: "Daemon \<Rightarrow> (bytes \<rightharpoonup> BucketCfg)" where
  "per_tool_buckets cfg =
     map_of (map (\<lambda>(t, b). (t, \<lparr>SustainedPerMin = bl_SustainedPerMin b, Burst = bl_Burst b,
       Disabled = bucket_disabled b\<rparr>)) (d_ExpensiveToolBuckets cfg))"

text \<open>The tools the manifest enables, or its unknown names; no entry means all of them.\<close>

definition resolve_enabled :: "bytes set \<Rightarrow> bytes list \<Rightarrow> bytes list + bytes set" where
  "resolve_enabled registered enabled =
     (if enabled \<noteq> [] then
        (let unknown = filter (\<lambda>n. n \<notin> registered) enabled
         in if unknown \<noteq> [] then Inl unknown else Inr (insert ''manifest'' (set enabled)))
      else Inr registered)"

definition register_tools :: "tool_registry \<Rightarrow> Tool list \<Rightarrow> startup_error + tool_registry" where
  "register_tools r ts =
     (case register_all RegisterTool r ts of Panic m \<Rightarrow> Inl (RegistryPanic m) | Ret r' \<Rightarrow> Inr r')"

definition daemon_main :: "startup_env \<Rightarrow> bytes \<Rightarrow> startup_error + running" where
  "daemon_main env cfgPath =
     (case LoadDaemon (se_readfile env) (se_decodeDaemon env) cfgPath of
        Inl e \<Rightarrow> Inl (BadDaemonConfig e)
      | Inr cfg \<Rightarrow>
          if BindAddrIsPublic cfg \<and> \<not> d_PublicBindAcknowledged cfg then Inl (PublicBind (d_BindAddr cfg))
          else case LoadManifest (se_readfile env) (se_decodeManifest env) (d_ManifestPath cfg) of
            Inl e \<Rightarrow> Inl (BadManifest e)
          | Inr m \<Rightarrow>
            (case scrub_patterns (LoadRuleFile (se_stat env) (se_readrules env) (se_decodeRules env)
                    (se_compileRegexp env) (d_LogRedactionRules cfg)) of
               Inl e \<Rightarrow> Inl (BadRules e)
             | Inr scrub \<Rightarrow>
               (case register_tools NewTools (host_tools (se_hooks env)) of
                  Inl e \<Rightarrow> Inl e
                | Inr reg1 \<Rightarrow>
                  (case find (\<lambda>n. n \<notin> set (se_compiledIn env)) (m_WorkloadPlugins m) of
                     Some n \<Rightarrow> Inl (PluginNotCompiledIn n)
                   | None \<Rightarrow>
                     (case register_tools reg1 [workload_tool] of
                        Inl e \<Rightarrow> Inl e
                      | Inr reg2 \<Rightarrow>
                        (let registered = insert ''manifest'' (Names reg2)
                         in case ValidateToolNames (\<lambda>n. n \<in> registered) cfg of
                              Some e \<Rightarrow> Inl (BadToolNames e)
                            | None \<Rightarrow>
                              (case resolve_enabled registered (m_EnabledTools m) of
                                 Inl ns \<Rightarrow> Inl (UnknownEnabledTools ns)
                               | Inr enabled \<Rightarrow>
                                 (case register_tools reg2 [manifest_tool] of
                                    Inl e \<Rightarrow> Inl e
                                  | Inr reg3 \<Rightarrow>
                                    Inr \<lparr>rn_http = \<lparr>hc_daemon = cfg,
                                            hc_host = (case se_hostname env of None \<Rightarrow> ''unknown'' | Some h \<Rightarrow> h),
                                            hc_registry = reg3, hc_enabled = enabled\<rparr>,
                                         rn_state = \<lparr>hs_cache = NewCache,
                                            hs_limiter = NewLimiter global_bucket (per_tool_buckets cfg) (se_now env),
                                            hs_audit = []\<rparr>,
                                         rn_client = NewClient (d_HelperSocketPath cfg) 8 (Some (redact_rules cfg scrub)),
                                         rn_enforced = enabled, rn_manifest = m\<rparr>))))))))"

subsection \<open>What a running daemon is made of\<close>

lemma Names_eq: "Names r = {n. LookupTool r n \<noteq> None}"
  by (auto simp: Names_def LookupTool_def)

lemma register_tools_ok:
  assumes "register_tools r ts = Inr r'"
  shows "LookupTool r' = LookupTool r ++ map_of (map (\<lambda>t. (tool_Name t, t)) ts)"
proof
  fix n
  show "LookupTool r' n = (LookupTool r ++ map_of (map (\<lambda>t. (tool_Name t, t)) ts)) n"
    using assms tool_table.register_all_lookup [of r ts r' n]
    by (simp add: register_tools_def map_add_def split: go.splits)
qed

lemma register_tools_Names: "register_tools r ts = Inr r' \<Longrightarrow> Names r' = set (map tool_Name ts) \<union> Names r"
proof -
  assume "register_tools r ts = Inr r'"
  then have "dom (LookupTool r') = dom (LookupTool r ++ map_of (map (\<lambda>t. (tool_Name t, t)) ts))"
    by (simp only: register_tools_ok)
  moreover have "dom (LookupTool q) = Names q" for q by (auto simp: Names_eq)
  ultimately show ?thesis by (simp add: dom_map_of_conv_image_fst image_image)
qed

lemma host_tools_names:
  "set (map tool_Name (host_tools h)) \<union> {''workload'', ''manifest''} = set knownTools"
proof -
  have "map tool_Name (host_tools h) =
      [''system'', ''pressure'', ''kernel'', ''sockets'', ''updates'', ''storage'', ''systemd_units'', ''dns'', ''mail'',
       ''certs'', ''backup'', ''sensors'', ''network'', ''security'', ''firewall'', ''firewall_lookup'', ''logs'']"
    by (simp add: host_tools_def tool_of_def)
  moreover have "set [''system'', ''pressure'', ''kernel'', ''sockets'', ''updates'', ''storage'', ''systemd_units'', ''dns'', ''mail'',
       ''certs'', ''backup'', ''sensors'', ''network'', ''security'', ''firewall'', ''firewall_lookup'', ''logs''] \<union>
       {''workload'', ''manifest''} = set knownTools"
    by code_simp
  ultimately show ?thesis by simp
qed

lemma daemon_main_cases:
  assumes "daemon_main env p = Inr rn"
  obtains cfg m scrub reg1 reg2 reg3 enabled where
    "LoadDaemon (se_readfile env) (se_decodeDaemon env) p = Inr cfg"
    "\<not> (BindAddrIsPublic cfg \<and> \<not> d_PublicBindAcknowledged cfg)"
    "LoadManifest (se_readfile env) (se_decodeManifest env) (d_ManifestPath cfg) = Inr m"
    "scrub_patterns (LoadRuleFile (se_stat env) (se_readrules env) (se_decodeRules env) (se_compileRegexp env)
       (d_LogRedactionRules cfg)) = Inr scrub"
    "register_tools NewTools (host_tools (se_hooks env)) = Inr reg1"
    "find (\<lambda>n. n \<notin> set (se_compiledIn env)) (m_WorkloadPlugins m) = None"
    "register_tools reg1 [workload_tool] = Inr reg2"
    "ValidateToolNames (\<lambda>n. n \<in> insert ''manifest'' (Names reg2)) cfg = None"
    "resolve_enabled (insert ''manifest'' (Names reg2)) (m_EnabledTools m) = Inr enabled"
    "register_tools reg2 [manifest_tool] = Inr reg3"
    "hc_daemon (rn_http rn) = cfg" "hc_registry (rn_http rn) = reg3" "hc_enabled (rn_http rn) = enabled"
    "rn_manifest rn = m" "hs_limiter (rn_state rn) = NewLimiter global_bucket (per_tool_buckets cfg) (se_now env)"
    "cl_redactor (rn_client rn) = Some (redact_rules cfg scrub)"
  using assms unfolding daemon_main_def Let_def
  by (auto simp: NewClient_def split: sum.splits option.splits if_splits)

lemma LoadDaemon_valid: "LoadDaemon rf dec p = Inr cfg \<Longrightarrow> Validate cfg = None"
  by (auto simp: LoadDaemon_def split: sum.splits option.splits)

lemma map_filter_all: "list_all (\<lambda>x. f x \<noteq> None) xs \<Longrightarrow> map Some (List.map_filter f xs) = map f xs"
  by (induction xs) (auto simp: List.map_filter_simps)

lemma ValidateToolNames_None:
  "ValidateToolNames reg d = None \<Longrightarrow> t \<in> fst ` set (d_ExpensiveToolBuckets d) \<Longrightarrow> reg t"
  by (auto simp: ValidateToolNames_def unknown_tools_def Let_def filter_empty_conv split: if_splits)

lemma resolve_enabled_ok:
  assumes "resolve_enabled reg en = Inr s" and "''manifest'' \<in> reg"
  shows "s \<subseteq> reg \<and> ''manifest'' \<in> s \<and> (if en = [] then s = reg else s = insert ''manifest'' (set en))"
  using assms by (auto simp: resolve_enabled_def Let_def filter_empty_conv split: if_splits)

lemma running_registry:
  assumes "register_tools NewTools (host_tools h) = Inr reg1" "register_tools reg1 [workload_tool] = Inr reg2"
  shows "insert ''manifest'' (Names reg2) = set knownTools"
    and "register_tools reg2 [manifest_tool] = Inr reg3 \<Longrightarrow> Names reg3 = set knownTools"
proof -
  have w: "tool_Name workload_tool = ''workload''" "tool_Name manifest_tool = ''manifest''"
    by (simp_all add: workload_tool_def manifest_tool_def tool_of_def)
  have "Names NewTools = {}" by (auto simp: Names_eq tool_table.lookup_empty)
  with register_tools_Names [OF assms(1)] register_tools_Names [OF assms(2)]
  have n2: "Names reg2 = insert ''workload'' (set (map tool_Name (host_tools h)))" by (simp add: w)
  have "insert ''manifest'' (insert ''workload'' (set (map tool_Name (host_tools h)))) = set knownTools"
    unfolding host_tools_names [of h, symmetric] by (simp only: Un_insert_right Un_empty_right insert_commute)
  then show "insert ''manifest'' (Names reg2) = set knownTools" unfolding n2 .
  then show "Names reg3 = set knownTools" if "register_tools reg2 [manifest_tool] = Inr reg3"
    using register_tools_Names [OF that] by (simp add: w)
qed

text \<open>
  C15: A daemon that starts has exactly the protocol's nineteen tools registered; it serves the
  tools the manifest names, all of them registered, and always the manifest tool, and every tool
  when the manifest names none; it is bound to a public address only when that was acknowledged;
  every per-tool limit belongs to a registered tool and is disabled or positive; every workload
  plugin is compiled in; and no allow-listed range of the configuration was dropped from the
  redaction rules.
\<close>

theorem startup_wires_configuration:
  assumes "daemon_main env p = Inr rn"
  shows "let c = rn_http rn; m = rn_manifest rn; cfg = hc_daemon c in
    Names (hc_registry c) = set knownTools \<and>
    hc_enabled c \<subseteq> Names (hc_registry c) \<and> ''manifest'' \<in> hc_enabled c \<and>
    hc_enabled c = (if m_EnabledTools m = [] then set knownTools else insert ''manifest'' (set (m_EnabledTools m))) \<and>
    (BindAddrIsPublic cfg \<longrightarrow> d_PublicBindAcknowledged cfg) \<and>
    (\<forall>t b. l_perTool (hs_limiter (rn_state rn)) t = Some b \<longrightarrow>
       t \<in> set knownTools \<and> (Disabled b \<or> 0 < Burst b \<and> 0 < SustainedPerMin b)) \<and>
    set (m_WorkloadPlugins m) \<subseteq> set (se_compiledIn env) \<and>
    (\<exists>rules. cl_redactor (rn_client rn) = Some rules \<and>
       map Some (IPv4Allow rules) = map ParsePrefix (d_IPv4AllowlistRanges cfg) \<and>
       map Some (IPv6Allow rules) = map ParsePrefix (d_IPv6AllowlistRanges cfg))"
proof (rule daemon_main_cases [OF assms])
  fix cfg m scrub reg1 reg2 reg3 enabled
  assume st: "LoadDaemon (se_readfile env) (se_decodeDaemon env) p = Inr cfg"
    "\<not> (BindAddrIsPublic cfg \<and> \<not> d_PublicBindAcknowledged cfg)"
    "register_tools NewTools (host_tools (se_hooks env)) = Inr reg1"
    "find (\<lambda>n. n \<notin> set (se_compiledIn env)) (m_WorkloadPlugins m) = None"
    "register_tools reg1 [workload_tool] = Inr reg2"
    "ValidateToolNames (\<lambda>n. n \<in> insert ''manifest'' (Names reg2)) cfg = None"
    "resolve_enabled (insert ''manifest'' (Names reg2)) (m_EnabledTools m) = Inr enabled"
    "register_tools reg2 [manifest_tool] = Inr reg3"
    and out: "hc_daemon (rn_http rn) = cfg" "hc_registry (rn_http rn) = reg3" "hc_enabled (rn_http rn) = enabled"
    "rn_manifest rn = m" "hs_limiter (rn_state rn) = NewLimiter global_bucket (per_tool_buckets cfg) (se_now env)"
    "cl_redactor (rn_client rn) = Some (redact_rules cfg scrub)"
  note reg = running_registry [OF st(3,5)]
  have v: "Validate cfg = None" by (rule LoadDaemon_valid [OF st(1)])
  have b: "t \<in> set knownTools \<and> (Disabled b \<or> 0 < Burst b \<and> 0 < SustainedPerMin b)"
    if "per_tool_buckets cfg t = Some b" for t b
  proof -
    from map_of_SomeD [OF that [unfolded per_tool_buckets_def]] obtain bl where bl: "(t, bl) \<in> set (d_ExpensiveToolBuckets cfg)"
        "b = \<lparr>SustainedPerMin = bl_SustainedPerMin bl, Burst = bl_Burst bl, Disabled = bucket_disabled bl\<rparr>"
      by auto
    then have "t \<in> set knownTools" using ValidateToolNames_None [OF st(6), of t] reg(1) by force
    moreover have "bl_Enabled bl = Some False \<or> 0 < bl_Burst bl \<and> 0 < bl_SustainedPerMin bl"
      using v bl(1) unfolding Validate_None_iff by (auto simp: list_all_iff)
    ultimately show ?thesis using bl(2) by (auto simp: bucket_disabled_def)
  qed
  have r: "list_all (\<lambda>r. ParsePrefix r \<noteq> None) (d_IPv4AllowlistRanges cfg)"
      "list_all (\<lambda>r. ParsePrefix r \<noteq> None) (d_IPv6AllowlistRanges cfg)"
    using v unfolding Validate_None_iff by auto
  have w: "set (m_WorkloadPlugins m) \<subseteq> set (se_compiledIn env)"
    using st(4) by (auto simp: find_None_iff)
  show ?thesis
    using resolve_enabled_ok [OF st(7) insertI1] reg(1) reg(2) [OF st(8)] st(2) b w map_filter_all [OF r(1)] map_filter_all [OF r(2)]
    unfolding Let_def out by (auto simp: NewLimiter_def redact_rules_def split: if_splits)
qed

definition sample_env :: startup_env where
  "sample_env =
     \<lparr>se_readfile = (\<lambda>p. Content p),
      se_decodeDaemon = (\<lambda>b d. (d\<lparr>d_BindAddr := ''127.0.0.1:8443'', d_TLSCertPath := ''c'', d_TLSKeyPath := ''k'',
        d_ClientCAPath := ''a'', d_IPv4AllowlistRanges := [''10.0.0.0/8''],
        d_ExpensiveToolBuckets := [(''logs'', \<lparr>bl_SustainedPerMin = 6, bl_Burst = 3, bl_Enabled = None\<rparr>)]\<rparr>, None)),
      se_decodeManifest = (\<lambda>b m. (m\<lparr>m_EnabledTools := [''logs'', ''system'']\<rparr>, None)),
      se_stat = (\<lambda>p. Inl NotExist), se_readrules = (\<lambda>p. Inl NotExist), se_decodeRules = (\<lambda>b. YamlEOF),
      se_compileRegexp = (\<lambda>p. None), se_hostname = Some ''web'', se_compiledIn = [''postfix''],
      se_hooks = \<lparr>ah_logs = (\<lambda>b. []), ah_firewall = (\<lambda>b. []), ah_firewall_lookup = (\<lambda>b. [])\<rparr>, se_now = 0\<rparr>"

lemma register_tools_total:
  "distinct (map tool_Name ts) \<Longrightarrow> \<forall>t \<in> set ts. LookupTool r (tool_Name t) = None \<Longrightarrow> \<exists>r'. register_tools r ts = Inr r'"
  using tool_table.register_all_total [of ts r] by (auto simp: register_tools_def)

lemma daemon_main_starts:
  assumes "LoadDaemon (se_readfile env) (se_decodeDaemon env) p = Inr cfg"
    "\<not> (BindAddrIsPublic cfg \<and> \<not> d_PublicBindAcknowledged cfg)"
    "LoadManifest (se_readfile env) (se_decodeManifest env) (d_ManifestPath cfg) = Inr m"
    "scrub_patterns (LoadRuleFile (se_stat env) (se_readrules env) (se_decodeRules env) (se_compileRegexp env)
       (d_LogRedactionRules cfg)) = Inr scrub"
    "register_tools NewTools (host_tools (se_hooks env)) = Inr reg1"
    "find (\<lambda>n. n \<notin> set (se_compiledIn env)) (m_WorkloadPlugins m) = None"
    "register_tools reg1 [workload_tool] = Inr reg2"
    "ValidateToolNames (\<lambda>n. n \<in> insert ''manifest'' (Names reg2)) cfg = None"
    "resolve_enabled (insert ''manifest'' (Names reg2)) (m_EnabledTools m) = Inr enabled"
    "register_tools reg2 [manifest_tool] = Inr reg3"
  shows "\<exists>rn. daemon_main env p = Inr rn \<and> hc_enabled (rn_http rn) = enabled"
  unfolding daemon_main_def Let_def assms(1,3-10) sum.case option.case if_not_P [OF assms(2)]
  by (simp add: assms)

lemma sample_started: "\<exists>rn. daemon_main sample_env ''daemon.yml'' = Inr rn \<and> hc_enabled (rn_http rn) = {''logs'', ''system'', ''manifest''}"
proof -
  define cfg where "cfg = fst (se_decodeDaemon sample_env [] defaultDaemon)"
  have ld: "LoadDaemon (se_readfile sample_env) (se_decodeDaemon sample_env) ''daemon.yml'' = Inr cfg"
    unfolding cfg_def by code_simp
  have pb: "\<not> BindAddrIsPublic cfg" unfolding cfg_def by code_simp
  have lm: "LoadManifest (se_readfile sample_env) (se_decodeManifest sample_env) (d_ManifestPath cfg) =
      Inr (zeroManifest\<lparr>m_EnabledTools := [''logs'', ''system'']\<rparr>)" unfolding cfg_def by code_simp
  have lr: "scrub_patterns (LoadRuleFile (se_stat sample_env) (se_readrules sample_env) (se_decodeRules sample_env)
      (se_compileRegexp sample_env) (d_LogRedactionRules cfg)) = Inr []"
  proof -
    have "trim_space (d_LogRedactionRules cfg) = []" unfolding cfg_def by code_simp
    then show ?thesis by (simp add: LoadRuleFile_def scrub_patterns_def)
  qed
  have "\<exists>r. register_tools NewTools (host_tools (se_hooks sample_env)) = Inr r"
    by (rule register_tools_total) (simp_all add: host_tools_def tool_of_def tool_table.lookup_empty)
  then obtain reg1 where r1: "register_tools NewTools (host_tools (se_hooks sample_env)) = Inr reg1" by blast
  have l1: "LookupTool reg1 ''workload'' = None" "LookupTool reg1 ''manifest'' = None"
    by (simp_all add: register_tools_ok [OF r1] host_tools_def tool_of_def tool_table.lookup_empty)
  have "\<exists>r. register_tools reg1 [workload_tool] = Inr r"
    by (rule register_tools_total) (simp_all add: l1 workload_tool_def tool_of_def)
  then obtain reg2 where r2: "register_tools reg1 [workload_tool] = Inr reg2" by blast
  have "\<exists>r. register_tools reg2 [manifest_tool] = Inr r"
    by (rule register_tools_total) (simp_all add: l1 workload_tool_def manifest_tool_def tool_of_def register_tools_ok [OF r2])
  then obtain reg3 where r3: "register_tools reg2 [manifest_tool] = Inr reg3" by blast
  have k: "insert ''manifest'' (Names reg2) = set knownTools" by (rule running_registry(1) [OF r1 r2])
  define m where "m = zeroManifest\<lparr>m_EnabledTools := [''logs'', ''system'']\<rparr>"
  have mf: "m_EnabledTools m = [''logs'', ''system'']" "m_WorkloadPlugins m = []" by (simp_all add: m_def zeroManifest_def)
  have "ValidateToolNames (\<lambda>n. n \<in> set knownTools) cfg = None" unfolding cfg_def by code_simp
  then have vt: "ValidateToolNames (\<lambda>n. n \<in> insert ''manifest'' (Names reg2)) cfg = None" unfolding k .
  have "resolve_enabled (set knownTools) [''logs'', ''system''] = Inr {''logs'', ''system'', ''manifest''}" by code_simp
  then have re: "resolve_enabled (insert ''manifest'' (Names reg2)) (m_EnabledTools m) = Inr {''logs'', ''system'', ''manifest''}"
    unfolding k mf .
  have np: "\<not> (BindAddrIsPublic cfg \<and> \<not> d_PublicBindAcknowledged cfg)" using pb by simp
  have pl: "find (\<lambda>n. n \<notin> set (se_compiledIn sample_env)) (m_WorkloadPlugins m) = None" unfolding mf by simp
  show ?thesis by (rule daemon_main_starts [OF ld np lm [folded m_def] lr r1 pl r2 vt re r3])
qed

theorem startup_wires_configuration_witness:
  "\<exists>rn. daemon_main sample_env ''daemon.yml'' = Inr rn \<and> Names (hc_registry (rn_http rn)) = set knownTools \<and>
     hc_enabled (rn_http rn) = {''logs'', ''system'', ''manifest''} \<and> hc_enabled (rn_http rn) \<subseteq> set knownTools"
proof -
  obtain rn where "daemon_main sample_env ''daemon.yml'' = Inr rn" "hc_enabled (rn_http rn) = {''logs'', ''system'', ''manifest''}"
    using sample_started by blast
  moreover note st = startup_wires_configuration [OF calculation(1), unfolded Let_def]
  ultimately show ?thesis using conjunct1 [OF st] conjunct1 [OF conjunct2 [OF st]] by (intro exI [of _ rn]) simp
qed

subsection \<open>The rate over whole histories of requests\<close>

lemma writeOk_limiter [simp]: "hs_limiter (fst (writeOk c ft s caller t args e age)) = hs_limiter s"
  by (simp add: writeOk_def audit_log_def)

lemma handleToolError_limiter: "hs_limiter (fst (handleToolError c ft s r t err)) = hs_limiter s"
  unfolding handleToolError_def Let_def
  by (split do_error.split, intro conjI allI impI; (split tool_error.split, intro conjI allI impI)?) (rule writeError_simps)+

lemma handleToolBody_limiter: "hs_limiter (fst (handleToolBody dp c ft s r tool t caller)) = hs_limiter s"
proof (cases rule: handleToolBody_cases [of r dp c ft s tool t caller])
  case (done_ full cache' res)
  then show ?thesis by (cases res) (simp_all add: handleToolError_limiter del: if_split)
qed simp_all

lemma handleRequest_limiter:
  "hs_limiter (fst (handleRequest dp c ft s r)) =
     (if callerIdentity (rq_peers r) = [] then hs_limiter s
      else fst (Allow (hs_limiter s) (callerIdentity (rq_peers r)) (path_tool r) (ft_start ft)))"
  by (cases rule: handleRequest_cases [of r dp c ft s]) (simp_all add: handleToolBody_limiter)

lemma handleRequest_refused:
  assumes "callerIdentity (rq_peers r) \<noteq> []"
    and "\<not> fst (snd (Allow (hs_limiter s) (callerIdentity (rq_peers r)) (path_tool r) (ft_start ft)))"
  shows "status_of (snd (handleRequest dp c ft s r)) = 429"
proof -
  obtain lim reason where a: "Allow (hs_limiter s) (callerIdentity (rq_peers r)) (path_tool r) (ft_start ft) = (lim, False, reason)"
    using assms(2) by (metis fst_conv prod_cases3 snd_conv)
  obtain rest hp where cp: "cut_prefix (rq_path r) ''/v1/'' = (rest, hp)" by fastforce
  then have "path_tool r = truncateToolName rest" by (simp add: path_tool_def)
  with a cp assms(1) show ?thesis by (simp add: handleRequest_def Let_def)
qed

text \<open>
  A history is the list of what happens to the server, in the order the limiter sees it: requests with their
  fates and the ticks of the two sweeper goroutines that \<^verbatim>\<open>main\<close> starts. The requests of a caller that pass the
  limiter are those not answered 401 or 429.
\<close>

datatype happening = Arrives fate http_request | SweepLimiter time | SweepCache time

fun happens_at :: "happening \<Rightarrow> time" where
  "happens_at (Arrives ft r) = ft_start ft"
| "happens_at (SweepLimiter t) = t"
| "happens_at (SweepCache t) = t"

definition happen :: "'j deps \<Rightarrow> http_config \<Rightarrow> http_state \<Rightarrow> happening \<Rightarrow> http_state" where
  "happen dp c s x =
     (case x of
        Arrives ft r \<Rightarrow> fst (handleRequest dp c ft s r)
      | SweepLimiter t \<Rightarrow> s\<lparr>hs_limiter := RunSweeper_tick (hs_limiter s) t\<rparr>
      | SweepCache t \<Rightarrow> s\<lparr>hs_cache := Sweep (hs_cache s) t\<rparr>)"

definition passes_limiter :: "'j deps \<Rightarrow> http_config \<Rightarrow> bytes \<Rightarrow> http_state \<Rightarrow> happening \<Rightarrow> bool" where
  "passes_limiter dp c caller s x =
     (case x of
        Arrives ft r \<Rightarrow> callerIdentity (rq_peers r) = caller \<and> status_of (snd (handleRequest dp c ft s r)) \<notin> {401, 429}
      | _ \<Rightarrow> False)"

fun served :: "'j deps \<Rightarrow> http_config \<Rightarrow> bytes \<Rightarrow> http_state \<Rightarrow> happening list \<Rightarrow> nat" where
  "served dp c caller s [] = 0"
| "served dp c caller s (x # xs) =
     (if passes_limiter dp c caller s x then 1 else 0) + served dp c caller (happen dp c s x) xs"

fun limiter_event :: "happening \<Rightarrow> event list" where
  "limiter_event (Arrives ft r) =
     (if callerIdentity (rq_peers r) = [] then [] else [event.Call (callerIdentity (rq_peers r)) (path_tool r) (ft_start ft)])"
| "limiter_event (SweepLimiter t) = [Tick t]"
| "limiter_event (SweepCache t) = []"

lemma limiter_event_at: "e \<in> set (limiter_event x) \<Longrightarrow> event_at e = happens_at x"
  by (cases x) (auto split: if_splits)

lemma served_le_granted:
  "served dp c caller s xs \<le> count_granted caller (hs_limiter s) (concat (map limiter_event xs))"
proof (induction xs arbitrary: s)
  case Nil
  then show ?case by simp
next
  case (Cons x xs)
  note ih = Cons.IH [of "happen dp c s x"]
  show ?case
  proof (cases x)
    case (Arrives ft r)
    let ?id = "callerIdentity (rq_peers r)" and ?h = "handleRequest dp c ft s r"
    show ?thesis
    proof (cases "?id = []")
      case True
      then have "status_of (snd ?h) = 401" by (simp add: handleRequest_def)
      then show ?thesis using ih True by (simp add: Arrives handleRequest_limiter happen_def passes_limiter_def)
    next
      case False
      then show ?thesis
        using ih handleRequest_refused [of r s ft dp c]
        by (auto simp: Arrives handleRequest_limiter happen_def passes_limiter_def limiter_step_def granted_def)
    qed
  next
    case (SweepLimiter t)
    then show ?thesis using ih by (simp add: happen_def passes_limiter_def limiter_step_def granted_def)
  next
    case (SweepCache t)
    then show ?thesis using ih by (simp add: happen_def passes_limiter_def)
  qed
qed

lemma limiter_events_sorted:
  "sorted (map happens_at xs) \<Longrightarrow> sorted (map event_at (concat (map limiter_event xs)))"
proof (induction xs)
  case Nil
  then show ?case by simp
next
  case (Cons x xs)
  have "sorted (map event_at (limiter_event x))" by (cases x) simp_all
  moreover have "happens_at x \<le> event_at e" if "e \<in> set (concat (map limiter_event xs))" for e
  proof -
    from that obtain y where "y \<in> set xs" "e \<in> set (limiter_event y)" by auto
    with Cons.prems show ?thesis using limiter_event_at by fastforce
  qed
  ultimately show ?case using Cons limiter_event_at by (force simp: sorted_append)
qed

text \<open>
  C3: In a daemon started from any accepted configuration, over any history of requests and of ticks of
  the sweepers that forget idle callers and expired answers, at most ten requests plus thirty per minute of the window get past the rate limiter for one client
  identity, whatever paths, methods and bodies it and the other clients send.
\<close>

theorem started_daemon_rate_bound:
  assumes "daemon_main env p = Inr rn"
    and "sorted (map happens_at xs)"
    and "\<forall>x \<in> set xs. t \<le> happens_at x \<and> happens_at x \<le> u" and "t \<le> u"
  shows "of_nat (served dp (rn_http rn) caller (rn_state rn) xs) \<le> 10 + of_int (u - t) * (30 / of_int Minute :: rat)"
proof -
  let ?l = "hs_limiter (rn_state rn)" and ?es = "concat (map limiter_event xs)"
  obtain per where l: "?l = NewLimiter global_bucket per (se_now env)" using daemon_main_cases [OF assms(1)] by metis
  have "sorted (map event_at ?es)" by (rule limiter_events_sorted [OF assms(2)])
  moreover have "\<forall>e \<in> set ?es. t \<le> event_at e \<and> event_at e \<le> u"
    using assms(3) by (auto simp: limiter_event_at)
  moreover have "limiter_inv ?l t" unfolding l by (rule limiter_inv_new) (simp add: global_bucket_def bucket_cfg_ok_def)
  moreover have "l_global ?l = global_bucket" by (simp add: l NewLimiter_def)
  ultimately have "of_nat (count_granted caller ?l ?es) \<le> of_int (Burst global_bucket) + of_int (u - t) * rate global_bucket"
    using assms(4) by (intro caller_meter.count_burst) auto
  moreover have "(of_nat (served dp (rn_http rn) caller (rn_state rn) xs) :: rat) \<le> of_nat (count_granted caller ?l ?es)"
    using served_le_granted by (simp only: of_nat_le_iff)
  ultimately show ?thesis by (simp add: global_bucket_def rate_def)
qed

theorem started_daemon_rate_bound_witness:
  "\<exists>rn. daemon_main sample_env ''daemon.yml'' = Inr rn \<and>
     of_nat (served sample_deps (rn_http rn) ''ops'' (rn_state rn)
       [Arrives sample_fate sample_request, SweepLimiter (ft_start sample_fate), Arrives sample_fate sample_request])
       \<le> 10 + of_int (Second - 0) * (30 / of_int Minute :: rat)"
proof -
  obtain rn where rn: "daemon_main sample_env ''daemon.yml'' = Inr rn" using sample_started by blast
  have "of_nat (served sample_deps (rn_http rn) ''ops'' (rn_state rn)
       [Arrives sample_fate sample_request, SweepLimiter (ft_start sample_fate), Arrives sample_fate sample_request])
       \<le> 10 + of_int (Second - 0) * (30 / of_int Minute :: rat)"
    by (rule started_daemon_rate_bound [OF rn]) (simp_all add: sample_fate_def)
  with rn show ?thesis by blast
qed

end
