(* ===== verification/HelperExec.thy ===== *)
theory HelperExec
  imports Registry Linescan Cache
begin

text \<open>
  \<^verbatim>\<open>daemon/internal/helper/exec\<close>: the only place the helper starts a subprocess. A subprocess is
  described by what it does: how its start goes, the pieces its standard output arrives in, its
  standard error, and how it exits, which may depend on whether it was signalled. The part of
  \<^verbatim>\<open>os/exec\<close> that turns an exit and a finished context into an error is written out as its
  documentation states it: an unsuccessful exit is reported as such, and the context's error only
  for a successful one. SHA-256 is an argument.
\<close>

subsection \<open>Limits\<close>

definition MaxStdout :: nat where "MaxStdout = 256 * 1024"
definition KillGrace :: duration where "KillGrace = 500 * Millisecond"
definition MaxLineLength :: nat where "MaxLineLength = 65536"
definition stderrPrefixMax :: nat where "stderrPrefixMax = 200"

definition safePath :: bytes where
  "safePath = ''/usr/sbin:/usr/bin:/sbin:/bin''"

definition safeEnv :: "bytes list" where
  "safeEnv = [''PATH='' @ safePath, ''LANG=C'', ''LC_ALL=C'']"

subsection \<open>Capturing output\<close>

record cappedWriter =
  cw_buf :: bytes
  cw_max :: nat
  cw_truncated :: bool

text \<open>\<^verbatim>\<open>cappedWriter.Write\<close>: the flag is whether it took the piece.\<close>

definition cw_Write :: "cappedWriter \<Rightarrow> bytes \<Rightarrow> cappedWriter \<times> bool" where
  "cw_Write w p =
     (if cw_max w < length (cw_buf w) + length p then
        (let room = cw_max w - length (cw_buf w)
         in (w\<lparr>cw_buf := cw_buf w @ take room p, cw_truncated := True\<rparr>, False))
      else (w\<lparr>cw_buf := cw_buf w @ p\<rparr>, True))"

text \<open>The copying goroutine of \<^verbatim>\<open>os/exec\<close>: it stops at the first error of the writer.\<close>

fun copy_stdout :: "cappedWriter \<Rightarrow> bytes list \<Rightarrow> cappedWriter" where
  "copy_stdout w [] = w"
| "copy_stdout w (p # ps) = (let (w', ok) = cw_Write w p in if ok then copy_stdout w' ps else w')"

text \<open>
  The read loop of \<^verbatim>\<open>RunCapped\<close>. A piece after the budget is used up sets the flag; once the flag
  is set the child is signalled and the rest is drained.
\<close>

fun capped_loop :: "nat \<Rightarrow> bytes \<Rightarrow> bytes list \<Rightarrow> bytes \<times> bool" where
  "capped_loop maxBytes buf [] = (buf, False)"
| "capped_loop maxBytes buf (c # cs) =
     (let room = int maxBytes - int (length buf);
          (buf', truncated) =
            (if c = [] then (buf, False)
             else if room \<le> 0 then (buf, True)
             else if room < int (length c) then (buf @ take (nat room) c, True)
             else (buf @ c, False))
      in if truncated then (buf', True) else capped_loop maxBytes buf' cs)"

subsection \<open>Subprocesses\<close>

datatype start_result = Started | StartNotFound | StartFailed bytes

datatype exit_status = ExitOk | ExitNonZero int | Killed

datatype ctx_state = Live | PastDeadline | Canceled

record child =
  ch_argv :: "bytes list"
  ch_path :: bytes
  ch_start :: start_result
  ch_stdout :: "bytes list"
  ch_stderr :: bytes
  ch_ctx :: ctx_state
  ch_exit :: "bool \<Rightarrow> exit_status"

datatype run_error =
    RunNotFound
  | RunStart bytes
  | RunExit int
  | RunDeadline
  | RunCanceled
  | RunTruncated nat

text \<open>\<^verbatim>\<open>(*Cmd).Wait\<close>.\<close>

definition cmd_Wait :: "exit_status \<Rightarrow> ctx_state \<Rightarrow> run_error option" where
  "cmd_Wait st ctx =
     (case st of
        ExitNonZero n \<Rightarrow> Some (RunExit n)
      | Killed \<Rightarrow> Some (RunExit (- 1))
      | ExitOk \<Rightarrow> (case ctx of Live \<Rightarrow> None | PastDeadline \<Rightarrow> Some RunDeadline | Canceled \<Rightarrow> Some RunCanceled))"

text \<open>A child whose context ends is signalled.\<close>

definition child_exit :: "child \<Rightarrow> bool \<Rightarrow> exit_status" where
  "child_exit ch signalled = ch_exit ch (signalled \<or> ch_ctx ch \<noteq> Live)"

definition printable :: "char \<Rightarrow> bool" where
  "printable c \<longleftrightarrow> c = CHR 0x0A \<or> c = CHR 0x09 \<or> (0x20 \<le> (of_char c :: nat) \<and> (of_char c :: nat) < 0x7F)"

definition sanitiseStderrPrefix :: "bytes \<Rightarrow> bytes" where
  "sanitiseStderrPrefix b = map (\<lambda>c. if printable c then c else CHR ''.'') (take stderrPrefixMax b)"

definition hexSum :: "(bytes \<Rightarrow> bytes) \<Rightarrow> bytes \<Rightarrow> bytes" where
  "hexSum sha256 b = hex_encode (sha256 b)"

definition classify :: "(bytes \<Rightarrow> bytes) \<Rightarrow> run_error \<Rightarrow> child \<Rightarrow> dispatch_Error" where
  "classify sha256 runErr ch =
     (let base = zero_dispatch_Error\<lparr>de_StderrBytes := int (length (ch_stderr ch)),
            de_StderrSHA256 := hexSum sha256 (ch_stderr ch),
            de_StderrPrefix := sanitiseStderrPrefix (ch_stderr ch), de_Argv := ch_argv ch\<rparr>
      in case runErr of
           RunDeadline \<Rightarrow> base\<lparr>de_Code := CodeDeadline, de_Message := ''deadline exceeded''\<rparr>
         | RunTruncated n \<Rightarrow> base\<lparr>de_Code := CodeOutputTruncated,
             de_Message := ''stdout exceeded '' @ itoa (int MaxStdout) @ '' bytes''\<rparr>
         | RunNotFound \<Rightarrow> zero_dispatch_Error\<lparr>de_Code := CodeToolMissing,
             de_Message := ch_path ch @ '': not found'', de_Argv := ch_argv ch\<rparr>
         | _ \<Rightarrow> base\<lparr>de_Code := CodeToolFailed, de_Message := ch_path ch @ '' exited non-zero'',
             de_ToolExit := Some (case runErr of RunExit n \<Rightarrow> n | _ \<Rightarrow> - 1)\<rparr>)"

text \<open>
  What the three entry points return in place of a result: a typed error, or a plain one with its
  text.
\<close>

datatype exec_error = Typed dispatch_Error | Plain bytes

definition exec_Run :: "(bytes \<Rightarrow> bytes) \<Rightarrow> child \<Rightarrow> bytes \<times> exec_error option" where
  "exec_Run sha256 ch =
     (let w = (if ch_start ch = Started
               then copy_stdout \<lparr>cw_buf = [], cw_max = MaxStdout, cw_truncated = False\<rparr> (ch_stdout ch)
               else \<lparr>cw_buf = [], cw_max = MaxStdout, cw_truncated = False\<rparr>);
          err0 = (case ch_start ch of
                    StartNotFound \<Rightarrow> Some RunNotFound
                  | StartFailed m \<Rightarrow> Some (RunStart m)
                  | Started \<Rightarrow>
                      (case cmd_Wait (child_exit ch (cw_truncated w)) (ch_ctx ch) of
                         Some e \<Rightarrow> Some e
                       | None \<Rightarrow> if cw_truncated w then Some (RunTruncated (cw_max w)) else None));
          err = (if cw_truncated w then Some (RunTruncated (cw_max w)) else err0)
      in (cw_buf w, map_option (\<lambda>e. Typed (classify sha256 e ch)) err))"

definition start_error :: "child \<Rightarrow> exec_error option" where
  "start_error ch =
     (case ch_start ch of
        Started \<Rightarrow> None
      | StartNotFound \<Rightarrow> Some (Typed (zero_dispatch_Error\<lparr>de_Code := CodeToolMissing,
          de_Message := ch_path ch @ '': not found'', de_Argv := ch_argv ch\<rparr>))
      | StartFailed m \<Rightarrow> Some (Plain (''helperexec: start: '' @ m)))"

definition RunCapped :: "(bytes \<Rightarrow> bytes) \<Rightarrow> child \<Rightarrow> nat \<Rightarrow> bytes \<times> bool \<times> exec_error option" where
  "RunCapped sha256 ch maxBytes =
     (case start_error ch of
        Some e \<Rightarrow> ([], False, Some e)
      | None \<Rightarrow>
          (let (buf, truncated) = capped_loop maxBytes [] (ch_stdout ch);
               waitErr = cmd_Wait (child_exit ch truncated) (ch_ctx ch)
           in (buf, truncated, map_option (\<lambda>e. Typed (classify sha256 e ch)) waitErr)))"

text \<open>The lines visited, and the error; the number returned is the length of the list.\<close>

definition RunStreaming :: "(bytes \<Rightarrow> bytes) \<Rightarrow> child \<Rightarrow> bytes list \<times> exec_error option" where
  "RunStreaming sha256 ch =
     (case start_error ch of
        Some e \<Rightarrow> ([], Some e)
      | None \<Rightarrow>
          (let (ls, tooLong) = scan_lines MaxLineLength (concat (ch_stdout ch))
           in case cmd_Wait (child_exit ch False) (ch_ctx ch) of
                Some e \<Rightarrow> (ls, Some (Typed (classify sha256 e ch)))
              | None \<Rightarrow>
                  if tooLong then
                    (ls, Some (Typed (zero_dispatch_Error\<lparr>de_Code := CodeToolFailed,
                       de_Message := ''stdout scanner: bufio.Scanner: token too long'',
                       de_Argv := ch_argv ch, de_StderrBytes := int (length (ch_stderr ch)),
                       de_StderrSHA256 := hexSum sha256 (ch_stderr ch),
                       de_StderrPrefix := sanitiseStderrPrefix (ch_stderr ch)\<rparr>)))
                  else (ls, None)))"

subsection \<open>What is captured\<close>

lemma copy_stdout_spec:
  assumes "\<not> cw_truncated w" and "length (cw_buf w) \<le> cw_max w"
  shows "cw_buf (copy_stdout w ps) = take (cw_max w) (cw_buf w @ concat ps) \<and>
    (cw_truncated (copy_stdout w ps) \<longleftrightarrow> cw_max w < length (cw_buf w @ concat ps))"
  using assms
proof (induction ps arbitrary: w)
  case Nil
  then show ?case by simp
next
  case (Cons p ps)
  show ?case
  proof (cases "cw_max w < length (cw_buf w) + length p")
    case True
    with Cons.prems show ?thesis by (simp add: cw_Write_def Let_def)
  next
    case False
    with Cons.prems Cons.IH [of "w\<lparr>cw_buf := cw_buf w @ p\<rparr>"] show ?thesis
      by (simp add: cw_Write_def)
  qed
qed

lemma capped_loop_spec:
  "length buf \<le> m \<Longrightarrow> capped_loop m buf cs = (take m (buf @ concat cs), m < length (buf @ concat cs))"
proof (induction cs arbitrary: buf)
  case Nil
  then show ?case by simp
next
  case (Cons c cs)
  show ?case
  proof (cases "length buf + length c \<le> m")
    case True
    with Cons.IH [of "buf @ c"] Cons.prems show ?thesis by (cases c) (simp_all add: Let_def)
  next
    case False
    then have "nat (int m - int (length buf)) = m - length buf" "c \<noteq> []" using Cons.prems by auto
    with False Cons.prems show ?thesis by (simp add: Let_def)
  qed
qed

text \<open>
  Whatever pieces the output arrives in, both capturing entry points return exactly the first
  bytes of it up to the cap, \<^verbatim>\<open>RunCapped\<close> sets its flag exactly when there was more, and \<^verbatim>\<open>Run\<close>
  reports \<^verbatim>\<open>output_truncated\<close> exactly when there was more than 256 KiB, whatever the exit status.
\<close>

lemma capture_is_prefix:
  assumes "ch_start ch = Started"
  shows "fst (exec_Run sha256 ch) = take 262144 (concat (ch_stdout ch)) \<and>
    ((\<exists>e. snd (exec_Run sha256 ch) = Some (Typed e) \<and> de_Code e = ''output_truncated'') \<longleftrightarrow>
       262144 < length (concat (ch_stdout ch))) \<and>
    (\<exists>err. RunCapped sha256 ch m = (take m (concat (ch_stdout ch)), m < length (concat (ch_stdout ch)), err))"
proof -
  let ?w = "copy_stdout \<lparr>cw_buf = [], cw_max = MaxStdout, cw_truncated = False\<rparr> (ch_stdout ch)"
  have w: "cw_buf ?w = take 262144 (concat (ch_stdout ch))"
    "cw_truncated ?w \<longleftrightarrow> 262144 < length (concat (ch_stdout ch))"
    using copy_stdout_spec [of "\<lparr>cw_buf = [], cw_max = MaxStdout, cw_truncated = False\<rparr>" "ch_stdout ch"]
    by (simp_all add: MaxStdout_def)
  have no: "de_Code (classify sha256 e ch) \<noteq> ''output_truncated''" if "\<nexists>n. e = RunTruncated n" for e
    using that by (cases e) (simp_all add: classify_def Let_def proto_code_defs zero_dispatch_Error_def)
  have t: "de_Code (classify sha256 (RunTruncated n) ch) = ''output_truncated''" for n
    by (simp add: classify_def Let_def proto_code_defs)
  have wt: "cmd_Wait st c \<noteq> Some (RunTruncated n)" for st c n
    by (simp add: cmd_Wait_def split: exit_status.split ctx_state.split)
  have r: "(\<exists>e. snd (exec_Run sha256 ch) = Some (Typed e) \<and> de_Code e = ''output_truncated'') \<longleftrightarrow> cw_truncated ?w"
  proof (cases "cw_truncated ?w")
    case True
    then show ?thesis using assms t by (simp add: exec_Run_def Let_def)
  next
    case False
    then have "snd (exec_Run sha256 ch) =
        map_option (\<lambda>e. Typed (classify sha256 e ch)) (cmd_Wait (child_exit ch False) (ch_ctx ch))"
      using assms by (simp add: exec_Run_def Let_def split: option.split)
    then show ?thesis using False no wt by (cases "cmd_Wait (child_exit ch False) (ch_ctx ch)") (simp, metis exec_error.inject(1) option.inject option.simps(9))
  qed
  have c: "\<exists>err. RunCapped sha256 ch m = (take m (concat (ch_stdout ch)), m < length (concat (ch_stdout ch)), err)"
    using assms capped_loop_spec [of "[]" m "ch_stdout ch"]
    by (simp add: RunCapped_def start_error_def Let_def)
  show ?thesis using assms w r c by (simp add: exec_Run_def Let_def)
qed

definition sample_child :: child where
  "sample_child = \<lparr>ch_argv = [''nft'', ''-j''], ch_path = ''/usr/sbin/nft'', ch_start = Started,
     ch_stdout = [''abc'', ''de''], ch_stderr = ''warn'', ch_ctx = Live,
     ch_exit = (\<lambda>signalled. if signalled then Killed else ExitOk)\<rparr>"

text \<open>
  Whatever a subprocess writes to its standard error, what leaves the helper of it is at most
  200 bytes, each a printable ASCII character, a tab or a line feed, next to its length and hash.
\<close>

theorem stderr_prefix_sanitised:
  "length (de_StderrPrefix (classify sha256 e ch)) \<le> 200 \<and>
   list_all (\<lambda>c. c = CHR 0x0A \<or> c = CHR 0x09 \<or> 32 \<le> (of_char c :: nat) \<and> (of_char c :: nat) < 127)
     (de_StderrPrefix (classify sha256 e ch)) \<and>
   (de_StderrBytes (classify sha256 e ch) = int (length (ch_stderr ch)) \<or> de_Code (classify sha256 e ch) = ''tool_missing'')"
proof -
  have s: "length (sanitiseStderrPrefix b) \<le> 200" "list_all printable (sanitiseStderrPrefix b)" for b
    by (auto simp: sanitiseStderrPrefix_def stderrPrefixMax_def list_all_iff printable_def)
  have p: "(\<lambda>c. c = CHR 0x0A \<or> c = CHR 0x09 \<or> 32 \<le> (of_char c :: nat) \<and> (of_char c :: nat) < 127) = printable"
    by (simp add: fun_eq_iff printable_def)
  show ?thesis unfolding p
    by (cases e) (simp_all add: s classify_def Let_def zero_dispatch_Error_def proto_code_defs)
qed

text \<open>
  A subprocess that is ended by the signal its deadline sends is reported as \<^verbatim>\<open>tool_failed\<close>
  with exit status -1, by all three entry points, and not as \<^verbatim>\<open>deadline\<close>.
\<close>

lemma deadline_kill_reported_as_failure:
  assumes "ch_start ch = Started" and "ch_ctx ch = PastDeadline" and "ch_exit ch True = Killed"
    and "length (concat (ch_stdout ch)) \<le> 262144"
  shows "\<exists>e. de_Code e = ''tool_failed'' \<and> de_ToolExit e = Some (- 1) \<and>
    snd (exec_Run sha256 ch) = Some (Typed e) \<and> snd (snd (RunCapped sha256 ch m)) = Some (Typed e) \<and>
    snd (RunStreaming sha256 ch) = Some (Typed e)"
proof (intro exI conjI)
  let ?e = "classify sha256 (RunExit (- 1)) ch"
  have w: "cmd_Wait (child_exit ch b) (ch_ctx ch) = Some (RunExit (- 1))" for b
    using assms by (simp add: child_exit_def cmd_Wait_def)
  show "de_Code ?e = ''tool_failed''" "de_ToolExit ?e = Some (- 1)"
    by (simp_all add: classify_def Let_def proto_code_defs)
  have "\<not> cw_truncated (copy_stdout \<lparr>cw_buf = [], cw_max = MaxStdout, cw_truncated = False\<rparr> (ch_stdout ch))"
    using copy_stdout_spec [of "\<lparr>cw_buf = [], cw_max = MaxStdout, cw_truncated = False\<rparr>" "ch_stdout ch"] assms(4)
    by (simp add: MaxStdout_def)
  then show "snd (exec_Run sha256 ch) = Some (Typed ?e)" using assms(1) w by (simp add: exec_Run_def Let_def)
  show "snd (snd (RunCapped sha256 ch m)) = Some (Typed ?e)"
    using assms(1) w by (simp add: RunCapped_def start_error_def Let_def split_beta)
  show "snd (RunStreaming sha256 ch) = Some (Typed ?e)"
    using assms(1) w by (simp add: RunStreaming_def start_error_def split_beta)
qed

theorem deadline_kill_reported_as_failure_witness:
  "\<exists>e. de_Code e = ''tool_failed'' \<and> de_ToolExit e = Some (- 1) \<and>
    snd (exec_Run id (sample_child\<lparr>ch_ctx := PastDeadline\<rparr>)) = Some (Typed e) \<and>
    snd (snd (RunCapped id (sample_child\<lparr>ch_ctx := PastDeadline\<rparr>) 3)) = Some (Typed e) \<and>
    snd (RunStreaming id (sample_child\<lparr>ch_ctx := PastDeadline\<rparr>)) = Some (Typed e)"
  by (rule deadline_kill_reported_as_failure) (simp_all add: sample_child_def)

text \<open>
  When \<^verbatim>\<open>RunCapped\<close> stops a child that wrote more than the budget, and the child ends by the
  signal it is sent, the call returns the error \<^verbatim>\<open>tool_failed\<close> next to the bytes and the flag.
\<close>

theorem capped_truncation_returns_error:
  assumes "ch_start ch = Started" and "ch_exit ch True = Killed" and "m < length (concat (ch_stdout ch))"
  shows "\<exists>e. RunCapped sha256 ch m = (take m (concat (ch_stdout ch)), True, Some (Typed e)) \<and> de_Code e = ''tool_failed''"
proof -
  have "cmd_Wait (child_exit ch True) (ch_ctx ch) = Some (RunExit (- 1))"
    using assms(2) by (simp add: child_exit_def cmd_Wait_def)
  then show ?thesis
    using assms(1,3) capped_loop_spec [of "[]" m "ch_stdout ch"]
    by (simp add: RunCapped_def start_error_def Let_def classify_def proto_code_defs)
qed

theorem capped_truncation_returns_error_witness:
  "\<exists>e. RunCapped id sample_child 3 = (take 3 (concat (ch_stdout sample_child)), True, Some (Typed e)) \<and> de_Code e = ''tool_failed''"
  by (rule capped_truncation_returns_error) (simp_all add: sample_child_def)

end
