(* ===== verification/GoPath.thy ===== *)
theory GoPath
  imports Netip
begin

text \<open>
  \<^verbatim>\<open>filepath.Clean\<close>, \<^verbatim>\<open>filepath.Join\<close>, \<^verbatim>\<open>filepath.Base\<close> and \<^verbatim>\<open>filepath.Dir\<close> on slash-separated paths, and what it means that one cleaned
  path begins with another: its components do.
\<close>

text \<open>\<^verbatim>\<open>filepath.Clean\<close>: the components kept, last one first.\<close>

fun clean_step :: "bool \<Rightarrow> bytes list \<Rightarrow> bytes \<Rightarrow> bytes list" where
  "clean_step rooted st c =
     (if c = [] \<or> c = ''.'' then st
      else if c = ''..'' then
        (case st of
           t # ts \<Rightarrow> if t \<noteq> ''..'' then ts else c # st
         | [] \<Rightarrow> if rooted then [] else [c])
      else c # st)"

definition filepath_Clean :: "bytes \<Rightarrow> bytes" where
  "filepath_Clean p =
     (let rooted = has_prefix p ''/'';
          st = foldl (clean_step rooted) [] (split_on CHR ''/'' [] p);
          body = join (rev st) ''/''
      in if rooted then CHR ''/'' # body else if body = [] then ''.'' else body)"

text \<open>\<^verbatim>\<open>filepath.Join\<close> of a non-empty directory and a file name.\<close>

definition filepath_Join :: "bytes \<Rightarrow> bytes \<Rightarrow> bytes" where
  "filepath_Join dir name = filepath_Clean (dir @ ''/'' @ name)"

text \<open>\<^verbatim>\<open>filepath.Base\<close> and \<^verbatim>\<open>filepath.Dir\<close> with slashes.\<close>

definition filepath_Base :: "bytes \<Rightarrow> bytes" where
  "filepath_Base p =
     (if p = [] then ''.''
      else let q = rev (dropWhile (\<lambda>c. c = CHR ''/'') (rev p))
           in if q = [] then ''/'' else rev (takeWhile (\<lambda>c. c \<noteq> CHR ''/'') (rev q)))"

definition filepath_Dir :: "bytes \<Rightarrow> bytes" where
  "filepath_Dir p = filepath_Clean (rev (dropWhile (\<lambda>c. c \<noteq> CHR ''/'') (rev p)))"

lemma split_on_last: "c \<notin> set name \<Longrightarrow> split_on c cur (dir @ c # name) = split_on c cur dir @ [name]"
proof (induction c cur dir rule: split_on.induct)
  case (1 c cur)
  have "split_on c acc name = [rev acc @ name]" if "c \<notin> set name" for acc
    using that by (induction name arbitrary: acc) auto
  with 1 show ?case by simp
next
  case (2 c cur x xs)
  then show ?case by auto
qed

lemma join_snoc: "\<exists>pre. join (ts @ [t]) sep = pre @ t"
proof (induction ts sep rule: join.induct)
  case (1 sep)
  then show ?case by simp
next
  case (2 x sep)
  then show ?case by simp
next
  case (3 x y zs sep)
  then obtain pre where "join (y # zs @ [t]) sep = pre @ t" by auto
  then have "join ((x # y # zs) @ [t]) sep = (x @ sep @ pre) @ t" by simp
  then show ?case by blast
qed

lemma filepath_Join_suffix:
  assumes "CHR ''/'' \<notin> set name" and "name \<notin> {[], ''.'', ''..''}"
  shows "\<exists>pre. filepath_Join dir name = pre @ name"
proof -
  have s: "foldl (clean_step r) [] (split_on CHR ''/'' [] (dir @ ''/'' @ name)) =
      name # foldl (clean_step r) [] (split_on CHR ''/'' [] dir)" for r
    using assms by (simp add: split_on_last)
  have "\<exists>pre. join (rev (name # foldl (clean_step r) [] (split_on CHR ''/'' [] dir))) ''/'' = pre @ name" for r
    using join_snoc [of "rev (foldl (clean_step r) [] (split_on CHR ''/'' [] dir))" name] by simp
  then obtain pre where pre: "join (rev (name # foldl (clean_step r) [] (split_on CHR ''/'' [] dir))) ''/'' = pre r @ name" for r
    by metis
  show ?thesis
    unfolding filepath_Join_def filepath_Clean_def Let_def s pre
    using assms(2) by (metis append.assoc append_Cons append_is_Nil_conv insertCI)
qed

subsection \<open>What a cleaned path means\<close>

lemma split_on_append: "split_on c cur (a @ c # b) = split_on c cur a @ split_on c [] b"
  by (induction c cur a rule: split_on.induct) auto

lemma split_on_no_sep: "c \<notin> set a \<Longrightarrow> split_on c cur a = [rev cur @ a]"
  by (induction c cur a rule: split_on.induct) auto

lemma split_on_nonempty: "split_on c cur s \<noteq> []"
  by (induction c cur s rule: split_on.induct) auto

lemma split_on_parts: "c \<notin> set cur \<Longrightarrow> \<forall>t \<in> set (split_on c cur s). c \<notin> set t"
  by (induction c cur s rule: split_on.induct) auto

lemma split_on_join: "xs \<noteq> [] \<Longrightarrow> \<forall>x \<in> set xs. c \<notin> set x \<Longrightarrow> split_on c [] (join xs [c]) = xs"
proof (induction xs "[c]" rule: join.induct)
  case (3 x y zs)
  then show ?case by (simp add: split_on_append split_on_no_sep del: split_on.simps)
qed (auto simp: split_on_no_sep)

lemma join_append: "ys \<noteq> [] \<Longrightarrow> zs \<noteq> [] \<Longrightarrow> join (ys @ zs) sep = join ys sep @ sep @ join zs sep"
proof (induction ys sep rule: join.induct)
  case (2 x sep)
  then show ?case by (cases zs) auto
qed auto

text \<open>The components of an absolute path, with \<^verbatim>\<open>.\<close> and \<^verbatim>\<open>..\<close> resolved.\<close>

definition components :: "bytes \<Rightarrow> bytes list" where
  "components p = rev (foldl (clean_step True) [] (split_on CHR ''/'' [] p))"

definition real_component :: "bytes \<Rightarrow> bool" where
  "real_component c \<longleftrightarrow> c \<notin> {[], ''.'', ''..''} \<and> CHR ''/'' \<notin> set c"

lemma clean_step_real: "list_all real_component st \<Longrightarrow> CHR ''/'' \<notin> set c \<Longrightarrow> list_all real_component (clean_step True st c)"
  by (auto simp: real_component_def split: list.split)

lemma components_real: "list_all real_component (components p)"
proof -
  have "list_all real_component st \<Longrightarrow> \<forall>c \<in> set cs. CHR ''/'' \<notin> set c \<Longrightarrow> list_all real_component (foldl (clean_step True) st cs)" for st cs
    by (induction cs arbitrary: st) (simp_all add: clean_step_real del: clean_step.simps)
  from this [of "[]" "split_on CHR ''/'' [] p"] show ?thesis
    using split_on_parts [of "CHR ''/''" "[]" p] by (simp add: components_def)
qed

lemma Clean_components: "has_prefix p ''/'' \<Longrightarrow> filepath_Clean p = CHR ''/'' # join (components p) ''/''"
  by (simp add: filepath_Clean_def components_def Let_def)

lemma components_slash_free: "c \<in> set (components p) \<Longrightarrow> CHR ''/'' \<notin> set c \<and> c \<noteq> []"
  using components_real [of p] by (auto simp: list_all_iff real_component_def)

lemma below_iff:
  assumes "has_prefix p ''/''" and "has_prefix d ''/''"
  shows "has_prefix (filepath_Clean p) (filepath_Clean d @ ''/'') \<longleftrightarrow>
    components d \<noteq> [] \<and> (\<exists>r. r \<noteq> [] \<and> components p = components d @ r)" (is "?l \<longleftrightarrow> ?r")
proof
  assume ?r
  then obtain r where "r \<noteq> []" "components p = components d @ r" "components d \<noteq> []" by blast
  then show ?l
    unfolding Clean_components [OF assms(1)] Clean_components [OF assms(2)] by (simp add: join_append has_prefix_iff)
next
  assume ?l
  then obtain r where r: "join (components p) ''/'' = join (components d) ''/'' @ ''/'' @ r"
    unfolding Clean_components [OF assms(1)] Clean_components [OF assms(2)] by (auto simp: has_prefix_iff)
  have pn: "components p \<noteq> []" using r by auto
  have sp: "split_on CHR ''/'' [] (join (components p) ''/'') = components p"
    using pn components_slash_free by (intro split_on_join) auto
  have dn: "components d \<noteq> []"
  proof
    assume "components d = []"
    then have "split_on CHR ''/'' [] (join (components p) ''/'') = [] # split_on CHR ''/'' [] r" by (simp add: r)
    then have "[] \<in> set (components p)" unfolding sp by (metis list.set_intros(1))
    then show False using components_slash_free by blast
  qed
  then have "split_on CHR ''/'' [] (join (components d) ''/'') = components d"
    using components_slash_free by (intro split_on_join) auto
  then have "components p = components d @ split_on CHR ''/'' [] r"
    using sp by (simp add: r split_on_append)
  moreover have "split_on CHR ''/'' [] r \<noteq> []" using split_on_nonempty by blast
  ultimately show ?r using dn by blast
qed

end
