(* ===== verification/HelperServer.thy ===== *)
theory HelperServer
  imports HelperExec HelperConfig CapsPlan GoPath
begin

text \<open>
  \<^verbatim>\<open>daemon/internal/helper/server\<close>: the accept loop of the root helper with its peer check and
  connection semaphore, and the request loop of a connection. A handler is a function of its
  parameter and the deadline it is given; what it returns is marshalled JSON or an error. The JSON
  codec of the frames is an argument.
\<close>

subsection \<open>Dispatch\<close>

datatype handler_result =
    HandlerOk bytes
  | HandlerUnmarshalable bytes
  | HandlerTyped dispatch_Error
  | HandlerDeadline
  | HandlerPlain bytes

text \<open>A result is given by its JSON text, or by the error of encoding it.\<close>

type_synonym handler = "bytes \<Rightarrow> duration \<Rightarrow> handler_result"

record ServerConfig =
  sc_SocketPath :: bytes
  sc_AllowedUID :: "32 word"
  sc_SocketGID :: "32 word"
  sc_SocketMode :: nat
  sc_Registry :: "handler op_registry"
  sc_OpDeadline :: "(bytes \<Rightarrow> int \<Rightarrow> duration) option"

record Server =
  sv_cfg :: ServerConfig
  sv_caps :: CapSet
  sv_warnedCaps :: "bytes \<Rightarrow> bool"
  sv_log :: "(bytes \<times> bytes) list"

definition maxConns :: nat where "maxConns = 16"
definition acceptBackoffMin :: duration where "acceptBackoffMin = 5 * Millisecond"
definition acceptBackoffMax :: duration where "acceptBackoffMax = Second"
definition fallbackOpDeadline :: duration where "fallbackOpDeadline = 9500 * Millisecond"

definition NewServer :: "ServerConfig \<Rightarrow> bytes option \<Rightarrow> Server" where
  "NewServer cfg status = \<lparr>sv_cfg = cfg, sv_caps = Effective status, sv_warnedCaps = (\<lambda>_. False), sv_log = []\<rparr>"

text \<open>The log is the list of warnings, oldest first: an op and the capability it needs.\<close>

definition warnMissingCapOnce :: "Server \<Rightarrow> bytes \<Rightarrow> bytes \<Rightarrow> Server" where
  "warnMissingCapOnce s op want =
     (if sv_warnedCaps s op then s
      else s\<lparr>sv_warnedCaps := (sv_warnedCaps s)(op := True), sv_log := sv_log s @ [(op, want)]\<rparr>)"

definition errResp :: "bytes \<Rightarrow> bytes \<Rightarrow> Response" where
  "errResp code msg = empty_response\<lparr>resp_status := StatusErr, resp_code := code, resp_message := msg\<rparr>"

definition errRespFromDispatch :: "dispatch_Error \<Rightarrow> Response" where
  "errRespFromDispatch de =
     empty_response\<lparr>resp_status := StatusErr, resp_code := de_Code de, resp_message := de_Message de,
       resp_stderr_bytes := de_StderrBytes de, resp_stderr_sha256 := de_StderrSHA256 de,
       resp_stderr_prefix := de_StderrPrefix de, resp_tool_exit := de_ToolExit de, resp_argv := de_Argv de\<rparr>"

definition op_deadline :: "Server \<Rightarrow> Request \<Rightarrow> duration" where
  "op_deadline s req =
     (case sc_OpDeadline (sv_cfg s) of
        None \<Rightarrow> fallbackOpDeadline
      | Some f \<Rightarrow> f (req_op req) (req_deadline_ms req))"

definition handler_response :: "handler_result \<Rightarrow> Response" where
  "handler_response res =
     (case res of
        HandlerTyped de \<Rightarrow> errRespFromDispatch de
      | HandlerDeadline \<Rightarrow> errResp CodeDeadline ''op exceeded its deadline''
      | HandlerPlain m \<Rightarrow> errResp CodeInternal m
      | HandlerUnmarshalable m \<Rightarrow> errResp CodeInternal (''result marshal: '' @ m)
      | HandlerOk body \<Rightarrow> empty_response\<lparr>resp_status := StatusOK, resp_data := body\<rparr>)"

definition dispatch :: "Server \<Rightarrow> Request \<Rightarrow> Server \<times> Response" where
  "dispatch s req =
     (if \<not> IsKnownOp (req_op req) then (s, errResp CodeBadOp ''unknown op token'')
      else case LookupOp (sc_Registry (sv_cfg s)) (req_op req) of
             None \<Rightarrow> (s, errResp CodeBadOp ''op not compiled into this helper'')
           | Some h \<Rightarrow>
               let s1 = (case map_of RequiredCap (req_op req) of
                           Some want \<Rightarrow> if capset_Has (sv_caps s) want then s else warnMissingCapOnce s (req_op req) want
                         | None \<Rightarrow> s)
               in (s1, handler_response (h (req_param req) (op_deadline s req))))"

subsection \<open>A connection\<close>

text \<open>
  The bytes still to come from the peer and the writer towards it. An end of the stream, a read
  deadline and a malformed or oversized frame all end the connection.
\<close>

function conn_loop ::
  "(bytes \<Rightarrow> Request option) \<Rightarrow> (Response \<Rightarrow> bytes option) \<Rightarrow> Server \<Rightarrow> bytes \<Rightarrow> writer \<Rightarrow> Server \<times> writer" where
  "conn_loop dec enc s r w =
     (case ReadFrame dec r of
        (Inl e, r1) \<Rightarrow> (s, w)
      | (Inr req, r1) \<Rightarrow>
          (case dispatch s req of
             (s1, resp) \<Rightarrow>
               (case WriteFrameWithCap enc w resp MaxResponseFrame of
                  (w1, None) \<Rightarrow> conn_loop dec enc s1 r1 w1
                | (w1, Some (FrameTooLarge n m)) \<Rightarrow>
                    (s1, fst (WriteFrameWithCap enc w1
                       (errResp CodeOutputTruncated ''response exceeds the helper/daemon frame cap; narrow the request'')
                       MaxResponseFrame))
                | (w1, Some _) \<Rightarrow> (s1, w1))))"
  by pat_completeness auto

lemma ReadFrame_shorter: "ReadFrame dec r = (Inr v, r') \<Longrightarrow> length r' < length r"
  by (auto simp: ReadFrame_def ReadFrameWithCap_def read_full_def Let_def split: if_splits option.splits)

termination conn_loop
  by (relation "measure (\<lambda>(dec, enc, s, r, w). length r)") (auto dest: ReadFrame_shorter [OF sym])

declare conn_loop.simps [simp del]

definition handleConn where
  "handleConn dec enc s r w = conn_loop dec enc s r w"

subsection \<open>Binding the socket\<close>

text \<open>
  The first half of \<^verbatim>\<open>Serve\<close>, as the system calls it makes, each with its result; \<^const>\<open>None\<close> is success.
\<close>

datatype sys_call = Unlink bytes | ListenUnix bytes | Chmod bytes nat | Lchown bytes nat nat | CloseListener

datatype sys_error = SysNotExist | SysError bytes

fun sys_text :: "sys_error \<Rightarrow> bytes" where
  "sys_text SysNotExist = ''no such file or directory''"
| "sys_text (SysError m) = m"

text \<open>A failure after the socket exists closes the listener.\<close>

fun socket_steps :: "(sys_call \<Rightarrow> sys_error option) \<Rightarrow> (sys_call \<times> bytes) list \<Rightarrow> sys_call list \<times> bytes option" where
  "socket_steps sys [] = ([], None)"
| "socket_steps sys ((c, what) # cs) =
     (case sys c of
        Some e \<Rightarrow> ([c, CloseListener], Some (what @ sys_text e))
      | None \<Rightarrow> (case socket_steps sys cs of (done, r) \<Rightarrow> (c # done, r)))"

definition Serve_bind :: "(sys_call \<Rightarrow> sys_error option) \<Rightarrow> ServerConfig \<Rightarrow> sys_call list \<times> bytes option" where
  "Serve_bind sys cfg =
     (let path = sc_SocketPath cfg; gid = unat (sc_SocketGID cfg); parent = filepath_Dir path;
          chmod = (Chmod path (sc_SocketMode cfg), ''server: chmod socket: '');
          chown = (if gid \<noteq> 0
                   then [(Lchown parent 0 gid, ''server: chown runtime dir '' @ parent @ '': ''),
                         (Lchown path 0 gid, ''server: chown socket: '')]
                   else [])
      in case sys (Unlink path) of
           Some (SysError m) \<Rightarrow> ([Unlink path], Some (''server: stale socket remove: '' @ m))
         | _ \<Rightarrow>
             (case sys (ListenUnix path) of
                Some e \<Rightarrow> ([Unlink path, ListenUnix path], Some (''server: listen: '' @ sys_text e))
              | None \<Rightarrow>
                  (case socket_steps sys (chmod # chown) of
                     (done, r) \<Rightarrow> (Unlink path # ListenUnix path # done, r))))"

subsection \<open>The accept loop\<close>

text \<open>\<^verbatim>\<open>checkPeer\<close>: \<^const>\<open>None\<close> is a connection whose credentials cannot be read.\<close>

definition checkPeer :: "ServerConfig \<Rightarrow> 32 word option \<Rightarrow> bool" where
  "checkPeer cfg ucred = (case ucred of None \<Rightarrow> False | Some uid \<Rightarrow> uid = sc_AllowedUID cfg)"

definition nextBackoff :: "duration \<Rightarrow> duration" where
  "nextBackoff d =
     (if d = 0 then acceptBackoffMin
      else (let d2 = int64 (d * 2) in if acceptBackoffMax < d2 then acceptBackoffMax else d2))"

datatype accept_err = EMFILE | ENFILE | ENOBUFS | ENOMEM | ErrClosed | OtherErr bytes

definition isTemporaryAcceptErr :: "accept_err \<Rightarrow> bool" where
  "isTemporaryAcceptErr e \<longleftrightarrow> e = EMFILE \<or> e = ENFILE \<or> e = ENOBUFS \<or> e = ENOMEM"

text \<open>
  The loop and its connection goroutines. \<open>ac_sem\<close> is the number of tokens in the semaphore;
  \<open>ac_handlers\<close> the connections being served with their peers' user ids; \<open>ac_open\<close> the tracked
  connections; \<open>ac_ended\<close> the handlers that have returned and not yet given their token back;
  \<open>ac_stopped\<close> the loop's return, with \<open>ac_error\<close> when accepting failed for good.
\<close>

record accept_state =
  ac_sem :: nat
  ac_handlers :: "(nat \<times> 32 word) list"
  ac_open :: "nat list"
  ac_ended :: nat
  ac_backoff :: duration
  ac_stopped :: bool
  ac_error :: "accept_err option"

definition accept_init :: "accept_state \<Rightarrow> bool" where
  "accept_init s \<longleftrightarrow>
     s = \<lparr>ac_sem = 0, ac_handlers = [], ac_open = [], ac_ended = 0, ac_backoff = 0, ac_stopped = False, ac_error = None\<rparr>"

inductive accept_step :: "ServerConfig \<Rightarrow> accept_state \<Rightarrow> accept_state \<Rightarrow> bool" for cfg where
  ac_bad_peer: "\<not> ac_stopped s \<Longrightarrow> \<not> checkPeer cfg cred \<Longrightarrow> accept_step cfg s (s\<lparr>ac_backoff := 0\<rparr>)"
| ac_full: "\<not> ac_stopped s \<Longrightarrow> checkPeer cfg cred \<Longrightarrow> maxConns \<le> ac_sem s \<Longrightarrow> accept_step cfg s (s\<lparr>ac_backoff := 0\<rparr>)"
| ac_serve: "\<not> ac_stopped s \<Longrightarrow> checkPeer cfg (Some uid) \<Longrightarrow> ac_sem s < maxConns \<Longrightarrow>
    accept_step cfg s (s\<lparr>ac_backoff := 0, ac_sem := ac_sem s + 1, ac_open := c # ac_open s,
      ac_handlers := (c, uid) # ac_handlers s\<rparr>)"
| ac_temporary: "\<not> ac_stopped s \<Longrightarrow> isTemporaryAcceptErr e \<Longrightarrow>
    accept_step cfg s (s\<lparr>ac_backoff := nextBackoff (ac_backoff s)\<rparr>)"
| ac_closed: "\<not> ac_stopped s \<Longrightarrow> accept_step cfg s (s\<lparr>ac_open := [], ac_stopped := True\<rparr>)"
| ac_failed: "\<not> ac_stopped s \<Longrightarrow> \<not> isTemporaryAcceptErr e \<Longrightarrow> e \<noteq> ErrClosed \<Longrightarrow>
    accept_step cfg s (s\<lparr>ac_stopped := True, ac_error := Some e\<rparr>)"
| ac_end: "(c, uid) \<in> set (ac_handlers s) \<Longrightarrow>
    accept_step cfg s (s\<lparr>ac_handlers := remove1 (c, uid) (ac_handlers s), ac_open := remove1 c (ac_open s),
      ac_ended := ac_ended s + 1\<rparr>)"
| ac_release: "0 < ac_ended s \<Longrightarrow> accept_step cfg s (s\<lparr>ac_ended := ac_ended s - 1, ac_sem := ac_sem s - 1\<rparr>)"

definition accept_inv :: "ServerConfig \<Rightarrow> accept_state \<Rightarrow> bool" where
  [inv_defs]: "accept_inv cfg s \<longleftrightarrow>
     ac_sem s = length (ac_handlers s) + ac_ended s \<and> ac_sem s \<le> maxConns \<and>
     (\<forall>(c, uid) \<in> set (ac_handlers s). uid = sc_AllowedUID cfg) \<and>
     0 \<le> ac_backoff s \<and> ac_backoff s \<le> acceptBackoffMax"

lemma nextBackoff_bounds:
  "0 \<le> d \<Longrightarrow> d \<le> acceptBackoffMax \<Longrightarrow> 0 < nextBackoff d \<and> nextBackoff d \<le> acceptBackoffMax"
proof -
  assume d: "0 \<le> d" "d \<le> acceptBackoffMax"
  then have "int64 (d * 2) = d * 2" by (intro int64_id) (simp_all add: acceptBackoffMax_def)
  then show ?thesis using d by (auto simp: nextBackoff_def acceptBackoffMin_def acceptBackoffMax_def Let_def)
qed

lemma accept_inv_step: "accept_step cfg s t \<Longrightarrow> accept_inv cfg s \<Longrightarrow> accept_inv cfg t"
proof (induction rule: accept_step.induct)
  case (ac_serve s uid c)
  then show ?case by (auto simp: accept_inv_def checkPeer_def acceptBackoffMax_def)
next
  case (ac_end c uid s)
  then have "length (ac_handlers s) = Suc (length (remove1 (c, uid) (ac_handlers s)))"
    by (simp add: length_remove1_mem)
  then show ?case using ac_end set_remove1_subset [of "(c, uid)" "ac_handlers s"] by (auto simp: accept_inv_def)
next
  case (ac_temporary s e)
  then show ?case using nextBackoff_bounds [of "ac_backoff s"] by (simp add: accept_inv_def)
qed (auto simp: accept_inv_def acceptBackoffMax_def)

interpretation accept_loop: invariant_system accept_init "accept_step cfg" "accept_inv cfg" for cfg
proof (unfold_locales, goal_cases)
  case (1 s)
  then show ?case by (simp add: accept_init_def accept_inv_def acceptBackoffMax_def)
next
  case (2 s t)
  then show ?case using accept_inv_step by blast
qed

text \<open>
  C13: However connections arrive, fail and end, the helper serves at most sixteen at once, every
  one of them from a peer with the daemon's user id, and it never waits longer than a second
  before it accepts again.
\<close>

theorem accept_loop_safe:
  assumes "reachable accept_init (accept_step cfg) s"
  shows "length (ac_handlers s) \<le> 16 \<and> (\<forall>(c, uid) \<in> set (ac_handlers s). uid = sc_AllowedUID cfg) \<and>
    ac_sem s = length (ac_handlers s) + ac_ended s \<and> ac_backoff s \<le> Second"
proof -
  have "accept_inv cfg s" using assms by (rule accept_loop.reachable_inv)
  then show ?thesis by (auto simp: accept_inv_def maxConns_def acceptBackoffMax_def)
qed

definition sample_config :: ServerConfig where
  "sample_config = \<lparr>sc_SocketPath = ''/run/h.sock'', sc_AllowedUID = 101, sc_SocketGID = 0, sc_SocketMode = 0x1B0,
     sc_Registry = \<lparr>handlers = (\<lambda>op. if op = ''postqueue'' then Some (\<lambda>p d. HandlerOk p) else None)\<rparr>,
     sc_OpDeadline = Some (OpDeadline Defaults)\<rparr>"

definition one_served :: accept_state where
  "one_served = \<lparr>ac_sem = 1, ac_handlers = [(7, 101)], ac_open = [7], ac_ended = 0, ac_backoff = 0, ac_stopped = False, ac_error = None\<rparr>"

lemma one_served_reachable: "reachable accept_init (accept_step sample_config) one_served"
proof -
  let ?s0 = "\<lparr>ac_sem = 0, ac_handlers = [], ac_open = [], ac_ended = 0, ac_backoff = 0, ac_stopped = False, ac_error = None\<rparr>"
  have "reachable accept_init (accept_step sample_config) ?s0" by (rule reachable_init) (simp add: accept_init_def)
  moreover have "accept_step sample_config ?s0 one_served"
    using ac_serve [of ?s0 sample_config 101 7]
    by (simp add: checkPeer_def sample_config_def maxConns_def one_served_def)
  ultimately show ?thesis by (rule reachable_step)
qed

theorem accept_loop_safe_witness:
  "length (ac_handlers one_served) \<le> 16 \<and> list_all (\<lambda>(c, uid). uid = sc_AllowedUID sample_config) (ac_handlers one_served) \<and>
    ac_sem one_served = length (ac_handlers one_served) + ac_ended one_served \<and> ac_backoff one_served \<le> Second"
  using accept_loop_safe [OF one_served_reachable] by (simp add: list_all_iff)

subsection \<open>Requests and responses\<close>

text \<open>The responses to a sequence of requests, and the server after them.\<close>

fun dispatch_all :: "Server \<Rightarrow> Request list \<Rightarrow> Server \<times> Response list" where
  "dispatch_all s [] = (s, [])"
| "dispatch_all s (q # qs) =
     (let (s1, resp) = dispatch s q; (s2, resps) = dispatch_all s1 qs in (s2, resp # resps))"

lemma conn_loop_end: "conn_loop dec enc s [] w = (s, w)"
  by (subst conn_loop.simps) (simp add: ReadFrame_def ReadFrameWithCap_def read_full_def)

lemma conn_loop_one:
  assumes "dec body = Some q" and "length body \<le> MaxRequestFrame" and "dispatch s q = (s1, resp)"
    and "enc resp = Some out" and "length out \<le> MaxResponseFrame" and "w_room w = None"
  shows "conn_loop dec enc s (frame_bytes body @ r) w = conn_loop dec enc s1 r (w\<lparr>w_out := w_out w @ frame_bytes out\<rparr>)"
proof -
  have "ReadFrame dec (frame_bytes body @ r) = (Inr q, r)"
    using assms(1,2) by (simp add: ReadFrame_def ReadFrameWithCap_frame MaxRequestFrame_def)
  moreover have "WriteFrameWithCap enc w resp MaxResponseFrame = (w\<lparr>w_out := w_out w @ frame_bytes out\<rparr>, None)"
    using assms(4-6) by (simp add: WriteFrameWithCap_ok)
  ultimately show ?thesis using assms(3) by (subst conn_loop.simps) simp
qed

text \<open>
  C14: A connection on which the daemon sends well-formed request frames gets one response frame
  per request, in order, each the answer of the dispatcher to its request, as long as the
  responses encode within the frame cap.
\<close>

theorem connection_answers_in_order:
  assumes "\<forall>q \<in> set qs. \<exists>body. encq q = Some body \<and> dec body = Some q \<and> length body \<le> MaxRequestFrame"
    and "dispatch_all s qs = (s', resps)"
    and "\<forall>p \<in> set resps. \<exists>out. enc p = Some out \<and> length out \<le> MaxResponseFrame"
    and "w_room w = None"
  shows "handleConn dec enc s (concat (map (\<lambda>q. frame_bytes (the (encq q))) qs)) w =
    (s', w\<lparr>w_out := w_out w @ concat (map (\<lambda>p. frame_bytes (the (enc p))) resps)\<rparr>)"
  unfolding handleConn_def using assms
proof (induction qs arbitrary: s resps w)
  case Nil
  then show ?case by (simp add: conn_loop_end)
next
  case (Cons q qs)
  from Cons.prems(1) obtain body where b: "encq q = Some body" "dec body = Some q" "length body \<le> MaxRequestFrame"
    by auto
  obtain s1 resp where d: "dispatch s q = (s1, resp)" by fastforce
  with Cons.prems(2) obtain rs where rs: "dispatch_all s1 qs = (s', rs)" "resps = resp # rs"
    by (auto simp: split: prod.splits)
  with Cons.prems(3) obtain out where o: "enc resp = Some out" "length out \<le> MaxResponseFrame" by auto
  let ?w = "w\<lparr>w_out := w_out w @ frame_bytes out\<rparr>"
  have "conn_loop dec enc s1 (concat (map (\<lambda>q. frame_bytes (the (encq q))) qs)) ?w =
      (s', ?w\<lparr>w_out := w_out ?w @ concat (map (\<lambda>p. frame_bytes (the (enc p))) rs)\<rparr>)"
    using Cons.prems rs by (intro Cons.IH) auto
  then show ?case
    using conn_loop_one [of dec body q s s1 resp enc out w, OF b(2,3) d o Cons.prems(4)] b(1) o rs by simp
qed

definition text_encode :: "Request \<Rightarrow> bytes option" where
  "text_encode q = Some (req_op q @ '' '' @ req_param q)"

definition text_decode :: "bytes \<Rightarrow> Request option" where
  "text_decode b =
     (case index_byte b CHR '' '' of
        None \<Rightarrow> None
      | Some i \<Rightarrow> Some \<lparr>req_op = take i b, req_param = drop (i + 1) b, req_deadline_ms = 0\<rparr>)"

definition sample_requests :: "Request list" where
  "sample_requests = [\<lparr>req_op = ''postqueue'', req_param = ''x'', req_deadline_ms = 0\<rparr>,
     \<lparr>req_op = ''nonsense'', req_param = [], req_deadline_ms = 0\<rparr>]"

theorem connection_answers_in_order_witness:
  "handleConn text_decode (\<lambda>p. Some (resp_status p @ resp_code p)) (NewServer sample_config None)
     (concat (map (\<lambda>q. frame_bytes (the (text_encode q))) sample_requests)) \<lparr>w_out = [], w_room = None\<rparr> =
    (NewServer sample_config None, \<lparr>w_out = [], w_room = None\<rparr>\<lparr>w_out := w_out \<lparr>w_out = [], w_room = None\<rparr> @
       concat (map (\<lambda>p. frame_bytes (the (Some (resp_status p @ resp_code p))))
         [empty_response\<lparr>resp_status := StatusOK, resp_data := ''x''\<rparr>, errResp CodeBadOp ''unknown op token''])\<rparr>)"
proof (rule connection_answers_in_order)
  show "\<forall>q \<in> set sample_requests. \<exists>body. text_encode q = Some body \<and> text_decode body = Some q \<and> length body \<le> MaxRequestFrame"
    by (simp add: sample_requests_def text_encode_def text_decode_def MaxRequestFrame_def)
  have "IsKnownOp ''postqueue''" "\<not> IsKnownOp ''nonsense''"
    by (simp_all add: IsKnownOp_iff AllOps_def op_token_defs)
  then show "dispatch_all (NewServer sample_config None) sample_requests =
      (NewServer sample_config None, [empty_response\<lparr>resp_status := StatusOK, resp_data := ''x''\<rparr>, errResp CodeBadOp ''unknown op token''])"
    by (simp add: sample_requests_def dispatch_def LookupOp_def NewServer_def sample_config_def RequiredCap_def handler_response_def)
qed (simp_all add: empty_response_def errResp_def proto_code_defs MaxResponseFrame_def)

text \<open>
  An op outside the protocol, or without a handler, is answered \<^verbatim>\<open>bad_op\<close> and changes nothing;
  for every other request the answer is that of its handler, run with the request's parameter
  under a deadline between 250 ms and 15 s that no request can lengthen.
\<close>

lemma dispatch_runs_handler_bounded:
  assumes "sc_OpDeadline (sv_cfg s) = Some (OpDeadline c)"
  shows "case (if IsKnownOp (req_op req) then LookupOp (sc_Registry (sv_cfg s)) (req_op req) else None) of
      None \<Rightarrow> fst (dispatch s req) = s \<and> resp_status (snd (dispatch s req)) = ''err'' \<and> resp_code (snd (dispatch s req)) = ''bad_op''
    | Some h \<Rightarrow> \<exists>d. snd (dispatch s req) = handler_response (h (req_param req) d) \<and>
        250 * Millisecond \<le> d \<and> d \<le> 15 * Second \<and> d \<le> OpDeadline c (req_op req) 0 \<and>
        (0 < req_deadline_ms req \<longrightarrow> d \<le> max (250 * Millisecond) (req_deadline_ms req * Millisecond))"
proof (cases "if IsKnownOp (req_op req) then LookupOp (sc_Registry (sv_cfg s)) (req_op req) else None")
  case None
  then show ?thesis by (auto simp: dispatch_def errResp_def proto_code_defs split: if_splits)
next
  case (Some h)
  let ?d = "OpDeadline c (req_op req) (req_deadline_ms req)"
  have "snd (dispatch s req) = handler_response (h (req_param req) ?d)"
    using Some assms by (simp add: dispatch_def op_deadline_def Let_def split: if_splits)
  moreover have "250 * Millisecond \<le> ?d \<and> ?d \<le> 15 * Second \<and> ?d \<le> OpDeadline c (req_op req) 0"
    using OpDeadline_bounds [of c "req_op req" "req_deadline_ms req"] by simp
  moreover have "0 < req_deadline_ms req \<longrightarrow> ?d \<le> max (250 * Millisecond) (req_deadline_ms req * Millisecond)"
    using OpDeadline_caller [of "req_deadline_ms req" c "req_op req"] by blast
  ultimately show ?thesis using Some by auto
qed

subsection \<open>One warning per op\<close>

definition warn_inv :: "Server \<Rightarrow> bool" where
  [inv_defs]: "warn_inv s \<longleftrightarrow>
     distinct (map fst (sv_log s)) \<and> (\<forall>op. sv_warnedCaps s op \<longleftrightarrow> op \<in> fst ` set (sv_log s)) \<and>
     (\<forall>(op, want) \<in> set (sv_log s). (op, want) \<in> set RequiredCap \<and> \<not> capset_Has (sv_caps s) want)"

lemma dispatch_warn_inv:
  assumes "warn_inv s"
  shows "warn_inv (fst (dispatch s req)) \<and> sv_caps (fst (dispatch s req)) = sv_caps s"
proof -
  have "warn_inv (warnMissingCapOnce s op want) \<and> sv_caps (warnMissingCapOnce s op want) = sv_caps s"
    if "(op, want) \<in> set RequiredCap" "\<not> capset_Has (sv_caps s) want" for op want
    using assms that by (auto simp: warn_inv_def warnMissingCapOnce_def)
  then show ?thesis
    using assms map_of_SomeD [of RequiredCap "req_op req"]
    by (auto simp: dispatch_def Let_def split: option.splits)
qed

lemma dispatch_all_warn_inv: "warn_inv s \<Longrightarrow> warn_inv (fst (dispatch_all s qs))"
proof (induction qs arbitrary: s)
  case Nil
  then show ?case by simp
next
  case (Cons q qs)
  then show ?case using dispatch_warn_inv [of s q] by (auto simp: split_beta)
qed

text \<open>
  Over any sequence of requests the helper warns at most once per op, and only about an op
  whose required capability is missing from the effective set it read at start.
\<close>

theorem missing_cap_warned_once:
  "let l = sv_log (fst (dispatch_all (NewServer cfg status) qs))
   in distinct (map fst l) \<and> (\<forall>(op, want) \<in> set l. (op, want) \<in> set RequiredCap \<and> \<not> capset_Has (Effective status) want)"
proof -
  have w: "warn_inv (NewServer cfg status)" by (simp add: warn_inv_def NewServer_def)
  have "sv_caps (fst (dispatch_all s qs)) = sv_caps s" if "warn_inv s" for s
    using that
  proof (induction qs arbitrary: s)
    case (Cons q qs)
    then show ?case using dispatch_warn_inv [of s q] by (auto simp: split_beta)
  qed simp
  with w have "sv_caps (fst (dispatch_all (NewServer cfg status) qs)) = Effective status"
    by (simp add: NewServer_def)
  then show ?thesis using dispatch_all_warn_inv [OF w, of qs] by (simp add: warn_inv_def Let_def)
qed

theorem missing_cap_warned_once_witness:
  "let l = sv_log (fst (dispatch_all (NewServer sample_config None) sample_requests))
   in distinct (map fst l) \<and> (\<forall>(op, want) \<in> set l. (op, want) \<in> set RequiredCap \<and> \<not> capset_Has (Effective None) want)"
  by (rule missing_cap_warned_once)

end
