(* ===== verification/CapsTemplate.thy ===== *)
theory CapsTemplate
  imports CapsPlan DaemonConfig GoPath
begin

text \<open>
  \<^verbatim>\<open>daemon/cmd/capstemplate\<close>: the generator of the two systemd drop-ins. What the operating
  system answers (environment, \<^verbatim>\<open>stat\<close>, file contents, whether a removal or a write succeeds) and
  the YAML decoder are arguments; the result is the exit code and the changes made to the file
  system, in order. The messages on standard error are left out.
\<close>

subsection \<open>Rendering\<close>

definition selfPath :: bytes where
  "selfPath = ''/usr/sbin/host-health-mcp-caps-template''"

abbreviation nl :: bytes where "nl \<equiv> [CHR 0x0A]"

definition renderCaps :: "bytes \<Rightarrow> Plan \<Rightarrow> bytes" where
  "renderCaps manifestPath p =
     ''# Auto-generated by '' @ selfPath @ nl @
     ''# from '' @ manifestPath @ ''.'' @ nl @
     ''# Edit '' @ manifestPath @ '' and re-run the generator to refresh.'' @ nl @
     ''[Service]'' @ nl @
     ''CapabilityBoundingSet='' @ concat (map (\<lambda>c. c @ '' '') (Bounding p)) @ nl @
     ''AmbientCapabilities='' @ concat (map (\<lambda>c. c @ '' '') (Ambient p)) @ nl"

definition renderIPFilter :: "bytes \<Rightarrow> bytes list \<Rightarrow> bytes" where
  "renderIPFilter daemonYML allow =
     ''# Auto-generated by '' @ selfPath @ nl @
     ''# from '' @ daemonYML @ '' (ip_filter_allow).'' @ nl @
     ''# NOTE: these rules apply to inbound AND outbound packets.'' @ nl @
     ''[Service]'' @ nl @
     ''IPAddressDeny=any'' @ nl @
     concat (map (\<lambda>r. ''IPAddressAllow='' @ r @ nl) allow)"

subsection \<open>The program\<close>

datatype stat_result = StatOk | StatAbsent | StatError

record os =
  os_env :: "bytes \<rightharpoonup> bytes"
  os_stat :: "bytes \<Rightarrow> stat_result"
  os_remove_ok :: "bytes \<Rightarrow> bool"
  os_mkdir_ok :: "bytes \<Rightarrow> bool"
  os_write_ok :: "bytes \<Rightarrow> bool"
  os_read :: "bytes \<Rightarrow> file_read"

datatype effect = Removed bytes | MadeDir bytes | Wrote bytes bytes

definition env :: "os \<Rightarrow> bytes \<Rightarrow> bytes \<Rightarrow> bytes" where
  "env os name def = (case os_env os name of Some v \<Rightarrow> if v \<noteq> [] then v else def | None \<Rightarrow> def)"

definition writeFile :: "os \<Rightarrow> bytes \<Rightarrow> bytes \<Rightarrow> bytes \<Rightarrow> effect list \<times> bool" where
  "writeFile os dir path content =
     (if \<not> os_mkdir_ok os dir then ([], False)
      else if \<not> os_write_ok os path then ([MadeDir dir], False)
      else ([MadeDir dir, Wrote path content], True))"

datatype args_result = ArgsExit int | ArgsHint bool

fun parse_args :: "bool \<Rightarrow> bytes list \<Rightarrow> args_result" where
  "parse_args hint [] = ArgsHint hint"
| "parse_args hint (a # as) =
     (if a = ''--hint'' then parse_args True as
      else if a = ''-h'' \<or> a = ''--help'' then ArgsExit 0
      else ArgsExit 2)"

definition manifestPath :: "os \<Rightarrow> bytes" where
  "manifestPath os = env os ''MANIFEST'' ''/etc/host-health-mcp/manifest.yml''"

definition dropinDir :: "os \<Rightarrow> bytes" where
  "dropinDir os = env os ''DROPIN_DIR'' ''/etc/systemd/system/host-health-mcp-helper.service.d''"

definition daemonDropinDir :: "os \<Rightarrow> bytes" where
  "daemonDropinDir os = env os ''DAEMON_DROPIN_DIR'' ''/etc/systemd/system/host-health-mcp.service.d''"

definition daemonYML :: "os \<Rightarrow> bytes" where
  "daemonYML os = env os ''DAEMON_YML'' ''/etc/host-health-mcp/daemon.yml''"

abbreviation filterPath :: "os \<Rightarrow> bytes" where
  "filterPath os \<equiv> filepath_Join (daemonDropinDir os) ''10-ip-filter.conf''"

abbreviation capsPath :: "os \<Rightarrow> bytes" where
  "capsPath os \<equiv> filepath_Join (dropinDir os) ''caps.conf''"

text \<open>The list of allowed networks from \<^verbatim>\<open>daemon.yml\<close>, and the exit code so far.\<close>

definition ip_filter ::
  "(bytes \<Rightarrow> Daemon \<Rightarrow> Daemon \<times> decode_error option) \<Rightarrow> os \<Rightarrow> bytes list \<times> int" where
  "ip_filter decd os =
     (case os_stat os (daemonYML os) of
        StatOk \<Rightarrow>
          (case LoadDaemonLenient (os_read os) decd (daemonYML os) of
             (d, ws, Some e) \<Rightarrow> ([], 1)
           | (d, ws, None) \<Rightarrow> (d_IPFilterAllow d, 0))
      | StatAbsent \<Rightarrow> ([], 0)
      | StatError \<Rightarrow> ([], 1))"

definition write_dropins ::
  "(bytes \<Rightarrow> Daemon \<Rightarrow> Daemon \<times> decode_error option) \<Rightarrow> os \<Rightarrow> Plan \<Rightarrow> int \<times> effect list" where
  "write_dropins decd os p =
     (let (allow, rc0) = ip_filter decd os;
          (fx1, rc1) = (if allow \<noteq> [] then
             (let (fx, ok) = writeFile os (daemonDropinDir os) (filterPath os) (renderIPFilter (daemonYML os) allow)
              in (fx, if ok then rc0 else 1))
            else ([], rc0));
          (fx2, ok2) = writeFile os (dropinDir os) (capsPath os) (renderCaps (manifestPath os) p)
      in (if ok2 then rc1 else 1, fx1 @ fx2))"

text \<open>Removing the drop-in of the releases up to 2.0.0.\<close>

abbreviation stalePath :: "os \<Rightarrow> bytes" where
  "stalePath os \<equiv> filepath_Join (daemonDropinDir os) ''10-ip-egress.conf''"

definition retire_stale :: "os \<Rightarrow> effect list \<times> bool" where
  "retire_stale os =
     (case os_stat os (stalePath os) of
        StatOk \<Rightarrow> if os_remove_ok os (stalePath os) then ([Removed (stalePath os)], True) else ([], False)
      | StatAbsent \<Rightarrow> ([], True)
      | StatError \<Rightarrow> ([], False))"

definition run ::
  "(bytes \<Rightarrow> Manifest \<Rightarrow> Manifest \<times> decode_error option) \<Rightarrow>
   (bytes \<Rightarrow> Daemon \<Rightarrow> Daemon \<times> decode_error option) \<Rightarrow> os \<Rightarrow> bytes list \<Rightarrow> int \<times> effect list" where
  "run decm decd os args =
     (case parse_args False args of
        ArgsExit rc \<Rightarrow> (rc, [])
      | ArgsHint hint \<Rightarrow>
          let (fx0, ok0) = retire_stale os
          in if \<not> ok0 then (1, fx0)
             else
               (case os_stat os (manifestPath os) of
                  StatAbsent \<Rightarrow> (0, fx0)
                | StatError \<Rightarrow> (1, fx0)
                | StatOk \<Rightarrow>
                    (case LoadManifestLenient (os_read os) decm (manifestPath os) of
                       (m, ws, Some e) \<Rightarrow> (1, fx0)
                     | (m, ws, None) \<Rightarrow>
                         (let p = caps_For (m_EnabledTools m) (m_WorkloadPlugins m) (m_StorageBackends m);
                              (rc, fx) = write_dropins decd os p
                          in (rc, fx0 @ fx)))))"

subsection \<open>The paths written\<close>

lemma dropin_paths_distinct:
  "capsPath os \<noteq> filterPath os"
  "stalePath os \<noteq> filterPath os"
proof -
  obtain a b c where p: "capsPath os = a @ ''caps.conf''" "filterPath os = b @ ''10-ip-filter.conf''"
    "stalePath os = c @ ''10-ip-egress.conf''"
    using filepath_Join_suffix [of "''caps.conf''" "dropinDir os"]
      filepath_Join_suffix [of "''10-ip-filter.conf''" "daemonDropinDir os"]
      filepath_Join_suffix [of "''10-ip-egress.conf''" "daemonDropinDir os"] by auto
  have "rev (a @ ''caps.conf'') \<noteq> rev (b @ ''10-ip-filter.conf'')" by simp
  then show "capsPath os \<noteq> filterPath os" unfolding p by metis
  have "rev (c @ ''10-ip-egress.conf'') \<noteq> rev (b @ ''10-ip-filter.conf'')" by simp
  then show "stalePath os \<noteq> filterPath os" unfolding p by metis
qed

subsection \<open>What the generator does\<close>

lemma writeFile_simps:
  "e \<in> set (fst (writeFile os dir path content)) \<Longrightarrow> e = MadeDir dir \<or> e = Wrote path content"
  "snd (writeFile os dir path content) \<Longrightarrow> Wrote path content \<in> set (fst (writeFile os dir path content))"
  by (auto simp: writeFile_def split: if_splits)

lemma write_dropins_effects:
  "e \<in> set (snd (write_dropins decd os p)) \<Longrightarrow>
     e = MadeDir (dropinDir os) \<or> e = Wrote (capsPath os) (renderCaps (manifestPath os) p) \<or>
     (fst (ip_filter decd os) \<noteq> [] \<and>
      (e = MadeDir (daemonDropinDir os) \<or>
       e = Wrote (filterPath os) (renderIPFilter (daemonYML os) (fst (ip_filter decd os)))))"
  by (auto simp: write_dropins_def Let_def split: prod.splits if_splits dest!: writeFile_simps(1))
    (metis fst_conv writeFile_simps(1))+

lemma write_dropins_writes:
  "fst (write_dropins decd os p) = 0 \<Longrightarrow>
     Wrote (capsPath os) (renderCaps (manifestPath os) p) \<in> set (snd (write_dropins decd os p))"
  by (auto simp: write_dropins_def Let_def split: prod.splits if_splits)
    (metis fst_conv snd_conv writeFile_simps(2))+

lemma retire_stale_effects: "e \<in> set (fst (retire_stale os)) \<Longrightarrow> e = Removed (stalePath os)"
  by (auto simp: retire_stale_def split: stat_result.splits if_splits)

lemma run_cases:
  assumes "run decm decd os args = (rc, fx)"
  obtains (none) "\<forall>e \<in> set fx. e = Removed (stalePath os)"
      "rc = 0 \<longrightarrow> (\<exists>c. parse_args False args = ArgsExit c) \<or> os_stat os (manifestPath os) = StatAbsent"
  | (plan) m ws fx0 where "LoadManifestLenient (os_read os) decm (manifestPath os) = (m, ws, None)"
      "\<forall>e \<in> set fx0. e = Removed (stalePath os)"
      "rc = fst (write_dropins decd os (caps_For (m_EnabledTools m) (m_WorkloadPlugins m) (m_StorageBackends m)))"
      "fx = fx0 @ snd (write_dropins decd os (caps_For (m_EnabledTools m) (m_WorkloadPlugins m) (m_StorageBackends m)))"
proof (cases "parse_args False args")
  case (ArgsExit c)
  then show ?thesis using assms none by (simp add: run_def)
next
  case (ArgsHint h)
  obtain fx0 ok where r: "retire_stale os = (fx0, ok)" by fastforce
  then have f: "\<forall>e \<in> set fx0. e = Removed (stalePath os)" using retire_stale_effects [of _ os] by simp
  obtain m ws er where l: "LoadManifestLenient (os_read os) decm (manifestPath os) = (m, ws, er)"
    by (metis prod_cases3)
  show ?thesis
  proof (cases "ok \<and> os_stat os (manifestPath os) = StatOk \<and> er = None")
    case True
    then have "rc = fst (write_dropins decd os (caps_For (m_EnabledTools m) (m_WorkloadPlugins m) (m_StorageBackends m)))"
      "fx = fx0 @ snd (write_dropins decd os (caps_For (m_EnabledTools m) (m_WorkloadPlugins m) (m_StorageBackends m)))"
      using assms ArgsHint r l by (simp_all add: run_def Let_def split_beta)
    then show ?thesis using plan l f True by simp
  next
    case False
    then have "fx = fx0" "rc = 0 \<longrightarrow> os_stat os (manifestPath os) = StatAbsent"
      using assms ArgsHint r l
      by (auto simp: run_def split: if_splits stat_result.splits option.splits)
    then show ?thesis using none f by simp
  qed
qed

text \<open>
  C20: The generator writes the helper's drop-in only from a manifest that parsed, and then its
  content is the rendering of exactly the planned capabilities; and when it exits with 0 on a
  host with a manifest it has written it.
\<close>

theorem caps_conf_exact:
  assumes "run decm decd os args = (rc, fx)"
  shows "(\<forall>content. Wrote (capsPath os) content \<in> set fx \<longrightarrow>
      (\<exists>m ws. LoadManifestLenient (os_read os) decm (manifestPath os) = (m, ws, None) \<and>
        content = renderCaps (manifestPath os)
          (caps_For (m_EnabledTools m) (m_WorkloadPlugins m) (m_StorageBackends m)))) \<and>
    (rc = 0 \<and> os_stat os (manifestPath os) \<noteq> StatAbsent \<and> parse_args False args = ArgsHint h \<longrightarrow>
      (\<exists>content. Wrote (capsPath os) content \<in> set fx))"
  using assms
proof (cases rule: run_cases)
  case none
  then show ?thesis by auto
next
  case (plan m ws fx0)
  let ?p = "caps_For (m_EnabledTools m) (m_WorkloadPlugins m) (m_StorageBackends m)"
  have "content = renderCaps (manifestPath os) ?p" if "Wrote (capsPath os) content \<in> set fx" for content
  proof -
    have "Wrote (capsPath os) content \<in> set (snd (write_dropins decd os ?p))"
      using that plan(2,4) by auto
    from write_dropins_effects [OF this] show ?thesis using dropin_paths_distinct(1) by auto
  qed
  moreover have "rc = 0 \<Longrightarrow> Wrote (capsPath os) (renderCaps (manifestPath os) ?p) \<in> set fx"
    using plan(3,4) write_dropins_writes [of decd os ?p] by auto
  ultimately show ?thesis using plan(1) by blast
qed

definition sample_os :: os where
  "sample_os = \<lparr>os_env = Map.empty, os_stat = (\<lambda>_. StatOk), os_remove_ok = (\<lambda>_. True), os_mkdir_ok = (\<lambda>_. True),
     os_write_ok = (\<lambda>_. True), os_read = (\<lambda>_. Content ''enabled_tools: [storage]'')\<rparr>"

definition sample_decm :: "bytes \<Rightarrow> Manifest \<Rightarrow> Manifest \<times> decode_error option" where
  "sample_decm b m = (m\<lparr>m_EnabledTools := [''storage'']\<rparr>, None)"

definition sample_decd :: "bytes \<Rightarrow> Daemon \<Rightarrow> Daemon \<times> decode_error option" where
  "sample_decd b d = (d, None)"

theorem caps_conf_exact_witness:
  "\<exists>content. Wrote (capsPath sample_os) content \<in> set (snd (run sample_decm sample_decd sample_os [])) \<and>
     content = renderCaps (manifestPath sample_os) (caps_For [''storage''] [] [])"
proof -
  have r: "run sample_decm sample_decd sample_os [] =
      (fst (run sample_decm sample_decd sample_os []), snd (run sample_decm sample_decd sample_os []))" by simp
  have rc: "fst (run sample_decm sample_decd sample_os []) = 0" by code_simp
  have pa: "os_stat sample_os (manifestPath sample_os) \<noteq> StatAbsent" "parse_args False [] = ArgsHint False"
    by (simp_all add: sample_os_def)
  have lm: "LoadManifestLenient (os_read sample_os) sample_decm (manifestPath sample_os) =
      (zeroManifest\<lparr>m_EnabledTools := [''storage'']\<rparr>, [], None)"
    by (simp add: LoadManifestLenient_def decodeYAMLLenient_def sample_os_def sample_decm_def)
  obtain content where c: "Wrote (capsPath sample_os) content \<in> set (snd (run sample_decm sample_decd sample_os []))"
    using caps_conf_exact [OF r, of False] rc pa by blast
  moreover have "content = renderCaps (manifestPath sample_os) (caps_For [''storage''] [] [])"
    using conjunct1 [OF caps_conf_exact [OF r], rule_format, OF c] by (auto simp: lm zeroManifest_def)
  ultimately show ?thesis by blast
qed

text \<open>
  When \<^verbatim>\<open>ip_filter_allow\<close> is absent or empty the generator neither writes nor removes
  \<^verbatim>\<open>10-ip-filter.conf\<close>: a drop-in left there by an earlier run stays in force.
\<close>

theorem stale_ip_filter_kept:
  assumes "fst (ip_filter decd os) = []"
  shows "Removed (filterPath os) \<notin> set (snd (run decm decd os args)) \<and>
    Wrote (filterPath os) content \<notin> set (snd (run decm decd os args))"
proof -
  obtain rc fx where r: "run decm decd os args = (rc, fx)" by fastforce
  then show ?thesis
  proof (cases rule: run_cases)
    case none
    then show ?thesis using r dropin_paths_distinct(2) [of os] by fastforce
  next
    case (plan m ws fx0)
    have "Removed (filterPath os) \<notin> set fx0 \<and> Wrote (filterPath os) content \<notin> set fx0"
      using plan(2) dropin_paths_distinct(2) [of os] by fastforce
    moreover have "e \<noteq> Removed (filterPath os) \<and> e \<noteq> Wrote (filterPath os) content"
      if "e \<in> set (snd (write_dropins decd os (caps_For (m_EnabledTools m) (m_WorkloadPlugins m) (m_StorageBackends m))))" for e
      using write_dropins_effects [OF that] assms dropin_paths_distinct(1) [of os] by auto
    ultimately show ?thesis using r plan(4) by auto
  qed
qed

theorem stale_ip_filter_kept_witness:
  "Removed (filterPath sample_os) \<notin> set (snd (run sample_decm sample_decd sample_os [])) \<and>
    Wrote (filterPath sample_os) ''x'' \<notin> set (snd (run sample_decm sample_decd sample_os []))"
  by (rule stale_ip_filter_kept)
    (simp add: ip_filter_def sample_os_def LoadDaemonLenient_def decodeYAMLLenient_def sample_decd_def defaultDaemon_def)

subsection \<open>Reading the drop-in back\<close>

lemma Fields_spaced: "\<forall>t \<in> set ts. t \<noteq> [] \<and> space_free t \<Longrightarrow> Fields (concat (map (\<lambda>t. t @ '' '') ts)) = ts"
proof (induction ts)
  case Nil
  then show ?case by (simp add: Fields_def fields_go.simps)
next
  case (Cons t ts)
  then have "fields_go [] (t @ CHR '' '' # concat (map (\<lambda>t. t @ '' '') ts)) = t # fields_go [] (concat (map (\<lambda>t. t @ '' '') ts))"
    by (subst fields_go_token) (auto simp: fields_go_space)
  with Cons show ?case by (simp add: Fields_def)
qed

lemma cap_tokens:
  assumes "c \<in> set (Bounding (caps_For tools plugins backends))"
  shows "c \<noteq> [] \<and> space_free c \<and> CHR 0x0A \<notin> set c"
proof -
  have "c \<in> {capChown, capAuditControl, capDACReadSearch, capSysRawIO, capSysAdmin, capNetAdmin}"
    using assms unfolding For_simps set_granted_caps by (auto split: if_splits)
  moreover have "list_all (\<lambda>c. c \<noteq> [] \<and> space_free c \<and> CHR 0x0A \<notin> set c)
      [capChown, capAuditControl, capDACReadSearch, capSysRawIO, capSysAdmin, capNetAdmin]"
    by code_simp
  ultimately show ?thesis by auto
qed

text \<open>
  Splitting the two settings of the rendered drop-in at white space gives back exactly the
  planned bounding and ambient capabilities, for every manifest and every path without a line
  feed.
\<close>

theorem rendered_caps_read_back:
  assumes "CHR 0x0A \<notin> set mp" and "p = caps_For tools plugins backends"
  shows "\<exists>hdr b a. renderCaps mp p = terminated (hdr @ [''CapabilityBoundingSet='' @ b, ''AmbientCapabilities='' @ a]) \<and>
    (\<forall>l \<in> set (hdr @ [b, a]). CHR 0x0A \<notin> set l) \<and> last hdr = ''[Service]'' \<and>
    Fields b = Bounding p \<and> Fields a = Ambient p"
proof -
  let ?b = "concat (map (\<lambda>c. c @ '' '') (Bounding p))" and ?a = "concat (map (\<lambda>c. c @ '' '') (Ambient p))"
  let ?hdr = "[''# Auto-generated by '' @ selfPath, ''# from '' @ mp @ ''.'',
     ''# Edit '' @ mp @ '' and re-run the generator to refresh.'', ''[Service]'']"
  have a: "set (Ambient p) \<subseteq> set (Bounding p)" using assms(2) by (auto simp: For_simps(2))
  have t: "\<forall>c \<in> set (Bounding p). c \<noteq> [] \<and> space_free c \<and> CHR 0x0A \<notin> set c"
    using cap_tokens assms(2) by blast
  have "Fields ?b = Bounding p" "Fields ?a = Ambient p"
    using a t by (auto intro!: Fields_spaced)
  moreover have "renderCaps mp p = terminated (?hdr @ [''CapabilityBoundingSet='' @ ?b, ''AmbientCapabilities='' @ ?a])"
    by (simp add: renderCaps_def)
  moreover have "\<forall>l \<in> set (?hdr @ [?b, ?a]). CHR 0x0A \<notin> set l"
    using a t assms(1) by (auto simp: selfPath_def)
  moreover have "last ?hdr = ''[Service]''" by simp
  ultimately show ?thesis by blast
qed

theorem rendered_caps_read_back_witness:
  "\<exists>hdr b a. renderCaps ''/etc/m.yml'' (caps_For [''storage''] [] []) =
      terminated (hdr @ [''CapabilityBoundingSet='' @ b, ''AmbientCapabilities='' @ a]) \<and>
    (\<forall>l \<in> set (hdr @ [b, a]). CHR 0x0A \<notin> set l) \<and> last hdr = ''[Service]'' \<and>
    Fields b = Bounding (caps_For [''storage''] [] []) \<and> Fields a = Ambient (caps_For [''storage''] [] [])"
  by (rule rendered_caps_read_back) simp_all

end
