(* ===== verification/Json.thy ===== *)
theory Json
  imports GoConv
begin

text \<open>
  JSON values as Go's \<^verbatim>\<open>any\<close> holds them after decoding: an object is a list of members with distinct
  names. A number keeps its text.
\<close>

datatype json =
    JNull
  | JBool bool
  | JNum bytes
  | JStr bytes
  | JArr "json list"
  | JObj "(bytes \<times> json) list"

text \<open>A member of an object as a string: Go's \<^verbatim>\<open>v, _ := m[k].(string)\<close>, empty when it is not one.\<close>

definition string_member :: "(bytes \<times> json) list \<Rightarrow> bytes \<Rightarrow> bytes" where
  "string_member m k = (case map_of m k of Some (JStr s) \<Rightarrow> s | _ \<Rightarrow> [])"

end
