(* ===== verification/Plugin.thy ===== *)
theory Plugin
  imports Json Netip Linescan CapsPlan
begin

text \<open>
  The MCP plugin: \<^verbatim>\<open>plugin/internal/client\<close> (the HTTPS client towards the daemons),
  \<^verbatim>\<open>plugin/internal/mcp\<close> (the JSON-RPC server on standard input and output, with its per-host
  schema gate) and the tool table of \<^verbatim>\<open>plugin/cmd/plugin\<close>. The network is a function from the
  number of calls made so far and the request to its result; JSON decoding and encoding are
  arguments. TLS set-up is not modelled.
\<close>

subsection \<open>Hosts\<close>

record client_Config =
  cc_Port :: int
  cc_CertPath :: bytes
  cc_KeyPath :: bytes
  cc_CAPath :: bytes
  cc_DNSSuffix :: bytes
  cc_HTTPTimeout :: duration

datatype host_error = EmptyHost | UnterminatedBracket bytes | GarbageAfterBracket bytes | BareIPv6 bytes

definition hostHasPort :: "bytes \<Rightarrow> host_error + bool" where
  "hostHasPort s =
     (if s = [] then Inl EmptyHost
      else if hd s = CHR ''['' then
        (case index_byte s CHR '']'' of
           None \<Rightarrow> Inl (UnterminatedBracket s)
         | Some i \<Rightarrow>
             (case drop (i + 1) s of
                [] \<Rightarrow> Inr False
              | c # _ \<Rightarrow> if c = CHR '':'' then Inr True else Inl (GarbageAfterBracket s)))
      else
        (let colons = count_byte s CHR '':''
         in if colons = 0 then Inr False
            else if colons = 1 then Inr True
            else Inl (BareIPv6 s)))"

definition isBareIPv6 :: "bytes \<Rightarrow> bool" where
  "isBareIPv6 s = (if s = [] \<or> hd s = CHR ''['' then False else 2 \<le> count_byte s CHR '':'')"

definition ResolveHost :: "client_Config \<Rightarrow> bytes \<Rightarrow> host_error + bytes" where
  "ResolveHost cfg host =
     (if host = [] then Inl EmptyHost
      else case hostHasPort host of
             Inl e \<Rightarrow> Inl e
           | Inr hasExplicitPort \<Rightarrow>
               (let host1 = (if cc_DNSSuffix cfg \<noteq> [] \<and> \<not> contains_sub host ''.'' \<and> \<not> hasExplicitPort \<and> hd host \<noteq> CHR ''[''
                             then host @ ''.'' @ cc_DNSSuffix cfg else host)
                in if \<not> hasExplicitPort then
                     (let port = (if cc_Port cfg = 0 then 8443 else cc_Port cfg);
                          host2 = (if isBareIPv6 host1 then ''['' @ host1 @ '']'' else host1)
                      in Inr (host2 @ '':'' @ itoa port))
                   else Inr host1))"

subsection \<open>Calling a daemon\<close>

datatype net_result = BuildFail bytes | NetFail bytes | ReadFail bytes | NetResp int bytes

record client_Error =
  ce_HTTPStatus :: int
  ce_Code :: bytes
  ce_Message :: bytes

definition client_Error_String :: "client_Error \<Rightarrow> bytes" where
  "client_Error_String e =
     ''daemon: '' @ ce_Code e @ '': '' @ ce_Message e @ '' (http '' @ itoa (ce_HTTPStatus e) @ '')''"

datatype call_result = Transport bytes | DaemonError client_Error | CallOk bytes

type_synonym network = "nat \<Rightarrow> bytes \<Rightarrow> bytes \<Rightarrow> net_result"

text \<open>\<^verbatim>\<open>Client.Call\<close>; \<open>errbody\<close> reads the code and message of an error body.\<close>

definition client_Call ::
  "(bytes \<Rightarrow> (bytes \<times> bytes) option) \<Rightarrow> network \<Rightarrow> nat \<Rightarrow> bytes \<Rightarrow> bytes \<Rightarrow> bytes \<Rightarrow> call_result" where
  "client_Call errbody net n host tool body =
     (case net n (''https://'' @ host @ ''/v1/'' @ tool) body of
        BuildFail m \<Rightarrow> Transport (''client: build request: '' @ m)
      | NetFail m \<Rightarrow> Transport (''client: do: '' @ m)
      | ReadFail m \<Rightarrow> Transport (''client: read body: '' @ m)
      | NetResp status out \<Rightarrow>
          if 400 \<le> status then
            (case errbody out of
               Some (code, msg) \<Rightarrow>
                 if code = [] then
                   DaemonError \<lparr>ce_HTTPStatus = status, ce_Code = ''internal_error'',
                     ce_Message = ''unparseable error body (status '' @ itoa status @ '')''\<rparr>
                 else DaemonError \<lparr>ce_HTTPStatus = status, ce_Code = code, ce_Message = msg\<rparr>
             | None \<Rightarrow>
                 DaemonError \<lparr>ce_HTTPStatus = status, ce_Code = ''internal_error'',
                   ce_Message = ''unparseable error body (status '' @ itoa status @ '')''\<rparr>)
          else CallOk out)"

subsection \<open>The schema gate\<close>

definition plugin_SchemaVersion :: bytes where
  "plugin_SchemaVersion = ''1.2.0''"

definition parseMajor :: "bytes \<Rightarrow> int option" where
  "parseMajor semver =
     (case index_byte semver CHR ''.'' of
        None \<Rightarrow> None
      | Some dot \<Rightarrow> if dot = 0 then None else atoi (take dot semver))"

record hostCompat =
  hc_ok :: bool
  hc_reason :: bytes

record mcp_Tool =
  mt_Name :: bytes
  mt_DaemonRPC :: bytes
  mt_Description :: bytes
  mt_TimeoutS :: int
  mt_ArgsProperties :: "(bytes \<times> json) list"
  mt_ArgsRequired :: "bytes list"

text \<open>\<open>ms_calls\<close> records the calls made over the network: host, tool, body and timeout in seconds.\<close>

record net_call =
  nc_host :: bytes
  nc_tool :: bytes
  nc_body :: bytes
  nc_timeout :: int

record mcp_Server =
  ms_cfg :: client_Config
  ms_tools :: "mcp_Tool list"
  ms_defaultHost :: bytes
  ms_name :: bytes
  ms_version :: bytes
  ms_compat :: "bytes \<rightharpoonup> hostCompat"
  ms_calls :: "net_call list"

definition NewMcp :: "client_Config \<Rightarrow> mcp_Tool list \<Rightarrow> bytes \<Rightarrow> bytes \<Rightarrow> bytes \<Rightarrow> mcp_Server" where
  "NewMcp cfg ts def name ver =
     \<lparr>ms_cfg = cfg, ms_tools = ts, ms_defaultHost = def, ms_name = name, ms_version = ver,
      ms_compat = Map.empty, ms_calls = []\<rparr>"

text \<open>
  The JSON functions: a request line, the call parameters, an error body, a manifest's version, an
  object. \<open>Inl\<close> is the text of the codec's error.
\<close>

record jsonRPCRequest =
  jr_ID :: bytes
  jr_Method :: bytes
  jr_Params :: bytes

record codec =
  cd_request :: "bytes \<Rightarrow> jsonRPCRequest option"
  cd_params :: "bytes \<Rightarrow> bytes + bytes \<times> (bytes \<times> json) list"
  cd_errbody :: "bytes \<Rightarrow> (bytes \<times> bytes) option"
  cd_version :: "bytes \<Rightarrow> bytes option"
  cd_object :: "(bytes \<times> json) list \<Rightarrow> bytes + bytes"

definition classify_version :: "bytes option \<Rightarrow> hostCompat" where
  "classify_version v =
     (case v of
        None \<Rightarrow> \<lparr>hc_ok = False, hc_reason = ''daemon manifest missing schema_version''\<rparr>
      | Some ver \<Rightarrow>
          if ver = [] then \<lparr>hc_ok = False, hc_reason = ''daemon manifest missing schema_version''\<rparr>
          else case parseMajor ver of
                 None \<Rightarrow> \<lparr>hc_ok = False, hc_reason = ''unparseable daemon schema_version '' @ ver\<rparr>
               | Some m \<Rightarrow>
                   if (case parseMajor plugin_SchemaVersion of None \<Rightarrow> 0 | Some p \<Rightarrow> p) \<noteq> m then
                     \<lparr>hc_ok = False, hc_reason = ''plugin schema '' @ plugin_SchemaVersion @
                        '' incompatible with daemon schema '' @ ver @ '' (major mismatch)''\<rparr>
                   else \<lparr>hc_ok = True, hc_reason = []\<rparr>)"

text \<open>The cache of verdicts, by resolved host.\<close>

definition hasCompat :: "mcp_Server \<Rightarrow> bytes \<Rightarrow> bool" where
  [simp]: "hasCompat s host \<longleftrightarrow> ms_compat s host \<noteq> None"

definition cachedCompat :: "mcp_Server \<Rightarrow> bytes \<Rightarrow> hostCompat option" where
  [simp]: "cachedCompat s host = ms_compat s host"

definition storeCompat :: "mcp_Server \<Rightarrow> bytes \<Rightarrow> hostCompat \<Rightarrow> mcp_Server" where
  [simp]: "storeCompat s host hc = s\<lparr>ms_compat := (ms_compat s)(host \<mapsto> hc)\<rparr>"

definition recordCompatFromEnvelope :: "codec \<Rightarrow> mcp_Server \<Rightarrow> bytes \<Rightarrow> bytes \<Rightarrow> mcp_Server" where
  "recordCompatFromEnvelope cd s host raw =
     storeCompat s host (classify_version (cd_version cd raw))"

definition do_call :: "codec \<Rightarrow> network \<Rightarrow> mcp_Server \<Rightarrow> int \<Rightarrow> bytes \<Rightarrow> bytes \<Rightarrow> bytes \<Rightarrow> mcp_Server \<times> call_result" where
  "do_call cd net s timeout host tool body =
     (s\<lparr>ms_calls := ms_calls s @ [\<lparr>nc_host = host, nc_tool = tool, nc_body = body, nc_timeout = timeout\<rparr>]\<rparr>,
      client_Call (cd_errbody cd) net (length (ms_calls s)) host tool body)"

definition probeCompat :: "codec \<Rightarrow> network \<Rightarrow> mcp_Server \<Rightarrow> bytes \<Rightarrow> mcp_Server \<times> bytes option" where
  "probeCompat cd net s host =
     (case do_call cd net s 5 host ''manifest'' ''{}'' of
        (s1, Transport m) \<Rightarrow> (s1, Some m)
      | (s1, DaemonError e) \<Rightarrow> (s1, Some (client_Error_String e))
      | (s1, CallOk raw) \<Rightarrow> (recordCompatFromEnvelope cd s1 host raw, None))"

subsection \<open>Answers\<close>

datatype rpc_result =
    RInit bytes bytes bytes
  | RPing
  | RTools "(bytes \<times> bytes \<times> json) list"
  | RCall bytes bool
  | RError int bytes

record rpc_response =
  rr_ID :: bytes
  rr_Result :: rpc_result

definition toolError :: "bytes \<Rightarrow> bytes \<Rightarrow> rpc_response" where
  "toolError i msg = \<lparr>rr_ID = i, rr_Result = RCall msg True\<rparr>"

definition buildDaemonBody :: "codec \<Rightarrow> (bytes \<times> json) list \<Rightarrow> bytes + bytes" where
  "buildDaemonBody cd args =
     (if args = [] then Inr ''{}''
      else
        (let forward = filter (\<lambda>(k, v). k \<noteq> ''host'') args
         in if forward = [] then Inr ''{}'' else cd_object cd forward))"

text \<open>\<open>quote\<close> is the \<^verbatim>\<open>%q\<close> of the default host.\<close>

definition inputSchemaFor :: "(bytes \<Rightarrow> bytes) \<Rightarrow> mcp_Server \<Rightarrow> mcp_Tool \<Rightarrow> json" where
  "inputSchemaFor quote s t =
     (let hostDesc = ''Target host. Optional if the plugin has HOSTHEALTH_TARGET_HOST set.'' @
            (if ms_defaultHost s \<noteq> [] then '' Default: '' @ quote (ms_defaultHost s) @ ''.'' else []);
          props = (''host'', JObj [(''type'', JStr ''string''), (''description'', JStr hostDesc)]) #
            filter (\<lambda>(k, v). k \<noteq> ''host'') (mt_ArgsProperties t)
      in JObj ([(''type'', JStr ''object''), (''properties'', JObj props), (''additionalProperties'', JBool False)] @
           (if mt_ArgsRequired t \<noteq> [] then [(''required'', JArr (map JStr (mt_ArgsRequired t)))] else [])))"

definition list_tools :: "(bytes \<Rightarrow> bytes) \<Rightarrow> mcp_Server \<Rightarrow> rpc_result" where
  "list_tools quote s =
     RTools (map (\<lambda>t. (mt_Name t, mt_Description t, inputSchemaFor quote s t)) (ms_tools s))"

definition protocolVersion :: bytes where
  "protocolVersion = ''2024-11-05''"

definition initialize :: "mcp_Server \<Rightarrow> rpc_result" where
  "initialize s = RInit protocolVersion (ms_name s) (ms_version s)"

subsection \<open>tools/call\<close>

text \<open>
  The schema gate in front of a tool: the server afterwards, and the message that refuses the
  call, when there is one.
\<close>

definition schema_gate :: "codec \<Rightarrow> network \<Rightarrow> mcp_Server \<Rightarrow> mcp_Tool \<Rightarrow> bytes \<Rightarrow> mcp_Server \<times> bytes option" where
  "schema_gate cd net s t host =
     (if mt_DaemonRPC t = ''manifest'' then (s, None)
      else case cachedCompat s host of
             Some hc \<Rightarrow> (s, if hc_ok hc then None else Some (''schema_incompatible: '' @ hc_reason hc))
           | None \<Rightarrow>
               (case probeCompat cd net s host of
                  (s1, Some e) \<Rightarrow> (s1, Some (''schema probe: '' @ e))
                | (s1, None) \<Rightarrow>
                    (case cachedCompat s1 host of
                       Some hc \<Rightarrow> (s1, if hc_ok hc then None else Some (''schema_incompatible: '' @ hc_reason hc))
                     | None \<Rightarrow> (s1, Some ''schema_incompatible: ''))))"

definition host_error_text :: "(bytes \<Rightarrow> bytes) \<Rightarrow> host_error \<Rightarrow> bytes" where
  "host_error_text quote e =
     (case e of
        EmptyHost \<Rightarrow> ''client: host argument is empty and no default is configured''
      | UnterminatedBracket s \<Rightarrow> ''client: unterminated [ in host '' @ quote s
      | GarbageAfterBracket s \<Rightarrow> ''client: garbage after ] in host '' @ quote s
      | BareIPv6 s \<Rightarrow> ''client: bare IPv6 literal '' @ quote s @ '' must be bracketed (['' @ s @ ''])'')"

definition run_tool :: "codec \<Rightarrow> network \<Rightarrow> mcp_Server \<Rightarrow> bytes \<Rightarrow> mcp_Tool \<Rightarrow> bytes \<Rightarrow> (bytes \<times> json) list \<Rightarrow> mcp_Server \<times> rpc_response" where
  "run_tool cd net s i t host args =
     (case buildDaemonBody cd args of
        Inl e \<Rightarrow> (s, toolError i (''marshal arguments: '' @ e))
      | Inr body \<Rightarrow>
          (case do_call cd net s (if mt_TimeoutS t = 0 then 10 else mt_TimeoutS t) host (mt_DaemonRPC t) body of
             (s1, Transport m) \<Rightarrow> (s1, toolError i (''transport: '' @ m))
           | (s1, DaemonError e) \<Rightarrow> (s1, toolError i (client_Error_String e))
           | (s1, CallOk raw) \<Rightarrow>
               (if mt_DaemonRPC t = ''manifest'' \<and> \<not> hasCompat s1 host
                then recordCompatFromEnvelope cd s1 host raw else s1,
                \<lparr>rr_ID = i, rr_Result = RCall raw False\<rparr>)))"

definition mcp_call :: "(bytes \<Rightarrow> bytes) \<Rightarrow> codec \<Rightarrow> network \<Rightarrow> mcp_Server \<Rightarrow> jsonRPCRequest \<Rightarrow> mcp_Server \<times> rpc_response" where
  "mcp_call quote cd net s req =
     (let i = jr_ID req
      in case cd_params cd (jr_Params req) of
           Inl e \<Rightarrow> (s, \<lparr>rr_ID = i, rr_Result = RError (- 32602) (''bad params: '' @ e)\<rparr>)
         | Inr (name, args) \<Rightarrow>
             (case find (\<lambda>t. mt_Name t = name) (ms_tools s) of
                None \<Rightarrow> (s, \<lparr>rr_ID = i, rr_Result = RError (- 32602) (''unknown tool: '' @ name)\<rparr>)
              | Some t \<Rightarrow>
                  (let host0 = string_member args ''host'';
                       host = (if host0 = [] then ms_defaultHost s else host0)
                   in if host = [] then
                        (s, toolError i ''host argument is required (no HOSTHEALTH_TARGET_HOST default configured)'')
                      else case ResolveHost (ms_cfg s) host of
                             Inl e \<Rightarrow> (s, toolError i (host_error_text quote e))
                           | Inr resolved \<Rightarrow>
                               (case schema_gate cd net s t resolved of
                                  (s1, Some msg) \<Rightarrow> (s1, toolError i msg)
                                | (s1, None) \<Rightarrow> run_tool cd net s1 i t resolved args))))"

text \<open>\<^verbatim>\<open>dispatch\<close>: \<^const>\<open>None\<close> is a suppressed response.\<close>

definition mcp_dispatch :: "(bytes \<Rightarrow> bytes) \<Rightarrow> codec \<Rightarrow> network \<Rightarrow> mcp_Server \<Rightarrow> jsonRPCRequest \<Rightarrow> mcp_Server \<times> rpc_response option" where
  "mcp_dispatch quote cd net s req =
     (if jr_Method req = ''initialize'' then (s, Some \<lparr>rr_ID = jr_ID req, rr_Result = initialize s\<rparr>)
      else if jr_Method req = ''notifications/initialized'' then (s, None)
      else if jr_Method req = ''ping'' then (s, Some \<lparr>rr_ID = jr_ID req, rr_Result = RPing\<rparr>)
      else if jr_Method req = ''tools/list'' then (s, Some \<lparr>rr_ID = jr_ID req, rr_Result = list_tools quote s\<rparr>)
      else if jr_Method req = ''tools/call'' then map_prod id Some (mcp_call quote cd net s req)
      else (s, Some \<lparr>rr_ID = jr_ID req, rr_Result = RError (- 32601) (''method not found: '' @ jr_Method req)\<rparr>))"

definition is_notification :: "jsonRPCRequest \<Rightarrow> bool" where
  "is_notification req \<longleftrightarrow> jr_ID req = [] \<or> jr_ID req = ''null''"

text \<open>The body of the read loop for one line.\<close>

definition serve_line :: "(bytes \<Rightarrow> bytes) \<Rightarrow> codec \<Rightarrow> network \<Rightarrow> mcp_Server \<Rightarrow> bytes \<Rightarrow> mcp_Server \<times> rpc_response list" where
  "serve_line quote cd net s line =
     (if line = [] then (s, [])
      else case cd_request cd line of
             None \<Rightarrow> (s, [\<lparr>rr_ID = [], rr_Result = RError (- 32700) ''parse error''\<rparr>])
           | Some req \<Rightarrow>
               (case mcp_dispatch quote cd net s req of
                  (s1, None) \<Rightarrow> (s1, [])
                | (s1, Some resp) \<Rightarrow> (s1, if is_notification req then [] else [resp])))"

text \<open>
  The loop over the scanned lines; \<open>ctx\<close> says whether the context is cancelled when the loop comes to
  the line of that number, and the flag whether the loop ended that way.
\<close>

fun serve_lines :: "(bytes \<Rightarrow> bytes) \<Rightarrow> codec \<Rightarrow> network \<Rightarrow> (nat \<Rightarrow> bool) \<Rightarrow> nat \<Rightarrow> mcp_Server \<Rightarrow> bytes list
    \<Rightarrow> mcp_Server \<times> rpc_response list \<times> bool" where
  "serve_lines quote cd net ctx n s [] = (s, [], False)"
| "serve_lines quote cd net ctx n s (l # ls) =
     (if ctx n then (s, [], True)
      else (let (s1, out) = serve_line quote cd net s l;
                (s2, outs, cancelled) = serve_lines quote cd net ctx (Suc n) s1 ls
            in (s2, out @ outs, cancelled)))"

datatype serve_end = StdinClosed | Cancelled | LineTooLong

text \<open>\<^verbatim>\<open>Serve\<close> on a whole input, with a one-megabyte line buffer.\<close>

definition Serve :: "(bytes \<Rightarrow> bytes) \<Rightarrow> codec \<Rightarrow> network \<Rightarrow> (nat \<Rightarrow> bool) \<Rightarrow> mcp_Server \<Rightarrow> bytes
    \<Rightarrow> mcp_Server \<times> rpc_response list \<times> serve_end" where
  "Serve quote cd net ctx s inp =
     (let (ls, tooLong) = scan_lines 1048576 inp;
          (s', outs, cancelled) = serve_lines quote cd net ctx 0 s ls
      in (s', outs, if cancelled then Cancelled else if tooLong then LineTooLong else StdinClosed))"

subsection \<open>The command\<close>

definition envOr :: "(bytes \<Rightarrow> bytes) \<Rightarrow> bytes \<Rightarrow> bytes \<Rightarrow> bytes" where
  "envOr env key fallback = (if env key \<noteq> [] then env key else fallback)"

definition str_arg :: "bytes list \<Rightarrow> bytes \<Rightarrow> json" where
  "str_arg enum descr =
     JObj ([(''type'', JStr ''string'')] @
       (if enum = [] then [] else [(''enum'', JArr (map JStr enum))]) @ [(''description'', JStr descr)])"

definition bool_arg :: "bytes \<Rightarrow> json" where
  "bool_arg descr = JObj [(''type'', JStr ''boolean''), (''description'', JStr descr)]"

definition logsArgs :: "(bytes \<times> json) list" where
  "logsArgs =
     [(''severity'', str_arg [''emerg'', ''alert'', ''crit'', ''err'', ''warning'']
         ''Minimum severity to count (REQ 4.10). Default: warning.''),
      (''window'', str_arg [''15m'', ''1h'', ''6h'', ''24h''] ''Look-back window. Default: 1h.''),
      (''source'', str_arg [''journal'', ''audit''] ''Log source. Default: journal.'')]"

definition firewallArgs :: "(bytes \<times> json) list" where
  "firewallArgs =
     [(''mode'', str_arg [''summary'', ''detail'']
         (''Output verbosity; '' @ [CHR 0x60] @ ''detail'' @ [CHR 0x60] @ '' requires manifest opt-in. Default: summary.'')),
      (''table'', str_arg []
         (''Optional table filter (e.g. '' @ [CHR 0x22] @ ''inet/net-ban'' @ [CHR 0x22] @ ''). Empty = all tables.'')),
      (''include_set_elements'', bool_arg
         ''Include per-element listings for sets the manifest classifies as ban sources.'')]"

definition firewallLookupArgs :: "(bytes \<times> json) list" where
  "firewallLookupArgs =
     [(''query'', str_arg [] ''IPv4/IPv6 address or CIDR to search for across rules and sets.''),
      (''include_set_elements'', bool_arg ''Include matching set/map element entries in sets[].'')]"

definition plain_tool :: "bytes \<Rightarrow> bytes \<Rightarrow> bytes \<Rightarrow> int \<Rightarrow> mcp_Tool" where
  "plain_tool pre rpc descr timeout =
     \<lparr>mt_Name = pre @ rpc, mt_DaemonRPC = rpc, mt_Description = descr, mt_TimeoutS = timeout,
      mt_ArgsProperties = [], mt_ArgsRequired = []\<rparr>"

definition plugin_tools :: "bytes \<Rightarrow> mcp_Tool list" where
  "plugin_tools pre =
     [plain_tool pre ''manifest'' ''host-health-mcp daemon self-description (read-only)'' 3,
      plain_tool pre ''system'' ''host uptime, load, memory, disk, kernel (read-only)'' 3,
      plain_tool pre ''systemd_units'' ''manifest-whitelisted systemd unit state (read-only)'' 3,
      plain_tool pre ''network'' ''interfaces, default routes, resolver (read-only)'' 3,
      plain_tool pre ''dns'' ''DNS resolver and probe results (read-only)'' 5,
      plain_tool pre ''security'' ''AIDE/auditd/rkhunter/debsums/IPS/SSH posture (read-only)'' 5,
      plain_tool pre ''certs'' ''manifest-declared certificate inventory (read-only)'' 3,
      plain_tool pre ''mail'' ''MTA queue depth and recent send/fail state (read-only)'' 5,
      plain_tool pre ''backup'' ''last backup run timestamps and backend (read-only)'' 3,
      plain_tool pre ''workload'' ''compile-time-enabled workload plugin output (read-only)'' 5,
      (plain_tool pre ''logs'' ''journald or audit summary by severity/window/source (read-only)'' 8)
        \<lparr>mt_ArgsProperties := logsArgs\<rparr>,
      plain_tool pre ''pressure'' ''PSI averages cpu/io/memory (read-only)'' 3,
      plain_tool pre ''kernel'' ''kernel taint, MCE/EDAC, OOM, cmdline keys (read-only)'' 3,
      plain_tool pre ''sockets'' ''listening socket inventory (read-only)'' 3,
      plain_tool pre ''updates'' ''pending APT updates and needrestart services (read-only)'' 10,
      plain_tool pre ''storage'' ''mdraid, LVM, SMART, btrfs, zfs (read-only)'' 10,
      plain_tool pre ''sensors'' ''hwmon temperatures, fans, voltages (read-only)'' 3,
      (plain_tool pre ''firewall'' ''nftables ruleset, sets, and per-source ban summary (read-only)'' 6)
        \<lparr>mt_ArgsProperties := firewallArgs\<rparr>,
      (plain_tool pre ''firewall_lookup''
         (''search the host'' @ [CHR 0x27] @ ''s nftables ruleset and sets for any reference to an IPv4/IPv6 address or CIDR (read-only)'') 6)
        \<lparr>mt_ArgsProperties := firewallLookupArgs, mt_ArgsRequired := [''query'']\<rparr>]"

text \<open>
  \<^verbatim>\<open>client.New\<close>: the TLS material of the plugin. Key pairs, files and the certificates of a bundle are arguments;
  \<open>ct_RootCAs\<close> is \<^const>\<open>None\<close> when the roots of the system are trusted.
\<close>

record client_TLS =
  ct_Certificates :: "bytes list"
  ct_MinVersion :: nat
  ct_RootCAs :: "bytes list option"

record http_Client =
  hcl_cfg :: client_Config
  hcl_tls :: client_TLS
  hcl_Timeout :: duration

record tls_env =
  tv_loadKeyPair :: "bytes \<Rightarrow> bytes \<Rightarrow> bytes + bytes"
  tv_readFile :: "bytes \<Rightarrow> bytes + bytes"
  tv_parseCerts :: "bytes \<Rightarrow> bytes list"
  tv_getenv :: "bytes \<Rightarrow> bytes"

definition EnvTrustSystemRoots :: bytes where
  "EnvTrustSystemRoots = ''HOSTHEALTH_TRUST_SYSTEM_ROOTS''"

definition rootCAs :: "tls_env \<Rightarrow> client_Config \<Rightarrow> bytes + bytes list option" where
  "rootCAs tv cfg =
     (if cc_CAPath cfg \<noteq> [] then
        (case tv_readFile tv (cc_CAPath cfg) of
           Inl e \<Rightarrow> Inl (''client: read CA: '' @ e)
         | Inr ca \<Rightarrow>
             (let pool = tv_parseCerts tv ca
              in if pool = [] then Inl ''client: CA bundle has no certs'' else Inr (Some pool)))
      else if tv_getenv tv EnvTrustSystemRoots = ''1'' then Inr None
      else Inl (''client: CAPath is empty; set HOSTHEALTH_TLS_CA to an internal CA bundle (recommended) or '' @
        EnvTrustSystemRoots @ ''=1 to use system roots''))"

definition NewHTTPClient :: "tls_env \<Rightarrow> client_Config \<Rightarrow> bytes + http_Client" where
  "NewHTTPClient tv cfg =
     (case tv_loadKeyPair tv (cc_CertPath cfg) (cc_KeyPath cfg) of
        Inl e \<Rightarrow> Inl (''client: load keypair: '' @ e)
      | Inr cert \<Rightarrow>
          (case rootCAs tv cfg of
             Inl e \<Rightarrow> Inl e
           | Inr roots \<Rightarrow>
               Inr \<lparr>hcl_cfg = cfg, hcl_tls = \<lparr>ct_Certificates = [cert], ct_MinVersion = 0x304, ct_RootCAs = roots\<rparr>,
                    hcl_Timeout = (if cc_HTTPTimeout cfg = 0 then 15 * Second else cc_HTTPTimeout cfg)\<rparr>))"

text \<open>The hook of the tests panics in a production binary.\<close>

definition SetTransport :: "bool \<Rightarrow> 'rt \<Rightarrow> 'rt \<Rightarrow> 'rt go" where
  "SetTransport testing old rt =
     (if \<not> testing then Panic ''client: SetTransport is test-only and must not be called in a production binary'' else Ret rt)"

text \<open>\<^verbatim>\<open>write\<close>: a response is one line; one that cannot be encoded is dropped.\<close>

definition mcp_write :: "(rpc_response \<Rightarrow> bytes option) \<Rightarrow> bytes \<Rightarrow> rpc_response \<Rightarrow> bytes" where
  "mcp_write marshal out resp = (case marshal resp of None \<Rightarrow> out | Some b \<Rightarrow> out @ b @ [CHR 0x0A])"

text \<open>The command: what it prints and exits with, or the server and the client it builds from the environment.\<close>

datatype plugin_start = PluginVersion bytes | PluginFatal bytes | PluginServing mcp_Server http_Client

definition plugin_config :: "(bytes \<Rightarrow> bytes) \<Rightarrow> int \<Rightarrow> client_Config" where
  "plugin_config env port =
     \<lparr>cc_Port = port, cc_CertPath = envOr env ''HOSTHEALTH_TLS_CERT'' ''/etc/host-health-mcp/plugin/cert.pem'',
      cc_KeyPath = envOr env ''HOSTHEALTH_TLS_KEY'' ''/etc/host-health-mcp/plugin/key.pem'',
      cc_CAPath = envOr env ''HOSTHEALTH_TLS_CA'' [], cc_DNSSuffix = envOr env ''HOSTHEALTH_DNS_SUFFIX'' [],
      cc_HTTPTimeout = 0\<rparr>"

definition atoi_error :: "(bytes \<Rightarrow> bytes) \<Rightarrow> bytes \<Rightarrow> bytes" where
  "atoi_error quote s =
     (let ds = (if s \<noteq> [] \<and> hd s \<in> set ''+-'' then tl s else s)
      in ''strconv.Atoi: parsing '' @ quote s @
         (if ds = [] \<or> parse_digits 10 0 ds = None then '': invalid syntax'' else '': value out of range''))"

definition plugin_main :: "(bytes \<Rightarrow> bytes) \<Rightarrow> tls_env \<Rightarrow> bool \<Rightarrow> bytes \<Rightarrow> plugin_start" where
  "plugin_main quote tv versionFlag buildID =
     (if versionFlag then PluginVersion (''host-health-mcp-client '' @ buildID)
      else let env = tv_getenv tv; portStr = envOr env ''HOSTHEALTH_TARGET_PORT'' ''8443''
      in case atoi portStr of
        None \<Rightarrow> PluginFatal (''plugin: HOSTHEALTH_TARGET_PORT: '' @ atoi_error quote portStr)
      | Some port \<Rightarrow>
          (case NewHTTPClient tv (plugin_config env port) of
             Inl e \<Rightarrow> PluginFatal (''plugin: '' @ e)
           | Inr cli \<Rightarrow>
               PluginServing
                 (NewMcp (hcl_cfg cli) (plugin_tools (envOr env ''HOSTHEALTH_TOOL_PREFIX'' ''host_''))
                   (env ''HOSTHEALTH_TARGET_HOST'') ''host-health-mcp'' buildID) cli))"

text \<open>The rest of \<^verbatim>\<open>main\<close>: the loop on the standard streams, its output and the error it ends with, if any.\<close>

definition plugin_run ::
  "(rpc_response \<Rightarrow> bytes option) \<Rightarrow> (bytes \<Rightarrow> bytes) \<Rightarrow> codec \<Rightarrow> network \<Rightarrow> (nat \<Rightarrow> bool) \<Rightarrow> mcp_Server \<Rightarrow> bytes
    \<Rightarrow> bytes \<times> bytes option" where
  "plugin_run marshal quote cd net ctx s inp =
     (case Serve quote cd net ctx s inp of
        (s', outs, e) \<Rightarrow>
          (foldl (mcp_write marshal) [] outs,
           if e = LineTooLong then Some ''plugin: bufio.Scanner: token too long'' else None))"

subsection \<open>The gate is sound\<close>

text \<open>What the server's log and cache say: the answer the network gave to the \<open>n\<close>-th call.\<close>

definition net_answer :: "codec \<Rightarrow> network \<Rightarrow> mcp_Server \<Rightarrow> nat \<Rightarrow> call_result" where
  "net_answer cd net s n =
     (let c = ms_calls s ! n in client_Call (cd_errbody cd) net n (nc_host c) (nc_tool c) (nc_body c))"

definition classified_by :: "codec \<Rightarrow> network \<Rightarrow> mcp_Server \<Rightarrow> bytes \<Rightarrow> hostCompat \<Rightarrow> bool" where
  "classified_by cd net s h hc \<longleftrightarrow>
     (\<exists>n < length (ms_calls s). \<exists>raw. nc_host (ms_calls s ! n) = h \<and> nc_tool (ms_calls s ! n) = ''manifest'' \<and>
        net_answer cd net s n = CallOk raw \<and> hc = classify_version (cd_version cd raw))"

definition gate_inv :: "codec \<Rightarrow> network \<Rightarrow> mcp_Server \<Rightarrow> bool" where
  "gate_inv cd net s \<longleftrightarrow>
     (\<forall>h hc. ms_compat s h = Some hc \<longrightarrow> classified_by cd net s h hc) \<and>
     (\<forall>k < length (ms_calls s). nc_tool (ms_calls s ! k) \<noteq> ''manifest'' \<longrightarrow>
        (\<exists>hc. classified_by cd net (s\<lparr>ms_calls := take k (ms_calls s)\<rparr>) (nc_host (ms_calls s ! k)) hc \<and> hc_ok hc))"

text \<open>Later states only add calls and decisions.\<close>

definition extends :: "mcp_Server \<Rightarrow> mcp_Server \<Rightarrow> bool" where
  "extends s s' \<longleftrightarrow> (\<exists>cs. ms_calls s' = ms_calls s @ cs) \<and> ms_compat s \<subseteq>\<^sub>m ms_compat s' \<and>
     ms_cfg s' = ms_cfg s \<and> ms_tools s' = ms_tools s \<and> ms_defaultHost s' = ms_defaultHost s"

lemma extends_refl [simp]: "extends s s"
  by (simp add: extends_def)

lemma extends_trans: "extends a b \<Longrightarrow> extends b c \<Longrightarrow> extends a c"
  unfolding extends_def by (metis append_assoc map_le_trans)

lemma classified_by_extends:
  assumes "classified_by cd net s h hc" "extends s s'"
  shows "classified_by cd net s' h hc"
proof -
  obtain cs where "ms_calls s' = ms_calls s @ cs" using assms(2) by (auto simp: extends_def)
  moreover obtain n raw where "n < length (ms_calls s)" "nc_host (ms_calls s ! n) = h"
      "nc_tool (ms_calls s ! n) = ''manifest''" "net_answer cd net s n = CallOk raw"
      "hc = classify_version (cd_version cd raw)"
    using assms(1) by (auto simp: classified_by_def)
  ultimately show ?thesis
    unfolding classified_by_def net_answer_def by (intro exI[of _ n]) (simp add: nth_append)
qed

lemma do_call_extends: "extends s (fst (do_call cd net s t h rpc b))"
  by (simp add: do_call_def extends_def)

lemma do_call_compat [simp]: "ms_compat (fst (do_call cd net s t h rpc b)) = ms_compat s"
  by (simp add: do_call_def)

lemma classified_by_calls: "ms_calls s = ms_calls s' \<Longrightarrow> classified_by cd net s = classified_by cd net s'"
  by (simp add: classified_by_def net_answer_def fun_eq_iff)

lemma do_call_inv:
  assumes inv: "gate_inv cd net s" and ok: "rpc = ''manifest'' \<or> (\<exists>hc. ms_compat s h = Some hc \<and> hc_ok hc)"
  shows "gate_inv cd net (fst (do_call cd net s t h rpc b))" (is "gate_inv cd net ?s")
  unfolding gate_inv_def
proof (intro conjI allI impI)
  fix h' hc assume "ms_compat ?s h' = Some hc"
  then show "classified_by cd net ?s h' hc"
    using inv classified_by_extends [OF _ do_call_extends] by (simp add: gate_inv_def)
next
  fix k assume k: "k < length (ms_calls ?s)" "nc_tool (ms_calls ?s ! k) \<noteq> ''manifest''"
  have take: "classified_by cd net (?s\<lparr>ms_calls := take k (ms_calls ?s)\<rparr>) =
      classified_by cd net (s\<lparr>ms_calls := take k (ms_calls s)\<rparr>)"
    using k(1) by (intro classified_by_calls) (simp add: do_call_def)
  show "\<exists>hc. classified_by cd net (?s\<lparr>ms_calls := take k (ms_calls ?s)\<rparr>) (nc_host (ms_calls ?s ! k)) hc \<and> hc_ok hc"
  proof (cases "k < length (ms_calls s)")
    case True
    then show ?thesis using inv k(2) unfolding take by (simp add: gate_inv_def do_call_def nth_append)
  next
    case False
    then have "k = length (ms_calls s)" using k(1) by (simp add: do_call_def)
    then show ?thesis using inv ok k(2) unfolding take by (auto simp: gate_inv_def do_call_def)
  qed
qed

lemma do_call_classified:
  assumes "do_call cd net s t h ''manifest'' b = (s1, CallOk raw)"
  shows "classified_by cd net s1 h (classify_version (cd_version cd raw))"
  using assms unfolding do_call_def classified_by_def net_answer_def
  by (intro exI[of _ "length (ms_calls s)"]) (auto simp: nth_append)

lemma record_extends: "ms_compat s h = None \<Longrightarrow> extends s (recordCompatFromEnvelope cd s h raw)"
  by (auto simp: recordCompatFromEnvelope_def extends_def map_le_def)

lemma record_inv:
  assumes "gate_inv cd net s" "ms_compat s h = None" "classified_by cd net s h (classify_version (cd_version cd raw))"
  shows "gate_inv cd net (recordCompatFromEnvelope cd s h raw)" (is "gate_inv cd net ?s")
proof -
  have same: "classified_by cd net ?s = classified_by cd net s"
      "classified_by cd net (?s\<lparr>ms_calls := cs\<rparr>) = classified_by cd net (s\<lparr>ms_calls := cs\<rparr>)" for cs
    by (rule classified_by_calls, simp add: recordCompatFromEnvelope_def)+
  show ?thesis using assms unfolding gate_inv_def same
    by (simp add: recordCompatFromEnvelope_def)
qed

definition gate_step :: "codec \<Rightarrow> network \<Rightarrow> mcp_Server \<Rightarrow> mcp_Server \<Rightarrow> bool" where
  "gate_step cd net s s' \<longleftrightarrow> (gate_inv cd net s \<longrightarrow> gate_inv cd net s') \<and> extends s s'"

lemma gate_step_refl [simp]: "gate_step cd net s s"
  by (simp add: gate_step_def)

lemma gate_step_trans: "gate_step cd net a b \<Longrightarrow> gate_step cd net b c \<Longrightarrow> gate_step cd net a c"
  by (auto simp: gate_step_def intro: extends_trans)

lemma do_call_step:
  "rpc = ''manifest'' \<or> (\<exists>hc. ms_compat s h = Some hc \<and> hc_ok hc) \<Longrightarrow> do_call cd net s t h rpc b = (s1, r) \<Longrightarrow>
   gate_step cd net s s1 \<and> ms_compat s1 = ms_compat s"
  using do_call_inv [of cd net s rpc h t b] do_call_extends [of s cd net t h rpc b]
    do_call_compat [of cd net s t h rpc b]
  by (simp add: gate_step_def)

lemma probe_record_step:
  assumes "ms_compat s h = None" "do_call cd net s t h ''manifest'' b = (s1, CallOk raw)"
  shows "gate_step cd net s (recordCompatFromEnvelope cd s1 h raw)"
proof -
  have st: "gate_step cd net s s1" "ms_compat s1 = ms_compat s" using do_call_step [OF _ assms(2)] by auto
  have "gate_step cd net s1 (recordCompatFromEnvelope cd s1 h raw)"
    unfolding gate_step_def using record_inv record_extends do_call_classified [OF assms(2)] assms(1) st(2) by simp
  with st(1) show ?thesis by (rule gate_step_trans)
qed

lemma probe_step:
  "ms_compat s h = None \<Longrightarrow> probeCompat cd net s h = (s1, e) \<Longrightarrow> gate_step cd net s s1"
  unfolding probeCompat_def
  by (auto split: prod.splits call_result.splits dest: do_call_step [rotated] probe_record_step)

lemma schema_gate_step: "schema_gate cd net s t h = (s1, e) \<Longrightarrow> gate_step cd net s s1"
  unfolding schema_gate_def
  by (auto split: prod.splits option.splits if_splits dest: probe_step)

lemma schema_gate_passes:
  "schema_gate cd net s t h = (s1, None) \<Longrightarrow>
   mt_DaemonRPC t = ''manifest'' \<or> (\<exists>hc. ms_compat s1 h = Some hc \<and> hc_ok hc)"
  unfolding schema_gate_def by (auto split: prod.splits option.splits if_splits)

lemma run_tool_step:
  assumes "mt_DaemonRPC t = ''manifest'' \<or> (\<exists>hc. ms_compat s h = Some hc \<and> hc_ok hc)"
    and "run_tool cd net s i t h args = (s1, r)"
  shows "gate_step cd net s s1"
  using assms(2) do_call_step [OF assms(1)] probe_record_step [of s h cd net]
  unfolding run_tool_def
  by (auto split: sum.splits prod.splits call_result.splits if_splits)

lemma mcp_call_step: "mcp_call quote cd net s req = (s1, r) \<Longrightarrow> gate_step cd net s s1"
  unfolding mcp_call_def
  by (auto simp: Let_def split: sum.splits prod.splits option.splits if_splits
        dest: schema_gate_step run_tool_step [OF schema_gate_passes] intro: gate_step_trans)

lemma serve_line_step: "serve_line quote cd net s l = (s1, r) \<Longrightarrow> gate_step cd net s s1"
  unfolding serve_line_def mcp_dispatch_def
  by (auto simp: map_prod_def split: prod.splits option.splits if_splits dest: mcp_call_step)

lemma serve_lines_step: "serve_lines quote cd net ctx n s ls = (s1, r) \<Longrightarrow> gate_step cd net s s1"
proof (induction ls arbitrary: n s s1 r)
  case (Cons l ls)
  then show ?case by (auto split: prod.splits if_splits dest: serve_line_step intro: gate_step_trans)
qed simp

lemma classify_version_ok: "hc_ok (classify_version v) \<longleftrightarrow> (\<exists>ver. v = Some ver \<and> parseMajor ver = Some 1)"
proof -
  have "parseMajor plugin_SchemaVersion = Some 1" by code_simp
  then show ?thesis by (auto simp: classify_version_def parseMajor_def split: option.splits)
qed

text \<open>
  C9: Whatever arrives on standard input, and whatever the network answers, every call the plugin
  sends for a tool other than the manifest was preceded by a manifest call to the same host that
  succeeded and reported a schema version of the plugin's major version; and a decision about a
  host, once cached, is never revised by later input.
\<close>

theorem schema_gate_sound:
  assumes first: "Serve quote cd net ctx (NewMcp cfg ts def name ver) inp = (s, outs, e)"
    and later: "Serve quote cd net ctx' s inp' = (s', outs', e')"
  shows "(\<forall>k < length (ms_calls s). nc_tool (ms_calls s ! k) \<noteq> ''manifest'' \<longrightarrow>
      (\<exists>n < k. \<exists>raw v. nc_host (ms_calls s ! n) = nc_host (ms_calls s ! k) \<and>
         nc_tool (ms_calls s ! n) = ''manifest'' \<and> net_answer cd net s n = CallOk raw \<and>
         cd_version cd raw = Some v \<and> parseMajor v = Some 1)) \<and>
    (\<forall>h hc. ms_compat s h = Some hc \<longrightarrow> ms_compat s' h = Some hc)"
proof (intro conjI allI impI)
  have "gate_inv cd net (NewMcp cfg ts def name ver)" by (simp add: gate_inv_def NewMcp_def)
  then have inv: "gate_inv cd net s"
    using first serve_lines_step by (auto simp: Serve_def gate_step_def split: prod.splits)
  fix k assume k: "k < length (ms_calls s)" "nc_tool (ms_calls s ! k) \<noteq> ''manifest''"
  then obtain hc where "classified_by cd net (s\<lparr>ms_calls := take k (ms_calls s)\<rparr>) (nc_host (ms_calls s ! k)) hc" "hc_ok hc"
    using inv by (auto simp: gate_inv_def)
  then show "\<exists>n < k. \<exists>raw v. nc_host (ms_calls s ! n) = nc_host (ms_calls s ! k) \<and>
         nc_tool (ms_calls s ! n) = ''manifest'' \<and> net_answer cd net s n = CallOk raw \<and>
         cd_version cd raw = Some v \<and> parseMajor v = Some 1"
    using k(1) by (auto simp: classified_by_def net_answer_def classify_version_ok)
next
  fix h hc assume "ms_compat s h = Some hc"
  moreover have "extends s s'"
    using later serve_lines_step by (auto simp: Serve_def gate_step_def split: prod.splits)
  ultimately show "ms_compat s' h = Some hc" by (auto simp: extends_def map_le_def dom_def)
qed

definition sample_client :: "int \<Rightarrow> bytes \<Rightarrow> client_Config" where
  "sample_client port dns =
     \<lparr>cc_Port = port, cc_CertPath = ''c'', cc_KeyPath = ''k'', cc_CAPath = ''a'', cc_DNSSuffix = dns, cc_HTTPTimeout = 0\<rparr>"

definition demo_codec :: codec where
  "demo_codec =
     \<lparr>cd_request = (\<lambda>l. if l = ''bad'' then None
        else Some \<lparr>jr_ID = (if l = ''note'' then [] else l), jr_Method = ''tools/call'', jr_Params = l\<rparr>),
      cd_params = (\<lambda>p. Inr (''host_system'', [(''host'', JStr p)])),
      cd_errbody = (\<lambda>b. None), cd_version = (\<lambda>b. Some b), cd_object = (\<lambda>m. Inr [])\<rparr>"

definition demo_net :: network where
  "demo_net n url body = NetResp 200 ''1.4.0''"

definition demo_server :: mcp_Server where
  "demo_server = NewMcp (sample_client 0 ''lan'') (plugin_tools ''host_'') [] ''p'' ''v''"

definition demo_final :: mcp_Server where
  "demo_final =
     demo_server\<lparr>ms_compat := [''web.lan:8443'' \<mapsto> \<lparr>hc_ok = True, hc_reason = []\<rparr>],
        ms_calls := [\<lparr>nc_host = ''web.lan:8443'', nc_tool = ''manifest'', nc_body = ''{}'', nc_timeout = 5\<rparr>,
                     \<lparr>nc_host = ''web.lan:8443'', nc_tool = ''system'', nc_body = ''{}'', nc_timeout = 3\<rparr>]\<rparr>"

lemma demo_serve_lines:
  "serve_lines id demo_codec demo_net (\<lambda>n. False) 0 demo_server [''web''] =
     (demo_final, [\<lparr>rr_ID = ''web'', rr_Result = RCall ''1.4.0'' False\<rparr>], False)"
proof -
  have g: "schema_gate demo_codec demo_net demo_server t ''web.lan:8443'' = 
     (demo_server\<lparr>ms_compat := [''web.lan:8443'' \<mapsto> \<lparr>hc_ok = True, hc_reason = []\<rparr>],
        ms_calls := [\<lparr>nc_host = ''web.lan:8443'', nc_tool = ''manifest'', nc_body = ''{}'', nc_timeout = 5\<rparr>]\<rparr>, None)"
    if "mt_DaemonRPC t \<noteq> ''manifest''" for t
  proof -
    have "classify_version (Some ''1.4.0'') = \<lparr>hc_ok = True, hc_reason = []\<rparr>" by code_simp
    then show ?thesis using that
      by (simp add: schema_gate_def probeCompat_def do_call_def client_Call_def demo_net_def demo_codec_def
          demo_server_def NewMcp_def recordCompatFromEnvelope_def)
  qed
  have r: "ResolveHost (ms_cfg demo_server) ''web'' = Inr ''web.lan:8443''" by code_simp
  have f: "find (\<lambda>t. mt_Name t = ''host_system'') (ms_tools demo_server) =
      Some (plain_tool ''host_'' ''system'' ''host uptime, load, memory, disk, kernel (read-only)'' 3)"
    by (simp add: demo_server_def NewMcp_def plugin_tools_def plain_tool_def)
  show ?thesis
    by (simp add: serve_line_def mcp_dispatch_def mcp_call_def demo_codec_def [THEN arg_cong, of cd_request]
        demo_codec_def [THEN arg_cong, of cd_params] r f g string_member_def plain_tool_def run_tool_def
        buildDaemonBody_def do_call_def client_Call_def demo_net_def is_notification_def demo_final_def)
qed

lemma demo_Serve:
  "Serve id demo_codec demo_net (\<lambda>n. False) demo_server (''web'' @ [CHR 0x0A]) =
     (demo_final, [\<lparr>rr_ID = ''web'', rr_Result = RCall ''1.4.0'' False\<rparr>], StdinClosed)"
proof -
  have "scan_lines 1048576 (''web'' @ CHR 0x0A # []) = ([''web''], False)"
    by (subst scan_lines_line) (auto simp: scan_lines_last drop_cr_def)
  then show ?thesis using demo_serve_lines by (simp add: Serve_def del: serve_lines.simps)
qed

theorem schema_gate_sound_witness:
  "fst (Serve id demo_codec demo_net (\<lambda>n. False) demo_server (''web'' @ [CHR 0x0A])) = demo_final \<and>
   nc_tool (ms_calls demo_final ! 1) = ''system'' \<and>
   (\<exists>n < 1. nc_host (ms_calls demo_final ! n) = ''web.lan:8443'' \<and> nc_tool (ms_calls demo_final ! n) = ''manifest'')"
proof -
  obtain s' outs' e' where "Serve id demo_codec demo_net (\<lambda>n. False) demo_final [] = (s', outs', e')"
    by (metis prod_cases3)
  from schema_gate_sound [OF demo_Serve [unfolded demo_server_def] this, THEN conjunct1, rule_format, of 1]
  show ?thesis unfolding demo_Serve by (auto simp: demo_final_def)
qed

subsection \<open>Answers\<close>

text \<open>The identifiers of the answers one input line is owed.\<close>

definition owed :: "codec \<Rightarrow> bytes \<Rightarrow> bytes list" where
  "owed cd l =
     (if l = [] then []
      else case cd_request cd l of
             None \<Rightarrow> [[]]
           | Some req \<Rightarrow>
               if is_notification req \<or> jr_Method req = ''notifications/initialized'' then [] else [jr_ID req])"

lemma mcp_call_id: "mcp_call quote cd net s req = (s1, r) \<Longrightarrow> rr_ID r = jr_ID req"
  unfolding mcp_call_def run_tool_def
  by (auto simp: Let_def toolError_def split: sum.splits prod.splits option.splits call_result.splits if_splits)

lemma serve_line_ids: "map rr_ID (snd (serve_line quote cd net s l)) = owed cd l"
  by (auto simp: serve_line_def owed_def mcp_dispatch_def map_prod_def split: prod.splits option.splits if_splits
      dest: mcp_call_id)

lemma serve_lines_ids:
  "\<exists>k. map rr_ID (fst (snd (serve_lines quote cd net ctx n s ls))) = concat (map (owed cd) (take k ls)) \<and>
       (if snd (snd (serve_lines quote cd net ctx n s ls)) then k < length ls \<and> ctx (n + k) else k = length ls)"
proof (induction ls arbitrary: n s)
  case (Cons l ls)
  show ?case
  proof (cases "ctx n")
    case True
    then show ?thesis by (intro exI[of _ 0]) simp
  next
    case False
    obtain s1 out where l: "serve_line quote cd net s l = (s1, out)" by (metis prod.exhaust)
    have o: "map rr_ID out = owed cd l" using serve_line_ids [of quote cd net s l] l by simp
    obtain k where k: "map rr_ID (fst (snd (serve_lines quote cd net ctx (Suc n) s1 ls))) = concat (map (owed cd) (take k ls))"
        "if snd (snd (serve_lines quote cd net ctx (Suc n) s1 ls)) then k < length ls \<and> ctx (Suc n + k) else k = length ls"
      using Cons.IH by blast
    then show ?thesis using False l o by (intro exI[of _ "Suc k"]) (simp add: split_beta split: if_splits)
  qed
qed simp

text \<open>
  C17: The plugin answers every request line exactly once, in input order and under the request's
  own identifier (\<^verbatim>\<open>null\<close> for a line that does not parse), and never answers a notification or an
  empty line, up to the line at which its context was cancelled.
\<close>

theorem serve_answers_in_order:
  "\<exists>k. map rr_ID (fst (snd (Serve quote cd net ctx s inp))) =
         concat (map (owed cd) (take k (fst (scan_lines 1048576 inp)))) \<and>
       (if snd (snd (Serve quote cd net ctx s inp)) = Cancelled
        then k < length (fst (scan_lines 1048576 inp)) \<and> ctx k
        else k = length (fst (scan_lines 1048576 inp)))"
proof -
  obtain ls tooLong where ls: "scan_lines 1048576 inp = (ls, tooLong)" by (metis prod.exhaust)
  obtain k where "map rr_ID (fst (snd (serve_lines quote cd net ctx 0 s ls))) = concat (map (owed cd) (take k ls))"
      "if snd (snd (serve_lines quote cd net ctx 0 s ls)) then k < length ls \<and> ctx (0 + k) else k = length ls"
    using serve_lines_ids [of quote cd net ctx 0 s ls] by blast
  then show ?thesis unfolding ls by (intro exI[of _ k]) (auto simp: Serve_def ls split_beta Let_def split: if_splits)
qed

subsection \<open>Resolved hosts\<close>

lemma colon_notin_show_nat: "CHR '':'' \<notin> set (show_nat n)"
proof (induction n rule: show_nat.induct)
  case (1 n)
  have d: "digit_char k \<noteq> CHR '':''" if "k < 10" for k
  proof -
    have "k \<in> set [0..<10]" using that by simp
    moreover have "list_all (\<lambda>k. digit_char k \<noteq> CHR '':'') [0..<10]" by code_simp
    ultimately show ?thesis unfolding list_all_iff by blast
  qed
  show ?case
    using 1 d [of n] d [of "n mod 10"] by (subst show_nat.simps) (auto simp: not_less)
qed

lemma colon_notin_itoa: "CHR '':'' \<notin> set (itoa i)"
  using colon_notin_show_nat by (simp add: itoa_def)

lemma hostHasPort_unbracketed_port:
  "h \<noteq> [] \<Longrightarrow> hd h \<noteq> CHR ''['' \<Longrightarrow> CHR '':'' \<notin> set h \<Longrightarrow> hostHasPort (h @ '':'' @ itoa p) = Inr True"
  using colon_notin_itoa [of p] count_byte_0 [of h "CHR '':''"] count_byte_0 [of "itoa p" "CHR '':''"]
  by (auto simp: hostHasPort_def count_byte_def hd_append)

lemma hostHasPort_bracketed_port:
  assumes "hostHasPort h = Inr False" "h \<noteq> []" "hd h = CHR ''[''"
  shows "hostHasPort (h @ '':'' @ itoa p) = Inr True"
proof -
  obtain i where i: "index_byte h CHR '']'' = Some i" "drop (i + 1) h = []"
    using assms by (auto simp: hostHasPort_def split: option.splits list.splits if_splits)
  then have "index_byte (h @ '':'' @ itoa p) CHR '']'' = Some i" "length h = i + 1"
    by (auto simp: index_byte_Some nth_append)
  then show ?thesis using assms(2,3) by (simp add: hostHasPort_def)
qed

lemma hostHasPort_plain:
  "hostHasPort h = Inr False \<Longrightarrow> hd h \<noteq> CHR ''['' \<Longrightarrow> CHR '':'' \<notin> set h"
  using count_byte_0 [of h "CHR '':''"] by (auto simp: hostHasPort_def Let_def split: if_splits)

text \<open>
  A resolved host always carries an explicit port, so that the host a decision is cached under
  and the host that is contacted are the same string; resolving it again, under any configuration,
  changes nothing. A host with two colons outside brackets is refused, so the branch of
  \<^verbatim>\<open>ResolveHost\<close> that would bracket a bare IPv6 literal is never taken. The DNS suffix is a domain
  name and has no colon.
\<close>

theorem resolve_host_canonical:
  assumes "ResolveHost cfg host = Inr r" "CHR '':'' \<notin> set (cc_DNSSuffix cfg)"
  shows "hostHasPort r = Inr True \<and> ResolveHost cfg' r = Inr r \<and> \<not> isBareIPv6 host"
proof -
  obtain p where p: "hostHasPort host = Inr p" and ne: "host \<noteq> []"
    using assms(1) by (auto simp: ResolveHost_def split: if_splits sum.splits)
  have nb: "\<not> isBareIPv6 host"
    using p ne by (auto simp: hostHasPort_def isBareIPv6_def Let_def split: if_splits)
  have r: "hostHasPort r = Inr True" "r \<noteq> []"
  proof (atomize (full), cases "p \<or> hd host = CHR ''[''")
    case True
    then have "r = host \<or> (\<exists>q. r = host @ '':'' @ itoa q)" "\<not> p \<longrightarrow> r \<noteq> host" "p \<longrightarrow> r = host"
      using assms(1) p ne nb by (auto simp: ResolveHost_def Let_def split: if_splits)
    then show "hostHasPort r = Inr True \<and> r \<noteq> []" using True p ne hostHasPort_bracketed_port by auto
  next
    case False
    then have nc: "CHR '':'' \<notin> set host" using p hostHasPort_plain by auto
    define h1 where "h1 = (if cc_DNSSuffix cfg \<noteq> [] \<and> \<not> contains_sub host ''.'' then host @ ''.'' @ cc_DNSSuffix cfg else host)"
    define q where "q = (if cc_Port cfg = 0 then 8443 else cc_Port cfg)"
    have r: "r = (if isBareIPv6 h1 then ''['' @ h1 @ '']'' else h1) @ '':'' @ itoa q"
      using assms(1) p ne False unfolding h1_def q_def
      by (auto simp: ResolveHost_def Let_def simp del: append.simps split: if_splits)
    have h1: "h1 = host \<or> h1 = host @ ''.'' @ cc_DNSSuffix cfg" by (simp add: h1_def)
    have "CHR '':'' \<notin> set h1" "h1 \<noteq> []" "hd h1 \<noteq> CHR ''[''" using h1 nc assms(2) ne False by auto
    moreover from this have "\<not> isBareIPv6 h1" using count_byte_0 [of h1 "CHR '':''"] by (auto simp: isBareIPv6_def)
    ultimately show "hostHasPort r = Inr True \<and> r \<noteq> []" using r hostHasPort_unbracketed_port by auto
  qed
  then show ?thesis using nb by (auto simp: ResolveHost_def Let_def)
qed

theorem resolve_host_canonical_witness:
  "hostHasPort ''web.lan:8443'' = Inr True \<and>
   ResolveHost (sample_client 9 ''org'') ''web.lan:8443'' = Inr ''web.lan:8443'' \<and> \<not> isBareIPv6 ''web''"
proof -
  have "ResolveHost (sample_client 0 ''lan'') ''web'' = Inr ''web.lan:8443''" by code_simp
  from resolve_host_canonical [OF this] show ?thesis by (simp add: sample_client_def)
qed

subsection \<open>The command's tool table\<close>

text \<open>
  Under any tool prefix the plugin offers exactly one tool per tool of the daemon, no two with
  the same name, so that every offered name is found and reaches its own daemon endpoint; every
  tool has a timeout of its own, and none declares an argument that would shadow \<^verbatim>\<open>host\<close>.
\<close>

theorem plugin_tools_cover_daemon:
  "set (map mt_DaemonRPC (plugin_tools pre)) = set knownTools \<and>
   distinct (map mt_Name (plugin_tools pre)) \<and>
   list_all (\<lambda>t. find (\<lambda>u. mt_Name u = mt_Name t) (plugin_tools pre) = Some t \<and> mt_Name t = pre @ mt_DaemonRPC t \<and>
     0 < mt_TimeoutS t \<and> ''host'' \<notin> set (map fst (mt_ArgsProperties t)) \<and>
     set (mt_ArgsRequired t) \<subseteq> set (map fst (mt_ArgsProperties t))) (plugin_tools pre)"
proof -
  have rpcs: "map mt_DaemonRPC (plugin_tools pre) =
      [''manifest'', ''system'', ''systemd_units'', ''network'', ''dns'', ''security'', ''certs'', ''mail'',
       ''backup'', ''workload'', ''logs'', ''pressure'', ''kernel'', ''sockets'', ''updates'', ''storage'',
       ''sensors'', ''firewall'', ''firewall_lookup'']" (is "_ = ?rpcs")
    by (simp add: plugin_tools_def plain_tool_def)
  have n: "map mt_Name (plugin_tools pre) = map ((@) pre) ?rpcs"
    by (simp add: plugin_tools_def plain_tool_def)
  have dn: "distinct (map mt_Name (plugin_tools pre))" unfolding n by (subst distinct_map) (simp add: inj_on_def)
  have m: "set ?rpcs = set knownTools" by code_simp
  have f: "find (\<lambda>u. mt_Name u = mt_Name t) ts = Some t" if "distinct (map mt_Name ts)" "t \<in> set ts" for t ts
    using that by (induction ts) force+
  have a: "list_all (\<lambda>t. mt_Name t = pre @ mt_DaemonRPC t \<and> 0 < mt_TimeoutS t \<and>
      ''host'' \<notin> set (map fst (mt_ArgsProperties t)) \<and>
      set (mt_ArgsRequired t) \<subseteq> set (map fst (mt_ArgsProperties t))) (plugin_tools pre)"
    by (simp add: plugin_tools_def plain_tool_def logsArgs_def firewallArgs_def firewallLookupArgs_def)
  show ?thesis unfolding rpcs using m dn a f [OF dn] by (simp add: list_all_iff)
qed

subsection \<open>The start of the plugin and what it writes\<close>

text \<open>
  A plugin that serves speaks TLS 1.3 with its own certificate and trusts either the bundle it was given, which
  is not empty, or, only when the environment asks for it, the roots of the system; a call takes at most
  fifteen seconds.
\<close>

lemma plugin_trust:
  assumes "plugin_main quote tv v buildID = PluginServing s cli"
  shows "ct_MinVersion (hcl_tls cli) = 0x304 \<and> hcl_Timeout cli = 15 * Second \<and>
    (case ct_RootCAs (hcl_tls cli) of
       Some pool \<Rightarrow> pool \<noteq> [] \<and> tv_getenv tv ''HOSTHEALTH_TLS_CA'' \<noteq> []
     | None \<Rightarrow> tv_getenv tv ''HOSTHEALTH_TLS_CA'' = [] \<and> tv_getenv tv EnvTrustSystemRoots = ''1'')"
proof -
  obtain port where "NewHTTPClient tv (plugin_config (tv_getenv tv) port) = Inr cli"
    using assms unfolding plugin_main_def Let_def by (simp split: if_splits option.splits sum.splits)
  then have n: "hcl_Timeout cli = 15 * Second" "ct_MinVersion (hcl_tls cli) = 0x304"
      "rootCAs tv (plugin_config (tv_getenv tv) port) = Inr (ct_RootCAs (hcl_tls cli))"
    unfolding NewHTTPClient_def by (auto simp: plugin_config_def split: sum.splits)
  have "cc_CAPath (plugin_config (tv_getenv tv) port) = tv_getenv tv ''HOSTHEALTH_TLS_CA''"
    by (simp add: plugin_config_def envOr_def)
  with n(3) have "case ct_RootCAs (hcl_tls cli) of
       Some pool \<Rightarrow> pool \<noteq> [] \<and> tv_getenv tv ''HOSTHEALTH_TLS_CA'' \<noteq> []
     | None \<Rightarrow> tv_getenv tv ''HOSTHEALTH_TLS_CA'' = [] \<and> tv_getenv tv EnvTrustSystemRoots = ''1''"
    unfolding rootCAs_def Let_def by (cases "ct_RootCAs (hcl_tls cli)") (auto split: if_splits sum.splits)
  with n show ?thesis by simp
qed

text \<open>
  The output is a sequence of lines, one for each response that can be encoded, in order, provided that no
  encoded response contains a newline.
\<close>

lemma mcp_write_lines:
  "foldl (mcp_write marshal) out rs = out @ concat (map (\<lambda>b. b @ [CHR 0x0A]) (List.map_filter marshal rs))"
proof (induction rs arbitrary: out)
  case Nil
  then show ?case by (simp add: map_filter_simps)
next
  case (Cons r rs)
  then show ?case by (cases "marshal r") (simp_all add: mcp_write_def map_filter_simps)
qed

lemma split_on_free: "c \<notin> set b \<Longrightarrow> split_on c cur (b @ c # rest) = (rev cur @ b) # split_on c [] rest"
  by (induction b arbitrary: cur) auto

lemma lines_split:
  "\<forall>b \<in> set bs. CHR 0x0A \<notin> set b \<Longrightarrow> split_on CHR 0x0A [] (concat (map (\<lambda>b. b @ [CHR 0x0A]) bs)) = bs @ [[]]"
  by (induction bs) (simp_all add: split_on_free)

lemma plugin_output_lines:
  assumes "\<And>r b. marshal r = Some b \<Longrightarrow> CHR 0x0A \<notin> set b"
    and "Serve quote cd net ctx s inp = (s', outs, e)"
  shows "split_on CHR 0x0A [] (fst (plugin_run marshal quote cd net ctx s inp)) = List.map_filter marshal outs @ [[]]"
proof -
  have "\<forall>b \<in> set (List.map_filter marshal outs). CHR 0x0A \<notin> set b"
    using assms(1) by (auto simp: List.map_filter_def)
  then show ?thesis using assms(2) by (simp add: plugin_run_def mcp_write_lines lines_split)
qed

end
