(* ===== verification/JsonText.thy ===== *)
theory JsonText
  imports GoConv
begin

text \<open>
  \<^verbatim>\<open>encoding/json\<close> on bytes, as the program uses it: the scanner that decides what is JSON, a
  value's outermost layer with its parts still as text (a \<^verbatim>\<open>json.RawMessage\<close> each), decoding into Go's
  types, and the compaction \<^verbatim>\<open>json.Marshal\<close> applies to raw messages. When an object names a field
  twice the later member counts; an object's members keep their order.
\<close>

subsection \<open>The scanner\<close>

text \<open>What the scanner is inside of, and the step it is at; a stack of the former.\<close>

datatype parse_state = ObjectKey | ObjectValue | ArrayValue

datatype scan_state =
    BeginValue | BeginValueOrEmpty | BeginString | BeginStringOrEmpty | EndValue
  | InString | InStringEsc | InStringEscU nat
  | Neg | Num1 | Num0 | Dot | Dot0 | NumE | NumESign | NumE0
  | InLiteral bytes

definition json_space :: "char \<Rightarrow> bool" where
  "json_space c \<longleftrightarrow> c \<in> {CHR '' '', CHR 0x09, CHR 0x0A, CHR 0x0D}"

definition json_digit :: "char \<Rightarrow> bool" where
  "json_digit c \<longleftrightarrow> 48 \<le> (of_char c :: nat) \<and> (of_char c :: nat) \<le> 57"

definition json_hex :: "char \<Rightarrow> bool" where
  "json_hex c \<longleftrightarrow> digit_val c \<noteq> None"

definition maxNestingDepth :: nat where
  "maxNestingDepth = 10000"

type_synonym scanner = "scan_state \<times> parse_state list"

definition push :: "parse_state \<Rightarrow> scan_state \<Rightarrow> parse_state list \<Rightarrow> scanner option" where
  "push p st stack = (if maxNestingDepth \<le> length stack then None else Some (st, p # stack))"

text \<open>\<^verbatim>\<open>stateEndValue\<close> and, with nothing left open, \<^verbatim>\<open>stateEndTop\<close>.\<close>

definition end_value :: "parse_state list \<Rightarrow> char \<Rightarrow> scanner option" where
  "end_value stack c =
     (if json_space c then Some (EndValue, stack)
      else case stack of
        [] \<Rightarrow> None
      | ObjectKey # ps \<Rightarrow> if c = CHR '':'' then Some (BeginValue, ObjectValue # ps) else None
      | ObjectValue # ps \<Rightarrow>
          if c = CHR '','' then Some (BeginString, ObjectKey # ps)
          else if c = CHR ''}'' then Some (EndValue, ps) else None
      | ArrayValue # ps \<Rightarrow>
          if c = CHR '','' then Some (BeginValue, stack)
          else if c = CHR '']'' then Some (EndValue, ps) else None)"

definition begin_value :: "parse_state list \<Rightarrow> char \<Rightarrow> scanner option" where
  "begin_value stack c =
     (if json_space c then Some (BeginValue, stack)
      else if c = CHR ''{'' then push ObjectKey BeginStringOrEmpty stack
      else if c = CHR ''['' then push ArrayValue BeginValueOrEmpty stack
      else if c = CHR 0x22 then Some (InString, stack)
      else if c = CHR ''-'' then Some (Neg, stack)
      else if c = CHR ''0'' then Some (Num0, stack)
      else if c = CHR ''t'' then Some (InLiteral ''rue'', stack)
      else if c = CHR ''f'' then Some (InLiteral ''alse'', stack)
      else if c = CHR ''n'' then Some (InLiteral ''ull'', stack)
      else if json_digit c then Some (Num1, stack)
      else None)"

definition begin_string :: "parse_state list \<Rightarrow> char \<Rightarrow> scanner option" where
  "begin_string stack c =
     (if json_space c then Some (BeginString, stack)
      else if c = CHR 0x22 then Some (InString, stack) else None)"

fun scan_step :: "scan_state \<Rightarrow> parse_state list \<Rightarrow> char \<Rightarrow> scanner option" where
  "scan_step BeginValue stack c = begin_value stack c"
| "scan_step BeginValueOrEmpty stack c =
     (if json_space c then Some (BeginValueOrEmpty, stack)
      else if c = CHR '']'' then end_value stack c
      else begin_value stack c)"
| "scan_step BeginString stack c = begin_string stack c"
| "scan_step BeginStringOrEmpty stack c =
     (if json_space c then Some (BeginStringOrEmpty, stack)
      else if c = CHR ''}'' then end_value (ObjectValue # tl stack) c
      else begin_string stack c)"
| "scan_step EndValue stack c = end_value stack c"
| "scan_step InString stack c =
     (if c = CHR 0x22 then Some (EndValue, stack)
      else if c = CHR 0x5C then Some (InStringEsc, stack)
      else if (of_char c :: nat) < 32 then None
      else Some (InString, stack))"
| "scan_step InStringEsc stack c =
     (if c \<in> set ''bfnrt/'' \<or> c = CHR 0x5C \<or> c = CHR 0x22 then Some (InString, stack)
      else if c = CHR ''u'' then Some (InStringEscU 3, stack)
      else None)"
| "scan_step (InStringEscU k) stack c =
     (if json_hex c then Some (case k of 0 \<Rightarrow> InString | Suc n \<Rightarrow> InStringEscU n, stack) else None)"
| "scan_step Neg stack c =
     (if c = CHR ''0'' then Some (Num0, stack) else if json_digit c then Some (Num1, stack) else None)"
| "scan_step Num1 stack c =
     (if json_digit c then Some (Num1, stack)
      else if c = CHR ''.'' then Some (Dot, stack)
      else if c = CHR ''e'' \<or> c = CHR ''E'' then Some (NumE, stack)
      else end_value stack c)"
| "scan_step Num0 stack c =
     (if c = CHR ''.'' then Some (Dot, stack)
      else if c = CHR ''e'' \<or> c = CHR ''E'' then Some (NumE, stack)
      else end_value stack c)"
| "scan_step Dot stack c = (if json_digit c then Some (Dot0, stack) else None)"
| "scan_step Dot0 stack c =
     (if json_digit c then Some (Dot0, stack)
      else if c = CHR ''e'' \<or> c = CHR ''E'' then Some (NumE, stack)
      else end_value stack c)"
| "scan_step NumE stack c =
     (if c = CHR ''+'' \<or> c = CHR ''-'' then Some (NumESign, stack)
      else if json_digit c then Some (NumE0, stack) else None)"
| "scan_step NumESign stack c = (if json_digit c then Some (NumE0, stack) else None)"
| "scan_step NumE0 stack c = (if json_digit c then Some (NumE0, stack) else end_value stack c)"
| "scan_step (InLiteral l) stack c =
     (case l of
        [] \<Rightarrow> None
      | d # ds \<Rightarrow> if c = d then Some (if ds = [] then EndValue else InLiteral ds, stack) else None)"

fun scan_all :: "scan_state \<Rightarrow> parse_state list \<Rightarrow> bytes \<Rightarrow> scanner option" where
  "scan_all st stack [] = Some (st, stack)"
| "scan_all st stack (c # s) =
     (case scan_step st stack c of None \<Rightarrow> None | Some (st', stack') \<Rightarrow> scan_all st' stack' s)"

text \<open>\<^verbatim>\<open>json.Valid\<close>: the end of the input counts as a space.\<close>

definition json_valid :: "bytes \<Rightarrow> bool" where
  "json_valid s = (scan_all BeginValue [] (s @ '' '') = Some (EndValue, []))"

subsection \<open>Strings\<close>

definition hex_val :: "bytes \<Rightarrow> nat" where
  "hex_val s = (case parse_digits 16 0 s of Some n \<Rightarrow> n | None \<Rightarrow> 0)"

definition replacement :: bytes where
  "replacement = [CHR 0xEF, CHR 0xBF, CHR 0xBD]"

text \<open>\<^verbatim>\<open>utf8.AppendRune\<close>.\<close>

definition encode_rune :: "nat \<Rightarrow> bytes" where
  "encode_rune r =
     (if r < 0x80 then [char_of r]
      else if r < 0x800 then [char_of (0xC0 + r div 64), char_of (0x80 + r mod 64)]
      else if 0xD800 \<le> r \<and> r \<le> 0xDFFF \<or> 0x10FFFF < r then replacement
      else if r < 0x10000 then
        [char_of (0xE0 + r div 4096), char_of (0x80 + r div 64 mod 64), char_of (0x80 + r mod 64)]
      else [char_of (0xF0 + r div 262144), char_of (0x80 + r div 4096 mod 64),
            char_of (0x80 + r div 64 mod 64), char_of (0x80 + r mod 64)])"

definition is_surrogate :: "nat \<Rightarrow> bool" where
  "is_surrogate r \<longleftrightarrow> 0xD800 \<le> r \<and> r < 0xE000"

text \<open>No other escape occurs in a valid literal.\<close>

definition escape_char :: "char \<Rightarrow> bytes" where
  "escape_char c =
     (if c = CHR ''b'' then [CHR 0x08] else if c = CHR ''f'' then [CHR 0x0C]
      else if c = CHR ''n'' then [CHR 0x0A] else if c = CHR ''r'' then [CHR 0x0D]
      else if c = CHR ''t'' then [CHR 0x09]
      else if c \<in> {CHR 0x22, CHR 0x5C, CHR ''/'', CHR 0x27} then [c] else [])"

text \<open>
  The value of a string literal, from the text between its quotes. A lone surrogate and a byte that
  is not UTF-8 become the replacement character.
\<close>

function unquote :: "bytes \<Rightarrow> bytes" where
  "unquote s =
     (case s of
        [] \<Rightarrow> []
      | c # s' \<Rightarrow>
          if c = CHR 0x5C then
            (case s' of
               [] \<Rightarrow> []
             | e # t \<Rightarrow>
                 if e = CHR ''u'' then
                   (let r = hex_val (take 4 t); u = drop 4 t
                    in if is_surrogate r then
                         (let r2 = hex_val (take 4 (drop 2 u))
                          in if has_prefix u [CHR 0x5C, CHR ''u''] \<and> r < 0xDC00 \<and> 0xDC00 \<le> r2 \<and> r2 < 0xE000
                             then encode_rune ((r - 0xD800) * 1024 + (r2 - 0xDC00) + 0x10000) @ unquote (drop 6 u)
                             else replacement @ unquote u)
                       else encode_rune r @ unquote u)
                 else escape_char e @ unquote t)
          else if rune_len s = 0 then replacement @ unquote s'
          else take (rune_len s) s @ unquote (drop (rune_len s) s))"
  by pat_completeness auto
termination
  by (relation "measure length") auto

declare unquote.simps [simp del]

subsection \<open>One layer of a value\<close>

datatype lexical = Outside | Quoted | Escaped

fun lex_next :: "lexical \<Rightarrow> char \<Rightarrow> lexical" where
  "lex_next Outside c = (if c = CHR 0x22 then Quoted else Outside)"
| "lex_next Quoted c = (if c = CHR 0x22 then Outside else if c = CHR 0x5C then Escaped else Quoted)"
| "lex_next Escaped c = Quoted"

text \<open>The pieces of a text between separators that are in no string and in no bracket.\<close>

fun top_split :: "char \<Rightarrow> lexical \<Rightarrow> nat \<Rightarrow> bytes \<Rightarrow> bytes \<Rightarrow> bytes list" where
  "top_split sep lx depth cur [] = [rev cur]"
| "top_split sep lx depth cur (c # s) =
     (if lx = Outside \<and> depth = 0 \<and> c = sep then rev cur # top_split sep lx depth [] s
      else top_split sep (lex_next lx c)
             (if lx \<noteq> Outside then depth
              else if c = CHR ''{'' \<or> c = CHR ''['' then Suc depth
              else if c = CHR ''}'' \<or> c = CHR '']'' then depth - 1 else depth)
             (c # cur) s)"

definition json_strip :: "bytes \<Rightarrow> bytes" where
  "json_strip s = rev (dropWhile json_space (rev (dropWhile json_space s)))"

text \<open>What is between the first and the last byte, and its items.\<close>

definition inner :: "bytes \<Rightarrow> bytes" where
  "inner s = butlast (tl s)"

definition json_items :: "bytes \<Rightarrow> bytes list" where
  "json_items s = (if json_strip s = [] then [] else map json_strip (top_split CHR '','' Outside 0 [] s))"

datatype json_view =
    VNull | VBool bool | VNum bytes | VStr bytes | VArr "bytes list" | VObj "(bytes \<times> bytes) list"

definition json_member :: "bytes \<Rightarrow> bytes \<times> bytes" where
  "json_member s =
     (case top_split CHR '':'' Outside 0 [] s of
        [k, v] \<Rightarrow> (unquote (inner (json_strip k)), json_strip v)
      | _ \<Rightarrow> ([], []))"

definition json_view :: "bytes \<Rightarrow> json_view option" where
  "json_view s =
     (if \<not> json_valid s then None
      else let t = json_strip s
      in Some (case t of
           [] \<Rightarrow> VNull
         | c # _ \<Rightarrow>
             if c = CHR ''{'' then VObj (map json_member (json_items (inner t)))
             else if c = CHR ''['' then VArr (json_items (inner t))
             else if c = CHR 0x22 then VStr (unquote (inner t))
             else if c = CHR ''t'' then VBool True
             else if c = CHR ''f'' then VBool False
             else if c = CHR ''n'' then VNull
             else VNum t))"

subsection \<open>Decoding into Go types\<close>

text \<open>
  \<^verbatim>\<open>json.Unmarshal\<close> into a variable: from its value before and the text to its value after,
  \<^const>\<open>None\<close> for an error. A \<^verbatim>\<open>null\<close> leaves strings, numbers, booleans and structs alone and makes
  pointers, slices and maps nil.
\<close>

type_synonym 'a decoder = "'a \<Rightarrow> bytes \<Rightarrow> 'a option"

definition dec_string :: "bytes decoder" where
  "dec_string old s = (case json_view s of Some (VStr v) \<Rightarrow> Some v | Some VNull \<Rightarrow> Some old | _ \<Rightarrow> None)"

definition dec_bool :: "bool decoder" where
  "dec_bool old s = (case json_view s of Some (VBool b) \<Rightarrow> Some b | Some VNull \<Rightarrow> Some old | _ \<Rightarrow> None)"

definition dec_int :: "int decoder" where
  "dec_int old s = (case json_view s of Some (VNum t) \<Rightarrow> atoi t | Some VNull \<Rightarrow> Some old | _ \<Rightarrow> None)"

text \<open>A \<^verbatim>\<open>json.RawMessage\<close>; empty before it is set. The text of a member is valid already.\<close>

definition dec_raw :: "bytes decoder" where
  "dec_raw old s = Some s"

definition dec_ptr :: "'a decoder \<Rightarrow> 'a \<Rightarrow> 'a option decoder" where
  "dec_ptr dec zero old s =
     (case json_view s of Some VNull \<Rightarrow> Some None | _ \<Rightarrow> map_option Some (dec zero s))"

fun dec_all :: "'a decoder \<Rightarrow> 'a \<Rightarrow> bytes list \<Rightarrow> 'a list option" where
  "dec_all dec zero [] = Some []"
| "dec_all dec zero (s # ss) =
     (case (dec zero s, dec_all dec zero ss) of (Some x, Some xs) \<Rightarrow> Some (x # xs) | _ \<Rightarrow> None)"

text \<open>A slice; \<^const>\<open>None\<close> is nil.\<close>

definition dec_slice :: "'a decoder \<Rightarrow> 'a \<Rightarrow> 'a list option decoder" where
  "dec_slice dec zero old s =
     (case json_view s of
        Some (VArr ss) \<Rightarrow> map_option Some (dec_all dec zero ss)
      | Some VNull \<Rightarrow> Some None
      | _ \<Rightarrow> None)"

text \<open>A \<^verbatim>\<open>map[string]json.RawMessage\<close>.\<close>

definition dec_map :: "bytes \<Rightarrow> (bytes \<rightharpoonup> bytes) option" where
  "dec_map s =
     (case json_view s of
        Some (VObj ms) \<Rightarrow> Some (map_of (rev ms))
      | Some VNull \<Rightarrow> Some Map.empty
      | _ \<Rightarrow> None)"

text \<open>
  Member names match struct fields in any case; outside ASCII the Kelvin sign is a \<^verbatim>\<open>k\<close> and the long
  s an \<^verbatim>\<open>s\<close>.
\<close>

fun fold_name :: "bytes \<Rightarrow> bytes" where
  "fold_name [] = []"
| "fold_name (c # s) =
     (if 65 \<le> (of_char c :: nat) \<and> (of_char c :: nat) \<le> 90 then char_of ((of_char c :: nat) + 32) # fold_name s
      else case (c, s) of
        (CHR 0xE2, CHR 0x84 # CHR 0xAA # s') \<Rightarrow> CHR ''k'' # fold_name s'
      | (CHR 0xC5, CHR 0xBF # s') \<Rightarrow> CHR ''s'' # fold_name s'
      | _ \<Rightarrow> c # fold_name s)"

definition dec_field :: "'a decoder \<Rightarrow> 'a \<Rightarrow> (bytes \<times> bytes) list \<Rightarrow> bytes \<Rightarrow> 'a option" where
  "dec_field dec zero ms name =
     foldl (\<lambda>acc (k, v). if fold_name k = name then Option.bind acc (\<lambda>old. dec old v) else acc) (Some zero) ms"

text \<open>The members a struct is filled from: those of an object; none for \<^verbatim>\<open>null\<close>.\<close>

definition dec_struct :: "bytes \<Rightarrow> (bytes \<times> bytes) list option" where
  "dec_struct s = (case json_view s of Some (VObj ms) \<Rightarrow> Some ms | Some VNull \<Rightarrow> Some [] | _ \<Rightarrow> None)"

subsection \<open>Compaction\<close>

text \<open>What \<^verbatim>\<open>json.Marshal\<close> makes of a raw message: no space outside strings, and the HTML escapes.\<close>

fun compact :: "lexical \<Rightarrow> bytes \<Rightarrow> bytes" where
  "compact lx [] = []"
| "compact lx (c # s) =
     (if lx = Outside \<and> json_space c then compact lx s
      else if c = CHR ''<'' \<or> c = CHR ''>'' \<or> c = CHR ''&'' then
        [CHR 0x5C] @ ''u00'' @ [hex_lower ((of_char c :: nat) div 16), hex_lower ((of_char c :: nat) mod 16)] @ compact (lex_next lx c) s
      else if c = CHR 0xE2 \<and> take 2 s = [CHR 0x80, CHR 0xA8] then [CHR 0x5C] @ ''u2028'' @ compact Quoted (drop 2 s)
      else if c = CHR 0xE2 \<and> take 2 s = [CHR 0x80, CHR 0xA9] then [CHR 0x5C] @ ''u2029'' @ compact Quoted (drop 2 s)
      else c # compact (lex_next lx c) s)"

text \<open>\<^verbatim>\<open>json.Marshal\<close> of a slice of raw messages; an empty raw message is written as \<^verbatim>\<open>null\<close>.\<close>

definition marshal_raws :: "bytes list option \<Rightarrow> bytes" where
  "marshal_raws rs =
     (case rs of
        None \<Rightarrow> ''null''
      | Some ss \<Rightarrow> ''['' @ join (map (\<lambda>s. if s = [] then ''null'' else compact Outside s) ss) '','' @ '']'')"

end
