(* ===== verification/OpsBase.thy ===== *)
theory OpsBase
  imports Complex_Main HelperServer JsonText GoPath
begin

text \<open>
  What the ops of \<^verbatim>\<open>daemon/internal/helper/ops\<close> share: subprocesses and files of the host as
  functions, the error an op returns, and the string functions only the ops use. An op is a
  function from the host and its parameter to a typed result or an error; encoding the result is
  left to an argument.
\<close>

subsection \<open>The host\<close>

text \<open>
  \<open>wd_child\<close> is the subprocess that runs for a command line, the program's name first; \<open>wd_file\<close> is
  \<^verbatim>\<open>os.Open\<close>: an error, or what reading the file to its end delivers, which are bytes and perhaps the
  error that the reading stops with; \<open>wd_stat\<close>, \<open>wd_dir\<close> and \<open>wd_statfs\<close> are
  \<^verbatim>\<open>os.Stat\<close>, \<^verbatim>\<open>os.ReadDir\<close> and the type \<^verbatim>\<open>statfs(2)\<close> reports; \<open>wd_open\<close> opens a file without following
  a link and delivers its status and its content, or the error of reading it. Of the standard library,
  \<open>wd_parse_time\<close> is \<^verbatim>\<open>time.Parse\<close>, \<open>wd_parse_float\<close> \<^verbatim>\<open>strconv.ParseFloat\<close>, \<open>wd_gunzip\<close> the first bytes
  of what a compressed file holds; the text of an error that a function returns for an input, and
  Go's quoting of a string in a message, are \<open>wd_error\<close> and \<open>wd_quote\<close>.
\<close>

record file_info =
  fi_Size :: int
  fi_ModTime :: time
  fi_IsRegular :: bool

datatype stat_error = NotExist bytes | StatFailed bytes

text \<open>The time of a directory entry is missing when the entry has vanished.\<close>

record dir_entry =
  dn_Name :: bytes
  dn_IsDir :: bool
  dn_ModTime :: "time option"

record world =
  wd_sha256 :: "bytes \<Rightarrow> bytes"
  wd_child :: "bytes list \<Rightarrow> child"
  wd_file :: "bytes \<Rightarrow> stat_error + bytes \<times> bytes option"
  wd_error :: "bytes \<Rightarrow> bytes \<Rightarrow> bytes"
  wd_quote :: "bytes \<Rightarrow> bytes"
  wd_now :: time
  wd_stat :: "bytes \<Rightarrow> stat_error + file_info"
  wd_dir :: "bytes \<Rightarrow> stat_error + dir_entry list"
  wd_statfs :: "bytes \<Rightarrow> bytes + int"
  wd_open :: "bytes \<Rightarrow> bytes + file_info \<times> (bytes + bytes)"
  wd_parse_time :: "bytes \<Rightarrow> bytes \<Rightarrow> time option"
  wd_parse_float :: "bytes \<Rightarrow> rat option"
  wd_gunzip :: "nat \<Rightarrow> bytes \<Rightarrow> bytes option"

definition stat_text :: "stat_error \<Rightarrow> bytes" where
  "stat_text e = (case e of NotExist m \<Rightarrow> m | StatFailed m \<Rightarrow> m)"

text \<open>\<^verbatim>\<open>os.ReadFile\<close>: all of a file or an error.\<close>

definition ReadFile :: "world \<Rightarrow> bytes \<Rightarrow> stat_error + bytes" where
  "ReadFile w p =
     (case wd_file w p of
        Inl e \<Rightarrow> Inl e
      | Inr (b, None) \<Rightarrow> Inr b
      | Inr (b, Some e) \<Rightarrow> Inl (StatFailed e))"

definition file_exists :: "world \<Rightarrow> bytes \<Rightarrow> bool" where
  "file_exists w p = (case wd_stat w p of Inl e \<Rightarrow> False | Inr i \<Rightarrow> True)"

text \<open>\<^verbatim>\<open>io.LimitReader\<close>: the rest of the input, and an error that comes after the limit, are not seen.\<close>

definition limit_reader :: "nat \<Rightarrow> bytes \<times> bytes option \<Rightarrow> bytes \<times> bytes option" where
  "limit_reader n r = (if n \<le> length (fst r) then (take n (fst r), None) else r)"

text \<open>The zero value of \<^verbatim>\<open>time.Time\<close>: the first of January of the year 1.\<close>

definition zero_time :: time where
  "zero_time = - 62135596800 * 10 ^ 9"

type_synonym 'r op_result = "exec_error + 'r"

definition Run :: "world \<Rightarrow> bytes list \<Rightarrow> bytes \<times> exec_error option" where
  "Run w argv = exec_Run (wd_sha256 w) (wd_child w argv)"

definition run_capped :: "world \<Rightarrow> nat \<Rightarrow> bytes list \<Rightarrow> bytes \<times> bool \<times> exec_error option" where
  "run_capped w maxBytes argv = RunCapped (wd_sha256 w) (wd_child w argv) maxBytes"

definition op_error :: "bytes \<Rightarrow> bytes \<Rightarrow> exec_error" where
  "op_error code msg = Typed (zero_dispatch_Error\<lparr>de_Code := code, de_Message := msg\<rparr>)"

text \<open>\<^verbatim>\<open>errors.As(err, &de) && de.Code == code\<close>.\<close>

definition has_code :: "exec_error \<Rightarrow> bytes \<Rightarrow> bool" where
  "has_code e code = (case e of Typed de \<Rightarrow> de_Code de = code | Plain m \<Rightarrow> False)"

text \<open>An op as the dispatcher sees it.\<close>

definition op_handler :: "('r \<Rightarrow> bytes) \<Rightarrow> 'r op_result \<Rightarrow> handler_result" where
  "op_handler marshal r =
     (case r of Inl (Typed de) \<Rightarrow> HandlerTyped de | Inl (Plain m) \<Rightarrow> HandlerPlain m | Inr v \<Rightarrow> HandlerOk (marshal v))"

lemma exec_Run_typed: "snd (exec_Run h ch) = Some e \<Longrightarrow> \<exists>de. e = Typed de"
  by (auto simp: exec_Run_def Let_def split: if_splits start_result.splits option.splits)

subsection \<open>Strings\<close>

definition ascii_digit :: "char \<Rightarrow> bool" where
  "ascii_digit c \<longleftrightarrow> 48 \<le> (of_char c :: nat) \<and> (of_char c :: nat) \<le> 57"

definition ascii_upper :: "char \<Rightarrow> bool" where
  "ascii_upper c \<longleftrightarrow> 65 \<le> (of_char c :: nat) \<and> (of_char c :: nat) \<le> 90"

definition ascii_lower :: "char \<Rightarrow> bool" where
  "ascii_lower c \<longleftrightarrow> 97 \<le> (of_char c :: nat) \<and> (of_char c :: nat) \<le> 122"

definition ascii_alnum :: "char \<Rightarrow> bool" where
  "ascii_alnum c \<longleftrightarrow> ascii_digit c \<or> ascii_upper c \<or> ascii_lower c"

text \<open>
  \<^verbatim>\<open>strings.ToLower\<close> as far as a search for ASCII text can see it: the two runes outside ASCII whose
  lower case is an ASCII letter are the Kelvin sign and the dotted capital I.
\<close>

fun to_lower :: "bytes \<Rightarrow> bytes" where
  "to_lower [] = []"
| "to_lower (c # s) =
     (if ascii_upper c then char_of ((of_char c :: nat) + 32) # to_lower s
      else case (c, s) of
        (CHR 0xE2, CHR 0x84 # CHR 0xAA # s') \<Rightarrow> CHR ''k'' # to_lower s'
      | (CHR 0xC4, CHR 0xB0 # s') \<Rightarrow> CHR ''i'' # to_lower s'
      | _ \<Rightarrow> c # to_lower s)"

lemma space_free_printable: "list_all (\<lambda>c. 32 < (of_char c :: nat) \<and> (of_char c :: nat) < 127) s \<Longrightarrow> space_free s"
proof (induction s)
  case (Cons c s)
  then have c: "32 < (of_char c :: nat)" "(of_char c :: nat) < 127" by auto
  have "space_len (c # s) = 0" unfolding space_len_0_iff
  proof (intro ballI notI)
    fix r assume r: "r \<in> set space_runes" "has_prefix (c # s) r"
    then obtain d r' where "r = d # r'" using space_runes_nonempty [of r] by (meson neq_Nil_conv)
    with r(2) have rc: "r = c # r'" by simp
    then have "c \<in> set ascii_spaces" using r(1) c wide_spaces_high [of r c] by (fastforce simp: space_runes_def)
    then show False using c by (auto simp: ascii_spaces_def)
  qed
  then show ?case using Cons by simp
qed simp

definition trim_prefix :: "bytes \<Rightarrow> bytes \<Rightarrow> bytes" where
  "trim_prefix s p = fst (cut_prefix s p)"

text \<open>\<^verbatim>\<open>strings.Index\<close> of a text, as what comes after its first occurrence.\<close>

fun after_sub :: "bytes \<Rightarrow> bytes \<Rightarrow> bytes option" where
  "after_sub s t =
     (if has_prefix s t then Some (drop (length t) s)
      else case s of [] \<Rightarrow> None | c # s' \<Rightarrow> after_sub s' t)"

declare after_sub.simps [simp del]

lemma after_sub_None: "after_sub s t = None \<longleftrightarrow> \<not> contains_sub s t"
proof (induction s)
  case Nil
  then show ?case by (subst after_sub.simps) simp
next
  case (Cons c s)
  then show ?case by (subst after_sub.simps) simp
qed

text \<open>The error of a scanner over a whole input.\<close>

definition scan_reader :: "bytes \<Rightarrow> bytes \<times> bytes option \<Rightarrow> bytes list \<times> bytes option" where
  "scan_reader what r = (Lines (linescan_New (fst r) (snd r) what), linescan_Err (linescan_New (fst r) (snd r) what))"

definition scan_with :: "bytes \<Rightarrow> bytes \<Rightarrow> bytes list \<times> bytes option" where
  "scan_with what inp = (Lines (linescan_New inp None what), linescan_Err (linescan_New inp None what))"

lemma scan_with_spec:
  assumes "\<forall>l \<in> set (ls @ [l']). CHR 0x0A \<notin> set l" and "\<forall>l \<in> set (ls @ [l']). length l < MaxLine"
  shows "scan_with what (terminated ls @ l') = (map drop_cr ls @ (if l' = [] then [] else [drop_cr l']), None)"
proof -
  have "scan_lines MaxLine (terminated ls @ l') = (map drop_cr ls @ (if l' = [] then [] else [drop_cr l']), False)"
    using scan_lines_spec [OF assms(1), of MaxLine] assms(2) by (simp add: list_all_iff)
  moreover have "max InitialBuffer MaxLine = MaxLine" by (simp add: InitialBuffer_def MaxLine_def)
  ultimately show ?thesis
    by (simp add: scan_with_def Lines_def linescan_Err_def bufio_Err_def linescan_New_def)
qed

end
