(* ===== verification/OpsMail.thy ===== *)
theory OpsMail
  imports OpsBase
begin

text \<open>
  \<^verbatim>\<open>postqueue.go\<close>: the depth and the deferred count of the mail queue, from the text of
  \<^verbatim>\<open>postqueue -p\<close>.
\<close>

record PostqueueResult =
  pq_QueueDepth :: int
  pq_DeferredCount :: int

definition maxQueueDepth :: int where
  "maxQueueDepth = 10000000"

text \<open>The digits of the request count, saturating.\<close>

fun sat_digits :: "int \<Rightarrow> bytes \<Rightarrow> int" where
  "sat_digits n [] = n"
| "sat_digits n (c # cs) =
     (if \<not> ascii_digit c then n
      else (let d = int (of_char c) - 48
            in if (maxQueueDepth - d) div 10 < n then maxQueueDepth else sat_digits (n * 10 + d) cs))"

text \<open>The loop over the fields of a summary line: every field after an \<^verbatim>\<open>in\<close> sets the depth.\<close>

fun summary_depth :: "int \<Rightarrow> bytes list \<Rightarrow> int" where
  "summary_depth q (f # g # fs) = summary_depth (if f = ''in'' then sat_digits 0 g else q) (g # fs)"
| "summary_depth q fs = q"

definition is_summary :: "bytes \<Rightarrow> bool" where
  "is_summary line \<longleftrightarrow> has_prefix line ''--'' \<and> contains_sub line ''Requests''"

definition isDeferredHeaderLine :: "bytes \<Rightarrow> bool" where
  "isDeferredHeaderLine line =
     (if line = [] then False
      else if hd line = CHR '' '' \<or> hd line = CHR 0x09 then False
      else case Fields line of
        qid # sz # _ \<Rightarrow>
          (let last_c = last qid;
               deferred = (last_c \<noteq> CHR ''*'' \<and> last_c \<noteq> CHR ''!'');
               qid' = (if deferred then qid else butlast qid)
           in if length qid' < 10 \<or> 15 < length qid' then False
              else if \<not> list_all ascii_alnum qid' then False
              else if sz = [] then False
              else if \<not> list_all ascii_digit sz then False
              else deferred)
      | _ \<Rightarrow> False)"

text \<open>The scan loop; the flag is its early return.\<close>

fun postqueue_lines :: "PostqueueResult \<Rightarrow> bytes list \<Rightarrow> PostqueueResult \<times> bool" where
  "postqueue_lines out [] = (out, False)"
| "postqueue_lines out (line # ls) =
     (if contains_sub line ''Mail queue is empty'' then (out, True)
      else if is_summary line then
        postqueue_lines (out\<lparr>pq_QueueDepth := summary_depth (pq_QueueDepth out) (Fields line)\<rparr>) ls
      else if isDeferredHeaderLine line then
        postqueue_lines (out\<lparr>pq_DeferredCount := pq_DeferredCount out + 1\<rparr>) ls
      else postqueue_lines out ls)"

definition parsePostqueueOutput :: "bytes \<Rightarrow> bytes + PostqueueResult" where
  "parsePostqueueOutput stdout =
     (let (ls, err) = scan_with ''postqueue -p'' stdout;
          (out, early) = postqueue_lines \<lparr>pq_QueueDepth = 0, pq_DeferredCount = 0\<rparr> ls
      in if early then Inr out else case err of Some e \<Rightarrow> Inl e | None \<Rightarrow> Inr out)"

definition Postqueue :: "world \<Rightarrow> bytes \<Rightarrow> PostqueueResult op_result" where
  "Postqueue w param =
     (case Run w [''postqueue'', ''-p''] of
        (stdout, Some e) \<Rightarrow> Inl e
      | (stdout, None) \<Rightarrow>
          (case parsePostqueueOutput stdout of
             Inl m \<Rightarrow> Inl (op_error CodeToolFailed m)
           | Inr res \<Rightarrow> Inr res))"

subsection \<open>The depth does not wrap\<close>

text \<open>The number a text of digits denotes, without a bound.\<close>

definition leading_digits :: "bytes \<Rightarrow> bytes" where
  "leading_digits s = takeWhile ascii_digit s"

lemma digit_val_ascii: "ascii_digit c \<Longrightarrow> digit_val c = Some (of_char c - 48)"
  by (simp add: ascii_digit_def digit_val_def Let_def)

lemma parse_digits_ge: "parse_digits 10 acc s = Some v \<Longrightarrow> acc \<le> v"
proof (induction s arbitrary: acc)
  case (Cons c cs)
  then obtain d where "digit_val c = Some d" "d < 10" "parse_digits 10 (acc * 10 + d) cs = Some v"
    by (auto split: option.splits if_splits)
  with Cons.IH [of "acc * 10 + d"] show ?case by simp
qed simp

lemma parse_digits_total: "list_all ascii_digit s \<Longrightarrow> \<exists>v. parse_digits 10 acc s = Some v"
  by (induction s arbitrary: acc) (auto simp: digit_val_ascii ascii_digit_def)

lemma sat_digits_exact:
  assumes "int n \<le> maxQueueDepth"
  shows "\<exists>v. parse_digits 10 n (leading_digits s) = Some v \<and> sat_digits (int n) s = min maxQueueDepth (int v)"
  using assms
proof (induction s arbitrary: n)
  case Nil
  then show ?case by (simp add: leading_digits_def)
next
  case (Cons c cs)
  show ?case
  proof (cases "ascii_digit c")
    case False
    then show ?thesis using Cons.prems by (simp add: leading_digits_def)
  next
    case True
    define d where "d = (of_char c :: nat) - 48"
    have d: "digit_val c = Some d" "d < 10" "int (of_char c) - 48 = int d"
      using True digit_val_ascii [OF True] by (auto simp: d_def ascii_digit_def)
    have all: "\<exists>v. parse_digits 10 m (leading_digits cs) = Some v" for m
      by (rule parse_digits_total) (auto simp: leading_digits_def list_all_iff dest: set_takeWhileD)
    have ld: "leading_digits (c # cs) = c # leading_digits cs" using True by (simp add: leading_digits_def)
    show ?thesis
    proof (cases "(maxQueueDepth - int d) div 10 < int n")
      case over: True
      obtain v where v: "parse_digits 10 (n * 10 + d) (leading_digits cs) = Some v" using all by blast
      then have "n * 10 + d \<le> v" by (rule parse_digits_ge)
      moreover have "maxQueueDepth < int n * 10 + int d" using over by linarith
      ultimately have "maxQueueDepth \<le> int v" by linarith
      then show ?thesis using v over True d by (simp add: ld min_def)
    next
      case False
      then have "int (n * 10 + d) \<le> maxQueueDepth" by simp
      from Cons.IH [OF this] show ?thesis using False True d by (simp add: ld algebra_simps)
    qed
  qed
qed

lemma leading_digits_show_nat: "leading_digits (show_nat n) = show_nat n"
  using show_nat_digits by (auto simp: leading_digits_def ascii_digit_def takeWhile_eq_all_conv)

lemma space_free_show_nat: "space_free (show_nat n)"
  by (rule space_free_printable) (use show_nat_digits in \<open>fastforce simp: list_all_iff\<close>)

abbreviation summary_text :: "nat \<Rightarrow> bytes" where
  "summary_text n \<equiv> ''-- 5 Kbytes in '' @ show_nat n @ '' Requests.''"

abbreviation summary_tokens :: "nat \<Rightarrow> bytes list" where
  "summary_tokens n \<equiv> [''--'', ''5'', ''Kbytes'', ''in'', show_nat n, ''Requests.'']"

lemma summary_fields: "Fields (summary_text n) = summary_tokens n"
proof -
  have lit: "list_all space_free [''--'', ''5'', ''Kbytes'', ''in'', ''Requests.'']" by code_simp
  have "\<forall>t \<in> set (summary_tokens n). t \<noteq> [] \<and> space_free t"
    using space_free_show_nat [of n] show_nat_nonempty [of n] lit by (simp del: space_free.simps)
  then have "Fields (join (summary_tokens n) '' '') = summary_tokens n" by (rule fields_join)
  then show ?thesis by simp
qed

lemma summary_plain: "CHR 0x0A \<notin> set (summary_text n)" "drop_cr (summary_text n) = summary_text n"
  using show_nat_digits [of "CHR 0x0A" n] by (auto simp: drop_cr_def)

lemma summary_recognised: "is_summary (summary_text n)" "\<not> contains_sub (summary_text n) ''Mail queue is empty''"
proof -
  have "contains_sub (summary_text n) ''Requests''" unfolding contains_sub_iff
    by (intro exI [of _ "''-- 5 Kbytes in '' @ show_nat n @ '' ''"] exI [of _ "''.''"]) simp
  then show "is_summary (summary_text n)" by (simp add: is_summary_def)
  show "\<not> contains_sub (summary_text n) ''Mail queue is empty''"
  proof
    assume "contains_sub (summary_text n) ''Mail queue is empty''"
    then obtain u v where uv: "summary_text n = u @ ''Mail queue is empty'' @ v" unfolding contains_sub_iff by blast
    have "CHR ''M'' \<in> set (summary_text n)" unfolding uv by simp
    then show False using show_nat_digits [of "CHR ''M''" n] by auto
  qed
qed

lemma summary_depth_text: "summary_depth d (summary_tokens n) = min 10000000 (int n)"
proof -
  obtain v where "parse_digits 10 0 (leading_digits (show_nat n)) = Some v"
      "sat_digits (int 0) (show_nat n) = min maxQueueDepth (int v)"
    using sat_digits_exact [of 0 "show_nat n"] by (auto simp: maxQueueDepth_def)
  moreover have "show_nat n \<noteq> ''in''" using show_nat_digits [of "CHR ''i''" n] by auto
  ultimately show ?thesis by (simp add: leading_digits_show_nat parse_digits_show_nat maxQueueDepth_def)
qed



end
