(* ===== verification/Nft.thy ===== *)
theory Nft
  imports OpsBase "HOL-Library.Monad_Syntax"
begin

text \<open>
  The document \<^verbatim>\<open>nft -j\<close> prints, as \<^verbatim>\<open>firewall.go\<close> reads it: the types of its entries, their decoding,
  and the rendering of rules, set types and set elements.
\<close>

subsection \<open>Entries\<close>

record fwNftTable =
  nt_Family :: bytes
  nt_Name :: bytes
  nt_Handle :: int

record fwNftChain =
  nh_Family :: bytes
  nh_Table :: bytes
  nh_Name :: bytes
  nh_Handle :: int
  nh_Type :: bytes
  nh_Hook :: bytes
  nh_Prio :: "int option"
  nh_Policy :: bytes

record fwNftRule =
  nr_Family :: bytes
  nr_Table :: bytes
  nr_Chain :: bytes
  nr_Handle :: int
  nr_Expr :: "bytes list option"

record fwNftSet =
  ns_Family :: bytes
  ns_Table :: bytes
  ns_Name :: bytes
  ns_Handle :: int
  ns_Type :: bytes
  ns_Flags :: "bytes list option"
  ns_Size :: int
  ns_Elem :: "bytes list option"

record fwNftEntry =
  ne_Metainfo :: "bytes option"
  ne_Table :: "fwNftTable option"
  ne_Chain :: "fwNftChain option"
  ne_Rule :: "fwNftRule option"
  ne_Set :: "fwNftSet option"
  ne_Map :: "fwNftSet option"

text \<open>A slice ranges over its elements; nil has none.\<close>

definition elems :: "'a list option \<Rightarrow> 'a list" where
  "elems xs = (case xs of None \<Rightarrow> [] | Some ys \<Rightarrow> ys)"

lemma elems_simps [simp]: "elems None = []" "elems (Some ys) = ys"
  by (simp_all add: elems_def)

definition zero_table :: fwNftTable where
  "zero_table = \<lparr>nt_Family = [], nt_Name = [], nt_Handle = 0\<rparr>"

definition zero_chain :: fwNftChain where
  "zero_chain = \<lparr>nh_Family = [], nh_Table = [], nh_Name = [], nh_Handle = 0, nh_Type = [], nh_Hook = [],
     nh_Prio = None, nh_Policy = []\<rparr>"

definition zero_rule :: fwNftRule where
  "zero_rule = \<lparr>nr_Family = [], nr_Table = [], nr_Chain = [], nr_Handle = 0, nr_Expr = None\<rparr>"

definition zero_set :: fwNftSet where
  "zero_set = \<lparr>ns_Family = [], ns_Table = [], ns_Name = [], ns_Handle = 0, ns_Type = [], ns_Flags = None,
     ns_Size = 0, ns_Elem = None\<rparr>"

definition zero_entry :: fwNftEntry where
  "zero_entry = \<lparr>ne_Metainfo = None, ne_Table = None, ne_Chain = None, ne_Rule = None, ne_Set = None, ne_Map = None\<rparr>"

subsection \<open>Decoding\<close>

definition dec_nft_table :: "fwNftTable decoder" where
  "dec_nft_table old s = do {
     ms \<leftarrow> dec_struct s;
     family \<leftarrow> dec_field dec_string (nt_Family old) ms ''family'';
     name \<leftarrow> dec_field dec_string (nt_Name old) ms ''name'';
     handle \<leftarrow> dec_field dec_int (nt_Handle old) ms ''handle'';
     Some \<lparr>nt_Family = family, nt_Name = name, nt_Handle = handle\<rparr> }"

definition dec_nft_chain :: "fwNftChain decoder" where
  "dec_nft_chain old s = do {
     ms \<leftarrow> dec_struct s;
     family \<leftarrow> dec_field dec_string (nh_Family old) ms ''family'';
     table \<leftarrow> dec_field dec_string (nh_Table old) ms ''table'';
     name \<leftarrow> dec_field dec_string (nh_Name old) ms ''name'';
     handle \<leftarrow> dec_field dec_int (nh_Handle old) ms ''handle'';
     typ \<leftarrow> dec_field dec_string (nh_Type old) ms ''type'';
     hook \<leftarrow> dec_field dec_string (nh_Hook old) ms ''hook'';
     prio \<leftarrow> dec_field (dec_ptr dec_int 0) (nh_Prio old) ms ''prio'';
     policy \<leftarrow> dec_field dec_string (nh_Policy old) ms ''policy'';
     Some \<lparr>nh_Family = family, nh_Table = table, nh_Name = name, nh_Handle = handle, nh_Type = typ,
       nh_Hook = hook, nh_Prio = prio, nh_Policy = policy\<rparr> }"

definition dec_nft_rule :: "fwNftRule decoder" where
  "dec_nft_rule old s = do {
     ms \<leftarrow> dec_struct s;
     family \<leftarrow> dec_field dec_string (nr_Family old) ms ''family'';
     table \<leftarrow> dec_field dec_string (nr_Table old) ms ''table'';
     chain \<leftarrow> dec_field dec_string (nr_Chain old) ms ''chain'';
     handle \<leftarrow> dec_field dec_int (nr_Handle old) ms ''handle'';
     expr \<leftarrow> dec_field (dec_slice dec_raw []) (nr_Expr old) ms ''expr'';
     Some \<lparr>nr_Family = family, nr_Table = table, nr_Chain = chain, nr_Handle = handle, nr_Expr = expr\<rparr> }"

definition dec_nft_set :: "fwNftSet decoder" where
  "dec_nft_set old s = do {
     ms \<leftarrow> dec_struct s;
     family \<leftarrow> dec_field dec_string (ns_Family old) ms ''family'';
     table \<leftarrow> dec_field dec_string (ns_Table old) ms ''table'';
     name \<leftarrow> dec_field dec_string (ns_Name old) ms ''name'';
     handle \<leftarrow> dec_field dec_int (ns_Handle old) ms ''handle'';
     typ \<leftarrow> dec_field dec_raw (ns_Type old) ms ''type'';
     flags \<leftarrow> dec_field (dec_slice dec_string []) (ns_Flags old) ms ''flags'';
     sz \<leftarrow> dec_field dec_int (ns_Size old) ms ''size'';
     elem \<leftarrow> dec_field (dec_slice dec_raw []) (ns_Elem old) ms ''elem'';
     Some \<lparr>ns_Family = family, ns_Table = table, ns_Name = name, ns_Handle = handle, ns_Type = typ,
       ns_Flags = flags, ns_Size = sz, ns_Elem = elem\<rparr> }"

definition dec_nft_entry :: "fwNftEntry decoder" where
  "dec_nft_entry old s = do {
     ms \<leftarrow> dec_struct s;
     meta \<leftarrow> dec_field (dec_ptr dec_raw []) (ne_Metainfo old) ms ''metainfo'';
     table \<leftarrow> dec_field (dec_ptr dec_nft_table zero_table) (ne_Table old) ms ''table'';
     chain \<leftarrow> dec_field (dec_ptr dec_nft_chain zero_chain) (ne_Chain old) ms ''chain'';
     rule \<leftarrow> dec_field (dec_ptr dec_nft_rule zero_rule) (ne_Rule old) ms ''rule'';
     set \<leftarrow> dec_field (dec_ptr dec_nft_set zero_set) (ne_Set old) ms ''set'';
     mp \<leftarrow> dec_field (dec_ptr dec_nft_set zero_set) (ne_Map old) ms ''map'';
     Some \<lparr>ne_Metainfo = meta, ne_Table = table, ne_Chain = chain, ne_Rule = rule, ne_Set = set, ne_Map = mp\<rparr> }"

text \<open>\<^verbatim>\<open>json.Unmarshal\<close> into a \<^verbatim>\<open>fwNftRoot\<close>: its entries.\<close>

definition fwNftRoot :: "bytes \<Rightarrow> fwNftEntry list option" where
  "fwNftRoot raw = do {
     ms \<leftarrow> dec_struct raw;
     es \<leftarrow> dec_field (dec_slice dec_nft_entry zero_entry) None ms ''nftables'';
     Some (elems es) }"

subsection \<open>Rendering\<close>

record FirewallCounter =
  fk_Packets :: int
  fk_Bytes :: int

record FirewallRule =
  fr_Handle :: int
  fr_Expr :: bytes
  fr_Counter :: "FirewallCounter option"

record FirewallSetElem =
  fe_Key :: bytes
  fe_ExpiresS :: "int option"
  fe_TimeoutS :: "int option"

definition dec_counter :: "FirewallCounter decoder" where
  "dec_counter old s = do {
     ms \<leftarrow> dec_struct s;
     p \<leftarrow> dec_field dec_int (fk_Packets old) ms ''packets'';
     b \<leftarrow> dec_field dec_int (fk_Bytes old) ms ''bytes'';
     Some \<lparr>fk_Packets = p, fk_Bytes = b\<rparr> }"

text \<open>The counter an expression holds, if any.\<close>

definition expr_counter :: "bytes \<Rightarrow> FirewallCounter option" where
  "expr_counter raw =
     (case dec_map raw of
        None \<Rightarrow> None
      | Some probe \<Rightarrow>
          (case probe ''counter'' of
             None \<Rightarrow> None
           | Some c \<Rightarrow> dec_counter \<lparr>fk_Packets = 0, fk_Bytes = 0\<rparr> c))"

definition renderRule :: "fwNftRule \<Rightarrow> FirewallRule" where
  "renderRule r =
     \<lparr>fr_Handle = nr_Handle r, fr_Expr = marshal_raws (nr_Expr r),
      fr_Counter = foldl (\<lambda>acc raw. case expr_counter raw of Some c \<Rightarrow> Some c | None \<Rightarrow> acc) None (elems (nr_Expr r))\<rparr>"

definition stringifyType :: "bytes \<Rightarrow> bytes" where
  "stringifyType raw =
     (if raw = [] then []
      else case dec_string [] raw of
        Some s \<Rightarrow> s
      | None \<Rightarrow>
          (case dec_slice dec_string [] None raw of
             Some arr \<Rightarrow> join (elems arr) ''.''
           | None \<Rightarrow> raw))"

text \<open>The objects that elements are made of.\<close>

definition dec_prefix_obj :: "bytes \<Rightarrow> (bytes \<times> int) option" where
  "dec_prefix_obj s = do {
     ms \<leftarrow> dec_struct s;
     a \<leftarrow> dec_field dec_string [] ms ''addr'';
     l \<leftarrow> dec_field dec_int 0 ms ''len'';
     Some (a, l) }"

definition dec_range :: "bytes \<Rightarrow> (bytes \<times> bytes) option" where
  "dec_range s =
     (case dec_slice dec_string [] None s of
        Some (Some [lo, hi]) \<Rightarrow> Some (lo, hi)
      | _ \<Rightarrow> None)"

text \<open>The inside of an \<^verbatim>\<open>elem\<close> object: its value, expiry and timeout.\<close>

definition dec_elem_obj :: "bytes \<Rightarrow> (bytes \<times> int option \<times> int option) option" where
  "dec_elem_obj s = do {
     ms \<leftarrow> dec_struct s;
     v \<leftarrow> dec_field dec_raw [] ms ''val'';
     ex \<leftarrow> dec_field (dec_ptr dec_int 0) None ms ''expires'';
     ti \<leftarrow> dec_field (dec_ptr dec_int 0) None ms ''timeout'';
     Some (v, ex, ti) }"

definition renderElementVal :: "bytes \<Rightarrow> bytes" where
  "renderElementVal raw =
     (if raw = [] then []
      else case dec_string [] raw of
        Some s \<Rightarrow> s
      | None \<Rightarrow>
          (case dec_map raw of
             None \<Rightarrow> raw
           | Some obj \<Rightarrow>
               (case Option.bind (obj ''prefix'') dec_prefix_obj of
                  Some (a, l) \<Rightarrow> a @ ''/'' @ itoa l
                | None \<Rightarrow>
                    (case Option.bind (obj ''range'') dec_range of
                       Some (lo, hi) \<Rightarrow> lo @ ''-'' @ hi
                     | None \<Rightarrow> raw))))"

definition renderOneElement :: "bytes \<Rightarrow> FirewallSetElem" where
  "renderOneElement raw =
     (case dec_string [] raw of
        Some s \<Rightarrow> \<lparr>fe_Key = s, fe_ExpiresS = None, fe_TimeoutS = None\<rparr>
      | None \<Rightarrow>
          (case dec_map raw of
             None \<Rightarrow> \<lparr>fe_Key = raw, fe_ExpiresS = None, fe_TimeoutS = None\<rparr>
           | Some obj \<Rightarrow>
               (case obj ''elem'' of
                  None \<Rightarrow> \<lparr>fe_Key = renderElementVal raw, fe_ExpiresS = None, fe_TimeoutS = None\<rparr>
                | Some el \<Rightarrow>
                    (case dec_elem_obj el of
                       None \<Rightarrow> \<lparr>fe_Key = el, fe_ExpiresS = None, fe_TimeoutS = None\<rparr>
                     | Some (v, ex, ti) \<Rightarrow> \<lparr>fe_Key = renderElementVal v, fe_ExpiresS = ex, fe_TimeoutS = ti\<rparr>))))"

definition renderElements :: "bytes list \<Rightarrow> int \<Rightarrow> FirewallSetElem list" where
  "renderElements es cap = (if cap \<le> 0 then [] else map renderOneElement (take (nat cap) es))"

end
