(* ===== verification/FirewallLookup.thy ===== *)
theory FirewallLookup
  imports Nft Netip "HOL-Library.AList" "HOL-Library.List_Lexorder" "HOL-Library.Char_ord"
begin

text \<open>
  \<^verbatim>\<open>firewall_lookup.go\<close>: the search of the nftables ruleset for an address or a network. The lemmas
  relate the comparisons of the code to sets of addresses: an element or the right-hand side of a
  rule is reported exactly when it and the query have an address in common.
\<close>

subsection \<open>The query\<close>

record FirewallLookupReq =
  lr_Query :: bytes
  lr_IncludeSetElements :: bool

definition dec_lookup_req :: "FirewallLookupReq decoder" where
  "dec_lookup_req old s = do {
     ms \<leftarrow> dec_struct s;
     q \<leftarrow> dec_field dec_string (lr_Query old) ms ''query'';
     i \<leftarrow> dec_field dec_bool (lr_IncludeSetElements old) ms ''include_set_elements'';
     Some \<lparr>lr_Query = q, lr_IncludeSetElements = i\<rparr> }"

text \<open>Either the address or the prefix of a query is set.\<close>

datatype lookup_net = QAddr addr | QPrefix prefix

record lookupQuery =
  lq_kind :: bytes
  lq_net :: lookup_net
  lq_is6 :: bool

definition lq_isCIDR :: "lookupQuery \<Rightarrow> bool" where
  "lq_isCIDR q = (case lq_net q of QAddr _ \<Rightarrow> False | QPrefix _ \<Rightarrow> True)"

definition parseLookupQuery :: "world \<Rightarrow> bytes \<Rightarrow> bytes + lookupQuery" where
  "parseLookupQuery w s0 =
     (let s = trim_space s0
      in if contains_sub s ''/'' then
           (case ParsePrefix s of
              None \<Rightarrow> Inl (''invalid CIDR '' @ wd_quote w s @ '': '' @ wd_error w ''netip.ParsePrefix'' s)
            | Some p0 \<Rightarrow>
                (let p = prefix_masked p0
                 in Inr \<lparr>lq_kind = (if Is6 (prefix_addr p) then ''ipv6_cidr'' else ''ipv4_cidr''),
                      lq_net = QPrefix p, lq_is6 = Is6 (prefix_addr p)\<rparr>))
         else
           (case ParseAddr s of
              None \<Rightarrow> Inl (''invalid address '' @ wd_quote w s @ '': '' @ wd_error w ''netip.ParseAddr'' s)
            | Some a \<Rightarrow> Inr \<lparr>lq_kind = (if Is6 a then ''ipv6_addr'' else ''ipv4_addr''), lq_net = QAddr a, lq_is6 = Is6 a\<rparr>))"

subsection \<open>Comparisons\<close>

definition addrMatchesQuery :: "addr \<Rightarrow> lookupQuery \<Rightarrow> bool" where
  "addrMatchesQuery a q =
     (if Is6 a \<noteq> lq_is6 q then False
      else case lq_net q of QPrefix p \<Rightarrow> prefix_contains p a | QAddr b \<Rightarrow> a = b)"

definition prefixMatchesQuery :: "prefix \<Rightarrow> lookupQuery \<Rightarrow> bool" where
  "prefixMatchesQuery p0 q =
     (if Is6 (prefix_addr p0) \<noteq> lq_is6 q then False
      else let p = prefix_masked p0
      in case lq_net q of
           QPrefix qp \<Rightarrow> prefix_contains p (prefix_addr qp) \<or> prefix_contains qp (prefix_addr p)
         | QAddr a \<Rightarrow> prefix_contains p a)"

definition rangeMatchesQuery :: "addr \<Rightarrow> addr \<Rightarrow> lookupQuery \<Rightarrow> bool" where
  "rangeMatchesQuery lo hi q =
     (if Is6 lo \<noteq> lq_is6 q \<or> Is6 hi \<noteq> lq_is6 q then False
      else case lq_net q of
        QPrefix p \<Rightarrow>
          if prefix_contains p lo \<or> prefix_contains p hi then True
          else addr_le lo (prefix_addr p) \<and> addr_le (prefix_addr p) hi
      | QAddr a \<Rightarrow> addr_le lo a \<and> addr_le a hi)"

definition setTypeMatchesQuery :: "bytes \<Rightarrow> lookupQuery \<Rightarrow> bool" where
  "setTypeMatchesQuery setType q =
     (if setType = [] then False
      else let first = (case index_byte setType CHR ''.'' of Some i \<Rightarrow> if 0 < i then take i setType else setType | None \<Rightarrow> setType)
      in if first = ''ipv4_addr'' then \<not> lq_is6 q
         else if first = ''ipv6_addr'' then lq_is6 q
         else False)"

text \<open>The prefix an object names, and the range.\<close>

definition prefix_value :: "bytes \<Rightarrow> (bytes \<times> prefix) option" where
  "prefix_value s = do {
     (a, l) \<leftarrow> dec_prefix_obj s;
     p \<leftarrow> ParsePrefix (a @ ''/'' @ itoa l);
     Some (a @ ''/'' @ itoa l, p) }"

definition range_value :: "bytes \<Rightarrow> (bytes \<times> addr \<times> addr) option" where
  "range_value s = do {
     (lo, hi) \<leftarrow> dec_range s;
     a \<leftarrow> ParseAddr lo;
     b \<leftarrow> ParseAddr hi;
     Some (lo @ ''-'' @ hi, a, b) }"

definition prefix_hit :: "bytes option \<Rightarrow> lookupQuery \<Rightarrow> bytes option" where
  "prefix_hit member q =
     (case Option.bind member prefix_value of
        Some (key, p) \<Rightarrow> if prefixMatchesQuery p q then Some key else None
      | None \<Rightarrow> None)"

definition range_hit :: "bytes option \<Rightarrow> lookupQuery \<Rightarrow> bytes option" where
  "range_hit member q =
     (case Option.bind member range_value of
        Some (key, lo, hi) \<Rightarrow> if rangeMatchesQuery lo hi q then Some key else None
      | None \<Rightarrow> None)"

text \<open>The key of an element value that overlaps the query.\<close>

definition elementValueOverlapsQuery :: "bytes \<Rightarrow> lookupQuery \<Rightarrow> bytes option" where
  "elementValueOverlapsQuery v q =
     (if v = [] then None
      else case dec_string [] v of
        Some s \<Rightarrow>
          (case ParseAddr s of
             None \<Rightarrow> None
           | Some a \<Rightarrow> if addrMatchesQuery a q then Some s else None)
      | None \<Rightarrow>
          (case dec_map v of
             None \<Rightarrow> None
           | Some obj \<Rightarrow>
               (case prefix_hit (obj ''prefix'') q of
                  Some key \<Rightarrow> Some key
                | None \<Rightarrow> range_hit (obj ''range'') q)))"

definition unwrapElem :: "bytes \<Rightarrow> bytes \<times> int option \<times> int option" where
  "unwrapElem raw =
     (case dec_map raw of
        None \<Rightarrow> (raw, None, None)
      | Some obj \<Rightarrow>
          (case obj ''elem'' of
             None \<Rightarrow> (raw, None, None)
           | Some el \<Rightarrow> (case dec_elem_obj el of None \<Rightarrow> (el, None, None) | Some r \<Rightarrow> r)))"

record FirewallSetHit =
  sh_MatchKind :: bytes
  sh_Family :: bytes
  sh_Table :: bytes
  sh_Set :: bytes
  sh_ElementKey :: bytes
  sh_ExpiresS :: "int option"
  sh_TimeoutS :: "int option"

definition elementMatchesQuery :: "bytes \<Rightarrow> lookupQuery \<Rightarrow> FirewallSetHit option" where
  "elementMatchesQuery raw q =
     (let (v, ex, ti) = unwrapElem raw
      in case elementValueOverlapsQuery v q of
           None \<Rightarrow> None
         | Some key \<Rightarrow> Some \<lparr>sh_MatchKind = [], sh_Family = [], sh_Table = [], sh_Set = [], sh_ElementKey = key,
             sh_ExpiresS = ex, sh_TimeoutS = ti\<rparr>)"

subsection \<open>The set index\<close>

record fwLookupSetIndex =
  li_set :: fwNftSet
  li_key :: bytes
  li_matchedAt :: "FirewallSetHit list"
  li_hasMatch :: bool

definition set_key :: "bytes \<Rightarrow> bytes \<Rightarrow> bytes \<Rightarrow> bytes" where
  "set_key family table name = family @ ''/'' @ table @ ''/'' @ name"

definition element_hit :: "lookupQuery \<Rightarrow> fwNftSet \<Rightarrow> FirewallSetHit \<Rightarrow> FirewallSetHit" where
  "element_hit q s h =
     h\<lparr>sh_MatchKind := (if lq_isCIDR q then ''set_subset_overlap''
          else if contains_any (sh_ElementKey h) ''/-'' then ''set_subset_overlap'' else ''set_member''),
       sh_Family := ns_Family s, sh_Table := ns_Table s, sh_Set := ns_Name s\<rparr>"

text \<open>The loop over a set's elements.\<close>

definition index_element :: "bool \<Rightarrow> lookupQuery \<Rightarrow> fwLookupSetIndex \<Rightarrow> bytes \<Rightarrow> fwLookupSetIndex" where
  "index_element include q idx raw =
     (case elementMatchesQuery raw q of
        None \<Rightarrow> idx
      | Some h \<Rightarrow>
          idx\<lparr>li_hasMatch := True,
              li_matchedAt := (if include then li_matchedAt idx @ [element_hit q (li_set idx) h] else li_matchedAt idx)\<rparr>)"

definition index_set :: "bool \<Rightarrow> lookupQuery \<Rightarrow> fwNftSet \<Rightarrow> fwLookupSetIndex" where
  "index_set include q s =
     (let idx = \<lparr>li_set = s, li_key = set_key (ns_Family s) (ns_Table s) (ns_Name s), li_matchedAt = [], li_hasMatch = False\<rparr>
      in if \<not> setTypeMatchesQuery (stringifyType (ns_Type s)) q then idx
         else foldl (index_element include q) idx (elems (ns_Elem s)))"

definition entry_set :: "fwNftEntry \<Rightarrow> fwNftSet option" where
  "entry_set e = (case ne_Set e of Some s \<Rightarrow> Some s | None \<Rightarrow> ne_Map e)"

type_synonym set_index = "(bytes \<times> fwLookupSetIndex) list"

definition index_sets :: "bool \<Rightarrow> lookupQuery \<Rightarrow> fwNftEntry list \<Rightarrow> set_index" where
  "index_sets include q es =
     foldl (\<lambda>m e. case entry_set e of
              None \<Rightarrow> m
            | Some s \<Rightarrow> AList.update (set_key (ns_Family s) (ns_Table s) (ns_Name s)) (index_set include q s) m) [] es"

subsection \<open>Rules\<close>

record FirewallRuleMatch =
  rm_MatchKind :: bytes
  rm_Family :: bytes
  rm_Table :: bytes
  rm_Chain :: bytes
  rm_RuleHandle :: int
  rm_RuleText :: bytes
  rm_Operator :: bytes
  rm_MatchedValue :: bytes
  rm_SetName :: bytes

definition zero_match :: FirewallRuleMatch where
  "zero_match = \<lparr>rm_MatchKind = [], rm_Family = [], rm_Table = [], rm_Chain = [], rm_RuleHandle = 0, rm_RuleText = [],
     rm_Operator = [], rm_MatchedValue = [], rm_SetName = []\<rparr>"

text \<open>A partial match and its kind: \<^verbatim>\<open>exact\<close>, \<^verbatim>\<open>subnet\<close> or \<^verbatim>\<open>set_ref\<close>.\<close>

type_synonym ruleHit = "FirewallRuleMatch \<times> bytes"

definition value_hit :: "bytes \<Rightarrow> bytes \<Rightarrow> ruleHit list" where
  "value_hit v kind = [(zero_match\<lparr>rm_MatchedValue := v\<rparr>, kind)]"

text \<open>The first member of an anonymous set that overlaps the query.\<close>

fun member_hit :: "bytes list \<Rightarrow> lookupQuery \<Rightarrow> bytes option" where
  "member_hit [] q = None"
| "member_hit (mv # ms) q =
     (case elementValueOverlapsQuery mv q of Some key \<Rightarrow> Some key | None \<Rightarrow> member_hit ms q)"

definition anon_members :: "bytes option \<Rightarrow> bytes list" where
  "anon_members member =
     (case member of
        None \<Rightarrow> []
      | Some s \<Rightarrow> (case dec_slice dec_raw [] None s of Some ms \<Rightarrow> elems ms | None \<Rightarrow> []))"

definition evaluateRightSide :: "bytes \<Rightarrow> lookupQuery \<Rightarrow> bytes \<Rightarrow> bytes \<Rightarrow> set_index \<Rightarrow> ruleHit list" where
  "evaluateRightSide right q family table sets =
     (if right = [] then []
      else case dec_string [] right of
        Some s \<Rightarrow>
          if has_prefix s ''@'' then
            (case map_of sets (set_key family table (drop 1 s)) of
               Some idx \<Rightarrow> if li_hasMatch idx then [(zero_match\<lparr>rm_SetName := drop 1 s, rm_MatchedValue := s\<rparr>, ''set_ref'')] else []
             | None \<Rightarrow> [])
          else
            (case ParseAddr s of
               Some a \<Rightarrow> if addrMatchesQuery a q then value_hit s (if lq_isCIDR q then ''subnet'' else ''exact'') else []
             | None \<Rightarrow> [])
      | None \<Rightarrow>
          (case dec_map right of
             None \<Rightarrow> []
           | Some obj \<Rightarrow>
               (case prefix_hit (obj ''prefix'') q of
                  Some key \<Rightarrow> value_hit key ''subnet''
                | None \<Rightarrow>
                    (case member_hit (anon_members (obj ''set'')) q of
                       Some key \<Rightarrow> value_hit key (if contains_any key ''/-'' \<or> lq_isCIDR q then ''subnet'' else ''exact'')
                     | None \<Rightarrow>
                         (case range_hit (obj ''range'') q of
                            Some key \<Rightarrow> value_hit key ''subnet''
                          | None \<Rightarrow> [])))))"

definition ipPayloadField :: "bytes \<Rightarrow> bytes" where
  "ipPayloadField left =
     (case Option.bind (dec_map left) (\<lambda>obj. obj ''payload'') of
        None \<Rightarrow> []
      | Some p \<Rightarrow>
          (case do { ms \<leftarrow> dec_struct p;
                     pr \<leftarrow> dec_field dec_string [] ms ''protocol'';
                     fd \<leftarrow> dec_field dec_string [] ms ''field'';
                     Some (pr, fd) } of
             None \<Rightarrow> []
           | Some (pr, fd) \<Rightarrow> if pr \<noteq> ''ip'' \<and> pr \<noteq> ''ip6'' then [] else fd))"

definition ruleMatchKind :: "bytes \<Rightarrow> bytes \<Rightarrow> bool \<Rightarrow> bytes" where
  "ruleMatchKind field rhsKind queryIsCIDR =
     (if rhsKind = ''set_ref'' then (if queryIsCIDR then ''set_subset_overlap'' else ''set_member'')
      else if rhsKind = ''exact'' then (if field = ''saddr'' then ''saddr_exact'' else ''daddr_exact'')
      else if rhsKind = ''subnet'' then (if field = ''saddr'' then ''saddr_in_subnet'' else ''daddr_in_subnet'')
      else rhsKind)"

text \<open>The parts of a match expression: left side, right side and operator.\<close>

definition match_expr :: "bytes \<Rightarrow> (bytes \<times> bytes \<times> bytes) option" where
  "match_expr raw = do {
     probe \<leftarrow> dec_map raw;
     m \<leftarrow> probe ''match'';
     ms \<leftarrow> dec_struct m;
     l \<leftarrow> dec_field dec_raw [] ms ''left'';
     r \<leftarrow> dec_field dec_raw [] ms ''right'';
     oper \<leftarrow> dec_field dec_string [] ms ''op'';
     Some (l, r, oper) }"

definition match_one :: "fwNftRule \<Rightarrow> lookupQuery \<Rightarrow> set_index \<Rightarrow> bytes \<Rightarrow> FirewallRuleMatch list" where
  "match_one r q sets raw =
     (case match_expr raw of
        None \<Rightarrow> []
      | Some (l, rhs, oper) \<Rightarrow>
          (let field = ipPayloadField l
           in if field \<noteq> ''saddr'' \<and> field \<noteq> ''daddr'' then []
              else map (\<lambda>(h, kind). h\<lparr>rm_MatchKind := ruleMatchKind field kind (lq_isCIDR q),
                     rm_Family := nr_Family r, rm_Table := nr_Table r, rm_Chain := nr_Chain r,
                     rm_RuleHandle := nr_Handle r, rm_RuleText := marshal_raws (nr_Expr r), rm_Operator := oper\<rparr>)
                   (evaluateRightSide rhs q (nr_Family r) (nr_Table r) sets)))"

definition matchRuleAgainstQuery :: "fwNftRule \<Rightarrow> lookupQuery \<Rightarrow> set_index \<Rightarrow> FirewallRuleMatch list" where
  "matchRuleAgainstQuery r q sets = concat (map (match_one r q sets) (elems (nr_Expr r)))"

subsection \<open>The op\<close>

record FirewallLookupResult =
  lk_Query :: bytes
  lk_QueryKind :: bytes
  lk_Matches :: "FirewallRuleMatch list"
  lk_Sets :: "FirewallSetHit list"
  lk_SearchedTables :: int
  lk_SearchedChains :: int
  lk_SearchedRules :: int
  lk_SearchedSets :: int
  lk_Warnings :: "bytes list"

text \<open>The rules the second pass visits: entries that are neither a table nor a chain.\<close>

definition rule_entries :: "fwNftEntry list \<Rightarrow> fwNftRule list" where
  "rule_entries es =
     concat (map (\<lambda>e. if ne_Table e \<noteq> None \<or> ne_Chain e \<noteq> None then [] else case ne_Rule e of Some r \<Rightarrow> [r] | None \<Rightarrow> []) es)"

definition table_keys :: "fwNftEntry list \<Rightarrow> bytes list" where
  "table_keys es =
     remdups (concat (map (\<lambda>e. case ne_Table e of Some t \<Rightarrow> [nt_Family t @ ''/'' @ nt_Name t] | None \<Rightarrow> []) es))"

definition chain_keys :: "fwNftEntry list \<Rightarrow> bytes list" where
  "chain_keys es =
     remdups (concat (map (\<lambda>e. if ne_Table e \<noteq> None then []
        else case ne_Chain e of Some c \<Rightarrow> [set_key (nh_Family c) (nh_Table c) (nh_Name c)] | None \<Rightarrow> []) es))"

definition firewallRulesetCap :: nat where
  "firewallRulesetCap = 32 * 1024 * 1024"

definition nft_list_ruleset :: "bytes list" where
  "nft_list_ruleset = [''nft'', ''-j'', ''list'', ''ruleset'']"

definition lookup_entries :: "FirewallLookupReq \<Rightarrow> lookupQuery \<Rightarrow> bytes list \<Rightarrow> fwNftEntry list \<Rightarrow> FirewallLookupResult" where
  "lookup_entries req q warnings es =
     (let sets = index_sets (lr_IncludeSetElements req) q es; rules = rule_entries es
      in \<lparr>lk_Query = lr_Query req, lk_QueryKind = lq_kind q,
          lk_Matches = concat (map (\<lambda>r. matchRuleAgainstQuery r q sets) rules),
          lk_Sets = (if lr_IncludeSetElements req
             then concat (map (\<lambda>k. li_matchedAt (the (map_of sets k))) (sort (map fst sets))) else []),
          lk_SearchedTables = int (length (table_keys es)), lk_SearchedChains = int (length (chain_keys es)),
          lk_SearchedRules = int (length rules), lk_SearchedSets = int (length (filter (\<lambda>e. entry_set e \<noteq> None) es)),
          lk_Warnings = warnings\<rparr>)"

definition FirewallLookup :: "world \<Rightarrow> bytes \<Rightarrow> FirewallLookupResult op_result" where
  "FirewallLookup w paramJSON =
     (let zero = \<lparr>lr_Query = [], lr_IncludeSetElements = False\<rparr>
      in case (if paramJSON = [] then Some zero else dec_lookup_req zero paramJSON) of
           None \<Rightarrow> Inl (op_error CodeBadParam (''firewall_lookup: param: '' @ wd_error w ''json.Unmarshal'' paramJSON))
         | Some req \<Rightarrow>
             if trim_space (lr_Query req) = [] then Inl (op_error CodeBadParam ''firewall_lookup: empty query'')
             else case parseLookupQuery w (lr_Query req) of
               Inl m \<Rightarrow> Inl (op_error CodeBadParam (''firewall_lookup: '' @ m))
             | Inr q \<Rightarrow>
                 (case run_capped w firewallRulesetCap nft_list_ruleset of
                    (raw, truncated, Some e) \<Rightarrow>
                      if has_code e CodeToolMissing then
                        Inr \<lparr>lk_Query = lr_Query req, lk_QueryKind = lq_kind q, lk_Matches = [], lk_Sets = [],
                           lk_SearchedTables = 0, lk_SearchedChains = 0, lk_SearchedRules = 0, lk_SearchedSets = 0,
                           lk_Warnings = [''firewall: nft not installed'']\<rparr>
                      else Inl e
                  | (raw, truncated, None) \<Rightarrow>
                      (case fwNftRoot raw of
                         None \<Rightarrow> Inl (Typed (zero_dispatch_Error\<lparr>de_Code := CodeToolFailed,
                             de_Message := ''firewall_lookup: parse nft -j: '' @ wd_error w ''json.Unmarshal'' raw,
                             de_Argv := nft_list_ruleset\<rparr>))
                       | Some es \<Rightarrow>
                           Inr (lookup_entries req q
                             (if truncated then [''firewall: nft list ruleset exceeded '' @ itoa (int firewallRulesetCap) @
                                '' bytes; lookup scanned the prefix only''] else []) es))))"

text \<open>Sample documents are written with backquotes for the double quotes.\<close>

definition json_text :: "bytes \<Rightarrow> bytes" where
  "json_text s = map (\<lambda>c. if c = CHR 0x60 then CHR 0x22 else c) s"

definition sample_rhs :: bytes where
  "sample_rhs = json_text ''{`match`:{`op`:`==`,`left`:{`payload`:{`protocol`:`ip`,`field`:`saddr`}},`right`:`@b`}}''"

definition sample_ruleset :: bytes where
  "sample_ruleset = json_text ''{`nftables`:[{`set`:{`family`:`ip`,`table`:`f`,`name`:`b`,`type`:`ipv4_addr`,`elem`:[`203.0.113.9`]}},{`rule`:{`family`:`ip`,`table`:`f`,`chain`:`c`,`handle`:4,`expr`:[''
     @ sample_rhs @ '']}}]}''"

subsection \<open>What the comparisons mean\<close>

text \<open>The addresses a query is about, and those of a range.\<close>

fun net_addrs :: "lookup_net \<Rightarrow> addr set" where
  "net_addrs (QAddr a) = {a}"
| "net_addrs (QPrefix p) = {x. prefix_contains p x}"

definition range_addrs :: "addr \<Rightarrow> addr \<Rightarrow> addr set" where
  "range_addrs lo hi = {x. Is6 x = Is6 lo \<and> addr_le lo x \<and> addr_le x hi}"

text \<open>Two collections of addresses with one in common.\<close>

definition meets :: "addr set \<Rightarrow> lookupQuery \<Rightarrow> bool" where
  "meets A q \<longleftrightarrow> A \<inter> net_addrs (lq_net q) \<noteq> {}"

definition net_ok :: "lookup_net \<Rightarrow> bool" where
  "net_ok n = (case n of QAddr a \<Rightarrow> True | QPrefix p \<Rightarrow> prefix_masked p = p)"

definition query_ok :: "lookupQuery \<Rightarrow> bool" where
  "query_ok q \<longleftrightarrow> net_ok (lq_net q) \<and>
     (case lq_net q of QAddr a \<Rightarrow> lq_is6 q = Is6 a | QPrefix p \<Rightarrow> lq_is6 q = Is6 (prefix_addr p))"

lemma prefix_masked_idem [simp]: "prefix_masked (prefix_masked p) = prefix_masked p"
  using prefix_masked_alt [of "prefix_masked p"] prefix_masked_alt [of p] prefix_masked_first [of p]
  by (auto simp del: prefix_masked_first split: addr.splits)

lemma parseLookupQuery_ok: "parseLookupQuery w s = Inr q \<Longrightarrow> query_ok q"
  by (auto simp: parseLookupQuery_def query_ok_def net_ok_def Let_def split: if_splits option.splits)

lemma meets_Un [simp]: "meets (A \<union> B) q \<longleftrightarrow> meets A q \<or> meets B q"
  by (auto simp: meets_def)

lemma meets_empty [simp]: "\<not> meets {} q"
  by (simp add: meets_def)

lemma meets_Union: "meets (\<Union>x\<in>X. A x) q \<longleftrightarrow> (\<exists>x\<in>X. meets (A x) q)"
  by (auto simp: meets_def)

lemma net_family: "query_ok q \<Longrightarrow> x \<in> net_addrs (lq_net q) \<Longrightarrow> Is6 x = lq_is6 q"
  by (cases "lq_net q") (auto simp: query_ok_def prefix_contains_def BitLen_eq_iff)

lemma addrMatchesQuery_iff: "query_ok q \<Longrightarrow> addrMatchesQuery a q \<longleftrightarrow> meets {a} q"
  by (cases "lq_net q") (auto simp: addrMatchesQuery_def meets_def query_ok_def prefix_contains_def BitLen_eq_iff)

lemma masked_addr: "prefix_masked p = p \<Longrightarrow> addr_val (prefix_addr p) = prefix_first p \<and> zone_of (prefix_addr p) = []"
  using prefix_masked_val [of p] prefix_masked_simps(4) [of p] by simp

text \<open>The first address of a prefix is in it.\<close>

lemma first_in_prefix: "prefix_contains p (prefix_addr (prefix_masked p))"
  using prefix_first_le_last [of p] by (simp add: prefix_contains_interval prefix_masked_val)

lemma prefixMatchesQuery_iff:
  assumes "query_ok q"
  shows "prefixMatchesQuery p q \<longleftrightarrow> meets {x. prefix_contains p x} q"
proof (cases "Is6 (prefix_addr p) = lq_is6 q")
  case False
  then show ?thesis
    using net_family [OF assms] by (auto simp: prefixMatchesQuery_def meets_def prefix_contains_def BitLen_eq_iff)
next
  case fam: True
  show ?thesis
  proof (cases "lq_net q")
    case (QAddr a)
    then show ?thesis using fam by (simp add: prefixMatchesQuery_def meets_def)
  next
    case (QPrefix qp)
    then have qp: "prefix_masked qp = qp" "Is6 (prefix_addr qp) = lq_is6 q"
      using assms by (simp_all add: query_ok_def net_ok_def)
    have "prefix_contains p (prefix_addr qp) \<or> prefix_contains qp (prefix_addr (prefix_masked p))"
      if "prefix_contains p x" "prefix_contains qp x" for x
      using that masked_addr [OF qp(1)] qp(2) fam prefix_masked_val [of p]
      by (auto simp: prefix_contains_interval BitLen_eq_iff)
    moreover have "prefix_contains qp (prefix_addr qp)" using first_in_prefix [of qp] qp(1) by simp
    ultimately show ?thesis
      using fam QPrefix first_in_prefix [of p] by (auto simp: prefixMatchesQuery_def meets_def)
  qed
qed

lemma addr_le_zone_free:
  "BitLen a = BitLen b \<Longrightarrow> zone_of a = [] \<Longrightarrow> addr_le a b \<longleftrightarrow> addr_val a \<le> addr_val b"
  by (auto simp: addr_le_def)

lemma rangeMatchesQuery_iff:
  assumes q: "query_ok q" and z: "zone_of lo = []" "zone_of hi = []" and f: "Is6 lo = Is6 hi" and le: "addr_le lo hi"
  shows "rangeMatchesQuery lo hi q \<longleftrightarrow> meets (range_addrs lo hi) q"
proof (cases "Is6 lo = lq_is6 q")
  case False
  then show ?thesis using net_family [OF q] f by (auto simp: rangeMatchesQuery_def meets_def range_addrs_def)
next
  case fam: True
  show ?thesis
  proof (cases "lq_net q")
    case (QAddr a)
    then show ?thesis using fam f q by (auto simp: rangeMatchesQuery_def meets_def range_addrs_def query_ok_def)
  next
    case (QPrefix p)
    then have p: "prefix_masked p = p" "Is6 (prefix_addr p) = lq_is6 q" "prefix_contains p (prefix_addr p)"
      using q first_in_prefix [of p] by (simp_all add: query_ok_def net_ok_def)
    have v: "addr_val (prefix_addr p) = prefix_first p" "zone_of (prefix_addr p) = []" using masked_addr [OF p(1)] by auto
    have b: "BitLen lo = BitLen hi" "BitLen (prefix_addr p) = BitLen lo" using f fam p(2) by (simp_all add: BitLen_eq_iff)
    have lohi: "addr_val lo \<le> addr_val hi" using le addr_le_zone_free [OF b(1) z(1)] by simp
    have "prefix_contains p lo \<or> addr_le lo (prefix_addr p) \<and> addr_le (prefix_addr p) hi"
      if x: "x \<in> range_addrs lo hi" "prefix_contains p x" for x
    proof -
      have bx: "BitLen x = BitLen lo" using x(1) by (simp add: range_addrs_def BitLen_eq_iff)
      then have "addr_val lo \<le> addr_val x" "addr_val x \<le> addr_val hi" "prefix_first p \<le> addr_val x" "addr_val x \<le> prefix_last p"
        using x b z addr_le_zone_free [of lo x] addr_le_zone_free [of x hi]
        by (auto simp: range_addrs_def prefix_contains_interval)
      then show ?thesis
        using z v b addr_le_zone_free [of lo "prefix_addr p"] addr_le_zone_free [of "prefix_addr p" hi]
        by (auto simp: prefix_contains_interval)
    qed
    moreover have "lo \<in> range_addrs lo hi" "hi \<in> range_addrs lo hi"
      using le f b z by (auto simp: range_addrs_def addr_le_zone_free)
    moreover have "addr_le lo (prefix_addr p) \<Longrightarrow> addr_le (prefix_addr p) hi \<Longrightarrow> prefix_addr p \<in> range_addrs lo hi"
      using fam p(2) by (simp add: range_addrs_def)
    ultimately show ?thesis
      using fam f QPrefix p(3) by (auto simp: rangeMatchesQuery_def meets_def)
  qed
qed

subsection \<open>What is reported\<close>

text \<open>
  The addresses an element value stands for. A range is taken to be well formed: one family, no
  zones, and its first address not above its last.
\<close>

definition prefix_part :: "bytes option \<Rightarrow> addr set" where
  "prefix_part m = (case Option.bind m prefix_value of Some (k, p) \<Rightarrow> {x. prefix_contains p x} | None \<Rightarrow> {})"

definition range_part :: "bytes option \<Rightarrow> addr set" where
  "range_part m = (case Option.bind m range_value of Some (k, lo, hi) \<Rightarrow> range_addrs lo hi | None \<Rightarrow> {})"

definition range_ok :: "bytes option \<Rightarrow> bool" where
  "range_ok m =
     (case Option.bind m range_value of
        Some (k, lo, hi) \<Rightarrow> zone_of lo = [] \<and> zone_of hi = [] \<and> Is6 lo = Is6 hi \<and> addr_le lo hi
      | None \<Rightarrow> True)"

definition value_addrs :: "bytes \<Rightarrow> addr set" where
  "value_addrs v =
     (if v = [] then {}
      else case dec_string [] v of
        Some s \<Rightarrow> set_option (ParseAddr s)
      | None \<Rightarrow> (case dec_map v of None \<Rightarrow> {} | Some obj \<Rightarrow> prefix_part (obj ''prefix'') \<union> range_part (obj ''range'')))"

definition value_ok :: "bytes \<Rightarrow> bool" where
  "value_ok v = (case dec_map v of None \<Rightarrow> True | Some obj \<Rightarrow> range_ok (obj ''range''))"

lemma prefix_hit_iff: "query_ok q \<Longrightarrow> prefix_hit m q \<noteq> None \<longleftrightarrow> meets (prefix_part m) q"
  by (auto simp: prefix_hit_def prefix_part_def prefixMatchesQuery_iff split: option.splits)

lemma range_hit_iff: "query_ok q \<Longrightarrow> range_ok m \<Longrightarrow> range_hit m q \<noteq> None \<longleftrightarrow> meets (range_part m) q"
  by (auto simp: range_hit_def range_part_def range_ok_def rangeMatchesQuery_iff split: option.splits)

lemma value_hit_iff:
  assumes "query_ok q" and "value_ok v"
  shows "elementValueOverlapsQuery v q \<noteq> None \<longleftrightarrow> meets (value_addrs v) q"
proof (cases "v = [] \<or> dec_string [] v \<noteq> None")
  case True
  then show ?thesis
    using assms(1) by (auto simp: elementValueOverlapsQuery_def value_addrs_def addrMatchesQuery_iff split: option.splits)
next
  case False
  show ?thesis
  proof (cases "dec_map v")
    case None
    then show ?thesis using False by (simp add: elementValueOverlapsQuery_def value_addrs_def)
  next
    case (Some obj)
    then have "range_ok (obj ''range'')" using assms(2) by (simp add: value_ok_def)
    then show ?thesis
      using Some False prefix_hit_iff [OF assms(1), of "obj ''prefix''"] range_hit_iff [OF assms(1), of "obj ''range''"]
      by (auto simp: elementValueOverlapsQuery_def value_addrs_def split: option.splits)
  qed
qed

lemma member_hit_iff:
  assumes "query_ok q" and "\<forall>v \<in> set vs. value_ok v"
  shows "member_hit vs q \<noteq> None \<longleftrightarrow> (\<exists>v \<in> set vs. meets (value_addrs v) q)"
  using assms(2)
proof (induction vs)
  case (Cons v vs)
  then have "elementValueOverlapsQuery v q \<noteq> None \<longleftrightarrow> meets (value_addrs v) q" using value_hit_iff [OF assms(1)] by simp
  then show ?case using Cons by (auto split: option.splits)
qed simp

text \<open>
  The addresses of a named set: those its elements stand for, of the family its type begins with.
\<close>

definition type_family :: "bytes \<Rightarrow> bool option" where
  "type_family t =
     (let first = (case index_byte t CHR ''.'' of Some i \<Rightarrow> if 0 < i then take i t else t | None \<Rightarrow> t)
      in if first = ''ipv4_addr'' then Some False else if first = ''ipv6_addr'' then Some True else None)"

definition set_addrs :: "fwNftSet \<Rightarrow> addr set" where
  "set_addrs s =
     {a. type_family (stringifyType (ns_Type s)) = Some (Is6 a)} \<inter>
     (\<Union>raw \<in> set (elems (ns_Elem s)). value_addrs (fst (unwrapElem raw)))"

lemma setTypeMatchesQuery_iff: "setTypeMatchesQuery t q \<longleftrightarrow> type_family t = Some (lq_is6 q)"
  by (auto simp: setTypeMatchesQuery_def type_family_def Let_def split: option.splits)

lemma fold_index_element:
  "li_hasMatch (foldl (index_element inc q) idx raws) \<longleftrightarrow>
     li_hasMatch idx \<or> (\<exists>raw \<in> set raws. elementMatchesQuery raw q \<noteq> None)"
  by (induction raws arbitrary: idx) (auto simp: index_element_def split: option.splits)

lemma elementMatchesQuery_iff:
  "elementMatchesQuery raw q \<noteq> None \<longleftrightarrow> elementValueOverlapsQuery (fst (unwrapElem raw)) q \<noteq> None"
  by (auto simp: elementMatchesQuery_def split: prod.splits option.splits)

lemma index_set_hasMatch:
  assumes "query_ok q" and "\<forall>raw \<in> set (elems (ns_Elem s)). value_ok (fst (unwrapElem raw))"
  shows "li_hasMatch (index_set inc q s) \<longleftrightarrow> meets (set_addrs s) q"
proof -
  have "(\<exists>raw \<in> set (elems (ns_Elem s)). elementMatchesQuery raw q \<noteq> None) \<longleftrightarrow>
      meets (\<Union>raw \<in> set (elems (ns_Elem s)). value_addrs (fst (unwrapElem raw))) q"
    unfolding meets_Union elementMatchesQuery_iff using value_hit_iff [OF assms(1)] assms(2) by blast
  moreover have "meets ({a. type_family t = Some (Is6 a)} \<inter> A) q \<longleftrightarrow> type_family t = Some (lq_is6 q) \<and> meets A q" for t A
    using net_family [OF assms(1)] unfolding meets_def by fastforce
  ultimately show ?thesis
    by (simp add: index_set_def Let_def fold_index_element setTypeMatchesQuery_iff set_addrs_def)
qed

text \<open>The set a reference names: the last one of the document with that key.\<close>

definition named_set :: "fwNftEntry list \<Rightarrow> bytes \<Rightarrow> fwNftSet option" where
  "named_set es key =
     find (\<lambda>s. set_key (ns_Family s) (ns_Table s) (ns_Name s) = key) (rev (List.map_filter entry_set es))"

lemma index_sets_snoc:
  "index_sets inc q (es @ [e]) =
     (case entry_set e of
        None \<Rightarrow> index_sets inc q es
      | Some s \<Rightarrow> AList.update (set_key (ns_Family s) (ns_Table s) (ns_Name s)) (index_set inc q s) (index_sets inc q es))"
  unfolding index_sets_def foldl_append by simp

lemma index_sets_lookup: "map_of (index_sets inc q es) key = map_option (index_set inc q) (named_set es key)"
proof (induction es rule: rev_induct)
  case Nil
  then show ?case by (simp add: index_sets_def named_set_def map_filter_simps)
next
  case (snoc e es)
  then show ?case
    by (simp add: index_sets_snoc update_conv' named_set_def map_filter_def split: option.splits)
qed

text \<open>The addresses a right-hand side stands for, in a rule of the given table.\<close>

definition rhs_addrs :: "fwNftEntry list \<Rightarrow> bytes \<Rightarrow> bytes \<Rightarrow> bytes \<Rightarrow> addr set" where
  "rhs_addrs es family table right =
     (if right = [] then {}
      else case dec_string [] right of
        Some s \<Rightarrow>
          if has_prefix s ''@'' then
            (case named_set es (set_key family table (drop 1 s)) of None \<Rightarrow> {} | Some st \<Rightarrow> set_addrs st)
          else set_option (ParseAddr s)
      | None \<Rightarrow>
          (case dec_map right of
             None \<Rightarrow> {}
           | Some obj \<Rightarrow> value_addrs right \<union> (\<Union>v \<in> set (anon_members (obj ''set'')). value_addrs v)))"

definition rhs_ok :: "bytes \<Rightarrow> bool" where
  "rhs_ok right \<longleftrightarrow> value_ok right \<and>
     (case dec_map right of None \<Rightarrow> True | Some obj \<Rightarrow> \<forall>v \<in> set (anon_members (obj ''set'')). value_ok v)"

text \<open>Every range of the document is well formed.\<close>

definition doc_ok :: "fwNftEntry list \<Rightarrow> bool" where
  "doc_ok es \<longleftrightarrow>
     list_all (\<lambda>s. list_all (\<lambda>raw. value_ok (fst (unwrapElem raw))) (elems (ns_Elem s))) (List.map_filter entry_set es) \<and>
     list_all (\<lambda>r. list_all (\<lambda>raw. case match_expr raw of None \<Rightarrow> True | Some (l, rhs, oper) \<Rightarrow> rhs_ok rhs) (elems (nr_Expr r)))
       (rule_entries es)"

lemma doc_okD:
  assumes "doc_ok es"
  shows "s \<in> set (List.map_filter entry_set es) \<Longrightarrow> raw \<in> set (elems (ns_Elem s)) \<Longrightarrow> value_ok (fst (unwrapElem raw))"
    and "r \<in> set (rule_entries es) \<Longrightarrow> raw' \<in> set (elems (nr_Expr r)) \<Longrightarrow> match_expr raw' = Some (l, rhs, oper) \<Longrightarrow> rhs_ok rhs"
  using assms by (fastforce simp: doc_ok_def list_all_iff)+

lemma named_set_mem: "named_set es key = Some s \<Longrightarrow> s \<in> set (List.map_filter entry_set es)"
  unfolding named_set_def find_Some_iff by (metis nth_mem set_rev)

lemma evaluateRightSide_iff:
  assumes q: "query_ok q" and d: "doc_ok es" and r: "rhs_ok rhs"
  shows "evaluateRightSide rhs q family table (index_sets inc q es) \<noteq> [] \<longleftrightarrow> meets (rhs_addrs es family table rhs) q"
proof (cases "rhs = [] \<or> dec_string [] rhs \<noteq> None")
  case True
  have "meets (set_addrs st) q \<longleftrightarrow> li_hasMatch (index_set inc q st)"
    if "named_set es key = Some st" for key st
    using index_set_hasMatch [OF q, of st inc] doc_okD(1) [OF d named_set_mem [OF that]] by blast
  then have ref: "evaluateRightSide rhs q family table (index_sets inc q es) \<noteq> [] \<longleftrightarrow> meets (rhs_addrs es family table rhs) q"
    if "rhs \<noteq> []" "dec_string [] rhs = Some s" "has_prefix s ''@''" for s
    using that by (cases "named_set es (set_key family table (drop 1 s))")
      (simp_all add: evaluateRightSide_def rhs_addrs_def index_sets_lookup)
  have lit: "evaluateRightSide rhs q family table (index_sets inc q es) \<noteq> [] \<longleftrightarrow> meets (rhs_addrs es family table rhs) q"
    if "rhs \<noteq> []" "dec_string [] rhs = Some s" "\<not> has_prefix s ''@''" for s
    using that by (cases "ParseAddr s")
      (simp_all add: evaluateRightSide_def rhs_addrs_def value_hit_def addrMatchesQuery_iff [OF q])
  from True consider "rhs = []" | st where "rhs \<noteq> []" "dec_string [] rhs = Some st" by auto
  then show ?thesis
  proof cases
    case 1
    then show ?thesis by (simp add: evaluateRightSide_def rhs_addrs_def)
  next
    case 2
    then show ?thesis using ref lit by blast
  qed
next
  case False
  show ?thesis
  proof (cases "dec_map rhs")
    case None
    then show ?thesis using False by (simp add: evaluateRightSide_def rhs_addrs_def)
  next
    case (Some obj)
    then have ok: "range_ok (obj ''range'')" "\<forall>v \<in> set (anon_members (obj ''set'')). value_ok v"
      using r by (simp_all add: rhs_ok_def value_ok_def)
    have v: "value_addrs rhs = prefix_part (obj ''prefix'') \<union> range_part (obj ''range'')"
      using False Some by (simp add: value_addrs_def)
    show ?thesis
      using False Some prefix_hit_iff [OF q, of "obj ''prefix''"] range_hit_iff [OF q ok(1)] member_hit_iff [OF q ok(2)]
      by (auto simp: evaluateRightSide_def rhs_addrs_def v value_hit_def meets_Union split: option.splits)
  qed
qed

text \<open>A rule that tests a source or destination address against some address of the query.\<close>

definition rule_tests :: "fwNftEntry list \<Rightarrow> lookupQuery \<Rightarrow> fwNftRule \<Rightarrow> bool" where
  "rule_tests es q r \<longleftrightarrow>
     (\<exists>raw \<in> set (elems (nr_Expr r)). \<exists>l rhs oper. match_expr raw = Some (l, rhs, oper) \<and>
        ipPayloadField l \<in> {''saddr'', ''daddr''} \<and> meets (rhs_addrs es (nr_Family r) (nr_Table r) rhs) q)"

type_synonym rule_id = "bytes \<times> bytes \<times> bytes \<times> int \<times> bytes"

definition match_rule_id :: "FirewallRuleMatch \<Rightarrow> rule_id" where
  "match_rule_id m = (rm_Family m, rm_Table m, rm_Chain m, rm_RuleHandle m, rm_RuleText m)"

definition rule_id_of :: "fwNftRule \<Rightarrow> rule_id" where
  "rule_id_of r = (nr_Family r, nr_Table r, nr_Chain r, nr_Handle r, marshal_raws (nr_Expr r))"

lemma match_one_id: "m \<in> set (match_one r q sets raw) \<Longrightarrow> match_rule_id m = rule_id_of r"
  by (auto simp: match_one_def match_rule_id_def rule_id_of_def Let_def split: option.splits if_splits)

lemma match_one_iff:
  assumes "query_ok q" and "doc_ok es" and "r \<in> set (rule_entries es)" and "raw \<in> set (elems (nr_Expr r))"
  shows "match_one r q (index_sets inc q es) raw \<noteq> [] \<longleftrightarrow>
    (\<exists>l rhs oper. match_expr raw = Some (l, rhs, oper) \<and> ipPayloadField l \<in> {''saddr'', ''daddr''} \<and>
       meets (rhs_addrs es (nr_Family r) (nr_Table r) rhs) q)"
proof (cases "match_expr raw")
  case None
  then show ?thesis by (simp add: match_one_def)
next
  case (Some x)
  then obtain l rhs oper where m: "match_expr raw = Some (l, rhs, oper)" by (cases x) auto
  have "rhs_ok rhs" using doc_okD(2) [OF assms(2-4) m] .
  from evaluateRightSide_iff [OF assms(1,2) this] m show ?thesis by (auto simp: match_one_def Let_def)
qed

lemma matches_ids:
  assumes "query_ok q" and "doc_ok es" and "r \<in> set (rule_entries es)"
  shows "match_rule_id ` set (matchRuleAgainstQuery r q (index_sets inc q es)) = (if rule_tests es q r then {rule_id_of r} else {})"
proof -
  let ?ms = "matchRuleAgainstQuery r q (index_sets inc q es)"
  have "match_rule_id ` set ?ms = (if ?ms \<noteq> [] then {rule_id_of r} else {})"
  proof -
    have "match_rule_id ` set ?ms = (\<lambda>m. rule_id_of r) ` set ?ms"
      using match_one_id by (intro image_cong) (auto simp: matchRuleAgainstQuery_def)
    then show ?thesis by (simp add: image_constant_conv)
  qed
  moreover have "?ms \<noteq> [] \<longleftrightarrow> (\<exists>raw \<in> set (elems (nr_Expr r)). match_one r q (index_sets inc q es) raw \<noteq> [])"
    by (simp add: matchRuleAgainstQuery_def)
  ultimately show ?thesis unfolding rule_tests_def using match_one_iff [OF assms] by metis
qed

text \<open>
  C24: The search is exact. For a document whose ranges are well formed, the rules reported are those
  that test a source or destination address against a literal, a prefix, a range, an anonymous set
  or a named set which has an address in common with the query, and no others; whether set
  elements are asked for makes no difference to them.
\<close>

theorem lookup_reports_exactly:
  assumes "dec_lookup_req \<lparr>lr_Query = [], lr_IncludeSetElements = False\<rparr> param = Some req"
    and "parseLookupQuery w (lr_Query req) = Inr q" and "trim_space (lr_Query req) \<noteq> []"
    and "run_capped w firewallRulesetCap nft_list_ruleset = (raw, truncated, None)"
    and "fwNftRoot raw = Some es" and "doc_ok es" and "param \<noteq> []"
  shows "\<exists>res. FirewallLookup w param = Inr res \<and>
    match_rule_id ` set (lk_Matches res) = rule_id_of ` {r \<in> set (rule_entries es). rule_tests es q r}"
proof -
  let ?res = "lookup_entries req q (if truncated then [''firewall: nft list ruleset exceeded '' @ itoa (int firewallRulesetCap) @
                                '' bytes; lookup scanned the prefix only''] else []) es"
  have r: "FirewallLookup w param = Inr ?res"
    using assms by (simp add: FirewallLookup_def Let_def)
  have "query_ok q" using assms(2) by (rule parseLookupQuery_ok)
  then have "match_rule_id ` set (lk_Matches ?res) = (\<Union>r \<in> set (rule_entries es). if rule_tests es q r then {rule_id_of r} else {})"
    using matches_ids [OF _ assms(6)] by (simp add: lookup_entries_def Let_def image_UN)
  also have "\<dots> = rule_id_of ` {r \<in> set (rule_entries es). rule_tests es q r}" by auto
  finally show ?thesis using r by blast
qed

definition sample_world :: "bytes \<Rightarrow> world" where
  "sample_world out =
     \<lparr>wd_sha256 = id, wd_child = (\<lambda>argv. sample_child\<lparr>ch_stdout := [out]\<rparr>), wd_file = (\<lambda>f. Inl (NotExist [])),
      wd_error = (\<lambda>f s. s), wd_quote = id, wd_now = 0, wd_stat = (\<lambda>f. Inl (NotExist [])), wd_dir = (\<lambda>d. Inl (NotExist [])),
      wd_statfs = (\<lambda>d. Inl []), wd_open = (\<lambda>f. Inl []), wd_parse_time = (\<lambda>l s. None), wd_parse_float = (\<lambda>s. None),
      wd_gunzip = (\<lambda>n s. None)\<rparr>"

definition sample_entries :: "fwNftEntry list" where
  "sample_entries =
     [zero_entry\<lparr>ne_Set := Some (zero_set\<lparr>ns_Family := ''ip'', ns_Table := ''f'', ns_Name := ''b'',
        ns_Type := json_text ''`ipv4_addr`'', ns_Elem := Some [json_text ''`203.0.113.9`'']\<rparr>)\<rparr>,
      zero_entry\<lparr>ne_Rule := Some (zero_rule\<lparr>nr_Family := ''ip'', nr_Table := ''f'', nr_Chain := ''c'',
        nr_Handle := 4, nr_Expr := Some [sample_rhs]\<rparr>)\<rparr>]"

definition sample_query :: lookupQuery where
  "sample_query = \<lparr>lq_kind = ''ipv4_addr'', lq_net = QAddr (IPv4 0xCB007109), lq_is6 = False\<rparr>"

theorem lookup_reports_exactly_witness:
  "\<exists>res. FirewallLookup (sample_world sample_ruleset) (json_text ''{`query`: `203.0.113.9`}'') = Inr res \<and>
     match_rule_id ` set (lk_Matches res) =
       rule_id_of ` {r \<in> set (rule_entries sample_entries). rule_tests sample_entries sample_query r}"
proof (rule lookup_reports_exactly)
  let ?req = "\<lparr>lr_Query = ''203.0.113.9'', lr_IncludeSetElements = False\<rparr>"
  show "dec_lookup_req \<lparr>lr_Query = [], lr_IncludeSetElements = False\<rparr> (json_text ''{`query`: `203.0.113.9`}'') = Some ?req"
    by code_simp
  show "parseLookupQuery (sample_world sample_ruleset) (lr_Query ?req) = Inr sample_query" by code_simp
  show "trim_space (lr_Query ?req) \<noteq> []" by code_simp
  show "run_capped (sample_world sample_ruleset) firewallRulesetCap nft_list_ruleset = (sample_ruleset, False, None)"
    by code_simp
  show "fwNftRoot sample_ruleset = Some sample_entries" by code_simp
  show "doc_ok sample_entries" by code_simp
  show "json_text ''{`query`: `203.0.113.9`}'' \<noteq> []" by code_simp
qed

text \<open>
  An element of a concatenated type is never found, though the type's first component names the
  query's family: its value is neither an address nor a prefix nor a range.
\<close>

lemma concat_element_unmatched:
  "setTypeMatchesQuery (stringifyType (json_text ''[`ipv4_addr`,`inet_service`]'')) sample_query \<and>
   elementMatchesQuery (json_text ''{`concat`:[`203.0.113.9`,80]}'') sample_query = None"
  by code_simp

end
