(* ===== verification/OpsNft.thy ===== *)
theory OpsNft
  imports FirewallLookup
begin

text \<open>
  \<^verbatim>\<open>nft.go\<close>: rules and named counters per nftables table, from the same document the firewall ops
  read.
\<close>

record nft_counter =
  kc_Family :: bytes
  kc_Name :: bytes
  kc_Table :: bytes
  kc_Packets :: int
  kc_Bytes :: int

record nft_rule_ref =
  kr_Family :: bytes
  kr_Table :: bytes

record nftEntry =
  ke_Counter :: "nft_counter option"
  ke_Rule :: "nft_rule_ref option"

definition dec_nft_counter :: "nft_counter decoder" where
  "dec_nft_counter old s = do {
     ms \<leftarrow> dec_struct s;
     family \<leftarrow> dec_field dec_string (kc_Family old) ms ''family'';
     name \<leftarrow> dec_field dec_string (kc_Name old) ms ''name'';
     table \<leftarrow> dec_field dec_string (kc_Table old) ms ''table'';
     p \<leftarrow> dec_field dec_int (kc_Packets old) ms ''packets'';
     b \<leftarrow> dec_field dec_int (kc_Bytes old) ms ''bytes'';
     Some \<lparr>kc_Family = family, kc_Name = name, kc_Table = table, kc_Packets = p, kc_Bytes = b\<rparr> }"

definition dec_nft_rule_ref :: "nft_rule_ref decoder" where
  "dec_nft_rule_ref old s = do {
     ms \<leftarrow> dec_struct s;
     family \<leftarrow> dec_field dec_string (kr_Family old) ms ''family'';
     table \<leftarrow> dec_field dec_string (kr_Table old) ms ''table'';
     Some \<lparr>kr_Family = family, kr_Table = table\<rparr> }"

definition dec_nftEntry :: "nftEntry decoder" where
  "dec_nftEntry old s = do {
     ms \<leftarrow> dec_struct s;
     c \<leftarrow> dec_field (dec_ptr dec_nft_counter \<lparr>kc_Family = [], kc_Name = [], kc_Table = [], kc_Packets = 0, kc_Bytes = 0\<rparr>)
           (ke_Counter old) ms ''counter'';
     r \<leftarrow> dec_field (dec_ptr dec_nft_rule_ref \<lparr>kr_Family = [], kr_Table = []\<rparr>) (ke_Rule old) ms ''rule'';
     Some \<lparr>ke_Counter = c, ke_Rule = r\<rparr> }"

definition nftEnvelope :: "bytes \<Rightarrow> nftEntry list option" where
  "nftEnvelope raw = do {
     ms \<leftarrow> dec_struct raw;
     es \<leftarrow> dec_field (dec_slice dec_nftEntry \<lparr>ke_Counter = None, ke_Rule = None\<rparr>) None ms ''nftables'';
     Some (elems es) }"

record NftCounter =
  hc_Name :: bytes
  hc_Packets :: int
  hc_Bytes :: int

record NftTable =
  nk_RuleCount :: int
  nk_HitCounters :: "NftCounter list"

type_synonym NftTableCountsResult = "(bytes \<times> NftTable) list"

definition table_at :: "NftTableCountsResult \<Rightarrow> bytes \<Rightarrow> NftTable" where
  "table_at m key = (case map_of m key of Some t \<Rightarrow> t | None \<Rightarrow> \<lparr>nk_RuleCount = 0, nk_HitCounters = []\<rparr>)"

definition count_rule :: "nft_rule_ref \<Rightarrow> NftTableCountsResult \<Rightarrow> NftTableCountsResult" where
  "count_rule r m =
     (let key = kr_Family r @ '':'' @ kr_Table r; t = table_at m key
      in AList.update key (t\<lparr>nk_RuleCount := nk_RuleCount t + 1\<rparr>) m)"

definition count_counter :: "nft_counter \<Rightarrow> NftTableCountsResult \<Rightarrow> NftTableCountsResult" where
  "count_counter c m =
     (let key = kc_Family c @ '':'' @ kc_Table c; t = table_at m key
      in AList.update key
           (t\<lparr>nk_HitCounters := nk_HitCounters t @ [\<lparr>hc_Name = kc_Name c, hc_Packets = kc_Packets c, hc_Bytes = kc_Bytes c\<rparr>]\<rparr>) m)"

definition count_entry :: "NftTableCountsResult \<Rightarrow> nftEntry \<Rightarrow> NftTableCountsResult" where
  "count_entry m e =
     (let m1 = (case ke_Rule e of Some r \<Rightarrow> count_rule r m | None \<Rightarrow> m)
      in case ke_Counter e of Some c \<Rightarrow> count_counter c m1 | None \<Rightarrow> m1)"

definition NftTableCounts :: "world \<Rightarrow> bytes \<Rightarrow> NftTableCountsResult op_result" where
  "NftTableCounts w param =
     (case run_capped w firewallRulesetCap nft_list_ruleset of
        (stdout, truncated, Some e) \<Rightarrow> if has_code e CodeToolMissing then Inr [] else Inl e
      | (stdout, truncated, None) \<Rightarrow>
          (case nftEnvelope stdout of
             None \<Rightarrow> Inl (op_error CodeToolFailed (''nft JSON parse: '' @ wd_error w ''json.Unmarshal'' stdout))
           | Some es \<Rightarrow> Inr (foldl count_entry [] es)))"

subsection \<open>Counting\<close>

definition rule_in :: "bytes \<Rightarrow> nftEntry \<Rightarrow> bool" where
  "rule_in key e = (case ke_Rule e of Some r \<Rightarrow> kr_Family r @ '':'' @ kr_Table r = key | None \<Rightarrow> False)"

definition counter_in :: "bytes \<Rightarrow> nftEntry \<Rightarrow> bool" where
  "counter_in key e = (case ke_Counter e of Some c \<Rightarrow> kc_Family c @ '':'' @ kc_Table c = key | None \<Rightarrow> False)"

lemma table_at_update: "table_at (AList.update k t m) key = (if k = key then t else table_at m key)"
  by (simp add: table_at_def update_conv')

lemma count_entry_spec:
  "nk_RuleCount (table_at (count_entry m e) key) = nk_RuleCount (table_at m key) + (if rule_in key e then 1 else 0)"
  "map hc_Name (nk_HitCounters (table_at (count_entry m e) key)) =
     map hc_Name (nk_HitCounters (table_at m key)) @ (if counter_in key e then [kc_Name (the (ke_Counter e))] else [])"
  by (auto simp: count_entry_def count_rule_def count_counter_def rule_in_def counter_in_def Let_def table_at_update
      split: option.splits)

lemma count_entries_spec:
  "nk_RuleCount (table_at (foldl count_entry m es) key) = nk_RuleCount (table_at m key) + int (length (filter (rule_in key) es))"
  "map hc_Name (nk_HitCounters (table_at (foldl count_entry m es) key)) =
     map hc_Name (nk_HitCounters (table_at m key)) @ map (kc_Name \<circ> the \<circ> ke_Counter) (filter (counter_in key) es)"
  by (induction es arbitrary: m) (auto simp: count_entry_spec)

text \<open>
  The op reports, for every table, as many rules as the document has for it and its named counters
  in the document's order.
\<close>

lemma nft_counts_exact:
  assumes "run_capped w firewallRulesetCap nft_list_ruleset = (stdout, truncated, None)" and "nftEnvelope stdout = Some es"
  shows "\<exists>m. NftTableCounts w param = Inr m \<and>
    nk_RuleCount (table_at m key) = int (length (filter (rule_in key) es)) \<and>
    map hc_Name (nk_HitCounters (table_at m key)) = map (kc_Name \<circ> the \<circ> ke_Counter) (filter (counter_in key) es)"
proof (intro exI conjI)
  show "NftTableCounts w param = Inr (foldl count_entry [] es)" using assms by (simp add: NftTableCounts_def)
  have "table_at [] key = \<lparr>nk_RuleCount = 0, nk_HitCounters = []\<rparr>" by (simp add: table_at_def)
  then show "nk_RuleCount (table_at (foldl count_entry [] es) key) = int (length (filter (rule_in key) es))"
    "map hc_Name (nk_HitCounters (table_at (foldl count_entry [] es) key)) = map (kc_Name \<circ> the \<circ> ke_Counter) (filter (counter_in key) es)"
    using count_entries_spec [of "[]" es key] by simp_all
qed

end
