(* ===== verification/OpsWireguard.thy ===== *)
theory OpsWireguard
  imports OpsBase Netip
begin

text \<open>
  \<^verbatim>\<open>wireguard.go\<close>: interfaces and peers from \<^verbatim>\<open>wg show all dump\<close>. The rows of the dump carry the
  private key of the interface and the preshared keys of the peers; the theorem says that no result
  depends on them.
\<close>

definition wg_key_char :: "char \<Rightarrow> bool" where
  "wg_key_char c \<longleftrightarrow> ascii_alnum c \<or> c = CHR ''+'' \<or> c = CHR ''/''"

definition wgPublicKeyRE :: "bytes \<Rightarrow> bool" where
  "wgPublicKeyRE s \<longleftrightarrow>
     (let n = length (takeWhile wg_key_char s); r = dropWhile wg_key_char s
      in (n = 42 \<or> n = 43) \<and> (r = [] \<or> r = ''=''))"

record WireguardPeer =
  wp_PublicKey :: bytes
  wp_Endpoint :: bytes
  wp_AllowedIPs :: bytes
  wp_LatestHandshake :: int
  wp_RxBytes :: int
  wp_TxBytes :: int
  wp_PersistentKA :: int

record WireguardInterface =
  wi_Name :: bytes
  wi_PublicKey :: bytes
  wi_ListenPort :: int
  wi_Fwmark :: bytes
  wi_Peers :: "WireguardPeer list"

type_synonym WireguardShowResult = "WireguardInterface list"

text \<open>The loop's variables: the interfaces that are complete, the current one, and its name.\<close>

record wg_state =
  wg_out :: "WireguardInterface list"
  wg_current :: "WireguardInterface option"
  wg_currentName :: bytes

definition atoi_or :: "int \<Rightarrow> bytes \<Rightarrow> int" where
  "atoi_or d s = (case atoi s of Some v \<Rightarrow> v | None \<Rightarrow> d)"

definition wg_enter :: "wg_state \<Rightarrow> bytes \<Rightarrow> wg_state" where
  "wg_enter st name =
     (if wg_currentName st \<noteq> name then
        \<lparr>wg_out = wg_out st @ (case wg_current st of Some i \<Rightarrow> [i] | None \<Rightarrow> []),
         wg_current = Some \<lparr>wi_Name = name, wi_PublicKey = [], wi_ListenPort = 0, wi_Fwmark = [], wi_Peers = []\<rparr>,
         wg_currentName = name\<rparr>
      else st)"

definition wg_header :: "bytes list \<Rightarrow> WireguardInterface \<Rightarrow> WireguardInterface" where
  "wg_header fs i =
     i\<lparr>wi_PublicKey := fs ! 2, wi_ListenPort := atoi_or (wi_ListenPort i) (fs ! 3),
       wi_Fwmark := (if fs ! 4 \<noteq> ''off'' then fs ! 4 else wi_Fwmark i)\<rparr>"

definition wg_peer :: "bytes list \<Rightarrow> WireguardPeer" where
  "wg_peer fs =
     \<lparr>wp_PublicKey = fs ! 1,
      wp_Endpoint = (if fs ! 3 \<noteq> ''(none)'' then fs ! 3 else []),
      wp_AllowedIPs = (if fs ! 4 \<noteq> ''(none)'' then fs ! 4 else []),
      wp_LatestHandshake = atoi_or 0 (fs ! 5), wp_RxBytes = atoi_or 0 (fs ! 6), wp_TxBytes = atoi_or 0 (fs ! 7),
      wp_PersistentKA = (if fs ! 8 \<noteq> ''off'' then atoi_or 0 (fs ! 8) else 0)\<rparr>"

text \<open>
  One row. The current interface is a nil pointer when no row has named an interface yet; using
  it stops the helper.
\<close>

definition wg_row :: "wg_state \<Rightarrow> bytes list \<Rightarrow> (exec_error + wg_state) go" where
  "wg_row st0 fs =
     (let st = wg_enter st0 (fs ! 0)
      in if length fs = 5 then
           (if \<not> wgPublicKeyRE (fs ! 2) then Ret (Inl (op_error CodeToolFailed ''wg dump: interface public key failed pattern''))
            else case wg_current st of
              None \<Rightarrow> Panic ''invalid memory address or nil pointer dereference''
            | Some i \<Rightarrow> Ret (Inr (st\<lparr>wg_current := Some (wg_header fs i)\<rparr>)))
         else if length fs = 9 then
           (if \<not> wgPublicKeyRE (fs ! 1) then Ret (Inl (op_error CodeToolFailed ''wg dump: peer public key failed pattern''))
            else case wg_current st of
              None \<Rightarrow> Panic ''invalid memory address or nil pointer dereference''
            | Some i \<Rightarrow> Ret (Inr (st\<lparr>wg_current := Some (i\<lparr>wi_Peers := wi_Peers i @ [wg_peer fs]\<rparr>)\<rparr>)))
         else Ret (Inl (op_error CodeToolFailed (''wg dump: row has unexpected column count '' @ itoa (int (length fs))))))"

fun wg_rows :: "wg_state \<Rightarrow> bytes list list \<Rightarrow> (exec_error + wg_state) go" where
  "wg_rows st [] = Ret (Inr st)"
| "wg_rows st (fs # rows) =
     (case wg_row st fs of
        Ret (Inr st') \<Rightarrow> wg_rows st' rows
      | other \<Rightarrow> other)"

text \<open>The columns of the lines that are not empty.\<close>

definition wg_table :: "bytes list \<Rightarrow> bytes list list" where
  "wg_table ls = map (split_on CHR 0x09 []) (filter (\<lambda>l. l \<noteq> []) ls)"

definition parseWGDump :: "bytes \<Rightarrow> WireguardShowResult op_result go" where
  "parseWGDump stdout =
     (let (ls, tooLong) = scan_lines (1024 * 1024) stdout
      in case wg_rows \<lparr>wg_out = [], wg_current = None, wg_currentName = []\<rparr> (wg_table ls) of
           Panic m \<Rightarrow> Panic m
         | Ret (Inl e) \<Rightarrow> Ret (Inl e)
         | Ret (Inr st) \<Rightarrow>
             if tooLong then Ret (Inl (op_error CodeToolFailed ''wg dump scanner: bufio.Scanner: token too long''))
             else Ret (Inr (wg_out st @ (case wg_current st of Some i \<Rightarrow> [i] | None \<Rightarrow> []))))"

definition WireguardShow :: "world \<Rightarrow> bytes \<Rightarrow> WireguardShowResult op_result go" where
  "WireguardShow w param =
     (case Run w [''wg'', ''show'', ''all'', ''dump''] of
        (stdout, Some e) \<Rightarrow> Ret (Inl e)
      | (stdout, None) \<Rightarrow> parseWGDump stdout)"

subsection \<open>Keys stay in the helper\<close>

text \<open>A row without the keys: the private key of an interface, the preshared key of a peer.\<close>

definition without_keys :: "bytes list \<Rightarrow> bytes list" where
  "without_keys fs = (if length fs = 5 then fs[1 := []] else if length fs = 9 then fs[2 := []] else fs)"

lemma wg_header_key: "wg_header (fs[1 := k]) = wg_header fs"
  by (simp add: fun_eq_iff wg_header_def)

lemma wg_peer_key: "wg_peer (fs[2 := k]) = wg_peer fs"
  by (simp add: wg_peer_def)

lemma wg_row_without_keys: "wg_row st (without_keys fs) = wg_row st fs"
proof -
  consider "length fs = 5" | "length fs = 9" | "length fs \<noteq> 5" "length fs \<noteq> 9" by blast
  then show ?thesis
    by cases (simp_all add: without_keys_def wg_row_def Let_def wg_header_key [unfolded One_nat_def] wg_peer_key split: option.split)
qed

lemma wg_rows_without_keys: "wg_rows st (map without_keys rows) = wg_rows st rows"
proof (induction rows arbitrary: st)
  case (Cons fs rows)
  then show ?case by (simp add: wg_row_without_keys split: go.split sum.split)
qed simp

text \<open>
  C27: The private key of an interface and the preshared keys of its peers do not reach the result,
  be it a value, an error message or a panic: two dumps whose rows differ in these columns only
  give the same result.
\<close>

theorem wg_keys_do_not_flow:
  assumes "map without_keys (wg_table (fst (scan_lines (1024 * 1024) d1))) =
      map without_keys (wg_table (fst (scan_lines (1024 * 1024) d2)))"
    and "snd (scan_lines (1024 * 1024) d1) = snd (scan_lines (1024 * 1024) d2)"
  shows "parseWGDump d1 = parseWGDump d2"
proof -
  have "wg_rows st (wg_table (fst (scan_lines (1024 * 1024) d1))) = wg_rows st (wg_table (fst (scan_lines (1024 * 1024) d2)))" for st
    using assms(1) wg_rows_without_keys by metis
  then show ?thesis using assms(2) by (simp add: parseWGDump_def split_beta Let_def)
qed

definition sample_key :: "char \<Rightarrow> bytes" where
  "sample_key c = replicate 43 c @ ''=''"

definition sample_dump :: "bytes \<Rightarrow> bytes \<Rightarrow> bytes" where
  "sample_dump priv psk =
     join [''wg0'', priv, sample_key CHR ''A'', ''51820'', ''off''] [CHR 0x09] @ [CHR 0x0A] @
     join [''wg0'', sample_key CHR ''B'', psk, ''192.0.2.7:1'', ''10.0.0.2/32'', ''1700000000'', ''12'', ''34'', ''25''] [CHR 0x09] @
     [CHR 0x0A]"

theorem wg_keys_do_not_flow_witness:
  "parseWGDump (sample_dump ''secret'' ''(none)'') = parseWGDump (sample_dump ''other'' ''psk'')"
  by (rule wg_keys_do_not_flow) code_simp+

text \<open>
  A first row with an empty interface name stops the helper, as the current interface is then nil:
  its name equals the name before the first row.
\<close>

lemma wg_empty_name_panics:
  assumes "wgPublicKeyRE (fs ! 2)" and "length fs = 5" and "fs ! 0 = []"
  shows "\<exists>m. wg_row \<lparr>wg_out = [], wg_current = None, wg_currentName = []\<rparr> fs = Panic m"
  using assms by (simp add: wg_row_def wg_enter_def Let_def)

end
