(* ===== verification/ToolBase.thy ===== *)
theory ToolBase
  imports HttpServer HelperInvoke OpsBase
begin

text \<open>
  What the tools of \<^verbatim>\<open>daemon/internal/daemon/tools\<close> share: the result of \<^verbatim>\<open>Handle\<close>, the strict decoding
  of a request body (\<^verbatim>\<open>schema/decode.go\<close>), the report of a failed helper op, and the helper's answer
  to a call as the client delivers it.
\<close>

datatype handle_error = ToolTyped tools_Error | ToolCall call_error | ToolOther bytes

type_synonym 'd handled = "handle_error + 'd \<times> bytes list"

text \<open>
  \<^verbatim>\<open>schema.DecodeStrict\<close> into a struct with the given fields, for a body that the HTTP server has found
  to be JSON: its members, \<^const>\<open>None\<close> for an error. A member that is no field is an error.
\<close>

definition DecodeStrict :: "bytes list \<Rightarrow> bytes \<Rightarrow> (bytes \<times> bytes) list option" where
  "DecodeStrict names body =
     (case dec_struct body of
        None \<Rightarrow> None
      | Some ms \<Rightarrow> if list_all (\<lambda>(k, v). fold_name k \<in> set names) ms then Some ms else None)"

text \<open>
  A field after \<^verbatim>\<open>_ = json.Unmarshal(body, &r)\<close>: a member of the wrong type is skipped, and nothing
  is decoded from what is not an object.
\<close>

definition lenient_field :: "'a decoder \<Rightarrow> 'a \<Rightarrow> bytes \<Rightarrow> bytes \<Rightarrow> 'a" where
  "lenient_field dec zero body name =
     (case dec_struct body of
        None \<Rightarrow> zero
      | Some ms \<Rightarrow>
          foldl (\<lambda>old (k, v). if fold_name k = name then (case dec old v of Some x \<Rightarrow> x | None \<Rightarrow> old) else old) zero ms)"

definition bad_argument :: "bytes \<Rightarrow> handle_error" where
  "bad_argument msg = ToolTyped \<lparr>te_Code = ErrCodeBadArgument, te_Message = msg\<rparr>"

text \<open>The error of a call, with the text of those that are not the helper's.\<close>

definition go_error_of :: "(call_error \<Rightarrow> bytes) \<Rightarrow> call_error \<Rightarrow> go_error" where
  "go_error_of texts e = (case e of HelperErr he \<Rightarrow> WrapsHelper he | _ \<Rightarrow> OtherError (texts e))"

text \<open>The error block and the warning a tool reports for a helper op that failed.\<close>

definition op_failure :: "(call_error \<Rightarrow> bytes) \<Rightarrow> bytes \<Rightarrow> bytes \<Rightarrow> call_error \<Rightarrow> HelperOpError \<times> bytes" where
  "op_failure texts tool op e =
     ((the (OpErrorFrom (Some (go_error_of texts e))))\<lparr>hoe_op := op\<rparr>,
      tool @ '': '' @ op @ '': '' @ CodeOf (Some (go_error_of texts e)))"

text \<open>The pair of lists a failed call adds to: error entries and warnings.\<close>

definition failed_op :: "(call_error \<Rightarrow> bytes) \<Rightarrow> bytes \<Rightarrow> bytes \<Rightarrow> call_error + 'r \<Rightarrow> HelperOpError list \<times> bytes list" where
  "failed_op texts tool op r =
     (case r of Inr v \<Rightarrow> ([], []) | Inl e \<Rightarrow> (let (oe, w) = op_failure texts tool op e in ([oe], [w])))"

subsection \<open>An op behind the socket\<close>

text \<open>What a call of an op delivers to the tool: the result, or the error as a \<^verbatim>\<open>HelperError\<close>.\<close>

definition remote :: "Client \<Rightarrow> 'r op_result \<Rightarrow> call_error + 'r" where
  "remote c r =
     (case r of
        Inr v \<Rightarrow> Inr v
      | Inl e \<Rightarrow>
          (let de = (case e of Typed de \<Rightarrow> de | Plain m \<Rightarrow> zero_dispatch_Error\<lparr>de_Code := CodeInternal, de_Message := m\<rparr>)
           in Inl (HelperErr \<lparr>he_Code = de_Code de, he_Message = de_Message de, he_StderrBytes = de_StderrBytes de,
                he_StderrSHA256 = de_StderrSHA256 de, he_StderrPrefix = de_StderrPrefix de, he_ToolExit = de_ToolExit de,
                he_Argv = de_Argv de, he_redactor = cl_redactor c\<rparr>)))"

text \<open>
  It is what the dispatcher's response becomes in the client, for a codec that reads back what it
  writes.
\<close>

lemma remote_response:
  assumes "\<And>v. unmarshal (marshal v) = Some v"
  shows "CallJSON unmarshal (response_result c (handler_response (op_handler marshal r))) = remote c r"
  using assms
  by (auto simp: remote_def CallJSON_def response_result_def handler_response_def op_handler_def errRespFromDispatch_def
      errResp_def empty_response_def proto_code_defs zero_dispatch_Error_def Let_def split: sum.splits exec_error.splits)

text \<open>The runner of subprocesses reports no bad parameter.\<close>

lemma Run_code:
  assumes "Run w argv = (out, Some e)"
  shows "\<exists>de. e = Typed de \<and> de_Code de \<in> {CodeDeadline, CodeOutputTruncated, CodeToolMissing, CodeToolFailed}"
proof -
  have "de_Code (classify h re ch) \<in> {CodeDeadline, CodeOutputTruncated, CodeToolMissing, CodeToolFailed}" for h re ch
    by (cases re) (simp_all add: classify_def Let_def)
  then show ?thesis using assms by (auto simp: Run_def exec_Run_def Let_def)
qed

text \<open>A host on which nothing is installed.\<close>

definition quiet_world :: world where
  "quiet_world =
     \<lparr>wd_sha256 = id, wd_child = (\<lambda>argv. sample_child), wd_file = (\<lambda>f. Inl (NotExist [])), wd_error = (\<lambda>f s. s), wd_quote = id,
      wd_now = 0, wd_stat = (\<lambda>f. Inl (NotExist [])), wd_dir = (\<lambda>d. Inl (NotExist [])), wd_statfs = (\<lambda>d. Inl []),
      wd_open = (\<lambda>f. Inl []), wd_parse_time = (\<lambda>l s. None), wd_parse_float = (\<lambda>s. None), wd_gunzip = (\<lambda>n s. None)\<rparr>"

end
