(* ===== verification/OpsJournal.thy ===== *)
theory OpsJournal
  imports OpsBase Netip "HOL-Library.AList" "HOL-Library.Monad_Syntax"
begin

text \<open>
  \<^verbatim>\<open>journal.go\<close> and \<^verbatim>\<open>ssh_journal.go\<close>: the two ops that read the systemd journal. The text of a
  timestamp (\<^verbatim>\<open>time.Time.Format\<close>) and the present time are arguments.
\<close>

subsection \<open>Querying the journal\<close>

record JournalSample =
  js_TS :: bytes
  js_Unit :: bytes
  js_Message :: bytes

record JournalQueryResult =
  jq_TotalCount :: int
  jq_ByUnit :: "(bytes \<times> int) list"
  jq_Samples :: "JournalSample list"

definition journal_severities :: "bytes list" where
  "journal_severities = [''emerg'', ''alert'', ''crit'', ''err'', ''warning'']"

definition journal_windows :: "bytes list" where
  "journal_windows = [''15m'', ''1h'', ''6h'', ''24h'']"

definition journal_sources :: "bytes list" where
  "journal_sources = [''journal'', ''audit'']"

definition journal_param :: "bytes \<Rightarrow> bytes \<Rightarrow> bytes \<Rightarrow> bytes" where
  "journal_param severity window source =
     ''severity='' @ severity @ '' window='' @ window @ '' source='' @ source"

text \<open>The three groups of a parameter that matches the anchored expression.\<close>

definition paramRE :: "bytes \<Rightarrow> (bytes \<times> bytes \<times> bytes) option" where
  "paramRE param =
     find (\<lambda>(s, w, src). param = journal_param s w src)
       (List.product journal_severities (List.product journal_windows journal_sources))"

definition journalSampleCap :: int where
  "journalSampleCap = 200"

definition windowToSince :: "bytes \<Rightarrow> bytes" where
  "windowToSince window =
     (if window = ''15m'' then ''15 minutes ago'' else if window = ''1h'' then ''1 hour ago''
      else if window = ''6h'' then ''6 hours ago'' else if window = ''24h'' then ''24 hours ago''
      else ''1 hour ago'')"

definition severityToNumeric :: "bytes \<Rightarrow> bytes" where
  "severityToNumeric s =
     (if s = ''emerg'' then ''0'' else if s = ''alert'' then ''1'' else if s = ''crit'' then ''2''
      else if s = ''err'' then ''3'' else if s = ''warning'' then ''4'' else ''4'')"

definition journal_args :: "bytes \<Rightarrow> bytes \<Rightarrow> bytes \<Rightarrow> bytes list" where
  "journal_args severity window source =
     [''--output=json'', ''--no-pager'', ''--since='' @ windowToSince window, ''--priority=0..'' @ severityToNumeric severity,
      ''--output-fields=__REALTIME_TIMESTAMP,_SYSTEMD_UNIT,SYSLOG_IDENTIFIER,MESSAGE'', ''-n'', itoa journalSampleCap] @
     (if source = ''audit'' then [''_TRANSPORT=audit''] else [])"

definition journalTSToRFC3339 :: "(int \<Rightarrow> bytes) \<Rightarrow> bytes \<Rightarrow> bytes" where
  "journalTSToRFC3339 fmt_micro ts =
     (if ts = [] then [] else case atoi ts of None \<Rightarrow> [] | Some usec \<Rightarrow> fmt_micro usec)"

text \<open>The timestamp, unit, identifier and message of a line.\<close>

definition journal_entry :: "bytes \<Rightarrow> (bytes \<times> bytes \<times> bytes \<times> bytes) option" where
  "journal_entry line = do {
     ms \<leftarrow> dec_struct line;
     ts \<leftarrow> dec_field dec_string [] ms ''__realtime_timestamp'';
     unit \<leftarrow> dec_field dec_string [] ms ''_systemd_unit'';
     ident \<leftarrow> dec_field dec_string [] ms ''syslog_identifier'';
     msg \<leftarrow> dec_field dec_string [] ms ''message'';
     Some (ts, unit, ident, msg) }"

definition journal_unit :: "bytes \<Rightarrow> bytes \<Rightarrow> bytes" where
  "journal_unit unit ident =
     (let u = (if unit = [] then ident else unit) in if u = [] then ''kernel'' else u)"

definition journal_line :: "(int \<Rightarrow> bytes) \<Rightarrow> JournalQueryResult \<Rightarrow> bytes \<Rightarrow> JournalQueryResult" where
  "journal_line fmt_micro out line =
     (if line = [] then out
      else case journal_entry line of
        None \<Rightarrow> out
      | Some (ts, unit0, ident, msg) \<Rightarrow>
          (let unit = journal_unit unit0 ident;
               n = (case map_of (jq_ByUnit out) unit of Some k \<Rightarrow> k | None \<Rightarrow> 0)
           in \<lparr>jq_TotalCount = jq_TotalCount out + 1,
               jq_ByUnit = AList.update unit (n + 1) (jq_ByUnit out),
               jq_Samples = (if length (jq_Samples out) < 20
                  then jq_Samples out @ [\<lparr>js_TS = journalTSToRFC3339 fmt_micro ts, js_Unit = unit, js_Message = msg\<rparr>]
                  else jq_Samples out)\<rparr>))"

definition JournalQuery :: "(int \<Rightarrow> bytes) \<Rightarrow> world \<Rightarrow> bytes \<Rightarrow> JournalQueryResult op_result" where
  "JournalQuery fmt_micro w param =
     (case paramRE param of
        None \<Rightarrow> Inl (op_error CodeBadParam ''param must match severity=<lvl> window=<dur> source=<journal|audit>'')
      | Some (severity, window, source) \<Rightarrow>
          (case Run w (''journalctl'' # journal_args severity window source) of
             (stdout, Some e) \<Rightarrow> Inl e
           | (stdout, None) \<Rightarrow>
               Inr (foldl (journal_line fmt_micro) \<lparr>jq_TotalCount = 0, jq_ByUnit = [], jq_Samples = []\<rparr>
                      (split_on CHR 0x0A [] stdout))))"

text \<open>What the result of a query always satisfies.\<close>

definition journal_inv :: "JournalQueryResult \<Rightarrow> bool" where
  "journal_inv r \<longleftrightarrow> jq_TotalCount r = sum_list (map snd (jq_ByUnit r)) \<and> length (jq_Samples r) \<le> 20 \<and>
     int (length (jq_Samples r)) \<le> jq_TotalCount r \<and>
     list_all (\<lambda>s. map_of (jq_ByUnit r) (js_Unit s) \<noteq> None) (jq_Samples r)"

lemma sum_update_int:
  fixes m :: "(bytes \<times> int) list"
  shows "sum_list (map snd (AList.update k ((case map_of m k of Some v \<Rightarrow> v | None \<Rightarrow> 0) + 1) m)) = sum_list (map snd m) + 1"
  by (induction m) auto

lemma journal_line_inv: "journal_inv r \<Longrightarrow> journal_inv (journal_line fmt_micro r l)"
  by (auto simp: journal_inv_def journal_line_def Let_def sum_update_int update_conv' list_all_iff split: option.splits)

lemma journal_lines_inv: "journal_inv r \<Longrightarrow> journal_inv (foldl (journal_line fmt_micro) r ls)"
  by (induction ls arbitrary: r) (auto intro: journal_line_inv)

lemma JournalQuery_inv: "JournalQuery fmt_micro w param = Inr r \<Longrightarrow> journal_inv r"
proof -
  have "journal_inv \<lparr>jq_TotalCount = 0, jq_ByUnit = [], jq_Samples = []\<rparr>" by (simp add: journal_inv_def)
  then show "JournalQuery fmt_micro w param = Inr r \<Longrightarrow> journal_inv r"
    by (auto simp: JournalQuery_def journal_lines_inv split: option.splits prod.splits)
qed

text \<open>The expression accepts exactly the parameters built from the three lists.\<close>

lemma paramRE_iff:
  "paramRE param \<noteq> None \<longleftrightarrow>
     (\<exists>s \<in> set journal_severities. \<exists>w \<in> set journal_windows. \<exists>src \<in> set journal_sources. param = journal_param s w src)"
  by (auto simp: paramRE_def find_None_iff)

subsection \<open>SSH logins\<close>

record SshJournalCountsResult =
  sj_Present :: bool
  sj_AcceptedLast24h :: int
  sj_FailedLast24h :: int
  sj_Truncated :: bool
  sj_OldestEntryUnixS :: int
  sj_BootUnixS :: int

definition sshJournalWindowS :: int where
  "sshJournalWindowS = 24 * 3600"

definition sshJournalTruncationThresholdS :: int where
  "sshJournalTruncationThresholdS = 600"

datatype sshJournalClass = sshJournalOther | sshJournalAccepted | sshJournalFailed

definition classifySshJournalLine :: "bytes \<Rightarrow> sshJournalClass" where
  "classifySshJournalLine line =
     (if has_prefix line ''Accepted '' then sshJournalAccepted
      else if has_prefix line ''Failed '' then sshJournalFailed
      else if has_suffix line ''[preauth]'' \<and> (has_prefix line ''Disconnected from '' \<or> has_prefix line ''Connection closed by '')
      then sshJournalFailed
      else if contains_sub line ''kex_exchange_identification'' then sshJournalFailed
      else sshJournalOther)"

definition ssh_count :: "SshJournalCountsResult \<Rightarrow> bytes \<Rightarrow> SshJournalCountsResult" where
  "ssh_count out line =
     (case classifySshJournalLine line of
        sshJournalAccepted \<Rightarrow> out\<lparr>sj_AcceptedLast24h := sj_AcceptedLast24h out + 1\<rparr>
      | sshJournalFailed \<Rightarrow> out\<lparr>sj_FailedLast24h := sj_FailedLast24h out + 1\<rparr>
      | sshJournalOther \<Rightarrow> out)"

definition sshJournalTruncated :: "int \<Rightarrow> int \<Rightarrow> int \<Rightarrow> bool" where
  "sshJournalTruncated btime oldest now =
     (let cutoff = int64 (now - sshJournalWindowS)
      in if cutoff < btime then False
         else sshJournalTruncationThresholdS < int64 (oldest - cutoff))"

fun parseBtimeFromProcStat :: "bytes list \<Rightarrow> int option" where
  "parseBtimeFromProcStat [] = None"
| "parseBtimeFromProcStat (line # ls) =
     (if has_prefix line ''btime '' then atoi (trim_space (drop 6 line)) else parseBtimeFromProcStat ls)"

definition readSystemBootTime :: "world \<Rightarrow> int option" where
  "readSystemBootTime w =
     (case ReadFile w ''/proc/stat'' of
        Inl e \<Rightarrow> None
      | Inr dat \<Rightarrow> parseBtimeFromProcStat (split_on CHR 0x0A [] dat))"

definition dec_boot :: "(int \<times> int) decoder" where
  "dec_boot old s = do {
     ms \<leftarrow> dec_struct s;
     i \<leftarrow> dec_field dec_int (fst old) ms ''index'';
     e \<leftarrow> dec_field dec_int (snd old) ms ''first_entry'';
     Some (i, e) }"

definition readOldestJournalEntryForCurrentBoot :: "world \<Rightarrow> int option" where
  "readOldestJournalEntryForCurrentBoot w =
     (case Run w [''journalctl'', ''--list-boots'', ''--output=json'', ''--no-pager''] of
        (out, Some e) \<Rightarrow> None
      | (out, None) \<Rightarrow>
          (case dec_slice dec_boot (0, 0) None out of
             None \<Rightarrow> None
           | Some boots \<Rightarrow> map_option snd (find (\<lambda>b. fst b = 0) (case boots of None \<Rightarrow> [] | Some bs \<Rightarrow> bs))))"

text \<open>Go's division truncates towards zero.\<close>

definition trunc_div :: "int \<Rightarrow> int \<Rightarrow> int" where
  "trunc_div a b = (if a < 0 then - (- a div b) else a div b)"

definition probeSshJournalTruncation :: "world \<Rightarrow> (int \<times> int) option" where
  "probeSshJournalTruncation w = do {
     btime \<leftarrow> readSystemBootTime w;
     usec \<leftarrow> readOldestJournalEntryForCurrentBoot w;
     Some (btime, trunc_div usec 1000000) }"

definition ssh_journal_argv :: "bytes list" where
  "ssh_journal_argv =
     [''journalctl'', ''--since=24 hours ago'', ''-u'', ''ssh.service'', ''--output=cat'', ''--no-pager'',
      ''--grep=^(Accepted|Failed|Disconnected|Connection closed)|kex_exchange_identification'']"

definition SshJournalCounts :: "int \<Rightarrow> world \<Rightarrow> bytes \<Rightarrow> SshJournalCountsResult op_result" where
  "SshJournalCounts now w param =
     (let zero = \<lparr>sj_Present = False, sj_AcceptedLast24h = 0, sj_FailedLast24h = 0, sj_Truncated = False,
                  sj_OldestEntryUnixS = 0, sj_BootUnixS = 0\<rparr>
      in case RunStreaming (wd_sha256 w) (wd_child w ssh_journal_argv) of
           (ls, Some e) \<Rightarrow> if has_code e CodeToolMissing then Inr zero else Inl e
         | (ls, None) \<Rightarrow>
             (let out = (foldl ssh_count zero ls)\<lparr>sj_Present := True\<rparr>
              in case probeSshJournalTruncation w of
                   None \<Rightarrow> Inr out
                 | Some (btime, oldest) \<Rightarrow>
                     Inr (out\<lparr>sj_BootUnixS := btime, sj_OldestEntryUnixS := oldest,
                              sj_Truncated := sshJournalTruncated btime oldest now\<rparr>)))"

lemma ssh_count_all:
  "foldl ssh_count r ls = r\<lparr>sj_AcceptedLast24h := sj_AcceptedLast24h r + int (length (filter (\<lambda>l. classifySshJournalLine l = sshJournalAccepted) ls)),
     sj_FailedLast24h := sj_FailedLast24h r + int (length (filter (\<lambda>l. classifySshJournalLine l = sshJournalFailed) ls))\<rparr>"
  by (induction ls arbitrary: r) (auto simp: ssh_count_def split: sshJournalClass.splits)

end
