(* ===== verification/ToolLogs.thy ===== *)
theory ToolLogs
  imports ToolBase OpsJournal
begin

text \<open>
  \<^verbatim>\<open>tools/logs/logs.go\<close>: the log summary. The helper queries the journal; the tool checks the request and
  redacts every message. The theorem follows a request from the body to the answer.
\<close>

record logs_Request =
  lg_Severity :: bytes
  lg_Window :: bytes
  lg_Source :: bytes

text \<open>The time of a sample is \<^const>\<open>None\<close> for Go's zero time.\<close>

record logs_Sample =
  ls_TS :: "time option"
  ls_Unit :: bytes
  ls_Message :: bytes

record logs_Data =
  ld_TotalCount :: int
  ld_ByUnit :: "(bytes \<times> int) list"
  ld_Samples :: "logs_Sample list"

definition validSeverity :: "bytes list" where
  "validSeverity = [''emerg'', ''alert'', ''crit'', ''err'', ''warning'']"

definition validWindow :: "bytes list" where
  "validWindow = [''15m'', ''1h'', ''6h'', ''24h'']"

definition validSource :: "bytes list" where
  "validSource = [''journal'', ''audit'']"

definition dec_logs_request :: "(bytes \<times> bytes) list \<Rightarrow> logs_Request option" where
  "dec_logs_request ms = do {
     s \<leftarrow> dec_field dec_string [] ms ''severity'';
     w \<leftarrow> dec_field dec_string [] ms ''window'';
     src \<leftarrow> dec_field dec_string [] ms ''source'';
     Some \<lparr>lg_Severity = s, lg_Window = w, lg_Source = src\<rparr> }"

definition applyDefaults :: "logs_Request \<Rightarrow> logs_Request" where
  "applyDefaults r =
     \<lparr>lg_Severity = (if lg_Severity r = [] then ''warning'' else lg_Severity r),
      lg_Window = (if lg_Window r = [] then ''1h'' else lg_Window r),
      lg_Source = (if lg_Source r = [] then ''journal'' else lg_Source r)\<rparr>"

definition logs_validate :: "logs_Request \<Rightarrow> bytes option" where
  "logs_validate r =
     (if lg_Severity r \<notin> set validSeverity then Some ''logs: severity must be one of emerg/alert/crit/err/warning''
      else if lg_Window r \<notin> set validWindow then Some ''logs: window must be one of 15m/1h/6h/24h''
      else if lg_Source r \<notin> set validSource then Some ''logs: source must be one of journal/audit''
      else None)"

definition logs_request :: "(bytes \<Rightarrow> bytes) \<Rightarrow> bytes \<Rightarrow> handle_error + logs_Request" where
  "logs_request errtext body =
     (case (if body = [] then Some \<lparr>lg_Severity = [], lg_Window = [], lg_Source = []\<rparr>
            else Option.bind (DecodeStrict [''severity'', ''window'', ''source''] body) dec_logs_request) of
        None \<Rightarrow> Inl (bad_argument (BoundMessage (''logs: '' @ errtext body)))
      | Some r0 \<Rightarrow>
          (let r = applyDefaults r0
           in case logs_validate r of Some m \<Rightarrow> Inl (bad_argument m) | None \<Rightarrow> Inr r))"

text \<open>
  The tool: \<open>call\<close> is a helper call with its result decoded, \<open>parse_time\<close> is \<^verbatim>\<open>time.Parse\<close>, \<open>errtext\<close>
  the text of a decoding error.
\<close>

definition logs_Handle ::
  "(bytes \<Rightarrow> bytes) \<Rightarrow> (bytes \<Rightarrow> time option) \<Rightarrow> Rules \<Rightarrow> (bytes \<Rightarrow> bytes \<Rightarrow> call_error + JournalQueryResult) \<Rightarrow> bytes \<Rightarrow>
   logs_Data handled" where
  "logs_Handle errtext parse_time redactor call body =
     (case logs_request errtext body of
        Inl e \<Rightarrow> Inl e
      | Inr req \<Rightarrow>
          (case call OpJournalQuery (''severity='' @ lg_Severity req @ '' window='' @ lg_Window req @ '' source='' @ lg_Source req) of
             Inl e \<Rightarrow> Inl (ToolCall e)
           | Inr hr \<Rightarrow>
               Inr (\<lparr>ld_TotalCount = jq_TotalCount hr, ld_ByUnit = jq_ByUnit hr,
                     ld_Samples = map (\<lambda>s. \<lparr>ls_TS = parse_time (js_TS s), ls_Unit = js_Unit s,
                                            ls_Message = Redact redactor (js_Message s)\<rparr>) (jq_Samples hr)\<rparr>, [])))"

definition logs_AuditArgs :: "bytes \<Rightarrow> (bytes \<times> bytes) list" where
  "logs_AuditArgs body =
     (let r = applyDefaults \<lparr>lg_Severity = lenient_field dec_string [] body ''severity'',
            lg_Window = lenient_field dec_string [] body ''window'', lg_Source = lenient_field dec_string [] body ''source''\<rparr>
      in [(''severity'', lg_Severity r), (''window'', lg_Window r), (''source'', lg_Source r)])"

lemma logs_request_valid:
  "logs_request errtext body = Inr r \<Longrightarrow>
     lg_Severity r \<in> set journal_severities \<and> lg_Window r \<in> set journal_windows \<and> lg_Source r \<in> set journal_sources"
  by (auto simp: logs_request_def logs_validate_def Let_def validSeverity_def validWindow_def validSource_def
      journal_severities_def journal_windows_def journal_sources_def split: option.splits if_splits)

lemma redacted_tokens: "list_all (\<lambda>t. t = placeholder \<or> tokenSafe f t) (Fields (Redact f s))"
  by (auto simp: Fields_Redact list_all_iff)

text \<open>
  C28: A log request, whatever its body, ends in one of three ways. It is refused as a bad argument
  before the helper is called; or the helper accepts its parameter, and the call fails for
  another reason; or the answer counts every entry under exactly one unit, shows at most twenty
  samples, each of a counted unit, and every token of a message is the placeholder or on the
  positive list.
\<close>

theorem logs_end_to_end:
  "case logs_Handle errtext parse_time redactor (\<lambda>op param. remote c (JournalQuery fmt_micro w param)) body of
     Inl (ToolTyped te) \<Rightarrow> te_Code te = ErrCodeBadArgument \<and> logs_request errtext body = Inl (ToolTyped te)
   | Inl (ToolCall (HelperErr he)) \<Rightarrow> he_Code he \<noteq> CodeBadParam
   | Inl e \<Rightarrow> False
   | Inr (d, warnings) \<Rightarrow>
       ld_TotalCount d = sum_list (map snd (ld_ByUnit d)) \<and> length (ld_Samples d) \<le> 20 \<and>
       list_all (\<lambda>s. map_of (ld_ByUnit d) (ls_Unit s) \<noteq> None \<and>
         list_all (\<lambda>t. t = placeholder \<or> tokenSafe redactor t) (Fields (ls_Message s))) (ld_Samples d)"
proof (cases "logs_request errtext body")
  case (Inl e)
  then have "\<exists>m. e = bad_argument m" by (auto simp: logs_request_def Let_def split: option.splits)
  then show ?thesis using Inl by (auto simp: logs_Handle_def bad_argument_def)
next
  case (Inr req)
  let ?p = "journal_param (lg_Severity req) (lg_Window req) (lg_Source req)"
  have h: "logs_Handle errtext parse_time redactor (\<lambda>op param. remote c (JournalQuery fmt_micro w param)) body =
      (case remote c (JournalQuery fmt_micro w ?p) of
         Inl e \<Rightarrow> Inl (ToolCall e)
       | Inr hr \<Rightarrow> Inr (\<lparr>ld_TotalCount = jq_TotalCount hr, ld_ByUnit = jq_ByUnit hr,
           ld_Samples = map (\<lambda>s. \<lparr>ls_TS = parse_time (js_TS s), ls_Unit = js_Unit s, ls_Message = Redact redactor (js_Message s)\<rparr>)
             (jq_Samples hr)\<rparr>, []))"
    using Inr by (simp add: logs_Handle_def journal_param_def)
  have "paramRE ?p \<noteq> None" using logs_request_valid [OF Inr] unfolding paramRE_iff by blast
  show ?thesis
  proof (cases "JournalQuery fmt_micro w ?p")
    case (Inl e)
    with \<open>paramRE ?p \<noteq> None\<close> obtain out argv where "Run w argv = (out, Some e)"
      by (auto simp: JournalQuery_def split: prod.splits option.splits)
    then show ?thesis
      unfolding h Inl using Run_code by (fastforce simp: remote_def Let_def proto_code_defs)
  next
    case (Inr hr)
    then have "journal_inv hr" by (rule JournalQuery_inv)
    then show ?thesis
      unfolding h Inr using redacted_tokens by (auto simp: remote_def journal_inv_def list_all_iff)
  qed
qed

end
