(* ===== verification/OpsFirewall.thy ===== *)
theory OpsFirewall
  imports FirewallLookup "HOL-Library.Product_Lexorder" "HOL-Library.Multiset"
begin

text \<open>
  \<^verbatim>\<open>firewall.go\<close>: the inspection of the nftables ruleset. One pass over the document fills tables,
  chains and sets; then the ban counts and, when asked for, the elements of the sets. The theorems
  bound what is sent inline, and show that a table filter only narrows the answer.
\<close>

subsection \<open>Bounds\<close>

definition firewallSetListCap :: nat where
  "firewallSetListCap = 16 * 1024 * 1024"

definition firewallHardElemCap :: int where
  "firewallHardElemCap = 24000"

definition firewallElemBudget :: int where
  "firewallElemBudget = 24000"

definition firewallHardRuleTextCap :: int where
  "firewallHardRuleTextCap = 1024 * 1024"

definition firewallRuleTextDefault :: int where
  "firewallRuleTextDefault = 65536"

definition clampRuleTextBytes :: "int \<Rightarrow> int" where
  "clampRuleTextBytes v =
     (if v \<le> 0 then firewallRuleTextDefault
      else if firewallHardRuleTextCap < v then firewallHardRuleTextCap
      else v)"

subsection \<open>Request and result\<close>

record BanSet =
  bs_Family :: bytes
  bs_Table :: bytes
  bs_Name :: bytes
  bs_Source :: bytes

record FirewallReq =
  fq_Mode :: bytes
  fq_TableFilter :: bytes
  fq_IncludeSetElements :: bool
  fq_DetailModeAllowed :: bool
  fq_BanSets :: "BanSet list"
  fq_MaxSetElements :: int
  fq_MaxRuleTextBytes :: int

record FirewallTableMeta =
  tm_Family :: bytes
  tm_Name :: bytes
  tm_ChainCount :: int
  tm_SetCount :: int
  tm_MapCount :: int
  tm_RuleCount :: int

record FirewallChain =
  ch_Family :: bytes
  ch_Table :: bytes
  ch_Name :: bytes
  ch_Type :: bytes
  ch_Hook :: bytes
  ch_Prio :: "int option"
  ch_Policy :: bytes
  ch_RuleCount :: int
  ch_Rules :: "FirewallRule list"

record FirewallSet =
  fs_Family :: bytes
  fs_Table :: bytes
  fs_Name :: bytes
  fs_Type :: bytes
  fs_Flags :: "bytes list"
  fs_SizeLimit :: int
  fs_ElementCount :: int
  fs_Elements :: "FirewallSetElem list"
  fs_ElementsTruncated :: bool
  fs_IsMap :: bool

record FirewallBanSetStat =
  st_Set :: bytes
  st_Count :: int
  st_Source :: bytes

record FirewallBans =
  fb_TotalActiveV4 :: int
  fb_TotalActiveV6 :: int
  fb_BySet :: "FirewallBanSetStat list"

record FirewallResult =
  fw_Backend :: bytes
  fw_NftVersion :: bytes
  fw_RulesetHashSHA256 :: bytes
  fw_Tables :: "FirewallTableMeta list"
  fw_Chains :: "FirewallChain list"
  fw_Sets :: "FirewallSet list"
  fw_Bans :: FirewallBans
  fw_Warnings :: "bytes list"

definition zero_ban_set :: BanSet where
  "zero_ban_set = \<lparr>bs_Family = [], bs_Table = [], bs_Name = [], bs_Source = []\<rparr>"

definition dec_ban_set :: "BanSet decoder" where
  "dec_ban_set old s = do {
     ms \<leftarrow> dec_struct s;
     family \<leftarrow> dec_field dec_string (bs_Family old) ms ''family'';
     table \<leftarrow> dec_field dec_string (bs_Table old) ms ''table'';
     name \<leftarrow> dec_field dec_string (bs_Name old) ms ''name'';
     source \<leftarrow> dec_field dec_string (bs_Source old) ms ''source'';
     Some \<lparr>bs_Family = family, bs_Table = table, bs_Name = name, bs_Source = source\<rparr> }"

definition zero_firewall_req :: FirewallReq where
  "zero_firewall_req = \<lparr>fq_Mode = [], fq_TableFilter = [], fq_IncludeSetElements = False, fq_DetailModeAllowed = False,
     fq_BanSets = [], fq_MaxSetElements = 0, fq_MaxRuleTextBytes = 0\<rparr>"

definition dec_firewall_req :: "bytes \<Rightarrow> FirewallReq option" where
  "dec_firewall_req s = do {
     ms \<leftarrow> dec_struct s;
     mode \<leftarrow> dec_field dec_string [] ms ''mode'';
     flt \<leftarrow> dec_field dec_string [] ms ''table_filter'';
     inc \<leftarrow> dec_field dec_bool False ms ''include_set_elements'';
     det \<leftarrow> dec_field dec_bool False ms ''detail_mode_allowed'';
     bans \<leftarrow> dec_field (dec_slice dec_ban_set zero_ban_set) None ms ''ban_sets'';
     me \<leftarrow> dec_field dec_int 0 ms ''max_set_elements'';
     mr \<leftarrow> dec_field dec_int 0 ms ''max_rule_text_bytes'';
     Some \<lparr>fq_Mode = mode, fq_TableFilter = flt, fq_IncludeSetElements = inc, fq_DetailModeAllowed = det,
       fq_BanSets = elems bans, fq_MaxSetElements = me, fq_MaxRuleTextBytes = mr\<rparr> }"

text \<open>The request with its limits in force.\<close>

definition clamp_req :: "FirewallReq \<Rightarrow> FirewallReq" where
  "clamp_req req =
     (let me = (if fq_MaxSetElements req \<le> 0 then 2000 else fq_MaxSetElements req)
      in req\<lparr>fq_MaxRuleTextBytes := clampRuleTextBytes (fq_MaxRuleTextBytes req),
             fq_MaxSetElements := (if firewallHardElemCap < me then firewallHardElemCap else me)\<rparr>)"

subsection \<open>The walk\<close>

text \<open>The filter: the part before the first slash and the part after it; both are needed.\<close>

definition parse_filter :: "bytes \<Rightarrow> unit + (bytes \<times> bytes) option" where
  "parse_filter s =
     (if s = [] then Inr None
      else case index_byte s CHR ''/'' of
        None \<Rightarrow> Inl ()
      | Some i \<Rightarrow> if take i s = [] \<or> drop (Suc i) s = [] then Inl () else Inr (Some (take i s, drop (Suc i) s)))"

definition keep :: "(bytes \<times> bytes) option \<Rightarrow> bytes \<Rightarrow> bytes \<Rightarrow> bool" where
  "keep flt family name = (case flt of None \<Rightarrow> True | Some (f, n) \<Rightarrow> f = family \<and> n = name)"

definition table_key :: "bytes \<Rightarrow> bytes \<Rightarrow> bytes" where
  "table_key family name = family @ ''/'' @ name"

text \<open>
  Tables by key, chains by the key of their table and their name, sets by key: the last entry
  with a key replaces an earlier one.
\<close>

record walk_state =
  ws_tables :: "(bytes \<times> FirewallTableMeta) list"
  ws_chains :: "((bytes \<times> bytes) \<times> FirewallChain) list"
  ws_sets :: "(bytes \<times> FirewallSet) list"

definition bump_table :: "bytes \<Rightarrow> (FirewallTableMeta \<Rightarrow> FirewallTableMeta) \<Rightarrow> walk_state \<Rightarrow> walk_state" where
  "bump_table key f ws =
     (case map_of (ws_tables ws) key of
        None \<Rightarrow> ws
      | Some tm \<Rightarrow> ws\<lparr>ws_tables := AList.update key (f tm) (ws_tables ws)\<rparr>)"

definition visit_table :: "fwNftTable \<Rightarrow> walk_state \<Rightarrow> walk_state" where
  "visit_table t ws =
     ws\<lparr>ws_tables := AList.update (table_key (nt_Family t) (nt_Name t))
          \<lparr>tm_Family = nt_Family t, tm_Name = nt_Name t, tm_ChainCount = 0, tm_SetCount = 0, tm_MapCount = 0, tm_RuleCount = 0\<rparr>
          (ws_tables ws)\<rparr>"

definition visit_chain :: "fwNftChain \<Rightarrow> walk_state \<Rightarrow> walk_state" where
  "visit_chain c ws =
     (let key = table_key (nh_Family c) (nh_Table c);
          chain = \<lparr>ch_Family = nh_Family c, ch_Table = nh_Table c, ch_Name = nh_Name c, ch_Type = nh_Type c,
                   ch_Hook = nh_Hook c, ch_Prio = nh_Prio c, ch_Policy = nh_Policy c, ch_RuleCount = 0, ch_Rules = []\<rparr>
      in bump_table key (\<lambda>tm. tm\<lparr>tm_ChainCount := tm_ChainCount tm + 1\<rparr>)
           (ws\<lparr>ws_chains := AList.update (key, nh_Name c) chain (ws_chains ws)\<rparr>))"

definition add_rule :: "bool \<Rightarrow> int \<Rightarrow> fwNftRule \<Rightarrow> FirewallChain \<Rightarrow> FirewallChain" where
  "add_rule detail maxText r chain =
     chain\<lparr>ch_RuleCount := ch_RuleCount chain + 1,
           ch_Rules := (if detail \<and> int (length (ch_Rules chain)) * 128 < maxText
                        then ch_Rules chain @ [renderRule r] else ch_Rules chain)\<rparr>"

definition visit_rule :: "bool \<Rightarrow> int \<Rightarrow> fwNftRule \<Rightarrow> walk_state \<Rightarrow> walk_state" where
  "visit_rule detail maxText r ws0 =
     (let key = table_key (nr_Family r) (nr_Table r);
          ws = bump_table key (\<lambda>tm. tm\<lparr>tm_RuleCount := tm_RuleCount tm + 1\<rparr>) ws0
      in case map_of (ws_chains ws) (key, nr_Chain r) of
           None \<Rightarrow> ws
         | Some chain \<Rightarrow> ws\<lparr>ws_chains := AList.update (key, nr_Chain r) (add_rule detail maxText r chain) (ws_chains ws)\<rparr>)"

definition visit_set :: "bool \<Rightarrow> fwNftSet \<Rightarrow> walk_state \<Rightarrow> walk_state" where
  "visit_set isMap s ws =
     (let key = table_key (ns_Family s) (ns_Table s);
          meta = \<lparr>fs_Family = ns_Family s, fs_Table = ns_Table s, fs_Name = ns_Name s, fs_Type = stringifyType (ns_Type s),
                  fs_Flags = elems (ns_Flags s), fs_SizeLimit = ns_Size s, fs_ElementCount = int (length (elems (ns_Elem s))),
                  fs_Elements = [], fs_ElementsTruncated = False, fs_IsMap = isMap\<rparr>
      in bump_table key (\<lambda>tm. if isMap then tm\<lparr>tm_MapCount := tm_MapCount tm + 1\<rparr> else tm\<lparr>tm_SetCount := tm_SetCount tm + 1\<rparr>)
           (ws\<lparr>ws_sets := AList.update (key @ ''/'' @ ns_Name s) meta (ws_sets ws)\<rparr>))"

definition visit :: "(bytes \<times> bytes) option \<Rightarrow> bool \<Rightarrow> int \<Rightarrow> walk_state \<Rightarrow> fwNftEntry \<Rightarrow> walk_state" where
  "visit flt detail maxText ws e =
     (case ne_Table e of
        Some t \<Rightarrow> if keep flt (nt_Family t) (nt_Name t) then visit_table t ws else ws
      | None \<Rightarrow>
     (case ne_Chain e of
        Some c \<Rightarrow> if keep flt (nh_Family c) (nh_Table c) then visit_chain c ws else ws
      | None \<Rightarrow>
     (case ne_Rule e of
        Some r \<Rightarrow> if keep flt (nr_Family r) (nr_Table r) then visit_rule detail maxText r ws else ws
      | None \<Rightarrow>
     (case ne_Set e of
        Some s \<Rightarrow> if keep flt (ns_Family s) (ns_Table s) then visit_set False s ws else ws
      | None \<Rightarrow>
     (case ne_Map e of
        Some s \<Rightarrow> if keep flt (ns_Family s) (ns_Table s) then visit_set True s ws else ws
      | None \<Rightarrow> ws)))))"

definition walkNftRuleset :: "(walk_state \<Rightarrow> fwNftEntry \<Rightarrow> walk_state) \<Rightarrow> bytes \<Rightarrow> walk_state \<Rightarrow> walk_state option" where
  "walkNftRuleset f raw ws = (if raw = [] then Some ws else map_option (foldl f ws) (fwNftRoot raw))"

subsection \<open>Bans and elements\<close>

definition isV4Set :: "bytes \<Rightarrow> bool" where
  "isV4Set t = (if t = [] then False else ''ipv4_addr'' \<in> set (split_on CHR ''.'' [] t))"

definition isV6Set :: "bytes \<Rightarrow> bool" where
  "isV6Set t = (if t = [] then False else ''ipv6_addr'' \<in> set (split_on CHR ''.'' [] t))"

definition ban_key :: "BanSet \<Rightarrow> bytes" where
  "ban_key b = set_key (bs_Family b) (bs_Table b) (bs_Name b)"

definition ban_row :: "(bytes \<times> FirewallSet) list \<Rightarrow> FirewallBans \<times> bytes list \<Rightarrow> BanSet \<Rightarrow> FirewallBans \<times> bytes list" where
  "ban_row sets acc b =
     (let (bans, warnings) = acc; k = ban_key b
      in case map_of sets k of
           Some meta \<Rightarrow>
             (bans\<lparr>fb_TotalActiveV4 := fb_TotalActiveV4 bans + (if isV4Set (fs_Type meta) then fs_ElementCount meta else 0),
                   fb_TotalActiveV6 := fb_TotalActiveV6 bans + (if isV6Set (fs_Type meta) then fs_ElementCount meta else 0),
                   fb_BySet := fb_BySet bans @ [\<lparr>st_Set = k, st_Count = fs_ElementCount meta, st_Source = bs_Source b\<rparr>]\<rparr>,
              warnings)
         | None \<Rightarrow>
             (bans\<lparr>fb_BySet := fb_BySet bans @ [\<lparr>st_Set = k, st_Count = 0, st_Source = bs_Source b\<rparr>]\<rparr>,
              warnings @ [''firewall: ban_set '' @ k @ '' not present in live ruleset'']))"

definition ban_rows :: "(bytes \<times> FirewallSet) list \<Rightarrow> BanSet list \<Rightarrow> FirewallBans \<times> bytes list" where
  "ban_rows sets bs = foldl (ban_row sets) (\<lparr>fb_TotalActiveV4 = 0, fb_TotalActiveV6 = 0, fb_BySet = []\<rparr>, []) bs"

text \<open>The keys of the ban sets in the manifest's order, without repetition, then the others sorted.\<close>

definition orderSetKeys :: "(bytes \<times> FirewallSet) list \<Rightarrow> BanSet list \<Rightarrow> bytes list" where
  "orderSetKeys sets bs =
     (let front = rev (remdups (rev (filter (\<lambda>k. map_of sets k \<noteq> None) (map ban_key bs))))
      in front @ sort (filter (\<lambda>k. k \<notin> set front) (map fst sets)))"

definition errorCodeOf :: "exec_error \<Rightarrow> bytes" where
  "errorCodeOf e = (case e of Typed de \<Rightarrow> de_Code de | Plain m \<Rightarrow> CodeToolFailed)"

fun first_set_elems :: "fwNftEntry list \<Rightarrow> bytes list option" where
  "first_set_elems [] = None"
| "first_set_elems (e # es) =
     (case ne_Set e of
        Some s \<Rightarrow> Some (elems (ns_Elem s))
      | None \<Rightarrow> (case ne_Map e of Some s \<Rightarrow> Some (elems (ns_Elem s)) | None \<Rightarrow> first_set_elems es))"

definition runNftListSet :: "world \<Rightarrow> bytes \<Rightarrow> bytes \<Rightarrow> bytes \<Rightarrow> int \<Rightarrow> exec_error + FirewallSetElem list \<times> int" where
  "runNftListSet w family table name cap =
     (case run_capped w firewallSetListCap [''nft'', ''-j'', ''list'', ''set'', family, table, name] of
        (out, truncated, Some e) \<Rightarrow> Inl e
      | (out, truncated, None) \<Rightarrow>
          (case fwNftRoot out of
             None \<Rightarrow> Inl (Plain (''parse nft set: '' @ wd_error w ''json.Unmarshal'' out))
           | Some es \<Rightarrow>
               (case first_set_elems es of
                  None \<Rightarrow> Inr ([], 0)
                | Some raws \<Rightarrow> Inr (renderElements raws cap, int (length raws)))))"

record fetch_state =
  ft_sets :: "(bytes \<times> FirewallSet) list"
  ft_remaining :: int
  ft_warnings :: "bytes list"

definition fetch_one :: "world \<Rightarrow> int \<Rightarrow> fetch_state \<Rightarrow> bytes \<Rightarrow> fetch_state" where
  "fetch_one w maxElems st k =
     (case map_of (ft_sets st) k of
        None \<Rightarrow> st
      | Some meta \<Rightarrow>
          (let cap = (if ft_remaining st < maxElems then ft_remaining st else maxElems)
           in if cap \<le> 0 then st\<lparr>ft_sets := AList.update k (meta\<lparr>fs_ElementsTruncated := True\<rparr>) (ft_sets st)\<rparr>
              else case runNftListSet w (fs_Family meta) (fs_Table meta) (fs_Name meta) cap of
                Inl e \<Rightarrow> st\<lparr>ft_warnings := ft_warnings st @ [''firewall: list set '' @ k @ '': '' @ errorCodeOf e]\<rparr>
              | Inr (es, n) \<Rightarrow>
                  st\<lparr>ft_sets := AList.update k
                       (meta\<lparr>fs_Elements := es, fs_ElementCount := n,
                             fs_ElementsTruncated := (if int (length es) < n then True else fs_ElementsTruncated meta)\<rparr>)
                       (ft_sets st),
                     ft_remaining := (if ft_remaining st - int (length es) \<le> 0 then 0 else ft_remaining st - int (length es))\<rparr>))"

definition fetch_elements :: "world \<Rightarrow> FirewallReq \<Rightarrow> (bytes \<times> FirewallSet) list \<Rightarrow> fetch_state" where
  "fetch_elements w req sets =
     (let st = \<lparr>ft_sets = sets, ft_remaining = firewallElemBudget, ft_warnings = []\<rparr>
      in if fq_IncludeSetElements req
         then foldl (fetch_one w (fq_MaxSetElements req)) st (orderSetKeys sets (fq_BanSets req))
         else st)"

subsection \<open>The op\<close>

definition runNftVersion :: "world \<Rightarrow> bytes option" where
  "runNftVersion w =
     (case Run w [''nft'', ''--version''] of
        (out, Some e) \<Rightarrow> None
      | (out, None) \<Rightarrow>
          (let line = trim_space (takeWhile (\<lambda>c. c \<noteq> CHR 0x0A) out)
           in case find (\<lambda>f. has_prefix f ''v'' \<and> 1 < length f) (Fields line) of
                Some f \<Rightarrow> Some (trim_prefix f ''v'')
              | None \<Rightarrow> Some line))"

definition sort_tables :: "FirewallTableMeta list \<Rightarrow> FirewallTableMeta list" where
  "sort_tables ts = sort_key (\<lambda>t. (tm_Family t, tm_Name t)) ts"

definition sort_chains :: "FirewallChain list \<Rightarrow> FirewallChain list" where
  "sort_chains cs = sort_key (\<lambda>c. (ch_Family c, ch_Table c, ch_Name c)) cs"

definition sort_sets :: "FirewallSet list \<Rightarrow> FirewallSet list" where
  "sort_sets ss = sort_key (\<lambda>s. (fs_Family s, fs_Table s, fs_Name s)) ss"

definition inspect_result :: "world \<Rightarrow> FirewallReq \<Rightarrow> bytes \<Rightarrow> bytes list \<Rightarrow> walk_state \<Rightarrow> FirewallResult" where
  "inspect_result w req raw warnings ws =
     (let (bans, bw) = ban_rows (ws_sets ws) (fq_BanSets req); st = fetch_elements w req (ws_sets ws)
      in \<lparr>fw_Backend = (if ws_tables ws = [] then ''none'' else ''nftables''),
          fw_NftVersion = (case runNftVersion w of Some v \<Rightarrow> v | None \<Rightarrow> []),
          fw_RulesetHashSHA256 = hexSum (wd_sha256 w) raw,
          fw_Tables = sort_tables (map snd (ws_tables ws)),
          fw_Chains = sort_chains (map snd (ws_chains ws)),
          fw_Sets = sort_sets (map snd (ft_sets st)),
          fw_Bans = bans,
          fw_Warnings = warnings @ bw @ ft_warnings st\<rparr>)"

lemma inspect_result_simps [simp]:
  "fw_Tables (inspect_result w req raw wn ws) = sort_tables (map snd (ws_tables ws))"
  "fw_Chains (inspect_result w req raw wn ws) = sort_chains (map snd (ws_chains ws))"
  "fw_Sets (inspect_result w req raw wn ws) = sort_sets (map snd (ft_sets (fetch_elements w req (ws_sets ws))))"
  "fw_Bans (inspect_result w req raw wn ws) = fst (ban_rows (ws_sets ws) (fq_BanSets req))"
  by (simp_all add: inspect_result_def Let_def split_beta)

definition no_nft_result :: FirewallResult where
  "no_nft_result = \<lparr>fw_Backend = ''none'', fw_NftVersion = [], fw_RulesetHashSHA256 = [], fw_Tables = [], fw_Chains = [],
     fw_Sets = [], fw_Bans = \<lparr>fb_TotalActiveV4 = 0, fb_TotalActiveV6 = 0, fb_BySet = []\<rparr>,
     fw_Warnings = [''firewall: nft not installed'']\<rparr>"

definition inspect_warnings :: "FirewallReq \<Rightarrow> bool \<Rightarrow> bytes list" where
  "inspect_warnings req truncated =
     (if truncated then [''firewall: nft list ruleset output exceeded '' @ itoa (int firewallRulesetCap) @
        '' bytes; parsing the prefix only''] else []) @
     (if fq_Mode req = ''detail'' \<and> \<not> fq_DetailModeAllowed req
      then [''firewall: detail mode disabled in manifest; returning summary metadata only''] else [])"

definition FirewallInspect :: "world \<Rightarrow> bytes \<Rightarrow> FirewallResult op_result" where
  "FirewallInspect w paramJSON =
     (case (if paramJSON = [] then Some zero_firewall_req else dec_firewall_req paramJSON) of
        None \<Rightarrow> Inl (op_error CodeBadParam (''firewall_inspect: param: '' @ wd_error w ''json.Unmarshal'' paramJSON))
      | Some req0 \<Rightarrow>
          (let req = clamp_req req0
           in case run_capped w firewallRulesetCap nft_list_ruleset of
                (raw, truncated, Some e) \<Rightarrow> if has_code e CodeToolMissing then Inr no_nft_result else Inl e
              | (raw, truncated, None) \<Rightarrow>
                  (case parse_filter (fq_TableFilter req) of
                     Inl _ \<Rightarrow> Inl (op_error CodeBadParam (''firewall_inspect: table_filter must be '' @ [CHR 0x22] @ ''<family>/<name>'' @ [CHR 0x22]))
                   | Inr flt \<Rightarrow>
                       (let detail = (fq_Mode req = ''detail'' \<and> fq_DetailModeAllowed req)
                        in case walkNftRuleset (visit flt detail (fq_MaxRuleTextBytes req)) raw
                                  \<lparr>ws_tables = [], ws_chains = [], ws_sets = []\<rparr> of
                             None \<Rightarrow> Inl (Typed (zero_dispatch_Error\<lparr>de_Code := CodeToolFailed,
                                 de_Message := ''firewall_inspect: parse nft -j: '' @ wd_error w ''json.Unmarshal'' raw,
                                 de_Argv := nft_list_ruleset\<rparr>))
                           | Some ws \<Rightarrow> Inr (inspect_result w req raw (inspect_warnings req truncated) ws)))))"

subsection \<open>What is sent inline is bounded\<close>

lemma sum_update:
  fixes f :: "'v \<Rightarrow> nat"
  assumes "map_of m k = Some v"
  shows "(\<Sum>x\<leftarrow>AList.update k v' m. f (snd x)) + f v = (\<Sum>x\<leftarrow>m. f (snd x)) + f v'"
  using assms by (induction m) (auto split: if_splits)

definition inline_elements :: "(bytes \<times> FirewallSet) list \<Rightarrow> nat" where
  "inline_elements m = (\<Sum>x\<leftarrow>m. length (fs_Elements (snd x)))"

lemma inline_update:
  "map_of m k = Some v \<Longrightarrow>
     inline_elements (AList.update k v' m) + length (fs_Elements v) = inline_elements m + length (fs_Elements v')"
  unfolding inline_elements_def by (rule sum_update)

lemma renderElements_length: "length (renderElements es cap) = (if cap \<le> 0 then 0 else min (length es) (nat cap))"
  by (simp add: renderElements_def)

lemma runNftListSet_length:
  "runNftListSet w f t n cap = Inr (es, k) \<Longrightarrow> 0 < cap \<Longrightarrow> int (length es) \<le> cap \<and> int (length es) \<le> k"
  by (auto simp: runNftListSet_def renderElements_length split: prod.splits option.splits)

definition fetch_inv :: "int \<Rightarrow> fetch_state \<Rightarrow> bool" where
  "fetch_inv m st \<longleftrightarrow> 0 \<le> ft_remaining st \<and> int (inline_elements (ft_sets st)) + ft_remaining st \<le> firewallElemBudget \<and>
     (\<forall>x \<in> set (ft_sets st). int (length (fs_Elements (snd x))) \<le> m)"

lemma update_values: "\<forall>x \<in> set m. P (snd x) \<Longrightarrow> P v \<Longrightarrow> \<forall>x \<in> set (AList.update k v m). P (snd x)"
  by (induction m) auto

lemma fetch_one_inv:
  assumes "0 \<le> m" and "fetch_inv m st"
  shows "fetch_inv m (fetch_one w m st k)"
proof (cases "map_of (ft_sets st) k")
  case None
  then show ?thesis using assms by (simp add: fetch_one_def)
next
  case (Some meta)
  let ?cap = "if ft_remaining st < m then ft_remaining st else m"
  have mem: "int (length (fs_Elements meta)) \<le> m" using map_of_SomeD [OF Some] assms(2) by (auto simp: fetch_inv_def)
  have upd: "fetch_inv m (st\<lparr>ft_sets := AList.update k v (ft_sets st), ft_remaining := r\<rparr>)"
    if "int (length (fs_Elements v)) \<le> m" "0 \<le> r"
      "r + int (length (fs_Elements v)) \<le> ft_remaining st + int (length (fs_Elements meta))" for v r
    using that inline_update [OF Some, of v] assms(2)
      update_values [of "ft_sets st" "\<lambda>s. int (length (fs_Elements s)) \<le> m" v k] by (simp add: fetch_inv_def)
  show ?thesis
  proof (cases "?cap \<le> 0")
    case True
    then show ?thesis
      using upd [of "meta\<lparr>fs_ElementsTruncated := True\<rparr>" "ft_remaining st"] Some mem assms by (simp add: fetch_one_def fetch_inv_def)
  next
    case False
    show ?thesis
    proof (cases "runNftListSet w (fs_Family meta) (fs_Table meta) (fs_Name meta) ?cap")
      case (Inl e)
      then show ?thesis using Some False assms by (simp add: fetch_one_def fetch_inv_def)
    next
      case (Inr p)
      then obtain es n where r: "runNftListSet w (fs_Family meta) (fs_Table meta) (fs_Name meta) ?cap = Inr (es, n)"
        by (cases p) auto
      have l: "int (length es) \<le> ?cap" using runNftListSet_length [OF r] False by auto
      let ?r = "if ft_remaining st - int (length es) \<le> 0 then 0 else ft_remaining st - int (length es)"
      have "?r + int (length es) \<le> ft_remaining st" "int (length es) \<le> m" "0 \<le> ?r" using l by (auto split: if_splits)
      then show ?thesis using r Some False
        upd [of "meta\<lparr>fs_Elements := es, fs_ElementCount := n,
             fs_ElementsTruncated := (if int (length es) < n then True else fs_ElementsTruncated meta)\<rparr>" ?r]
        by (simp add: fetch_one_def Let_def)
    qed
  qed
qed

lemma fetch_elements_inv:
  assumes "0 \<le> fq_MaxSetElements req" and "\<forall>x \<in> set sets. fs_Elements (snd x) = []"
  shows "fetch_inv (fq_MaxSetElements req) (fetch_elements w req sets)"
proof -
  have "inline_elements sets = 0" using assms(2) by (induction sets) (auto simp: inline_elements_def)
  then have i: "fetch_inv (fq_MaxSetElements req) \<lparr>ft_sets = sets, ft_remaining = firewallElemBudget, ft_warnings = []\<rparr>"
    using assms by (auto simp: fetch_inv_def firewallElemBudget_def)
  have "fetch_inv m (foldl (fetch_one w m) st ks)" if "0 \<le> m" "fetch_inv m st" for m st ks
    using that by (induction ks arbitrary: st) (auto intro: fetch_one_inv)
  with i assms(1) show ?thesis by (simp add: fetch_elements_def Let_def)
qed

text \<open>What the walk keeps: no elements, and rules within the text budget, none unless in detail.\<close>

definition chain_bounded :: "bool \<Rightarrow> int \<Rightarrow> FirewallChain \<Rightarrow> bool" where
  "chain_bounded detail m c \<longleftrightarrow>
     (if detail then int (length (ch_Rules c)) * 128 < m + 128 else ch_Rules c = []) \<and> int (length (ch_Rules c)) \<le> ch_RuleCount c"

definition walk_inv :: "bool \<Rightarrow> int \<Rightarrow> walk_state \<Rightarrow> bool" where
  "walk_inv detail m ws \<longleftrightarrow>
     (\<forall>x \<in> set (ws_sets ws). fs_Elements (snd x) = []) \<and> (\<forall>x \<in> set (ws_chains ws). chain_bounded detail m (snd x))"

lemma bump_table_simps [simp]:
  "ws_sets (bump_table key f ws) = ws_sets ws" "ws_chains (bump_table key f ws) = ws_chains ws"
  by (simp_all add: bump_table_def split: option.splits)

lemma walk_inv_chain:
  assumes "walk_inv detail m ws" and "chain_bounded detail m c"
  shows "walk_inv detail m (ws\<lparr>ws_chains := AList.update k c (ws_chains ws)\<rparr>)"
  using assms update_values [of "ws_chains ws" "chain_bounded detail m" c k] by (simp add: walk_inv_def)

lemma walk_inv_set:
  assumes "walk_inv detail m ws" and "fs_Elements s = []"
  shows "walk_inv detail m (ws\<lparr>ws_sets := AList.update k s (ws_sets ws)\<rparr>)"
  using assms update_values [of "ws_sets ws" "\<lambda>s. fs_Elements s = []" s k] by (simp add: walk_inv_def)

lemma add_rule_bounded: "chain_bounded detail m c \<Longrightarrow> 0 \<le> m \<Longrightarrow> chain_bounded detail m (add_rule detail m r c)"
  by (auto simp: chain_bounded_def add_rule_def)

lemma walk_inv_bump [simp]: "walk_inv detail m (bump_table key f ws) = walk_inv detail m ws"
  by (simp add: walk_inv_def)

lemma visit_inv:
  assumes "0 \<le> m" and "walk_inv detail m ws"
  shows "walk_inv detail m (visit flt detail m ws e)"
proof -
  have "walk_inv detail m (visit_rule detail m r ws)" for r
  proof (cases "map_of (ws_chains ws) (table_key (nr_Family r) (nr_Table r), nr_Chain r)")
    case None
    then show ?thesis using assms by (simp add: visit_rule_def Let_def)
  next
    case (Some c)
    have "chain_bounded detail m c" using assms(2) map_of_SomeD [OF Some] by (auto simp: walk_inv_def)
    then have "chain_bounded detail m (add_rule detail m r c)" using assms(1) by (rule add_rule_bounded)
    then show ?thesis using Some assms(2) walk_inv_chain [OF assms(2)] by (simp add: visit_rule_def Let_def walk_inv_def)
  qed
  moreover have "walk_inv detail m (visit_chain c ws)" for c
    using assms by (auto simp: visit_chain_def Let_def chain_bounded_def intro: walk_inv_chain)
  moreover have "walk_inv detail m (visit_set b s ws)" for b s
    using assms(2) by (simp add: visit_set_def Let_def walk_inv_set)
  moreover have "walk_inv detail m (visit_table t ws)" for t using assms(2) by (simp add: visit_table_def walk_inv_def)
  ultimately show ?thesis using assms(2) by (simp add: visit_def split: option.splits)
qed

lemma walk_all_inv: "0 \<le> m \<Longrightarrow> walk_inv detail m ws \<Longrightarrow> walk_inv detail m (foldl (visit flt detail m) ws es)"
  by (induction es arbitrary: ws) (auto intro: visit_inv)

lemma clamp_req_bounds:
  "0 < fq_MaxSetElements (clamp_req req)" "fq_MaxSetElements (clamp_req req) \<le> 24000"
  "0 < fq_MaxRuleTextBytes (clamp_req req)" "fq_MaxRuleTextBytes (clamp_req req) \<le> 1048576"
  by (auto simp: clamp_req_def clampRuleTextBytes_def firewallHardElemCap_def firewallRuleTextDefault_def
      firewallHardRuleTextCap_def Let_def)

text \<open>An inspection that succeeds either has no nft, or is the walk of a parsed document.\<close>

lemma FirewallInspect_cases:
  assumes "FirewallInspect w param = Inr res"
  obtains (no_nft) "res = no_nft_result"
  | (walked) req raw truncated flt es where
      "(if param = [] then Some zero_firewall_req else dec_firewall_req param) = Some req"
      "run_capped w firewallRulesetCap nft_list_ruleset = (raw, truncated, None)"
      "parse_filter (fq_TableFilter req) = Inr flt"
      "raw = [] \<and> es = [] \<or> raw \<noteq> [] \<and> fwNftRoot raw = Some es"
      "res = inspect_result w (clamp_req req) raw (inspect_warnings (clamp_req req) truncated)
         (foldl (visit flt (fq_Mode req = ''detail'' \<and> fq_DetailModeAllowed req) (fq_MaxRuleTextBytes (clamp_req req)))
            \<lparr>ws_tables = [], ws_chains = [], ws_sets = []\<rparr> es)"
proof -
  have same: "fq_TableFilter (clamp_req r) = fq_TableFilter r" "fq_Mode (clamp_req r) = fq_Mode r"
    "fq_DetailModeAllowed (clamp_req r) = fq_DetailModeAllowed r" for r
    by (simp_all add: clamp_req_def Let_def)
  obtain req where req: "(if param = [] then Some zero_firewall_req else dec_firewall_req param) = Some req"
    using assms by (auto simp: FirewallInspect_def split: option.splits)
  obtain raw truncated err where run: "run_capped w firewallRulesetCap nft_list_ruleset = (raw, truncated, err)"
    by (metis prod_cases3)
  show ?thesis
  proof (cases err)
    case (Some e)
    then show ?thesis using assms req run no_nft by (auto simp: FirewallInspect_def Let_def split: if_splits)
  next
    case None
    then obtain flt ws where flt: "parse_filter (fq_TableFilter req) = Inr flt"
      and ws: "walkNftRuleset (visit flt (fq_Mode req = ''detail'' \<and> fq_DetailModeAllowed req) (fq_MaxRuleTextBytes (clamp_req req))) raw
             \<lparr>ws_tables = [], ws_chains = [], ws_sets = []\<rparr> = Some ws"
      and res: "res = inspect_result w (clamp_req req) raw (inspect_warnings (clamp_req req) truncated) ws"
      using assms req run by (auto simp: FirewallInspect_def Let_def same split: sum.splits option.splits)
    show ?thesis
    proof (cases "raw = []")
      case True
      then show ?thesis using walked [of req raw truncated flt "[]"] req run None flt ws res by (auto simp: walkNftRuleset_def)
    next
      case False
      then obtain es where "fwNftRoot raw = Some es"
        "ws = foldl (visit flt (fq_Mode req = ''detail'' \<and> fq_DetailModeAllowed req) (fq_MaxRuleTextBytes (clamp_req req)))
            \<lparr>ws_tables = [], ws_chains = [], ws_sets = []\<rparr> es"
        using ws by (auto simp: walkNftRuleset_def)
      then show ?thesis using walked [of req raw truncated flt es] False req run None flt res by auto
    qed
  qed
qed

lemma sum_list_sort_key: "sum_list (map f (sort_key g xs)) = (sum_list (map f xs) :: nat)"
  by (metis mset_map mset_sort sum_mset_sum_list)

lemma inspect_bounded:
  assumes "FirewallInspect w param = Inr res"
    and "(if param = [] then Some zero_firewall_req else dec_firewall_req param) = Some req"
  shows "sum_list (map (\<lambda>s. length (fs_Elements s)) (fw_Sets res)) \<le> 24000 \<and>
    list_all (\<lambda>c. length (ch_Rules c) \<le>
      (if fq_Mode req = ''detail'' \<and> fq_DetailModeAllowed req then 8192 else 0)) (fw_Chains res)"
  using assms(1)
proof (cases rule: FirewallInspect_cases)
  case no_nft
  then show ?thesis by (simp add: no_nft_result_def)
next
  case (walked req' raw truncated flt es)
  then have q: "req' = req" using assms(2) by simp
  let ?d = "fq_Mode req = ''detail'' \<and> fq_DetailModeAllowed req" and ?m = "fq_MaxRuleTextBytes (clamp_req req)"
  let ?ws = "foldl (visit flt ?d ?m) \<lparr>ws_tables = [], ws_chains = [], ws_sets = []\<rparr> es"
  let ?st = "fetch_elements w (clamp_req req) (ws_sets ?ws)"
  have inv: "walk_inv ?d ?m ?ws" using clamp_req_bounds [of req] by (intro walk_all_inv) (auto simp: walk_inv_def)
  have "fetch_inv (fq_MaxSetElements (clamp_req req)) ?st"
    using inv clamp_req_bounds(1) [of req] by (intro fetch_elements_inv) (auto simp: walk_inv_def)
  then have "inline_elements (ft_sets ?st) \<le> 24000" by (auto simp: fetch_inv_def firewallElemBudget_def)
  moreover have "length (ch_Rules c) \<le> (if ?d then 8192 else 0)" if "chain_bounded ?d ?m c" for c
    using that clamp_req_bounds(4) [of req] by (auto simp: chain_bounded_def split: if_splits)
  moreover have "\<forall>x \<in> set (ws_chains ?ws). chain_bounded ?d ?m (snd x)" using inv by (simp add: walk_inv_def)
  ultimately show ?thesis
    unfolding walked(5) q by (simp add: sort_sets_def sort_chains_def sum_list_sort_key inline_elements_def comp_def list_all_iff)
qed

text \<open>
  C26: What an inspection sends inline is bounded whatever the ruleset, the manifest and the request:
  at most 24000 set elements in all, at most 8192 rules of a chain, and no rule at all
  unless the request asks for details and the manifest allows them.
\<close>

theorem firewall_inline_bounded:
  assumes "FirewallInspect w param = Inr res"
    and "(if param = [] then Some zero_firewall_req else dec_firewall_req param) = Some req"
  shows "sum_list (map (\<lambda>s. length (fs_Elements s)) (fw_Sets res)) \<le> 24000 \<and>
    list_all (\<lambda>c. length (ch_Rules c) \<le>
      (if fq_Mode req = ''detail'' \<and> fq_DetailModeAllowed req then 8192 else 0)) (fw_Chains res)"
  using assms by (rule inspect_bounded)

definition small_ruleset :: bytes where
  "small_ruleset = json_text ''{`nftables`:[{`table`:{`family`:`ip`,`name`:`f`}}]}''"

theorem firewall_inline_bounded_witness:
  "\<exists>res. FirewallInspect (sample_world small_ruleset) [] = Inr res \<and>
    sum_list (map (\<lambda>s. length (fs_Elements s)) (fw_Sets res)) \<le> 24000 \<and>
    list_all (\<lambda>c. length (ch_Rules c) \<le>
      (if fq_Mode zero_firewall_req = ''detail'' \<and> fq_DetailModeAllowed zero_firewall_req then 8192 else 0)) (fw_Chains res)"
proof -
  have "case FirewallInspect (sample_world small_ruleset) [] of Inl e \<Rightarrow> False | Inr res \<Rightarrow> True" by code_simp
  then obtain res where res: "FirewallInspect (sample_world small_ruleset) [] = Inr res" by (auto split: sum.splits)
  with firewall_inline_bounded [OF res, of zero_firewall_req] show ?thesis by auto
qed

subsection \<open>A filter narrows\<close>

lemma filter_update:
  "filter (\<lambda>x. P (fst x)) (AList.update k v m) =
     (if P k then AList.update k v (filter (\<lambda>x. P (fst x)) m) else filter (\<lambda>x. P (fst x)) m)"
  by (induction m) auto

lemma map_of_filter_key: "P k \<Longrightarrow> map_of (filter (\<lambda>x. P (fst x)) m) k = map_of m k"
  by (induction m) auto

text \<open>The part of a walk that is about the table with the given key.\<close>

definition restrict_walk :: "bytes \<Rightarrow> walk_state \<Rightarrow> walk_state" where
  "restrict_walk key ws =
     \<lparr>ws_tables = filter (\<lambda>x. fst x = key) (ws_tables ws),
      ws_chains = filter (\<lambda>x. fst (fst x) = key) (ws_chains ws),
      ws_sets = filter (\<lambda>x. has_prefix (fst x) (key @ ''/'')) (ws_sets ws)\<rparr>"

lemma restrict_bump:
  "restrict_walk K (bump_table key g ws) = (if key = K then bump_table key g (restrict_walk K ws) else restrict_walk K ws)"
  using map_of_filter_key [of "\<lambda>k. k = K" key "ws_tables ws"] filter_update [of "\<lambda>k. k = K" key _ "ws_tables ws"]
  by (auto simp: bump_table_def restrict_walk_def split: option.splits)

lemma restrict_visit_table:
  "restrict_walk K (visit_table t ws) =
     (if table_key (nt_Family t) (nt_Name t) = K then visit_table t (restrict_walk K ws) else restrict_walk K ws)"
  using filter_update [of "\<lambda>k. k = K" "table_key (nt_Family t) (nt_Name t)" _ "ws_tables ws"]
  by (simp add: visit_table_def restrict_walk_def)

lemma restrict_chains:
  "restrict_walk K (ws\<lparr>ws_chains := AList.update (key, n) c (ws_chains ws)\<rparr>) =
     (if key = K then (restrict_walk K ws)\<lparr>ws_chains := AList.update (key, n) c (ws_chains (restrict_walk K ws))\<rparr>
      else restrict_walk K ws)"
  using filter_update [of "\<lambda>k. fst k = K" "(key, n)" c "ws_chains ws"] by (simp add: restrict_walk_def)

lemma restrict_visit_chain:
  "restrict_walk K (visit_chain c ws) =
     (if table_key (nh_Family c) (nh_Table c) = K then visit_chain c (restrict_walk K ws) else restrict_walk K ws)"
  by (simp add: visit_chain_def Let_def restrict_bump restrict_chains)

lemma restrict_visit_rule:
  "restrict_walk K (visit_rule d m r ws) =
     (if table_key (nr_Family r) (nr_Table r) = K then visit_rule d m r (restrict_walk K ws) else restrict_walk K ws)"
proof -
  let ?k = "table_key (nr_Family r) (nr_Table r)"
  let ?b = "bump_table ?k (\<lambda>tm. tm\<lparr>tm_RuleCount := tm_RuleCount tm + 1\<rparr>)"
  have "map_of (ws_chains (restrict_walk K ws)) (?k, nr_Chain r) = (if ?k = K then map_of (ws_chains ws) (?k, nr_Chain r) else None)"
    using map_of_filter_key [of "\<lambda>k. fst k = K" "(?k, nr_Chain r)" "ws_chains ws"]
    by (auto simp: restrict_walk_def map_of_eq_None_iff)
  then show ?thesis
    using restrict_chains [where K = K and ws = "?b ws" and key = ?k and n = "nr_Chain r"]
    by (auto simp: visit_rule_def Let_def restrict_bump split: option.splits)
qed

lemma separator_inj: "c \<notin> set a \<Longrightarrow> c \<notin> set b \<Longrightarrow> a @ c # x = b @ c # y \<longleftrightarrow> a = b \<and> x = y"
proof (induction a arbitrary: b)
  case Nil
  then show ?case by (cases b) auto
next
  case (Cons d a)
  then show ?case by (cases b) auto
qed

lemma table_key_inj:
  assumes "CHR ''/'' \<notin> set f" "CHR ''/'' \<notin> set g"
  shows "table_key f n @ r = table_key g m @ r' \<longleftrightarrow> f = g \<and> n @ r = m @ r'"
  using separator_inj [OF assms, of "n @ r" "m @ r'"] by (simp add: table_key_def)

lemma set_prefix_iff:
  assumes "CHR ''/'' \<notin> set f" "CHR ''/'' \<notin> set g" "CHR ''/'' \<notin> set n" "CHR ''/'' \<notin> set m"
  shows "has_prefix (table_key f n @ ''/'' @ s) (table_key g m @ ''/'') \<longleftrightarrow> table_key f n = table_key g m"
  using table_key_inj [OF assms(1,2), of n "''/'' @ s" m] table_key_inj [OF assms(1,2), of n "[]" m "[]"]
    separator_inj [OF assms(3,4), of s] by (simp add: has_prefix_iff)

text \<open>Names of tables and families as nftables has them: without a slash.\<close>

definition plain_name :: "bytes \<Rightarrow> bool" where
  "plain_name s \<longleftrightarrow> CHR ''/'' \<notin> set s"

definition plain_entry :: "fwNftEntry \<Rightarrow> bool" where
  "plain_entry e \<longleftrightarrow>
     (case ne_Table e of None \<Rightarrow> True | Some t \<Rightarrow> plain_name (nt_Family t) \<and> plain_name (nt_Name t)) \<and>
     (case ne_Chain e of None \<Rightarrow> True | Some c \<Rightarrow> plain_name (nh_Family c) \<and> plain_name (nh_Table c)) \<and>
     (case ne_Rule e of None \<Rightarrow> True | Some r \<Rightarrow> plain_name (nr_Family r) \<and> plain_name (nr_Table r)) \<and>
     (case ne_Set e of None \<Rightarrow> True | Some s \<Rightarrow> plain_name (ns_Family s) \<and> plain_name (ns_Table s)) \<and>
     (case ne_Map e of None \<Rightarrow> True | Some s \<Rightarrow> plain_name (ns_Family s) \<and> plain_name (ns_Table s))"

lemma table_key_eq:
  "plain_name f \<Longrightarrow> plain_name g \<Longrightarrow> table_key f n = table_key g m \<longleftrightarrow> f = g \<and> n = m"
  using table_key_inj [of f g n "[]" m "[]"] by (simp add: plain_name_def)

lemma restrict_sets:
  "restrict_walk K (ws\<lparr>ws_sets := AList.update key s (ws_sets ws)\<rparr>) =
     (if has_prefix key (K @ ''/'') then (restrict_walk K ws)\<lparr>ws_sets := AList.update key s (ws_sets (restrict_walk K ws))\<rparr>
      else restrict_walk K ws)"
  using filter_update [of "\<lambda>k. has_prefix k (K @ ''/'')" key s "ws_sets ws"] by (simp add: restrict_walk_def)

lemma restrict_visit_set:
  assumes "plain_name (ns_Family s)" "plain_name (ns_Table s)" "plain_name f" "plain_name n"
  shows "restrict_walk (table_key f n) (visit_set b s ws) =
     (if table_key (ns_Family s) (ns_Table s) = table_key f n then visit_set b s (restrict_walk (table_key f n) ws)
      else restrict_walk (table_key f n) ws)"
  using set_prefix_iff [of "ns_Family s" f "ns_Table s" n "ns_Name s"] assms
  by (cases "table_key (ns_Family s) (ns_Table s) = table_key f n")
    (simp_all add: visit_set_def Let_def restrict_bump restrict_sets plain_name_def)

lemma keep_iff:
  "plain_name f \<Longrightarrow> plain_name g \<Longrightarrow> keep (Some (f, n)) g m \<longleftrightarrow> table_key g m = table_key f n"
  using table_key_eq [of g f m n] by (auto simp: keep_def)

lemma restrict_visit:
  assumes "plain_entry e" "plain_name f" "plain_name n"
  shows "visit (Some (f, n)) d m (restrict_walk (table_key f n) ws) e = restrict_walk (table_key f n) (visit None d m ws e)"
  using assms keep_iff [OF assms(2)]
  by (auto simp: visit_def plain_entry_def restrict_visit_table restrict_visit_chain restrict_visit_rule restrict_visit_set
      keep_def [of None] split: option.splits)

lemma restrict_walk_all:
  assumes "list_all plain_entry es" "plain_name f" "plain_name n"
  shows "foldl (visit (Some (f, n)) d m) (restrict_walk (table_key f n) ws) es =
    restrict_walk (table_key f n) (foldl (visit None d m) ws es)"
  using assms(1) by (induction es arbitrary: ws) (auto simp: restrict_visit assms(2,3))

text \<open>The keys of a walk are those of the values.\<close>

definition keyed_table :: "bytes \<Rightarrow> FirewallTableMeta \<Rightarrow> bool" where
  "keyed_table k t \<longleftrightarrow> k = table_key (tm_Family t) (tm_Name t) \<and> plain_name (tm_Family t)"

definition keyed_chain :: "bytes \<times> bytes \<Rightarrow> FirewallChain \<Rightarrow> bool" where
  "keyed_chain k c \<longleftrightarrow> fst k = table_key (ch_Family c) (ch_Table c) \<and> plain_name (ch_Family c)"

definition keyed_set :: "bytes \<Rightarrow> FirewallSet \<Rightarrow> bool" where
  "keyed_set k s \<longleftrightarrow> k = table_key (fs_Family s) (fs_Table s) @ ''/'' @ fs_Name s \<and> plain_name (fs_Family s) \<and> plain_name (fs_Table s)"

definition keyed_walk :: "walk_state \<Rightarrow> bool" where
  "keyed_walk ws \<longleftrightarrow> (\<forall>x \<in> set (ws_tables ws). keyed_table (fst x) (snd x)) \<and>
     (\<forall>x \<in> set (ws_chains ws). keyed_chain (fst x) (snd x)) \<and> (\<forall>x \<in> set (ws_sets ws). keyed_set (fst x) (snd x))"

lemma update_pairs:
  "\<forall>x \<in> set m. Q (fst x) (snd x) \<Longrightarrow> Q k v \<Longrightarrow> \<forall>x \<in> set (AList.update k v m). Q (fst x) (snd x)"
  by (induction m) auto

lemma keyed_update:
  assumes "keyed_walk ws"
  shows "keyed_table k t \<Longrightarrow> keyed_walk (ws\<lparr>ws_tables := AList.update k t (ws_tables ws)\<rparr>)"
    and "keyed_chain kc c \<Longrightarrow> keyed_walk (ws\<lparr>ws_chains := AList.update kc c (ws_chains ws)\<rparr>)"
    and "keyed_set k s \<Longrightarrow> keyed_walk (ws\<lparr>ws_sets := AList.update k s (ws_sets ws)\<rparr>)"
  using assms update_pairs [of "ws_tables ws" keyed_table k t] update_pairs [of "ws_chains ws" keyed_chain kc c]
    update_pairs [of "ws_sets ws" keyed_set k s]
  by (simp_all add: keyed_walk_def)

lemma keyed_bump:
  assumes "keyed_walk ws" and "\<And>t. tm_Family (g t) = tm_Family t" "\<And>t. tm_Name (g t) = tm_Name t"
  shows "keyed_walk (bump_table key g ws)"
proof (cases "map_of (ws_tables ws) key")
  case None
  then show ?thesis using assms(1) by (simp add: bump_table_def)
next
  case (Some t)
  then have "keyed_table key t" using assms(1) map_of_SomeD [OF Some] by (auto simp: keyed_walk_def)
  then show ?thesis using Some assms keyed_update(1) [OF assms(1), of key "g t"] by (simp add: bump_table_def keyed_table_def)
qed

lemma keyed_visit:
  assumes "keyed_walk ws" and "plain_entry e"
  shows "keyed_walk (visit None d m ws e)"
proof -
  have "keyed_walk (visit_rule d m r ws)" for r
  proof -
    let ?k = "table_key (nr_Family r) (nr_Table r)"
    let ?ws = "bump_table ?k (\<lambda>tm. tm\<lparr>tm_RuleCount := tm_RuleCount tm + 1\<rparr>) ws"
    have b: "keyed_walk ?ws" using assms(1) by (rule keyed_bump) simp_all
    have "keyed_chain (?k, nr_Chain r) (add_rule d m r c)" if "map_of (ws_chains ?ws) (?k, nr_Chain r) = Some c" for c
      using b map_of_SomeD [OF that] by (fastforce simp: keyed_walk_def keyed_chain_def add_rule_def)
    then show ?thesis using b keyed_update(2) [OF b] by (simp add: visit_rule_def Let_def split: option.splits)
  qed
  moreover have "keyed_walk (visit_table t ws)" if "plain_name (nt_Family t)" for t
    using that by (auto simp: visit_table_def keyed_table_def intro!: keyed_update(1) assms(1))
  moreover have "keyed_walk (visit_chain c ws)" if "plain_name (nh_Family c)" for c
    using that by (auto simp: visit_chain_def Let_def keyed_chain_def intro!: keyed_bump keyed_update(2) assms(1))
  moreover have "keyed_walk (visit_set b s ws)" if "plain_name (ns_Family s)" "plain_name (ns_Table s)" for b s
    using that by (auto simp: visit_set_def Let_def keyed_set_def intro!: keyed_bump keyed_update(3) assms(1))
  ultimately show ?thesis using assms by (auto simp: visit_def keep_def plain_entry_def split: option.splits)
qed

lemma keyed_walk_all: "keyed_walk ws \<Longrightarrow> list_all plain_entry es \<Longrightarrow> keyed_walk (foldl (visit None d m) ws es)"
  by (induction es arbitrary: ws) (auto simp: keyed_visit)

lemma keyed_set_prefix:
  assumes "keyed_set k s" and "plain_name f" "plain_name n"
  shows "has_prefix k (table_key f n @ ''/'') \<longleftrightarrow> fs_Family s = f \<and> fs_Table s = n"
  using assms set_prefix_iff [of "fs_Family s" f "fs_Table s" n "fs_Name s"] table_key_eq [of "fs_Family s" f "fs_Table s" n]
  by (simp add: keyed_set_def plain_name_def)

lemma restrict_values:
  assumes "keyed_walk ws" and "plain_name f" "plain_name n"
  shows "map snd (ws_tables (restrict_walk (table_key f n) ws)) = filter (\<lambda>t. tm_Family t = f \<and> tm_Name t = n) (map snd (ws_tables ws))"
    and "map snd (ws_chains (restrict_walk (table_key f n) ws)) = filter (\<lambda>c. ch_Family c = f \<and> ch_Table c = n) (map snd (ws_chains ws))"
    and "map snd (ws_sets (restrict_walk (table_key f n) ws)) = filter (\<lambda>s. fs_Family s = f \<and> fs_Table s = n) (map snd (ws_sets ws))"
  using assms keyed_set_prefix [OF _ assms(2,3)]
  by (auto simp: restrict_walk_def filter_map comp_def keyed_walk_def keyed_table_def keyed_chain_def table_key_eq
      intro!: arg_cong [where f = "map snd"] filter_cong)

lemma parse_filter_join: "plain_name f \<Longrightarrow> f \<noteq> [] \<Longrightarrow> n \<noteq> [] \<Longrightarrow> parse_filter (f @ ''/'' @ n) = Inr (Some (f, n))"
  using index_byte_append [of "CHR ''/''" f n] by (simp add: parse_filter_def plain_name_def)

lemma fwNftRoot_Nil: "fwNftRoot [] = None"
  by code_simp

lemma FirewallInspect_walk:
  assumes "p \<noteq> []" "dec_firewall_req p = Some req" "parse_filter (fq_TableFilter req) = Inr flt"
    and "run_capped w firewallRulesetCap nft_list_ruleset = (raw, truncated, None)" "fwNftRoot raw = Some es"
  shows "FirewallInspect w p = Inr (inspect_result w (clamp_req req) raw (inspect_warnings (clamp_req req) truncated)
     (foldl (visit flt (fq_Mode req = ''detail'' \<and> fq_DetailModeAllowed req) (fq_MaxRuleTextBytes (clamp_req req)))
        \<lparr>ws_tables = [], ws_chains = [], ws_sets = []\<rparr> es))"
proof -
  have "fq_TableFilter (clamp_req req) = fq_TableFilter req" "fq_Mode (clamp_req req) = fq_Mode req"
    "fq_DetailModeAllowed (clamp_req req) = fq_DetailModeAllowed req" by (simp_all add: clamp_req_def Let_def)
  moreover have "raw \<noteq> []" using assms(5) fwNftRoot_Nil by auto
  ultimately show ?thesis using assms by (simp add: FirewallInspect_def Let_def walkNftRuleset_def)
qed



text \<open>
  The budget for rule text counts 128 bytes for a rule however long it is: with a budget of one
  byte the first rule of a chain is still sent in full.
\<close>

lemma rule_text_not_measured:
  "ch_Rules (add_rule True 1 r (c\<lparr>ch_Rules := []\<rparr>)) = [renderRule r] \<and> fr_Expr (renderRule r) = marshal_raws (nr_Expr r)"
  by (simp add: add_rule_def renderRule_def)

subsection \<open>Bans\<close>

definition live_count :: "(bytes \<times> FirewallSet) list \<Rightarrow> BanSet \<Rightarrow> int" where
  "live_count sets b = (case map_of sets (ban_key b) of None \<Rightarrow> 0 | Some s \<Rightarrow> fs_ElementCount s)"

definition of_type :: "(bytes \<Rightarrow> bool) \<Rightarrow> (bytes \<times> FirewallSet) list \<Rightarrow> BanSet \<Rightarrow> bool" where
  "of_type P sets b = (case map_of sets (ban_key b) of None \<Rightarrow> False | Some s \<Rightarrow> P (fs_Type s))"

text \<open>
  The ban rows are the manifest's ban sets in its order, each with its live count, or with 0 and a
  warning when the ruleset has no such set; the totals add up the rows of each family.
\<close>

lemma ban_rows_spec:
  "ban_rows sets bs =
     (\<lparr>fb_TotalActiveV4 = (\<Sum>b\<leftarrow>filter (of_type isV4Set sets) bs. live_count sets b),
       fb_TotalActiveV6 = (\<Sum>b\<leftarrow>filter (of_type isV6Set sets) bs. live_count sets b),
       fb_BySet = map (\<lambda>b. \<lparr>st_Set = ban_key b, st_Count = live_count sets b, st_Source = bs_Source b\<rparr>) bs\<rparr>,
      map (\<lambda>b. ''firewall: ban_set '' @ ban_key b @ '' not present in live ruleset'')
        (filter (\<lambda>b. map_of sets (ban_key b) = None) bs))"
  by (induction bs rule: rev_induct)
    (auto simp: ban_rows_def ban_row_def Let_def live_count_def of_type_def split: option.splits)

end
