(* ===== verification/JsonEncode.thy ===== *)
theory JsonEncode
  imports JsonText Json
begin

text \<open>
  \<^verbatim>\<open>json.Marshal\<close>, and the proof that \<^verbatim>\<open>json.Unmarshal\<close> reads back what was written: the outermost
  layer of a written value is the value's, with its parts as written.
\<close>

subsection \<open>Strings\<close>

definition html_safe :: "char \<Rightarrow> bool" where
  "html_safe c \<longleftrightarrow> 32 \<le> (of_char c :: nat) \<and> (of_char c :: nat) < 128 \<and> c \<noteq> CHR 0x22 \<and> c \<noteq> CHR 0x5C \<and> c \<noteq> CHR ''<'' \<and>
     c \<noteq> CHR ''>'' \<and> c \<noteq> CHR ''&''"

text \<open>An ASCII byte inside a string.\<close>

definition quote_ascii :: "char \<Rightarrow> bytes" where
  "quote_ascii c =
     (if html_safe c then [c]
      else if c = CHR 0x22 \<or> c = CHR 0x5C then [CHR 0x5C, c]
      else if c = CHR 0x08 then [CHR 0x5C, CHR ''b'']
      else if c = CHR 0x0C then [CHR 0x5C, CHR ''f'']
      else if c = CHR 0x0A then [CHR 0x5C, CHR ''n'']
      else if c = CHR 0x0D then [CHR 0x5C, CHR ''r'']
      else if c = CHR 0x09 then [CHR 0x5C, CHR ''t'']
      else [CHR 0x5C, CHR ''u'', CHR ''0'', CHR ''0'', hex_lower (of_char c div 16), hex_lower (of_char c mod 16)])"

definition line_separator :: "bytes \<Rightarrow> bool" where
  "line_separator s \<longleftrightarrow> has_prefix s [CHR 0xE2, CHR 0x80, CHR 0xA8] \<or> has_prefix s [CHR 0xE2, CHR 0x80, CHR 0xA9]"

function quote_body :: "bytes \<Rightarrow> bytes" where
  "quote_body s =
     (case s of
        [] \<Rightarrow> []
      | c # s' \<Rightarrow>
          if (of_char c :: nat) < 128 then quote_ascii c @ quote_body s'
          else if rune_len s = 0 then [CHR 0x5C] @ ''ufffd'' @ quote_body s'
          else if line_separator s then
            [CHR 0x5C] @ ''u202'' @ [hex_lower (of_char (s ! 2) mod 16)] @ quote_body (drop 3 s)
          else take (rune_len s) s @ quote_body (drop (rune_len s) s))"
  by pat_completeness auto
termination
  by (relation "measure length") auto

declare quote_body.simps [simp del]

definition marshal_string :: "bytes \<Rightarrow> bytes" where
  "marshal_string s = [CHR 0x22] @ quote_body s @ [CHR 0x22]"

text \<open>A number keeps its text; the members of a struct are in the order of its fields.\<close>

fun marshal_json :: "json \<Rightarrow> bytes" where
  "marshal_json JNull = ''null''"
| "marshal_json (JBool b) = (if b then ''true'' else ''false'')"
| "marshal_json (JNum t) = t"
| "marshal_json (JStr s) = marshal_string s"
| "marshal_json (JArr vs) = ''['' @ join (map marshal_json vs) '','' @ '']''"
| "marshal_json (JObj ms) = ''{'' @ join (map (\<lambda>(k, v). marshal_string k @ '':'' @ marshal_json v) ms) '','' @ ''}''"

subsection \<open>Reading strings back\<close>

lemma ascii_escapes:
  "list_all (\<lambda>n. hex_val (''00'' @ [hex_lower (n div 16), hex_lower (n mod 16)]) = n \<and> encode_rune n = [char_of n] \<and>
     \<not> is_surrogate n \<and> list_all json_hex (''00'' @ [hex_lower (n div 16), hex_lower (n mod 16)])) [0..<128]"
  by code_simp

lemma rune_len_ascii: "(of_char c :: nat) < 128 \<Longrightarrow> rune_len (c # s) = 1"
  by (simp add: rune_need_def)

lemma unquote_ascii:
  assumes "(of_char c :: nat) < 128"
  shows "unquote (quote_ascii c @ t) = c # unquote t"
proof (cases "html_safe c")
  case True
  then show ?thesis using assms
    by (subst unquote.simps) (auto simp: quote_ascii_def html_safe_def rune_len_ascii simp del: rune_len.simps)
next
  case False
  have n: "hex_val (''00'' @ [hex_lower (of_char c div 16), hex_lower (of_char c mod 16)]) = of_char c"
    "encode_rune (of_char c) = [c]" "\<not> is_surrogate (of_char c)"
    using ascii_escapes assms by (auto simp: list_all_iff dest!: bspec [of _ _ "of_char c"])
  show ?thesis
    using False n by (subst unquote.simps) (auto simp: quote_ascii_def escape_char_def Let_def)
qed

lemma unquote_rune:
  assumes "rune_len (c # w @ t) = n" and "length w + 1 = n" and "c \<noteq> CHR 0x5C"
  shows "unquote (c # w @ t) = c # w @ unquote t"
proof -
  have "take n (c # w @ t) = c # w" "drop n (c # w @ t) = t" using assms(2) drop_rune [of w n c t] by auto
  then show ?thesis using assms by (subst unquote.simps) (simp del: rune_len.simps)
qed

text \<open>
  A string that is UTF-8 splits into runes: an ASCII byte, or a lead byte and continuation bytes.
\<close>

lemma quote_induct [consumes 1, case_names Nil ascii rune]:
  assumes "utf8_valid s" and "P []"
    and "\<And>c s. (of_char c :: nat) < 128 \<Longrightarrow> utf8_valid s \<Longrightarrow> P s \<Longrightarrow> P (c # s)"
    and "\<And>c w s. 128 \<le> (of_char c :: nat) \<Longrightarrow> list_all cont_byte w \<Longrightarrow> (\<And>t. rune_len (c # w @ t) = length w + 1) \<Longrightarrow>
      utf8_valid s \<Longrightarrow> P s \<Longrightarrow> P (c # w @ s)"
  shows "P s"
  using assms(1)
proof (induction "length s" arbitrary: s rule: less_induct)
  case less
  show ?case
  proof (cases s)
    case Nil
    then show ?thesis using assms(2) by simp
  next
    case (Cons c s')
    have r: "rune_len s \<noteq> 0" "utf8_valid (drop (rune_len s) s)"
      using less.prems Cons utf8_valid.simps [of s] by (auto split: if_splits)
    obtain d w t where s: "s = d # w @ t" "length w + 1 = rune_len s" "list_all cont_byte w" "\<forall>u. rune_len (d # w @ u) = rune_len s"
      using rune_len_split [OF refl r(1)] by blast
    have t: "drop (rune_len s) s = t" using s(1,2) drop_rune [of w "rune_len s" d t] by metis
    have p: "utf8_valid t" "P t" using r(2) t less.hyps [of t] s(1) by auto
    show ?thesis
    proof (cases "(of_char d :: nat) < 128")
      case True
      then have "w = []" using s(1,2) rune_len_ascii [OF True, of "w @ t"] by (simp del: rune_len.simps)
      then show ?thesis using assms(3) [OF True p] s(1) by simp
    next
      case False
      have "P (d # w @ t)"
      proof (rule assms(4) [OF _ s(3) _ p])
        show "128 \<le> (of_char d :: nat)" using False by simp
        show "rune_len (d # w @ u) = length w + 1" for u using s(2,4) by metis
      qed
      then show ?thesis using s(1) by metis
    qed
  qed
qed

text \<open>How a rune outside ASCII is written: as it is, or escaped.\<close>

lemma quote_rune:
  assumes "128 \<le> (of_char c :: nat)" and "\<And>t. rune_len (c # w @ t) = length w + 1"
  shows "quote_body (c # w @ s) =
    (if line_separator (c # w @ s) then [CHR 0x5C] @ ''u202'' @ [hex_lower (of_char (w ! 1) mod 16)] @ quote_body s
     else c # w @ quote_body s)"
proof -
  have d: "take (length w + 1) (c # w @ s) = c # w" "drop (length w + 1) (c # w @ s) = s" by auto
  have l: "line_separator (c # w @ s) \<Longrightarrow> length w = 2"
    using assms(2) [of s] by (auto simp: line_separator_def has_prefix_iff rune_need_def split: if_splits)
  have "quote_body (c # w @ s) =
      (if line_separator (c # w @ s) then [CHR 0x5C] @ ''u202'' @ [hex_lower (of_char ((c # w @ s) ! 2) mod 16)] @ quote_body (drop 3 (c # w @ s))
       else take (length w + 1) (c # w @ s) @ quote_body (drop (length w + 1) (c # w @ s)))"
    using assms by (subst quote_body.simps) (simp del: rune_len.simps)
  then show ?thesis using d l by (auto simp: nth_append numeral_2_eq_2 numeral_3_eq_3)
qed

lemma quote_ascii_Cons: "(of_char c :: nat) < 128 \<Longrightarrow> quote_body (c # s) = quote_ascii c @ quote_body s"
  by (subst quote_body.simps) simp

lemma quote_body_Nil [simp]: "quote_body [] = []"
  by (subst quote_body.simps) simp

lemma separator_rune:
  assumes "\<And>t. rune_len (c # w @ t) = length w + 1" and "line_separator (c # w @ s)"
  shows "c = CHR 0xE2 \<and> (w = [CHR 0x80, CHR 0xA8] \<or> w = [CHR 0x80, CHR 0xA9])"
proof -
  have "c = CHR 0xE2" using assms(2) by (auto simp: line_separator_def)
  moreover from this have l: "length w = 2" using assms(1) [of s] by (auto simp: rune_need_def split: if_splits)
  then obtain a b where w: "w = [a, b]" by (auto simp: numeral_2_eq_2 length_Suc_conv)
  ultimately show ?thesis using assms(2) by (auto simp: line_separator_def)
qed

text \<open>What is written is read back.\<close>

lemma unquote_quote: "utf8_valid s \<Longrightarrow> unquote (quote_body s) = s"
proof (induction rule: quote_induct)
  case Nil
  then show ?case by (subst unquote.simps) simp
next
  case (ascii c s)
  then show ?case by (simp add: quote_ascii_Cons unquote_ascii)
next
  case (rune c w s)
  have e: "hex_val ''2028'' = 0x2028" "hex_val ''2029'' = 0x2029" "encode_rune 0x2028 = [CHR 0xE2, CHR 0x80, CHR 0xA8]"
    "encode_rune 0x2029 = [CHR 0xE2, CHR 0x80, CHR 0xA9]" "\<not> is_surrogate 0x2028" "\<not> is_surrogate 0x2029"
    "hex_lower 8 = CHR ''8''" "hex_lower 9 = CHR ''9''" by code_simp+
  show ?case
  proof (cases "line_separator (c # w @ s)")
    case True
    with separator_rune [OF rune(3) True] show ?thesis using e rune.IH
      by (subst quote_rune [OF rune(1,3)]) (auto simp: unquote.simps [of "CHR 0x5C # _"] Let_def)
  next
    case False
    have "c \<noteq> CHR 0x5C" using rune(1) by auto
    then show ?thesis using False rune unquote_rune [OF rune(3) [of "quote_body s"]] by (simp add: quote_rune del: rune_len.simps)
  qed
qed

lemma scan_escape_u:
  "list_all json_hex [a, b, e, f] \<Longrightarrow>
     scan_all InString ps (CHR 0x5C # CHR ''u'' # a # b # e # f # t) = scan_all InString ps t"
  by (simp add: numeral_3_eq_3)

lemma scan_ascii:
  assumes "(of_char c :: nat) < 128"
  shows "scan_all InString ps (quote_ascii c @ t) = scan_all InString ps t"
proof -
  have "list_all json_hex (''00'' @ [hex_lower (of_char c div 16), hex_lower (of_char c mod 16)])"
    using ascii_escapes assms by (auto simp: list_all_iff dest!: bspec [of _ _ "of_char c"])
  then show ?thesis by (auto simp: quote_ascii_def html_safe_def numeral_3_eq_3)
qed

lemma scan_high: "list_all (\<lambda>c. 128 \<le> (of_char c :: nat)) w \<Longrightarrow> scan_all InString ps (w @ t) = scan_all InString ps t"
  by (induction w) auto

lemma cont_high: "list_all cont_byte w \<Longrightarrow> list_all (\<lambda>c. 128 \<le> (of_char c :: nat)) w"
  by (auto simp: list_all_iff cont_byte_def)

lemma scan_quote: "utf8_valid s \<Longrightarrow> scan_all InString ps (quote_body s @ CHR 0x22 # r) = scan_all EndValue ps r"
proof (induction rule: quote_induct)
  case (ascii c s)
  then show ?case by (simp add: quote_ascii_Cons scan_ascii)
next
  case (rune c w s)
  have h: "json_hex CHR ''2''" "json_hex CHR ''0''" "json_hex CHR ''8''" "json_hex CHR ''9''" "hex_lower 8 = CHR ''8''" "hex_lower 9 = CHR ''9''"
    by code_simp+
  show ?case
  proof (cases "line_separator (c # w @ s)")
    case True
    have q: "quote_body (c # w @ s) = [CHR 0x5C] @ ''u202'' @ [hex_lower (of_char (w ! 1) mod 16)] @ quote_body s"
      using True by (subst quote_rune [OF rune(1,3)]) simp
    have "hex_lower (of_char (w ! 1) mod 16) \<in> {CHR ''8'', CHR ''9''}" using separator_rune [OF rune(3) True] h by auto
    then have "json_hex (hex_lower (of_char (w ! 1) mod 16))" using h by auto
    then show ?thesis using h rune.IH unfolding q by (simp add: scan_escape_u del: scan_all.simps)
  next
    case False
    then show ?thesis using rune scan_high [of "c # w" ps "quote_body s @ CHR 0x22 # r"] cont_high [OF rune(2)]
      by (simp add: quote_rune del: rune_len.simps)
  qed
qed simp

lemma split_ascii:
  assumes "(of_char c :: nat) < 128"
  shows "top_split sep Quoted d cur (quote_ascii c @ t) = top_split sep Quoted d (rev (quote_ascii c) @ cur) t"
proof -
  have "list_all json_hex (''00'' @ [hex_lower (of_char c div 16), hex_lower (of_char c mod 16)])"
    using ascii_escapes assms by (auto simp: list_all_iff dest!: bspec [of _ _ "of_char c"])
  moreover have "\<not> json_hex CHR 0x22" "\<not> json_hex CHR 0x5C" by code_simp+
  ultimately have "hex_lower (of_char c div 16) \<notin> {CHR 0x22, CHR 0x5C}" "hex_lower (of_char c mod 16) \<notin> {CHR 0x22, CHR 0x5C}" by auto
  then show ?thesis by (auto simp: quote_ascii_def html_safe_def)
qed

lemma split_high:
  "list_all (\<lambda>c. 128 \<le> (of_char c :: nat)) w \<Longrightarrow> top_split sep Quoted d cur (w @ t) = top_split sep Quoted d (rev w @ cur) t"
  by (induction w arbitrary: cur) auto

lemma split_quote:
  "utf8_valid s \<Longrightarrow>
     top_split sep Quoted d cur (quote_body s @ CHR 0x22 # r) = top_split sep Outside d (CHR 0x22 # rev (quote_body s) @ cur) r"
proof (induction arbitrary: cur rule: quote_induct)
  case (ascii c s)
  then show ?case by (simp add: quote_ascii_Cons split_ascii)
next
  case (rune c w s)
  have h: "hex_lower 8 = CHR ''8''" "hex_lower 9 = CHR ''9''" by code_simp+
  show ?case
  proof (cases "line_separator (c # w @ s)")
    case True
    with separator_rune [OF rune(3) True] show ?thesis using h rune.IH
      by (subst (1 2) quote_rune [OF rune(1,3)]) auto
  next
    case False
    then show ?thesis using rune split_high [of "c # w" sep d cur "quote_body s @ CHR 0x22 # r"] cont_high [OF rune(2)]
      by (simp add: quote_rune del: rune_len.simps)
  qed
qed simp

subsection \<open>Reading values back\<close>

text \<open>
  The text of a value with the given nesting: the scanner accepts it where a value begins, and it is
  never split.
\<close>

definition passes :: "char \<Rightarrow> bytes \<Rightarrow> bool" where
  "passes sep s \<longleftrightarrow> (\<forall>d cur r. top_split sep Outside d cur (s @ r) = top_split sep Outside d (rev s @ cur) r)"

definition scanned :: "nat \<Rightarrow> bytes \<Rightarrow> bool" where
  "scanned k v \<longleftrightarrow> (\<forall>ps c r. length ps + k \<le> maxNestingDepth \<longrightarrow> c \<in> {CHR '','', CHR ''}'', CHR '']'', CHR '' ''} \<longrightarrow>
     scan_all BeginValue ps (v @ c # r) = scan_all EndValue ps (c # r))"

definition value_text :: "nat \<Rightarrow> bytes \<Rightarrow> bool" where
  "value_text k v \<longleftrightarrow> v \<noteq> [] \<and> \<not> json_space (hd v) \<and> \<not> json_space (last v) \<and> hd v \<noteq> CHR '']'' \<and> scanned k v \<and>
     passes CHR '','' v \<and> passes CHR '':'' v"

lemma passes_append: "passes sep s \<Longrightarrow> passes sep t \<Longrightarrow> passes sep (s @ t)"
  by (simp add: passes_def)

lemma passes_plain:
  "list_all (\<lambda>c. c \<noteq> sep \<and> c \<notin> {CHR 0x22, CHR ''{'', CHR ''}'', CHR ''['', CHR '']''}) s \<Longrightarrow> passes sep s"
  by (induction s) (auto simp: passes_def)

lemma passes_string: "utf8_valid s \<Longrightarrow> sep \<noteq> CHR 0x22 \<Longrightarrow> passes sep (marshal_string s)"
  by (simp add: passes_def marshal_string_def split_quote)

lemma join_Cons: "join (v # vs) sep = v @ (if vs = [] then [] else sep @ join vs sep)"
  by (cases vs) auto

text \<open>Inside a bracket nothing is split.\<close>

definition passes_deep :: "char \<Rightarrow> bytes \<Rightarrow> bool" where
  "passes_deep sep s \<longleftrightarrow> (\<forall>d cur r. top_split sep Outside (Suc d) cur (s @ r) = top_split sep Outside (Suc d) (rev s @ cur) r)"

lemma passes_deep_intros:
  "passes sep s \<Longrightarrow> passes_deep sep s"
  "passes_deep sep s \<Longrightarrow> passes_deep sep t \<Longrightarrow> passes_deep sep (s @ t)"
  "passes_deep sep []"
  "passes_deep sep '',''" "passes_deep sep '':''"
  by (auto simp: passes_def passes_deep_def)

lemma passes_deep_join: "\<forall>v \<in> set vs. passes_deep sep v \<Longrightarrow> passes_deep sep (join vs '','')"
proof (induction vs)
  case Nil
  then show ?case by (simp add: passes_deep_intros)
next
  case (Cons v vs)
  then have "passes_deep sep (v @ '','' @ join vs '','')" by (intro passes_deep_intros(2,4)) auto
  then show ?case using Cons by (auto simp: join_Cons simp del: join.simps)
qed

lemma passes_bracket:
  assumes "passes_deep sep s" and "sep \<noteq> CHR ''{''" "sep \<noteq> CHR ''[''"
  shows "passes sep (''{'' @ s @ ''}'')" "passes sep (''['' @ s @ '']'')"
  using assms by (auto simp: passes_def passes_deep_def)

text \<open>The pieces of a list are those that were joined.\<close>

lemma split_join:
  assumes "vs \<noteq> []" and "\<forall>v \<in> set vs. passes CHR '','' v"
  shows "top_split CHR '','' Outside 0 [] (join vs '','') = vs"
  using assms
proof (induction vs)
  case (Cons v vs)
  show ?case
  proof (cases "vs = []")
    case True
    then show ?thesis using Cons.prems(2) by (simp add: passes_def) (metis append_Nil2 rev_rev_ident top_split.simps(1))
  next
    case False
    have "top_split CHR '','' Outside 0 [] (v @ '','' @ join vs '','') = top_split CHR '','' Outside 0 (rev v) ('','' @ join vs '','')"
      using Cons.prems(2) by (simp add: passes_def)
    then show ?thesis using Cons False by (simp add: join_Cons)
  qed
qed simp

text \<open>The values with a text that reads back: whole numbers, strings of UTF-8, and nesting that the scanner follows.\<close>

definition digits_text :: "bytes \<Rightarrow> bool" where
  "digits_text ds \<longleftrightarrow> ds = ''0'' \<or> ds \<noteq> [] \<and> hd ds \<noteq> CHR ''0'' \<and> list_all json_digit ds"

definition number_text :: "bytes \<Rightarrow> bool" where
  "number_text t \<longleftrightarrow> digits_text t \<or> t \<noteq> [] \<and> hd t = CHR ''-'' \<and> digits_text (tl t)"

fun json_ok :: "json \<Rightarrow> bool" where
  "json_ok (JNum t) = number_text t"
| "json_ok (JStr s) = utf8_valid s"
| "json_ok (JArr vs) = list_all json_ok vs"
| "json_ok (JObj ms) = list_all (\<lambda>(k, v). utf8_valid k \<and> json_ok v) ms"
| "json_ok _ = True"

fun json_depth :: "json \<Rightarrow> nat" where
  "json_depth (JArr vs) = Suc (foldr (\<lambda>v. max (json_depth v)) vs 0)"
| "json_depth (JObj ms) = Suc (foldr (\<lambda>(k, v). max (json_depth v)) ms 0)"
| "json_depth _ = 0"

lemma number_text_itoa: "number_text (itoa i)"
proof -
  have "digits_text (show_nat n)" for n
  proof (cases "n = 0")
    case True
    then show ?thesis by (simp add: digits_text_def show_nat.simps digit_char_def char_of_zero)
  next
    case False
    then show ?thesis using show_nat_hd [of n] show_nat_digits [of _ n]
      by (auto simp: digits_text_def list_all_iff json_digit_def)
  qed
  then show ?thesis by (simp add: number_text_def itoa_def)
qed

subsubsection \<open>The scanner on lists\<close>

lemma scan_digits: "list_all json_digit ds \<Longrightarrow> scan_all Num1 ps (ds @ t) = scan_all Num1 ps t"
  by (induction ds) auto

lemma scan_elements:
  assumes "vs \<noteq> []" and "\<forall>v \<in> set vs. scanned k v" and "Suc (length ps) + k \<le> maxNestingDepth"
  shows "scan_all BeginValue (ArrayValue # ps) (join vs '','' @ CHR '']'' # r) = scan_all EndValue ps r"
  using assms
proof (induction vs)
  case (Cons v vs)
  have v: "scan_all BeginValue (ArrayValue # ps) (v @ c # s) = scan_all EndValue (ArrayValue # ps) (c # s)"
    if "c = CHR '','' \<or> c = CHR '']''" for c s
    using Cons.prems that by (auto simp: scanned_def)
  show ?case
  proof (cases "vs = []")
    case True
    then show ?thesis using v by (simp add: end_value_def json_space_def)
  next
    case False
    then show ?thesis using v Cons by (simp add: join_Cons end_value_def json_space_def del: join.simps)
  qed
qed simp

definition member_text :: "bytes \<Rightarrow> bytes \<Rightarrow> bytes" where
  "member_text k v = marshal_string k @ '':'' @ v"

lemma scan_member:
  assumes "utf8_valid k" and "scanned n v" and "Suc (length ps) + n \<le> maxNestingDepth" and "c = CHR '','' \<or> c = CHR ''}''"
  shows "scan_all BeginString (ObjectKey # ps) (member_text k v @ c # s) = scan_all EndValue (ObjectValue # ps) (c # s)"
  using assms by (auto simp: member_text_def marshal_string_def begin_string_def json_space_def scan_quote end_value_def scanned_def)

lemma scan_members:
  assumes "ms \<noteq> []" and "\<forall>(k, v) \<in> set ms. utf8_valid k \<and> scanned n v" and "Suc (length ps) + n \<le> maxNestingDepth"
  shows "scan_all BeginString (ObjectKey # ps) (join (map (\<lambda>(k, v). member_text k v) ms) '','' @ CHR ''}'' # r) = scan_all EndValue ps r"
  using assms
proof (induction ms)
  case (Cons m ms)
  obtain k v where m: "m = (k, v)" by (cases m)
  have v: "scan_all BeginString (ObjectKey # ps) (member_text k v @ c # s) = scan_all EndValue (ObjectValue # ps) (c # s)"
    if "c = CHR '','' \<or> c = CHR ''}''" for c s
    using Cons.prems that m by (intro scan_member) auto
  show ?case
  proof (cases "ms = []")
    case True
    then show ?thesis using v m by (simp add: end_value_def json_space_def)
  next
    case False
    then show ?thesis using v m Cons by (simp add: join_Cons end_value_def json_space_def del: join.simps)
  qed
qed simp

subsubsection \<open>Every value\<close>

lemma scanned_deeper: "scanned k v \<Longrightarrow> k \<le> n \<Longrightarrow> scanned n v"
  by (force simp: scanned_def)

lemma value_text_deeper: "value_text k v \<Longrightarrow> k \<le> n \<Longrightarrow> value_text n v"
  by (auto simp: value_text_def intro: scanned_deeper)

lemma digit_plain:
  assumes "json_digit c"
  shows "\<not> json_space c" "c \<notin> {CHR '','', CHR '':'', CHR 0x22, CHR ''{'', CHR ''}'', CHR ''['', CHR '']'', CHR ''-'', CHR ''t'', CHR ''f'', CHR ''n''}"
  using assms by (auto simp: json_digit_def json_space_def)

lemma scan_number_end:
  assumes "st \<in> {Num0, Num1}" and "c \<in> {CHR '','', CHR ''}'', CHR '']'', CHR '' ''}"
  shows "scan_all st ps (c # r) = scan_all EndValue ps (c # r)"
  using assms by (auto simp: json_digit_def)

lemma scan_digits_text:
  assumes "digits_text ds" and "st \<in> {BeginValue, Neg}" and "c \<in> {CHR '','', CHR ''}'', CHR '']'', CHR '' ''}"
  shows "scan_all st ps (ds @ c # r) = scan_all EndValue ps (c # r)"
proof (cases "ds = ''0''")
  case True
  then show ?thesis using assms scan_number_end [of Num0 c ps r]
    by (auto simp: begin_value_def json_space_def simp del: scan_all.simps(1))
next
  case False
  then obtain d ds' where ds: "ds = d # ds'" "json_digit d" "d \<noteq> CHR ''0''" "list_all json_digit ds'"
    using assms(1) by (cases ds) (auto simp: digits_text_def)
  have "scan_all st ps (ds @ c # r) = scan_all Num1 ps (ds' @ c # r)"
    using assms(2) ds digit_plain [OF ds(2)] by (auto simp: begin_value_def)
  then show ?thesis using assms(3) ds(4) scan_number_end [of Num1 c ps r] by (simp add: scan_digits)
qed

lemma number_plain: "number_text t \<Longrightarrow> c \<in> set t \<Longrightarrow> json_digit c \<or> c = CHR ''-''"
  by (cases t) (auto simp: number_text_def digits_text_def list_all_iff json_digit_def)

lemma value_text_number:
  assumes "number_text t"
  shows "value_text 0 t"
proof -
  have ne: "t \<noteq> []" using assms by (auto simp: number_text_def digits_text_def)
  have plain: "\<not> json_space c \<and> c \<notin> {CHR '','', CHR '':'', CHR 0x22, CHR ''{'', CHR ''}'', CHR ''['', CHR '']''}" if "c \<in> set t" for c
    using number_plain [OF assms that]
  proof
    assume "json_digit c"
    from digit_plain [OF this] show ?thesis by simp
  qed (simp add: json_space_def)
  have "scan_all BeginValue ps (t @ c # r) = scan_all EndValue ps (c # r)" if "c \<in> {CHR '','', CHR ''}'', CHR '']'', CHR '' ''}" for ps c r
  proof (cases "digits_text t")
    case True
    then show ?thesis using that scan_digits_text by simp
  next
    case False
    then obtain ds where "t = CHR ''-'' # ds" "digits_text ds" using assms by (cases t) (auto simp: number_text_def)
    then show ?thesis using that scan_digits_text [of ds Neg c ps r] by (simp add: begin_value_def json_space_def)
  qed
  then have "scanned 0 t" by (simp add: scanned_def)
  moreover have "passes sep t" if "sep = CHR '','' \<or> sep = CHR '':''" for sep
    using plain that by (intro passes_plain) (auto simp: list_all_iff)
  moreover have "hd t \<in> set t" "last t \<in> set t" using ne by auto
  ultimately show ?thesis using ne plain by (auto simp: value_text_def)
qed

lemma value_text_string: "utf8_valid s \<Longrightarrow> value_text 0 (marshal_string s)"
  using passes_string [of s] scan_quote [of s]
  by (auto simp: value_text_def scanned_def marshal_string_def begin_value_def json_space_def)

lemma value_text_word:
  assumes "w \<in> {''null'', ''true'', ''false''}"
  shows "value_text 0 w"
  using assms by (auto simp: value_text_def scanned_def begin_value_def json_space_def intro!: passes_plain)

lemma passes_value:
  assumes "value_text n v"
  shows "passes CHR '','' v" "passes CHR '':'' v"
  using assms by (auto simp: value_text_def)

lemma bracket_ends:
  "end_value (ArrayValue # ps) CHR '']'' = Some (EndValue, ps)" "end_value (ObjectValue # ps) CHR ''}'' = Some (EndValue, ps)"
  by (simp_all add: end_value_def json_space_def)

lemma value_text_array:
  assumes "\<forall>v \<in> set vs. value_text n v"
  shows "value_text (Suc n) (''['' @ join vs '','' @ '']'')"
proof -
  have deep: "passes sep (''['' @ join vs '','' @ '']'')" if "sep = CHR '','' \<or> sep = CHR '':''" for sep
    using that assms by (intro passes_bracket(2) passes_deep_join) (auto intro: passes_deep_intros(1) passes_value)
  have "scanned (Suc n) (''['' @ join vs '','' @ '']'')"
  proof (cases vs)
    case Nil
    then show ?thesis by (simp add: scanned_def begin_value_def push_def bracket_ends json_space_def)
  next
    case (Cons v ws)
    have v: "v \<noteq> []" "\<not> json_space (hd v)" "hd v \<noteq> CHR '']''" and sc: "\<forall>v \<in> set vs. scanned n v"
      using assms Cons by (auto simp: value_text_def)
    then obtain c cs where c: "v = c # cs" "\<not> json_space c" "c \<noteq> CHR '']''" by (cases v) auto
    have hd: "join vs '','' @ t = c # tl (join vs '','' @ t)" for t
      using Cons c(1) by (simp add: join_Cons del: join.simps)
    have "scan_all BeginValueOrEmpty ps (join vs '','' @ t) = scan_all BeginValue ps (join vs '','' @ t)" for ps t
      using c by (subst (1 2) hd) simp
    then have "scan_all BeginValue ps (''['' @ join vs '','' @ CHR '']'' # t) = scan_all EndValue ps t"
      if "length ps + Suc n \<le> maxNestingDepth" for ps t
      using that Cons sc scan_elements [of vs n ps t] by (simp add: begin_value_def push_def json_space_def del: join.simps)
    then show ?thesis by (simp add: scanned_def [of "Suc n"])
  qed
  then show ?thesis using deep by (simp add: value_text_def json_space_def)
qed

lemma value_text_object:
  assumes "\<forall>(k, v) \<in> set ms. utf8_valid k \<and> value_text n v"
  shows "value_text (Suc n) (''{'' @ join (map (\<lambda>(k, v). member_text k v) ms) '','' @ ''}'')"
proof -
  let ?vs = "map (\<lambda>(k, v). member_text k v) ms"
  have "passes_deep sep (member_text k v)" if "sep = CHR '','' \<or> sep = CHR '':''" "utf8_valid k" "value_text n v" for sep k v
    unfolding member_text_def using that
    by (intro passes_deep_intros(2,5)) (auto intro: passes_deep_intros(1) passes_value passes_string)
  then have deep: "passes sep (''{'' @ join ?vs '','' @ ''}'')" if "sep = CHR '','' \<or> sep = CHR '':''" for sep
    using that assms by (intro passes_bracket(1) passes_deep_join) fastforce+
  have "scanned (Suc n) (''{'' @ join ?vs '','' @ ''}'')"
  proof (cases ms)
    case Nil
    then show ?thesis by (simp add: scanned_def begin_value_def push_def bracket_ends json_space_def)
  next
    case (Cons m ms')
    have sc: "\<forall>(k, v) \<in> set ms. utf8_valid k \<and> scanned n v" using assms by (auto simp: value_text_def)
    have hd: "join ?vs '','' @ t = CHR 0x22 # tl (join ?vs '','' @ t)" for t
      using Cons by (cases m) (simp add: join_Cons member_text_def marshal_string_def del: join.simps)
    have "scan_all BeginStringOrEmpty ps (join ?vs '','' @ t) = scan_all BeginString ps (join ?vs '','' @ t)" for ps t
      by (subst (1 2) hd) (simp add: json_space_def)
    then have "scan_all BeginValue ps (''{'' @ join ?vs '','' @ CHR ''}'' # t) = scan_all EndValue ps t"
      if "length ps + Suc n \<le> maxNestingDepth" for ps t
      using that Cons sc scan_members [of ms n ps t] by (simp add: begin_value_def push_def json_space_def del: join.simps list.map)
    then show ?thesis by (simp add: scanned_def [of "Suc n"])
  qed
  then show ?thesis using deep by (simp add: value_text_def json_space_def)
qed

lemma depth_le:
  "v \<in> set vs \<Longrightarrow> json_depth v \<le> foldr (\<lambda>v. max (json_depth v)) vs 0"
  "(k, v) \<in> set ms \<Longrightarrow> json_depth v \<le> foldr (\<lambda>(k, v). max (json_depth v)) ms 0"
  by (induction vs, auto, induction ms, auto)

lemma marshal_object: "marshal_json (JObj ms) = ''{'' @ join (map (\<lambda>(k, v). member_text k v) (map (\<lambda>(k, v). (k, marshal_json v)) ms)) '','' @ ''}''"
  by (simp add: member_text_def comp_def case_prod_unfold)

lemma value_text_json: "json_ok v \<Longrightarrow> value_text (json_depth v) (marshal_json v)"
proof (induction v)
  case (JArr vs)
  have "value_text (foldr (\<lambda>v. max (json_depth v)) vs 0) (marshal_json v)" if "v \<in> set vs" for v
    using JArr that by (auto simp: list_all_iff intro!: value_text_deeper [OF _ depth_le(1)])
  then show ?case using value_text_array [of "map marshal_json vs"] by simp
next
  case (JObj ms)
  have "utf8_valid k \<and> value_text (foldr (\<lambda>(k, v). max (json_depth v)) ms 0) (marshal_json v)" if "(k, v) \<in> set ms" for k v
    using JObj that by (fastforce simp: list_all_iff intro!: value_text_deeper [OF _ depth_le(2)])
  then show ?case unfolding marshal_object json_depth.simps by (intro value_text_object) auto
qed (auto simp: value_text_number value_text_string value_text_word)

subsubsection \<open>One layer read back\<close>

fun view_of :: "json \<Rightarrow> json_view" where
  "view_of JNull = VNull"
| "view_of (JBool b) = VBool b"
| "view_of (JNum t) = VNum t"
| "view_of (JStr s) = VStr s"
| "view_of (JArr vs) = VArr (map marshal_json vs)"
| "view_of (JObj ms) = VObj (map (\<lambda>(k, v). (k, marshal_json v)) ms)"

lemma strip_id:
  assumes "v \<noteq> [] \<longrightarrow> \<not> json_space (hd v) \<and> \<not> json_space (last v)"
  shows "json_strip v = v"
proof (cases "v = []")
  case False
  have d: "dropWhile json_space w = w" if "w \<noteq> []" "\<not> json_space (hd w)" for w using that by (cases w) auto
  show ?thesis using False assms d [of v] d [of "rev v"] by (simp add: json_strip_def hd_rev)
qed (simp add: json_strip_def)

lemma strip_value: "value_text n v \<Longrightarrow> json_strip v = v"
  by (rule strip_id) (simp add: value_text_def)

lemma items_join:
  assumes "\<forall>v \<in> set vs. v \<noteq> [] \<and> json_strip v = v \<and> \<not> json_space (hd v) \<and> passes CHR '','' v"
  shows "json_items (join vs '','') = vs"
proof (cases vs)
  case Nil
  then show ?thesis by (simp add: json_items_def json_strip_def)
next
  case (Cons v ws)
  then obtain c cs where "v = c # cs" "\<not> json_space c" using assms by (cases v) auto
  then have "hd (join vs '','') = c" "join vs '','' \<noteq> []" using Cons by (simp_all add: join_Cons del: join.simps)
  then obtain w where "join vs '','' = c # w" by (metis list.collapse)
  then have "json_strip (join vs '','') \<noteq> []" using \<open>\<not> json_space c\<close>
    by (simp add: json_strip_def dropWhile_eq_Nil_conv)
  moreover have "map json_strip vs = vs" using assms by (intro map_idI) auto
  ultimately show ?thesis using Cons split_join [of vs] assms by (simp add: json_items_def del: join.simps)
qed

lemma inner_bracket: "inner (a # w @ [b]) = w"
  by (simp add: inner_def)

lemma member_text_read:
  assumes "utf8_valid k" "value_text n v"
  shows "json_member (member_text k v) = (k, v)" "json_strip (member_text k v) = member_text k v" "member_text k v \<noteq> []"
    "\<not> json_space (hd (member_text k v))" "passes CHR '','' (member_text k v)"
proof -
  have sp: "passes CHR '':'' (marshal_string k)" "passes CHR '':'' v" using assms passes_value passes_string by auto
  have "top_split CHR '':'' Outside 0 [] (member_text k v) = [marshal_string k, v]"
    using sp(1) [unfolded passes_def, rule_format, of 0 "[]" "'':'' @ v"] sp(2) [unfolded passes_def, rule_format, of 0 "[]" "[]"]
    by (simp add: member_text_def)
  moreover have "json_strip (marshal_string k) = marshal_string k" using assms(1) value_text_string strip_value by blast
  ultimately show "json_member (member_text k v) = (k, v)"
    using assms strip_value by (simp add: json_member_def marshal_string_def inner_bracket unquote_quote)
  have v: "v \<noteq> []" "\<not> json_space (last v)" using assms(2) by (auto simp: value_text_def)
  show "json_strip (member_text k v) = member_text k v"
    using v by (intro strip_id) (simp add: member_text_def marshal_string_def json_space_def)
  show "member_text k v \<noteq> []" "\<not> json_space (hd (member_text k v))"
    by (simp_all add: member_text_def marshal_string_def json_space_def)
  have "passes CHR '','' '':''" by (intro passes_plain) simp
  then show "passes CHR '','' (member_text k v)" using assms passes_value passes_string
    unfolding member_text_def by (intro passes_append) auto
qed

lemma value_text_valid: "value_text n v \<Longrightarrow> n \<le> maxNestingDepth \<Longrightarrow> json_valid v"
  by (simp add: value_text_def scanned_def json_valid_def end_value_def json_space_def)

lemma number_hd: "number_text t \<Longrightarrow> \<exists>c cs. t = c # cs \<and> c \<notin> {CHR ''{'', CHR ''['', CHR 0x22, CHR ''t'', CHR ''f'', CHR ''n''}"
proof -
  assume t: "number_text t"
  then obtain c cs where c: "t = c # cs" by (cases t) (auto simp: number_text_def digits_text_def)
  have "json_digit c \<or> c = CHR ''-''" using number_plain [OF t] c by simp
  then have "c \<notin> {CHR ''{'', CHR ''['', CHR 0x22, CHR ''t'', CHR ''f'', CHR ''n''}"
  proof
    assume "json_digit c"
    from digit_plain(2) [OF this] show ?thesis by simp
  qed simp
  with c show ?thesis by simp
qed

lemma view_object:
  "json_valid (CHR ''{'' # w @ ''}'') \<Longrightarrow> json_strip (CHR ''{'' # w @ ''}'') = CHR ''{'' # w @ ''}'' \<Longrightarrow>
     json_view (CHR ''{'' # w @ ''}'') = Some (VObj (map json_member (json_items w)))"
  by (simp add: json_view_def inner_bracket)

lemma view_marshal:
  assumes ok: "json_ok v" and depth: "json_depth v \<le> maxNestingDepth"
  shows "json_view (marshal_json v) = Some (view_of v)"
proof -
  note vt = value_text_json [OF ok]
  note basics = json_view_def value_text_valid [OF vt depth] strip_value [OF vt]
  show ?thesis
  proof (cases v)
    case (JNum t)
    then show ?thesis using basics number_hd [of t] ok by auto
  next
    case (JStr s)
    then show ?thesis using basics ok by (simp add: marshal_string_def inner_bracket unquote_quote)
  next
    case (JArr vs)
    have "\<forall>w \<in> set (map marshal_json vs). w \<noteq> [] \<and> json_strip w = w \<and> \<not> json_space (hd w) \<and> passes CHR '','' w"
      using ok JArr value_text_json strip_value by (fastforce simp: list_all_iff value_text_def)
    then show ?thesis using JArr basics items_join inner_bracket by simp
  next
    case (JObj ms)
    let ?ms = "map (\<lambda>(k, v). (k, marshal_json v)) ms"
    have m: "utf8_valid k \<and> value_text (json_depth v) (marshal_json v)" if "(k, v) \<in> set ms" for k v
      using ok JObj that value_text_json by (fastforce simp: list_all_iff)
    have "json_items (join (map (\<lambda>(k, v). member_text k v) ?ms) '','') = map (\<lambda>(k, v). member_text k v) ?ms"
      using m member_text_read by (intro items_join) fastforce
    moreover have "map json_member (map (\<lambda>(k, v). member_text k v) ?ms) = ?ms"
      using m member_text_read(1) by fastforce
    ultimately show ?thesis using JObj basics view_object [of "join (map (\<lambda>(k, v). member_text k v) ?ms) '',''"]
      marshal_object [of ms] by (simp del: marshal_json.simps)
  qed (use basics in \<open>auto simp: split: if_splits\<close>)
qed

end
