(* ===== verification/JsonCodec.thy ===== *)
theory JsonCodec
  imports JsonEncode "HOL-Library.Monad_Syntax"
begin

text \<open>
  Structs through \<^verbatim>\<open>encoding/json\<close>: writing a struct field by field with \<^verbatim>\<open>omitempty\<close>, and the lemmas by
  which a decoder reads each field back.
\<close>

subsection \<open>Writing\<close>

definition field :: "bytes \<Rightarrow> json \<Rightarrow> (bytes \<times> json) list" where
  "field k v = [(k, v)]"

text \<open>A field with \<^verbatim>\<open>omitempty\<close>: left out when it is empty.\<close>

definition omitempty :: "bool \<Rightarrow> bytes \<Rightarrow> json \<Rightarrow> (bytes \<times> json) list" where
  "omitempty e k v = (if e then [] else [(k, v)])"

definition json_int :: "int \<Rightarrow> json" where
  "json_int i = JNum (itoa i)"

text \<open>A slice; nil is written as \<^verbatim>\<open>null\<close>.\<close>

definition json_slice :: "('a \<Rightarrow> json) \<Rightarrow> 'a list option \<Rightarrow> json" where
  "json_slice enc xs = (case xs of None \<Rightarrow> JNull | Some ys \<Rightarrow> JArr (map enc ys))"

definition written :: "(bytes \<times> json) list \<Rightarrow> (bytes \<times> bytes) list" where
  "written ms = map (\<lambda>(k, v). (k, marshal_json v)) ms"

subsection \<open>What can be written\<close>

definition int64_ok :: "int \<Rightarrow> bool" where
  "int64_ok i \<longleftrightarrow> - (2 ^ 63) \<le> i \<and> i < 2 ^ 63"

definition fits :: "nat \<Rightarrow> json \<Rightarrow> bool" where
  "fits n v \<longleftrightarrow> json_ok v \<and> json_depth v \<le> n"

definition fields_fit :: "nat \<Rightarrow> (bytes \<times> json) list \<Rightarrow> bool" where
  "fields_fit n ms \<longleftrightarrow> (\<forall>(k, v) \<in> set ms. utf8_valid k \<and> fits n v)"

lemma depth_bound:
  "(\<forall>v \<in> set vs. json_depth v \<le> n) \<Longrightarrow> foldr (\<lambda>v. max (json_depth v)) vs 0 \<le> n"
  "(\<forall>(k, v) \<in> set ms. json_depth v \<le> n) \<Longrightarrow> foldr (\<lambda>(k, v). max (json_depth v)) ms 0 \<le> n"
  by (induction vs, auto, induction ms, auto)

lemma fits_simps [simp]:
  "fits n JNull" "fits n (JBool b)" "fits n (json_int i)" "fits n (JStr s) = utf8_valid s"
  by (simp_all add: fits_def json_int_def number_text_itoa)

lemma fits_object: "fields_fit n ms \<Longrightarrow> fits (Suc n) (JObj ms)"
  using depth_bound(2) [of ms n] by (fastforce simp: fits_def fields_fit_def list_all_iff)

lemma fits_array: "\<forall>v \<in> set vs. fits n v \<Longrightarrow> fits (Suc n) (JArr vs)"
  using depth_bound(1) [of vs n] by (auto simp: fits_def list_all_iff)

lemma fits_slice: "\<forall>x \<in> set (case xs of None \<Rightarrow> [] | Some ys \<Rightarrow> ys). fits n (enc x) \<Longrightarrow> fits (Suc n) (json_slice enc xs)"
  by (cases xs) (simp_all add: json_slice_def fits_array)

lemma fits_deeper: "fits n v \<Longrightarrow> n \<le> m \<Longrightarrow> fits m v"
  by (simp add: fits_def)

lemma fields_fit_simps [simp]:
  "fields_fit n []"
  "fields_fit n (a @ b) \<longleftrightarrow> fields_fit n a \<and> fields_fit n b"
  "fields_fit n (field k v) \<longleftrightarrow> utf8_valid k \<and> fits n v"
  "fields_fit n (omitempty e k v) \<longleftrightarrow> e \<or> utf8_valid k \<and> fits n v"
  by (auto simp: fields_fit_def field_def omitempty_def)

subsection \<open>Reading back\<close>

lemma view_fits: "fits n v \<Longrightarrow> n \<le> maxNestingDepth \<Longrightarrow> json_view (marshal_json v) = Some (view_of v)"
  by (simp add: fits_def view_marshal)

lemma dec_scalars [simp]:
  "utf8_valid s \<Longrightarrow> dec_string old (marshal_json (JStr s)) = Some s"
  "dec_bool was (marshal_json (JBool b)) = Some b"
  "int64_ok i \<Longrightarrow> dec_int had (marshal_json (json_int i)) = Some i"
  using view_fits [of 0 "JStr s"] view_fits [of 0 "JBool b"] view_fits [of 0 "json_int i"] atoi_itoa [of i]
  by (simp_all add: dec_string_def dec_bool_def dec_int_def int64_ok_def json_int_def number_text_itoa fits_def del: marshal_json.simps)

lemma dec_struct_written:
  "fits n (JObj ms) \<Longrightarrow> n \<le> maxNestingDepth \<Longrightarrow> dec_struct (marshal_json (JObj ms)) = Some (written ms)"
  using view_fits [of n "JObj ms"] by (simp add: dec_struct_def written_def del: marshal_json.simps)

lemma dec_all_written:
  "\<forall>x \<in> set xs. dec zero (marshal_json (enc x)) = Some x \<Longrightarrow> dec_all dec zero (map marshal_json (map enc xs)) = Some xs"
  by (induction xs) auto

lemma dec_slice_written:
  assumes "\<forall>x \<in> set (case xs of None \<Rightarrow> [] | Some ys \<Rightarrow> ys). dec zero (marshal_json (enc x)) = Some x"
    and "fits n (json_slice enc xs)" "n \<le> maxNestingDepth"
  shows "dec_slice dec zero old (marshal_json (json_slice enc xs)) = Some xs"
  using view_fits [OF assms(2,3)] assms(1) dec_all_written [of "the xs" dec zero enc]
  by (cases xs) (auto simp: dec_slice_def json_slice_def simp del: marshal_json.simps map_map)

lemma dec_ptr_written:
  assumes "dec zero (marshal_json v) = Some x" and "fits n v" "n \<le> maxNestingDepth" and "v \<noteq> JNull"
  shows "dec_ptr dec zero old (marshal_json v) = Some (Some x)"
  using view_fits [OF assms(2,3)] assms(1,4) by (cases v) (auto simp: dec_ptr_def simp del: marshal_json.simps)

lemma dec_field_stuck:
  "foldl (\<lambda>acc (k, v). if fold_name k = name then Option.bind acc (\<lambda>old. dec old v) else acc) None ms = None"
  by (induction ms) auto

lemma dec_field_append:
  "dec_field dec zero (a @ b) name = Option.bind (dec_field dec zero a name) (\<lambda>x. dec_field dec x b name)"
  by (cases "dec_field dec zero a name") (auto simp: dec_field_def dec_field_stuck)

text \<open>A name of a field reads back as itself when it has no upper-case letter and is ASCII.\<close>

definition plain_key :: "bytes \<Rightarrow> bool" where
  "plain_key k \<longleftrightarrow> list_all (\<lambda>c. (of_char c :: nat) < 65 \<or> 90 < (of_char c :: nat) \<and> (of_char c :: nat) < 128) k"

lemma fold_name_ascii:
  assumes "(of_char c :: nat) < 65 \<or> 90 < (of_char c :: nat) \<and> (of_char c :: nat) < 128"
  shows "fold_name (c # s) = c # fold_name s"
proof -
  obtain b0 b1 b2 b3 b4 b5 b6 b7 where c: "c = Char b0 b1 b2 b3 b4 b5 b6 b7" by (cases c)
  have b7: "\<not> b7" using assms by (cases b7) (simp_all add: c)
  have "\<not> (65 \<le> (of_char c :: nat) \<and> (of_char c :: nat) \<le> 90)" using assms by linarith
  then show ?thesis unfolding c using b7 by (simp only: fold_name.simps if_False) (simp split: bool.split)
qed

lemma fold_name_plain: "plain_key k \<Longrightarrow> fold_name k = k"
  by (induction k) (simp_all add: plain_key_def fold_name_ascii del: fold_name.simps(2))

lemma utf8_valid_plain: "plain_key k \<Longrightarrow> utf8_valid k"
proof (induction k)
  case (Cons c k)
  then have "(of_char c :: nat) < 128" "utf8_valid k" by (auto simp: plain_key_def)
  then show ?case by (subst utf8_valid.simps) (simp add: rune_len_ascii del: rune_len.simps)
qed simp

lemma dec_field_written [simp]:
  "dec_field dec zero [] name = Some zero"
  "dec_field dec zero (written []) name = Some zero"
  "dec_field dec zero (written (a @ b)) name = Option.bind (dec_field dec zero (written a) name) (\<lambda>x. dec_field dec x (written b) name)"
  "dec_field dec zero (written (field k v)) name = (if fold_name k = name then dec zero (marshal_json v) else Some zero)"
  "dec_field dec zero (written (omitempty e k v)) name = (if fold_name k = name \<and> \<not> e then dec zero (marshal_json v) else Some zero)"
  by (simp_all add: written_def dec_field_append) (simp_all add: dec_field_def field_def omitempty_def)

subsection \<open>Decoded strings are UTF-8\<close>

lemma utf8_valid_rune:
  assumes "rune_len s = length s" "s \<noteq> []"
  shows "utf8_valid s"
  using assms by (subst utf8_valid.simps) (simp del: rune_len.simps)

lemma utf8_valid_encode: "utf8_valid (encode_rune r)"
proof -
  have rep: "utf8_valid replacement" by code_simp
  consider "r < 0x80" | "0x80 \<le> r" "r < 0x800" | "0xD800 \<le> r \<and> r \<le> 0xDFFF \<or> 0x10FFFF < r"
    | "0x800 \<le> r" "r < 0x10000" "\<not> (0xD800 \<le> r \<and> r \<le> 0xDFFF)" | "0x10000 \<le> r" "r \<le> 0x10FFFF" by linarith
  then show ?thesis
  proof cases
    case 1
    then show ?thesis by (intro utf8_valid_rune) (simp_all add: encode_rune_def rune_need_def)
  next
    case 2
    then have "r div 64 < 32" "2 \<le> r div 64" "r mod 64 \<le> 63" by linarith+
    then show ?thesis using 2 by (intro utf8_valid_rune) (simp_all add: encode_rune_def rune_need_def cont_byte_def second_byte_ok_def)
  next
    case 3
    then show ?thesis using rep by (auto simp: encode_rune_def)
  next
    case 4
    moreover have "r div 64 mod 64 \<le> 31" if "r div 4096 = 13"
    proof -
      have "r div 64 div 64 = 13" using that by (simp add: div_mult2_eq [symmetric])
      moreover have "r div 64 = 64 * (r div 64 div 64) + r div 64 mod 64" by simp
      moreover have "r div 64 < 864" using that 4 by linarith
      ultimately show ?thesis by linarith
    qed
    ultimately show ?thesis by (intro utf8_valid_rune) (auto simp: encode_rune_def rune_need_def cont_byte_def second_byte_ok_def)
  next
    case 5
    moreover have "r div 4096 mod 64 \<le> 15" if "r div 262144 = 4"
    proof -
      have "r div 4096 div 64 = 4" using that by (simp add: div_mult2_eq [symmetric])
      moreover have "r div 4096 = 64 * (r div 4096 div 64) + r div 4096 mod 64" by simp
      moreover have "r div 4096 < 272" using that 5 by linarith
      ultimately show ?thesis by linarith
    qed
    ultimately show ?thesis by (intro utf8_valid_rune) (auto simp: encode_rune_def rune_need_def cont_byte_def second_byte_ok_def)
  qed
qed

lemma utf8_valid_first:
  assumes "rune_len s \<noteq> 0"
  shows "utf8_valid (take (rune_len s) s)"
proof -
  obtain c w r where s: "s = c # w @ r" "length w + 1 = rune_len s" "\<forall>t. rune_len (c # w @ t) = rune_len s"
    using rune_len_split [OF refl assms] by blast
  have "take (rune_len s) s = c # w" using s(1) s(2) [symmetric] by simp
  moreover have "rune_len (c # w) = length (c # w)" using s(2) s(3) [rule_format, of "[]"] by simp
  ultimately show ?thesis by (metis utf8_valid_rune list.distinct(1))
qed

lemma utf8_valid_escape: "utf8_valid (escape_char e)"
  by (simp add: escape_char_def utf8_valid_plain plain_key_def)

text \<open>A decoded string is UTF-8, whatever the text.\<close>

lemma utf8_valid_unquote: "utf8_valid (unquote s)"
proof (induction s rule: unquote.induct)
  case (1 s)
  have rep: "utf8_valid replacement" by code_simp
  show ?case
  proof (cases s)
    case Nil
    then show ?thesis by (subst unquote.simps) simp
  next
    case (Cons c t)
    consider "c = CHR 0x5C" "t = []" | e u where "c = CHR 0x5C" "t = e # u" | "c \<noteq> CHR 0x5C" by (cases t) auto
    then show ?thesis
    proof cases
      case 1
      then show ?thesis using Cons by (subst unquote.simps) simp
    next
      case (2 e u)
      then show ?thesis using Cons "1.IH"(1-4) [OF Cons 2] rep utf8_valid_encode utf8_valid_escape
        by (subst unquote.simps) (auto simp: Let_def intro!: utf8_valid_append)
    next
      case 3
      then show ?thesis using Cons "1.IH"(5,6) [OF Cons 3] rep utf8_valid_first [of s]
        by (subst unquote.simps) (auto intro!: utf8_valid_append simp del: rune_len.simps)
    qed
  qed
qed

text \<open>From here on a text is seen through its value only.\<close>

declare marshal_json.simps [simp del] fold_name.simps(2) [simp del]

text \<open>Fields with \<^verbatim>\<open>omitempty\<close> by type, and pointers.\<close>

definition omit_str :: "bytes \<Rightarrow> bytes \<Rightarrow> (bytes \<times> json) list" where
  "omit_str k s = omitempty (s = []) k (JStr s)"

definition omit_int :: "bytes \<Rightarrow> int \<Rightarrow> (bytes \<times> json) list" where
  "omit_int k i = omitempty (i = 0) k (json_int i)"

definition omit_bool :: "bytes \<Rightarrow> bool \<Rightarrow> (bytes \<times> json) list" where
  "omit_bool k b = omitempty (\<not> b) k (JBool b)"

definition omit_slice :: "('a \<Rightarrow> json) \<Rightarrow> bytes \<Rightarrow> 'a list \<Rightarrow> (bytes \<times> json) list" where
  "omit_slice enc k xs = omitempty (xs = []) k (json_slice enc (Some xs))"

definition omit_ptr :: "('a \<Rightarrow> json) \<Rightarrow> bytes \<Rightarrow> 'a option \<Rightarrow> (bytes \<times> json) list" where
  "omit_ptr enc k p = omitempty (p = None) k (case p of None \<Rightarrow> JNull | Some x \<Rightarrow> enc x)"

lemma skip_field [simp]:
  assumes "fold_name k \<noteq> name"
  shows "dec_field dec z (written (omit_str k s)) name = Some z" "dec_field dec z (written (omit_int k i)) name = Some z"
    "dec_field dec z (written (omit_bool k b)) name = Some z" "dec_field dec z (written (omit_slice enc k xs)) name = Some z"
    "dec_field dec z (written (omit_ptr enc k p)) name = Some z"
  using assms by (simp_all add: omit_str_def omit_int_def omit_bool_def omit_slice_def omit_ptr_def)

lemma read_field [simp]:
  assumes "fold_name k = name"
  shows "utf8_valid s \<Longrightarrow> dec_field dec_string [] (written (omit_str k s)) name = Some s"
    "int64_ok i \<Longrightarrow> dec_field dec_int 0 (written (omit_int k i)) name = Some i"
    "dec_field dec_bool False (written (omit_bool k b)) name = Some b"
  using assms by (simp_all add: omit_str_def omit_int_def omit_bool_def)

lemma fit_field [simp]:
  assumes "utf8_valid k"
  shows "utf8_valid s \<Longrightarrow> fields_fit n (omit_str k s)" "fields_fit n (omit_int k i)" "fields_fit n (omit_bool k b)"
  using assms by (simp_all add: omit_str_def omit_int_def omit_bool_def)

subsection \<open>Types on the wire\<close>

locale wire_type =
  fixes enc :: "'a \<Rightarrow> json" and dec :: "'a decoder" and zero :: 'a and wire_ok :: "'a \<Rightarrow> bool" and depth :: nat
  assumes fit: "wire_ok x \<Longrightarrow> fits depth (enc x)"
    and read_back: "wire_ok x \<Longrightarrow> dec zero (marshal_json (enc x)) = Some x"
    and not_null: "enc x \<noteq> JNull"
    and shallow: "depth < 100"
begin

lemma fit_in: "wire_ok x \<Longrightarrow> depth \<le> n \<Longrightarrow> fits n (enc x)"
  using fit fits_deeper by blast

lemma slice_fit: "list_all wire_ok xs \<Longrightarrow> Suc depth \<le> n \<Longrightarrow> fits n (json_slice enc (Some xs))"
  using fits_slice [of "Some xs" depth enc] by (auto simp: list_all_iff fit intro: fits_deeper)

lemma slice_read:
  "list_all wire_ok xs \<Longrightarrow> dec_slice dec zero old (marshal_json (json_slice enc (Some xs))) = Some (Some xs)"
  using slice_fit [of xs "Suc depth"] shallow
  by (intro dec_slice_written [where n = "Suc depth"]) (auto simp: list_all_iff read_back maxNestingDepth_def)

lemma ptr_read: "wire_ok x \<Longrightarrow> dec_ptr dec zero old (marshal_json (enc x)) = Some (Some x)"
  using fit shallow not_null by (intro dec_ptr_written [where n = depth]) (auto simp: read_back maxNestingDepth_def)

text \<open>A nil pointer, or an empty slice, that was left out stays nil.\<close>

lemma omitted_ptr:
  "fold_name k = name \<Longrightarrow> pred_option wire_ok p \<Longrightarrow> dec_field (dec_ptr dec zero) None (written (omit_ptr enc k p)) name = Some p"
  by (cases p) (simp_all add: omit_ptr_def ptr_read)

lemma omitted_slice:
  "fold_name k = name \<Longrightarrow> list_all wire_ok xs \<Longrightarrow>
     dec_field (dec_slice dec zero) None (written (omit_slice enc k xs)) name = Some (if xs = [] then None else Some xs)"
  by (simp add: omit_slice_def slice_read)

lemma omitted_fit:
  assumes "utf8_valid k"
  shows "pred_option wire_ok p \<Longrightarrow> depth \<le> n \<Longrightarrow> fields_fit n (omit_ptr enc k p)"
    "list_all wire_ok xs \<Longrightarrow> Suc depth \<le> n \<Longrightarrow> fields_fit n (omit_slice enc k xs)"
  using assms by (auto simp: omit_ptr_def omit_slice_def fit_in slice_fit split: option.split)

lemmas wire_rules = fit_in read_back slice_fit slice_read omitted_ptr omitted_slice omitted_fit

end

interpretation wire_string: wire_type JStr dec_string "[]" utf8_valid 0
  by unfold_locales simp_all

interpretation wire_int: wire_type json_int dec_int 0 int64_ok 0
  by unfold_locales (simp_all, simp add: json_int_def)

end
