(* ===== verification/FirewallWire.thy ===== *)
theory FirewallWire
  imports OpsFirewall JsonCodec
begin

text \<open>
  The results of the firewall ops on the wire: the helper writes its structs (\<^verbatim>\<open>ops/firewall.go\<close>,
  \<^verbatim>\<open>ops/firewall_lookup.go\<close>), the daemon reads them into structs of its own (\<^verbatim>\<open>tools/firewall\<close>,
  \<^verbatim>\<open>tools/firewall_lookup\<close>) whose fields are the same, so that the records of the ops serve for both. Every
  type is an instance of \<open>wire_type\<close>: the reader gets back what was written. A type is written by
  \<open>enc_\<close>, read by \<open>dec_\<close>; \<open>ok_\<close> says that its strings are UTF-8 and its numbers fit 64 bits.
\<close>

lemma plain_names [simp]:
  "plain_key ''backend''" "plain_key ''bans''" "plain_key ''by_set''" "plain_key ''bytes''"
  "plain_key ''chain''" "plain_key ''chain_count''" "plain_key ''chains''" "plain_key ''count''"
  "plain_key ''counter''" "plain_key ''element_count''" "plain_key ''element_key''" "plain_key ''elements''"
  "plain_key ''elements_truncated''" "plain_key ''expires_s''" "plain_key ''expr''" "plain_key ''family''"
  "plain_key ''flags''" "plain_key ''handle''" "plain_key ''hook''" "plain_key ''is_map''"
  "plain_key ''key''" "plain_key ''map_count''" "plain_key ''match_kind''" "plain_key ''matched_value''"
  "plain_key ''matches''" "plain_key ''name''" "plain_key ''nft_version''" "plain_key ''operator''"
  "plain_key ''packets''" "plain_key ''policy''" "plain_key ''prio''" "plain_key ''query''"
  "plain_key ''query_kind''" "plain_key ''rule_count''" "plain_key ''rule_handle''" "plain_key ''rule_text''"
  "plain_key ''rules''" "plain_key ''ruleset_hash_sha256''" "plain_key ''searched_chains''"
  "plain_key ''searched_rules''" "plain_key ''searched_sets''" "plain_key ''searched_tables''"
  "plain_key ''set''" "plain_key ''set_count''" "plain_key ''set_name''" "plain_key ''sets''"
  "plain_key ''size_limit''" "plain_key ''source''" "plain_key ''table''" "plain_key ''tables''"
  "plain_key ''timeout_s''" "plain_key ''total_active_v4''" "plain_key ''total_active_v6''"
  "plain_key ''type''" "plain_key ''warnings''"
  by (simp_all add: plain_key_def)

declare fold_name_plain [simp] utf8_valid_plain [simp]

definition enc_ban_set :: "BanSet \<Rightarrow> json" where
  "enc_ban_set x = JObj
     (field ''family'' (JStr (bs_Family x)) @
      field ''table'' (JStr (bs_Table x)) @
      field ''name'' (JStr (bs_Name x)) @
      field ''source'' (JStr (bs_Source x)))"

definition ok_ban_set :: "BanSet \<Rightarrow> bool" where
  "ok_ban_set x \<longleftrightarrow>
     utf8_valid (bs_Family x) \<and> utf8_valid (bs_Table x) \<and> utf8_valid (bs_Name x) \<and>
     utf8_valid (bs_Source x)"

interpretation wire_ban_set: wire_type enc_ban_set dec_ban_set zero_ban_set ok_ban_set "Suc 0"
proof unfold_locales
  fix x
  assume ok: "ok_ban_set x"
  then show f: "fits (Suc 0) (enc_ban_set x)" unfolding enc_ban_set_def by (intro fits_object) (simp add: ok_ban_set_def)
  from dec_struct_written [OF f [unfolded enc_ban_set_def]] ok
  show "dec_ban_set zero_ban_set (marshal_json (enc_ban_set x)) = Some x"
    by (simp add: enc_ban_set_def dec_ban_set_def zero_ban_set_def ok_ban_set_def maxNestingDepth_def)
qed (simp_all add: enc_ban_set_def)

definition zero_table_meta :: FirewallTableMeta where
  "zero_table_meta =
     \<lparr>tm_Family = [], tm_Name = [], tm_ChainCount = 0, tm_SetCount = 0, tm_MapCount = 0,
      tm_RuleCount = 0\<rparr>"

definition enc_table_meta :: "FirewallTableMeta \<Rightarrow> json" where
  "enc_table_meta x = JObj
     (field ''family'' (JStr (tm_Family x)) @
      field ''name'' (JStr (tm_Name x)) @
      field ''chain_count'' (json_int (tm_ChainCount x)) @
      field ''set_count'' (json_int (tm_SetCount x)) @
      field ''map_count'' (json_int (tm_MapCount x)) @
      field ''rule_count'' (json_int (tm_RuleCount x)))"

definition dec_table_meta :: "FirewallTableMeta decoder" where
  "dec_table_meta old s = do {
     ms \<leftarrow> dec_struct s;
     va \<leftarrow> dec_field dec_string (tm_Family old) ms ''family'';
     vb \<leftarrow> dec_field dec_string (tm_Name old) ms ''name'';
     vc \<leftarrow> dec_field dec_int (tm_ChainCount old) ms ''chain_count'';
     vd \<leftarrow> dec_field dec_int (tm_SetCount old) ms ''set_count'';
     ve \<leftarrow> dec_field dec_int (tm_MapCount old) ms ''map_count'';
     vf \<leftarrow> dec_field dec_int (tm_RuleCount old) ms ''rule_count'';
     Some \<lparr>tm_Family = va, tm_Name = vb, tm_ChainCount = vc, tm_SetCount = vd, tm_MapCount = ve,
       tm_RuleCount = vf\<rparr> }"

definition ok_table_meta :: "FirewallTableMeta \<Rightarrow> bool" where
  "ok_table_meta x \<longleftrightarrow>
     utf8_valid (tm_Family x) \<and> utf8_valid (tm_Name x) \<and>
     int64_ok (tm_ChainCount x) \<and> int64_ok (tm_SetCount x) \<and>
     int64_ok (tm_MapCount x) \<and> int64_ok (tm_RuleCount x)"

interpretation wire_table_meta: wire_type enc_table_meta dec_table_meta zero_table_meta ok_table_meta "Suc 0"
proof unfold_locales
  fix x
  assume ok: "ok_table_meta x"
  then show f: "fits (Suc 0) (enc_table_meta x)" unfolding enc_table_meta_def by (intro fits_object) (simp add: ok_table_meta_def)
  from dec_struct_written [OF f [unfolded enc_table_meta_def]] ok
  show "dec_table_meta zero_table_meta (marshal_json (enc_table_meta x)) = Some x"
    by (simp add: enc_table_meta_def dec_table_meta_def zero_table_meta_def ok_table_meta_def maxNestingDepth_def)
qed (simp_all add: enc_table_meta_def)

definition zero_counter :: FirewallCounter where
  "zero_counter =
     \<lparr>fk_Packets = 0, fk_Bytes = 0\<rparr>"

definition enc_counter :: "FirewallCounter \<Rightarrow> json" where
  "enc_counter x = JObj
     (field ''packets'' (json_int (fk_Packets x)) @
      field ''bytes'' (json_int (fk_Bytes x)))"

definition ok_counter :: "FirewallCounter \<Rightarrow> bool" where
  "ok_counter x \<longleftrightarrow>
     int64_ok (fk_Packets x) \<and> int64_ok (fk_Bytes x)"

interpretation wire_counter: wire_type enc_counter dec_counter zero_counter ok_counter "Suc 0"
proof unfold_locales
  fix x
  assume ok: "ok_counter x"
  then show f: "fits (Suc 0) (enc_counter x)" unfolding enc_counter_def by (intro fits_object) (simp add: ok_counter_def)
  from dec_struct_written [OF f [unfolded enc_counter_def]] ok
  show "dec_counter zero_counter (marshal_json (enc_counter x)) = Some x"
    by (simp add: enc_counter_def dec_counter_def zero_counter_def ok_counter_def maxNestingDepth_def)
qed (simp_all add: enc_counter_def)

definition zero_fw_rule :: FirewallRule where
  "zero_fw_rule =
     \<lparr>fr_Handle = 0, fr_Expr = [], fr_Counter = None\<rparr>"

definition enc_fw_rule :: "FirewallRule \<Rightarrow> json" where
  "enc_fw_rule x = JObj
     (field ''handle'' (json_int (fr_Handle x)) @
      field ''expr'' (JStr (fr_Expr x)) @
      omit_ptr enc_counter ''counter'' (fr_Counter x))"

definition dec_fw_rule :: "FirewallRule decoder" where
  "dec_fw_rule old s = do {
     ms \<leftarrow> dec_struct s;
     va \<leftarrow> dec_field dec_int (fr_Handle old) ms ''handle'';
     vb \<leftarrow> dec_field dec_string (fr_Expr old) ms ''expr'';
     vc \<leftarrow> dec_field (dec_ptr dec_counter zero_counter) (fr_Counter old) ms ''counter'';
     Some \<lparr>fr_Handle = va, fr_Expr = vb, fr_Counter = vc\<rparr> }"

definition ok_fw_rule :: "FirewallRule \<Rightarrow> bool" where
  "ok_fw_rule x \<longleftrightarrow>
     int64_ok (fr_Handle x) \<and> utf8_valid (fr_Expr x) \<and>
     pred_option ok_counter (fr_Counter x)"

interpretation wire_fw_rule: wire_type enc_fw_rule dec_fw_rule zero_fw_rule ok_fw_rule "Suc 1"
proof unfold_locales
  fix x
  assume ok: "ok_fw_rule x"
  then show f: "fits (Suc 1) (enc_fw_rule x)" unfolding enc_fw_rule_def by (intro fits_object) (simp add: ok_fw_rule_def wire_counter.wire_rules)
  from dec_struct_written [OF f [unfolded enc_fw_rule_def]] ok
  show "dec_fw_rule zero_fw_rule (marshal_json (enc_fw_rule x)) = Some x"
    by (simp add: enc_fw_rule_def dec_fw_rule_def zero_fw_rule_def ok_fw_rule_def maxNestingDepth_def wire_counter.wire_rules)
qed (simp_all add: enc_fw_rule_def)

definition zero_fw_chain :: FirewallChain where
  "zero_fw_chain =
     \<lparr>ch_Family = [], ch_Table = [], ch_Name = [], ch_Type = [], ch_Hook = [], ch_Prio = None,
      ch_Policy = [], ch_RuleCount = 0, ch_Rules = []\<rparr>"

definition enc_fw_chain :: "FirewallChain \<Rightarrow> json" where
  "enc_fw_chain x = JObj
     (field ''family'' (JStr (ch_Family x)) @
      field ''table'' (JStr (ch_Table x)) @
      field ''name'' (JStr (ch_Name x)) @
      omit_str ''type'' (ch_Type x) @
      omit_str ''hook'' (ch_Hook x) @
      omit_ptr json_int ''prio'' (ch_Prio x) @
      omit_str ''policy'' (ch_Policy x) @
      field ''rule_count'' (json_int (ch_RuleCount x)) @
      omit_slice enc_fw_rule ''rules'' (ch_Rules x))"

definition dec_fw_chain :: "FirewallChain decoder" where
  "dec_fw_chain old s = do {
     ms \<leftarrow> dec_struct s;
     va \<leftarrow> dec_field dec_string (ch_Family old) ms ''family'';
     vb \<leftarrow> dec_field dec_string (ch_Table old) ms ''table'';
     vc \<leftarrow> dec_field dec_string (ch_Name old) ms ''name'';
     vd \<leftarrow> dec_field dec_string (ch_Type old) ms ''type'';
     ve \<leftarrow> dec_field dec_string (ch_Hook old) ms ''hook'';
     vf \<leftarrow> dec_field (dec_ptr dec_int 0) (ch_Prio old) ms ''prio'';
     vg \<leftarrow> dec_field dec_string (ch_Policy old) ms ''policy'';
     vh \<leftarrow> dec_field dec_int (ch_RuleCount old) ms ''rule_count'';
     vi \<leftarrow> dec_field (dec_slice dec_fw_rule zero_fw_rule) None ms ''rules'';
     Some \<lparr>ch_Family = va, ch_Table = vb, ch_Name = vc, ch_Type = vd, ch_Hook = ve, ch_Prio = vf,
       ch_Policy = vg, ch_RuleCount = vh, ch_Rules = elems vi\<rparr> }"

definition ok_fw_chain :: "FirewallChain \<Rightarrow> bool" where
  "ok_fw_chain x \<longleftrightarrow>
     utf8_valid (ch_Family x) \<and> utf8_valid (ch_Table x) \<and> utf8_valid (ch_Name x) \<and>
     utf8_valid (ch_Type x) \<and> utf8_valid (ch_Hook x) \<and>
     pred_option int64_ok (ch_Prio x) \<and> utf8_valid (ch_Policy x) \<and>
     int64_ok (ch_RuleCount x) \<and> list_all ok_fw_rule (ch_Rules x)"

interpretation wire_fw_chain: wire_type enc_fw_chain dec_fw_chain zero_fw_chain ok_fw_chain "Suc 3"
proof unfold_locales
  fix x
  assume ok: "ok_fw_chain x"
  then show f: "fits (Suc 3) (enc_fw_chain x)" unfolding enc_fw_chain_def by (intro fits_object) (simp add: ok_fw_chain_def wire_fw_rule.wire_rules wire_int.wire_rules)
  from dec_struct_written [OF f [unfolded enc_fw_chain_def]] ok
  show "dec_fw_chain zero_fw_chain (marshal_json (enc_fw_chain x)) = Some x"
    by (simp add: enc_fw_chain_def dec_fw_chain_def zero_fw_chain_def ok_fw_chain_def maxNestingDepth_def wire_fw_rule.wire_rules wire_int.wire_rules)
qed (simp_all add: enc_fw_chain_def)

definition zero_set_elem :: FirewallSetElem where
  "zero_set_elem =
     \<lparr>fe_Key = [], fe_ExpiresS = None, fe_TimeoutS = None\<rparr>"

definition enc_set_elem :: "FirewallSetElem \<Rightarrow> json" where
  "enc_set_elem x = JObj
     (field ''key'' (JStr (fe_Key x)) @
      omit_ptr json_int ''expires_s'' (fe_ExpiresS x) @
      omit_ptr json_int ''timeout_s'' (fe_TimeoutS x))"

definition dec_set_elem :: "FirewallSetElem decoder" where
  "dec_set_elem old s = do {
     ms \<leftarrow> dec_struct s;
     va \<leftarrow> dec_field dec_string (fe_Key old) ms ''key'';
     vb \<leftarrow> dec_field (dec_ptr dec_int 0) (fe_ExpiresS old) ms ''expires_s'';
     vc \<leftarrow> dec_field (dec_ptr dec_int 0) (fe_TimeoutS old) ms ''timeout_s'';
     Some \<lparr>fe_Key = va, fe_ExpiresS = vb, fe_TimeoutS = vc\<rparr> }"

definition ok_set_elem :: "FirewallSetElem \<Rightarrow> bool" where
  "ok_set_elem x \<longleftrightarrow>
     utf8_valid (fe_Key x) \<and> pred_option int64_ok (fe_ExpiresS x) \<and>
     pred_option int64_ok (fe_TimeoutS x)"

interpretation wire_set_elem: wire_type enc_set_elem dec_set_elem zero_set_elem ok_set_elem "Suc 0"
proof unfold_locales
  fix x
  assume ok: "ok_set_elem x"
  then show f: "fits (Suc 0) (enc_set_elem x)" unfolding enc_set_elem_def by (intro fits_object) (simp add: ok_set_elem_def wire_int.wire_rules)
  from dec_struct_written [OF f [unfolded enc_set_elem_def]] ok
  show "dec_set_elem zero_set_elem (marshal_json (enc_set_elem x)) = Some x"
    by (simp add: enc_set_elem_def dec_set_elem_def zero_set_elem_def ok_set_elem_def maxNestingDepth_def wire_int.wire_rules)
qed (simp_all add: enc_set_elem_def)

definition zero_fw_set :: FirewallSet where
  "zero_fw_set =
     \<lparr>fs_Family = [], fs_Table = [], fs_Name = [], fs_Type = [], fs_Flags = [], fs_SizeLimit = 0,
      fs_ElementCount = 0, fs_Elements = [], fs_ElementsTruncated = False, fs_IsMap = False\<rparr>"

definition enc_fw_set :: "FirewallSet \<Rightarrow> json" where
  "enc_fw_set x = JObj
     (field ''family'' (JStr (fs_Family x)) @
      field ''table'' (JStr (fs_Table x)) @
      field ''name'' (JStr (fs_Name x)) @
      field ''type'' (JStr (fs_Type x)) @
      omit_slice JStr ''flags'' (fs_Flags x) @
      omit_int ''size_limit'' (fs_SizeLimit x) @
      field ''element_count'' (json_int (fs_ElementCount x)) @
      omit_slice enc_set_elem ''elements'' (fs_Elements x) @
      omit_bool ''elements_truncated'' (fs_ElementsTruncated x) @
      omit_bool ''is_map'' (fs_IsMap x))"

definition dec_fw_set :: "FirewallSet decoder" where
  "dec_fw_set old s = do {
     ms \<leftarrow> dec_struct s;
     va \<leftarrow> dec_field dec_string (fs_Family old) ms ''family'';
     vb \<leftarrow> dec_field dec_string (fs_Table old) ms ''table'';
     vc \<leftarrow> dec_field dec_string (fs_Name old) ms ''name'';
     vd \<leftarrow> dec_field dec_string (fs_Type old) ms ''type'';
     ve \<leftarrow> dec_field (dec_slice dec_string []) None ms ''flags'';
     vf \<leftarrow> dec_field dec_int (fs_SizeLimit old) ms ''size_limit'';
     vg \<leftarrow> dec_field dec_int (fs_ElementCount old) ms ''element_count'';
     vh \<leftarrow> dec_field (dec_slice dec_set_elem zero_set_elem) None ms ''elements'';
     vi \<leftarrow> dec_field dec_bool (fs_ElementsTruncated old) ms ''elements_truncated'';
     vj \<leftarrow> dec_field dec_bool (fs_IsMap old) ms ''is_map'';
     Some \<lparr>fs_Family = va, fs_Table = vb, fs_Name = vc, fs_Type = vd, fs_Flags = elems ve,
       fs_SizeLimit = vf, fs_ElementCount = vg, fs_Elements = elems vh, fs_ElementsTruncated = vi,
       fs_IsMap = vj\<rparr> }"

definition ok_fw_set :: "FirewallSet \<Rightarrow> bool" where
  "ok_fw_set x \<longleftrightarrow>
     utf8_valid (fs_Family x) \<and> utf8_valid (fs_Table x) \<and> utf8_valid (fs_Name x) \<and>
     utf8_valid (fs_Type x) \<and> list_all utf8_valid (fs_Flags x) \<and>
     int64_ok (fs_SizeLimit x) \<and> int64_ok (fs_ElementCount x) \<and>
     list_all ok_set_elem (fs_Elements x)"

interpretation wire_fw_set: wire_type enc_fw_set dec_fw_set zero_fw_set ok_fw_set "Suc 2"
proof unfold_locales
  fix x
  assume ok: "ok_fw_set x"
  then show f: "fits (Suc 2) (enc_fw_set x)" unfolding enc_fw_set_def by (intro fits_object) (simp add: ok_fw_set_def wire_set_elem.wire_rules wire_string.wire_rules)
  from dec_struct_written [OF f [unfolded enc_fw_set_def]] ok
  show "dec_fw_set zero_fw_set (marshal_json (enc_fw_set x)) = Some x"
    by (simp add: enc_fw_set_def dec_fw_set_def zero_fw_set_def ok_fw_set_def maxNestingDepth_def wire_set_elem.wire_rules wire_string.wire_rules)
qed (simp_all add: enc_fw_set_def)

definition zero_ban_stat :: FirewallBanSetStat where
  "zero_ban_stat =
     \<lparr>st_Set = [], st_Count = 0, st_Source = []\<rparr>"

definition enc_ban_stat :: "FirewallBanSetStat \<Rightarrow> json" where
  "enc_ban_stat x = JObj
     (field ''set'' (JStr (st_Set x)) @
      field ''count'' (json_int (st_Count x)) @
      field ''source'' (JStr (st_Source x)))"

definition dec_ban_stat :: "FirewallBanSetStat decoder" where
  "dec_ban_stat old s = do {
     ms \<leftarrow> dec_struct s;
     va \<leftarrow> dec_field dec_string (st_Set old) ms ''set'';
     vb \<leftarrow> dec_field dec_int (st_Count old) ms ''count'';
     vc \<leftarrow> dec_field dec_string (st_Source old) ms ''source'';
     Some \<lparr>st_Set = va, st_Count = vb, st_Source = vc\<rparr> }"

definition ok_ban_stat :: "FirewallBanSetStat \<Rightarrow> bool" where
  "ok_ban_stat x \<longleftrightarrow>
     utf8_valid (st_Set x) \<and> int64_ok (st_Count x) \<and> utf8_valid (st_Source x)"

interpretation wire_ban_stat: wire_type enc_ban_stat dec_ban_stat zero_ban_stat ok_ban_stat "Suc 0"
proof unfold_locales
  fix x
  assume ok: "ok_ban_stat x"
  then show f: "fits (Suc 0) (enc_ban_stat x)" unfolding enc_ban_stat_def by (intro fits_object) (simp add: ok_ban_stat_def)
  from dec_struct_written [OF f [unfolded enc_ban_stat_def]] ok
  show "dec_ban_stat zero_ban_stat (marshal_json (enc_ban_stat x)) = Some x"
    by (simp add: enc_ban_stat_def dec_ban_stat_def zero_ban_stat_def ok_ban_stat_def maxNestingDepth_def)
qed (simp_all add: enc_ban_stat_def)

definition zero_fw_bans :: FirewallBans where
  "zero_fw_bans =
     \<lparr>fb_TotalActiveV4 = 0, fb_TotalActiveV6 = 0, fb_BySet = []\<rparr>"

definition enc_fw_bans :: "FirewallBans \<Rightarrow> json" where
  "enc_fw_bans x = JObj
     (field ''total_active_v4'' (json_int (fb_TotalActiveV4 x)) @
      field ''total_active_v6'' (json_int (fb_TotalActiveV6 x)) @
      field ''by_set'' (json_slice enc_ban_stat (Some (fb_BySet x))))"

definition dec_fw_bans :: "FirewallBans decoder" where
  "dec_fw_bans old s = do {
     ms \<leftarrow> dec_struct s;
     va \<leftarrow> dec_field dec_int (fb_TotalActiveV4 old) ms ''total_active_v4'';
     vb \<leftarrow> dec_field dec_int (fb_TotalActiveV6 old) ms ''total_active_v6'';
     vc \<leftarrow> dec_field (dec_slice dec_ban_stat zero_ban_stat) None ms ''by_set'';
     Some \<lparr>fb_TotalActiveV4 = va, fb_TotalActiveV6 = vb, fb_BySet = elems vc\<rparr> }"

definition ok_fw_bans :: "FirewallBans \<Rightarrow> bool" where
  "ok_fw_bans x \<longleftrightarrow>
     int64_ok (fb_TotalActiveV4 x) \<and> int64_ok (fb_TotalActiveV6 x) \<and>
     list_all ok_ban_stat (fb_BySet x)"

interpretation wire_fw_bans: wire_type enc_fw_bans dec_fw_bans zero_fw_bans ok_fw_bans "Suc 2"
proof unfold_locales
  fix x
  assume ok: "ok_fw_bans x"
  then show f: "fits (Suc 2) (enc_fw_bans x)" unfolding enc_fw_bans_def by (intro fits_object) (simp add: ok_fw_bans_def wire_ban_stat.wire_rules)
  from dec_struct_written [OF f [unfolded enc_fw_bans_def]] ok
  show "dec_fw_bans zero_fw_bans (marshal_json (enc_fw_bans x)) = Some x"
    by (simp add: enc_fw_bans_def dec_fw_bans_def zero_fw_bans_def ok_fw_bans_def maxNestingDepth_def wire_ban_stat.wire_rules)
qed (simp_all add: enc_fw_bans_def)

definition zero_fw_result :: FirewallResult where
  "zero_fw_result =
     \<lparr>fw_Backend = [], fw_NftVersion = [], fw_RulesetHashSHA256 = [], fw_Tables = [],
      fw_Chains = [], fw_Sets = [], fw_Bans = zero_fw_bans, fw_Warnings = []\<rparr>"

definition enc_fw_result :: "FirewallResult \<Rightarrow> json" where
  "enc_fw_result x = JObj
     (field ''backend'' (JStr (fw_Backend x)) @
      omit_str ''nft_version'' (fw_NftVersion x) @
      omit_str ''ruleset_hash_sha256'' (fw_RulesetHashSHA256 x) @
      field ''tables'' (json_slice enc_table_meta (Some (fw_Tables x))) @
      field ''chains'' (json_slice enc_fw_chain (Some (fw_Chains x))) @
      field ''sets'' (json_slice enc_fw_set (Some (fw_Sets x))) @
      field ''bans'' (enc_fw_bans (fw_Bans x)) @
      omit_slice JStr ''warnings'' (fw_Warnings x))"

definition dec_fw_result :: "FirewallResult decoder" where
  "dec_fw_result old s = do {
     ms \<leftarrow> dec_struct s;
     va \<leftarrow> dec_field dec_string (fw_Backend old) ms ''backend'';
     vb \<leftarrow> dec_field dec_string (fw_NftVersion old) ms ''nft_version'';
     vc \<leftarrow> dec_field dec_string (fw_RulesetHashSHA256 old) ms ''ruleset_hash_sha256'';
     vd \<leftarrow> dec_field (dec_slice dec_table_meta zero_table_meta) None ms ''tables'';
     ve \<leftarrow> dec_field (dec_slice dec_fw_chain zero_fw_chain) None ms ''chains'';
     vf \<leftarrow> dec_field (dec_slice dec_fw_set zero_fw_set) None ms ''sets'';
     vg \<leftarrow> dec_field dec_fw_bans (fw_Bans old) ms ''bans'';
     vh \<leftarrow> dec_field (dec_slice dec_string []) None ms ''warnings'';
     Some \<lparr>fw_Backend = va, fw_NftVersion = vb, fw_RulesetHashSHA256 = vc, fw_Tables = elems vd,
       fw_Chains = elems ve, fw_Sets = elems vf, fw_Bans = vg, fw_Warnings = elems vh\<rparr> }"

definition ok_fw_result :: "FirewallResult \<Rightarrow> bool" where
  "ok_fw_result x \<longleftrightarrow>
     utf8_valid (fw_Backend x) \<and> utf8_valid (fw_NftVersion x) \<and>
     utf8_valid (fw_RulesetHashSHA256 x) \<and> list_all ok_table_meta (fw_Tables x) \<and>
     list_all ok_fw_chain (fw_Chains x) \<and> list_all ok_fw_set (fw_Sets x) \<and>
     ok_fw_bans (fw_Bans x) \<and> list_all utf8_valid (fw_Warnings x)"

interpretation wire_fw_result: wire_type enc_fw_result dec_fw_result zero_fw_result ok_fw_result "Suc 5"
proof unfold_locales
  fix x
  assume ok: "ok_fw_result x"
  then show f: "fits (Suc 5) (enc_fw_result x)" unfolding enc_fw_result_def by (intro fits_object) (simp add: ok_fw_result_def wire_fw_bans.wire_rules wire_fw_chain.wire_rules wire_fw_set.wire_rules wire_string.wire_rules wire_table_meta.wire_rules)
  from dec_struct_written [OF f [unfolded enc_fw_result_def]] ok
  show "dec_fw_result zero_fw_result (marshal_json (enc_fw_result x)) = Some x"
    by (simp add: enc_fw_result_def dec_fw_result_def zero_fw_result_def ok_fw_result_def maxNestingDepth_def wire_fw_bans.wire_rules wire_fw_chain.wire_rules wire_fw_set.wire_rules wire_string.wire_rules wire_table_meta.wire_rules)
qed (simp_all add: enc_fw_result_def)

definition enc_match :: "FirewallRuleMatch \<Rightarrow> json" where
  "enc_match x = JObj
     (field ''match_kind'' (JStr (rm_MatchKind x)) @
      field ''family'' (JStr (rm_Family x)) @
      field ''table'' (JStr (rm_Table x)) @
      field ''chain'' (JStr (rm_Chain x)) @
      field ''rule_handle'' (json_int (rm_RuleHandle x)) @
      field ''rule_text'' (JStr (rm_RuleText x)) @
      omit_str ''operator'' (rm_Operator x) @
      omit_str ''matched_value'' (rm_MatchedValue x) @
      omit_str ''set_name'' (rm_SetName x))"

definition dec_match :: "FirewallRuleMatch decoder" where
  "dec_match old s = do {
     ms \<leftarrow> dec_struct s;
     va \<leftarrow> dec_field dec_string (rm_MatchKind old) ms ''match_kind'';
     vb \<leftarrow> dec_field dec_string (rm_Family old) ms ''family'';
     vc \<leftarrow> dec_field dec_string (rm_Table old) ms ''table'';
     vd \<leftarrow> dec_field dec_string (rm_Chain old) ms ''chain'';
     ve \<leftarrow> dec_field dec_int (rm_RuleHandle old) ms ''rule_handle'';
     vf \<leftarrow> dec_field dec_string (rm_RuleText old) ms ''rule_text'';
     vg \<leftarrow> dec_field dec_string (rm_Operator old) ms ''operator'';
     vh \<leftarrow> dec_field dec_string (rm_MatchedValue old) ms ''matched_value'';
     vi \<leftarrow> dec_field dec_string (rm_SetName old) ms ''set_name'';
     Some \<lparr>rm_MatchKind = va, rm_Family = vb, rm_Table = vc, rm_Chain = vd, rm_RuleHandle = ve,
       rm_RuleText = vf, rm_Operator = vg, rm_MatchedValue = vh, rm_SetName = vi\<rparr> }"

definition ok_match :: "FirewallRuleMatch \<Rightarrow> bool" where
  "ok_match x \<longleftrightarrow>
     utf8_valid (rm_MatchKind x) \<and> utf8_valid (rm_Family x) \<and>
     utf8_valid (rm_Table x) \<and> utf8_valid (rm_Chain x) \<and>
     int64_ok (rm_RuleHandle x) \<and> utf8_valid (rm_RuleText x) \<and>
     utf8_valid (rm_Operator x) \<and> utf8_valid (rm_MatchedValue x) \<and>
     utf8_valid (rm_SetName x)"

interpretation wire_match: wire_type enc_match dec_match zero_match ok_match "Suc 0"
proof unfold_locales
  fix x
  assume ok: "ok_match x"
  then show f: "fits (Suc 0) (enc_match x)" unfolding enc_match_def by (intro fits_object) (simp add: ok_match_def)
  from dec_struct_written [OF f [unfolded enc_match_def]] ok
  show "dec_match zero_match (marshal_json (enc_match x)) = Some x"
    by (simp add: enc_match_def dec_match_def zero_match_def ok_match_def maxNestingDepth_def)
qed (simp_all add: enc_match_def)

definition zero_set_hit :: FirewallSetHit where
  "zero_set_hit =
     \<lparr>sh_MatchKind = [], sh_Family = [], sh_Table = [], sh_Set = [], sh_ElementKey = [],
      sh_ExpiresS = None, sh_TimeoutS = None\<rparr>"

definition enc_set_hit :: "FirewallSetHit \<Rightarrow> json" where
  "enc_set_hit x = JObj
     (field ''match_kind'' (JStr (sh_MatchKind x)) @
      field ''family'' (JStr (sh_Family x)) @
      field ''table'' (JStr (sh_Table x)) @
      field ''set'' (JStr (sh_Set x)) @
      field ''element_key'' (JStr (sh_ElementKey x)) @
      omit_ptr json_int ''expires_s'' (sh_ExpiresS x) @
      omit_ptr json_int ''timeout_s'' (sh_TimeoutS x))"

definition dec_set_hit :: "FirewallSetHit decoder" where
  "dec_set_hit old s = do {
     ms \<leftarrow> dec_struct s;
     va \<leftarrow> dec_field dec_string (sh_MatchKind old) ms ''match_kind'';
     vb \<leftarrow> dec_field dec_string (sh_Family old) ms ''family'';
     vc \<leftarrow> dec_field dec_string (sh_Table old) ms ''table'';
     vd \<leftarrow> dec_field dec_string (sh_Set old) ms ''set'';
     ve \<leftarrow> dec_field dec_string (sh_ElementKey old) ms ''element_key'';
     vf \<leftarrow> dec_field (dec_ptr dec_int 0) (sh_ExpiresS old) ms ''expires_s'';
     vg \<leftarrow> dec_field (dec_ptr dec_int 0) (sh_TimeoutS old) ms ''timeout_s'';
     Some \<lparr>sh_MatchKind = va, sh_Family = vb, sh_Table = vc, sh_Set = vd, sh_ElementKey = ve,
       sh_ExpiresS = vf, sh_TimeoutS = vg\<rparr> }"

definition ok_set_hit :: "FirewallSetHit \<Rightarrow> bool" where
  "ok_set_hit x \<longleftrightarrow>
     utf8_valid (sh_MatchKind x) \<and> utf8_valid (sh_Family x) \<and>
     utf8_valid (sh_Table x) \<and> utf8_valid (sh_Set x) \<and>
     utf8_valid (sh_ElementKey x) \<and> pred_option int64_ok (sh_ExpiresS x) \<and>
     pred_option int64_ok (sh_TimeoutS x)"

interpretation wire_set_hit: wire_type enc_set_hit dec_set_hit zero_set_hit ok_set_hit "Suc 0"
proof unfold_locales
  fix x
  assume ok: "ok_set_hit x"
  then show f: "fits (Suc 0) (enc_set_hit x)" unfolding enc_set_hit_def by (intro fits_object) (simp add: ok_set_hit_def wire_int.wire_rules)
  from dec_struct_written [OF f [unfolded enc_set_hit_def]] ok
  show "dec_set_hit zero_set_hit (marshal_json (enc_set_hit x)) = Some x"
    by (simp add: enc_set_hit_def dec_set_hit_def zero_set_hit_def ok_set_hit_def maxNestingDepth_def wire_int.wire_rules)
qed (simp_all add: enc_set_hit_def)

definition zero_lookup_result :: FirewallLookupResult where
  "zero_lookup_result =
     \<lparr>lk_Query = [], lk_QueryKind = [], lk_Matches = [], lk_Sets = [], lk_SearchedTables = 0,
      lk_SearchedChains = 0, lk_SearchedRules = 0, lk_SearchedSets = 0, lk_Warnings = []\<rparr>"

definition enc_lookup_result :: "FirewallLookupResult \<Rightarrow> json" where
  "enc_lookup_result x = JObj
     (field ''query'' (JStr (lk_Query x)) @
      field ''query_kind'' (JStr (lk_QueryKind x)) @
      field ''matches'' (json_slice enc_match (Some (lk_Matches x))) @
      field ''sets'' (json_slice enc_set_hit (Some (lk_Sets x))) @
      field ''searched_tables'' (json_int (lk_SearchedTables x)) @
      field ''searched_chains'' (json_int (lk_SearchedChains x)) @
      field ''searched_rules'' (json_int (lk_SearchedRules x)) @
      field ''searched_sets'' (json_int (lk_SearchedSets x)) @
      omit_slice JStr ''warnings'' (lk_Warnings x))"

definition dec_lookup_result :: "FirewallLookupResult decoder" where
  "dec_lookup_result old s = do {
     ms \<leftarrow> dec_struct s;
     va \<leftarrow> dec_field dec_string (lk_Query old) ms ''query'';
     vb \<leftarrow> dec_field dec_string (lk_QueryKind old) ms ''query_kind'';
     vc \<leftarrow> dec_field (dec_slice dec_match zero_match) None ms ''matches'';
     vd \<leftarrow> dec_field (dec_slice dec_set_hit zero_set_hit) None ms ''sets'';
     ve \<leftarrow> dec_field dec_int (lk_SearchedTables old) ms ''searched_tables'';
     vf \<leftarrow> dec_field dec_int (lk_SearchedChains old) ms ''searched_chains'';
     vg \<leftarrow> dec_field dec_int (lk_SearchedRules old) ms ''searched_rules'';
     vh \<leftarrow> dec_field dec_int (lk_SearchedSets old) ms ''searched_sets'';
     vi \<leftarrow> dec_field (dec_slice dec_string []) None ms ''warnings'';
     Some \<lparr>lk_Query = va, lk_QueryKind = vb, lk_Matches = elems vc, lk_Sets = elems vd,
       lk_SearchedTables = ve, lk_SearchedChains = vf, lk_SearchedRules = vg, lk_SearchedSets = vh,
       lk_Warnings = elems vi\<rparr> }"

definition ok_lookup_result :: "FirewallLookupResult \<Rightarrow> bool" where
  "ok_lookup_result x \<longleftrightarrow>
     utf8_valid (lk_Query x) \<and> utf8_valid (lk_QueryKind x) \<and>
     list_all ok_match (lk_Matches x) \<and> list_all ok_set_hit (lk_Sets x) \<and>
     int64_ok (lk_SearchedTables x) \<and> int64_ok (lk_SearchedChains x) \<and>
     int64_ok (lk_SearchedRules x) \<and> int64_ok (lk_SearchedSets x) \<and>
     list_all utf8_valid (lk_Warnings x)"

interpretation wire_lookup_result: wire_type enc_lookup_result dec_lookup_result zero_lookup_result ok_lookup_result "Suc 2"
proof unfold_locales
  fix x
  assume ok: "ok_lookup_result x"
  then show f: "fits (Suc 2) (enc_lookup_result x)" unfolding enc_lookup_result_def by (intro fits_object) (simp add: ok_lookup_result_def wire_match.wire_rules wire_set_hit.wire_rules wire_string.wire_rules)
  from dec_struct_written [OF f [unfolded enc_lookup_result_def]] ok
  show "dec_lookup_result zero_lookup_result (marshal_json (enc_lookup_result x)) = Some x"
    by (simp add: enc_lookup_result_def dec_lookup_result_def zero_lookup_result_def ok_lookup_result_def maxNestingDepth_def wire_match.wire_rules wire_set_hit.wire_rules wire_string.wire_rules)
qed (simp_all add: enc_lookup_result_def)

end
