(* ===== verification/ToolFirewall.thy ===== *)
theory ToolFirewall
  imports ToolBase FirewallWire
begin

text \<open>
  \<^verbatim>\<open>tools/firewall\<close> and \<^verbatim>\<open>tools/firewall_lookup\<close>: each checks its request, sends one JSON parameter to the
  op of the helper and hands on what comes back. The theorems carry a request from the body through
  both encodings to the answer.
\<close>

subsection \<open>The inspection\<close>

record fw_Request =
  fq_mode :: bytes
  fq_table :: bytes
  fq_include :: bool

definition validModes :: "bytes list" where
  "validModes = ['''', ''summary'', ''detail'']"

definition quoted :: "bytes \<Rightarrow> bytes" where
  "quoted s = [CHR 0x22] @ s @ [CHR 0x22]"

definition validateRequest :: "fw_Request \<Rightarrow> handle_error option" where
  "validateRequest req =
     (if fq_mode req \<notin> set validModes then
        Some (bad_argument (''firewall: mode must be '' @ quoted ''summary'' @ '' or '' @ quoted ''detail''))
      else if fq_table req = [] then None
      else if (case index_byte (fq_table req) CHR ''/'' of
                 None \<Rightarrow> True
               | Some i \<Rightarrow> take i (fq_table req) = [] \<or> drop (Suc i) (fq_table req) = []) then
        Some (bad_argument (''firewall: table must be '' @ quoted ''<family>/<name>'' @ '', e.g. '' @ quoted ''inet/filter''))
      else None)"

definition dec_fw_request :: "(bytes \<times> bytes) list \<Rightarrow> fw_Request option" where
  "dec_fw_request ms = do {
     mode \<leftarrow> dec_field dec_string [] ms ''mode'';
     table \<leftarrow> dec_field dec_string [] ms ''table'';
     inc \<leftarrow> dec_field dec_bool False ms ''include_set_elements'';
     Some \<lparr>fq_mode = mode, fq_table = table, fq_include = inc\<rparr> }"

definition firewall_request :: "(bytes \<Rightarrow> bytes) \<Rightarrow> bytes \<Rightarrow> handle_error + fw_Request" where
  "firewall_request errtext body =
     (case (if body = [] then Some \<lparr>fq_mode = [], fq_table = [], fq_include = False\<rparr>
            else Option.bind (DecodeStrict [''mode'', ''table'', ''include_set_elements''] body) dec_fw_request) of
        None \<Rightarrow> Inl (bad_argument (BoundMessage (''firewall: '' @ errtext body)))
      | Some req \<Rightarrow> (case validateRequest req of Some e \<Rightarrow> Inl e | None \<Rightarrow> Inr req))"

record fw_Data =
  fd_Backend :: bytes
  fd_NftVersion :: bytes
  fd_RulesetHashSHA256 :: bytes
  fd_Tables :: "FirewallTableMeta list"
  fd_Chains :: "FirewallChain list"
  fd_Sets :: "FirewallSet list"
  fd_Bans :: FirewallBans
  fd_Errors :: "HelperOpError list"

definition empty_fw_Data :: fw_Data where
  "empty_fw_Data = \<lparr>fd_Backend = [], fd_NftVersion = [], fd_RulesetHashSHA256 = [], fd_Tables = [], fd_Chains = [], fd_Sets = [],
     fd_Bans = \<lparr>fb_TotalActiveV4 = 0, fb_TotalActiveV6 = 0, fb_BySet = []\<rparr>, fd_Errors = []\<rparr>"

text \<open>The request of the helper: the body's part and the manifest's part. An empty list of ban sets is a nil slice.\<close>

definition fw_helperReq :: "Firewall \<Rightarrow> fw_Request \<Rightarrow> FirewallReq" where
  "fw_helperReq mf req =
     \<lparr>fq_Mode = fq_mode req, fq_TableFilter = fq_table req, fq_IncludeSetElements = fq_include req,
      fq_DetailModeAllowed = fw_DetailModeAllowed mf,
      fq_BanSets = map (\<lambda>b. \<lparr>BanSet.bs_Family = FirewallBanSet.bs_Family b, bs_Table = FirewallBanSet.bs_Table b,
         bs_Name = FirewallBanSet.bs_Name b, bs_Source = FirewallBanSet.bs_Source b\<rparr>) (fw_BanSets mf),
      fq_MaxSetElements = fw_MaxSetElementsPerSet mf, fq_MaxRuleTextBytes = fw_MaxRuleTextBytes mf\<rparr>"

definition enc_firewall_req :: "FirewallReq \<Rightarrow> json" where
  "enc_firewall_req x = JObj
     (field ''mode'' (JStr (fq_Mode x)) @
      field ''table_filter'' (JStr (fq_TableFilter x)) @
      field ''include_set_elements'' (JBool (fq_IncludeSetElements x)) @
      field ''detail_mode_allowed'' (JBool (fq_DetailModeAllowed x)) @
      field ''ban_sets'' (json_slice enc_ban_set (if fq_BanSets x = [] then None else Some (fq_BanSets x))) @
      field ''max_set_elements'' (json_int (fq_MaxSetElements x)) @
      field ''max_rule_text_bytes'' (json_int (fq_MaxRuleTextBytes x)))"

definition fw_data_of :: "FirewallResult \<Rightarrow> fw_Data" where
  "fw_data_of r = \<lparr>fd_Backend = fw_Backend r, fd_NftVersion = fw_NftVersion r, fd_RulesetHashSHA256 = fw_RulesetHashSHA256 r,
     fd_Tables = fw_Tables r, fd_Chains = fw_Chains r, fd_Sets = fw_Sets r, fd_Bans = fw_Bans r, fd_Errors = []\<rparr>"

text \<open>
  The tool: \<open>call\<close> is a helper call that delivers the raw result, \<open>errtext\<close> the text of a decoding
  error, \<open>texts\<close> that of a call that failed before the helper answered.
\<close>

definition firewall_Handle ::
  "(bytes \<Rightarrow> bytes) \<Rightarrow> (call_error \<Rightarrow> bytes) \<Rightarrow> Firewall \<Rightarrow> (bytes \<Rightarrow> bytes \<Rightarrow> call_error + bytes) \<Rightarrow> bytes \<Rightarrow> fw_Data handled" where
  "firewall_Handle errtext texts mf call body =
     (case firewall_request errtext body of
        Inl e \<Rightarrow> Inl e
      | Inr req \<Rightarrow>
          if \<not> fw_Enabled mf then Inr (empty_fw_Data\<lparr>fd_Backend := ''none''\<rparr>, [''firewall: disabled in manifest''])
          else case call OpFirewallInspect (marshal_json (enc_firewall_req (fw_helperReq mf req))) of
            Inl e \<Rightarrow>
              (let (oe, warning) = op_failure texts ''firewall'' OpFirewallInspect e
               in Inr (empty_fw_Data\<lparr>fd_Errors := [oe], fd_Backend := ''none''\<rparr>, [warning]))
          | Inr raw \<Rightarrow>
              (case dec_fw_result zero_fw_result raw of
                 None \<Rightarrow> Inl (ToolOther (''firewall: parse helper result: '' @ errtext raw))
               | Some r \<Rightarrow> Inr (fw_data_of r, fw_Warnings r)))"

definition firewall_AuditArgs :: "bytes \<Rightarrow> (bytes \<times> bytes) list" where
  "firewall_AuditArgs body =
     (let mode = lenient_field dec_string [] body ''mode''; table = lenient_field dec_string [] body ''table''
      in (if mode \<noteq> [] then [(''mode'', mode)] else []) @ (if table \<noteq> [] then [(''table'', table)] else []) @
         (if lenient_field dec_bool False body ''include_set_elements'' then [(''include_set_elements'', ''true'')] else []))"

subsection \<open>The lookup\<close>

record lookup_Data =
  kd_Query :: bytes
  kd_QueryKind :: bytes
  kd_Matches :: "FirewallRuleMatch list"
  kd_Sets :: "FirewallSetHit list"
  kd_SearchedTables :: int
  kd_SearchedChains :: int
  kd_SearchedRules :: int
  kd_SearchedSets :: int
  kd_Errors :: "HelperOpError list"

definition empty_lookup_Data :: lookup_Data where
  "empty_lookup_Data = \<lparr>kd_Query = [], kd_QueryKind = [], kd_Matches = [], kd_Sets = [], kd_SearchedTables = 0, kd_SearchedChains = 0,
     kd_SearchedRules = 0, kd_SearchedSets = 0, kd_Errors = []\<rparr>"

definition lookup_data_of :: "FirewallLookupResult \<Rightarrow> lookup_Data" where
  "lookup_data_of r = \<lparr>kd_Query = lk_Query r, kd_QueryKind = lk_QueryKind r, kd_Matches = lk_Matches r, kd_Sets = lk_Sets r,
     kd_SearchedTables = lk_SearchedTables r, kd_SearchedChains = lk_SearchedChains r, kd_SearchedRules = lk_SearchedRules r,
     kd_SearchedSets = lk_SearchedSets r, kd_Errors = []\<rparr>"

definition zero_lookup_req :: FirewallLookupReq where
  "zero_lookup_req = \<lparr>lr_Query = [], lr_IncludeSetElements = False\<rparr>"

definition lookup_request :: "(bytes \<Rightarrow> bytes) \<Rightarrow> bytes \<Rightarrow> handle_error + FirewallLookupReq" where
  "lookup_request errtext body =
     (case (if body = [] then Some zero_lookup_req
            else Option.bind (DecodeStrict [''query'', ''include_set_elements''] body) (\<lambda>ms. do {
              q \<leftarrow> dec_field dec_string [] ms ''query'';
              i \<leftarrow> dec_field dec_bool False ms ''include_set_elements'';
              Some \<lparr>lr_Query = q, lr_IncludeSetElements = i\<rparr> })) of
        None \<Rightarrow> Inl (bad_argument (BoundMessage (''firewall_lookup: '' @ errtext body)))
      | Some req \<Rightarrow>
          if trim_space (lr_Query req) = [] then Inl (bad_argument ''firewall_lookup: query is required'') else Inr req)"

definition enc_lookup_req :: "FirewallLookupReq \<Rightarrow> json" where
  "enc_lookup_req x = JObj
     (field ''query'' (JStr (lr_Query x)) @
      field ''include_set_elements'' (JBool (lr_IncludeSetElements x)))"

definition lookup_Handle ::
  "(bytes \<Rightarrow> bytes) \<Rightarrow> (call_error \<Rightarrow> bytes) \<Rightarrow> Firewall \<Rightarrow> (bytes \<Rightarrow> bytes \<Rightarrow> call_error + bytes) \<Rightarrow> bytes \<Rightarrow> lookup_Data handled" where
  "lookup_Handle errtext texts mf call body =
     (if \<not> fw_Enabled mf then Inr (empty_lookup_Data, [''firewall: disabled in manifest''])
      else case lookup_request errtext body of
        Inl e \<Rightarrow> Inl e
      | Inr req \<Rightarrow>
          (case call OpFirewallLookup (marshal_json (enc_lookup_req req)) of
             Inl e \<Rightarrow>
               (let (oe, warning) = op_failure texts ''firewall'' OpFirewallLookup e
                in Inr (empty_lookup_Data\<lparr>kd_Errors := [oe]\<rparr>, [warning]))
           | Inr raw \<Rightarrow>
               (case dec_lookup_result zero_lookup_result raw of
                  None \<Rightarrow> Inl (ToolOther (''firewall_lookup: parse helper result: '' @ errtext raw))
                | Some r \<Rightarrow> Inr (lookup_data_of r, lk_Warnings r))))"

text \<open>\<^verbatim>\<open>for i := range s\<close> visits the runes of a string; a byte that starts none counts as one.\<close>

function truncateRunes :: "bytes \<Rightarrow> nat \<Rightarrow> bytes" where
  "truncateRunes s n =
     (if n = 0 \<or> s = [] then []
      else let k = max 1 (rune_len s) in take k s @ truncateRunes (drop k s) (n - 1))"
  by pat_completeness auto
termination
  by (relation "measure snd") auto

declare truncateRunes.simps [simp del]

definition lookup_AuditArgs :: "bytes \<Rightarrow> (bytes \<times> bytes) list" where
  "lookup_AuditArgs body =
     (let q = truncateRunes (trim_space (lenient_field dec_string [] body ''query'')) 64
      in if q = [] then [] else [(''query'', q)])"

subsection \<open>From the body to the answer\<close>

text \<open>An op behind the socket, its result written as JSON.\<close>

definition remote_json :: "Client \<Rightarrow> ('r \<Rightarrow> json) \<Rightarrow> 'r op_result \<Rightarrow> call_error + bytes" where
  "remote_json c enc r = remote c (map_sum id (\<lambda>v. marshal_json (enc v)) r)"

definition op_code :: "exec_error \<Rightarrow> bytes" where
  "op_code e = (case e of Typed de \<Rightarrow> de_Code de | Plain m \<Rightarrow> CodeInternal)"

lemma remote_failure:
  "remote c (Inl e) = Inl ce \<Longrightarrow> op_failure texts tool op ce = (oe, wn) \<Longrightarrow>
     hoe_op oe = op \<and> hoe_code oe = op_code e \<and> wn = tool @ '': '' @ op @ '': '' @ op_code e"
  by (auto simp: remote_def op_failure_def go_error_of_def OpErrorFrom_def AsOpError_def CodeOf_def op_code_def Let_def split: exec_error.splits)

lemma remote_Inl: "\<exists>ce. remote c (Inl e) = Inl ce"
  by (simp add: remote_def Let_def)

lemma remote_json_simps [simp]:
  "remote_json c enc (Inr v) = Inr (marshal_json (enc v))" "remote_json c enc (Inl e) = remote c (Inl e)"
  by (simp_all add: remote_json_def remote_def)

text \<open>Strings of a body are UTF-8.\<close>

lemma dec_string_utf8: "dec_string old t = Some s \<Longrightarrow> utf8_valid old \<Longrightarrow> utf8_valid s"
  by (auto simp: dec_string_def json_view_def Let_def utf8_valid_unquote split: option.splits json_view.splits if_splits list.splits)

lemma dec_field_utf8: "dec_field dec_string z ms name = Some s \<Longrightarrow> utf8_valid z \<Longrightarrow> utf8_valid s"
proof (induction ms arbitrary: z)
  case (Cons m ms)
  obtain k t where m: "m = (k, t)" by (cases m)
  have "dec_field dec_string z (m # ms) name =
      Option.bind (if fold_name k = name then dec_string z t else Some z) (\<lambda>x. dec_field dec_string x ms name)"
    using dec_field_append [of dec_string z "[m]" ms name] by (simp add: m dec_field_def)
  then have "Option.bind (if fold_name k = name then dec_string z t else Some z) (\<lambda>x. dec_field dec_string x ms name) = Some s"
    using Cons.prems(1) by simp
  then obtain x where "(if fold_name k = name then dec_string z t else Some z) = Some x" "dec_field dec_string x ms name = Some s"
    unfolding Option.bind_eq_Some_conv by blast
  then show ?case using Cons.IH [of x] Cons.prems(2) dec_string_utf8 [of z t x] by (auto split: if_splits)
qed (simp add: dec_field_def)

lemma firewall_request_utf8: "firewall_request errtext body = Inr req \<Longrightarrow> utf8_valid (fq_mode req) \<and> utf8_valid (fq_table req)"
  by (auto simp: firewall_request_def dec_fw_request_def bind_eq_Some_conv split: option.splits if_splits dest!: dec_field_utf8)

lemma lookup_request_utf8: "lookup_request errtext body = Inr req \<Longrightarrow> utf8_valid (lr_Query req) \<and> trim_space (lr_Query req) \<noteq> []"
  by (auto simp: lookup_request_def zero_lookup_req_def bind_eq_Some_conv split: option.splits if_splits dest!: dec_field_utf8)

definition manifest_ok :: "Firewall \<Rightarrow> bool" where
  "manifest_ok mf \<longleftrightarrow>
     list_all (\<lambda>b. utf8_valid (FirewallBanSet.bs_Family b) \<and> utf8_valid (FirewallBanSet.bs_Table b) \<and>
       utf8_valid (FirewallBanSet.bs_Name b) \<and> utf8_valid (FirewallBanSet.bs_Source b)) (fw_BanSets mf) \<and>
     int64_ok (fw_MaxSetElementsPerSet mf) \<and> int64_ok (fw_MaxRuleTextBytes mf)"

lemma tool_names [simp]:
  "plain_key ''mode''" "plain_key ''table_filter''" "plain_key ''include_set_elements''" "plain_key ''detail_mode_allowed''"
  "plain_key ''ban_sets''" "plain_key ''max_set_elements''" "plain_key ''max_rule_text_bytes''"
  by (simp_all add: plain_key_def)

lemma firewall_param_reads_back:
  assumes "utf8_valid (fq_mode req)" "utf8_valid (fq_table req)" "manifest_ok mf"
  shows "dec_firewall_req (marshal_json (enc_firewall_req (fw_helperReq mf req))) = Some (fw_helperReq mf req)"
    and "marshal_json (enc_firewall_req (fw_helperReq mf req)) \<noteq> []"
proof -
  let ?x = "fw_helperReq mf req"
  let ?bs = "if fq_BanSets ?x = [] then None else Some (fq_BanSets ?x)"
  have ok: "list_all ok_ban_set (fq_BanSets ?x)" "int64_ok (fq_MaxSetElements ?x)" "int64_ok (fq_MaxRuleTextBytes ?x)"
    "utf8_valid (fq_Mode ?x)" "utf8_valid (fq_TableFilter ?x)"
    using assms by (auto simp: fw_helperReq_def manifest_ok_def ok_ban_set_def list_all_iff)
  have bans: "fits 2 (json_slice enc_ban_set ?bs)" "dec_slice dec_ban_set zero_ban_set None (marshal_json (json_slice enc_ban_set ?bs)) = Some ?bs"
    using ok(1) wire_ban_set.slice_fit [of "fq_BanSets ?x" 2] wire_ban_set.slice_read
      dec_slice_written [of None dec_ban_set zero_ban_set enc_ban_set 0 None]
    by (auto simp: json_slice_def [of _ None])
  have "fits 3 (enc_firewall_req ?x)" unfolding enc_firewall_req_def numeral_3_eq_3
    using ok bans(1) by (intro fits_object) (simp add: numeral_2_eq_2)
  from dec_struct_written [OF this [unfolded enc_firewall_req_def]] ok bans(2)
  show "dec_firewall_req (marshal_json (enc_firewall_req ?x)) = Some ?x"
    by (simp add: enc_firewall_req_def dec_firewall_req_def maxNestingDepth_def del: marshal_json.simps)
  show "marshal_json (enc_firewall_req ?x) \<noteq> []" by (simp add: enc_firewall_req_def marshal_json.simps)
qed

text \<open>
  C29: What the firewall tool answers is what the inspection finds. A valid request and the manifest reach
  the op through its JSON parameter unchanged, and the op's result, written by the helper and read
  by the daemon, is the tool's data field by field; a failure of the op becomes an error block with
  the op's code and a warning, not a failure of the tool. Rules are in the answer only if the request
  asks for details and the manifest allows them.
\<close>

theorem firewall_tool_end_to_end:
  assumes "firewall_request errtext body = Inr req" "fw_Enabled mf" "manifest_ok mf"
    and "param = marshal_json (enc_firewall_req (fw_helperReq mf req))"
    and "case FirewallInspect w param of Inr res \<Rightarrow> ok_fw_result res | Inl e \<Rightarrow> True"
  shows "dec_firewall_req param = Some (fw_helperReq mf req) \<and>
    (\<exists>d ws. firewall_Handle errtext texts mf (\<lambda>op p. remote_json c enc_fw_result (FirewallInspect w p)) body = Inr (d, ws) \<and>
      (case FirewallInspect w param of
         Inr res \<Rightarrow> d = fw_data_of res \<and> ws = fw_Warnings res
       | Inl e \<Rightarrow> map (\<lambda>oe. (hoe_op oe, hoe_code oe)) (fd_Errors d) = [(OpFirewallInspect, op_code e)] \<and>
           ws = [''firewall: '' @ OpFirewallInspect @ '': '' @ op_code e]) \<and>
      list_all (\<lambda>ch. ch_Rules ch = [] \<or> fq_mode req = ''detail'' \<and> fw_DetailModeAllowed mf) (fd_Chains d))"
proof -
  have p: "dec_firewall_req param = Some (fw_helperReq mf req)" "param \<noteq> []"
    using firewall_param_reads_back [OF _ _ assms(3)] firewall_request_utf8 [OF assms(1)] by (auto simp: assms(4))
  show ?thesis
  proof (cases "FirewallInspect w param")
    case (Inl e)
    obtain ce where ce: "remote c (Inl e :: bytes op_result) = Inl ce" using remote_Inl by blast
    obtain oe wn where f: "op_failure texts ''firewall'' OpFirewallInspect ce = (oe, wn)" by fastforce
    from remote_failure [OF ce f] show ?thesis
      using assms(1,2,4) p Inl ce f by (simp add: firewall_Handle_def empty_fw_Data_def)
  next
    case (Inr res)
    have "dec_fw_result zero_fw_result (marshal_json (enc_fw_result res)) = Some res"
      using assms(5) Inr by (intro wire_fw_result.read_back) simp
    moreover have "list_all (\<lambda>ch. ch_Rules ch = [] \<or> fq_mode req = ''detail'' \<and> fw_DetailModeAllowed mf) (fw_Chains res)"
      using inspect_bounded [OF Inr, of "fw_helperReq mf req"] p by (auto simp: list_all_iff fw_helperReq_def split: if_splits)
    ultimately show ?thesis
      using assms(1,2,4) p Inr by (simp add: firewall_Handle_def fw_data_of_def)
  qed
qed

definition sample_mf :: Firewall where
  "sample_mf = \<lparr>fw_Enabled = True, fw_BanSets = [\<lparr>FirewallBanSet.bs_Family = ''ip'', bs_Table = ''f'', bs_Name = ''b'', bs_Source = ''x''\<rparr>],
     fw_DetailModeAllowed = False, fw_MaxSetElementsPerSet = 5, fw_MaxRuleTextBytes = 0\<rparr>"

theorem firewall_tool_end_to_end_witness:
  "\<exists>d ws. firewall_Handle id (\<lambda>e. []) sample_mf
      (\<lambda>op p. remote_json (NewClient ''/run/h.sock'' 8 None) enc_fw_result (FirewallInspect (sample_world small_ruleset) p))
      (json_text ''{`mode`:`detail`,`table`:`ip/f`}'') = Inr (d, ws) \<and>
    list_all (\<lambda>ch. ch_Rules ch = []) (fd_Chains d)"
proof -
  let ?req = "\<lparr>fq_mode = ''detail'', fq_table = ''ip/f'', fq_include = False\<rparr>"
  have "case firewall_request id (json_text ''{`mode`:`detail`,`table`:`ip/f`}'') of Inr r \<Rightarrow> r = ?req | Inl e \<Rightarrow> False" by code_simp
  then have r: "firewall_request id (json_text ''{`mode`:`detail`,`table`:`ip/f`}'') = Inr ?req" by (auto split: sum.splits)
  have m: "fw_Enabled sample_mf" "manifest_ok sample_mf" by code_simp+
  have i: "case FirewallInspect (sample_world small_ruleset) (marshal_json (enc_firewall_req (fw_helperReq sample_mf ?req))) of
      Inr res \<Rightarrow> ok_fw_result res | Inl e \<Rightarrow> True" by code_simp
  show ?thesis
    using firewall_tool_end_to_end [OF r m refl i, of "\<lambda>e. []" "NewClient ''/run/h.sock'' 8 None"]
    by (auto simp: sample_mf_def list_all_iff)
qed

text \<open>
  C30: What the lookup tool answers is what the search of the ruleset finds for the query of the body, in
  the same sense: the op decodes exactly the request the tool decoded, its result reaches the answer
  field by field, and its failure becomes an error block with its code.
\<close>

theorem lookup_tool_end_to_end:
  assumes "lookup_request errtext body = Inr req" "fw_Enabled mf"
    and "param = marshal_json (enc_lookup_req req)"
    and "case FirewallLookup w param of Inr res \<Rightarrow> ok_lookup_result res | Inl e \<Rightarrow> True"
    and "h = lookup_Handle errtext texts mf (\<lambda>op p. remote_json c enc_lookup_result (FirewallLookup w p)) body"
  shows "dec_lookup_req zero_lookup_req param = Some req \<and>
    (case FirewallLookup w param of
       Inr res \<Rightarrow> h = Inr (lookup_data_of res, lk_Warnings res)
     | Inl e \<Rightarrow> \<exists>oe. hoe_op oe = OpFirewallLookup \<and> hoe_code oe = op_code e \<and>
         h = Inr (empty_lookup_Data\<lparr>kd_Errors := [oe]\<rparr>, [''firewall: '' @ OpFirewallLookup @ '': '' @ op_code e]))"
proof -
  have q: "utf8_valid (lr_Query req)" using lookup_request_utf8 assms(1) by blast
  have "fits (Suc 0) (enc_lookup_req req)" unfolding enc_lookup_req_def using q by (intro fits_object) simp
  from dec_struct_written [OF this [unfolded enc_lookup_req_def]] q
  have d: "dec_lookup_req zero_lookup_req param = Some req"
    by (simp add: assms(3) dec_lookup_req_def enc_lookup_req_def zero_lookup_req_def maxNestingDepth_def)
  show ?thesis
  proof (cases "FirewallLookup w param")
    case (Inl e)
    obtain ce where ce: "remote c (Inl e :: bytes op_result) = Inl ce" using remote_Inl by blast
    obtain oe wn where f: "op_failure texts ''firewall'' OpFirewallLookup ce = (oe, wn)" by fastforce
    from remote_failure [OF ce f] show ?thesis
      using assms d Inl ce f by (auto simp: lookup_Handle_def)
  next
    case (Inr res)
    have "dec_lookup_result zero_lookup_result (marshal_json (enc_lookup_result res)) = Some res"
      using assms(4) Inr by (intro wire_lookup_result.read_back) simp
    then show ?thesis using assms d Inr by (simp add: lookup_Handle_def)
  qed
qed

theorem lookup_tool_end_to_end_witness:
  "\<exists>res. lookup_Handle id (\<lambda>e. []) sample_mf
      (\<lambda>op p. remote_json (NewClient ''/run/h.sock'' 8 None) enc_lookup_result (FirewallLookup (sample_world sample_ruleset) p))
      (json_text ''{`query`:`203.0.113.9`}'') = Inr (lookup_data_of res, lk_Warnings res)"
proof -
  let ?req = "\<lparr>lr_Query = ''203.0.113.9'', lr_IncludeSetElements = False\<rparr>" and ?w = "sample_world sample_ruleset"
  let ?b = "json_text ''{`query`:`203.0.113.9`}''" and ?p = "marshal_json (enc_lookup_req ?req)"
  have "case lookup_request id ?b of Inr r \<Rightarrow> r = ?req | Inl e \<Rightarrow> False" by code_simp
  then have r: "lookup_request id ?b = Inr ?req" by (auto split: sum.splits)
  have en: "fw_Enabled sample_mf" by code_simp
  have i: "case FirewallLookup ?w ?p of Inr res \<Rightarrow> ok_lookup_result res | Inl e \<Rightarrow> False" by code_simp
  then obtain res where res: "FirewallLookup ?w ?p = Inr res" by (auto split: sum.splits)
  have ok: "case FirewallLookup ?w ?p of Inr res \<Rightarrow> ok_lookup_result res | Inl e \<Rightarrow> True" using i by (auto split: sum.splits)
  from lookup_tool_end_to_end [OF r en refl ok refl, of "\<lambda>e. []" "NewClient ''/run/h.sock'' 8 None"] res
  show ?thesis by auto
qed

end
