(* ===== verification/ProtoJson.thy ===== *)
theory ProtoJson
  imports JsonCodec HelperInvoke
begin

text \<open>
  The messages between daemon and helper in JSON: how \<^verbatim>\<open>frame.go\<close> writes and reads a request and a
  response. The data of a response is a raw message, which is compacted when it is written; the text
  of a value written by \<^verbatim>\<open>json.Marshal\<close> is compact already.
\<close>

subsection \<open>Compaction leaves written values alone\<close>

definition compacts :: "lexical \<Rightarrow> bytes \<Rightarrow> lexical \<Rightarrow> bool" where
  "compacts lx s lx' \<longleftrightarrow> (\<forall>r. compact lx (s @ r) = s @ compact lx' r)"

lemma compacts_append: "compacts lx s lx1 \<Longrightarrow> compacts lx1 t lx2 \<Longrightarrow> compacts lx (s @ t) lx2"
  by (simp add: compacts_def)

lemma compacts_Nil: "compacts lx [] lx"
  by (simp add: compacts_def)

lemma compacts_char:
  "\<not> (lx = Outside \<and> json_space c) \<Longrightarrow> c \<notin> {CHR ''<'', CHR ''>'', CHR ''&'', CHR 0xE2} \<Longrightarrow> compacts lx [c] (lex_next lx c)"
  by (auto simp: compacts_def)

lemma compacts_all:
  "list_all (\<lambda>c. \<not> (lx = Outside \<and> json_space c) \<and> c \<notin> {CHR ''<'', CHR ''>'', CHR ''&'', CHR 0xE2} \<and> lex_next lx c = lx) s \<Longrightarrow>
     compacts lx s lx"
  by (induction s) (auto simp: compacts_def)

lemma hex_lower_plain: "n < 16 \<Longrightarrow> hex_lower n \<notin> {CHR ''<'', CHR ''>'', CHR ''&'', CHR 0xE2, CHR 0x22, CHR 0x5C}"
proof -
  have "list_all (\<lambda>n. hex_lower n \<notin> {CHR ''<'', CHR ''>'', CHR ''&'', CHR 0xE2, CHR 0x22, CHR 0x5C}) [0..<16]" by code_simp
  then show "n < 16 \<Longrightarrow> ?thesis" by (auto simp: list_all_iff)
qed

lemma compacts_ascii:
  assumes "(of_char c :: nat) < 128"
  shows "compacts Quoted (quote_ascii c) Quoted"
proof -
  have "c \<noteq> CHR 0xE2" using assms by auto
  moreover have "hex_lower (of_char c div 16) \<notin> {CHR ''<'', CHR ''>'', CHR ''&'', CHR 0xE2, CHR 0x22, CHR 0x5C}"
    "hex_lower (of_char c mod 16) \<notin> {CHR ''<'', CHR ''>'', CHR ''&'', CHR 0xE2, CHR 0x22, CHR 0x5C}"
    using assms by (intro hex_lower_plain; simp)+
  ultimately show ?thesis by (auto simp: compacts_def quote_ascii_def html_safe_def)
qed

lemma compacts_high:
  assumes "list_all cont_byte w"
  shows "compacts Quoted w Quoted"
proof -
  have "c \<notin> {CHR ''<'', CHR ''>'', CHR ''&'', CHR 0xE2, CHR 0x22, CHR 0x5C}" if "cont_byte c" for c
    using that by (auto simp: cont_byte_def)
  then show ?thesis using assms by (intro compacts_all) (auto simp: list_all_iff)
qed

lemma compacts_quote: "utf8_valid s \<Longrightarrow> compacts Quoted (quote_body s) Quoted"
proof (induction rule: quote_induct)
  case Nil
  then show ?case by (simp add: compacts_Nil)
next
  case (ascii c s)
  then show ?case by (simp add: quote_ascii_Cons compacts_append [OF compacts_ascii])
next
  case (rune c w s)
  show ?case
  proof (cases "line_separator (c # w @ s)")
    case True
    have h: "hex_lower 8 = CHR ''8''" "hex_lower 9 = CHR ''9''" by code_simp+
    have "compacts Quoted ([CHR 0x5C] @ ''u202'' @ [hex_lower (of_char (w ! 1) mod 16)]) Quoted"
      using separator_rune [OF rune(3) True] h by (auto simp: compacts_def)
    from compacts_append [OF this rune.IH] show ?thesis using True by (subst quote_rune [OF rune(1,3)]) simp
  next
    case False
    have len: "c = CHR 0xE2 \<Longrightarrow> length w = 2" using rune(3) [of "[]"] by (auto simp: rune_need_def split: if_splits)
    have "take 2 (w @ r) \<noteq> [CHR 0x80, CHR 0xA8] \<and> take 2 (w @ r) \<noteq> [CHR 0x80, CHR 0xA9]" if "c = CHR 0xE2" for r
      using False that len by (auto simp: line_separator_def)
    then have "compact Quoted (c # w @ r) = c # compact Quoted (w @ r)" for r using rune(1) by auto
    then have "compacts Quoted (c # w) Quoted" using compacts_high [OF rune(2)] by (simp add: compacts_def)
    from compacts_append [OF this rune.IH] show ?thesis using False by (subst quote_rune [OF rune(1,3)]) simp
  qed
qed

lemma compacts_string:
  assumes "utf8_valid s"
  shows "compacts Outside (marshal_string s) Outside"
proof -
  have "compacts Outside [CHR 0x22] Quoted" "compacts Quoted [CHR 0x22] Outside" by (simp_all add: compacts_def json_space_def)
  then show ?thesis unfolding marshal_string_def using compacts_quote [OF assms] by (intro compacts_append)
qed

lemma compacts_join: "\<forall>v \<in> set vs. compacts Outside v Outside \<Longrightarrow> compacts Outside (join vs '','') Outside"
proof (induction vs)
  case Nil
  then show ?case by (simp add: compacts_Nil)
next
  case (Cons v vs)
  have "compacts Outside '','' Outside" by (simp add: compacts_def json_space_def)
  then have "compacts Outside (v @ '','' @ join vs '','') Outside" using Cons by (intro compacts_append) auto
  then show ?case using Cons by (auto simp: join_Cons simp del: join.simps)
qed

lemma compacts_brackets:
  "compacts Outside ''['' Outside" "compacts Outside '']'' Outside" "compacts Outside ''{'' Outside" "compacts Outside ''}'' Outside"
  "compacts Outside '':'' Outside" "compacts Outside ''null'' Outside" "compacts Outside ''true'' Outside" "compacts Outside ''false'' Outside"
  by (simp_all add: compacts_def json_space_def)

lemma compacts_json: "json_ok v \<Longrightarrow> compacts Outside (marshal_json v) Outside"
proof (induction v)
  case (JNum t)
  have html: "c \<notin> {CHR ''<'', CHR ''>'', CHR ''&'', CHR 0xE2}" if "json_digit c" for c
    using that by (auto simp: json_digit_def)
  have "\<not> json_space c \<and> c \<notin> {CHR ''<'', CHR ''>'', CHR ''&'', CHR 0xE2, CHR 0x22}" if "json_digit c \<or> c = CHR ''-''" for c
    using that
  proof
    assume d: "json_digit c"
    from digit_plain [OF d] html [OF d] show ?thesis by simp
  qed (simp add: json_space_def)
  note plain = this
  have "compacts Outside t Outside"
  proof (rule compacts_all, unfold list_all_iff, rule ballI)
    fix c
    assume "c \<in> set t"
    from plain [OF number_plain [OF _ this]] JNum
    show "\<not> (Outside = Outside \<and> json_space c) \<and> c \<notin> {CHR ''<'', CHR ''>'', CHR ''&'', CHR 0xE2} \<and> lex_next Outside c = Outside" by simp
  qed
  then show ?case by (simp add: marshal_json.simps)
next
  case (JArr vs)
  then have "compacts Outside (join (map marshal_json vs) '','') Outside" by (intro compacts_join) (auto simp: list_all_iff)
  then show ?case unfolding marshal_json.simps by (intro compacts_append) (auto intro: compacts_brackets)
next
  case (JObj ms)
  have "compacts Outside (member_text k (marshal_json v)) Outside" if "(k, v) \<in> set ms" for k v
    unfolding member_text_def using that JObj
    by (intro compacts_append [OF compacts_string] compacts_append [OF compacts_brackets(5)]) (fastforce simp: list_all_iff)+
  then have "compacts Outside (join (map (\<lambda>(k, v). member_text k v) (map (\<lambda>(k, v). (k, marshal_json v)) ms)) '','') Outside"
    by (intro compacts_join) auto
  then show ?case unfolding marshal_object by (intro compacts_append) (auto intro: compacts_brackets)
qed (auto simp: marshal_json.simps compacts_string intro: compacts_brackets)

lemma compact_marshal: "json_ok v \<Longrightarrow> compact Outside (marshal_json v) = marshal_json v"
  using compacts_json [of v] by (simp add: compacts_def) (metis append_Nil2 compact.simps(1))

subsection \<open>Requests and responses\<close>

definition enc_request :: "Request \<Rightarrow> json" where
  "enc_request q = JObj
     (field ''op'' (JStr (req_op q)) @
      omit_str ''param'' (req_param q) @
      omit_int ''deadline_ms'' (req_deadline_ms q))"

text \<open>\<^verbatim>\<open>json.Marshal\<close> of a request.\<close>

definition marshal_request :: "Request \<Rightarrow> bytes option" where
  "marshal_request q = Some (marshal_json (enc_request q))"

definition unmarshal_request :: "bytes \<Rightarrow> Request option" where
  "unmarshal_request s = do {
     ms \<leftarrow> dec_struct s;
     op \<leftarrow> dec_field dec_string [] ms ''op'';
     param \<leftarrow> dec_field dec_string [] ms ''param'';
     dl \<leftarrow> dec_field dec_int 0 ms ''deadline_ms'';
     Some \<lparr>req_op = op, req_param = param, req_deadline_ms = dl\<rparr> }"

text \<open>
  A struct some of whose fields are written already. The data of a response is compacted; when it is
  not JSON the whole struct is refused.
\<close>

definition struct_text :: "(bytes \<times> bytes) list \<Rightarrow> bytes" where
  "struct_text ms = ''{'' @ join (map (\<lambda>(k, v). member_text k v) ms) '','' @ ''}''"

definition raw_field :: "bytes \<Rightarrow> bytes \<Rightarrow> (bytes \<times> bytes) list" where
  "raw_field k raw = (if raw = [] then [] else [(k, compact Outside raw)])"

definition error_fields :: "Response \<Rightarrow> (bytes \<times> json) list" where
  "error_fields p =
     omit_str ''code'' (resp_code p) @
     omit_str ''message'' (resp_message p) @
     omit_int ''stderr_bytes'' (resp_stderr_bytes p) @
     omit_str ''stderr_sha256'' (resp_stderr_sha256 p) @
     omit_str ''stderr_prefix'' (resp_stderr_prefix p) @
     omit_ptr json_int ''tool_exit'' (resp_tool_exit p) @
     omit_slice JStr ''argv'' (resp_argv p)"

definition marshal_response :: "Response \<Rightarrow> bytes option" where
  "marshal_response p =
     (if resp_data p \<noteq> [] \<and> \<not> json_valid (resp_data p) then None
      else Some (struct_text (written (field ''status'' (JStr (resp_status p))) @ raw_field ''data'' (resp_data p) @
             written (error_fields p))))"

definition unmarshal_response :: "bytes \<Rightarrow> Response option" where
  "unmarshal_response s = do {
     ms \<leftarrow> dec_struct s;
     status \<leftarrow> dec_field dec_string [] ms ''status'';
     data \<leftarrow> dec_field dec_raw [] ms ''data'';
     code \<leftarrow> dec_field dec_string [] ms ''code'';
     msg \<leftarrow> dec_field dec_string [] ms ''message'';
     sb \<leftarrow> dec_field dec_int 0 ms ''stderr_bytes'';
     sh \<leftarrow> dec_field dec_string [] ms ''stderr_sha256'';
     sp \<leftarrow> dec_field dec_string [] ms ''stderr_prefix'';
     te \<leftarrow> dec_field (dec_ptr dec_int 0) None ms ''tool_exit'';
     argv \<leftarrow> dec_field (dec_slice dec_string []) None ms ''argv'';
     Some \<lparr>resp_status = status, resp_data = data, resp_code = code, resp_message = msg, resp_stderr_bytes = sb,
       resp_stderr_sha256 = sh, resp_stderr_prefix = sp, resp_tool_exit = te, resp_argv = (case argv of None \<Rightarrow> [] | Some a \<Rightarrow> a)\<rparr> }"

subsection \<open>Every message reads back\<close>

lemma proto_names [simp]:
  "plain_key ''op''" "plain_key ''param''" "plain_key ''deadline_ms''" "plain_key ''status''" "plain_key ''data''"
  "plain_key ''code''" "plain_key ''message''" "plain_key ''stderr_bytes''" "plain_key ''stderr_sha256''"
  "plain_key ''stderr_prefix''" "plain_key ''tool_exit''" "plain_key ''argv''"
  by (simp_all add: plain_key_def)

definition request_ok :: "Request \<Rightarrow> bool" where
  "request_ok q \<longleftrightarrow> utf8_valid (req_op q) \<and> utf8_valid (req_param q) \<and> int64_ok (req_deadline_ms q)"

lemma request_reads_back:
  assumes "request_ok q"
  shows "marshal_request q = Some (marshal_json (enc_request q))" "unmarshal_request (marshal_json (enc_request q)) = Some q"
proof -
  have "fits (Suc 0) (enc_request q)" unfolding enc_request_def
    using assms by (intro fits_object) (simp add: request_ok_def utf8_valid_plain)
  from dec_struct_written [OF this [unfolded enc_request_def]] assms
  show "unmarshal_request (marshal_json (enc_request q)) = Some q"
    by (simp add: enc_request_def unmarshal_request_def request_ok_def maxNestingDepth_def fold_name_plain)
qed (simp add: marshal_request_def)

text \<open>The data is the text of a value, as a handler's result is.\<close>

definition response_ok :: "json option \<Rightarrow> Response \<Rightarrow> bool" where
  "response_ok v p \<longleftrightarrow>
     (case v of None \<Rightarrow> resp_data p = [] | Some d \<Rightarrow> fits 1000 d \<and> resp_data p = marshal_json d) \<and>
     utf8_valid (resp_status p) \<and> utf8_valid (resp_code p) \<and> utf8_valid (resp_message p) \<and> int64_ok (resp_stderr_bytes p) \<and>
     utf8_valid (resp_stderr_sha256 p) \<and> utf8_valid (resp_stderr_prefix p) \<and> pred_option int64_ok (resp_tool_exit p) \<and>
     list_all utf8_valid (resp_argv p)"

lemma dec_struct_text:
  assumes "\<forall>(k, v) \<in> set ms. utf8_valid k \<and> value_text n v" and "Suc n \<le> maxNestingDepth"
  shows "dec_struct (struct_text ms) = Some ms"
proof -
  have vt: "value_text (Suc n) (struct_text ms)" unfolding struct_text_def by (rule value_text_object [OF assms(1)])
  have items: "json_items (join (map (\<lambda>(k, v). member_text k v) ms) '','') = map (\<lambda>(k, v). member_text k v) ms"
    using assms(1) member_text_read by (intro items_join) fastforce
  have "map json_member (map (\<lambda>(k, v). member_text k v) ms) = ms" using assms(1) member_text_read(1) by (auto intro!: map_idI)
  then have "json_view (struct_text ms) = Some (VObj ms)"
    using view_object [of "join (map (\<lambda>(k, v). member_text k v) ms) '',''"] items value_text_valid [OF vt assms(2)] strip_value [OF vt]
    by (simp add: struct_text_def)
  then show ?thesis by (simp add: dec_struct_def)
qed

lemma raw_field_read:
  "dec_field dec z (raw_field k raw) name = (if fold_name k = name \<and> raw \<noteq> [] then dec z (compact Outside raw) else Some z)"
  by (simp add: raw_field_def dec_field_def)

lemma written_texts: "fields_fit n ms \<Longrightarrow> (k, v) \<in> set (written ms) \<Longrightarrow> utf8_valid k \<and> value_text n v"
  using value_text_json by (fastforce simp: fields_fit_def written_def fits_def intro: value_text_deeper)

lemma response_reads_back:
  assumes ok: "response_ok v p"
  shows "\<exists>body. marshal_response p = Some body \<and> unmarshal_response body = Some p"
proof -
  let ?ms = "written (field ''status'' (JStr (resp_status p))) @ raw_field ''data'' (resp_data p) @ written (error_fields p)"
  have data: "raw_field ''data'' (resp_data p) = (if resp_data p = [] then [] else [(''data'', resp_data p)])"
    "resp_data p \<noteq> [] \<Longrightarrow> value_text 1000 (resp_data p)" "resp_data p \<noteq> [] \<Longrightarrow> json_valid (resp_data p)"
    using ok value_text_json [of "the v"] value_text_deeper [of _ "resp_data p" 1000] value_text_valid [of 1000 "resp_data p"]
    by (auto simp: response_ok_def raw_field_def compact_marshal fits_def maxNestingDepth_def split: option.splits)
  have "fields_fit 1000 (field ''status'' (JStr (resp_status p)))" "fields_fit 1000 (error_fields p)"
    using ok by (simp_all add: response_ok_def error_fields_def utf8_valid_plain wire_int.wire_rules wire_string.wire_rules)
  from this [THEN written_texts] have texts: "\<forall>(k, v) \<in> set ?ms. utf8_valid k \<and> value_text 1000 v"
    using data(1,2) by (auto simp: utf8_valid_plain split: if_splits)
  have "dec_struct (struct_text ?ms) = Some ?ms" by (rule dec_struct_text [OF texts]) (simp add: maxNestingDepth_def)
  moreover have "compact Outside (resp_data p) = resp_data p" using data(1) by (cases "resp_data p") (auto simp: raw_field_def)
  ultimately have "unmarshal_response (struct_text ?ms) = Some p"
    using ok by (simp add: unmarshal_response_def response_ok_def error_fields_def dec_field_append raw_field_read fold_name_plain
        dec_raw_def wire_int.wire_rules wire_string.wire_rules)
  then show ?thesis using data(3) by (auto simp: marshal_response_def)
qed

end
