(* ===== verification/OpsStorage.thy ===== *)
theory OpsStorage
  imports OpsBase "HOL-Library.Monad_Syntax"
begin

text \<open>
  The ops about storage: \<^verbatim>\<open>smart_summary.go\<close>, \<^verbatim>\<open>mdraid.go\<close>, \<^verbatim>\<open>lvm.go\<close>, \<^verbatim>\<open>zpool.go\<close> and \<^verbatim>\<open>btrfs.go\<close>. Each checks its
  parameter against a closed form, runs one command or two and reads its output.
\<close>

subsection \<open>SMART\<close>

text \<open>The regular expressions are anchored at both ends: a prefix, then one or more of a class.\<close>

definition named_disk :: "bytes \<Rightarrow> bytes \<Rightarrow> bool" where
  "named_disk p s \<longleftrightarrow> has_prefix s p \<and> drop (length p) s \<noteq> [] \<and> list_all ascii_lower (drop (length p) s)"

definition nvmeRE :: "bytes \<Rightarrow> bool" where
  "nvmeRE s \<longleftrightarrow> has_prefix s ''nvme'' \<and>
     (let r = drop 4 s; ds = takeWhile ascii_digit r; t = drop (length ds) r
      in ds \<noteq> [] \<and> has_prefix t ''n'' \<and> tl t \<noteq> [] \<and> list_all ascii_digit (tl t))"

definition deviceRE :: "bytes \<Rightarrow> bool" where
  "deviceRE s \<longleftrightarrow> named_disk ''sd'' s \<or> nvmeRE s \<or> named_disk ''vd'' s \<or> named_disk ''hd'' s \<or> named_disk ''xvd'' s"

record SmartSummary =
  sm_Device :: bytes
  sm_Model :: "bytes option"
  sm_SmartOverall :: "bytes option"
  sm_TemperatureC :: "int option"
  sm_ReallocatedSectors :: "int option"
  sm_PowerOnHours :: "int option"
  sm_SmartctlExitCode :: "int option"

definition smartctlFatalBits :: int where
  "smartctlFatalBits = 3"

text \<open>A row of the attribute table: identifier, name and raw value.\<close>

type_synonym smart_attribute = "int \<times> bytes \<times> int"

record rawSmart =
  rs_ModelName :: bytes
  rs_SmartStatus :: "bool option"
  rs_Temperature :: "int option"
  rs_AtaSmartAttributes :: "smart_attribute list option"
  rs_PowerOnTime :: "int option"

text \<open>A struct with one field.\<close>

definition dec_single :: "bytes \<Rightarrow> 'a decoder \<Rightarrow> 'a decoder" where
  "dec_single name dec old s = do { ms \<leftarrow> dec_struct s; dec_field dec old ms name }"

definition dec_attribute :: "smart_attribute decoder" where
  "dec_attribute old s = do {
     ms \<leftarrow> dec_struct s;
     i \<leftarrow> dec_field dec_int (fst old) ms ''id'';
     n \<leftarrow> dec_field dec_string (fst (snd old)) ms ''name'';
     v \<leftarrow> dec_field (dec_single ''value'' dec_int) (snd (snd old)) ms ''raw'';
     Some (i, n, v) }"

definition dec_table :: "smart_attribute list decoder" where
  "dec_table old s = do {
     ms \<leftarrow> dec_struct s;
     t \<leftarrow> dec_field (dec_slice dec_attribute (0, [], 0)) (Some old) ms ''table'';
     Some (case t of None \<Rightarrow> [] | Some as \<Rightarrow> as) }"

definition dec_smart :: "bytes \<Rightarrow> rawSmart option" where
  "dec_smart s = do {
     ms \<leftarrow> dec_struct s;
     m \<leftarrow> dec_field dec_string [] ms ''model_name'';
     st \<leftarrow> dec_field (dec_ptr (dec_single ''passed'' dec_bool) False) None ms ''smart_status'';
     t \<leftarrow> dec_field (dec_ptr (dec_single ''current'' dec_int) 0) None ms ''temperature'';
     a \<leftarrow> dec_field (dec_ptr dec_table []) None ms ''ata_smart_attributes'';
     p \<leftarrow> dec_field (dec_ptr (dec_single ''hours'' dec_int) 0) None ms ''power_on_time'';
     Some \<lparr>rs_ModelName = m, rs_SmartStatus = st, rs_Temperature = t, rs_AtaSmartAttributes = a, rs_PowerOnTime = p\<rparr> }"

definition smart_argv :: "bytes \<Rightarrow> bytes list" where
  "smart_argv dev = [''smartctl'', ''--json'', ''-a''] @ (if nvmeRE dev then [''-d'', ''nvme''] else []) @ [''/dev/'' @ dev]"

unbundle bit_operations_syntax

text \<open>
  The exit code that is a set of status flags next to a complete document. It is positive, and its
  two low bits, which mean that there is no document, are clear.
\<close>

definition status_exit :: "bytes \<Rightarrow> exec_error \<Rightarrow> int option" where
  "status_exit stdout e =
     (case e of
        Typed de \<Rightarrow>
          if de_Code de = CodeToolFailed then
            (case de_ToolExit de of
               Some x \<Rightarrow> if 0 < x \<and> x AND smartctlFatalBits = 0 \<and> stdout \<noteq> [] then Some x else None
             | None \<Rightarrow> None)
          else None
      | Plain _ \<Rightarrow> None)"

definition smart_summary :: "bytes \<Rightarrow> int option \<Rightarrow> rawSmart \<Rightarrow> SmartSummary" where
  "smart_summary dev exit_code r =
     \<lparr>sm_Device = dev,
      sm_Model = (if rs_ModelName r \<noteq> [] then Some (rs_ModelName r) else None),
      sm_SmartOverall = map_option (\<lambda>passed. if passed then ''passed'' else ''failed'') (rs_SmartStatus r),
      sm_TemperatureC = rs_Temperature r,
      sm_ReallocatedSectors = (case rs_AtaSmartAttributes r of
          None \<Rightarrow> None
        | Some t \<Rightarrow> map_option (\<lambda>(i, n, v). v) (find (\<lambda>(i, n, v). i = 5 \<or> n = ''Reallocated_Sector_Ct'') t)),
      sm_PowerOnHours = rs_PowerOnTime r,
      sm_SmartctlExitCode = exit_code\<rparr>"

definition SmartSummaryHandler :: "world \<Rightarrow> bytes \<Rightarrow> SmartSummary op_result" where
  "SmartSummaryHandler w param =
     (if \<not> deviceRE param then Inl (op_error CodeBadParam ''device name failed whitelist'')
      else let (stdout, err) = Run w (smart_argv param);
               exit_code = (case err of None \<Rightarrow> None | Some e \<Rightarrow> status_exit stdout e)
           in case (err, exit_code) of
                (Some e, None) \<Rightarrow> Inl e
              | _ \<Rightarrow>
                  (case dec_smart stdout of
                     None \<Rightarrow> Inl (op_error CodeToolFailed (''smartctl JSON parse: '' @ wd_error w ''json.Unmarshal'' stdout))
                   | Some raw \<Rightarrow> Inr (smart_summary param exit_code raw)))"

subsection \<open>MD arrays\<close>

definition mdraidNameRE :: "bytes \<Rightarrow> bool" where
  "mdraidNameRE s \<longleftrightarrow> has_prefix s ''md'' \<and> drop 2 s \<noteq> [] \<and> list_all ascii_digit (drop 2 s)"

record MdraidDetailResult =
  md_ArrayName :: bytes
  md_Level :: bytes
  md_State :: bytes
  md_Devices :: "bytes list"
  md_Degraded :: bool
  md_SyncProgress :: "rat option"

text \<open>The loop's state: the result, the resync action and whether a percentage was seen.\<close>

definition md_line :: "world \<Rightarrow> MdraidDetailResult \<times> bytes \<times> bool \<Rightarrow> bytes \<Rightarrow> MdraidDetailResult \<times> bytes \<times> bool" where
  "md_line w st line =
     (let (out, action, saw) = st
      in case index_byte line CHR ''='' of
           None \<Rightarrow> st
         | Some eq \<Rightarrow>
             if eq = 0 then st
             else let key = take eq line; val = drop (Suc eq) line
             in if key = ''MD_LEVEL'' then (out\<lparr>md_Level := val\<rparr>, action, saw)
                else if key = ''MD_DEGRADED'' then (out\<lparr>md_Degraded := val \<noteq> ''0''\<rparr>, action, saw)
                else if key = ''MD_ARRAY_STATE'' then (out\<lparr>md_State := val\<rparr>, action, saw)
                else if key = ''MD_RESYNC_ACTION'' then (out, val, saw)
                else if key = ''MD_RESYNC_PCT'' then
                  (case wd_parse_float w val of
                     Some pct \<Rightarrow> (out\<lparr>md_SyncProgress := Some pct\<rparr>, action, True)
                   | None \<Rightarrow> st)
                else if 10 < length key \<and> has_prefix key ''MD_DEVICE_'' \<and> has_suffix key ''_ROLE'' then st
                else if 10 < length key \<and> has_prefix key ''MD_DEVICE_'' \<and> has_suffix key ''_DEV'' then
                  (out\<lparr>md_Devices := md_Devices out @ [val]\<rparr>, action, saw)
                else st)"

text \<open>
  The leftmost match of \<^verbatim>\<open>(\d+(?:\.\d+)?)%\<close>: from the first position where digits, perhaps a fraction,
  and a percent sign follow. A run of digits that no percent sign ends is skipped with its fraction
  tried on its own.
\<close>

definition percent_at :: "bytes \<Rightarrow> bytes option" where
  "percent_at s =
     (let ds = takeWhile ascii_digit s; t = drop (length ds) s;
          fs = takeWhile ascii_digit (tl t); u = drop (length fs) (tl t)
      in if ds = [] then None
         else if has_prefix t ''.'' \<and> fs \<noteq> [] \<and> has_prefix u ''%'' then Some (ds @ ''.'' @ fs)
         else if has_prefix t ''%'' then Some ds
         else None)"

fun mdstatPercentRE :: "bytes \<Rightarrow> bytes option" where
  "mdstatPercentRE [] = None"
| "mdstatPercentRE (c # s) = (case percent_at (c # s) of Some m \<Rightarrow> Some m | None \<Rightarrow> mdstatPercentRE s)"

text \<open>The header line of the array: its name, a space or a colon, and something after.\<close>

definition md_header :: "bytes \<Rightarrow> bytes \<Rightarrow> bool" where
  "md_header name line \<longleftrightarrow> length name + 2 < length line \<and> take (length name) line = name \<and>
     (line ! length name = CHR '' '' \<or> line ! length name = CHR '':'')"

fun mdstat_block :: "world \<Rightarrow> bytes list \<Rightarrow> rat option" where
  "mdstat_block w [] = None"
| "mdstat_block w (line # ls) =
     (if line = [] then None
      else if 2 < length line \<and> hd line \<noteq> CHR '' '' \<and> hd line \<noteq> CHR 0x09 then None
      else case mdstatPercentRE line of
        None \<Rightarrow> mdstat_block w ls
      | Some m \<Rightarrow> wd_parse_float w m)"

definition readMdstatProgress :: "world \<Rightarrow> bytes \<Rightarrow> rat option" where
  "readMdstatProgress w name =
     (case ReadFile w ''/proc/mdstat'' of
        Inl e \<Rightarrow> None
      | Inr b \<Rightarrow> mdstat_block w (drop 1 (dropWhile (\<lambda>l. \<not> md_header name l) (fst (scan_with ''/proc/mdstat'' b)))))"

definition mdraidDetailFromExport :: "world \<Rightarrow> bytes \<Rightarrow> bytes \<Rightarrow> bytes + MdraidDetailResult" where
  "mdraidDetailFromExport w name stdout =
     (let (ls, err) = scan_with ''mdadm --detail'' stdout;
          (out0, action, saw) = foldl (md_line w)
            (\<lparr>md_ArrayName = name, md_Level = [], md_State = [], md_Devices = [], md_Degraded = False, md_SyncProgress = None\<rparr>,
             [], False) ls;
          out1 = (if md_State out0 = [] then out0\<lparr>md_State := ''unknown''\<rparr> else out0);
          out = (if \<not> saw \<and> action \<noteq> [] \<and> action \<noteq> ''idle''
                 then out1\<lparr>md_SyncProgress := Some (case readMdstatProgress w name of Some pct \<Rightarrow> pct | None \<Rightarrow> 0)\<rparr> else out1)
      in case err of Some e \<Rightarrow> Inl e | None \<Rightarrow> Inr out)"

definition MdraidDetail :: "world \<Rightarrow> bytes \<Rightarrow> MdraidDetailResult op_result" where
  "MdraidDetail w param =
     (if \<not> mdraidNameRE param then Inl (op_error CodeBadParam ''array name failed whitelist'')
      else case Run w [''mdadm'', ''--detail'', ''--export'', ''/dev/'' @ param] of
        (stdout, Some e) \<Rightarrow> Inl e
      | (stdout, None) \<Rightarrow>
          (case mdraidDetailFromExport w param stdout of
             Inl m \<Rightarrow> Inl (op_error CodeToolFailed m)
           | Inr res \<Rightarrow> Inr res))"

subsection \<open>LVM\<close>

text \<open>\<^verbatim>\<open>v, _ := strconv.ParseInt(s, 10, 64)\<close>.\<close>

definition parse_int_value :: "bytes \<Rightarrow> int" where
  "parse_int_value s = parse_int_clamp 10 64 s"

record LvmVg =
  vg_Name :: bytes
  vg_SizeB :: int
  vg_FreeB :: int

record LvmLv =
  lv_VG :: bytes
  lv_Name :: bytes
  lv_SizeB :: int
  lv_HealthStatus :: "bytes option"

record LvmReportResult =
  lvm_VGs :: "LvmVg list"
  lvm_LVs :: "LvmLv list"

text \<open>The rows of the two reports as decoded: all columns are strings.\<close>

definition dec_row :: "bytes list \<Rightarrow> bytes list decoder" where
  "dec_row names old s = do {
     ms \<leftarrow> dec_struct s;
     those (map (\<lambda>(name, z). dec_field dec_string z ms name) (zip names old)) }"

text \<open>An envelope: the rows under the given name in every element of \<^verbatim>\<open>report\<close>.\<close>

definition dec_report :: "bytes \<Rightarrow> bytes list \<Rightarrow> bytes list list list decoder" where
  "dec_report rows names old s = do {
     ms \<leftarrow> dec_struct s;
     r \<leftarrow> dec_field (dec_slice (dec_single rows (dec_slice (dec_row names) (map (\<lambda>n. []) names))) None) None ms ''report'';
     Some (map (\<lambda>x. case x of None \<Rightarrow> [] | Some y \<Rightarrow> y) (case r of None \<Rightarrow> [] | Some xs \<Rightarrow> xs)) }"

definition vgsEnvelope :: "bytes \<Rightarrow> bytes list list option" where
  "vgsEnvelope b = map_option concat (dec_report ''vg'' [''vg_name'', ''vg_size'', ''vg_free''] [] b)"

definition lvsEnvelope :: "bytes \<Rightarrow> bytes list list option" where
  "lvsEnvelope b = map_option concat (dec_report ''lv'' [''vg_name'', ''lv_name'', ''lv_size'', ''lv_health_status''] [] b)"

definition parseVGs :: "bytes \<Rightarrow> LvmVg list option" where
  "parseVGs b = map_option (map (\<lambda>r. \<lparr>vg_Name = r ! 0, vg_SizeB = parse_int_value (r ! 1), vg_FreeB = parse_int_value (r ! 2)\<rparr>))
     (vgsEnvelope b)"

definition parseLVs :: "bytes \<Rightarrow> LvmLv list option" where
  "parseLVs b = map_option (map (\<lambda>r. \<lparr>lv_VG = r ! 0, lv_Name = r ! 1, lv_SizeB = parse_int_value (r ! 2),
     lv_HealthStatus = (if r ! 3 \<noteq> [] then Some (r ! 3) else None)\<rparr>)) (lvsEnvelope b)"

definition vgs_argv :: "bytes list" where
  "vgs_argv = [''vgs'', ''--reportformat=json'', ''--units=b'', ''--nosuffix'', ''-o'', ''vg_name,vg_size,vg_free'']"

definition lvs_argv :: "bytes list" where
  "lvs_argv = [''lvs'', ''--reportformat=json'', ''--units=b'', ''--nosuffix'', ''-o'', ''vg_name,lv_name,lv_size,lv_health_status'']"

definition LvmReport :: "world \<Rightarrow> bytes \<Rightarrow> LvmReportResult op_result" where
  "LvmReport w param =
     (case Run w vgs_argv of
        (vgOut, Some e) \<Rightarrow> Inl e
      | (vgOut, None) \<Rightarrow>
          (case parseVGs vgOut of
             None \<Rightarrow> Inl (op_error CodeToolFailed (''vgs JSON parse: '' @ wd_error w ''json.Unmarshal'' vgOut))
           | Some vgs \<Rightarrow>
               (case Run w lvs_argv of
                  (lvOut, Some e) \<Rightarrow> Inl e
                | (lvOut, None) \<Rightarrow>
                    (case parseLVs lvOut of
                       None \<Rightarrow> Inl (op_error CodeToolFailed (''lvs JSON parse: '' @ wd_error w ''json.Unmarshal'' lvOut))
                     | Some lvs \<Rightarrow> Inr \<lparr>lvm_VGs = vgs, lvm_LVs = lvs\<rparr>))))"

subsection \<open>ZFS\<close>

record ZfsPool =
  zp_Name :: bytes
  zp_State :: bytes
  zp_ScanState :: bytes
  zp_ErrorsTotal :: int

definition summariseScan :: "bytes \<Rightarrow> bytes" where
  "summariseScan body =
     (let low = to_lower body
      in if contains_sub low ''none requested'' then ''idle''
         else if contains_sub low ''scrub in progress'' then ''scrubbing''
         else if contains_sub low ''resilver in progress'' then ''resilvering''
         else if contains_sub low ''scrub repaired'' \<or> contains_sub low ''scrub completed'' then ''scrubbed''
         else if contains_sub low ''resilver completed'' then ''resilvered''
         else ''unknown'')"

definition parseErrors :: "bytes \<Rightarrow> int" where
  "parseErrors body =
     (if contains_sub (to_lower body) ''no known data errors'' then 0
      else case find (\<lambda>t. atoi t \<noteq> None) (Fields body) of None \<Rightarrow> 0 | Some t \<Rightarrow> the (atoi t))"

definition zpool_line :: "ZfsPool \<Rightarrow> bytes \<Rightarrow> ZfsPool" where
  "zpool_line p raw =
     (let line = trim_space raw
      in if has_prefix line ''state:'' then p\<lparr>zp_State := trim_space (drop 6 line)\<rparr>
         else if has_prefix line ''scan:'' then p\<lparr>zp_ScanState := summariseScan (trim_space (drop 5 line))\<rparr>
         else if has_prefix line ''errors:'' then p\<lparr>zp_ErrorsTotal := parseErrors (trim_space (drop 7 line))\<rparr>
         else p)"

definition parseZpoolStatus :: "bytes \<Rightarrow> bytes \<Rightarrow> bytes + ZfsPool" where
  "parseZpoolStatus name out =
     (let (ls, err) = scan_with ''zpool status'' out
      in case err of
           Some e \<Rightarrow> Inl e
         | None \<Rightarrow> Inr (foldl zpool_line \<lparr>zp_Name = name, zp_State = ''unknown'', zp_ScanState = ''unknown'', zp_ErrorsTotal = 0\<rparr> ls))"

text \<open>A pool whose status cannot be read is left out; no pools are reported when the list cannot be read.\<close>

definition zpool_row :: "world \<Rightarrow> bytes \<Rightarrow> ZfsPool list" where
  "zpool_row w name =
     (case Run w [''zpool'', ''status'', name] of
        (out, Some e) \<Rightarrow> []
      | (out, None) \<Rightarrow> (case parseZpoolStatus name out of Inl m \<Rightarrow> [] | Inr p \<Rightarrow> [p]))"

definition ZpoolStatus :: "world \<Rightarrow> bytes \<Rightarrow> ZfsPool list op_result" where
  "ZpoolStatus w param =
     (case Run w [''zpool'', ''list'', ''-H'', ''-o'', ''name''] of
        (listOut, Some e) \<Rightarrow> Inr []
      | (listOut, None) \<Rightarrow> Inr (concat (map (zpool_row w) (Fields (trim_space listOut)))))"

subsection \<open>Btrfs\<close>

text \<open>\<^verbatim>\<open>^(/[A-Za-z0-9_-]+)+$\<close>: one or more components, none empty, of letters, digits, underscores and hyphens.\<close>

definition btrfsMountPathRE :: "bytes \<Rightarrow> bool" where
  "btrfsMountPathRE s \<longleftrightarrow> has_prefix s ''/'' \<and>
     list_all (\<lambda>c. c \<noteq> [] \<and> list_all (\<lambda>x. ascii_alnum x \<or> x = CHR ''_'' \<or> x = CHR ''-'') c) (split_on CHR ''/'' [] (tl s))"

definition BtrfsSuperMagic :: int where
  "BtrfsSuperMagic = 0x9123683E"

record BtrfsScrubResult =
  bt_Mountpoint :: bytes
  bt_LastScrubTS :: "time option"
  bt_LastScrubStatus :: "bytes option"
  bt_ErrorsCount :: int

definition btrfs_line :: "world \<Rightarrow> BtrfsScrubResult \<Rightarrow> bytes \<Rightarrow> BtrfsScrubResult" where
  "btrfs_line w out raw =
     (let line = trim_space raw
      in if has_prefix line ''scrub started at'' then
           (let rest = trim_space (drop 16 line);
                tsStr = (case index_byte rest CHR '','' of Some i \<Rightarrow> take i rest | None \<Rightarrow> rest)
            in case wd_parse_time w ''Mon Jan _2 15:04:05 2006'' tsStr of
                 Some ts \<Rightarrow> out\<lparr>bt_LastScrubTS := Some ts\<rparr>
               | None \<Rightarrow> out)
         else if has_prefix line ''status:'' then out\<lparr>bt_LastScrubStatus := Some (trim_space (drop 7 line))\<rparr>
         else if has_prefix line ''error_count:'' then
           (case atoi (trim_space (drop 12 line)) of Some v \<Rightarrow> out\<lparr>bt_ErrorsCount := v\<rparr> | None \<Rightarrow> out)
         else if has_prefix line ''scrub_errors:'' then
           (case atoi (trim_space (drop 13 line)) of Some v \<Rightarrow> out\<lparr>bt_ErrorsCount := v\<rparr> | None \<Rightarrow> out)
         else out)"

definition BtrfsScrub :: "world \<Rightarrow> bytes \<Rightarrow> BtrfsScrubResult op_result" where
  "BtrfsScrub w param =
     (if \<not> btrfsMountPathRE param then Inl (op_error CodeBadParam ''mountpoint failed whitelist'')
      else case wd_statfs w param of
        Inl e \<Rightarrow> Inl (op_error CodeBadParam (''statfs failed: '' @ e))
      | Inr fstype \<Rightarrow>
          if fstype \<noteq> BtrfsSuperMagic then Inl (op_error CodeBadParam ''path is not a btrfs filesystem'')
          else case Run w [''btrfs'', ''scrub'', ''status'', ''-R'', param] of
            (stdout, Some e) \<Rightarrow> Inl e
          | (stdout, None) \<Rightarrow>
              (let (ls, err) = scan_with ''btrfs scrub status'' stdout;
                   out = foldl (btrfs_line w) \<lparr>bt_Mountpoint = param, bt_LastScrubTS = None, bt_LastScrubStatus = None, bt_ErrorsCount = 0\<rparr> ls
               in case err of Some e \<Rightarrow> Inl (op_error CodeToolFailed e) | None \<Rightarrow> Inr out))"

subsection \<open>Properties\<close>

text \<open>With no percentage anywhere, a running resync is reported as zero percent done.\<close>

lemma mdraid_invented_zero:
  assumes "ReadFile w ''/proc/mdstat'' = Inl e"
  shows "\<exists>r. mdraidDetailFromExport w ''md0'' ''MD_RESYNC_ACTION=resync'' = Inr r \<and> md_SyncProgress r = Some 0"
proof -
  have "scan_with ''mdadm --detail'' ''MD_RESYNC_ACTION=resync'' = ([''MD_RESYNC_ACTION=resync''], None)"
    using scan_with_spec [of "[]" "''MD_RESYNC_ACTION=resync''" "''mdadm --detail''"] by (simp add: MaxLine_def drop_cr_def)
  moreover have "index_byte ''MD_RESYNC_ACTION=resync'' CHR ''='' = Some 16" by code_simp
  ultimately show ?thesis by (simp add: mdraidDetailFromExport_def readMdstatProgress_def md_line_def assms Let_def)
qed

lemma parse_int_value_range: "- (2 ^ 63) \<le> parse_int_value s" "parse_int_value s < 2 ^ 63"
  by (auto simp: parse_int_value_def parse_int_clamp_def Let_def split: option.split)

lemma parse_int_value_atoi: "atoi s = Some n \<Longrightarrow> parse_int_value s = n"
  by (cases s) (auto simp: atoi_def parse_int_value_def parse_int_clamp_def Let_def split: option.splits if_splits)

text \<open>A status exit never hides that the device could not be read.\<close>

lemma status_exit_bits:
  assumes "status_exit stdout e = Some x"
  shows "x AND 1 = 0 \<and> x AND 2 = 0 \<and> 4 \<le> x \<and> stdout \<noteq> []"
proof -
  from assms have x: "0 < x" "x AND 3 = 0" "stdout \<noteq> []"
    by (auto simp: status_exit_def smartctlFatalBits_def split: exec_error.splits option.splits if_splits)
  have "x AND 3 = x mod 4" using take_bit_eq_mask [of 2 x] take_bit_eq_mod [of 2 x] by (simp add: mask_eq_exp_minus_1)
  then have m: "x mod 4 = 0" using x(2) by simp
  have "x AND 1 = (x AND 3) AND 1" "x AND 2 = (x AND 3) AND 2" by (simp_all add: and.assoc)
  then show ?thesis using x m by (simp; presburger)
qed

text \<open>A pool is reported at most once for each time it is listed, and under its own name.\<close>

lemma zpool_line_name: "zp_Name (zpool_line p l) = zp_Name p"
  by (simp add: zpool_line_def Let_def)

lemma zpool_lines_name: "zp_Name (foldl zpool_line p ls) = zp_Name p"
  by (induction ls arbitrary: p) (simp_all add: zpool_line_name)

lemma zpool_names:
  assumes "ZpoolStatus w p = Inr pools" and "Run w [''zpool'', ''list'', ''-H'', ''-o'', ''name''] = (out, None)"
  shows "\<exists>keep. map zp_Name pools = filter keep (Fields (trim_space out))"
proof -
  have r: "map zp_Name (zpool_row w n) = (if zpool_row w n = [] then [] else [n])" for n
    by (auto simp: zpool_row_def parseZpoolStatus_def zpool_lines_name split: prod.splits option.splits sum.splits)
  have "map zp_Name (concat (map (zpool_row w) ns)) = filter (\<lambda>n. zpool_row w n \<noteq> []) ns" for ns
    by (induction ns) (simp_all add: r)
  then show ?thesis using assms by (auto simp: ZpoolStatus_def)
qed

end
