(* ===== verification/OpsUpdates.thy ===== *)
theory OpsUpdates
  imports OpsBase "HOL-Library.Monad_Syntax"
begin

text \<open>
  The ops about updates and file integrity: \<^verbatim>\<open>apt_pending.go\<close>, \<^verbatim>\<open>needrestart.go\<close>, \<^verbatim>\<open>reboot_marker.go\<close>,
  \<^verbatim>\<open>unattended_upgrades.go\<close>, \<^verbatim>\<open>rkhunter.go\<close>, \<^verbatim>\<open>aide_summary.go\<close> and \<^verbatim>\<open>systemd_timer.go\<close>. A slice that may be
  \<^verbatim>\<open>nil\<close> is an option.
\<close>

subsection \<open>Pending updates\<close>

record AptPendingResult =
  ap_LockState :: bytes
  ap_SecurityUpdatesPending :: "int option"
  ap_RegularUpdatesPending :: "int option"
  ap_HeldPackages :: "bytes list option"

definition count_inst :: "int \<times> int \<Rightarrow> bytes \<Rightarrow> int \<times> int" where
  "count_inst n line =
     (if \<not> has_prefix line ''Inst '' then n
      else if contains_sub line ''security'' then (fst n + 1, snd n)
      else (fst n, snd n + 1))"

definition countUpgrades :: "bytes \<Rightarrow> bytes + int \<times> int" where
  "countUpgrades b =
     (let (ls, err) = scan_with ''apt'' b
      in case err of Some e \<Rightarrow> Inl e | None \<Rightarrow> Inr (foldl count_inst (0, 0) ls))"

definition held_row :: "bytes \<Rightarrow> bytes list" where
  "held_row line =
     (let fields = Fields line in if length fields = 2 \<and> fields ! 1 = ''hold'' then [fields ! 0] else [])"

text \<open>With no package on hold the slice stays \<^verbatim>\<open>nil\<close>.\<close>

definition extractHeld :: "bytes \<Rightarrow> bytes + bytes list option" where
  "extractHeld b =
     (let (ls, err) = scan_with ''apt'' b; held = concat (map held_row ls)
      in case err of Some e \<Rightarrow> Inl e | None \<Rightarrow> Inr (if held = [] then None else Some held))"

definition AptPending :: "world \<Rightarrow> bytes \<Rightarrow> AptPendingResult op_result" where
  "AptPending w param =
     (let out = \<lparr>ap_LockState = ''acquired'', ap_SecurityUpdatesPending = None, ap_RegularUpdatesPending = None, ap_HeldPackages = Some []\<rparr>
      in case Run w [''apt-get'', ''-s'', ''upgrade''] of
           (upgradeOut, Some e) \<Rightarrow> Inr (out\<lparr>ap_LockState := ''contended''\<rparr>)
         | (upgradeOut, None) \<Rightarrow>
             (case countUpgrades upgradeOut of
                Inl m \<Rightarrow> Inl (op_error CodeToolFailed m)
              | Inr (sec, reg) \<Rightarrow>
                  (let out1 = out\<lparr>ap_SecurityUpdatesPending := Some sec, ap_RegularUpdatesPending := Some reg\<rparr>
                   in case Run w [''dpkg'', ''--get-selections''] of
                        (holdOut, Some e) \<Rightarrow> Inr out1
                      | (holdOut, None) \<Rightarrow>
                          (case extractHeld holdOut of
                             Inl m \<Rightarrow> Inr out1
                           | Inr held \<Rightarrow> Inr (out1\<lparr>ap_HeldPackages := held\<rparr>)))))"

subsection \<open>Services that need a restart\<close>

definition needrestart_row :: "bytes \<Rightarrow> bytes list" where
  "needrestart_row line =
     (if \<not> has_prefix line ''NEEDRESTART-SVC:'' then []
      else let svc = trim_space (trim_prefix line ''NEEDRESTART-SVC:'') in if svc \<noteq> [] then [svc] else [])"

definition Needrestart :: "world \<Rightarrow> bytes \<Rightarrow> bytes list op_result" where
  "Needrestart w param =
     (let (stdout, err) = Run w [''needrestart'', ''-r'', ''l'', ''-b'', ''-p'']
      in case (err, stdout) of
           (Some e, []) \<Rightarrow> Inl e
         | _ \<Rightarrow>
             (let (ls, serr) = scan_with ''needrestart'' stdout
              in case serr of
                   Some m \<Rightarrow> Inl (op_error CodeToolFailed m)
                 | None \<Rightarrow> Inr (concat (map needrestart_row ls))))"

subsection \<open>The reboot marker\<close>

record RebootMarker =
  rb_Present :: bool
  rb_Bytes :: int

definition rebootMarkerPath :: bytes where
  "rebootMarkerPath = ''/var/run/reboot-required''"

definition ReadRebootMarker :: "world \<Rightarrow> bytes \<Rightarrow> RebootMarker op_result" where
  "ReadRebootMarker w param =
     (case wd_stat w rebootMarkerPath of
        Inl (NotExist m) \<Rightarrow> Inr \<lparr>rb_Present = False, rb_Bytes = 0\<rparr>
      | Inl (StatFailed m) \<Rightarrow> Inl (Plain m)
      | Inr info \<Rightarrow> Inr \<lparr>rb_Present = True, rb_Bytes = fi_Size info\<rparr>)"

subsection \<open>Unattended upgrades\<close>

record UnattendedUpgradesStatusResult =
  uu_Enabled :: bool
  uu_LastRunTS :: "time option"
  uu_LastExitCode :: "int option"

definition unattendedUpgradesLogPath :: bytes where
  "unattendedUpgradesLogPath = ''/var/log/unattended-upgrades/unattended-upgrades.log''"

definition maxUnattendedLogBytes :: nat where
  "maxUnattendedLogBytes = 4 * 1024 * 1024"

definition unattended_key :: bytes where
  "unattended_key = ''APT::Periodic::Unattended-Upgrade '' @ [CHR 0x22]"

definition unattended_line :: "bytes \<Rightarrow> bytes \<Rightarrow> bytes" where
  "unattended_line last_val raw =
     (case after_sub (trim_space raw) unattended_key of
        None \<Rightarrow> last_val
      | Some rest \<Rightarrow> (case index_byte rest CHR 0x22 of None \<Rightarrow> last_val | Some e \<Rightarrow> take e rest))"

definition parseUnattendedFromAptConfig :: "bytes \<Rightarrow> bytes + bool" where
  "parseUnattendedFromAptConfig b =
     (let (ls, err) = scan_with ''apt-config dump'' b
      in case err of Some e \<Rightarrow> Inl e | None \<Rightarrow> Inr (foldl unattended_line [] ls = ''1''))"

definition exit_code_line :: "int option \<Rightarrow> bytes \<Rightarrow> int option" where
  "exit_code_line lastCode line =
     (if contains_sub line ''All upgrades installed'' \<or> contains_sub line ''No packages found that can be upgraded unattended''
      then Some 0
      else if contains_sub line ''Upgrade failed'' then Some 1
      else lastCode)"

definition parseUnattendedLastExitCode :: "bytes \<times> bytes option \<Rightarrow> int option" where
  "parseUnattendedLastExitCode rd =
     (let (ls, err) = scan_reader ''unattended-upgrades.log'' rd
      in case err of Some e \<Rightarrow> None | None \<Rightarrow> foldl exit_code_line None ls)"

text \<open>The status of the log is taken before it is opened; of a long log only the last part is read.\<close>

definition unattended_tail :: "file_info \<Rightarrow> bytes \<times> bytes option \<Rightarrow> bytes \<times> bytes option" where
  "unattended_tail info rd =
     limit_reader maxUnattendedLogBytes
       (if int maxUnattendedLogBytes < fi_Size info then (drop (nat (fi_Size info) - maxUnattendedLogBytes) (fst rd), snd rd) else rd)"

definition UnattendedUpgradesStatus :: "world \<Rightarrow> bytes \<Rightarrow> UnattendedUpgradesStatusResult op_result" where
  "UnattendedUpgradesStatus w param =
     (let out = \<lparr>uu_Enabled = False, uu_LastRunTS = None, uu_LastExitCode = None\<rparr>
      in case Run w [''apt-config'', ''dump''] of
           (stdout, Some e) \<Rightarrow> if has_code e CodeToolMissing then Inr out else Inl e
         | (stdout, None) \<Rightarrow>
             (case parseUnattendedFromAptConfig stdout of
                Inl m \<Rightarrow> Inl (Plain m)
              | Inr enabled \<Rightarrow>
                  (let out1 = out\<lparr>uu_Enabled := enabled\<rparr>
                   in case wd_stat w unattendedUpgradesLogPath of
                        Inl e \<Rightarrow> Inr out1
                      | Inr info \<Rightarrow>
                          (let out2 = out1\<lparr>uu_LastRunTS := Some (fi_ModTime info)\<rparr>
                           in case wd_file w unattendedUpgradesLogPath of
                                Inl e \<Rightarrow> Inr out2
                              | Inr rd \<Rightarrow> Inr (out2\<lparr>uu_LastExitCode := parseUnattendedLastExitCode (unattended_tail info rd)\<rparr>)))))"

subsection \<open>Rkhunter\<close>

record RkhunterSummaryResult =
  rk_Present :: bool
  rk_LastRunTS :: "time option"
  rk_WarningCount :: "int option"

definition rkhunterLogPath :: bytes where
  "rkhunterLogPath = ''/var/log/rkhunter.log''"

definition RkhunterSummary :: "world \<Rightarrow> bytes \<Rightarrow> RkhunterSummaryResult op_result" where
  "RkhunterSummary w param =
     (case wd_stat w rkhunterLogPath of
        Inl (NotExist m) \<Rightarrow> Inr \<lparr>rk_Present = False, rk_LastRunTS = None, rk_WarningCount = None\<rparr>
      | Inl (StatFailed m) \<Rightarrow> Inl (Plain m)
      | Inr info \<Rightarrow>
          (let out = \<lparr>rk_Present = True, rk_LastRunTS = Some (fi_ModTime info), rk_WarningCount = None\<rparr>
           in case wd_file w rkhunterLogPath of
                Inl e \<Rightarrow> Inr out
              | Inr rd \<Rightarrow>
                  (let (ls, err) = scan_reader ''rkhunter.log'' (limit_reader (16 * 1024 * 1024) rd)
                   in case err of
                        Some e \<Rightarrow> Inl (op_error CodeToolFailed e)
                      | None \<Rightarrow> Inr (out\<lparr>rk_WarningCount := Some (int (length (filter (\<lambda>l. contains_sub l ''Warning:'') ls)))\<rparr>))))"

subsection \<open>AIDE\<close>

record AideSummary =
  ai_Present :: bool
  ai_LastRunTS :: "time option"
  ai_LastExitCode :: "int option"
  ai_ChangeCount :: "int option"

definition dbPaths :: "bytes list" where
  "dbPaths = [''/var/lib/aide/aide.db'', ''/var/lib/aide/aide.db.new'']"

definition aideLogDir :: bytes where
  "aideLogDir = ''/var/log/aide''"

text \<open>
  The regular expressions: one of the texts, without regard to case, then white space, then digits,
  which are the match. The search goes from the left.
\<close>

definition re_blank :: "char \<Rightarrow> bool" where
  "re_blank c \<longleftrightarrow> c \<in> set [CHR '' '', CHR 0x09, CHR 0x0A, CHR 0x0C, CHR 0x0D]"

definition labelled :: "bytes \<Rightarrow> bytes \<Rightarrow> bytes option" where
  "labelled label s =
     (let r = drop (length label) s; t = dropWhile re_blank r; ds = takeWhile ascii_digit t
      in if has_prefix s label \<and> t \<noteq> r \<and> ds \<noteq> [] then Some ds else None)"

fun find_labelled :: "bytes list \<Rightarrow> bytes \<Rightarrow> bytes option" where
  "find_labelled ls [] = None"
| "find_labelled ls (c # s) =
     (case find (\<lambda>l. labelled l (c # s) \<noteq> None) ls of
        Some l \<Rightarrow> labelled l (c # s)
      | None \<Rightarrow> find_labelled ls s)"

definition re_count :: "bytes list \<Rightarrow> bytes \<Rightarrow> bytes option" where
  "re_count ls line = find_labelled ls (fold_name line)"

definition diffRE :: "bytes \<Rightarrow> bytes option" where
  "diffRE = re_count [''total number of differences:'']"

definition addedRE :: "bytes \<Rightarrow> bytes option" where
  "addedRE = re_count [''added entries:'', ''added entrie:'']"

definition removedRE :: "bytes \<Rightarrow> bytes option" where
  "removedRE = re_count [''removed entries:'', ''removed entrie:'']"

definition changedRE :: "bytes \<Rightarrow> bytes option" where
  "changedRE = re_count [''changed entries:'', ''changed entrie:'']"

text \<open>\<^verbatim>\<open>v, _ := strconv.Atoi(m)\<close> of digits: a number out of range is the greatest one in range.\<close>

definition digits_value :: "bytes \<Rightarrow> int" where
  "digits_value ds = (case parse_digits 10 0 ds of None \<Rightarrow> 0 | Some n \<Rightarrow> min (2 ^ 63 - 1) (int n))"

record aide_scan =
  as_cnt :: "int option"
  as_added :: int
  as_removed :: int
  as_changed :: int
  as_haveDetail :: bool
  as_foundDiff :: bool
  as_foundNoDiff :: bool

definition aide_headline :: "bytes \<Rightarrow> aide_scan \<Rightarrow> aide_scan" where
  "aide_headline line st =
     (if contains_sub line ''AIDE found NO differences'' then st\<lparr>as_foundNoDiff := True\<rparr>
      else if contains_sub line ''AIDE found differences'' then st\<lparr>as_foundDiff := True\<rparr>
      else st)"

definition aide_line :: "aide_scan \<Rightarrow> bytes \<Rightarrow> aide_scan" where
  "aide_line st0 line =
     (let st1 = aide_headline line st0;
          st2 = (case diffRE line of None \<Rightarrow> st1 | Some m \<Rightarrow> st1\<lparr>as_cnt := Some (digits_value m)\<rparr>);
          st3 = (case addedRE line of None \<Rightarrow> st2 | Some m \<Rightarrow> st2\<lparr>as_added := digits_value m, as_haveDetail := True\<rparr>);
          st4 = (case removedRE line of None \<Rightarrow> st3 | Some m \<Rightarrow> st3\<lparr>as_removed := digits_value m, as_haveDetail := True\<rparr>)
      in case changedRE line of None \<Rightarrow> st4 | Some m \<Rightarrow> st4\<lparr>as_changed := digits_value m, as_haveDetail := True\<rparr>)"

definition aide_scan_lines :: "bytes list \<Rightarrow> aide_scan" where
  "aide_scan_lines ls = foldl aide_line
     \<lparr>as_cnt = None, as_added = 0, as_removed = 0, as_changed = 0, as_haveDetail = False, as_foundDiff = False, as_foundNoDiff = False\<rparr> ls"

definition aide_detail :: "aide_scan \<Rightarrow> int option" where
  "aide_detail st = (if as_haveDetail st then Some (int64 (as_added st + as_removed st + as_changed st)) else as_cnt st)"

text \<open>The scanner is given a smaller buffer than usual: a line of 64 KiB ends the scan.\<close>

definition parseAideLog :: "bytes \<Rightarrow> bytes + int option \<times> int option" where
  "parseAideLog body =
     (let sc = (linescan_New body None ''aide log'')\<lparr>sc_max := 64 * 1024\<rparr>;
          st = aide_scan_lines (Lines sc); cnt = aide_detail st
      in case linescan_Err sc of
           Some e \<Rightarrow> Inl e
         | None \<Rightarrow>
             if as_foundNoDiff st \<and> \<not> as_foundDiff st then Inr (case cnt of None \<Rightarrow> Some 0 | Some c \<Rightarrow> Some c, Some 0)
             else if as_foundDiff st then Inr (cnt, Some 1)
             else Inr (cnt, None))"

definition looksLikeAideDB :: "world \<Rightarrow> bytes \<Rightarrow> bool" where
  "looksLikeAideDB w path =
     (case wd_file w path of
        Inl e \<Rightarrow> False
      | Inr (b, e) \<Rightarrow> take 2 b = [CHR 0x1F, CHR 0x8B])"

text \<open>\<open>wd_gunzip\<close> decompresses what a file holds, up to a limit, or fails.\<close>

definition readMaybeGzipped :: "world \<Rightarrow> bytes \<Rightarrow> bytes option" where
  "readMaybeGzipped w path =
     (case wd_file w path of
        Inl e \<Rightarrow> None
      | Inr rd \<Rightarrow>
          if has_suffix path ''.gz'' then wd_gunzip w (2 * 1024 * 1024) (fst rd)
          else (case limit_reader (2 * 1024 * 1024) rd of (b, None) \<Rightarrow> Some b | (b, Some e) \<Rightarrow> None))"

text \<open>
  \<^verbatim>\<open>sort.Slice\<close>, newest first. With two or more candidates every one is compared, and the information
  of one that has vanished is a nil interface whose method is called. Entries with equal times
  keep their order, as they do in the insertion sort Go uses for up to twelve elements.
\<close>

definition newest_first :: "dir_entry list \<Rightarrow> dir_entry list go" where
  "newest_first es =
     (if length es < 2 then Ret es
      else if list_all (\<lambda>e. dn_ModTime e \<noteq> None) es then Ret (sort_key (\<lambda>e. - the (dn_ModTime e)) es)
      else Panic ''invalid memory address or nil pointer dereference'')"

fun first_log :: "world \<Rightarrow> dir_entry list \<Rightarrow> int option \<times> int option" where
  "first_log w [] = (None, None)"
| "first_log w (e # es) =
     (case readMaybeGzipped w (filepath_Join aideLogDir (dn_Name e)) of
        None \<Rightarrow> first_log w es
      | Some body \<Rightarrow>
          (case parseAideLog body of
             Inl m \<Rightarrow> (None, None)
           | Inr (None, ex) \<Rightarrow> first_log w es
           | Inr (Some c, ex) \<Rightarrow> (Some c, ex)))"

definition readAideLog :: "world \<Rightarrow> (int option \<times> int option) go" where
  "readAideLog w =
     (case wd_dir w aideLogDir of
        Inl e \<Rightarrow> Ret (None, None)
      | Inr entries \<Rightarrow>
          (case newest_first (filter (\<lambda>e. has_prefix (dn_Name e) ''aide.log'') entries) of
             Panic m \<Rightarrow> Panic m
           | Ret es \<Rightarrow> Ret (first_log w es)))"

fun first_stat :: "world \<Rightarrow> bytes list \<Rightarrow> file_info option" where
  "first_stat w [] = None"
| "first_stat w (p # ps) = (case wd_stat w p of Inr info \<Rightarrow> Some info | Inl e \<Rightarrow> first_stat w ps)"

definition ReadAideSummary :: "world \<Rightarrow> bytes \<Rightarrow> AideSummary op_result go" where
  "ReadAideSummary w param =
     (case first_stat w dbPaths of
        None \<Rightarrow> Ret (Inr \<lparr>ai_Present = False, ai_LastRunTS = None, ai_LastExitCode = None, ai_ChangeCount = None\<rparr>)
      | Some info \<Rightarrow>
          (let out = \<lparr>ai_Present = True, ai_LastRunTS = Some (fi_ModTime info), ai_LastExitCode = None, ai_ChangeCount = None\<rparr>
           in case readAideLog w of
                Panic m \<Rightarrow> Panic m
              | Ret (None, ex) \<Rightarrow> Ret (Inr out)
              | Ret (Some c, ex) \<Rightarrow> Ret (Inr (out\<lparr>ai_ChangeCount := Some c, ai_LastExitCode := ex\<rparr>))))"

subsection \<open>The last trigger of a timer\<close>

record SystemdTimerLastTriggerResult =
  st_Present :: bool
  st_LastTrigger :: "time option"

definition timerUnitRE :: "bytes \<Rightarrow> bool" where
  "timerUnitRE s =
     (case s of
        [] \<Rightarrow> False
      | c # r \<Rightarrow> ascii_alnum c \<and> has_suffix r ''.timer'' \<and>
          list_all (\<lambda>x. ascii_alnum x \<or> x \<in> set ''._@-'') r)"

definition timerUnitRE_text :: bytes where
  "timerUnitRE_text = ''^[A-Za-z0-9][A-Za-z0-9._@-]*'' @ [CHR 0x5C] @ ''.timer$''"

definition SystemdTimerLastTrigger :: "world \<Rightarrow> bytes \<Rightarrow> SystemdTimerLastTriggerResult op_result" where
  "SystemdTimerLastTrigger w param =
     (let unit = trim_space param
      in if \<not> timerUnitRE unit then Inl (op_error CodeToolFailed (''systemd_timer_last_trigger: param must match '' @ timerUnitRE_text))
         else case Run w [''systemctl'', ''show'', unit, ''--property=LastTriggerUSec'', ''--value''] of
           (stdout, Some e) \<Rightarrow> if has_code e CodeToolMissing then Inr \<lparr>st_Present = False, st_LastTrigger = None\<rparr> else Inl e
         | (stdout, None) \<Rightarrow>
             (let v = trim_space (if has_suffix stdout [CHR 0x0A] then butlast stdout else stdout)
              in if v = [] \<or> v = ''0'' \<or> fold_name v = ''n/a'' then Inr \<lparr>st_Present = True, st_LastTrigger = None\<rparr>
                 else case atoi v of
                   None \<Rightarrow> Inl (op_error CodeToolFailed
                     (''systemd_timer_last_trigger: parse LastTriggerUSec: '' @ wd_error w ''strconv.ParseInt'' v))
                 | Some usec \<Rightarrow> Inr \<lparr>st_Present = True, st_LastTrigger = Some (usec * 1000)\<rparr>))"

subsection \<open>Properties\<close>

text \<open>
  The counts of pending updates: every upgrade line is counted once, and none when the listing was
  cut.
\<close>

lemma count_inst_all:
  "foldl count_inst (a, b) ls =
     (a + int (length (filter (\<lambda>l. has_prefix l ''Inst '' \<and> contains_sub l ''security'') ls)),
      b + int (length (filter (\<lambda>l. has_prefix l ''Inst '' \<and> \<not> contains_sub l ''security'') ls)))"
  by (induction ls arbitrary: a b) (auto simp: count_inst_def)

lemma length_filter_split: "length (filter P xs) = length (filter (\<lambda>x. P x \<and> Q x) xs) + length (filter (\<lambda>x. P x \<and> \<not> Q x) xs)"
  by (induction xs) auto

lemma countUpgrades_total:
  "countUpgrades b = Inr (sec, reg) \<Longrightarrow>
     sec + reg = int (length (filter (\<lambda>l. has_prefix l ''Inst '') (fst (scan_with ''apt'' b))))"
  using length_filter_split [of "\<lambda>l. has_prefix l ''Inst ''" "fst (scan_with ''apt'' b)" "\<lambda>l. contains_sub l ''security''"]
  by (auto simp: countUpgrades_def count_inst_all split_beta split: option.splits)

text \<open>A package whose name contains the word counts as a security update, wherever it comes from.\<close>

lemma security_by_name: "count_inst n ''Inst libsecurity-perl [1.0] (1.1 Debian:13.1/stable [all])'' = (fst n + 1, snd n)"
  by (simp add: count_inst_def)

text \<open>Output that a failed run left behind is taken for the whole list of services.\<close>

lemma needrestart_partial:
  assumes "Run w [''needrestart'', ''-r'', ''l'', ''-b'', ''-p''] = (''NEEDRESTART-SVC: ssh'', Some e)"
  shows "Needrestart w p = Inr [''ssh'']"
proof -
  have "scan_with ''needrestart'' ''NEEDRESTART-SVC: ssh'' = ([''NEEDRESTART-SVC: ssh''], None)"
    using scan_with_spec [of "[]" "''NEEDRESTART-SVC: ssh''" "''needrestart''"] by (simp add: MaxLine_def drop_cr_def)
  moreover have "needrestart_row ''NEEDRESTART-SVC: ssh'' = [''ssh'']" by code_simp
  ultimately show ?thesis by (simp add: Needrestart_def assms)
qed

text \<open>The error of any kind that \<^verbatim>\<open>apt-get\<close> ends with is reported as a held lock.\<close>

lemma apt_failure_is_contended:
  "Run w [''apt-get'', ''-s'', ''upgrade''] = (out, Some e) \<Longrightarrow>
     \<exists>r. AptPending w p = Inr r \<and> ap_LockState r = ''contended'' \<and> ap_SecurityUpdatesPending r = None"
  by (simp add: AptPending_def)

text \<open>A warning behind the first sixteen megabytes of the log is not counted, and nothing says so.\<close>

lemma rkhunter_counts_prefix:
  assumes "wd_stat w rkhunterLogPath = Inr info" and "wd_file w rkhunterLogPath = Inr (pre @ rest, e)"
    and "length pre = 16 * 1024 * 1024"
  shows "RkhunterSummary w p = RkhunterSummary (w\<lparr>wd_file := (wd_file w)(rkhunterLogPath := Inr (pre, None))\<rparr>) p"
  using assms by (simp add: RkhunterSummary_def limit_reader_def)

text \<open>
  A vanished log among several stops the helper; a log that cannot be read is passed over for an
  older one.
\<close>

lemma aide_vanished_log_panics:
  assumes "first_stat w dbPaths = Some info" and "wd_dir w aideLogDir = Inr [a, b]"
    and "has_prefix (dn_Name a) ''aide.log''" "has_prefix (dn_Name b) ''aide.log''" and "dn_ModTime a = None"
  shows "\<exists>m. ReadAideSummary w p = Panic m"
  using assms by (simp add: ReadAideSummary_def readAideLog_def newest_first_def Let_def)

lemma aide_unreadable_newest_skipped:
  "readMaybeGzipped w (filepath_Join aideLogDir (dn_Name e)) = None \<Longrightarrow> first_log w (e # es) = first_log w es"
  by simp

text \<open>A log that was cut short ends the search: no older count is reported in its place.\<close>

lemma aide_truncated_stops:
  assumes "readMaybeGzipped w (filepath_Join aideLogDir (dn_Name e)) = Some body" and "snd (scan_lines (64 * 1024) body)"
  shows "first_log w (e # es) = (None, None)"
  using assms by (simp add: parseAideLog_def linescan_Err_def bufio_Err_def linescan_New_def Let_def)

text \<open>The count and the exit code agree: a clean headline alone gives zero and zero.\<close>

lemma aide_clean_report:
  assumes "parseAideLog body = Inr (c, Some 0)"
  shows "c \<noteq> None"
  using assms by (auto simp: parseAideLog_def Let_def split: option.splits if_splits dest: sym)

text \<open>The name of a timer that passes can not be read as an option.\<close>

lemma timer_not_option: "timerUnitRE u \<Longrightarrow> \<not> has_prefix u ''-''"
  by (auto simp: timerUnitRE_def ascii_alnum_def ascii_digit_def ascii_upper_def ascii_lower_def split: list.splits)

end
