(* ===== verification/OpsSecurity.thy ===== *)
theory OpsSecurity
  imports OpsBase
begin

text \<open>
  \<^verbatim>\<open>fail2ban.go\<close>, \<^verbatim>\<open>audit_status.go\<close> and \<^verbatim>\<open>audit_netlink.go\<close>: the ban counts and the state of the kernel's audit
  subsystem. The netlink socket is an argument: what each system call on it answers.
\<close>

subsection \<open>Fail2ban\<close>

definition jailNameRE :: "bytes \<Rightarrow> bool" where
  "jailNameRE s =
     (case s of
        [] \<Rightarrow> False
      | c # r \<Rightarrow> (ascii_upper c \<or> ascii_lower c) \<and> length r \<le> 63 \<and> list_all (\<lambda>x. ascii_alnum x \<or> x \<in> set ''._-'') r)"

record Fail2banStatusResult =
  fb_Present :: bool
  fb_JailCount :: int
  fb_TotalBanned :: int

text \<open>The parsers return at the first line that has their label; only when there is none does the scanner's error count.\<close>

fun jail_list :: "bytes list \<Rightarrow> bytes list option" where
  "jail_list [] = None"
| "jail_list (line # ls) =
     (case after_sub line ''Jail list:'' of
        None \<Rightarrow> jail_list ls
      | Some r \<Rightarrow>
          (let rest = trim_space r
           in if rest = [] then Some []
              else Some (filter (\<lambda>n. n \<noteq> []) (map trim_space (split_on CHR '','' [] rest)))))"

definition parseFail2banJailList :: "bytes \<Rightarrow> bytes + bytes list" where
  "parseFail2banJailList b =
     (let (ls, err) = scan_with ''fail2ban-client'' b
      in case jail_list ls of
           Some js \<Rightarrow> Inr js
         | None \<Rightarrow> (case err of Some e \<Rightarrow> Inl e | None \<Rightarrow> Inr []))"

fun currently_banned :: "bytes list \<Rightarrow> int option" where
  "currently_banned [] = None"
| "currently_banned (line # ls) =
     (case after_sub line ''Currently banned:'' of
        None \<Rightarrow> currently_banned ls
      | Some r \<Rightarrow>
          (case Fields (trim_space r) of
             [] \<Rightarrow> Some 0
           | f # fs \<Rightarrow> Some (case atoi f of None \<Rightarrow> 0 | Some n \<Rightarrow> n)))"

definition parseFail2banCurrentlyBanned :: "bytes \<Rightarrow> bytes + int" where
  "parseFail2banCurrentlyBanned b =
     (let (ls, err) = scan_with ''fail2ban-client'' b
      in case currently_banned ls of
           Some n \<Rightarrow> Inr n
         | None \<Rightarrow> (case err of Some e \<Rightarrow> Inl e | None \<Rightarrow> Inr 0))"

fun sum_jails :: "world \<Rightarrow> int \<Rightarrow> bytes list \<Rightarrow> bytes + int" where
  "sum_jails w tot [] = Inr tot"
| "sum_jails w tot (jail # js) =
     (case Run w [''fail2ban-client'', ''status'', jail] of
        (jailOut, Some e) \<Rightarrow> sum_jails w tot js
      | (jailOut, None) \<Rightarrow>
          (case parseFail2banCurrentlyBanned jailOut of
             Inl m \<Rightarrow> Inl m
           | Inr banned \<Rightarrow> sum_jails w (int64 (tot + banned)) js))"

definition Fail2banStatus :: "world \<Rightarrow> bytes \<Rightarrow> Fail2banStatusResult op_result" where
  "Fail2banStatus w param =
     (case Run w [''fail2ban-client'', ''status''] of
        (stdout, Some e) \<Rightarrow>
          if has_code e CodeToolMissing then Inr \<lparr>fb_Present = False, fb_JailCount = 0, fb_TotalBanned = 0\<rparr> else Inl e
      | (stdout, None) \<Rightarrow>
          (case parseFail2banJailList stdout of
             Inl m \<Rightarrow> Inl (op_error CodeToolFailed m)
           | Inr allj \<Rightarrow>
               (let jails = filter jailNameRE allj
                in case sum_jails w 0 jails of
                     Inl m \<Rightarrow> Inl (op_error CodeToolFailed m)
                   | Inr tot \<Rightarrow> Inr \<lparr>fb_Present = True, fb_JailCount = int (length jails), fb_TotalBanned = tot\<rparr>)))"

subsection \<open>The audit subsystem over netlink\<close>

datatype socket_error = ProtocolNotSupported | SocketError bytes

datatype recv_error = WouldBlock | RecvError bytes

text \<open>
  The socket's calls: opening and binding it, the time left until the deadline of the context if
  it has one, sending a request and receiving the answer to it, and the text of an errno.
\<close>

record netlink =
  nl_socket :: "socket_error option"
  nl_bind :: "bytes option"
  nl_remain :: "int option"
  nl_send :: "bytes \<Rightarrow> bytes option"
  nl_recv :: "bytes \<Rightarrow> recv_error + bytes"
  nl_strerror :: "int \<Rightarrow> bytes"

definition auditGet :: nat where
  "auditGet = 1000"

definition nlmsgError :: nat where
  "nlmsgError = 2"

definition auditStatusMinSize :: nat where
  "auditStatusMinSize = 32"

record auditStatus =
  au_Mask :: nat
  au_Enabled :: nat
  au_Failure :: nat
  au_Pid :: nat
  au_RateLimit :: nat
  au_BacklogLimit :: nat
  au_Lost :: nat
  au_Backlog :: nat

datatype audit_error = KernelAuditAbsent | AuditError bytes

definition parseAuditStatusBytes :: "bytes \<Rightarrow> auditStatus" where
  "parseAuditStatusBytes b =
     \<lparr>au_Mask = get_le32 (take 4 b), au_Enabled = get_le32 (take 4 (drop 4 b)), au_Failure = get_le32 (take 4 (drop 8 b)),
      au_Pid = get_le32 (take 4 (drop 12 b)), au_RateLimit = get_le32 (take 4 (drop 16 b)),
      au_BacklogLimit = get_le32 (take 4 (drop 20 b)), au_Lost = get_le32 (take 4 (drop 24 b)), au_Backlog = get_le32 (take 4 (drop 28 b))\<rparr>"

text \<open>\<^verbatim>\<open>binary.LittleEndian\<close> for 16 bits.\<close>

definition put_le16 :: "nat \<Rightarrow> bytes" where
  "put_le16 n = [char_of (n mod 256), char_of (n div 256 mod 256)]"

definition get_le16 :: "bytes \<Rightarrow> nat" where
  "get_le16 p = of_char (p ! 0) + 256 * of_char (p ! 1)"

definition NLM_F_REQUEST :: nat where
  "NLM_F_REQUEST = 1"

definition audit_request :: bytes where
  "audit_request = put_le32 16 @ put_le16 auditGet @ put_le16 NLM_F_REQUEST @ put_le32 1 @ put_le32 0"

definition int32 :: "nat \<Rightarrow> int" where
  "int32 n = (if 2 ^ 31 \<le> n then int n - 2 ^ 32 else int n)"

text \<open>The negation of an \<^verbatim>\<open>int32\<close>, whose least value is its own negation.\<close>

definition neg32 :: "int \<Rightarrow> int" where
  "neg32 i = (if i = - (2 ^ 31) then i else - i)"

definition deadline_exceeded :: bytes where
  "deadline_exceeded = ''context deadline exceeded''"

definition audit_reply :: "(int \<Rightarrow> bytes) \<Rightarrow> bytes \<Rightarrow> audit_error + auditStatus" where
  "audit_reply strerror buf =
     (let n = length buf
      in if n < 16 then Inl (AuditError ''netlink: truncated header'')
         else if n < get_le32 (take 4 buf) then Inl (AuditError ''netlink: short message body'')
         else let typ = get_le16 (take 2 (drop 4 buf))
         in if typ = nlmsgError then
              (if n < 20 then Inl (AuditError ''netlink: truncated error'')
               else let errno = int32 (get_le32 (take 4 (drop 16 buf)))
               in if errno = 0 then Inl (AuditError ''netlink: NLMSG_ERROR with errno=0 (unexpected without NLM_F_ACK)'')
                  else Inl (AuditError (''netlink: kernel returned errno '' @ itoa (neg32 errno) @ '' ('' @ strerror (neg32 errno) @ '')'')))
            else if typ = auditGet then
              (if n < 16 + auditStatusMinSize then Inl (AuditError ''netlink: short audit_status payload'')
               else Inr (parseAuditStatusBytes (take auditStatusMinSize (drop 16 buf))))
            else Inl (AuditError (''netlink: unexpected message type '' @ itoa (int typ))))"

definition queryAuditStatus :: "netlink \<Rightarrow> audit_error + auditStatus" where
  "queryAuditStatus nl =
     (case nl_socket nl of
        Some ProtocolNotSupported \<Rightarrow> Inl KernelAuditAbsent
      | Some (SocketError e) \<Rightarrow> Inl (AuditError (''netlink socket: '' @ e))
      | None \<Rightarrow>
          (case nl_bind nl of
             Some e \<Rightarrow> Inl (AuditError (''netlink bind: '' @ e))
           | None \<Rightarrow>
               if (case nl_remain nl of Some r \<Rightarrow> r \<le> 0 | None \<Rightarrow> False) then Inl (AuditError deadline_exceeded)
               else case nl_send nl audit_request of
                 Some e \<Rightarrow> Inl (AuditError (''netlink send: '' @ e))
               | None \<Rightarrow>
                   (case nl_recv nl audit_request of
                      Inl WouldBlock \<Rightarrow> Inl (AuditError deadline_exceeded)
                    | Inl (RecvError e) \<Rightarrow> Inl (AuditError (''netlink recv: '' @ e))
                    | Inr msg \<Rightarrow> audit_reply (nl_strerror nl) (take 8192 msg))))"

subsection \<open>The audit status\<close>

record AuditStatus =
  ad_Present :: bool
  ad_QueueDepth :: "int option"
  ad_LostEvents :: "int option"
  ad_LastRotationTS :: "time option"
  ad_NetlinkError :: bytes

definition rotatedSuffixRE :: "bytes \<Rightarrow> bool" where
  "rotatedSuffixRE s =
     (let ds = takeWhile ascii_digit s; r = drop (length ds) s in ds \<noteq> [] \<and> (r = [] \<or> r = ''.gz''))"

definition rotated :: "bytes \<Rightarrow> dir_entry \<Rightarrow> bool" where
  "rotated pre e \<longleftrightarrow> has_prefix (dn_Name e) pre \<and> rotatedSuffixRE (trim_prefix (dn_Name e) pre)"

definition newer :: "time \<Rightarrow> dir_entry \<Rightarrow> time" where
  "newer newest e = (case dn_ModTime e of None \<Rightarrow> newest | Some t \<Rightarrow> if newest < t then t else newest)"

definition newestRotatedLog :: "world \<Rightarrow> bytes \<Rightarrow> bytes \<Rightarrow> time" where
  "newestRotatedLog w dir pre =
     (case wd_dir w dir of
        Inl e \<Rightarrow> zero_time
      | Inr entries \<Rightarrow> foldl newer zero_time (filter (rotated pre) entries))"

definition with_rotation :: "world \<Rightarrow> AuditStatus \<Rightarrow> AuditStatus" where
  "with_rotation w out =
     (let ts = newestRotatedLog w ''/var/log/audit'' ''audit.log.''
      in if ts = zero_time then out else out\<lparr>ad_LastRotationTS := Some ts\<rparr>)"

definition ReadAuditStatus :: "netlink \<Rightarrow> world \<Rightarrow> bytes \<Rightarrow> AuditStatus op_result" where
  "ReadAuditStatus nl w param =
     (let out = \<lparr>ad_Present = False, ad_QueueDepth = None, ad_LostEvents = None, ad_LastRotationTS = None, ad_NetlinkError = []\<rparr>
      in case queryAuditStatus nl of
           Inl KernelAuditAbsent \<Rightarrow> Inr out
         | Inl (AuditError m) \<Rightarrow> Inr (with_rotation w (out\<lparr>ad_NetlinkError := m\<rparr>))
         | Inr st \<Rightarrow>
             Inr (with_rotation w (out\<lparr>ad_Present := True, ad_QueueDepth := Some (int (au_Backlog st)),
                                       ad_LostEvents := Some (int (au_Lost st))\<rparr>)))"

subsection \<open>Properties\<close>

lemma jail_not_option: "jailNameRE j \<Longrightarrow> \<not> has_prefix j ''-''"
  by (auto simp: jailNameRE_def ascii_upper_def ascii_lower_def split: list.splits)

text \<open>
  What the kernel sends for \<^verbatim>\<open>AUDIT_GET\<close>: a header with the length and the type, then the eight words of the
  status, then whatever a later kernel adds.
\<close>

definition kernel_reply :: "nat \<Rightarrow> nat \<Rightarrow> auditStatus \<Rightarrow> bytes \<Rightarrow> bytes" where
  "kernel_reply sq pid st tail =
     put_le32 (48 + length tail) @ put_le16 auditGet @ put_le16 0 @ put_le32 sq @ put_le32 pid @
     put_le32 (au_Mask st) @ put_le32 (au_Enabled st) @ put_le32 (au_Failure st) @ put_le32 (au_Pid st) @
     put_le32 (au_RateLimit st) @ put_le32 (au_BacklogLimit st) @ put_le32 (au_Lost st) @ put_le32 (au_Backlog st) @ tail"

definition audit_words_ok :: "auditStatus \<Rightarrow> bool" where
  "audit_words_ok st \<longleftrightarrow> list_all (\<lambda>n. n < 2 ^ 32)
     [au_Mask st, au_Enabled st, au_Failure st, au_Pid st, au_RateLimit st, au_BacklogLimit st, au_Lost st, au_Backlog st]"

lemma parse_status_words:
  assumes "audit_words_ok st"
  shows "parseAuditStatusBytes (put_le32 (au_Mask st) @ put_le32 (au_Enabled st) @ put_le32 (au_Failure st) @ put_le32 (au_Pid st) @
     put_le32 (au_RateLimit st) @ put_le32 (au_BacklogLimit st) @ put_le32 (au_Lost st) @ put_le32 (au_Backlog st)) = st"
  using assms by (simp add: parseAuditStatusBytes_def audit_words_ok_def get_put_le32)

lemma length_put_le16 [simp]: "length (put_le16 n) = 2"
  by (simp add: put_le16_def)

lemma get_put_le16: "n < 2 ^ 16 \<Longrightarrow> get_le16 (put_le16 n) = n"
proof -
  assume "n < 2 ^ 16"
  then have "n div 256 mod 256 = n div 256" by simp
  then show ?thesis using mod_mult_div_eq [of n 256] by (simp add: get_le16_def put_le16_def add.commute)
qed

text \<open>
  C36: The reader of the audit reply inverts the kernel's encoding: every status whose words fit 32
  bits is read back field by field, whatever sequence number and port the header carries and
  however much a later kernel appends, as long as the message fits the buffer; and a message with
  a part cut off is an error and never a status.
\<close>

theorem audit_reply_roundtrip:
  assumes "audit_words_ok st" and "48 + length tail \<le> 8192"
  shows "audit_reply strerror (take 8192 (kernel_reply sq pid st tail)) = Inr st \<and>
    (n < 48 + length tail \<longrightarrow> (\<exists>e. audit_reply strerror (take n (kernel_reply sq pid st tail)) = Inl e))"
proof
  let ?m = "kernel_reply sq pid st tail"
  have l: "length ?m = 48 + length tail" by (simp add: kernel_reply_def)
  have len: "get_le32 (take 4 ?m) = 48 + length tail" using assms(2) by (simp add: kernel_reply_def get_put_le32)
  have ty: "get_le16 (take 2 (drop 4 ?m)) = auditGet" by (simp add: kernel_reply_def get_put_le16 auditGet_def)
  have body: "parseAuditStatusBytes (take auditStatusMinSize (drop 16 ?m)) = st"
    using parse_status_words [OF assms(1)] by (simp add: kernel_reply_def auditStatusMinSize_def)
  show "audit_reply strerror (take 8192 ?m) = Inr st"
    using assms(2) l len ty body by (simp add: audit_reply_def Let_def auditGet_def nlmsgError_def auditStatusMinSize_def)
  show "n < 48 + length tail \<longrightarrow> (\<exists>e. audit_reply strerror (take n ?m) = Inl e)"
  proof
    assume n: "n < 48 + length tail"
    show "\<exists>e. audit_reply strerror (take n ?m) = Inl e"
    proof (cases "n < 16")
      case False
      then have "get_le32 (take 4 (take n ?m)) = 48 + length tail" using len by (simp add: min_def)
      then show ?thesis using n l False by (simp add: audit_reply_def Let_def)
    qed (simp add: audit_reply_def Let_def)
  qed
qed

definition sample_status :: auditStatus where
  "sample_status = \<lparr>au_Mask = 0, au_Enabled = 1, au_Failure = 1, au_Pid = 700, au_RateLimit = 0, au_BacklogLimit = 8192,
     au_Lost = 3, au_Backlog = 2 ^ 31\<rparr>"

theorem audit_reply_roundtrip_witness:
  "audit_reply itoa (take 8192 (kernel_reply 1 0 sample_status ''tail'')) = Inr sample_status \<and>
    (\<exists>e. audit_reply itoa (take 47 (kernel_reply 1 0 sample_status ''tail'')) = Inl e)"
  using audit_reply_roundtrip [of sample_status "''tail''" itoa 1 0 47] by (simp add: audit_words_ok_def sample_status_def)

end
