(* ===== verification/OpsWeb.thy ===== *)
theory OpsWeb
  imports OpsBase "HOL-Library.Monad_Syntax"
begin

text \<open>
  \<^verbatim>\<open>dovecot.go\<close> and \<^verbatim>\<open>nginx_apache.go\<close>: the state of the mail and the web server. The second reads the end
  of an access log whose path the caller names; the path is checked against prefixes the operator
  sets.
\<close>

subsection \<open>Dovecot\<close>

record DovecotStatusResult =
  dv_ProcessState :: bytes
  dv_ConnectionCount :: int
  dv_Warning :: bytes

definition dovecotKnownStates :: "bytes list" where
  "dovecotKnownStates = [''active'', ''inactive'', ''failed'', ''activating'', ''deactivating'', ''unknown'']"

definition trim_right_blanks :: "bytes \<Rightarrow> bytes" where
  "trim_right_blanks s = rev (dropWhile (\<lambda>c. c = CHR '' '' \<or> c = CHR 0x09) (rev s))"

definition who_header :: "bytes \<Rightarrow> bool" where
  "who_header line =
     (let fields = Fields line in 2 \<le> length fields \<and> fold_name (fields ! 0) = ''username'' \<and> fields ! 1 = ''#'')"

definition who_count :: "bytes list \<Rightarrow> int" where
  "who_count ls =
     (case filter (\<lambda>l. l \<noteq> []) (map trim_right_blanks ls) of
        [] \<Rightarrow> 0
      | l # rest \<Rightarrow> int (length rest) + (if who_header l then 0 else 1))"

definition parseDoveadmWho :: "bytes \<Rightarrow> bytes + int" where
  "parseDoveadmWho b =
     (let (ls, err) = scan_with ''doveadm who'' b
      in case err of Some e \<Rightarrow> Inl e | None \<Rightarrow> Inr (who_count ls))"

definition error_text :: "exec_error \<Rightarrow> bytes" where
  "error_text e = (case e of Typed de \<Rightarrow> dispatch_Error_Error de | Plain m \<Rightarrow> m)"

definition dovecot_sessions :: "world \<Rightarrow> DovecotStatusResult \<Rightarrow> DovecotStatusResult" where
  "dovecot_sessions w out =
     (case Run w [''doveadm'', ''who'', ''-1''] of
        (whoOut, Some e) \<Rightarrow>
          if dv_ProcessState out = ''active'' then out\<lparr>dv_Warning := ''doveadm who failed: '' @ error_text e\<rparr> else out
      | (whoOut, None) \<Rightarrow>
          (case parseDoveadmWho whoOut of
             Inl m \<Rightarrow> if dv_ProcessState out = ''active'' then out\<lparr>dv_Warning := ''doveadm who: '' @ m\<rparr> else out
           | Inr n \<Rightarrow> out\<lparr>dv_ConnectionCount := n\<rparr>))"

definition dovecot_state :: "bytes \<Rightarrow> DovecotStatusResult \<Rightarrow> DovecotStatusResult" where
  "dovecot_state state out = (if state \<in> set dovecotKnownStates then out\<lparr>dv_ProcessState := state\<rparr> else out)"

definition DovecotStatus :: "world \<Rightarrow> bytes \<Rightarrow> DovecotStatusResult op_result" where
  "DovecotStatus w param =
     (let out = \<lparr>dv_ProcessState = ''unknown'', dv_ConnectionCount = 0, dv_Warning = []\<rparr>;
          (stdout, err) = Run w [''systemctl'', ''is-active'', ''dovecot.service''];
          state = trim_space stdout
      in case err of
           None \<Rightarrow> Inr (dovecot_sessions w (dovecot_state state out))
         | Some (Plain m) \<Rightarrow> Inl (Plain m)
         | Some (Typed de) \<Rightarrow>
             if de_Code de = CodeToolMissing then Inr (out\<lparr>dv_ProcessState := ''not_installed''\<rparr>)
             else if de_Code de = CodeToolFailed then
               (if state = ''inactive'' \<and> contains_sub (de_StderrPrefix de) ''could not be found''
                then Inr (out\<lparr>dv_ProcessState := ''not_installed''\<rparr>)
                else Inr (dovecot_sessions w (dovecot_state state out)))
             else Inl (Typed de))"

subsection \<open>Web servers\<close>

record NginxApacheStatusParam =
  np_AccessLogPath :: bytes
  np_AccessLogWindowMin :: int
  np_AccessLogTailBytes :: int

record NginxApacheStatusResult =
  ng_Server :: bytes
  ng_WorkerCount :: int
  ng_Recent4xx :: "int option"
  ng_Recent5xx :: "int option"
  ng_RecentWindowMinutes :: int
  ng_RecentCoverage :: bytes
  ng_Warning :: bytes

definition defaultAccessLogWindowMin :: int where
  "defaultAccessLogWindowMin = 60"

definition defaultAccessLogTailBytes :: int where
  "defaultAccessLogTailBytes = 256 * 1024"

definition maxAccessLogTailBytes :: int where
  "maxAccessLogTailBytes = 4 * 1024 * 1024"

definition dec_nginx_param :: "bytes \<Rightarrow> NginxApacheStatusParam option" where
  "dec_nginx_param s = do {
     ms \<leftarrow> dec_struct s;
     p \<leftarrow> dec_field dec_string [] ms ''access_log_path'';
     w \<leftarrow> dec_field dec_int 0 ms ''access_log_window_minutes'';
     t \<leftarrow> dec_field dec_int 0 ms ''access_log_tail_bytes'';
     Some \<lparr>np_AccessLogPath = p, np_AccessLogWindowMin = w, np_AccessLogTailBytes = t\<rparr> }"

definition allDigits :: "bytes \<Rightarrow> bool" where
  "allDigits s \<longleftrightarrow> s \<noteq> [] \<and> list_all ascii_digit s"

definition proc_comm :: "world \<Rightarrow> bytes \<Rightarrow> dir_entry \<Rightarrow> bytes option" where
  "proc_comm w procRoot e =
     (if \<not> dn_IsDir e \<or> \<not> allDigits (dn_Name e) then None
      else case ReadFile w (filepath_Clean (procRoot @ ''/'' @ dn_Name e @ ''/comm'')) of
        Inl err \<Rightarrow> None
      | Inr b \<Rightarrow> Some (trim_space b))"

definition detectServer :: "world \<Rightarrow> bytes \<Rightarrow> bytes \<times> int \<times> int" where
  "detectServer w procRoot =
     (case wd_dir w procRoot of
        Inl e \<Rightarrow> (''none'', 0, 0)
      | Inr entries \<Rightarrow>
          (let comms = map (proc_comm w procRoot) entries;
               nginxCount = int (length (filter (\<lambda>c. c = Some ''nginx'') comms));
               apacheCount = int (length (filter (\<lambda>c. c = Some ''apache2'' \<or> c = Some ''httpd'') comms))
           in if 0 < nginxCount then (''nginx'', nginxCount, apacheCount)
              else if 0 < apacheCount then (''apache'', nginxCount, apacheCount)
              else (''none'', 0, 0)))"

subsubsection \<open>The paths that may be read\<close>

definition clean_prefix :: "bytes \<Rightarrow> bytes list" where
  "clean_prefix raw =
     (let p = trim_space raw
      in if p = [] \<or> \<not> has_prefix p ''/'' then []
         else if has_suffix p ''/'' then [p] else [p @ ''/''])"

text \<open>The variable \<^verbatim>\<open>accessLogAllowedPrefixes\<close> before and after the call.\<close>

definition accessLogAllowedPrefixes :: "bytes list" where
  "accessLogAllowedPrefixes = [''/var/log/'']"

definition SetAccessLogPrefixes :: "bytes list \<Rightarrow> bytes list \<Rightarrow> bytes list" where
  "SetAccessLogPrefixes old allowed =
     (let clean = concat (map clean_prefix allowed) in if clean \<noteq> [] then clean else old)"

definition checkAccessLogPath :: "bytes list \<Rightarrow> bytes \<Rightarrow> bytes option" where
  "checkAccessLogPath allowed path =
     (if \<not> has_prefix path ''/'' then Some ''access_log_path must be absolute''
      else if list_ex (\<lambda>pre. has_prefix (filepath_Clean path) (filepath_Clean pre @ ''/'')) allowed then None
      else Some (''access_log_path '' @ filepath_Clean path @ '' is outside the permitted prefixes ['' @ join allowed '' '' @ '']''))"

subsubsection \<open>The end of the access log\<close>

definition readAccessLogTail :: "world \<Rightarrow> bytes \<Rightarrow> int \<Rightarrow> bytes + bytes" where
  "readAccessLogTail w path tailBytes =
     (case wd_open w path of
        Inl e \<Rightarrow> Inl e
      | Inr (info, content) \<Rightarrow>
          if \<not> fi_IsRegular info then Inl ''not a regular file''
          else if fi_Size info = 0 then Inr []
          else let truncated = tailBytes < fi_Size info;
                   off = (if truncated then nat (fi_Size info - tailBytes) else 0)
          in if tailBytes \<le> 0 then Inl ''access_log_tail_bytes must be positive''
             else case content of
               Inl e \<Rightarrow> Inl e
             | Inr b \<Rightarrow>
                 (let buf = take (nat (min tailBytes (fi_Size info - int off))) (drop off b)
                  in if \<not> truncated then Inr buf
                     else case index_byte buf CHR 0x0A of
                       None \<Rightarrow> Inr []
                     | Some i \<Rightarrow> Inr (drop (Suc i) buf)))"

definition extractLogTimestamp :: "world \<Rightarrow> bytes \<Rightarrow> time option" where
  "extractLogTimestamp w line =
     (case index_byte line CHR ''['' of
        None \<Rightarrow> None
      | Some lb \<Rightarrow>
          (let rest = drop (Suc lb) line
           in case index_byte rest CHR '']'' of
                None \<Rightarrow> None
              | Some rb \<Rightarrow> wd_parse_time w ''02/Jan/2006:15:04:05 -0700'' (take rb rest)))"

definition digit_at :: "bytes \<Rightarrow> nat \<Rightarrow> int" where
  "digit_at d i = of_char (d ! i) - 48"

definition extractLogStatus :: "bytes \<Rightarrow> int option" where
  "extractLogStatus line =
     (case index_byte line CHR 0x22 of
        None \<Rightarrow> None
      | Some q \<Rightarrow>
          (let rest = drop (Suc q) line
           in case index_byte rest CHR 0x22 of
                None \<Rightarrow> None
              | Some q2 \<Rightarrow>
                  (let after = drop (Suc q2) rest
                   in if length after < 5 \<or> after ! 0 \<noteq> CHR '' '' then None
                      else let d = drop 1 after
                      in if length d < 4 \<or> \<not> list_all ascii_digit (take 3 d) \<or> (d ! 3 \<noteq> CHR '' '' \<and> d ! 3 \<noteq> CHR 0x09) then None
                         else Some (digit_at d 0 * 100 + digit_at d 1 * 10 + digit_at d 2))))"

text \<open>The counters and the oldest time seen.\<close>

definition access_line :: "world \<Rightarrow> time \<Rightarrow> int \<times> int \<times> time option \<Rightarrow> bytes \<Rightarrow> int \<times> int \<times> time option" where
  "access_line w cutoff st line =
     (let (c4, c5, oldest) = st
      in case extractLogTimestamp w line of
           None \<Rightarrow> st
         | Some ts \<Rightarrow>
             (let oldest1 = (case oldest of None \<Rightarrow> Some ts | Some o0 \<Rightarrow> if ts < o0 then Some ts else oldest)
              in if ts < cutoff then (c4, c5, oldest1)
                 else case extractLogStatus line of
                   None \<Rightarrow> (c4, c5, oldest1)
                 | Some code \<Rightarrow>
                     if 400 \<le> code \<and> code < 500 then (c4 + 1, c5, oldest1)
                     else if 500 \<le> code \<and> code < 600 then (c4, c5 + 1, oldest1)
                     else (c4, c5, oldest1)))"

definition parseAccessLogTail :: "world \<Rightarrow> bytes \<Rightarrow> time \<Rightarrow> duration \<Rightarrow> (int \<times> int \<times> time) option" where
  "parseAccessLogTail w tail now window =
     (if tail = [] then None
      else let (ls, err) = scan_with ''access log'' tail;
               (c4, c5, oldest) = foldl (access_line w (now + int64 (- window))) (0, 0, None) ls
      in case (err, oldest) of (None, Some o0) \<Rightarrow> Some (c4, c5, o0) | _ \<Rightarrow> None)"

text \<open>\<^verbatim>\<open>Time.Sub\<close> stays within the range of a duration. The minutes are rounded towards zero; that a float holds them is left out.\<close>

definition time_sub :: "time \<Rightarrow> time \<Rightarrow> duration" where
  "time_sub a b = max (- (2 ^ 63)) (min (2 ^ 63 - 1) (a - b))"

definition covered_minutes :: "time \<Rightarrow> time \<Rightarrow> int" where
  "covered_minutes now oldest = (let d = time_sub now oldest in if d < 0 then 0 else d div Minute)"

definition access_counts :: "world \<Rightarrow> int \<Rightarrow> bytes \<Rightarrow> NginxApacheStatusResult \<Rightarrow> NginxApacheStatusResult" where
  "access_counts w windowMin tail out =
     (let now = wd_now w; window = int64 (windowMin * Minute)
      in case parseAccessLogTail w tail now window of
           None \<Rightarrow> out\<lparr>ng_RecentCoverage := ''unavailable'', ng_Warning := ''no parseable timestamps in tail''\<rparr>
         | Some (r4, r5, oldest) \<Rightarrow>
             (let out1 = out\<lparr>ng_Recent4xx := Some r4, ng_Recent5xx := Some r5\<rparr>
              in if oldest \<le> now + int64 (- window)
                 then out1\<lparr>ng_RecentCoverage := ''full'', ng_RecentWindowMinutes := windowMin\<rparr>
                 else out1\<lparr>ng_RecentCoverage := ''partial'', ng_RecentWindowMinutes := covered_minutes now oldest\<rparr>))"

definition unavailable :: "bytes \<Rightarrow> NginxApacheStatusResult \<Rightarrow> NginxApacheStatusResult" where
  "unavailable warning out = out\<lparr>ng_RecentCoverage := ''unavailable'', ng_Warning := warning\<rparr>"

definition cap_warning :: "int \<Rightarrow> bytes" where
  "cap_warning requested =
     (if maxAccessLogTailBytes < requested
      then ''access_log_tail_bytes capped: requested '' @ itoa requested @ '', using '' @ itoa maxAccessLogTailBytes else [])"

definition prepend_warning :: "bytes \<Rightarrow> NginxApacheStatusResult \<Rightarrow> NginxApacheStatusResult" where
  "prepend_warning capWarning out =
     (if capWarning = [] then out
      else if ng_Warning out = [] then out\<lparr>ng_Warning := capWarning\<rparr>
      else out\<lparr>ng_Warning := capWarning @ ''; '' @ ng_Warning out\<rparr>)"

definition server_result :: "world \<Rightarrow> NginxApacheStatusResult" where
  "server_result w =
     (let (server, nginx, apache) = detectServer w ''/proc'';
          workers = (if server = ''nginx'' then nginx - 1 else if server = ''apache'' then apache - 1 else 0)
      in \<lparr>ng_Server = server, ng_WorkerCount = max 0 workers, ng_Recent4xx = None, ng_Recent5xx = None,
          ng_RecentWindowMinutes = 0, ng_RecentCoverage = [], ng_Warning = []\<rparr>)"

definition nginx_defaults :: "NginxApacheStatusParam \<Rightarrow> NginxApacheStatusParam" where
  "nginx_defaults p =
     p\<lparr>np_AccessLogWindowMin := (if np_AccessLogWindowMin p = 0 then defaultAccessLogWindowMin else np_AccessLogWindowMin p),
       np_AccessLogTailBytes := (if np_AccessLogTailBytes p = 0 then defaultAccessLogTailBytes else np_AccessLogTailBytes p)\<rparr>"

definition NginxApacheStatus :: "bytes list \<Rightarrow> world \<Rightarrow> bytes \<Rightarrow> NginxApacheStatusResult op_result" where
  "NginxApacheStatus allowed w param =
     (let out = server_result w
      in case (if param \<noteq> [] then dec_nginx_param param
               else Some \<lparr>np_AccessLogPath = [], np_AccessLogWindowMin = 0, np_AccessLogTailBytes = 0\<rparr>) of
           None \<Rightarrow> Inr (unavailable (''param: '' @ wd_error w ''json.Unmarshal'' param) out)
         | Some p0 \<Rightarrow>
             (let p = nginx_defaults p0; capWarning = cap_warning (np_AccessLogTailBytes p);
                  tailBytes = min maxAccessLogTailBytes (np_AccessLogTailBytes p)
              in if ng_Server out = ''none'' then Inr (unavailable ''no nginx/apache process detected'' out)
                 else if np_AccessLogPath p = [] then Inr (unavailable ''access_log_path not configured'' out)
                 else case checkAccessLogPath allowed (np_AccessLogPath p) of
                   Some e \<Rightarrow> Inr (unavailable (''access_log_path: '' @ e) out)
                 | None \<Rightarrow>
                     (case readAccessLogTail w (np_AccessLogPath p) tailBytes of
                        Inl e \<Rightarrow> Inr (prepend_warning capWarning (unavailable (''access_log_path: '' @ e) out))
                      | Inr tail \<Rightarrow> Inr (prepend_warning capWarning (access_counts w (np_AccessLogWindowMin p) tail out)))))"

subsection \<open>No path leaves the permitted prefixes\<close>

lemma SetAccessLogPrefixes_rooted:
  "pre \<in> set (SetAccessLogPrefixes accessLogAllowedPrefixes cfg) \<Longrightarrow> has_prefix pre ''/''"
proof -
  have "has_prefix q ''/''" if "q \<in> set (clean_prefix raw)" for raw q
    using that by (auto simp: clean_prefix_def Let_def has_prefix_iff split: if_splits)
  then show "pre \<in> set (SetAccessLogPrefixes accessLogAllowedPrefixes cfg) \<Longrightarrow> has_prefix pre ''/''"
    by (auto simp: SetAccessLogPrefixes_def accessLogAllowedPrefixes_def Let_def split: if_splits)
qed

text \<open>
  C32: The check of an access log's path is exact, for every list of prefixes an operator can
  configure. A path is accepted if and only if it is absolute and, with \<^verbatim>\<open>.\<close> and \<^verbatim>\<open>..\<close> resolved, its components
  are those of a permitted directory followed by at least one more; no component that remains is
  empty or leads upwards. An empty configuration keeps the default, and the root directory as a
  prefix permits nothing.
\<close>

theorem access_log_path_exact:
  "checkAccessLogPath (SetAccessLogPrefixes accessLogAllowedPrefixes cfg) path = None \<longleftrightarrow>
     has_prefix path ''/'' \<and> list_all real_component (components path) \<and>
     (\<exists>pre \<in> set (SetAccessLogPrefixes accessLogAllowedPrefixes cfg). \<exists>rest.
        components pre \<noteq> [] \<and> rest \<noteq> [] \<and> components path = components pre @ rest)"
proof (cases "has_prefix path ''/''")
  case True
  let ?allowed = "SetAccessLogPrefixes accessLogAllowedPrefixes cfg"
  have "checkAccessLogPath ?allowed path = None \<longleftrightarrow>
      (\<exists>pre \<in> set ?allowed. has_prefix (filepath_Clean path) (filepath_Clean pre @ ''/''))"
    using True by (auto simp: checkAccessLogPath_def list_ex_iff)
  also have "\<dots> \<longleftrightarrow> (\<exists>pre \<in> set ?allowed. \<exists>rest. components pre \<noteq> [] \<and> rest \<noteq> [] \<and> components path = components pre @ rest)"
    using below_iff [OF True SetAccessLogPrefixes_rooted] by blast
  finally show ?thesis using True components_real by blast
qed (simp add: checkAccessLogPath_def)

text \<open>
  The path that is opened is the one that was asked for and not the cleaned one: when \<^verbatim>\<open>link\<close> is a
  symbolic link, \<^verbatim>\<open>link/..\<close> is not the directory the check compared.
\<close>

lemma opened_path_not_cleaned:
  "let p = ''/var/log/link/../x''
   in checkAccessLogPath accessLogAllowedPrefixes p = None \<and> filepath_Clean p = ''/var/log/x'' \<and>
      readAccessLogTail w p n = readAccessLogTail (w\<lparr>wd_open := (\<lambda>q. if q = p then wd_open w p else other q)\<rparr>) p n"
proof -
  have "checkAccessLogPath accessLogAllowedPrefixes ''/var/log/link/../x'' = None" by code_simp
  moreover have "filepath_Clean ''/var/log/link/../x'' = ''/var/log/x''" by code_simp
  ultimately show ?thesis by (simp add: readAccessLogTail_def Let_def)
qed

end
