(* ===== verification/HelperOps.thy ===== *)
theory HelperOps
  imports OpsFirewall OpsMail OpsNft OpsWireguard OpsJournal OpsStorage OpsUpdates OpsSecurity OpsWeb
begin

text \<open>
  All ops behind one table, as \<^verbatim>\<open>RegisterAll\<close> sets it up, and what they may do to the host: the command
  lines they may run and the files they may read. The theorem says that no op's answer depends on
  anything else.
\<close>

subsection \<open>The table\<close>

text \<open>The result of a handler is an \<^verbatim>\<open>any\<close>: one constructor for each type.\<close>

datatype any_result =
    RAuditStatus AuditStatus
  | RAideSummary AideSummary
  | RRebootMarker RebootMarker
  | RSmartSummary SmartSummary
  | RMdraidDetail MdraidDetailResult
  | RLvmReport LvmReportResult
  | RZpoolStatus "ZfsPool list"
  | RBtrfsScrub BtrfsScrubResult
  | RPostqueue PostqueueResult
  | RWireguardShow WireguardShowResult
  | RAptPending AptPendingResult
  | RNeedrestart "bytes list"
  | RJournalQuery JournalQueryResult
  | RNftTableCounts NftTableCountsResult
  | RFail2banStatus Fail2banStatusResult
  | RSshJournalCounts SshJournalCountsResult
  | RSystemdTimer SystemdTimerLastTriggerResult
  | RRkhunterSummary RkhunterSummaryResult
  | RUnattendedUpgrades UnattendedUpgradesStatusResult
  | RFirewallInspect FirewallResult
  | RFirewallLookup FirewallLookupResult
  | RDovecotStatus DovecotStatusResult
  | RNginxApacheStatus NginxApacheStatusResult

text \<open>What the handlers use beside the host: the netlink socket, the prefixes of access logs, the text of a time.\<close>

record ops_env =
  oe_netlink :: netlink
  oe_prefixes :: "bytes list"
  oe_fmt_micro :: "int \<Rightarrow> bytes"

definition ret :: "('r \<Rightarrow> any_result) \<Rightarrow> 'r op_result \<Rightarrow> any_result op_result go" where
  "ret f r = Ret (map_sum id f r)"

definition map_go :: "('a \<Rightarrow> 'b) \<Rightarrow> 'a go \<Rightarrow> 'b go" where
  "map_go f g = (case g of Ret x \<Rightarrow> Ret (f x) | Panic m \<Rightarrow> Panic m)"

definition handler_table :: "ops_env \<Rightarrow> world \<Rightarrow> (bytes \<times> (bytes \<Rightarrow> any_result op_result go)) list" where
  "handler_table env w =
     [(''ReadAuditStatus'', \<lambda>p. ret RAuditStatus (ReadAuditStatus (oe_netlink env) w p)),
      (''ReadAideSummary'', \<lambda>p. map_go (map_sum id RAideSummary) (ReadAideSummary w p)),
      (''ReadRebootMarker'', \<lambda>p. ret RRebootMarker (ReadRebootMarker w p)),
      (''SmartSummaryHandler'', \<lambda>p. ret RSmartSummary (SmartSummaryHandler w p)),
      (''MdraidDetail'', \<lambda>p. ret RMdraidDetail (MdraidDetail w p)),
      (''LvmReport'', \<lambda>p. ret RLvmReport (LvmReport w p)),
      (''ZpoolStatus'', \<lambda>p. ret RZpoolStatus (ZpoolStatus w p)),
      (''BtrfsScrub'', \<lambda>p. ret RBtrfsScrub (BtrfsScrub w p)),
      (''Postqueue'', \<lambda>p. ret RPostqueue (Postqueue w p)),
      (''WireguardShow'', \<lambda>p. map_go (map_sum id RWireguardShow) (WireguardShow w p)),
      (''AptPending'', \<lambda>p. ret RAptPending (AptPending w p)),
      (''Needrestart'', \<lambda>p. ret RNeedrestart (Needrestart w p)),
      (''JournalQuery'', \<lambda>p. ret RJournalQuery (JournalQuery (oe_fmt_micro env) w p)),
      (''NftTableCounts'', \<lambda>p. ret RNftTableCounts (NftTableCounts w p)),
      (''Fail2banStatus'', \<lambda>p. ret RFail2banStatus (Fail2banStatus w p)),
      (''SshJournalCounts'', \<lambda>p. ret RSshJournalCounts (SshJournalCounts (wd_now w div Second) w p)),
      (''SystemdTimerLastTrigger'', \<lambda>p. ret RSystemdTimer (SystemdTimerLastTrigger w p)),
      (''RkhunterSummary'', \<lambda>p. ret RRkhunterSummary (RkhunterSummary w p)),
      (''UnattendedUpgradesStatus'', \<lambda>p. ret RUnattendedUpgrades (UnattendedUpgradesStatus w p)),
      (''FirewallInspect'', \<lambda>p. ret RFirewallInspect (FirewallInspect w p)),
      (''FirewallLookup'', \<lambda>p. ret RFirewallLookup (FirewallLookup w p)),
      (''DovecotStatus'', \<lambda>p. ret RDovecotStatus (DovecotStatus w p)),
      (''NginxApacheStatus'', \<lambda>p. ret RNginxApacheStatus (NginxApacheStatus (oe_prefixes env) w p))]"

text \<open>The handler an op token leads to.\<close>

definition helper_op :: "ops_env \<Rightarrow> world \<Rightarrow> bytes \<Rightarrow> (bytes \<Rightarrow> any_result op_result go) option" where
  "helper_op env w op = Option.bind (map_of register_calls op) (map_of (handler_table env w))"

lemma map_of_mem: "distinct (map fst xs) \<Longrightarrow> (k, v) \<in> set xs \<Longrightarrow> map_of xs k = Some v"
  by simp

lemma handler_table_names: "map fst (handler_table env w) = map snd register_calls"
  by (simp add: handler_table_def register_calls_def)

lemma helper_op_known: "helper_op env w op \<noteq> None \<longleftrightarrow> IsKnownOp op"
proof -
  have "map_of (handler_table env w) name \<noteq> None" if "map_of register_calls op = Some name" for name
  proof -
    have "name \<in> set (map snd register_calls)" using map_of_SomeD [OF that] by force
    then show ?thesis unfolding handler_table_names [of env w, symmetric] map_of_eq_None_iff by simp
  qed
  moreover have "map_of register_calls op \<noteq> None \<longleftrightarrow> IsKnownOp op"
    using register_calls_AllOps by (simp add: map_of_eq_None_iff IsKnownOp_iff flip: set_map)
  ultimately show ?thesis by (cases "map_of register_calls op") (auto simp: helper_op_def)
qed

subsection \<open>What the ops may reach\<close>

definition fixed_commands :: "bytes list list" where
  "fixed_commands =
     [[''apt-get'', ''-s'', ''upgrade''], [''dpkg'', ''--get-selections''], [''needrestart'', ''-r'', ''l'', ''-b'', ''-p''],
      [''apt-config'', ''dump''], vgs_argv, lvs_argv, [''zpool'', ''list'', ''-H'', ''-o'', ''name''], [''postqueue'', ''-p''],
      [''wg'', ''show'', ''all'', ''dump''], nft_list_ruleset, [''nft'', ''--version''],
      [''journalctl'', ''--list-boots'', ''--output=json'', ''--no-pager''], ssh_journal_argv, [''fail2ban-client'', ''status''],
      [''doveadm'', ''who'', ''-1''], [''systemctl'', ''is-active'', ''dovecot.service'']] @
     map (\<lambda>(s, w, src). ''journalctl'' # journal_args s w src)
       (List.product journal_severities (List.product journal_windows journal_sources))"

definition one_more :: "bytes list \<Rightarrow> (bytes \<Rightarrow> bool) \<Rightarrow> bytes list \<Rightarrow> bool" where
  "one_more fixed ok argv \<longleftrightarrow> argv \<noteq> [] \<and> butlast argv = fixed \<and> ok (last argv)"

definition device :: "(bytes \<Rightarrow> bool) \<Rightarrow> bytes \<Rightarrow> bool" where
  "device ok p \<longleftrightarrow> has_prefix p ''/dev/'' \<and> ok (drop 5 p)"

text \<open>
  The command lines with a variable part. A device, an array, a mount point, a jail and a timer have
  the closed form their op checks; the name of a pool is a word \<^verbatim>\<open>zpool list\<close> printed, and those of a
  set are what \<^verbatim>\<open>nft\<close> itself reported.
\<close>

definition allowed_command :: "bytes list \<Rightarrow> bool" where
  "allowed_command argv \<longleftrightarrow>
     argv \<in> set fixed_commands \<or>
     one_more [''smartctl'', ''--json'', ''-a''] (device (\<lambda>d. deviceRE d \<and> \<not> nvmeRE d)) argv \<or>
     one_more [''smartctl'', ''--json'', ''-a'', ''-d'', ''nvme''] (device nvmeRE) argv \<or>
     one_more [''mdadm'', ''--detail'', ''--export''] (device mdraidNameRE) argv \<or>
     one_more [''zpool'', ''status''] (\<lambda>n. n \<noteq> [] \<and> space_free n) argv \<or>
     one_more [''btrfs'', ''scrub'', ''status'', ''-R''] btrfsMountPathRE argv \<or>
     one_more [''fail2ban-client'', ''status''] jailNameRE argv \<or>
     (length argv = 5 \<and> take 2 argv = [''systemctl'', ''show''] \<and> timerUnitRE (argv ! 2) \<and>
        drop 3 argv = [''--property=LastTriggerUSec'', ''--value'']) \<or>
     (length argv = 7 \<and> take 4 argv = [''nft'', ''-j'', ''list'', ''set''])"

definition allowed_file :: "bytes \<Rightarrow> bool" where
  "allowed_file p \<longleftrightarrow>
     p \<in> set [''/proc/stat'', ''/proc/mdstat'', unattendedUpgradesLogPath, rkhunterLogPath] \<or>
     has_prefix p ''/var/log/aide/aide.log'' \<or>
     (has_prefix p ''/proc/'' \<and> has_suffix p ''/comm'')"

definition allowed_stat :: "bytes \<Rightarrow> bool" where
  "allowed_stat p \<longleftrightarrow> p \<in> set ([rebootMarkerPath, unattendedUpgradesLogPath, rkhunterLogPath] @ dbPaths)"

definition allowed_dir :: "bytes \<Rightarrow> bool" where
  "allowed_dir p \<longleftrightarrow> p \<in> set [aideLogDir, ''/var/log/audit'', ''/proc'']"

text \<open>A host that answers as \<open>other\<close> does whenever something else is asked of it.\<close>

definition guarded :: "bytes list \<Rightarrow> world \<Rightarrow> world \<Rightarrow> world" where
  "guarded pres other w =
     w\<lparr>wd_child := (\<lambda>argv. if allowed_command argv then wd_child w argv else wd_child other argv),
       wd_file := (\<lambda>p. if allowed_file p then wd_file w p else wd_file other p),
       wd_stat := (\<lambda>p. if allowed_stat p then wd_stat w p else wd_stat other p),
       wd_dir := (\<lambda>p. if allowed_dir p then wd_dir w p else wd_dir other p),
       wd_statfs := (\<lambda>p. if btrfsMountPathRE p then wd_statfs w p else wd_statfs other p),
       wd_open := (\<lambda>p. if checkAccessLogPath pres p = None then wd_open w p else wd_open other p)\<rparr>"

lemma guarded_simps [simp]:
  "wd_sha256 (guarded pres b w) = wd_sha256 w" "wd_error (guarded pres b w) = wd_error w" "wd_quote (guarded pres b w) = wd_quote w"
  "wd_now (guarded pres b w) = wd_now w" "wd_parse_time (guarded pres b w) = wd_parse_time w"
  "wd_parse_float (guarded pres b w) = wd_parse_float w" "wd_gunzip (guarded pres b w) = wd_gunzip w"
  by (simp_all add: guarded_def)

lemma guarded_allowed:
  "allowed_command argv \<Longrightarrow> wd_child (guarded pres b w) argv = wd_child w argv"
  "allowed_file p \<Longrightarrow> wd_file (guarded pres b w) p = wd_file w p"
  "allowed_stat p \<Longrightarrow> wd_stat (guarded pres b w) p = wd_stat w p"
  "allowed_dir p \<Longrightarrow> wd_dir (guarded pres b w) p = wd_dir w p"
  "btrfsMountPathRE p \<Longrightarrow> wd_statfs (guarded pres b w) p = wd_statfs w p"
  "checkAccessLogPath pres p = None \<Longrightarrow> wd_open (guarded pres b w) p = wd_open w p"
  by (simp_all add: guarded_def)

lemma guarded_run:
  "allowed_command argv \<Longrightarrow> Run (guarded pres b w) argv = Run w argv"
  "allowed_command argv \<Longrightarrow> run_capped (guarded pres b w) n argv = run_capped w n argv"
  "allowed_file p \<Longrightarrow> ReadFile (guarded pres b w) p = ReadFile w p"
  by (simp_all add: Run_def run_capped_def ReadFile_def guarded_allowed)

lemma one_more_snoc [simp]: "one_more fixed ok (xs @ [x]) \<longleftrightarrow> xs = fixed \<and> ok x"
  by (simp add: one_more_def)

lemma allowed_fixed: "argv \<in> set fixed_commands \<Longrightarrow> allowed_command argv"
  by (simp add: allowed_command_def)

subsection \<open>No op reaches further\<close>

text \<open>The commands with a fixed text.\<close>

lemma run_fixed:
  "Run (guarded pres b w) [''apt-get'', ''-s'', ''upgrade''] = Run w [''apt-get'', ''-s'', ''upgrade'']"
  "Run (guarded pres b w) [''dpkg'', ''--get-selections''] = Run w [''dpkg'', ''--get-selections'']"
  "Run (guarded pres b w) [''needrestart'', ''-r'', ''l'', ''-b'', ''-p''] = Run w [''needrestart'', ''-r'', ''l'', ''-b'', ''-p'']"
  "Run (guarded pres b w) [''apt-config'', ''dump''] = Run w [''apt-config'', ''dump'']"
  "Run (guarded pres b w) vgs_argv = Run w vgs_argv"
  "Run (guarded pres b w) lvs_argv = Run w lvs_argv"
  "Run (guarded pres b w) [''zpool'', ''list'', ''-H'', ''-o'', ''name''] = Run w [''zpool'', ''list'', ''-H'', ''-o'', ''name'']"
  "Run (guarded pres b w) [''postqueue'', ''-p''] = Run w [''postqueue'', ''-p'']"
  "Run (guarded pres b w) [''wg'', ''show'', ''all'', ''dump''] = Run w [''wg'', ''show'', ''all'', ''dump'']"
  "Run (guarded pres b w) [''nft'', ''--version''] = Run w [''nft'', ''--version'']"
  "Run (guarded pres b w) [''journalctl'', ''--list-boots'', ''--output=json'', ''--no-pager''] =
     Run w [''journalctl'', ''--list-boots'', ''--output=json'', ''--no-pager'']"
  "Run (guarded pres b w) [''fail2ban-client'', ''status''] = Run w [''fail2ban-client'', ''status'']"
  "Run (guarded pres b w) [''doveadm'', ''who'', ''-1''] = Run w [''doveadm'', ''who'', ''-1'']"
  "Run (guarded pres b w) [''systemctl'', ''is-active'', ''dovecot.service''] = Run w [''systemctl'', ''is-active'', ''dovecot.service'']"
  "run_capped (guarded pres b w) n nft_list_ruleset = run_capped w n nft_list_ruleset"
  "run_capped (guarded pres b w) n [''nft'', ''-j'', ''list'', ''set'', f, t, s] = run_capped w n [''nft'', ''-j'', ''list'', ''set'', f, t, s]"
  "wd_child (guarded pres b w) ssh_journal_argv = wd_child w ssh_journal_argv"
  by (simp_all add: guarded_run guarded_allowed allowed_command_def fixed_commands_def)

lemma files_fixed:
  "ReadFile (guarded pres b w) ''/proc/stat'' = ReadFile w ''/proc/stat''"
  "ReadFile (guarded pres b w) ''/proc/mdstat'' = ReadFile w ''/proc/mdstat''"
  "wd_file (guarded pres b w) unattendedUpgradesLogPath = wd_file w unattendedUpgradesLogPath"
  "wd_file (guarded pres b w) rkhunterLogPath = wd_file w rkhunterLogPath"
  "wd_stat (guarded pres b w) rebootMarkerPath = wd_stat w rebootMarkerPath"
  "wd_stat (guarded pres b w) unattendedUpgradesLogPath = wd_stat w unattendedUpgradesLogPath"
  "wd_stat (guarded pres b w) rkhunterLogPath = wd_stat w rkhunterLogPath"
  "wd_dir (guarded pres b w) aideLogDir = wd_dir w aideLogDir"
  "wd_dir (guarded pres b w) ''/var/log/audit'' = wd_dir w ''/var/log/audit''"
  "wd_dir (guarded pres b w) ''/proc'' = wd_dir w ''/proc''"
  by (simp_all add: guarded_run guarded_allowed allowed_file_def allowed_stat_def allowed_dir_def)

lemmas fixed_answers = run_fixed files_fixed guarded_simps

lemma conf_simple:
  "AptPending (guarded pres b w) p = AptPending w p"
  "Needrestart (guarded pres b w) p = Needrestart w p"
  "UnattendedUpgradesStatus (guarded pres b w) p = UnattendedUpgradesStatus w p"
  "RkhunterSummary (guarded pres b w) p = RkhunterSummary w p"
  "ReadRebootMarker (guarded pres b w) p = ReadRebootMarker w p"
  "LvmReport (guarded pres b w) p = LvmReport w p"
  "Postqueue (guarded pres b w) p = Postqueue w p"
  "WireguardShow (guarded pres b w) p = WireguardShow w p"
  "NftTableCounts (guarded pres b w) p = NftTableCounts w p"
  "DovecotStatus (guarded pres b w) p = DovecotStatus w p"
  "ReadAuditStatus nl (guarded pres b w) p = ReadAuditStatus nl w p"
  unfolding AptPending_def Needrestart_def UnattendedUpgradesStatus_def RkhunterSummary_def ReadRebootMarker_def LvmReport_def
    Postqueue_def WireguardShow_def NftTableCounts_def DovecotStatus_def dovecot_sessions_def ReadAuditStatus_def with_rotation_def
    newestRotatedLog_def fixed_answers
  by (rule refl)+

lemma conf_firewall:
  "FirewallLookup (guarded pres b w) p = FirewallLookup w p"
  "FirewallInspect (guarded pres b w) p = FirewallInspect w p"
proof -
  have l: "runNftListSet (guarded pres b w) f t n cap = runNftListSet w f t n cap" for f t n cap
    unfolding runNftListSet_def fixed_answers by (rule refl)
  have o: "fetch_one (guarded pres b w) = fetch_one w" unfolding fetch_one_def l by (rule refl)
  have i: "inspect_result (guarded pres b w) req raw ws st = inspect_result w req raw ws st" for req raw ws st
    unfolding inspect_result_def fetch_elements_def runNftVersion_def fixed_answers o by (rule refl)
  show "FirewallInspect (guarded pres b w) p = FirewallInspect w p"
    unfolding FirewallInspect_def fixed_answers i by (rule refl)
  have q: "parseLookupQuery (guarded pres b w) s = parseLookupQuery w s" for s
    unfolding parseLookupQuery_def fixed_answers by (rule refl)
  show "FirewallLookup (guarded pres b w) p = FirewallLookup w p"
    unfolding FirewallLookup_def fixed_answers q by (rule refl)
qed

lemma conf_journal:
  "JournalQuery fmt_micro (guarded pres b w) p = JournalQuery fmt_micro w p"
  "SshJournalCounts now (guarded pres b w) p = SshJournalCounts now w p"
proof -
  show "JournalQuery fmt_micro (guarded pres b w) p = JournalQuery fmt_micro w p"
  proof (cases "paramRE p")
    case (Some g)
    obtain s v src where g: "g = (s, v, src)" by (cases g)
    have "g \<in> set (List.product journal_severities (List.product journal_windows journal_sources))"
      using Some unfolding paramRE_def find_Some_iff by (metis nth_mem)
    with g have "''journalctl'' # journal_args s v src \<in> set fixed_commands"
      unfolding fixed_commands_def set_append set_map by (intro UnI2) (rule image_eqI [where x = "(s, v, src)"], simp, simp only:)
    from guarded_run(1) [OF allowed_fixed [OF this]] show ?thesis by (simp add: JournalQuery_def Some g)
  qed (simp add: JournalQuery_def)
  have t: "probeSshJournalTruncation (guarded pres b w) = probeSshJournalTruncation w"
    unfolding probeSshJournalTruncation_def readSystemBootTime_def readOldestJournalEntryForCurrentBoot_def fixed_answers by (rule refl)
  show "SshJournalCounts now (guarded pres b w) p = SshJournalCounts now w p"
    unfolding SshJournalCounts_def fixed_answers t by (rule refl)
qed

lemma smart_argv_allowed: "deviceRE p \<Longrightarrow> allowed_command (smart_argv p)"
proof (cases "nvmeRE p")
  case True
  have "smart_argv p = [''smartctl'', ''--json'', ''-a'', ''-d'', ''nvme''] @ [''/dev/'' @ p]" by (simp add: smart_argv_def True)
  then have "one_more [''smartctl'', ''--json'', ''-a'', ''-d'', ''nvme''] (device nvmeRE) (smart_argv p)"
    using True by (simp add: one_more_def device_def)
  then show ?thesis by (simp add: allowed_command_def)
next
  case False
  assume "deviceRE p"
  moreover have "smart_argv p = [''smartctl'', ''--json'', ''-a''] @ [''/dev/'' @ p]" by (simp add: smart_argv_def False)
  ultimately have "one_more [''smartctl'', ''--json'', ''-a''] (device (\<lambda>d. deviceRE d \<and> \<not> nvmeRE d)) (smart_argv p)"
    using False by (simp add: one_more_def device_def)
  then show ?thesis by (simp add: allowed_command_def)
qed

lemma variable_allowed:
  "mdraidNameRE p \<Longrightarrow> allowed_command [''mdadm'', ''--detail'', ''--export'', ''/dev/'' @ p]"
  "n \<in> set (Fields out) \<Longrightarrow> allowed_command [''zpool'', ''status'', n]"
  "btrfsMountPathRE p \<Longrightarrow> allowed_command [''btrfs'', ''scrub'', ''status'', ''-R'', p]"
  "jailNameRE j \<Longrightarrow> allowed_command [''fail2ban-client'', ''status'', j]"
  "timerUnitRE u \<Longrightarrow> allowed_command [''systemctl'', ''show'', u, ''--property=LastTriggerUSec'', ''--value'']"
  using fields_tokens [of n out] by (simp_all add: allowed_command_def one_more_def device_def)

lemma conf_storage:
  "SmartSummaryHandler (guarded pres b w) p = SmartSummaryHandler w p"
  "MdraidDetail (guarded pres b w) p = MdraidDetail w p"
  "ZpoolStatus (guarded pres b w) p = ZpoolStatus w p"
  "BtrfsScrub (guarded pres b w) p = BtrfsScrub w p"
proof -
  show "SmartSummaryHandler (guarded pres b w) p = SmartSummaryHandler w p"
    unfolding SmartSummaryHandler_def fixed_answers
    by (cases "deviceRE p") (simp_all add: guarded_run(1) [OF smart_argv_allowed])
  have m: "mdstat_block (guarded pres b w) ls = mdstat_block w ls" for ls
    by (induction ls) (simp_all split: option.split)
  have d: "mdraidDetailFromExport (guarded pres b w) p out = mdraidDetailFromExport w p out" for out
    unfolding mdraidDetailFromExport_def readMdstatProgress_def md_line_def fixed_answers m by (rule refl)
  show "MdraidDetail (guarded pres b w) p = MdraidDetail w p"
    unfolding MdraidDetail_def d using guarded_run(1) [OF variable_allowed(1), of p pres b w] by simp
  have z: "map (zpool_row (guarded pres b w)) (Fields out) = map (zpool_row w) (Fields out)" for out
    by (rule map_cong [OF refl]) (simp add: zpool_row_def guarded_run(1) [OF variable_allowed(2)])
  show "ZpoolStatus (guarded pres b w) p = ZpoolStatus w p"
    unfolding ZpoolStatus_def fixed_answers z by (rule refl)
  have l: "btrfs_line (guarded pres b w) = btrfs_line w" unfolding btrfs_line_def fixed_answers by (rule refl)
  show "BtrfsScrub (guarded pres b w) p = BtrfsScrub w p"
    unfolding BtrfsScrub_def l
    by (cases "btrfsMountPathRE p") (simp_all add: guarded_run(1) [OF variable_allowed(3)] guarded_allowed(5) split: sum.split)
qed

lemma conf_bans: "Fail2banStatus (guarded pres b w) p = Fail2banStatus w p"
proof -
  have "list_all jailNameRE js \<Longrightarrow> sum_jails (guarded pres b w) n js = sum_jails w n js" for n js
    by (induction js arbitrary: n) (simp_all add: guarded_run(1) [OF variable_allowed(4)] split: prod.split option.split sum.split)
  then have s: "sum_jails (guarded pres b w) n (filter jailNameRE js) = sum_jails w n (filter jailNameRE js)" for n js
    by (simp add: list_all_iff)
  show ?thesis unfolding Fail2banStatus_def fixed_answers Let_def s by (rule refl)
qed

lemma conf_timer: "SystemdTimerLastTrigger (guarded pres b w) p = SystemdTimerLastTrigger w p"
  unfolding SystemdTimerLastTrigger_def fixed_answers Let_def
  by (cases "timerUnitRE (trim_space p)") (simp_all add: guarded_run(1) [OF variable_allowed(5)])

text \<open>The entries of a directory are names: no slash is in them.\<close>

definition plain_names :: "world \<Rightarrow> bool" where
  "plain_names w \<longleftrightarrow>
     (\<forall>d es. wd_dir w d = Inr es \<longrightarrow> list_all (\<lambda>e. CHR ''/'' \<notin> set (dn_Name e)) es)"

lemma aide_log_path:
  assumes "CHR ''/'' \<notin> set name" and "has_prefix name ''aide.log''"
  shows "allowed_file (filepath_Join aideLogDir name)"
proof -
  from assms(2) obtain r where n: "name = ''aide.log'' @ r" unfolding has_prefix_iff by blast
  have "split_on CHR ''/'' [] (aideLogDir @ CHR ''/'' # name) = split_on CHR ''/'' [] aideLogDir @ [name]"
    by (rule split_on_last [OF assms(1)])
  moreover have "split_on CHR ''/'' [] aideLogDir = [[], ''var'', ''log'', ''aide'']" by (simp add: aideLogDir_def)
  ultimately have "filepath_Join aideLogDir name = ''/var/log/aide/'' @ name"
    by (simp add: filepath_Join_def filepath_Clean_def Let_def aideLogDir_def n)
  then show ?thesis by (simp add: allowed_file_def n)
qed

lemma proc_comm_path:
  assumes "allDigits name"
  shows "allowed_file (filepath_Clean (''/proc'' @ ''/'' @ name @ ''/comm''))"
proof -
  from assms obtain c r where n: "name = c # r" "ascii_digit c" by (cases name) (auto simp: allDigits_def)
  have s: "CHR ''/'' \<notin> set name"
    using assms by (auto simp: allDigits_def list_all_iff ascii_digit_def dest!: bspec [where x = "CHR ''/''"])
  have "split_on CHR ''/'' [] ((''/proc'' @ CHR ''/'' # name) @ CHR ''/'' # ''comm'') =
      split_on CHR ''/'' [] (''/proc'' @ CHR ''/'' # name) @ [''comm'']" by (rule split_on_last) simp
  also have "split_on CHR ''/'' [] (''/proc'' @ CHR ''/'' # name) = split_on CHR ''/'' [] ''/proc'' @ [name]"
    by (rule split_on_last [OF s])
  finally have "split_on CHR ''/'' [] (''/proc'' @ ''/'' @ name @ ''/comm'') = [[], ''proc'', name, ''comm'']" by simp
  moreover have "name \<noteq> ''.'' \<and> name \<noteq> ''..''" using n by (auto simp: ascii_digit_def)
  ultimately have "filepath_Clean (''/proc'' @ ''/'' @ name @ ''/comm'') = ''/proc/'' @ name @ ''/comm''"
    using n by (simp add: filepath_Clean_def Let_def)
  then show ?thesis by (simp add: allowed_file_def has_suffix_def)
qed

lemma conf_aide:
  assumes "plain_names w"
  shows "ReadAideSummary (guarded pres b w) p = ReadAideSummary w p"
proof -
  have f: "list_all (\<lambda>e. CHR ''/'' \<notin> set (dn_Name e) \<and> has_prefix (dn_Name e) ''aide.log'') es \<Longrightarrow>
      first_log (guarded pres b w) es = first_log w es" for es
    by (induction es) (simp_all add: readMaybeGzipped_def guarded_allowed(2) [OF aide_log_path] split: sum.split option.split prod.split)
  have g: "first_log (guarded pres b w) es' = first_log w es'"
    if "wd_dir w aideLogDir = Inr es" "newest_first (filter (\<lambda>e. has_prefix (dn_Name e) ''aide.log'') es) = Ret es'" for es es'
  proof (rule f)
    have "set es' \<subseteq> set (filter (\<lambda>e. has_prefix (dn_Name e) ''aide.log'') es)"
      using that(2) by (auto simp: newest_first_def split: if_splits)
    then show "list_all (\<lambda>e. CHR ''/'' \<notin> set (dn_Name e) \<and> has_prefix (dn_Name e) ''aide.log'') es'"
      using assms that(1) by (force simp: plain_names_def list_all_iff)
  qed
  have r: "readAideLog (guarded pres b w) = readAideLog w"
    unfolding readAideLog_def fixed_answers using g by (simp split: sum.split go.split)
  have "allowed_stat p'" if "p' \<in> set dbPaths" for p' using that by (simp add: allowed_stat_def)
  then have "set ps \<subseteq> set dbPaths \<Longrightarrow> first_stat (guarded pres b w) ps = first_stat w ps" for ps
    by (induction ps) (simp_all add: guarded_allowed(3) split: sum.split)
  then have s: "first_stat (guarded pres b w) dbPaths = first_stat w dbPaths" by simp
  show ?thesis unfolding ReadAideSummary_def r s by (rule refl)
qed

lemma conf_web: "NginxApacheStatus pres (guarded pres b w) p = NginxApacheStatus pres w p"
proof -
  have c: "proc_comm (guarded pres b w) ''/proc'' e = proc_comm w ''/proc'' e" for e
    unfolding proc_comm_def using guarded_run(3) [OF proc_comm_path] by (cases "allDigits (dn_Name e)") simp_all
  have s: "server_result (guarded pres b w) = server_result w"
    unfolding server_result_def detectServer_def fixed_answers c by (rule refl)
  have t: "readAccessLogTail (guarded pres b w) q n = readAccessLogTail w q n" if "checkAccessLogPath pres q = None" for q n
    unfolding readAccessLogTail_def guarded_allowed(6) [OF that] by (rule refl)
  have l: "access_counts (guarded pres b w) = access_counts w"
    unfolding access_counts_def parseAccessLogTail_def access_line_def extractLogTimestamp_def fixed_answers by (rule refl)
  show ?thesis
    unfolding NginxApacheStatus_def s l fixed_answers Let_def
    by (rule option.case_cong [OF refl refl]) (simp add: t split: option.split)
qed

lemmas conf_ops = conf_simple conf_firewall conf_journal conf_storage conf_bans conf_timer conf_web


definition sample_ops_env :: ops_env where
  "sample_ops_env = \<lparr>oe_netlink = \<lparr>nl_socket = Some ProtocolNotSupported, nl_bind = None, nl_remain = None, nl_send = (\<lambda>m. None),
     nl_recv = (\<lambda>m. Inl WouldBlock), nl_strerror = itoa\<rparr>, oe_prefixes = accessLogAllowedPrefixes, oe_fmt_micro = itoa\<rparr>"


end
