(* ===== verification/ToolUpdates.thy ===== *)
theory ToolUpdates
  imports ToolBase OpsMail OpsUpdates
begin

text \<open>
  \<^verbatim>\<open>tools/mail/mail.go\<close>, \<^verbatim>\<open>tools/updates/updates.go\<close> and \<^verbatim>\<open>tools/backup/backup.go\<close>. A tool gets the host the daemon sees
  and, for each op it uses, a function that stands for the call; \<open>texts\<close> is the text of an error of
  the call that is not the helper's. A failed call becomes an entry of the error block and a
  warning, and never a value.
\<close>

subsection \<open>Mail\<close>

record mail_Data =
  ml_MTAInUse :: bytes
  ml_QueueDepth :: "int option"
  ml_LastSuccessfulSendTS :: "time option"
  ml_LastFailureTS :: "time option"
  ml_LastFailureReason :: "bytes option"
  ml_Errors :: "HelperOpError list"

definition mtaProbes :: "(bytes \<times> bytes) list" where
  "mtaProbes =
     [(''/usr/sbin/postfix'', ''postfix''), (''/usr/sbin/exim4'', ''exim''), (''/usr/sbin/sendmail'', ''sendmail''),
      (''/usr/bin/msmtp'', ''msmtp''), (''/usr/sbin/msmtp'', ''msmtp'')]"

definition detectMTA :: "world \<Rightarrow> bytes" where
  "detectMTA w = (case find (\<lambda>c. file_exists w (fst c)) mtaProbes of Some c \<Rightarrow> snd c | None \<Rightarrow> ''none'')"

definition mail_Handle :: "(call_error \<Rightarrow> bytes) \<Rightarrow> world \<Rightarrow> (bytes \<Rightarrow> bytes \<Rightarrow> call_error + PostqueueResult) \<Rightarrow> bytes \<Rightarrow> mail_Data handled" where
  "mail_Handle texts w call body =
     (let mta = detectMTA w;
          (depth, errs, ws) = (if mta = ''postfix'' then
             (let r = call OpPostqueue []; (es, ws) = failed_op texts ''mail'' OpPostqueue r
              in (case r of Inl e \<Rightarrow> None | Inr pq \<Rightarrow> Some (pq_QueueDepth pq), es, ws)) else (None, [], []));
          (sent, ws') = (case wd_stat w ''/var/log/mail.log'' of
             Inr info \<Rightarrow> (Some (fi_ModTime info), [])
           | Inl (NotExist m) \<Rightarrow> (None, [])
           | Inl (StatFailed m) \<Rightarrow> (None, [''mail: /var/log/mail.log: '' @ m]))
      in Inr (\<lparr>ml_MTAInUse = mta, ml_QueueDepth = depth, ml_LastSuccessfulSendTS = sent, ml_LastFailureTS = None,
               ml_LastFailureReason = None, ml_Errors = errs\<rparr>, ws @ ws'))"

subsection \<open>Updates\<close>

record updates_Data =
  up_AptLockState :: bytes
  up_SecurityUpdatesPending :: "int option"
  up_RegularUpdatesPending :: "int option"
  up_HeldPackages :: "bytes list"
  up_LastAptUpdateTS :: "time option"
  up_UnattendedUpgradesEnabled :: bool
  up_UnattendedUpgradesLastRunTS :: "time option"
  up_UnattendedUpgradesLastExitCode :: "int option"
  up_NeedrestartPendingServices :: "bytes list"
  up_Errors :: "HelperOpError list"

definition aptStampCandidates :: "bytes list" where
  "aptStampCandidates = [''/var/lib/apt/periodic/update-stamp'', ''/var/lib/apt/periodic/update-success-stamp'']"

text \<open>The newest stamp, whether there is one, and the warnings.\<close>

definition stamp_step :: "world \<Rightarrow> time \<times> bool \<times> bytes list \<Rightarrow> bytes \<Rightarrow> time \<times> bool \<times> bytes list" where
  "stamp_step w st p =
     (let (newest, found, ws) = st
      in case wd_stat w p of
           Inr info \<Rightarrow> (if newest < fi_ModTime info then fi_ModTime info else newest, True, ws)
         | Inl (NotExist m) \<Rightarrow> st
         | Inl (StatFailed m) \<Rightarrow> (newest, found, ws @ [''updates: stat '' @ p @ '': '' @ m]))"

definition apt_stamp :: "world \<Rightarrow> time option \<times> bytes list" where
  "apt_stamp w =
     (let (newest, found, ws) = foldl (stamp_step w) (zero_time, False, []) aptStampCandidates
      in if found then (Some newest, ws)
         else (None, ws @ [''updates: none of '' @ join aptStampCandidates '', '' @
           '' exist; APT::Periodic::Update-Package-Lists may not be enabled or apt-daily.timer has never run successfully'']))"

definition with_apt :: "call_error + AptPendingResult \<Rightarrow> updates_Data \<Rightarrow> updates_Data \<times> bytes list" where
  "with_apt r d =
     (case r of
        Inl e \<Rightarrow> (d, [])
      | Inr apt \<Rightarrow>
          (d\<lparr>up_AptLockState := (if ap_LockState apt = [] then up_AptLockState d else ap_LockState apt),
             up_SecurityUpdatesPending := ap_SecurityUpdatesPending apt,
             up_RegularUpdatesPending := ap_RegularUpdatesPending apt,
             up_HeldPackages := (case ap_HeldPackages apt of None \<Rightarrow> up_HeldPackages d | Some hs \<Rightarrow> sort hs)\<rparr>,
           if ap_LockState apt = [] then [''updates: apt_pending returned empty lock_state''] else []))"

definition with_needrestart :: "call_error + bytes list option \<Rightarrow> updates_Data \<Rightarrow> updates_Data" where
  "with_needrestart r d =
     (case r of Inr (Some ss) \<Rightarrow> d\<lparr>up_NeedrestartPendingServices := sort ss\<rparr> | _ \<Rightarrow> d)"

definition with_unattended :: "call_error + UnattendedUpgradesStatusResult \<Rightarrow> updates_Data \<Rightarrow> updates_Data" where
  "with_unattended r d =
     (case r of
        Inl e \<Rightarrow> d
      | Inr uu \<Rightarrow> d\<lparr>up_UnattendedUpgradesEnabled := uu_Enabled uu, up_UnattendedUpgradesLastRunTS := uu_LastRunTS uu,
                    up_UnattendedUpgradesLastExitCode := uu_LastExitCode uu\<rparr>)"

definition empty_updates :: updates_Data where
  "empty_updates = \<lparr>up_AptLockState = ''unknown'', up_SecurityUpdatesPending = None, up_RegularUpdatesPending = None,
     up_HeldPackages = [], up_LastAptUpdateTS = None, up_UnattendedUpgradesEnabled = False, up_UnattendedUpgradesLastRunTS = None,
     up_UnattendedUpgradesLastExitCode = None, up_NeedrestartPendingServices = [], up_Errors = []\<rparr>"

text \<open>The three calls run side by side and share nothing.\<close>

definition updates_Handle ::
  "(call_error \<Rightarrow> bytes) \<Rightarrow> world \<Rightarrow> (bytes \<Rightarrow> bytes \<Rightarrow> call_error + AptPendingResult) \<Rightarrow> (bytes \<Rightarrow> bytes \<Rightarrow> call_error + bytes list option) \<Rightarrow>
   (bytes \<Rightarrow> bytes \<Rightarrow> call_error + UnattendedUpgradesStatusResult) \<Rightarrow> bytes \<Rightarrow> updates_Data handled" where
  "updates_Handle texts w call_apt call_need call_uu body =
     (let apt = call_apt OpAptPending []; need = call_need OpNeedrestart []; uu = call_uu OpUnattendedUpgradesStatus [];
          (es1, ws1) = failed_op texts ''updates'' OpAptPending apt;
          (es2, ws2) = failed_op texts ''updates'' OpNeedrestart need;
          (es3, ws3) = failed_op texts ''updates'' OpUnattendedUpgradesStatus uu;
          (d1, wa) = with_apt apt empty_updates;
          (ts, wt) = apt_stamp w;
          d = (with_unattended uu (with_needrestart need d1))\<lparr>up_LastAptUpdateTS := ts, up_Errors := es1 @ es2 @ es3\<rparr>
      in Inr (d, ws1 @ wa @ ws2 @ wt @ ws3))"

subsection \<open>Backup\<close>

record backup_Data =
  bk_Backend :: bytes
  bk_LastStartTS :: "time option"
  bk_LastEndTS :: "time option"
  bk_LastExitCode :: "int option"
  bk_LastArchiveLabel :: "bytes option"

definition defaultStatePath :: bytes where
  "defaultStatePath = ''/var/lib/host-health-mcp/backup-state.json''"

record backup_Tool =
  bt_logPath :: bytes
  bt_backend :: bytes
  bt_statePath :: bytes

definition NewBackup :: "bytes \<Rightarrow> bytes \<Rightarrow> bytes \<Rightarrow> backup_Tool" where
  "NewBackup logPath backend statePath =
     \<lparr>bt_logPath = logPath, bt_backend = (if backend = [] then ''none'' else backend),
      bt_statePath = (if statePath = [] then defaultStatePath else statePath)\<rparr>"

definition backendLogProbes :: "(bytes \<times> bytes list) list" where
  "backendLogProbes =
     [(''borg'', [''/var/log/borg/borg.log'', ''/var/log/borgbackup.log'', ''/var/log/borgmatic/borgmatic.log'', ''/var/log/borgmatic.log'']),
      (''borgmatic'', [''/var/log/borgmatic/borgmatic.log'', ''/var/log/borgmatic.log'']),
      (''restic'', [''/var/log/restic.log'', ''/var/log/restic/restic.log'']),
      (''rsnapshot'', [''/var/log/rsnapshot.log'', ''/var/log/rsnapshot/rsnapshot.log'']),
      (''duplicity'', [''/var/log/duplicity.log''])]"

record stateFile =
  sf_LastStartTS :: "time option"
  sf_LastEndTS :: "time option"
  sf_LastExitCode :: "int option"
  sf_LastArchiveLabel :: "bytes option"

text \<open>A \<^verbatim>\<open>time.Time\<close> member: the text between the quotes, unless it is \<^verbatim>\<open>null\<close>.\<close>

definition dec_time :: "world \<Rightarrow> time decoder" where
  "dec_time w old s =
     (if s = ''null'' then Some old
      else if 2 \<le> length s \<and> hd s = CHR 0x22 \<and> last s = CHR 0x22
      then wd_parse_time w ''2006-01-02T15:04:05Z07:00'' (tl (butlast s)) else None)"

definition dec_state_file :: "world \<Rightarrow> bytes \<Rightarrow> stateFile option" where
  "dec_state_file w s = do {
     ms \<leftarrow> dec_struct s;
     a \<leftarrow> dec_field (dec_ptr (dec_time w) zero_time) None ms ''last_start_ts'';
     b \<leftarrow> dec_field (dec_ptr (dec_time w) zero_time) None ms ''last_end_ts'';
     c \<leftarrow> dec_field (dec_ptr dec_int 0) None ms ''last_exit_code'';
     l \<leftarrow> dec_field (dec_ptr dec_string []) None ms ''last_archive_label'';
     Some \<lparr>sf_LastStartTS = a, sf_LastEndTS = b, sf_LastExitCode = c, sf_LastArchiveLabel = l\<rparr> }"

text \<open>An error, no file, or a state with at least one field.\<close>

definition readStateFile :: "world \<Rightarrow> bytes \<Rightarrow> bytes + stateFile option" where
  "readStateFile w path =
     (case wd_file w path of
        Inl (NotExist m) \<Rightarrow> Inr None
      | Inl (StatFailed m) \<Rightarrow> Inl m
      | Inr rd \<Rightarrow>
          (case limit_reader (32 * 1024) rd of
             (body, Some e) \<Rightarrow> Inl (''read: '' @ e)
           | (body, None) \<Rightarrow>
               (case dec_state_file w body of
                  None \<Rightarrow> Inl (''json: '' @ wd_error w ''json.Unmarshal'' body)
                | Some s \<Rightarrow>
                    if sf_LastStartTS s = None \<and> sf_LastEndTS s = None \<and> sf_LastExitCode s = None \<and> sf_LastArchiveLabel s = None
                    then Inl ''state file contains no usable fields'' else Inr (Some s))))"

definition probeBackendLog :: "world \<Rightarrow> bytes \<Rightarrow> bytes \<times> bytes list" where
  "probeBackendLog w backend =
     (let candidates = (case map_of backendLogProbes backend of None \<Rightarrow> [] | Some ps \<Rightarrow> ps)
      in (case find (file_exists w) candidates of Some p \<Rightarrow> p | None \<Rightarrow> [], candidates))"

definition backup_log :: "world \<Rightarrow> bytes \<Rightarrow> backup_Data \<Rightarrow> bytes list \<Rightarrow> backup_Data handled" where
  "backup_log w path d ws =
     (case wd_stat w path of
        Inl (NotExist m) \<Rightarrow> Inr (d, ws @ [''backup: log path absent: '' @ path])
      | Inl (StatFailed m) \<Rightarrow> Inl (ToolOther m)
      | Inr info \<Rightarrow> Inr (d\<lparr>bk_LastEndTS := Some (fi_ModTime info)\<rparr>, ws))"

definition backup_fallback :: "world \<Rightarrow> backup_Tool \<Rightarrow> backup_Data \<Rightarrow> bytes list \<Rightarrow> backup_Data handled" where
  "backup_fallback w t d ws =
     (if bt_logPath t \<noteq> [] then backup_log w (bt_logPath t) d ws
      else let (probed, candidates) = probeBackendLog w (bt_backend t)
      in if probed \<noteq> [] then
           backup_log w probed d (ws @ [''backup: auto-probed log path '' @ probed @ '' (set backup_log_path in manifest.yml to pin)''])
         else if candidates \<noteq> [] then
           Inr (d, ws @ [''backup: log path not configured; tried '' @ join candidates '', '' @ ''; set backup_log_path in manifest.yml''])
         else Inr (d, ws @ [''backup: log path not configured and no auto-probe paths defined for backend '' @ bt_backend t]))"

definition backup_Handle :: "world \<Rightarrow> backup_Tool \<Rightarrow> bytes \<Rightarrow> backup_Data handled" where
  "backup_Handle w t body =
     (let d = \<lparr>bk_Backend = bt_backend t, bk_LastStartTS = None, bk_LastEndTS = None, bk_LastExitCode = None, bk_LastArchiveLabel = None\<rparr>
      in if bt_backend t = ''none'' then Inr (d, [''backup: not configured (backup_backend=none)''])
         else case readStateFile w (bt_statePath t) of
           Inl e \<Rightarrow> backup_fallback w t d [''backup: state file '' @ bt_statePath t @ '': '' @ e]
         | Inr None \<Rightarrow> backup_fallback w t d []
         | Inr (Some s) \<Rightarrow>
             Inr (d\<lparr>bk_LastStartTS := sf_LastStartTS s, bk_LastEndTS := sf_LastEndTS s, bk_LastExitCode := sf_LastExitCode s,
                    bk_LastArchiveLabel := sf_LastArchiveLabel s\<rparr>, []))"

subsection \<open>Properties\<close>

text \<open>A depth is reported exactly when it was measured; a failure leaves an error entry behind.\<close>

lemma mail_depth_measured:
  assumes "mail_Handle texts w call body = Inr (d, ws)"
  shows "case ml_QueueDepth d of
      Some n \<Rightarrow> \<exists>pq. call OpPostqueue [] = Inr pq \<and> n = pq_QueueDepth pq \<and> ml_Errors d = []
    | None \<Rightarrow> detectMTA w \<noteq> ''postfix'' \<or> (\<exists>e. call OpPostqueue [] = Inl e \<and> length (ml_Errors d) = 1)"
  using assms
  by (auto simp: mail_Handle_def failed_op_def Let_def op_failure_def split: prod.splits if_splits sum.splits stat_error.splits)

text \<open>The updates tool never fails as a whole, and its error block has an entry for each call that failed.\<close>

lemma updates_total:
  "\<exists>d ws. updates_Handle texts w ca cn cu body = Inr (d, ws) \<and>
     length (up_Errors d) = length (filter (\<lambda>b. b) [isl (ca OpAptPending []), isl (cn OpNeedrestart []), isl (cu OpUnattendedUpgradesStatus [])])"
  by (auto simp: updates_Handle_def failed_op_def Let_def split_beta op_failure_def isl_def split: sum.splits)

text \<open>The backup tool reports an archive label only from a state file.\<close>

lemma backup_log_label: "backup_log w p d ws = Inr (d', ws') \<Longrightarrow> bk_LastArchiveLabel d' = bk_LastArchiveLabel d"
  by (auto simp: backup_log_def split: sum.splits stat_error.splits)

lemma backup_fallback_label: "backup_fallback w t d ws = Inr (d', ws') \<Longrightarrow> bk_LastArchiveLabel d' = bk_LastArchiveLabel d"
  by (auto simp: backup_fallback_def split_beta Let_def dest: backup_log_label split: if_splits)

lemma backup_label_source:
  assumes "backup_Handle w t body = Inr (d, ws)" and "bk_LastArchiveLabel d = Some l"
  shows "\<exists>s. readStateFile w (bt_statePath t) = Inr (Some s) \<and> sf_LastArchiveLabel s = Some l"
  using assms by (auto simp: backup_Handle_def Let_def dest: backup_fallback_label split: if_splits sum.splits option.splits)

end
