(* ===== verification/ToolSystem.thy ===== *)
theory ToolSystem
  imports ToolBase
begin

text \<open>
  \<^verbatim>\<open>tools/system/system.go\<close>: load, memory, kernel, distribution and the disk usage of every mount. Probes of
  \<^verbatim>\<open>statfs(2)\<close> that do not answer are abandoned and remembered; they are also modelled as a
  transition system. A float is a rational number.
\<close>

subsection \<open>Data\<close>

record DiskEntry =
  de_Mountpoint :: bytes
  de_FS :: bytes
  de_SizeB :: "int option"
  de_UsedB :: "int option"
  de_InodesTotal :: "int option"
  de_InodesUsed :: "int option"

record system_Data =
  sy_UptimeS :: int
  sy_Load1 :: rat
  sy_Load5 :: rat
  sy_Load15 :: rat
  sy_CPUCount :: int
  sy_MemTotalB :: int
  sy_MemAvailableB :: int
  sy_SwapTotalB :: int
  sy_SwapUsedB :: int
  sy_Disk :: "DiskEntry list"
  sy_KernelRelease :: bytes
  sy_Distro :: bytes
  sy_DistroVersion :: bytes
  sy_TimeSyncSource :: bytes
  sy_TimeOffsetS :: "rat option"
  sy_RebootRequired :: bool

text \<open>The fields of \<^verbatim>\<open>unix.Statfs_t\<close> that are read.\<close>

record Statfs_t =
  sf_Blocks :: int
  sf_Bsize :: int
  sf_Bavail :: int
  sf_Files :: int
  sf_Ffree :: int

text \<open>What becomes of a probe within the time it is given.\<close>

datatype probe = Answered Statfs_t | StatfsError bytes | NoAnswer

record sys_host =
  sh_NumCPU :: int
  sh_Uname :: "bytes option"
  sh_Statfs :: "bytes \<Rightarrow> probe"

subsection \<open>Files of the kernel\<close>

text \<open>The conversion of a float to an integer cuts off the fraction.\<close>

definition trunc_rat :: "rat \<Rightarrow> int" where
  "trunc_rat r = (if r < 0 then - \<lfloor>- r\<rfloor> else \<lfloor>r\<rfloor>)"

definition parse_float :: "world \<Rightarrow> bytes \<Rightarrow> bytes + rat" where
  "parse_float w s = (case wd_parse_float w s of None \<Rightarrow> Inl (wd_error w ''strconv.ParseFloat'' s) | Some r \<Rightarrow> Inr r)"

definition readUptime :: "world \<Rightarrow> bytes + int" where
  "readUptime w =
     (case ReadFile w ''/proc/uptime'' of
        Inl e \<Rightarrow> Inl (stat_text e)
      | Inr b \<Rightarrow>
          (case Fields b of
             [] \<Rightarrow> Inl ''uptime: empty''
           | f # fs \<Rightarrow> map_sum id trunc_rat (parse_float w f)))"

definition readLoadAvg :: "world \<Rightarrow> bytes + rat \<times> rat \<times> rat" where
  "readLoadAvg w =
     (case ReadFile w ''/proc/loadavg'' of
        Inl e \<Rightarrow> Inl (stat_text e)
      | Inr b \<Rightarrow>
          (case Fields b of
             f1 # f5 # f15 # fs \<Rightarrow>
               (case parse_float w f1 of
                  Inl e \<Rightarrow> Inl e
                | Inr l1 \<Rightarrow>
                    (case parse_float w f5 of
                       Inl e \<Rightarrow> Inl e
                     | Inr l5 \<Rightarrow> (case parse_float w f15 of Inl e \<Rightarrow> Inl e | Inr l15 \<Rightarrow> Inr (l1, l5, l15))))
           | _ \<Rightarrow> Inl ''loadavg: short''))"

record mem_info =
  mi_total :: int
  mi_avail :: int
  mi_swapTotal :: int
  mi_swapFree :: int

definition mem_line :: "mem_info \<Rightarrow> bytes \<Rightarrow> mem_info" where
  "mem_line m line =
     (case index_byte line CHR '':'' of
        None \<Rightarrow> m
      | Some colon \<Rightarrow>
          (case Fields (drop (Suc colon) line) of
             [] \<Rightarrow> m
           | v # vs \<Rightarrow>
               (case atoi v of
                  None \<Rightarrow> m
                | Some n \<Rightarrow>
                    (let key = take colon line; bytesV = int64 (n * 1024)
                     in if key = ''MemTotal'' then m\<lparr>mi_total := bytesV\<rparr>
                        else if key = ''MemAvailable'' then m\<lparr>mi_avail := bytesV\<rparr>
                        else if key = ''SwapTotal'' then m\<lparr>mi_swapTotal := bytesV\<rparr>
                        else if key = ''SwapFree'' then m\<lparr>mi_swapFree := bytesV\<rparr>
                        else m))))"

definition readMemInfo :: "world \<Rightarrow> bytes + int \<times> int \<times> int \<times> int" where
  "readMemInfo w =
     (case wd_file w ''/proc/meminfo'' of
        Inl e \<Rightarrow> Inl (stat_text e)
      | Inr rd \<Rightarrow>
          (let (ls, err) = scan_reader ''/proc/meminfo'' rd;
               m = foldl mem_line \<lparr>mi_total = 0, mi_avail = 0, mi_swapTotal = 0, mi_swapFree = 0\<rparr> ls
           in case err of
                Some e \<Rightarrow> Inl e
              | None \<Rightarrow> Inr (mi_total m, mi_avail m, mi_swapTotal m, int64 (mi_swapTotal m - mi_swapFree m))))"

definition os_release_line :: "bytes \<times> bytes \<Rightarrow> bytes \<Rightarrow> bytes \<times> bytes" where
  "os_release_line st line =
     (case index_byte line CHR ''='' of
        None \<Rightarrow> st
      | Some eq \<Rightarrow>
          if eq = 0 then st
          else let key = take eq line; val = trim_chars (drop (Suc eq) line) [CHR 0x22]
          in if key = ''ID'' then (val, snd st) else if key = ''VERSION_ID'' then (fst st, val) else st)"

definition readOSRelease :: "world \<Rightarrow> bytes + bytes \<times> bytes" where
  "readOSRelease w =
     (case ReadFile w ''/etc/os-release'' of
        Inl e \<Rightarrow> Inl (stat_text e)
      | Inr b \<Rightarrow> Inr (foldl os_release_line ([], []) (split_on CHR 0x0A [] b)))"

definition timesync_probes :: "(bytes \<times> bytes) list" where
  "timesync_probes =
     [(''/var/run/chrony/chronyd.pid'', ''chrony''), (''/run/chrony/chronyd.pid'', ''chrony''), (''/var/run/ntpd.pid'', ''ntpd''),
      (''/run/systemd/timesync/synchronized'', ''systemd-timesyncd'')]"

definition detectTimeSync :: "world \<Rightarrow> bytes" where
  "detectTimeSync w = (case find (\<lambda>p. file_exists w (fst p)) timesync_probes of Some p \<Rightarrow> snd p | None \<Rightarrow> ''none'')"

subsection \<open>Mounts\<close>

record mountEntry =
  me_Mountpoint :: bytes
  me_FS :: bytes

definition blockingFSTypes :: "bytes list" where
  "blockingFSTypes =
     [''nfs'', ''nfs4'', ''cifs'', ''smb3'', ''smbfs'', ''afs'', ''coda'', ''ncpfs'', ''9p'', ''ceph'', ''glusterfs'', ''lustre'', ''beegfs'',
      ''orangefs'', ''gfs2'', ''ocfs2'', ''davfs'', ''gpfs'', ''mmfs'', ''virtiofs'', ''vboxsf'', ''prl_fs'', ''fuseblk'']"

definition pseudo_fs :: "bytes list" where
  "pseudo_fs =
     [''proc'', ''sysfs'', ''cgroup'', ''cgroup2'', ''devpts'', ''tmpfs'', ''devtmpfs'', ''mqueue'', ''debugfs'', ''tracefs'', ''securityfs'',
      ''pstore'', ''bpf'', ''fusectl'', ''configfs'', ''fuse.gvfsd-fuse'', ''rpc_pipefs'', ''nsfs'', ''nfsd'', ''autofs'', ''binfmt_misc'',
      ''overlay'', ''ramfs'']"

definition mayBlockOnStatfs :: "bytes \<Rightarrow> bool" where
  "mayBlockOnStatfs fs \<longleftrightarrow> fs \<in> set blockingFSTypes \<or> fs = ''fuse'' \<or> has_prefix fs ''fuse.''"

text \<open>Octal escapes of one byte; what is no escape is kept.\<close>

fun unescapeMountField :: "bytes \<Rightarrow> bytes" where
  "unescapeMountField [] = []"
| "unescapeMountField (c # s) =
     (if c = CHR 0x5C \<and> 3 \<le> length s then
        (case parse_uint 8 8 (take 3 s) of
           Some v \<Rightarrow> char_of v # unescapeMountField (drop 3 s)
         | None \<Rightarrow> c # unescapeMountField s)
      else c # unescapeMountField s)"

text \<open>The mounts to measure, those that may block, and the mount points seen.\<close>

definition mount_line :: "mountEntry list \<times> mountEntry list \<times> bytes list \<Rightarrow> bytes \<Rightarrow> mountEntry list \<times> mountEntry list \<times> bytes list" where
  "mount_line st line =
     (let (measured, skipped, seen) = st
      in case Fields line of
           dev # f1 # fs # rest \<Rightarrow>
             (let mp = unescapeMountField f1; e = \<lparr>me_Mountpoint = mp, me_FS = fs\<rparr>
              in if fs \<in> set pseudo_fs \<or> mp \<in> set seen then st
                 else if mayBlockOnStatfs fs then (measured, skipped @ [e], mp # seen)
                 else (measured @ [e], skipped, mp # seen))
         | _ \<Rightarrow> st)"

definition parseMounts :: "bytes \<times> bytes option \<Rightarrow> mountEntry list \<times> mountEntry list \<times> bytes option" where
  "parseMounts rd =
     (let (ls, err) = scan_reader ''/proc/mounts'' rd; (measured, skipped, seen) = foldl mount_line ([], [], []) ls
      in (measured, skipped, err))"

definition readMounts :: "world \<Rightarrow> mountEntry list \<times> mountEntry list \<times> bytes option" where
  "readMounts w =
     (case wd_file w ''/proc/mounts'' of
        Inl e \<Rightarrow> ([], [], Some (stat_text e))
      | Inr rd \<Rightarrow> parseMounts rd)"

subsection \<open>Bounded probes\<close>

definition statfsTimeout :: duration where
  "statfsTimeout = 2 * Second"

text \<open>
  The mount points with a probe that has not returned are the state; a probe without an answer
  stays among them.
\<close>

definition statfsBounded :: "(bytes \<Rightarrow> probe) \<Rightarrow> bytes list \<Rightarrow> bytes \<Rightarrow> Statfs_t option \<times> bytes list" where
  "statfsBounded statfs inFlight mp =
     (if mp \<in> set inFlight then (None, inFlight)
      else case statfs mp of
        Answered st \<Rightarrow> (Some st, inFlight)
      | StatfsError e \<Rightarrow> (None, inFlight)
      | NoAnswer \<Rightarrow> (None, mp # inFlight))"

definition disk_entry :: "mountEntry \<Rightarrow> Statfs_t option \<Rightarrow> DiskEntry" where
  "disk_entry m r =
     \<lparr>de_Mountpoint = me_Mountpoint m, de_FS = me_FS m,
      de_SizeB = map_option (\<lambda>st. int64 (int64 (sf_Blocks st) * sf_Bsize st)) r,
      de_UsedB = map_option (\<lambda>st. int64 (int64 (sf_Blocks st - sf_Bavail st) * sf_Bsize st)) r,
      de_InodesTotal = map_option (\<lambda>st. int64 (sf_Files st)) r,
      de_InodesUsed = map_option (\<lambda>st. int64 (sf_Files st - sf_Ffree st)) r\<rparr>"

fun measure_disks :: "(bytes \<Rightarrow> probe) \<Rightarrow> bytes list \<Rightarrow> mountEntry list \<Rightarrow> DiskEntry list \<times> bytes list \<times> bytes list" where
  "measure_disks statfs inFlight [] = ([], [], inFlight)"
| "measure_disks statfs inFlight (m # ms) =
     (let (r, inFlight1) = statfsBounded statfs inFlight (me_Mountpoint m);
          (ds, unmeasured, inFlight2) = measure_disks statfs inFlight1 ms
      in (disk_entry m r # ds,
          (if r = None then (me_Mountpoint m @ '' ('' @ me_FS m @ '')'') # unmeasured else unmeasured),
          inFlight2))"

definition with_reading :: "bytes \<Rightarrow> bytes + 'a \<Rightarrow> ('a \<Rightarrow> system_Data \<Rightarrow> system_Data) \<Rightarrow> system_Data \<times> bytes list \<Rightarrow> system_Data \<times> bytes list" where
  "with_reading what r f st =
     (case r of Inr v \<Rightarrow> (f v (fst st), snd st) | Inl e \<Rightarrow> (fst st, snd st @ [''system: '' @ what @ '': '' @ e]))"

definition system_base :: "world \<Rightarrow> sys_host \<Rightarrow> system_Data \<times> bytes list" where
  "system_base w h =
     (let d0 = \<lparr>sy_UptimeS = 0, sy_Load1 = 0, sy_Load5 = 0, sy_Load15 = 0, sy_CPUCount = sh_NumCPU h, sy_MemTotalB = 0,
                sy_MemAvailableB = 0, sy_SwapTotalB = 0, sy_SwapUsedB = 0, sy_Disk = [],
                sy_KernelRelease = (case sh_Uname h of Some k \<Rightarrow> k | None \<Rightarrow> []),
                sy_Distro = (case readOSRelease w of Inr (i, v) \<Rightarrow> i | Inl e \<Rightarrow> []),
                sy_DistroVersion = (case readOSRelease w of Inr (i, v) \<Rightarrow> v | Inl e \<Rightarrow> []),
                sy_TimeSyncSource = detectTimeSync w, sy_TimeOffsetS = None, sy_RebootRequired = file_exists w ''/var/run/reboot-required''\<rparr>
      in with_reading ''meminfo'' (readMemInfo w)
           (\<lambda>(mt, ma, st, su) d. d\<lparr>sy_MemTotalB := mt, sy_MemAvailableB := ma, sy_SwapTotalB := st, sy_SwapUsedB := su\<rparr>)
         (with_reading ''loadavg'' (readLoadAvg w) (\<lambda>(l1, l5, l15) d. d\<lparr>sy_Load1 := l1, sy_Load5 := l5, sy_Load15 := l15\<rparr>)
         (with_reading ''uptime'' (readUptime w) (\<lambda>u d. d\<lparr>sy_UptimeS := u\<rparr>) (d0, []))))"

definition system_Handle :: "world \<Rightarrow> sys_host \<Rightarrow> bytes list \<Rightarrow> bytes \<Rightarrow> system_Data handled \<times> bytes list" where
  "system_Handle w h inFlight body =
     (let (d, ws) = system_base w h;
          (measured, skipped, err) = readMounts w;
          ws1 = (case err of None \<Rightarrow> [] | Some e \<Rightarrow> [''system: /proc/mounts: '' @ e @ ''; disk[] is incomplete'']);
          (disks, unmeasured, inFlight1) = measure_disks (sh_Statfs h) inFlight (measured @ skipped);
          ws2 = (if unmeasured = [] then [] else
            [''system: disk usage not measured for '' @ join unmeasured '', '' @ '': statfs did not answer within 2s'' @
             '' (the mount is listed with null measurements)''])
      in (Inr (d\<lparr>sy_Disk := disks\<rparr>, ws @ ws1 @ ws2), inFlight1))"

subsection \<open>The mount table is read back\<close>

text \<open>The kernel's escapes: blank, tab, line feed and backslash as three octal digits.\<close>

definition octal3 :: "nat \<Rightarrow> bytes" where
  "octal3 n = [digit_char (n div 64), digit_char (n div 8 mod 8), digit_char (n mod 8)]"

definition mangle :: "bytes \<Rightarrow> bytes" where
  "mangle s = concat (map (\<lambda>c. if c \<in> set [CHR '' '', CHR 0x09, CHR 0x0A, CHR 0x5C] then CHR 0x5C # octal3 (of_char c) else [c]) s)"

lemma parse_octal3: "n < 256 \<Longrightarrow> parse_uint 8 8 (octal3 n) = Some n"
proof -
  assume n: "n < 256"
  have d: "digit_val (digit_char k) = Some k" if "k < 8" for k using that by (simp add: digit_val_digit_char)
  have "n div 64 < 8" using n by simp
  then have "parse_digits 8 0 (octal3 n) = Some ((n div 64 * 8 + n div 8 mod 8) * 8 + n mod 8)" by (simp add: octal3_def d)
  also have "(n div 64 * 8 + n div 8 mod 8) * 8 + n mod 8 = n"
    using div_mult_mod_eq [of n 8] div_mult_mod_eq [of "n div 8" 8] by (simp add: div_mult2_eq [of n 8 8, symmetric])
  finally show ?thesis using n by (simp add: parse_uint_def octal3_def)
qed

lemma unescape_mangle: "unescapeMountField (mangle s) = s"
proof (induction s)
  case (Cons c s)
  show ?case
  proof (cases "c \<in> set [CHR '' '', CHR 0x09, CHR 0x0A, CHR 0x5C]")
    case True
    have l: "length (octal3 n) = 3" for n by (simp add: octal3_def)
    from True have "mangle (c # s) = CHR 0x5C # (octal3 (of_char c) @ mangle s)" by (simp add: mangle_def)
    moreover have "(of_char c :: nat) < 256" by simp
    ultimately show ?thesis using Cons l by (simp add: parse_octal3 [OF \<open>(of_char c :: nat) < 256\<close>])
  next
    case False
    then have "mangle (c # s) = c # mangle s" "c \<noteq> CHR 0x5C" by (auto simp: mangle_def)
    then show ?thesis using Cons by simp
  qed
qed (simp add: mangle_def)

text \<open>A mount as the kernel writes it: source, mount point, type, options.\<close>

type_synonym kmount = "bytes \<times> bytes \<times> bytes \<times> bytes"

definition kernel_line :: "kmount \<Rightarrow> bytes" where
  "kernel_line m = (let (dev, mp, fs, opts) = m in join [mangle dev, mangle mp, fs, opts, ''0'', ''0''] '' '')"

definition mount_table :: "kmount list \<Rightarrow> bytes" where
  "mount_table ms = terminated (map kernel_line ms)"

text \<open>
  No field is empty or contains white space once it is escaped, and a line is shorter than the
  scanner's limit. The kernel does not escape all that \<^verbatim>\<open>strings.Fields\<close> splits at.
\<close>

definition mount_ok :: "kmount \<Rightarrow> bool" where
  "mount_ok m =
     (let (dev, mp, fs, opts) = m
      in list_all (\<lambda>t. t \<noteq> [] \<and> space_free t) [mangle dev, mangle mp, fs, opts] \<and>
         length (kernel_line m) < MaxLine)"

text \<open>The first mount at every mount point, without the pseudo file systems.\<close>

fun first_mounts :: "bytes list \<Rightarrow> kmount list \<Rightarrow> mountEntry list" where
  "first_mounts used [] = []"
| "first_mounts used ((dev, mp, fs, opts) # ms) =
     (if fs \<in> set pseudo_fs \<or> mp \<in> set used then first_mounts used ms
      else \<lparr>me_Mountpoint = mp, me_FS = fs\<rparr> # first_mounts (mp # used) ms)"

lemma kernel_line_fields:
  assumes "mount_ok (dev, mp, fs, opts)"
  shows "Fields (kernel_line (dev, mp, fs, opts)) = [mangle dev, mangle mp, fs, opts, ''0'', ''0'']"
proof -
  have z: "space_free ''0''" by (rule space_free_printable) simp
  have "Fields (join [mangle dev, mangle mp, fs, opts, ''0'', ''0''] '' '') = [mangle dev, mangle mp, fs, opts, ''0'', ''0'']"
    by (rule fields_join) (use assms z in \<open>simp add: mount_ok_def del: space_free.simps\<close>)
  then show ?thesis by (simp only: kernel_line_def Let_def prod.case)
qed

lemma kernel_line_plain:
  assumes "mount_ok m"
  shows "CHR 0x0A \<notin> set (kernel_line m)" and "drop_cr (kernel_line m) = kernel_line m"
proof -
  obtain dev mp fs opts where m: "m = (dev, mp, fs, opts)" by (cases m)
  have sf: "CHR 0x0A \<notin> set t" if "space_free t" for t using space_free_no_break [OF that] by blast
  then show "CHR 0x0A \<notin> set (kernel_line m)" using assms by (auto simp: m mount_ok_def kernel_line_def)
  have "kernel_line m \<noteq> [] \<and> last (kernel_line m) = CHR ''0''" by (simp add: m kernel_line_def)
  then show "drop_cr (kernel_line m) = kernel_line m" by (simp add: drop_cr_def)
qed

lemma mount_lines:
  assumes "list_all mount_ok ms"
  shows "\<exists>used'. foldl mount_line (a, b, used) (map kernel_line ms) =
    (a @ filter (\<lambda>e. \<not> mayBlockOnStatfs (me_FS e)) (first_mounts used ms),
     b @ filter (\<lambda>e. mayBlockOnStatfs (me_FS e)) (first_mounts used ms), used')"
  using assms
proof (induction ms arbitrary: a b used)
  case (Cons m ms)
  obtain dev mp fs opts where m: "m = (dev, mp, fs, opts)" by (cases m)
  have "mount_line (a, b, used) (kernel_line m) =
      (if fs \<in> set pseudo_fs \<or> mp \<in> set used then (a, b, used)
       else if mayBlockOnStatfs fs then (a, b @ [\<lparr>me_Mountpoint = mp, me_FS = fs\<rparr>], mp # used)
       else (a @ [\<lparr>me_Mountpoint = mp, me_FS = fs\<rparr>], b, mp # used))"
    using Cons.prems kernel_line_fields [of dev mp fs opts] by (simp add: m mount_line_def unescape_mangle Let_def)
  then show ?case
    using Cons.IH [of a b used] Cons.IH [of a "b @ [\<lparr>me_Mountpoint = mp, me_FS = fs\<rparr>]" "mp # used"]
      Cons.IH [of "a @ [\<lparr>me_Mountpoint = mp, me_FS = fs\<rparr>]" b "mp # used"] Cons.prems by (simp add: m)
qed simp

lemma parse_mount_table:
  assumes "list_all mount_ok ms"
  shows "parseMounts (mount_table ms, None) =
    (filter (\<lambda>e. \<not> mayBlockOnStatfs (me_FS e)) (first_mounts [] ms),
     filter (\<lambda>e. mayBlockOnStatfs (me_FS e)) (first_mounts [] ms), None)"
proof -
  have "scan_with ''/proc/mounts'' (terminated (map kernel_line ms) @ []) = (map drop_cr (map kernel_line ms), None)"
    using assms kernel_line_plain
    by (subst scan_with_spec) (auto simp: list_all_iff MaxLine_def mount_ok_def Let_def)
  moreover have "map drop_cr (map kernel_line ms) = map kernel_line ms"
    using assms kernel_line_plain(2) by (simp add: list_all_iff)
  ultimately have "scan_reader ''/proc/mounts'' (mount_table ms, None) = (map kernel_line ms, None)"
    by (simp add: scan_reader_def scan_with_def mount_table_def)
  then show ?thesis using mount_lines [OF assms, of "[]" "[]" "[]"] by (auto simp: parseMounts_def)
qed

lemma first_mounts_distinct:
  "distinct (map me_Mountpoint (first_mounts used ms)) \<and> set (map me_Mountpoint (first_mounts used ms)) \<inter> set used = {}"
  by (induction used ms rule: first_mounts.induct) auto

lemma measure_disks_values:
  assumes "distinct (map me_Mountpoint ms)"
  shows "fst (measure_disks statfs fl ms) = map (\<lambda>m. disk_entry m (if me_Mountpoint m \<in> set fl then None
     else case statfs (me_Mountpoint m) of Answered st \<Rightarrow> Some st | _ \<Rightarrow> None)) ms"
  using assms
proof (induction ms arbitrary: fl)
  case (Cons m ms)
  let ?r = "statfsBounded statfs fl (me_Mountpoint m)"
  have "me_Mountpoint m' \<in> set (snd ?r) \<longleftrightarrow> me_Mountpoint m' \<in> set fl" if "m' \<in> set ms" for m'
    using imageI [OF that, of me_Mountpoint] Cons.prems by (auto simp: statfsBounded_def split: probe.splits)
  moreover have "fst ?r = (if me_Mountpoint m \<in> set fl then None else case statfs (me_Mountpoint m) of Answered st \<Rightarrow> Some st | _ \<Rightarrow> None)"
    by (auto simp: statfsBounded_def split: probe.splits)
  ultimately show ?case using Cons by (simp add: split_beta Let_def)
qed simp

lemma distinct_partition:
  "distinct (map f xs) \<Longrightarrow> distinct (map f (filter (\<lambda>x. \<not> P x) xs @ filter P xs))"
  by (induction xs) auto


definition sample_mounts :: "kmount list" where
  "sample_mounts =
     [(''/dev/sda1'', ''/'', ''ext4'', ''rw''), (''nas:/x'', ''/mnt/a b'', ''nfs4'', ''rw''), (''proc'', ''/proc'', ''proc'', ''rw''),
      (''/dev/sdb1'', ''/srv'', ''xfs'', ''rw''), (''/dev/sdc1'', ''/srv'', ''xfs'', ''rw'')]"

definition sample_sys_host :: sys_host where
  "sample_sys_host = \<lparr>sh_NumCPU = 4, sh_Uname = Some ''6.12'', sh_Statfs = (\<lambda>mp. if mp = ''/'' then
     Answered \<lparr>sf_Blocks = 100, sf_Bsize = 4096, sf_Bavail = 40, sf_Files = 10, sf_Ffree = 3\<rparr> else NoAnswer)\<rparr>"


text \<open>
  White space the kernel does not escape splits a mount point: the rest of its name is taken for the
  type of the file system.
\<close>

lemma unescaped_space_splits:
  "mount_line ([], [], []) (kernel_line (''/dev/sda1'', ''/mnt/a'' @ [CHR 0x0D] @ ''b'', ''ext4'', ''rw'')) =
     ([\<lparr>me_Mountpoint = ''/mnt/a'', me_FS = ''b''\<rparr>], [], [''/mnt/a''])"
  by code_simp

subsection \<open>Abandoned probes\<close>

text \<open>
  Several callers of \<^verbatim>\<open>statfsBounded\<close> at once: \<open>ps_inFlight\<close> is the map, \<open>ps_running\<close> the goroutines whose system
  call has not returned. A caller that finds the mount point in the map starts nothing; a
  goroutine removes its entry when it ends.
\<close>

record probe_state =
  ps_inFlight :: "bytes list"
  ps_running :: "bytes list"

inductive probe_step :: "probe_state \<Rightarrow> probe_state \<Rightarrow> bool" where
  ps_start: "mp \<notin> set (ps_inFlight s) \<Longrightarrow>
    probe_step s (s\<lparr>ps_inFlight := mp # ps_inFlight s, ps_running := mp # ps_running s\<rparr>)"
| ps_busy: "mp \<in> set (ps_inFlight s) \<Longrightarrow> probe_step s s"
| ps_return: "mp \<in> set (ps_running s) \<Longrightarrow>
    probe_step s (s\<lparr>ps_inFlight := removeAll mp (ps_inFlight s), ps_running := remove1 mp (ps_running s)\<rparr>)"

definition probe_init :: "probe_state \<Rightarrow> bool" where
  "probe_init s \<longleftrightarrow> s = \<lparr>ps_inFlight = [], ps_running = []\<rparr>"

definition probe_inv :: "probe_state \<Rightarrow> bool" where
  "probe_inv s \<longleftrightarrow> distinct (ps_running s) \<and> distinct (ps_inFlight s) \<and> set (ps_inFlight s) = set (ps_running s)"

lemma probe_step_inv: "probe_step s s' \<Longrightarrow> probe_inv s \<Longrightarrow> probe_inv s'"
  by (induction rule: probe_step.induct) (auto simp: probe_inv_def distinct_removeAll)

interpretation probes: invariant_system probe_init probe_step probe_inv
  by unfold_locales (simp add: probe_init_def probe_inv_def, rule probe_step_inv)

inductive_cases probe_stepE: "probe_step s t"

text \<open>A step in which a system call returns.\<close>

definition probe_return :: "probe_state \<Rightarrow> probe_state \<Rightarrow> bool" where
  "probe_return s t \<longleftrightarrow> probe_step s t \<and> length (ps_running t) < length (ps_running s)"

lemma probes_drain: "probe_inv s \<Longrightarrow> \<exists>t. probe_return\<^sup>*\<^sup>* s t \<and> ps_inFlight t = [] \<and> ps_running t = []"
proof (induction "length (ps_running s)" arbitrary: s)
  case 0
  then show ?case by (intro exI [of _ s]) (auto simp: probe_inv_def)
next
  case (Suc n)
  then obtain mp rest where r: "ps_running s = mp # rest" by (cases "ps_running s") auto
  let ?t = "s\<lparr>ps_inFlight := removeAll mp (ps_inFlight s), ps_running := remove1 mp (ps_running s)\<rparr>"
  have st: "probe_step s ?t" by (rule ps_return) (simp add: r)
  then have "probe_return s ?t" by (simp add: probe_return_def r)
  moreover have "n = length (ps_running ?t)" using Suc.hyps(2) r by simp
  ultimately show ?case
    using Suc.hyps(1) [of ?t] probe_step_inv [OF st Suc.prems] by (meson converse_rtranclp_into_rtranclp)
qed

text \<open>
  C35: However calls, answers and silences interleave, a mount has at most one probe outstanding, and
  the map holds exactly the mounts with one: goroutines do not pile up behind a dead server. No
  entry is lost or left behind: from every reachable state, the returns of the outstanding calls
  alone, in at most as many steps as there are, lead to a state in which every mount is measured again.
\<close>

theorem probes_bounded_and_recover:
  assumes "reachable probe_init probe_step s"
  shows "distinct (ps_running s) \<and> set (ps_inFlight s) = set (ps_running s) \<and>
    (\<exists>t. probe_return\<^sup>*\<^sup>* s t \<and> ps_running t = [] \<and>
       (\<forall>statfs mp. fst (statfsBounded statfs (ps_inFlight t) mp) = (case statfs mp of Answered st \<Rightarrow> Some st | _ \<Rightarrow> None)))"
proof -
  have i: "probe_inv s" by (rule probes.reachable_inv [OF assms])
  obtain t where "probe_return\<^sup>*\<^sup>* s t" "ps_inFlight t = []" "ps_running t = []" using probes_drain [OF i] by blast
  then show ?thesis using i by (auto simp: probe_inv_def statfsBounded_def split: probe.split)
qed

theorem probes_bounded_and_recover_witness:
  "let s = \<lparr>ps_inFlight = [''/mnt/nas''], ps_running = [''/mnt/nas'']\<rparr>
   in distinct (ps_running s) \<and> set (ps_inFlight s) = set (ps_running s) \<and>
    (\<exists>t. probe_return\<^sup>*\<^sup>* s t \<and> ps_running t = [] \<and>
       (\<forall>statfs mp. fst (statfsBounded statfs (ps_inFlight t) mp) = (case statfs mp of Answered st \<Rightarrow> Some st | _ \<Rightarrow> None)))"
  unfolding Let_def
proof (rule probes_bounded_and_recover)
  let ?s0 = "\<lparr>ps_inFlight = [], ps_running = []\<rparr>"
  have "probe_step ?s0 \<lparr>ps_inFlight = [''/mnt/nas''], ps_running = [''/mnt/nas'']\<rparr>"
    using ps_start [of "''/mnt/nas''" ?s0] by simp
  then show "reachable probe_init probe_step \<lparr>ps_inFlight = [''/mnt/nas''], ps_running = [''/mnt/nas'']\<rparr>"
    unfolding reachable_def probe_init_def by blast
qed

end
