(* ===== verification/NetipText.thy ===== *)
theory NetipText
  imports GoPath
begin

text \<open>
  The text of an address as \<^verbatim>\<open>net/netip\<close> and \<^verbatim>\<open>net.IP\<close> print it, with the longest run of zero groups
  shortened, and that \<^verbatim>\<open>ParseAddr\<close> reads it back.
\<close>

subsection \<open>Addresses as text\<close>

definition octets :: "nat \<Rightarrow> nat list" where
  "octets n = [n div 2 ^ 24 mod 256, n div 2 ^ 16 mod 256, n div 2 ^ 8 mod 256, n mod 256]"

definition ipv4_text :: "nat \<Rightarrow> bytes" where
  "ipv4_text n = join (map show_nat (octets n)) ''.''"

text \<open>The eight groups, first to last.\<close>

definition groups16 :: "nat \<Rightarrow> nat list" where
  "groups16 n = map (\<lambda>i. n div 2 ^ (16 * (7 - i)) mod 2 ^ 16) [0..<8]"

fun show_hex :: "nat \<Rightarrow> bytes" where
  "show_hex n = (if n < 16 then [hex_lower n] else show_hex (n div 16) @ [hex_lower (n mod 16)])"

declare show_hex.simps [simp del]

text \<open>The longest run of zero groups, two at least, the first of equals: where it starts and its length.\<close>

definition zero_run :: "nat list \<Rightarrow> nat \<times> nat" where
  "zero_run gs =
     foldl (\<lambda>(s, l) i. let k = length (takeWhile (\<lambda>g. g = 0) (drop i gs)) in if 2 \<le> k \<and> l < k then (i, k) else (s, l)) (255, 0) [0..<8]"

definition ipv6_text :: "nat \<Rightarrow> bytes" where
  "ipv6_text n =
     (let gs = groups16 n; (s, l) = zero_run gs
      in if l = 0 then join (map show_hex gs) '':''
         else join (map show_hex (take s gs)) '':'' @ ''::'' @ join (map show_hex (drop (s + l) gs)) '':'')"

text \<open>\<^verbatim>\<open>Addr.String\<close>.\<close>

definition addr_String :: "addr \<Rightarrow> bytes" where
  "addr_String a =
     (case a of
        IPv4 v \<Rightarrow> ipv4_text (unat v)
      | IPv6 v z \<Rightarrow>
          (if Is4In6 a then ''::ffff:'' @ ipv4_text (unat v mod 2 ^ 32) else ipv6_text (unat v)) @
          (if z = [] then [] else ''%'' @ z))"

text \<open>\<^verbatim>\<open>AddrFrom4\<close> and \<^verbatim>\<open>AddrFrom16\<close>.\<close>

definition bytes_value :: "nat list \<Rightarrow> nat" where
  "bytes_value bs = foldl (\<lambda>a b. a * 256 + b) 0 bs"

definition AddrFrom4 :: "nat list \<Rightarrow> addr" where
  "AddrFrom4 bs = IPv4 (of_nat (bytes_value bs))"

definition AddrFrom16 :: "nat list \<Rightarrow> addr" where
  "AddrFrom16 bs = IPv6 (of_nat (bytes_value bs)) []"

subsection \<open>Reading the text back\<close>

lemma digit_val_lower: "d < 16 \<Longrightarrow> digit_val (hex_lower d) = Some d"
  by (auto simp: digit_val_def hex_lower_def Let_def)

lemma show_hex_digits: "c \<in> set (show_hex n) \<Longrightarrow> hex_digit c"
proof (induction n rule: show_hex.induct)
  case (1 n)
  then show ?case
    by (cases "n < 16") (auto simp: show_hex.simps [of n] hex_digit_def digit_val_lower)
qed

lemma show_hex_nonempty [simp]: "show_hex n \<noteq> []"
  by (subst show_hex.simps) simp

lemma parse_show_hex: "parse_digits 16 0 (show_hex n) = Some n"
proof (induction n rule: show_hex.induct)
  case (1 n)
  then show ?case
    by (cases "n < 16") (simp_all add: show_hex.simps [of n] digit_val_lower parse_digits_append)
qed

lemma length_show_hex: "n < 16 ^ Suc k \<Longrightarrow> length (show_hex n) \<le> Suc k"
proof (induction k arbitrary: n)
  case 0
  then show ?case by (simp add: show_hex.simps [of n])
next
  case (Suc k)
  show ?case
  proof (cases "n < 16")
    case False
    have "n div 16 < 16 ^ Suc k" using Suc.prems by (simp add: div_less_iff_less_mult mult.commute)
    then have "length (show_hex (n div 16)) \<le> Suc k" by (rule Suc.IH)
    then show ?thesis using False by (simp add: show_hex.simps [of n])
  qed (simp add: show_hex.simps [of n])
qed

lemma colon_not_hex: "\<not> hex_digit CHR '':''" "\<not> hex_digit CHR ''.''"
  by code_simp+

lemma take_hex:
  "takeWhile hex_digit (show_hex g @ CHR '':'' # r) = show_hex g" "dropWhile hex_digit (show_hex g @ CHR '':'' # r) = CHR '':'' # r"
  "takeWhile hex_digit (show_hex g) = show_hex g" "dropWhile hex_digit (show_hex g) = []"
proof -
  have a: "\<forall>c \<in> set (show_hex g). hex_digit c" by (simp add: show_hex_digits)
  then show "takeWhile hex_digit (show_hex g @ CHR '':'' # r) = show_hex g"
    "dropWhile hex_digit (show_hex g @ CHR '':'' # r) = CHR '':'' # r" by (simp_all add: takeWhile_append2 dropWhile_append2 colon_not_hex)
  show "takeWhile hex_digit (show_hex g) = show_hex g" "dropWhile hex_digit (show_hex g) = []" using a by auto
qed

lemma show_hex_hd: "hd (show_hex g @ r) \<noteq> CHR '':'' \<and> hd (show_hex g @ r) \<noteq> CHR ''.''"
proof -
  have "hd (show_hex g) \<in> set (show_hex g)" by simp
  then have "hex_digit (hd (show_hex g))" by (rule show_hex_digits)
  then show ?thesis using colon_not_hex by (auto simp: hd_append)
qed

text \<open>One group, followed by a colon, by two, or by nothing.\<close>

lemma group_steps:
  assumes "g < 65536"
  shows "ipv6_groups (Suc k) (show_hex g) gs ell = Some ([], g # gs, ell)"
    and "t \<noteq> [] \<Longrightarrow> hd t \<noteq> CHR '':'' \<Longrightarrow> ipv6_groups (Suc k) (show_hex g @ CHR '':'' # t) gs ell = ipv6_groups k t (g # gs) ell"
    and "ipv6_groups (Suc k) (show_hex g @ ''::'' @ t) gs None =
      (if t = [] then Some ([], g # gs, Some (Suc (length gs))) else ipv6_groups k t (g # gs) (Some (Suc (length gs))))"
proof -
  have l: "length (show_hex g) \<le> 4" using length_show_hex [of g 3] assms by simp
  show "ipv6_groups (Suc k) (show_hex g) gs ell = Some ([], g # gs, ell)"
    using l by (simp add: take_hex parse_show_hex)
  show "t \<noteq> [] \<Longrightarrow> hd t \<noteq> CHR '':'' \<Longrightarrow> ipv6_groups (Suc k) (show_hex g @ CHR '':'' # t) gs ell = ipv6_groups k t (g # gs) ell"
    using l by (simp add: take_hex parse_show_hex)
  show "ipv6_groups (Suc k) (show_hex g @ ''::'' @ t) gs None =
      (if t = [] then Some ([], g # gs, Some (Suc (length gs))) else ipv6_groups k t (g # gs) (Some (Suc (length gs))))"
    using l by (simp add: take_hex parse_show_hex)
qed

lemma join_hex_hd: "hs \<noteq> [] \<Longrightarrow> join (map show_hex hs) sep \<noteq> [] \<and> hd (join (map show_hex hs) sep @ r) \<noteq> CHR '':''"
  using show_hex_hd by (cases hs; cases "tl hs") auto

lemma groups_plain:
  assumes "hs \<noteq> []" and "\<forall>h \<in> set hs. h < 65536" and "length hs \<le> k"
  shows "ipv6_groups k (join (map show_hex hs) '':'') gs ell = Some ([], rev hs @ gs, ell)"
  using assms
proof (induction hs arbitrary: k gs)
  case (Cons h hs)
  then obtain k' where k: "k = Suc k'" by (cases k) auto
  show ?case
  proof (cases hs)
    case Nil
    then show ?thesis using Cons.prems group_steps(1) [of h k' gs ell] by (simp add: k del: ipv6_groups.simps)
  next
    case (Cons h' hs')
    then have "join (map show_hex (h # hs)) '':'' = show_hex h @ CHR '':'' # join (map show_hex hs) '':''" by simp
    then show ?thesis
      using group_steps(2) [of h "join (map show_hex hs) '':''" k' gs ell] join_hex_hd [of hs "'':''" "[]"]
        Cons.IH [of k' "h # gs"] Cons.prems Cons by (simp add: k del: ipv6_groups.simps)
  qed
qed simp

lemma groups_ellipsis:
  assumes "hs \<noteq> []" and "\<forall>h \<in> set hs \<union> set ts. h < 65536" and "length hs + length ts \<le> k"
  shows "ipv6_groups k (join (map show_hex hs) '':'' @ ''::'' @ join (map show_hex ts) '':'') gs None =
    Some ([], rev ts @ rev hs @ gs, Some (length gs + length hs))"
  using assms
proof (induction hs arbitrary: k gs)
  case (Cons h hs)
  then obtain k' where k: "k = Suc k'" by (cases k) auto
  show ?case
  proof (cases hs)
    case Nil
    then show ?thesis
      using Cons.prems group_steps(3) [of h k' "join (map show_hex ts) '':''" gs] groups_plain [of ts k' "h # gs" "Some (Suc (length gs))"]
        join_hex_hd [of ts "'':''" "[]"]
      by (cases "ts = []") (simp_all add: k del: ipv6_groups.simps)
  next
    case c: (Cons h' hs')
    let ?t = "join (map show_hex hs) '':'' @ ''::'' @ join (map show_hex ts) '':''"
    have j: "join (map show_hex (h # hs)) '':'' @ ''::'' @ join (map show_hex ts) '':'' = show_hex h @ CHR '':'' # ?t" using c by simp
    have t: "?t \<noteq> []" "hd ?t \<noteq> CHR '':''" using join_hex_hd [of hs "'':''" "''::'' @ join (map show_hex ts) '':''"] c by blast+
    have "ipv6_groups k' ?t (h # gs) None = Some ([], rev ts @ rev hs @ h # gs, Some (length (h # gs) + length hs))"
      using Cons.prems c by (intro Cons.IH) (auto simp: k)
    then show ?thesis
      unfolding j k using group_steps(2) [of h ?t k' gs None, OF _ t] Cons.prems(2) by (simp del: ipv6_groups.simps)
  qed
qed simp

text \<open>The run that is shortened consists of zeros.\<close>

definition run_ok :: "nat list \<Rightarrow> nat \<times> nat \<Rightarrow> bool" where
  "run_ok gs r \<longleftrightarrow> snd r = 0 \<or> 2 \<le> snd r \<and> fst r + snd r \<le> length gs \<and> take (snd r) (drop (fst r) gs) = replicate (snd r) 0"

lemma zero_run_ok: "run_ok gs (zero_run gs)"
proof -
  have k: "take (length (takeWhile (\<lambda>g. g = 0) xs)) xs = replicate (length (takeWhile (\<lambda>g. g = 0) xs)) 0" for xs :: "nat list"
    by (induction xs) auto
  have l: "length (takeWhile (\<lambda>g. g = 0) (drop i gs)) \<le> length gs - i" for i
    using length_takeWhile_le [of "\<lambda>g. g = 0" "drop i gs"] by simp
  have "run_ok gs (foldl (\<lambda>(s, l) i. let k = length (takeWhile (\<lambda>g. g = 0) (drop i gs)) in if 2 \<le> k \<and> l < k then (i, k) else (s, l)) r is)"
    if "run_ok gs r" for r "is"
    using that
  proof (induction "is" arbitrary: r)
    case (Cons i "is")
    let ?k = "length (takeWhile (\<lambda>g. g = 0) (drop i gs))"
    have "run_ok gs (i, ?k)" if k2: "2 \<le> ?k"
    proof -
      have "i + ?k \<le> length gs" using k2 l [of i] by arith
      then show ?thesis using k2 k [of "drop i gs"] by (simp add: run_ok_def)
    qed
    then show ?case using Cons by (cases r) (simp add: Let_def)
  qed simp
  then show ?thesis unfolding zero_run_def by (simp add: run_ok_def)
qed

lemma length_groups16 [simp]: "length (groups16 n) = 8"
  by (simp add: groups16_def)

lemma groups16_small: "\<forall>g \<in> set (groups16 n). g < 65536"
  by (auto simp: groups16_def)

lemma groups_val_snoc: "groups_val (gs @ [g]) = groups_val gs * 2 ^ 16 + g"
  by (simp add: groups_val_def)

lemma groups_val_prefix: "groups_val (map (\<lambda>i. n div 2 ^ (16 * (7 - i)) mod 2 ^ 16) [0..<k]) = n div 2 ^ (16 * (8 - k)) mod 2 ^ (16 * k)"
  if "k \<le> 8" for n k :: nat
  using that
proof (induction k)
  case 0
  then show ?case by (simp add: groups_val_def)
next
  case (Suc k)
  let ?m = "n div 2 ^ (16 * (7 - k))"
  have "n div 2 ^ (16 * (8 - k)) = ?m div 2 ^ 16"
  proof -
    have "16 * (8 - k) = 16 * (7 - k) + 16" using Suc.prems by simp
    then show ?thesis by (simp only: div_mult2_eq power_add)
  qed
  moreover have "?m mod 2 ^ (16 * Suc k) = (?m div 2 ^ 16) mod 2 ^ (16 * k) * 2 ^ 16 + ?m mod 2 ^ 16"
    using mod_mult2_eq [of ?m "2 ^ 16" "2 ^ (16 * k)"] by (simp add: power_add mult.commute)
  moreover have "8 - Suc k = 7 - k" by simp
  ultimately show ?case using Suc by (simp add: groups_val_snoc)
qed

lemma groups_val_groups16: "n < 2 ^ 128 \<Longrightarrow> groups_val (groups16 n) = n"
  using groups_val_prefix [of 8 n] by (simp add: groups16_def)

lemma no_leading_colons: "hs \<noteq> [] \<Longrightarrow> \<not> has_prefix (join (map show_hex hs) '':'' @ r) ''::''"
  using join_hex_hd [of hs "'':''" r] by (cases "join (map show_hex hs) '':'' @ r") (auto simp: has_prefix_Cons)

lemma join_hex_no_percent: "CHR ''%'' \<notin> set (join (map show_hex hs) '':'')"
proof
  assume "CHR ''%'' \<in> set (join (map show_hex hs) '':'')"
  then have "\<exists>h. CHR ''%'' \<in> set (show_hex h)" using set_join [of "map show_hex hs" "'':''"] by auto
  then have "hex_digit CHR ''%''" using show_hex_digits by blast
  then show False by (simp add: hex_digit_def digit_val_def Let_def)
qed

lemma parse_all_groups:
  assumes "length gs = 8" and "\<forall>g \<in> set gs. g < 65536"
  shows "parse_ipv6 (join (map show_hex gs) '':'') = Some (IPv6 (of_nat (groups_val gs)) [])"
proof -
  have ne: "gs \<noteq> []" using assms(1) by auto
  have "index_byte (join (map show_hex gs) '':'') CHR ''%'' = None" by (simp add: index_byte_None join_hex_no_percent)
  moreover have "\<not> has_prefix (join (map show_hex gs) '':'') ''::''" using no_leading_colons [OF ne, of "[]"] by simp
  ultimately show ?thesis
    using groups_plain [OF ne assms(2), of 8 "[]" None] assms(1) by (simp add: parse_ipv6_def Let_def del: ipv6_groups.simps)
qed

lemma parse_shortened:
  assumes "length a + l + length b = 8" and "2 \<le> l" and small: "\<forall>h \<in> set a \<union> set b. h < 65536"
  shows "parse_ipv6 (join (map show_hex a) '':'' @ ''::'' @ join (map show_hex b) '':'') =
    Some (IPv6 (of_nat (groups_val (a @ replicate l 0 @ b))) [])"
proof -
  let ?t = "join (map show_hex a) '':'' @ ''::'' @ join (map show_hex b) '':''"
  have i: "index_byte ?t CHR ''%'' = None" by (simp add: index_byte_None join_hex_no_percent)
  have l: "8 - (length a + length b) = l" "length a + length b < 8" using assms by auto
  show ?thesis
  proof (cases "a = []")
    case a: True
    then have p: "has_prefix ?t ''::''" "drop 2 ?t = join (map show_hex b) '':''" by (simp_all add: has_prefix_def)
    show ?thesis
    proof (cases "b = []")
      case True
      have "foldl (\<lambda>a g. a * 2 ^ 16 + g) 0 (replicate k 0) = (0 :: nat)" for k by (induction k) auto
      then have "groups_val (replicate l 0) = 0" by (simp only: groups_val_def)
      then show ?thesis using a p True by (simp add: parse_ipv6_def i [simplified] Let_def)
    next
      case b: False
      have "ipv6_groups 8 (join (map show_hex b) '':'') [] (Some 0) = Some ([], rev b, Some 0)"
        using groups_plain [of b 8 "[]" "Some 0"] b small l by (simp del: ipv6_groups.simps)
      moreover have "join (map show_hex b) '':'' \<noteq> []" using join_hex_hd [OF b] by blast
      ultimately show ?thesis unfolding parse_ipv6_def i option.case prod.case Let_def p
        using a l by (simp del: ipv6_groups.simps)
    qed
  next
    case a: False
    have "\<not> has_prefix ?t ''::''" using no_leading_colons [OF a] by simp
    moreover have "ipv6_groups 8 ?t [] None = Some ([], rev b @ rev a, Some (length a))"
      using groups_ellipsis [of a b 8 "[]"] a small l by (simp del: ipv6_groups.simps)
    ultimately show ?thesis unfolding parse_ipv6_def i option.case prod.case Let_def
      using l by (simp del: ipv6_groups.simps)
  qed
qed

lemma parse_ipv6_text:
  assumes "n < 2 ^ 128"
  shows "parse_ipv6 (ipv6_text n) = Some (IPv6 (of_nat n) [])"
proof -
  let ?gs = "groups16 n"
  obtain s l where z: "zero_run ?gs = (s, l)" by (cases "zero_run ?gs")
  show ?thesis
  proof (cases "l = 0")
    case True
    then have "ipv6_text n = join (map show_hex ?gs) '':''" by (simp add: ipv6_text_def z)
    then show ?thesis using parse_all_groups [of ?gs] groups16_small groups_val_groups16 [OF assms] by simp
  next
    case False
    let ?a = "take s ?gs" and ?b = "drop (s + l) ?gs"
    have t: "ipv6_text n = join (map show_hex ?a) '':'' @ ''::'' @ join (map show_hex ?b) '':''"
      using False by (simp add: ipv6_text_def z Let_def)
    from False zero_run_ok [of ?gs] have ok: "2 \<le> l" "s + l \<le> 8" "take l (drop s ?gs) = replicate l 0" by (simp_all add: run_ok_def z)
    have "?gs = ?a @ take l (drop s ?gs) @ ?b" by (metis append_take_drop_id drop_drop add.commute)
    then have gs: "?a @ replicate l 0 @ ?b = ?gs" using ok(3) by metis
    have "\<forall>h \<in> set ?a \<union> set ?b. h < 65536" using groups16_small [of n] by (auto dest: in_set_takeD in_set_dropD)
    then show ?thesis
      unfolding t using parse_shortened [of ?a l ?b] gs ok groups_val_groups16 [OF assms] by simp
  qed
qed

lemma parse_octet_show: "b < 256 \<Longrightarrow> parse_octet (show_nat b) = Some b"
  using show_nat_hd [of b] by (cases "b = 0") (auto simp: parse_octet_def parse_digits_show_nat show_nat.simps [of 0] digit_val_digit_char)

lemma octets_small: "\<forall>b \<in> set (octets n). b < 256"
  by (auto simp: octets_def)

definition octets_sum :: "nat \<Rightarrow> nat \<Rightarrow> nat \<Rightarrow> nat \<Rightarrow> nat" where
  "octets_sum a b c d = a * 2 ^ 24 + b * 2 ^ 16 + c * 2 ^ 8 + d"

lemma octets_sum_digits:
  assumes "n = q * 256 + a" and "q = r * 256 + b" and "r = s * 256 + c"
  shows "octets_sum s c b a = n"
  unfolding octets_sum_def assms by simp

lemma octets_value:
  fixes n :: nat
  assumes "n < 2 ^ 32"
  shows "octets_sum (n div 2 ^ 24 mod 256) (n div 2 ^ 16 mod 256) (n div 2 ^ 8 mod 256) (n mod 256) = n"
proof -
  let ?q = "n div 256" let ?r = "?q div 256" let ?s = "?r div 256"
  have d: "n div 2 ^ 8 = ?q" "n div 2 ^ 16 = ?r" "n div 2 ^ 24 = ?s" by (simp_all add: div_mult2_eq [symmetric])
  have "?s = n div 2 ^ 24" by (rule d(3) [symmetric])
  also have "\<dots> < 256" using assms by (simp add: div_less_iff_less_mult)
  finally have m: "?s mod 256 = ?s" by simp
  show ?thesis unfolding d m by (rule octets_sum_digits) (rule div_mult_mod_eq [symmetric])+
qed

lemma dot_not_digit: "c \<in> set (show_nat n) \<Longrightarrow> c \<noteq> CHR ''.'' \<and> c \<noteq> CHR '':'' \<and> c \<noteq> CHR ''%''"
  using show_nat_digits [of c n] by auto

lemma parse_ipv4_text: "n < 2 ^ 32 \<Longrightarrow> parse_ipv4 (ipv4_text n) = Some n"
proof -
  assume n: "n < 2 ^ 32"
  have "split_on CHR ''.'' [] (ipv4_text n) = map show_nat (octets n)"
    unfolding ipv4_text_def using dot_not_digit by (intro split_on_join) (auto simp: octets_def)
  moreover have "map parse_octet (map show_nat (octets n)) = map Some (octets n)"
    using octets_small [of n] parse_octet_show by simp
  ultimately have "parse_ipv4 (ipv4_text n) = Some (octets_sum (n div 2 ^ 24 mod 256) (n div 2 ^ 16 mod 256) (n div 2 ^ 8 mod 256) (n mod 256))"
    unfolding parse_ipv4_def octets_sum_def by (simp only: octets_def list.map list.case option.case)
  then show ?thesis by (simp only: octets_value [OF n])
qed

lemma ipv4_text_split: "\<exists>b r. b < 256 \<and> ipv4_text n = show_nat b @ CHR ''.'' # r"
  by (intro exI [of _ "n div 2 ^ 24 mod 256"]) (simp add: ipv4_text_def octets_def)

lemma find_split: "\<forall>x \<in> set u. \<not> P x \<Longrightarrow> P c \<Longrightarrow> find P (u @ c # v) = Some c"
  by (induction u) auto

lemma ParseAddr_ipv4: "ParseAddr (ipv4_text (unat v)) = Some (IPv4 v)" for v :: "32 word"
proof -
  obtain b r where t: "ipv4_text (unat v) = show_nat b @ CHR ''.'' # r" using ipv4_text_split by blast
  have "find (\<lambda>c. c \<in> set ''.:%'') (ipv4_text (unat v)) = Some CHR ''.''"
    unfolding t using dot_not_digit by (intro find_split) auto
  moreover have "unat v < 2 ^ 32" using addr_val_bound [of "IPv4 v"] by (simp add: BitLen_def)
  ultimately show ?thesis using parse_ipv4_text [of "unat v"] by (simp add: ParseAddr_def)
qed

lemma length_show_nat: "b < 256 \<Longrightarrow> length (show_nat b) \<le> 3"
  by (simp add: show_nat.simps [of b] show_nat.simps [of "b div 10"] show_nat.simps [of "b div 10 div 10"])

lemma parse_mapped_text:
  assumes "v < 2 ^ 32"
  shows "parse_ipv6 (''::ffff:'' @ ipv4_text v) = Some (IPv6 (of_nat (0xFFFF * 2 ^ 32 + v)) [])"
proof -
  obtain b r where b: "b < 256" and t: "ipv4_text v = show_nat b @ CHR ''.'' # r" using ipv4_text_split by blast
  have h: "hex_digit c" if "c \<in> set (show_nat b)" for c
    using show_nat_digits [OF that] by (auto simp: hex_digit_def digit_val_def Let_def)
  have tw: "takeWhile hex_digit (ipv4_text v) = show_nat b" "dropWhile hex_digit (ipv4_text v) = CHR ''.'' # r"
    unfolding t using h by (simp_all add: takeWhile_append2 dropWhile_append2 colon_not_hex)
  have len: "length (show_nat b) \<le> 4" using length_show_nat [OF b] by simp
  have f: "show_hex 65535 = ''ffff''" by code_simp
  have e: "ipv4_text v \<noteq> []" "hd (ipv4_text v) \<noteq> CHR '':''" unfolding t using dot_not_digit [of "hd (show_nat b)" b] by (auto simp: hd_append)
  have "ipv6_groups 8 (''ffff:'' @ ipv4_text v) [] (Some 0) = ipv6_groups 7 (ipv4_text v) [65535] (Some 0)"
    using group_steps(2) [of 65535 "ipv4_text v" 7 "[]" "Some 0", OF _ e] by (simp add: f del: ipv6_groups.simps)
  also have "\<dots> = Some ([], [v mod 2 ^ 16, v div 2 ^ 16, 65535], Some 0)"
    using len parse_ipv4_text [OF assms] ipv6_groups.simps(2) [of 6 "ipv4_text v" "[65535]" "Some 0"] by (simp add: tw)
  finally have g: "ipv6_groups 8 (''ffff:'' @ ipv4_text v) [] (Some 0) = Some ([], [v mod 2 ^ 16, v div 2 ^ 16, 65535], Some 0)" .
  have "CHR ''%'' \<notin> set (ipv4_text v)"
    using set_join [of "map show_nat (octets v)" "''.''"] dot_not_digit by (auto simp: ipv4_text_def)
  then have i: "index_byte (''::ffff:'' @ ipv4_text v) CHR ''%'' = None" by (simp add: index_byte_None)
  have z5: "replicate 5 0 = [0, 0, 0, 0, 0 :: nat]" by code_simp
  have val: "groups_val (replicate 5 0 @ [65535, v div 2 ^ 16, v mod 2 ^ 16]) = 0xFFFF * 2 ^ 32 + v"
    using div_mult_mod_eq [of v "2 ^ 16"] by (simp add: groups_val_def z5)
  have p: "has_prefix (''::ffff:'' @ ipv4_text v) ''::''" "drop 2 (''::ffff:'' @ ipv4_text v) = ''ffff:'' @ ipv4_text v" by simp_all
  show ?thesis
    unfolding parse_ipv6_def i option.case prod.case Let_def if_P [OF p(1)] p(2) g
    using val by (simp del: ipv6_groups.simps)
qed

lemma ParseAddr_colon:
  assumes "\<exists>u v. s = u @ CHR '':'' # v \<and> (\<forall>x \<in> set u. hex_digit x)"
  shows "ParseAddr s = parse_ipv6 s"
proof -
  from assms obtain u v where s: "s = u @ CHR '':'' # v" and u: "\<forall>x \<in> set u. hex_digit x" by blast
  have n: "\<not> hex_digit CHR ''.''" "\<not> hex_digit CHR '':''" "\<not> hex_digit CHR ''%''" by code_simp+
  have "find (\<lambda>c. c \<in> set ''.:%'') s = Some CHR '':''" unfolding s using u n by (intro find_split) auto
  then show ?thesis by (simp add: ParseAddr_def)
qed

lemma ipv6_text_colon: "\<exists>u v. ipv6_text n = u @ CHR '':'' # v \<and> (\<forall>x \<in> set u. hex_digit x)"
proof -
  have j: "\<exists>u v. join (map show_hex hs) '':'' @ r = u @ CHR '':'' # v \<and> (\<forall>x \<in> set u. hex_digit x)"
    if "2 \<le> length hs \<or> (\<exists>r'. r = CHR '':'' # r')" for hs r
  proof (cases hs)
    case Nil
    with that obtain r' where "r = CHR '':'' # r'" by auto
    then show ?thesis using Nil by (intro exI [of _ "[]"] exI [of _ r']) simp
  next
    case (Cons h hs')
    from that Cons obtain v where "join (map show_hex hs) '':'' @ r = show_hex h @ CHR '':'' # v" by (cases hs') auto
    then show ?thesis using show_hex_digits by blast
  qed
  obtain s l where z: "zero_run (groups16 n) = (s, l)" by (cases "zero_run (groups16 n)")
  show ?thesis
    using j [of "groups16 n" "[]"] j [of "take s (groups16 n)" "''::'' @ join (map show_hex (drop (s + l) (groups16 n))) '':''"]
    by (simp add: ipv6_text_def z Let_def)
qed

text \<open>
  Every address that is printed is read back as the same address: dotted decimal octets, and
  for IPv6 the eight groups with the longest run of zeros shortened wherever it lies, the whole of
  an unspecified address, or the mapped form with an IPv4 tail.
\<close>

lemma address_text_roundtrip:
  assumes "zone_of a = []"
  shows "ParseAddr (addr_String a) = Some a"
proof (cases a)
  case (IPv4 v)
  then show ?thesis using ParseAddr_ipv4 by (simp add: addr_String_def)
next
  case (IPv6 v z)
  with assms have z: "z = []" by simp
  have lt: "unat v < 2 ^ 128" using addr_val_bound [of a] by (simp add: IPv6 BitLen_def)
  show ?thesis
  proof (cases "Is4In6 a")
    case True
    then have "0xFFFF * 2 ^ 32 + unat v mod 2 ^ 32 = unat v" using div_mult_mod_eq [of "unat v" "2 ^ 32"] by (simp add: IPv6)
    moreover have "parse_ipv6 (''::ffff:'' @ ipv4_text (unat v mod 2 ^ 32)) = Some (IPv6 (of_nat (0xFFFF * 2 ^ 32 + unat v mod 2 ^ 32)) [])"
      by (rule parse_mapped_text) simp
    ultimately have "parse_ipv6 (''::ffff:'' @ ipv4_text (unat v mod 2 ^ 32)) = Some (IPv6 v [])" by simp
    moreover have "ParseAddr (CHR '':'' # r) = parse_ipv6 (CHR '':'' # r)" for r
      by (rule ParseAddr_colon) (intro exI [of _ "[]"] exI [of _ r], simp)
    ultimately show ?thesis using True by (simp add: addr_String_def IPv6 z)
  next
    case False
    then show ?thesis using parse_ipv6_text [OF lt] ParseAddr_colon [OF ipv6_text_colon] by (simp add: addr_String_def IPv6 z)
  qed
qed

lemma address_text_example: "addr_String (IPv6 0x20010db8000000000000000000000001 []) = ''2001:db8::1''"
  by code_simp

end
