(* ===== verification/ToolSockets.thy ===== *)
theory ToolSockets
  imports ToolBase NetipText
begin

text \<open>
  \<^verbatim>\<open>tools/sockets/sockets.go\<close>: the listening sockets from \<^verbatim>\<open>/proc/net\<close>. The theorem starts from the tables as the kernel writes them.
\<close>

subsection \<open>The tool\<close>

record ListeningSocket =
  so_Proto :: bytes
  so_Family :: bytes
  so_Addr :: bytes
  so_Port :: int
  so_Connected :: bool

record procNetSource =
  pn_path :: bytes
  pn_proto :: bytes
  pn_family :: bytes
  pn_listenState :: bytes

definition procNetSources :: "procNetSource list" where
  "procNetSources =
     [\<lparr>pn_path = ''/proc/net/tcp'', pn_proto = ''tcp'', pn_family = ''inet'', pn_listenState = ''0A''\<rparr>,
      \<lparr>pn_path = ''/proc/net/tcp6'', pn_proto = ''tcp'', pn_family = ''inet6'', pn_listenState = ''0A''\<rparr>,
      \<lparr>pn_path = ''/proc/net/udp'', pn_proto = ''udp'', pn_family = ''inet'', pn_listenState = ''07''\<rparr>,
      \<lparr>pn_path = ''/proc/net/udp6'', pn_proto = ''udp'', pn_family = ''inet6'', pn_listenState = ''07''\<rparr>]"

definition udpUnconnectedState :: bytes where
  "udpUnconnectedState = ''07''"

text \<open>Pairs of hexadecimal digits, each a byte.\<close>

fun hex_pairs :: "bytes \<Rightarrow> nat list option" where
  "hex_pairs (a # b # s) =
     (case (parse_uint 16 8 [a, b], hex_pairs s) of (Some v, Some vs) \<Rightarrow> Some (v # vs) | _ \<Rightarrow> None)"
| "hex_pairs [] = Some []"
| "hex_pairs [a] = None"

text \<open>The bytes of every word of four are reversed.\<close>

definition swap_words :: "nat list \<Rightarrow> nat list" where
  "swap_words bs = concat (map (\<lambda>i. rev (take 4 (drop (4 * i) bs))) [0..<length bs div 4])"

definition parseHexEndpoint :: "bytes \<Rightarrow> bytes \<Rightarrow> (bytes \<times> int) option" where
  "parseHexEndpoint hex family =
     (case index_byte hex CHR '':'' of
        None \<Rightarrow> None
      | Some colon \<Rightarrow>
          (let addrHex = take colon hex
           in case parse_int 16 32 (drop (Suc colon) hex) of
                None \<Rightarrow> None
              | Some port \<Rightarrow>
                  if family = ''inet'' then
                    (if length addrHex \<noteq> 8 then None
                     else map_option (\<lambda>bs. (addr_String (AddrFrom4 (rev bs)), port)) (hex_pairs addrHex))
                  else if length addrHex \<noteq> 32 then None
                  else map_option (\<lambda>bs. (addr_String (AddrFrom16 (swap_words bs)), port)) (hex_pairs addrHex)))"

definition socket_row :: "bytes \<Rightarrow> bytes \<Rightarrow> bytes \<Rightarrow> bytes \<Rightarrow> ListeningSocket list" where
  "socket_row proto family listenState line =
     (case Fields line of
        sl # localHex # rem # state # rest \<Rightarrow>
          if proto = ''tcp'' \<and> state \<noteq> listenState then []
          else (case parseHexEndpoint localHex family of
             None \<Rightarrow> []
           | Some (a, port) \<Rightarrow>
               [\<lparr>so_Proto = proto, so_Family = family, so_Addr = a, so_Port = port,
                 so_Connected = (proto = ''udp'' \<and> state \<noteq> udpUnconnectedState)\<rparr>])
      | _ \<Rightarrow> [])"

definition readProcNet :: "world \<Rightarrow> procNetSource \<Rightarrow> bytes + ListeningSocket list" where
  "readProcNet w src =
     (case wd_file w (pn_path src) of
        Inl e \<Rightarrow> Inl (stat_text e)
      | Inr rd \<Rightarrow>
          (let (ls, err) = scan_reader (pn_path src) rd
           in case err of
                Some e \<Rightarrow> Inl e
              | None \<Rightarrow> Inr (concat (map (socket_row (pn_proto src) (pn_family src) (pn_listenState src)) (drop 1 ls)))))"

definition sockets_source :: "world \<Rightarrow> procNetSource \<Rightarrow> ListeningSocket list \<times> bytes list" where
  "sockets_source w src =
     (case readProcNet w src of
        Inl e \<Rightarrow> ([], [''sockets: '' @ pn_path src @ '': '' @ e @ ''; listening[] is incomplete''])
      | Inr rows \<Rightarrow> (rows, []))"

definition sockets_Handle :: "world \<Rightarrow> bytes \<Rightarrow> ListeningSocket list handled" where
  "sockets_Handle w body =
     Inr (concat (map (fst \<circ> sockets_source w) procNetSources), concat (map (snd \<circ> sockets_source w) procNetSources))"

subsection \<open>The kernel's tables\<close>

text \<open>A number as bytes, most significant first; the hexadecimal digits of a byte.\<close>

fun be_bytes :: "nat \<Rightarrow> nat \<Rightarrow> nat list" where
  "be_bytes 0 n = []"
| "be_bytes (Suc k) n = be_bytes k (n div 256) @ [n mod 256]"

definition hex_upper :: "nat \<Rightarrow> char" where
  "hex_upper n = (if n < 10 then char_of (48 + n) else char_of (55 + n))"

definition hex2 :: "nat \<Rightarrow> bytes" where
  "hex2 b = [hex_upper (b div 16), hex_upper (b mod 16)]"

lemma length_be_bytes [simp]: "length (be_bytes k n) = k"
  by (induction k arbitrary: n) auto

lemma be_bytes_small: "\<forall>b \<in> set (be_bytes k n). b < 256"
  by (induction k arbitrary: n) auto

lemma bytes_value_snoc: "bytes_value (xs @ [b]) = bytes_value xs * 256 + b"
  by (simp add: bytes_value_def)

lemma bytes_value_be: "bytes_value (be_bytes k n) = n mod 256 ^ k"
proof (induction k arbitrary: n)
  case (Suc k)
  then show ?case using mod_mult2_eq [of n 256 "256 ^ k"] by (simp add: bytes_value_snoc add.commute)
qed (simp add: bytes_value_def)

lemma digit_val_upper: "d < 16 \<Longrightarrow> digit_val (hex_upper d) = Some d"
  by (auto simp: digit_val_def hex_upper_def Let_def)

lemma parse_hex2: "b < 256 \<Longrightarrow> parse_uint 16 8 (hex2 b) = Some b"
  using div_mult_mod_eq [of b 16] by (simp add: parse_uint_def hex2_def digit_val_upper)

lemma hex_pairs_hex2: "\<forall>b \<in> set bs. b < 256 \<Longrightarrow> hex_pairs (concat (map hex2 bs)) = Some bs"
proof (induction bs)
  case (Cons b bs)
  then have "parse_uint 16 8 [hex_upper (b div 16), hex_upper (b mod 16)] = Some b"
    using parse_hex2 [of b] by (simp add: hex2_def)
  with Cons show ?case by (simp add: hex2_def [of b])
qed simp

lemma length_hex2: "length (concat (map hex2 bs)) = 2 * length bs"
  by (induction bs) (auto simp: hex2_def)

lemma of_hex_upper: "d < 16 \<Longrightarrow> (of_char (hex_upper d) :: nat) = (if d < 10 then 48 + d else 55 + d)"
  by (simp add: hex_upper_def)

lemma hex2_chars:
  assumes "c \<in> set (hex2 b)" and "b < 256"
  shows "(of_char c :: nat) \<in> {48..57} \<union> {65..70}"
proof -
  from assms(1) obtain d where "c = hex_upper d" "d = b div 16 \<or> d = b mod 16" by (auto simp: hex2_def)
  moreover from this(2) assms(2) have "d < 16" by auto
  ultimately show ?thesis using of_hex_upper [of d] by auto
qed

text \<open>An address and a port as the kernel writes them: every word of the address byte-swapped.\<close>

definition kernel_bytes :: "addr \<Rightarrow> nat list" where
  "kernel_bytes a = (case a of IPv4 v \<Rightarrow> rev (be_bytes 4 (unat v)) | IPv6 v z \<Rightarrow> swap_words (be_bytes 16 (unat v)))"

definition kernel_endpoint :: "addr \<Rightarrow> nat \<Rightarrow> bytes" where
  "kernel_endpoint a port = concat (map hex2 (kernel_bytes a)) @ '':'' @ concat (map hex2 (be_bytes 2 port))"

definition family_of :: "addr \<Rightarrow> bytes" where
  "family_of a = (if Is4 a then ''inet'' else ''inet6'')"

lemma swap_words_16:
  assumes "length bs = 16"
  shows "swap_words (swap_words bs) = bs" and "set (swap_words bs) = set bs" and "length (swap_words bs) = 16"
proof -
  from assms obtain b0 b1 b2 b3 b4 b5 b6 b7 b8 b9 b10 b11 b12 b13 b14 b15
    where bs: "bs = [b0, b1, b2, b3, b4, b5, b6, b7, b8, b9, b10, b11, b12, b13, b14, b15]"
    by (auto simp: eval_nat_numeral length_Suc_conv)
  have u: "[0..<4] = [0, 1, 2, 3::nat]" by (simp add: upt_conv_Cons)
  have s: "swap_words bs = [b3, b2, b1, b0, b7, b6, b5, b4, b11, b10, b9, b8, b15, b14, b13, b12]" by (simp add: swap_words_def bs u)
  show "swap_words (swap_words bs) = bs" unfolding s by (simp add: swap_words_def bs u)
  show "set (swap_words bs) = set bs" by (simp only: s) (auto simp: bs)
  show "length (swap_words bs) = 16" unfolding s by simp
qed

lemma kernel_bytes_small: "\<forall>b \<in> set (kernel_bytes a). b < 256"
  using be_bytes_small swap_words_16(2) [of "be_bytes 16 n" for n] by (cases a) (simp_all add: kernel_bytes_def)

lemma length_kernel_bytes: "length (kernel_bytes a) = (if Is4 a then 4 else 16)"
  using swap_words_16(3) [of "be_bytes 16 n" for n] by (cases a) (simp_all add: kernel_bytes_def)

lemma from_kernel_bytes:
  "AddrFrom4 (rev (kernel_bytes (IPv4 v))) = IPv4 v"
  "AddrFrom16 (swap_words (kernel_bytes (IPv6 u []))) = IPv6 u []"
proof -
  have "unat v < 2 ^ 32" "unat u < 2 ^ 128" using addr_val_bound [of "IPv4 v"] addr_val_bound [of "IPv6 u []"] by (simp_all add: BitLen_def)
  then show "AddrFrom4 (rev (kernel_bytes (IPv4 v))) = IPv4 v" "AddrFrom16 (swap_words (kernel_bytes (IPv6 u []))) = IPv6 u []"
    by (simp_all add: kernel_bytes_def AddrFrom4_def AddrFrom16_def bytes_value_be swap_words_16)
qed

lemma hex_upper_not_sign: "d < 16 \<Longrightarrow> hex_upper d \<noteq> CHR ''-'' \<and> hex_upper d \<noteq> CHR ''+''"
  using digit_val_upper [of d] by (auto simp: digit_val_def)

lemma hex_digits4:
  assumes "port < 65536"
  shows "parse_digits 16 0 (concat (map hex2 [port div 256, port mod 256])) = Some port"
proof -
  let ?h = "port div 256" and ?l = "port mod 256"
  have "?h div 16 < 16" "?h mod 16 < 16" "?l div 16 < 16" "?l mod 16 < 16"
    using assms by (simp_all add: div_less_iff_less_mult)
  then have "parse_digits 16 0 (concat (map hex2 [?h, ?l])) = Some (((?h div 16 * 16 + ?h mod 16) * 16 + ?l div 16) * 16 + ?l mod 16)"
    by (simp only: hex2_def list.map concat.simps append.simps append_Nil2 parse_digits.simps digit_val_upper option.case if_True mult_zero_left add_0)
  also have "((?h div 16 * 16 + ?h mod 16) * 16 + ?l div 16) * 16 + ?l mod 16 = ?h * 16 * 16 + (?l div 16 * 16 + ?l mod 16)"
    by (simp only: div_mult_mod_eq distrib_right add.assoc)
  also have "\<dots> = ?h * 256 + ?l" by (simp only: div_mult_mod_eq mult.assoc) simp
  also have "\<dots> = port" by (rule div_mult_mod_eq)
  finally show ?thesis .
qed

lemma be_bytes_two: "be_bytes 2 n = [n div 256 mod 256, n mod 256]"
  by (simp only: numeral_2_eq_2 be_bytes.simps append.simps)

lemma high_byte: "port < 65536 \<Longrightarrow> port div 256 < (256 :: nat)"
  by (simp add: div_less_iff_less_mult)

lemma hex_port:
  assumes "port < 65536"
  shows "parse_int 16 32 (concat (map hex2 (be_bytes 2 port))) = Some (int port)"
proof -
  have b: "be_bytes 2 port = [port div 256, port mod 256]"
    using high_byte [OF assms] by (simp only: be_bytes_two mod_less)
  have "port div 256 div 16 < 16" using high_byte [OF assms] by (simp only: div_less_iff_less_mult)
  from hex_upper_not_sign [OF this]
  have n: "\<not> has_prefix (concat (map hex2 [port div 256, port mod 256])) ''-''" "\<not> has_prefix (concat (map hex2 [port div 256, port mod 256])) ''+''"
    "concat (map hex2 [port div 256, port mod 256]) \<noteq> []"
    by (simp_all only: hex2_def has_prefix_def list.map concat.simps append.simps list.size add_0 add_Suc_right add_0_right One_nat_def take_Suc_Cons take_0 list.inject list.distinct simp_thms)
  show ?thesis unfolding b parse_int_def Let_def using n hex_digits4 [OF assms] assms by simp
qed

lemma parse_kernel_endpoint:
  assumes "port < 65536" and "zone_of a = []"
  shows "parseHexEndpoint (kernel_endpoint a port) (family_of a) = Some (addr_String a, int port)"
proof -
  let ?h = "concat (map hex2 (kernel_bytes a))"
  have "CHR '':'' \<notin> set ?h" using hex2_chars [of "CHR '':''"] kernel_bytes_small [of a] by fastforce
  then have i: "index_byte (kernel_endpoint a port) CHR '':'' = Some (length ?h)"
    unfolding kernel_endpoint_def using index_byte_append [of "CHR '':''" ?h] by simp
  have t: "take (length ?h) (kernel_endpoint a port) = ?h" "drop (Suc (length ?h)) (kernel_endpoint a port) = concat (map hex2 (be_bytes 2 port))"
    by (simp_all add: kernel_endpoint_def)
  have p: "hex_pairs ?h = Some (kernel_bytes a)" by (rule hex_pairs_hex2) (rule kernel_bytes_small)
  show ?thesis
    unfolding parseHexEndpoint_def i option.case t Let_def hex_port [OF assms(1)] p
    using assms(2) from_kernel_bytes by (cases a) (simp_all add: family_of_def length_hex2 length_kernel_bytes)
qed

subsection \<open>The inventory\<close>

text \<open>
  A socket as \<^verbatim>\<open>/proc/net\<close> lists it: the slot, the local end, the other end, the state and the columns after
  it, with the blanks before and after.
\<close>

record ksock =
  ks_sl :: bytes
  ks_addr :: addr
  ks_port :: nat
  ks_remote :: bytes
  ks_state :: bytes
  ks_rest :: "bytes list"
  ks_pad :: "nat \<times> nat"

definition kernel_row :: "ksock \<Rightarrow> bytes" where
  "kernel_row k =
     replicate (fst (ks_pad k)) CHR '' '' @
     join ([ks_sl k, kernel_endpoint (ks_addr k) (ks_port k), ks_remote k, ks_state k] @ ks_rest k) '' '' @
     replicate (snd (ks_pad k)) CHR '' ''"

definition ksock_ok :: "bytes \<Rightarrow> ksock \<Rightarrow> bool" where
  "ksock_ok family k \<longleftrightarrow>
     list_all (\<lambda>t. t \<noteq> [] \<and> space_free t) ([ks_sl k, ks_remote k, ks_state k] @ ks_rest k) \<and>
     ks_port k < 65536 \<and> zone_of (ks_addr k) = [] \<and> family_of (ks_addr k) = family \<and> length (kernel_row k) < MaxLine"

definition header_ok :: "bytes \<Rightarrow> bool" where
  "header_ok hdr \<longleftrightarrow> CHR 0x0A \<notin> set hdr \<and> length hdr < MaxLine"

definition kernel_table :: "bytes \<Rightarrow> ksock list \<Rightarrow> bytes" where
  "kernel_table hdr ks = terminated (hdr # map kernel_row ks)"

text \<open>What the tool is to list of a table.\<close>

definition inventory :: "procNetSource \<Rightarrow> ksock list \<Rightarrow> ListeningSocket list" where
  "inventory src ks =
     map (\<lambda>k. \<lparr>so_Proto = pn_proto src, so_Family = pn_family src, so_Addr = addr_String (ks_addr k), so_Port = int (ks_port k),
         so_Connected = (pn_proto src = ''udp'' \<and> ks_state k \<noteq> ''07'')\<rparr>)
       (filter (\<lambda>k. pn_proto src = ''udp'' \<or> ks_state k = ''0A'') ks)"

lemma kernel_endpoint_token: "port < 65536 \<Longrightarrow> kernel_endpoint a port \<noteq> [] \<and> space_free (kernel_endpoint a port)"
proof
  assume p: "port < 65536"
  have "(of_char c :: nat) \<in> {48..57} \<union> {65..70}" if "c \<in> set (concat (map hex2 (kernel_bytes a))) \<union> set (concat (map hex2 (be_bytes 2 port)))" for c
    using that hex2_chars [of c] kernel_bytes_small [of a] be_bytes_small [of 2 port] by fastforce
  then have c: "(of_char c :: nat) \<in> {48..58} \<union> {65..70}" if "c \<in> set (kernel_endpoint a port)" for c
    using that by (fastforce simp: kernel_endpoint_def)
  show "space_free (kernel_endpoint a port)"
  proof (rule space_free_ascii, intro ballI conjI notI)
    fix d assume d: "d \<in> set (kernel_endpoint a port)"
    from c [OF d] show "(of_char d :: nat) < 128" by auto
    assume "d \<in> set ascii_spaces"
    with c [OF d] show False by (auto simp: ascii_spaces_def)
  qed
qed (simp add: kernel_endpoint_def)

lemma kernel_row_fields:
  assumes "ksock_ok family k"
  shows "Fields (kernel_row k) = [ks_sl k, kernel_endpoint (ks_addr k) (ks_port k), ks_remote k, ks_state k] @ ks_rest k"
  unfolding kernel_row_def
  by (rule fields_padded) (use assms kernel_endpoint_token in \<open>auto simp: ksock_ok_def list_all_iff\<close>)

lemma kernel_row_plain:
  assumes "ksock_ok family k"
  shows "CHR 0x0A \<notin> set (kernel_row k) \<and> drop_cr (kernel_row k) = kernel_row k"
proof -
  let ?ts = "[ks_sl k, kernel_endpoint (ks_addr k) (ks_port k), ks_remote k, ks_state k] @ ks_rest k"
  have "\<forall>t \<in> set ?ts. space_free t" using assms kernel_endpoint_token by (auto simp: ksock_ok_def list_all_iff)
  then have "\<forall>t \<in> set ?ts. CHR 0x0A \<notin> set t \<and> CHR 0x0D \<notin> set t" using space_free_no_break by blast
  then have "CHR 0x0A \<notin> set (join ?ts '' '') \<and> CHR 0x0D \<notin> set (join ?ts '' '')" using set_join [of ?ts "'' ''"] by auto
  then have n: "CHR 0x0A \<notin> set (kernel_row k) \<and> CHR 0x0D \<notin> set (kernel_row k)" unfolding kernel_row_def by auto
  then have "drop_cr (kernel_row k) = kernel_row k" unfolding drop_cr_def by (metis last_in_set)
  with n show ?thesis by simp
qed

lemma kernel_row_socket:
  assumes "ksock_ok (pn_family src) k" and "src \<in> set procNetSources"
  shows "socket_row (pn_proto src) (pn_family src) (pn_listenState src) (kernel_row k) = inventory src [k]"
proof -
  have p: "parseHexEndpoint (kernel_endpoint (ks_addr k) (ks_port k)) (pn_family src) = Some (addr_String (ks_addr k), int (ks_port k))"
    using assms(1) parse_kernel_endpoint [of "ks_port k" "ks_addr k"] by (auto simp: ksock_ok_def)
  have s: "pn_proto src = ''tcp'' \<and> pn_listenState src = ''0A'' \<or> pn_proto src = ''udp''"
    using assms(2) by (auto simp: procNetSources_def)
  show ?thesis
    unfolding socket_row_def kernel_row_fields [OF assms(1)]
    using s by (auto simp: p inventory_def udpUnconnectedState_def)
qed

lemma scan_table:
  assumes "header_ok hdr" and "list_all (ksock_ok family) ks"
  shows "scan_reader what (kernel_table hdr ks, None) = (drop_cr hdr # map kernel_row ks, None)"
proof -
  have k: "CHR 0x0A \<notin> set (kernel_row k) \<and> drop_cr (kernel_row k) = kernel_row k \<and> length (kernel_row k) < MaxLine" if "k \<in> set ks" for k
    using that assms(2) kernel_row_plain by (auto simp: list_all_iff ksock_ok_def)
  have "scan_with what (terminated (hdr # map kernel_row ks) @ []) = (map drop_cr (hdr # map kernel_row ks), None)"
    using assms(1) k by (subst scan_with_spec) (auto simp: header_ok_def MaxLine_def)
  then show ?thesis using k by (simp add: scan_reader_def scan_with_def kernel_table_def)
qed

lemma inventory_concat: "inventory src ks = concat (map (\<lambda>k. inventory src [k]) ks)"
  by (induction ks) (auto simp: inventory_def)

lemma readProcNet_table:
  assumes "src \<in> set procNetSources" and "wd_file w (pn_path src) = Inr (kernel_table hdr ks, None)"
    and "header_ok hdr" and "list_all (ksock_ok (pn_family src)) ks"
  shows "readProcNet w src = Inr (inventory src ks)"
proof -
  have "map (socket_row (pn_proto src) (pn_family src) (pn_listenState src)) (map kernel_row ks) = map (\<lambda>k. inventory src [k]) ks"
    using assms(4) kernel_row_socket [OF _ assms(1)] by (auto simp: list_all_iff)
  then show ?thesis
    unfolding readProcNet_def assms(2) sum.case scan_table [OF assms(3,4)] Let_def prod.case option.case
    by (subst inventory_concat) (simp del: map_map)
qed

text \<open>
  C34: The inventory of listening sockets is exact. For tables as the kernel writes them, every
  word of an address byte-swapped and in hexadecimal, the tool lists, table by table and in the order
  of the rows, every TCP socket in the state LISTEN and no other TCP socket, and every UDP
  socket with its connected ones marked, each with the text of its address and its port. A table that
  cannot be opened contributes nothing but one warning with its name, and changes nothing of the
  others.
\<close>

theorem sockets_inventory_exact:
  assumes "\<forall>src \<in> set procNetSources. case table src of
      None \<Rightarrow> wd_file w (pn_path src) = Inl e
    | Some (hdr, ks) \<Rightarrow> wd_file w (pn_path src) = Inr (kernel_table hdr ks, None) \<and> header_ok hdr \<and> list_all (ksock_ok (pn_family src)) ks"
  shows "sockets_Handle w body = Inr
    (concat (map (\<lambda>src. case table src of None \<Rightarrow> [] | Some (hdr, ks) \<Rightarrow> inventory src ks) procNetSources),
     map (\<lambda>src. ''sockets: '' @ pn_path src @ '': '' @ stat_text e @ ''; listening[] is incomplete'')
       (filter (\<lambda>src. table src = None) procNetSources))"
proof -
  have "sockets_source w src = (case table src of
      None \<Rightarrow> ([], [''sockets: '' @ pn_path src @ '': '' @ stat_text e @ ''; listening[] is incomplete''])
    | Some (hdr, ks) \<Rightarrow> (inventory src ks, []))" if "src \<in> set procNetSources" for src
  proof (cases "table src")
    case None
    with bspec [OF assms that] show ?thesis by (simp add: sockets_source_def readProcNet_def)
  next
    case (Some hk)
    with bspec [OF assms that] show ?thesis
      by (cases hk) (simp add: sockets_source_def readProcNet_table [OF that])
  qed
  then have m: "map (sockets_source w) procNetSources = map (\<lambda>src. case table src of
      None \<Rightarrow> ([], [''sockets: '' @ pn_path src @ '': '' @ stat_text e @ ''; listening[] is incomplete''])
    | Some (hdr, ks) \<Rightarrow> (inventory src ks, [])) procNetSources" by simp
  show ?thesis
    unfolding sockets_Handle_def map_map [symmetric] m by (simp add: procNetSources_def split: option.split)
qed

definition sample_socks :: "procNetSource \<Rightarrow> (bytes \<times> ksock list) option" where
  "sample_socks src =
     (if pn_path src = ''/proc/net/tcp6'' then None
      else if pn_path src = ''/proc/net/tcp'' then
        Some (''  sl  local_address rem_address'',
          [\<lparr>ks_sl = ''0:'', ks_addr = IPv4 2130706433, ks_port = 22, ks_remote = ''00000000:0000'', ks_state = ''0A'', ks_rest = [''1''], ks_pad = (3, 2)\<rparr>,
           \<lparr>ks_sl = ''1:'', ks_addr = IPv4 2130706433, ks_port = 80, ks_remote = ''0100007F:1234'', ks_state = ''01'', ks_rest = [], ks_pad = (3, 0)\<rparr>])
      else Some (''sl'', []))"

definition sample_socks_world :: world where
  "sample_socks_world = quiet_world\<lparr>wd_file := (\<lambda>f. case find (\<lambda>src. pn_path src = f) procNetSources of
     Some src \<Rightarrow> (case sample_socks src of None \<Rightarrow> Inl (NotExist ''none'') | Some (hdr, ks) \<Rightarrow> Inr (kernel_table hdr ks, None)) | None \<Rightarrow> Inl (NotExist ''none''))\<rparr>"

theorem sockets_inventory_exact_witness:
  "sockets_Handle sample_socks_world [] = Inr
    (concat (map (\<lambda>src. case sample_socks src of None \<Rightarrow> [] | Some (hdr, ks) \<Rightarrow> inventory src ks) procNetSources),
     map (\<lambda>src. ''sockets: '' @ pn_path src @ '': '' @ stat_text (NotExist ''none'') @ ''; listening[] is incomplete'')
       (filter (\<lambda>src. sample_socks src = None) procNetSources))"
proof (rule sockets_inventory_exact)
  have "list_all (\<lambda>src. case sample_socks src of
      None \<Rightarrow> True
    | Some (hdr, ks) \<Rightarrow> header_ok hdr \<and> list_all (ksock_ok (pn_family src)) ks) procNetSources" by code_simp
  then show "\<forall>src \<in> set procNetSources. case sample_socks src of
      None \<Rightarrow> wd_file sample_socks_world (pn_path src) = Inl (NotExist ''none'')
    | Some (hdr, ks) \<Rightarrow> wd_file sample_socks_world (pn_path src) = Inr (kernel_table hdr ks, None) \<and> header_ok hdr \<and>
        list_all (ksock_ok (pn_family src)) ks"
    by (auto simp: sample_socks_world_def procNetSources_def sample_socks_def)
qed

end
