(* ===== verification/ToolKernel.thy ===== *)
theory ToolKernel
  imports ToolBase OpsStorage
begin

text \<open>
  \<^verbatim>\<open>tools/kernel/kernel.go\<close>, \<^verbatim>\<open>tools/pressure/pressure.go\<close> and \<^verbatim>\<open>tools/sensors/sensors.go\<close>: readings of \<^verbatim>\<open>/proc\<close> and \<^verbatim>\<open>/sys\<close>. A slice
  that may be \<^verbatim>\<open>nil\<close> is an option; floats are rational numbers.
\<close>

definition readTrim :: "world \<Rightarrow> bytes \<Rightarrow> bytes" where
  "readTrim w path = (case ReadFile w path of Inl e \<Rightarrow> [] | Inr b \<Rightarrow> trim_space b)"

subsection \<open>Kernel\<close>

record kernel_Data =
  kn_TaintedMask :: int
  kn_TaintedFlags :: "bytes list"
  kn_MCECount :: "int option"
  kn_EDACCorrectableErrorsTotal :: "int option"
  kn_EDACUncorrectableErrorsTotal :: "int option"
  kn_OOMKillsSinceBoot :: int
  kn_LastPanicTS :: "time option"
  kn_CmdlineKeysPresent :: "bytes list option"

definition taintBits :: "(nat \<times> bytes) list" where
  "taintBits =
     [(0, ''proprietary_module''), (1, ''forced_module''), (2, ''unsafe_smp''), (3, ''forced_rmmod''), (4, ''machine_check''),
      (5, ''bad_page''), (6, ''user''), (7, ''die''), (8, ''override_acpi_table''), (9, ''warning''), (10, ''crap''),
      (11, ''firmware_workaround''), (12, ''out_of_tree_module''), (13, ''unsigned_module''), (14, ''soft_lockup''),
      (15, ''live_patched''), (16, ''aux''), (17, ''struct_random_layout'')]"

definition allowlistedCmdlineKeys :: "bytes list" where
  "allowlistedCmdlineKeys =
     [''BOOT_IMAGE'', ''console'', ''crashkernel'', ''ipv6.disable'', ''loglevel'', ''nmi_watchdog'', ''panic'', ''quiet'', ''ro'', ''rw'',
      ''selinux'', ''systemd.unified_cgroup_hierarchy'']"

definition readInt :: "world \<Rightarrow> bytes \<Rightarrow> int option" where
  "readInt w path = (case ReadFile w path of Inl e \<Rightarrow> None | Inr b \<Rightarrow> atoi (trim_space b))"

unbundle bit_operations_syntax

definition taint_flags :: "int \<Rightarrow> bytes list" where
  "taint_flags m = map snd (filter (\<lambda>(b, name). m AND push_bit b 1 \<noteq> 0) taintBits)"

text \<open>Sums are at 64 bits.\<close>

definition add_reading :: "int \<Rightarrow> int option \<Rightarrow> int" where
  "add_reading n v = (case v of None \<Rightarrow> n | Some k \<Rightarrow> int64 (n + k))"

definition readMCECount :: "world \<Rightarrow> int option" where
  "readMCECount w =
     (let dir = ''/sys/devices/system/machinecheck''
      in case wd_dir w dir of
           Inl e \<Rightarrow> None
         | Inr entries \<Rightarrow>
             Some (foldl add_reading 0
               (map (\<lambda>e. readInt w (filepath_Clean (dir @ ''/'' @ dn_Name e @ ''/count'')))
                 (filter (\<lambda>e. has_prefix (dn_Name e) ''machinecheck'') entries))))"

definition readEDAC :: "world \<Rightarrow> int option \<times> int option" where
  "readEDAC w =
     (let dir = ''/sys/devices/system/edac/mc''
      in case wd_dir w dir of
           Inl e \<Rightarrow> (None, None)
         | Inr entries \<Rightarrow>
             (let mcs = filter (\<lambda>e. has_prefix (dn_Name e) ''mc'') entries;
                  ces = map (\<lambda>e. readInt w (filepath_Clean (dir @ ''/'' @ dn_Name e @ ''/ce_count''))) mcs;
                  ues = map (\<lambda>e. readInt w (filepath_Clean (dir @ ''/'' @ dn_Name e @ ''/ue_count''))) mcs
              in if list_ex (\<lambda>v. v \<noteq> None) (ces @ ues) then (Some (foldl add_reading 0 ces), Some (foldl add_reading 0 ues))
                 else (None, None)))"

fun oom_kill :: "bytes list \<Rightarrow> int option" where
  "oom_kill [] = None"
| "oom_kill (l # ls) =
     (case Fields l of
        [k, v] \<Rightarrow> (if k = ''oom_kill'' then (case atoi v of Some n \<Rightarrow> Some n | None \<Rightarrow> oom_kill ls) else oom_kill ls)
      | _ \<Rightarrow> oom_kill ls)"

definition readOOMKills :: "world \<Rightarrow> int" where
  "readOOMKills w =
     (case ReadFile w ''/proc/vmstat'' of
        Inl e \<Rightarrow> - 1
      | Inr b \<Rightarrow>
          (let (ls, err) = scan_with ''/proc/vmstat'' b
           in case oom_kill ls of Some n \<Rightarrow> n | None \<Rightarrow> (case err of Some e \<Rightarrow> - 1 | None \<Rightarrow> 0)))"

definition cmdline_key :: "bytes \<Rightarrow> bytes" where
  "cmdline_key token = (case index_byte token CHR ''='' of Some eq \<Rightarrow> take eq token | None \<Rightarrow> token)"

definition readCmdlineKeys :: "world \<Rightarrow> bytes list option" where
  "readCmdlineKeys w =
     (case ReadFile w ''/proc/cmdline'' of
        Inl (StatFailed m) \<Rightarrow> None
      | Inl (NotExist m) \<Rightarrow> Some []
      | Inr b \<Rightarrow> Some (filter (\<lambda>k. k \<in> set allowlistedCmdlineKeys) (map cmdline_key (Fields b))))"

definition kernel_Handle :: "world \<Rightarrow> bytes \<Rightarrow> kernel_Data handled" where
  "kernel_Handle w body =
     (let tainted = readInt w ''/proc/sys/kernel/tainted''; kills = readOOMKills w
      in Inr (\<lparr>kn_TaintedMask = (case tainted of Some m \<Rightarrow> m | None \<Rightarrow> 0),
               kn_TaintedFlags = (case tainted of Some m \<Rightarrow> taint_flags m | None \<Rightarrow> []),
               kn_MCECount = readMCECount w,
               kn_EDACCorrectableErrorsTotal = fst (readEDAC w),
               kn_EDACUncorrectableErrorsTotal = snd (readEDAC w),
               kn_OOMKillsSinceBoot = (if 0 \<le> kills then kills else 0),
               kn_LastPanicTS = None,
               kn_CmdlineKeysPresent = readCmdlineKeys w\<rparr>, []))"

text \<open>
  The values of kernel parameters do not flow: two command lines with the same keys in the same
  order give the same answer.
\<close>

lemma cmdline_values_do_not_flow:
  assumes "ReadFile w ''/proc/cmdline'' = Inr b" and "ReadFile w' ''/proc/cmdline'' = Inr b'"
    and "map cmdline_key (Fields b) = map cmdline_key (Fields b')"
  shows "readCmdlineKeys w = readCmdlineKeys w'"
  using assms by (simp add: readCmdlineKeys_def)

text \<open>The bits of the mask are the flags reported.\<close>

lemma taint_flags_iff:
  assumes "(b, name) \<in> set taintBits"
  shows "name \<in> set (taint_flags k) \<longleftrightarrow> bit k b"
proof -
  have "distinct (map snd taintBits)" by code_simp
  then have inj: "inj_on snd (set taintBits)" by (rule distinct_map [THEN iffD1, THEN conjunct2])
  have u: "b' = b" if "(b', name) \<in> set taintBits" for b'
    using inj_onD [OF inj _ that assms] by simp
  have "name \<in> set (taint_flags k) \<longleftrightarrow> (\<exists>b'. (b', name) \<in> set taintBits \<and> k AND push_bit b' 1 \<noteq> 0)"
    unfolding taint_flags_def by force
  also have "\<dots> \<longleftrightarrow> k AND push_bit b 1 \<noteq> 0" using u assms by blast
  finally show ?thesis by (simp add: and_exp_eq_0_iff_not_bit push_bit_eq_mult)
qed

text \<open>When the counter could not be read the tool reports no kill at all, as on a host that had none.\<close>

lemma oom_unknown_is_zero:
  assumes "ReadFile w ''/proc/vmstat'' = Inl e"
  shows "\<exists>d ws. kernel_Handle w body = Inr (d, ws) \<and> kn_OOMKillsSinceBoot d = 0 \<and> ws = []"
  using assms by (simp add: kernel_Handle_def readOOMKills_def Let_def)

subsection \<open>Pressure\<close>

record Metric =
  mt_Avg10 :: rat
  mt_Avg60 :: rat
  mt_Avg300 :: rat
  mt_TotalUs :: int

record pressure_Data =
  pr_CPU :: "Metric option"
  pr_IOSome :: "Metric option"
  pr_IOFull :: "Metric option"
  pr_MemorySome :: "Metric option"
  pr_MemoryFull :: "Metric option"

text \<open>With the error ignored, what is no number is zero.\<close>

definition float_value :: "world \<Rightarrow> bytes \<Rightarrow> rat" where
  "float_value w s = (case wd_parse_float w s of Some r \<Rightarrow> r | None \<Rightarrow> 0)"

definition metric_field :: "world \<Rightarrow> Metric \<Rightarrow> bytes \<Rightarrow> Metric" where
  "metric_field w m field =
     (case index_byte field CHR ''='' of
        None \<Rightarrow> m
      | Some eq \<Rightarrow>
          if eq = 0 then m
          else let key = take eq field; val = drop (Suc eq) field
          in if key = ''avg10'' then m\<lparr>mt_Avg10 := float_value w val\<rparr>
             else if key = ''avg60'' then m\<lparr>mt_Avg60 := float_value w val\<rparr>
             else if key = ''avg300'' then m\<lparr>mt_Avg300 := float_value w val\<rparr>
             else if key = ''total'' then m\<lparr>mt_TotalUs := parse_int_value val\<rparr>
             else m)"

definition parsePressureLine :: "world \<Rightarrow> bytes \<Rightarrow> Metric" where
  "parsePressureLine w line =
     foldl (metric_field w) \<lparr>mt_Avg10 = 0, mt_Avg60 = 0, mt_Avg300 = 0, mt_TotalUs = 0\<rparr> (drop 1 (Fields line))"

definition readSome :: "world \<Rightarrow> bytes \<Rightarrow> Metric option" where
  "readSome w path =
     (case ReadFile w path of
        Inl e \<Rightarrow> None
      | Inr b \<Rightarrow> map_option (parsePressureLine w) (find (\<lambda>l. has_prefix l ''some '') (fst (scan_with path b))))"

definition some_full_line :: "world \<Rightarrow> Metric option \<times> Metric option \<Rightarrow> bytes \<Rightarrow> Metric option \<times> Metric option" where
  "some_full_line w st line =
     (if has_prefix line ''some '' then (Some (parsePressureLine w line), snd st)
      else if has_prefix line ''full '' then (fst st, Some (parsePressureLine w line))
      else st)"

definition readSomeFull :: "world \<Rightarrow> bytes \<Rightarrow> Metric option \<times> Metric option" where
  "readSomeFull w path =
     (case ReadFile w path of
        Inl e \<Rightarrow> (None, None)
      | Inr b \<Rightarrow>
          (let (ls, err) = scan_with path b
           in case err of Some e \<Rightarrow> (None, None) | None \<Rightarrow> foldl (some_full_line w) (None, None) ls))"

definition pressure_Handle :: "world \<Rightarrow> bytes \<Rightarrow> pressure_Data handled" where
  "pressure_Handle w body =
     (let (ios, iof) = readSomeFull w ''/proc/pressure/io''; (ms, mf) = readSomeFull w ''/proc/pressure/memory''
      in Inr (\<lparr>pr_CPU = readSome w ''/proc/pressure/cpu'', pr_IOSome = ios, pr_IOFull = iof, pr_MemorySome = ms, pr_MemoryFull = mf\<rparr>, []))"

subsection \<open>Sensors\<close>

record Sensor =
  se_Label :: bytes
  se_Kind :: bytes
  se_Value :: rat
  se_Critical :: "rat option"

record Chip =
  cp_Name :: bytes
  cp_Sensors :: "Sensor list"

text \<open>\<^verbatim>\<open>^(temp|fan|in)([0-9]+)_input$\<close>: the kind and the index.\<close>

definition input_of_kind :: "bytes \<Rightarrow> bytes \<Rightarrow> bytes option" where
  "input_of_kind kind s =
     (let r = drop (length kind) s; ds = takeWhile ascii_digit r
      in if has_prefix s kind \<and> ds \<noteq> [] \<and> drop (length ds) r = ''_input'' then Some ds else None)"

definition inputRE :: "bytes \<Rightarrow> (bytes \<times> bytes) option" where
  "inputRE s =
     (case find (\<lambda>k. input_of_kind k s \<noteq> None) [''temp'', ''fan'', ''in''] of
        None \<Rightarrow> None
      | Some k \<Rightarrow> map_option (Pair k) (input_of_kind k s))"

definition scaled :: "bytes \<Rightarrow> rat \<Rightarrow> rat" where
  "scaled kind v = (if kind = ''temp'' \<or> kind = ''in'' then v / 1000 else v)"

definition sensor_kind :: "bytes \<Rightarrow> bytes option" where
  "sensor_kind kind =
     (if kind = ''temp'' then Some ''temp_c'' else if kind = ''fan'' then Some ''fan_rpm'' else if kind = ''in'' then Some ''voltage_v'' else None)"

definition readSensor :: "world \<Rightarrow> bytes \<Rightarrow> bytes \<Rightarrow> bytes \<Rightarrow> Sensor option" where
  "readSensor w chipDir kind idx =
     (let raw = readTrim w (filepath_Join chipDir (kind @ idx @ ''_input''));
          label = readTrim w (filepath_Join chipDir (kind @ idx @ ''_label''));
          crit = readTrim w (filepath_Join chipDir (kind @ idx @ ''_crit''))
      in if raw = [] then None
         else case (wd_parse_float w raw, sensor_kind kind) of
           (Some v, Some k) \<Rightarrow>
             Some \<lparr>se_Label = (if label = [] then kind @ idx else label), se_Kind = k, se_Value = scaled kind v,
                   se_Critical = (if crit = [] then None else map_option (scaled kind) (wd_parse_float w crit))\<rparr>
         | _ \<Rightarrow> None)"

definition chip_sensors :: "world \<Rightarrow> bytes \<Rightarrow> dir_entry list \<Rightarrow> Sensor list" where
  "chip_sensors w chipDir files =
     List.map_filter (\<lambda>f. case inputRE (dn_Name f) of None \<Rightarrow> None | Some (kind, idx) \<Rightarrow> readSensor w chipDir kind idx) files"

definition read_chip :: "world \<Rightarrow> dir_entry \<Rightarrow> Chip list" where
  "read_chip w e =
     (let chipDir = filepath_Join ''/sys/class/hwmon'' (dn_Name e); name = readTrim w (filepath_Join chipDir ''name'')
      in if name = [] then []
         else case wd_dir w chipDir of
           Inl err \<Rightarrow> []
         | Inr files \<Rightarrow>
             (let ss = chip_sensors w chipDir files in if ss = [] then [] else [\<lparr>cp_Name = name, cp_Sensors = ss\<rparr>]))"

definition sensors_Handle :: "world \<Rightarrow> bytes \<Rightarrow> Chip list handled" where
  "sensors_Handle w body =
     (case wd_dir w ''/sys/class/hwmon'' of
        Inl (NotExist m) \<Rightarrow> Inr ([], [])
      | Inl (StatFailed m) \<Rightarrow> Inl (ToolOther m)
      | Inr entries \<Rightarrow> Inr (concat (map (read_chip w) (sort_key dn_Name entries)), []))"

text \<open>No chip without a name or without a reading is listed.\<close>

lemma sensors_nonempty:
  "sensors_Handle w body = Inr (cs, ws) \<Longrightarrow> list_all (\<lambda>c. cp_Name c \<noteq> [] \<and> cp_Sensors c \<noteq> []) cs"
  by (auto simp: sensors_Handle_def read_chip_def Let_def list_all_iff split: sum.splits stat_error.splits if_splits)

end
