(* ===== verification/ToolNetwork.thy ===== *)
theory ToolNetwork
  imports ToolSockets ToolKernel OpsNft
begin

text \<open>
  \<^verbatim>\<open>tools/network/network.go\<close> and \<^verbatim>\<open>tools/dns/dns.go\<close>. The addresses of an interface as \<^verbatim>\<open>net.Interface\<close>
  delivers them and the outcome of a host lookup are arguments.
\<close>

subsection \<open>Addresses of package net\<close>

text \<open>A \<^verbatim>\<open>net.Addr\<close>: an \<^verbatim>\<open>*net.IPNet\<close> with the bytes of its address and the ones of its mask, or another type.\<close>

datatype net_addr = IPNet "nat list" int | OtherAddr

definition To4 :: "nat list \<Rightarrow> nat list option" where
  "To4 ip =
     (if length ip = 4 then Some ip
      else if length ip = 16 \<and> take 12 ip = replicate 10 0 @ [255, 255] then Some (drop 12 ip) else None)"

definition hexString :: "nat list \<Rightarrow> bytes" where
  "hexString bs = concat (map (\<lambda>b. [hex_lower (b div 16 mod 16), hex_lower (b mod 16)]) bs)"

definition IP_String :: "nat list \<Rightarrow> bytes" where
  "IP_String ip =
     (if ip = [] then ''<nil>''
      else case To4 ip of
        Some v \<Rightarrow> addr_String (AddrFrom4 v)
      | None \<Rightarrow> if length ip = 16 then addr_String (AddrFrom16 ip) else ''?'' @ hexString ip)"

definition IsMulticast :: "addr \<Rightarrow> bool" where
  "IsMulticast a = (case Unmap a of IPv4 v \<Rightarrow> unat v div 2 ^ 28 = 14 | IPv6 v z \<Rightarrow> unat v div 2 ^ 120 = 255)"

definition IsGlobalUnicast :: "addr \<Rightarrow> bool" where
  "IsGlobalUnicast a \<longleftrightarrow>
     \<not> (case a of IPv4 v \<Rightarrow> v = 0 \<or> v = 0xFFFFFFFF | IPv6 v z \<Rightarrow> v = 0 \<and> z = []) \<and>
     \<not> IsLoopback a \<and> \<not> IsMulticast a \<and> \<not> IsLinkLocalUnicast a"

subsection \<open>The network tool\<close>

record InterfaceAddr =
  ia_Family :: bytes
  ia_Addr :: bytes
  ia_PrefixLen :: int

record NetworkInterface =
  ni_Name :: bytes
  ni_MAC :: bytes
  ni_MTU :: int
  ni_OperState :: bytes
  ni_Carrier :: bool
  ni_Addrs :: "InterfaceAddr list"

record DefaultRoute =
  dr_Family :: bytes
  dr_Gateway :: bytes
  dr_Dev :: bytes
  dr_Metric :: int

record network_Data =
  nw_Interfaces :: "NetworkInterface list"
  nw_DefaultRoutes :: "DefaultRoute list"
  nw_NftTableCounts :: NftTableCountsResult
  nw_ResolvConfFirstNameserver :: "bytes option"
  nw_IPv6PolicyCompliant :: bool
  nw_Errors :: "HelperOpError list"

text \<open>The default of an empty policy.\<close>

definition NewNetwork :: "bytes \<Rightarrow> bytes" where
  "NewNetwork ipv6Policy = (if ipv6Policy = [] then ''not-enforced'' else ipv6Policy)"

definition sysClassNetPath :: bytes where
  "sysClassNetPath = ''/sys/class/net''"

definition interface_addr :: "net_addr \<Rightarrow> InterfaceAddr list" where
  "interface_addr a =
     (case a of
        OtherAddr \<Rightarrow> []
      | IPNet ip plen \<Rightarrow>
          (case To4 ip of
             Some v4 \<Rightarrow> [\<lparr>ia_Family = ''inet'', ia_Addr = IP_String v4, ia_PrefixLen = plen\<rparr>]
           | None \<Rightarrow> [\<lparr>ia_Family = ''inet6'', ia_Addr = IP_String ip, ia_PrefixLen = plen\<rparr>]))"

text \<open>The addresses, and the error of the lookup of the interface or of its addresses.\<close>

definition readInterfaceAddrs :: "(bytes \<Rightarrow> bytes + net_addr list) \<Rightarrow> bytes \<Rightarrow> InterfaceAddr list \<times> bytes option" where
  "readInterfaceAddrs addrs name =
     (case addrs name of Inl e \<Rightarrow> ([], Some e) | Inr as \<Rightarrow> (concat (map interface_addr as), None))"

definition read_interface :: "world \<Rightarrow> (bytes \<Rightarrow> bytes + net_addr list) \<Rightarrow> bytes \<Rightarrow> NetworkInterface" where
  "read_interface w addrs name =
     (let dir = filepath_Join ''/sys/class/net'' name
      in \<lparr>ni_Name = name, ni_MAC = readTrim w (filepath_Join dir ''address''),
          ni_MTU = parse_int_clamp 10 64 (readTrim w (filepath_Join dir ''mtu'')),
          ni_OperState = readTrim w (filepath_Join dir ''operstate''),
          ni_Carrier = (readTrim w (filepath_Join dir ''carrier'') = ''1''),
          ni_Addrs = fst (readInterfaceAddrs addrs name)\<rparr>)"

text \<open>The interfaces and the first error.\<close>

definition readInterfaces :: "world \<Rightarrow> (bytes \<Rightarrow> bytes + net_addr list) \<Rightarrow> NetworkInterface list \<times> bytes option" where
  "readInterfaces w addrs =
     (case wd_dir w sysClassNetPath of
        Inl e \<Rightarrow> ([], Some (stat_text e))
      | Inr entries \<Rightarrow>
          (map (\<lambda>e. read_interface w addrs (dn_Name e)) entries,
           case find (\<lambda>r. r \<noteq> None) (map (\<lambda>e. snd (readInterfaceAddrs addrs (dn_Name e))) entries) of
             None \<Rightarrow> None | Some r \<Rightarrow> r))"

definition parseHexIPv4LE :: "bytes \<Rightarrow> bytes option" where
  "parseHexIPv4LE h = (if length h \<noteq> 8 then None else map_option (\<lambda>bs. addr_String (AddrFrom4 (rev bs))) (hex_pairs h))"

definition parseHexIPv6 :: "bytes \<Rightarrow> bytes" where
  "parseHexIPv6 h =
     (if length h \<noteq> 32 then []
      else case hex_pairs h of None \<Rightarrow> [] | Some bs \<Rightarrow> addr_String (AddrFrom16 bs))"

definition route4_row :: "bytes \<Rightarrow> DefaultRoute list" where
  "route4_row line =
     (let fields = Fields line
      in if length fields < 11 \<or> fields ! 1 \<noteq> ''00000000'' then []
         else case parseHexIPv4LE (fields ! 2) of
           None \<Rightarrow> []
         | Some gw \<Rightarrow>
             [\<lparr>dr_Family = ''inet'', dr_Gateway = gw, dr_Dev = fields ! 0, dr_Metric = parse_int_clamp 10 64 (fields ! 6)\<rparr>])"

definition route6_row :: "bytes \<Rightarrow> DefaultRoute list" where
  "route6_row line =
     (let fields = Fields line
      in if length fields < 10 \<or> fields ! 1 \<noteq> ''00'' \<or> fields ! 0 \<noteq> replicate 32 CHR ''0'' then []
         else [\<lparr>dr_Family = ''inet6'', dr_Gateway = parseHexIPv6 (fields ! 4), dr_Dev = fields ! 9,
                dr_Metric = parse_int_clamp 16 32 (fields ! 5)\<rparr>])"

definition readDefaultRoutes :: "world \<Rightarrow> bytes \<Rightarrow> bytes \<Rightarrow> stat_error + DefaultRoute list" where
  "readDefaultRoutes w path family =
     (case ReadFile w path of
        Inl e \<Rightarrow> Inl e
      | Inr b \<Rightarrow>
          (let (ls, err) = scan_with path b
           in case err of
                Some e \<Rightarrow> Inl (StatFailed e)
              | None \<Rightarrow>
                  if family = ''inet'' then Inr (concat (map route4_row (drop 1 ls))) else Inr (concat (map route6_row ls))))"

definition firstNameserver :: "world \<Rightarrow> bytes" where
  "firstNameserver w =
     (case ReadFile w ''/etc/resolv.conf'' of
        Inl e \<Rightarrow> []
      | Inr b \<Rightarrow>
          (case find (\<lambda>l. has_prefix l ''nameserver '') (split_on CHR 0x0A [] b) of
             None \<Rightarrow> [] | Some l \<Rightarrow> trim_space (trim_prefix l ''nameserver'')))"

definition has_global :: "NetworkInterface list \<Rightarrow> bool" where
  "has_global ifaces =
     list_ex (\<lambda>ifc. list_ex (\<lambda>a. ia_Family a = ''inet6'' \<and>
       (case ParseAddr (ia_Addr a) of None \<Rightarrow> False | Some x \<Rightarrow> IsGlobalUnicast x \<and> \<not> IsLinkLocalUnicast x)) (ni_Addrs ifc)) ifaces"

definition checkIPv6Policy :: "bytes \<Rightarrow> NetworkInterface list \<Rightarrow> bool" where
  "checkIPv6Policy policy ifaces =
     (if policy = ''required-on'' then has_global ifaces
      else if policy = ''required-off'' then \<not> has_global ifaces else True)"

definition network_Handle ::
  "(call_error \<Rightarrow> bytes) \<Rightarrow> world \<Rightarrow> (bytes \<Rightarrow> bytes + net_addr list) \<Rightarrow> (bytes \<Rightarrow> bytes \<Rightarrow> call_error + NftTableCountsResult) \<Rightarrow>
   bytes \<Rightarrow> bytes \<Rightarrow> network_Data handled" where
  "network_Handle texts w addrs call ipv6Policy body =
     (let (ifaces, ierr) = readInterfaces w addrs;
          w1 = (case ierr of None \<Rightarrow> [] | Some e \<Rightarrow> [''network: interface addresses: '' @ e @ ''; addrs[] may be incomplete'']);
          (r4, w2) = (case readDefaultRoutes w ''/proc/net/route'' ''inet'' of
             Inr rs \<Rightarrow> (rs, []) | Inl e \<Rightarrow> ([], [''network: ipv4 routes: '' @ stat_text e]));
          (r6, w3) = (case readDefaultRoutes w ''/proc/net/ipv6_route'' ''inet6'' of
             Inr rs \<Rightarrow> (rs, []) | Inl (NotExist m) \<Rightarrow> ([], [])
           | Inl (StatFailed m) \<Rightarrow> ([], [''network: ipv6 routes: '' @ m]));
          ns = firstNameserver w;
          r = call OpNftTableCounts [];
          (es, w4) = failed_op texts ''network'' OpNftTableCounts r
      in Inr (\<lparr>nw_Interfaces = ifaces, nw_DefaultRoutes = r4 @ r6,
               nw_NftTableCounts = (case r of Inl e \<Rightarrow> [] | Inr tables \<Rightarrow> tables),
               nw_ResolvConfFirstNameserver = (if ns \<noteq> [] then Some ns else None),
               nw_IPv6PolicyCompliant = checkIPv6Policy ipv6Policy ifaces, nw_Errors = es\<rparr>,
              w1 @ w2 @ w3 @ w4))"

subsection \<open>The DNS tool\<close>

record dns_Data =
  dn_ResolverInUse :: bytes
  dn_ResolvesSelfHostname :: bool
  dn_ResolvesExternalProbe :: bool
  dn_FilterCanaryBlocked :: bool

record Probes =
  pr_ExternalProbe :: bytes
  pr_FilterCanary :: bytes

text \<open>The error of a lookup: its text and whether it is a \<^verbatim>\<open>*net.DNSError\<close> with \<^verbatim>\<open>IsNotFound\<close>.\<close>

record lookup_error =
  le_text :: bytes
  le_notFound :: bool

definition perProbeTimeout :: duration where
  "perProbeTimeout = 800 * Millisecond"

text \<open>
  The answer of the resolver to a name within a given time; a lookup that is cut off is an error.
\<close>

type_synonym resolver = "duration \<Rightarrow> bytes \<Rightarrow> lookup_error + bytes list"

definition lookup_host :: "resolver \<Rightarrow> bytes \<Rightarrow> bool \<times> lookup_error option" where
  "lookup_host res name = (case res perProbeTimeout name of Inl e \<Rightarrow> (False, Some e) | Inr addrs \<Rightarrow> (addrs \<noteq> [], None))"

definition isNXDomain :: "lookup_error \<Rightarrow> bool" where
  "isNXDomain e \<longleftrightarrow> le_notFound e \<or> contains_sub (le_text e) ''no such host''"

text \<open>A probe: whether it resolves, and the warning unless the error is one to pass over.\<close>

definition dns_probe :: "resolver \<Rightarrow> bytes \<Rightarrow> (lookup_error \<Rightarrow> bool) \<Rightarrow> bytes \<Rightarrow> bool \<times> bytes list" where
  "dns_probe res label quiet name =
     (if name = [] then (False, [])
      else let (ok, err) = lookup_host res name
      in (ok, case err of Some e \<Rightarrow> if quiet e then [] else [''dns: '' @ label @ '': '' @ le_text e] | None \<Rightarrow> []))"

text \<open>The same text as \<^verbatim>\<open>firstNameserver\<close> of the network tool.\<close>

definition firstResolver :: "world \<Rightarrow> bytes" where
  "firstResolver w = firstNameserver w"

definition dns_Handle :: "world \<Rightarrow> bytes + bytes \<Rightarrow> resolver \<Rightarrow> Probes \<Rightarrow> bytes \<Rightarrow> dns_Data handled" where
  "dns_Handle w hostname res probes body =
     (let (self, w1) = (case hostname of
             Inl e \<Rightarrow> (False, [''dns: hostname unavailable: '' @ e])
           | Inr host \<Rightarrow>
               (let (ok, err) = lookup_host res host
                in (ok, case err of Some e \<Rightarrow> [''dns: self_hostname: '' @ le_text e] | None \<Rightarrow> [])));
          (ext, w2) = dns_probe res ''external_probe'' (\<lambda>e. False) (pr_ExternalProbe probes);
          (canary, w3) = dns_probe res ''filter_canary'' isNXDomain (pr_FilterCanary probes)
      in Inr (\<lparr>dn_ResolverInUse = firstResolver w, dn_ResolvesSelfHostname = self, dn_ResolvesExternalProbe = ext,
               dn_FilterCanaryBlocked = canary\<rparr>, w1 @ w2 @ w3))"

subsection \<open>Properties\<close>

lemma hex_lower_plain_char: "hex_lower (d mod 16) \<notin> set ''.:%''"
proof -
  have "d mod 16 < 16" by simp
  then have "digit_val (hex_lower (d mod 16)) \<noteq> None" by (simp add: digit_val_lower)
  then show ?thesis by (auto simp: digit_val_def Let_def)
qed

text \<open>What is written for the bytes of an address is read as that address, when it is one.\<close>

lemma ParseAddr_IP_String:
  assumes "To4 ip = None"
  shows "ParseAddr (IP_String ip) = (if length ip = 16 then Some (AddrFrom16 ip) else None)"
proof (cases "length ip = 16")
  case True
  then have "IP_String ip = addr_String (AddrFrom16 ip)" using assms by (auto simp: IP_String_def)
  moreover have "zone_of (AddrFrom16 ip) = []" by (simp add: AddrFrom16_def)
  ultimately show ?thesis using address_text_roundtrip True by simp
next
  case False
  have "\<forall>c \<in> set (''?'' @ hexString ip). c \<notin> set ''.:%''" using hex_lower_plain_char by (auto simp: hexString_def)
  then have "find (\<lambda>c. c \<in> set ''.:%'') (''?'' @ hexString ip) = None" by (simp only: find_None_iff) blast
  moreover have "find (\<lambda>c. c \<in> set ''.:%'') ''<nil>'' = None" by code_simp
  ultimately show ?thesis using False assms by (simp add: IP_String_def ParseAddr_def del: find.simps)
qed

text \<open>The addresses of an interface that count for the policy: IPv6, of global scope and unicast.\<close>

definition global_v6 :: "net_addr \<Rightarrow> bool" where
  "global_v6 a = (case a of IPNet ip plen \<Rightarrow> length ip = 16 \<and> To4 ip = None \<and> IsGlobalUnicast (AddrFrom16 ip) | OtherAddr \<Rightarrow> False)"

definition carries_global :: "world \<Rightarrow> (bytes \<Rightarrow> bytes + net_addr list) \<Rightarrow> bool" where
  "carries_global w addrs \<longleftrightarrow>
     (case wd_dir w sysClassNetPath of
        Inl e \<Rightarrow> False
      | Inr entries \<Rightarrow> list_ex (\<lambda>e. case addrs (dn_Name e) of Inl m \<Rightarrow> False | Inr as \<Rightarrow> list_ex global_v6 as) entries)"

lemma global_interface_addr:
  "list_ex (\<lambda>a. ia_Family a = ''inet6'' \<and> (case ParseAddr (ia_Addr a) of None \<Rightarrow> False | Some x \<Rightarrow> IsGlobalUnicast x \<and> \<not> IsLinkLocalUnicast x))
     (interface_addr a) \<longleftrightarrow> global_v6 a"
  by (cases a) (auto simp: interface_addr_def global_v6_def ParseAddr_IP_String IsGlobalUnicast_def split: option.splits)

lemma list_ex_concat: "list_ex P (concat xss) \<longleftrightarrow> list_ex (list_ex P) xss"
  by (induction xss) auto

lemma has_global_interfaces: "has_global (fst (readInterfaces w addrs)) \<longleftrightarrow> carries_global w addrs"
  by (auto simp: has_global_def readInterfaces_def carries_global_def list_ex_iff read_interface_def readInterfaceAddrs_def Let_def
      global_interface_addr [unfolded list_ex_iff] split: sum.splits)


text \<open>
  With no address readable at all the policy \<^verbatim>\<open>required-off\<close> counts as kept.
\<close>

lemma policy_vouches_unread:
  assumes "\<And>name. \<exists>e. addrs name = Inl e"
  shows "\<exists>d ws. network_Handle texts w addrs call ''required-off'' body = Inr (d, ws) \<and> nw_IPv6PolicyCompliant d"
proof -
  have "(case addrs n of Inl m \<Rightarrow> False | Inr as \<Rightarrow> list_ex global_v6 as) = False" for n using assms [of n] by auto
  then have "\<not> carries_global w addrs" by (simp add: carries_global_def list_ex_iff split: sum.split)
  then show ?thesis using has_global_interfaces [of w addrs] by (simp add: network_Handle_def checkIPv6Policy_def split_beta Let_def)
qed

text \<open>
  Rows that are no default routes: half of the IPv4 space, as a VPN sets it, since the mask is not
  looked at; and the entry with which the kernel rejects what no IPv6 route matches, since its flags
  are not looked at.
\<close>

lemma half_space_listed:
  "route4_row (join [''tun0'', ''00000000'', ''0100080A'', ''0003'', ''0'', ''0'', ''0'', ''00000080'', ''0'', ''0'', ''0''] '' '') =
     [\<lparr>dr_Family = ''inet'', dr_Gateway = ''10.8.0.1'', dr_Dev = ''tun0'', dr_Metric = 0\<rparr>]"
  by code_simp

lemma reject_route_listed:
  "route6_row (join [replicate 32 CHR ''0'', ''00'', replicate 32 CHR ''0'', ''00'', replicate 32 CHR ''0'', ''ffffffff'', ''00000001'',
      ''00000000'', ''00200200'', ''lo''] '' '') =
     [\<lparr>dr_Family = ''inet6'', dr_Gateway = ''::'', dr_Dev = ''lo'', dr_Metric = 2147483647\<rparr>]"
  by code_simp

text \<open>A name is reported as resolving only if the resolver returned an address for it in time.\<close>

lemma dns_probe_true: "fst (dns_probe res label quiet name) \<Longrightarrow> \<exists>a as. res perProbeTimeout name = Inr (a # as)"
  by (auto simp: dns_probe_def lookup_host_def Let_def neq_Nil_conv split: if_splits sum.splits)

lemma dns_silent_failure:
  assumes "dns_probe res label quiet name = (False, [])" and "name \<noteq> []"
  shows "res perProbeTimeout name = Inr [] \<or> (\<exists>e. res perProbeTimeout name = Inl e \<and> quiet e)"
  using assms by (auto simp: dns_probe_def lookup_host_def Let_def split: if_splits sum.splits)

end
