(* ===== verification/ToolStorage.thy ===== *)
theory ToolStorage
  imports ToolBase OpsStorage
begin

text \<open>
  \<^verbatim>\<open>tools/storage/storage.go\<close>: the devices and arrays of the host, the calls of the storage ops, and the
  SMART readings that are collected by up to eight goroutines at once.
\<close>

subsection \<open>The tool\<close>

record smart_device = SmartSummary +
  sd_Error :: "HelperOpError option"

record storage_Data =
  st_Mdraid :: "MdraidDetailResult list"
  st_LvmVgs :: "LvmVg list"
  st_LvmLvs :: "LvmLv list"
  st_Smart :: "smart_device list"
  st_Btrfs :: "BtrfsScrubResult list"
  st_ZfsPools :: "ZfsPool list"
  st_Errors :: "HelperOpError list"

text \<open>The calls of the ops.\<close>

record storage_calls =
  sc_smart :: "bytes \<Rightarrow> bytes \<Rightarrow> call_error + SmartSummary"
  sc_mdraid :: "bytes \<Rightarrow> bytes \<Rightarrow> call_error + MdraidDetailResult"
  sc_lvm :: "bytes \<Rightarrow> bytes \<Rightarrow> call_error + LvmReportResult"
  sc_zpool :: "bytes \<Rightarrow> bytes \<Rightarrow> call_error + ZfsPool list"
  sc_btrfs :: "bytes \<Rightarrow> bytes \<Rightarrow> call_error + BtrfsScrubResult"

definition fanout :: nat where
  "fanout = 8"

definition mapHelperCode :: "bytes \<Rightarrow> bytes" where
  "mapHelperCode code =
     (if code = CodeToolMissing then ''tool_missing''
      else if code = CodeToolFailed then ''tool_failed''
      else if code = CodeDeadline then ''deadline''
      else if code = CodeOutputTruncated then ''output_truncated''
      else ''parse_failed'')"

definition helperErrorToSmartError :: "(call_error \<Rightarrow> bytes) \<Rightarrow> call_error \<Rightarrow> HelperOpError option" where
  "helperErrorToSmartError texts e =
     map_option (\<lambda>op. op\<lparr>hoe_code := mapHelperCode (hoe_code op)\<rparr>) (OpErrorFrom (Some (go_error_of texts e)))"

text \<open>What one goroutine writes for its device.\<close>

definition smart_entry :: "(call_error \<Rightarrow> bytes) \<Rightarrow> (bytes \<Rightarrow> bytes \<Rightarrow> call_error + SmartSummary) \<Rightarrow> bytes \<Rightarrow> smart_device" where
  "smart_entry texts call dev =
     (case call OpSmartSummary dev of
        Inr s \<Rightarrow> SmartSummary.extend s (smart_device.fields None)
      | Inl e \<Rightarrow>
          \<lparr>sm_Device = dev, sm_Model = None, sm_SmartOverall = None, sm_TemperatureC = None, sm_ReallocatedSectors = None,
           sm_PowerOnHours = None, sm_SmartctlExitCode = None, sd_Error = helperErrorToSmartError texts e\<rparr>)"

definition collectSmart :: "(call_error \<Rightarrow> bytes) \<Rightarrow> (bytes \<Rightarrow> bytes \<Rightarrow> call_error + SmartSummary) \<Rightarrow> bytes list \<Rightarrow> smart_device list" where
  "collectSmart texts call devices = map (smart_entry texts call) devices"

definition virtual_device :: "bytes \<Rightarrow> bool" where
  "virtual_device name \<longleftrightarrow> list_ex (has_prefix name) [''loop'', ''ram'', ''dm-'', ''sr'', ''zram'']"

definition enumerateBlockDevices :: "world \<Rightarrow> bytes + bytes list" where
  "enumerateBlockDevices w =
     (case wd_dir w ''/sys/class/block'' of
        Inl e \<Rightarrow> Inl (stat_text e)
      | Inr entries \<Rightarrow>
          Inr (sort (filter (\<lambda>name. \<not> file_exists w (''/sys/class/block/'' @ name @ ''/partition'') \<and> \<not> virtual_device name)
            (map dn_Name entries))))"

definition mdstat_array :: "bytes \<Rightarrow> bytes list" where
  "mdstat_array line =
     (if 3 \<le> length line \<and> take 2 line = ''md'' then
        (case Fields line of a # b # rest \<Rightarrow> if b = '':'' then [a] else [] | _ \<Rightarrow> [])
      else [])"

definition enumerateMdraidArrays :: "world \<Rightarrow> stat_error + bytes list" where
  "enumerateMdraidArrays w =
     (case ReadFile w ''/proc/mdstat'' of
        Inl e \<Rightarrow> Inl e
      | Inr b \<Rightarrow>
          (let (ls, err) = scan_with ''/proc/mdstat'' b
           in case err of Some e \<Rightarrow> Inl (StatFailed e) | None \<Rightarrow> Inr (concat (map mdstat_array ls))))"

text \<open>One call for each name: the results, the error entries and the warnings.\<close>

definition each_op ::
  "(call_error \<Rightarrow> bytes) \<Rightarrow> bytes \<Rightarrow> (bytes \<Rightarrow> bytes \<Rightarrow> call_error + 'r) \<Rightarrow> bytes list \<Rightarrow> 'r list \<times> HelperOpError list \<times> bytes list" where
  "each_op texts op call names =
     (let rs = map (\<lambda>n. (n, call op n)) names;
          fs = map (\<lambda>(n, r). failed_op texts ''storage'' (op @ '':'' @ n) r) rs
      in (concat (map (\<lambda>(n, r). case r of Inr v \<Rightarrow> [v] | Inl e \<Rightarrow> []) rs), concat (map fst fs), concat (map snd fs)))"

definition storage_Handle :: "(call_error \<Rightarrow> bytes) \<Rightarrow> world \<Rightarrow> storage_calls \<Rightarrow> bytes list \<Rightarrow> bytes \<Rightarrow> storage_Data handled" where
  "storage_Handle texts w c btrfsMountpoints body =
     (let (devices, w1) = (case enumerateBlockDevices w of
             Inr ds \<Rightarrow> (ds, []) | Inl e \<Rightarrow> ([], [''storage: enumerate block devices: '' @ e]));
          (arrays, w2) = (case enumerateMdraidArrays w of
             Inr as \<Rightarrow> (as, []) | Inl (NotExist m) \<Rightarrow> ([], []) | Inl (StatFailed m) \<Rightarrow> ([], [''storage: read /proc/mdstat: '' @ m]));
          (mds, e3, w3) = each_op texts OpMdraidDetail (sc_mdraid c) arrays;
          lvm = sc_lvm c OpLvmReport [];
          (e4, w4) = failed_op texts ''storage'' OpLvmReport lvm;
          zfs = sc_zpool c OpZpoolStatus [];
          (e5, w5) = failed_op texts ''storage'' OpZpoolStatus zfs;
          (bts, e6, w6) = each_op texts OpBtrfsScrub (sc_btrfs c) btrfsMountpoints
      in Inr (\<lparr>st_Mdraid = mds,
               st_LvmVgs = (case lvm of Inl e \<Rightarrow> [] | Inr r \<Rightarrow> lvm_VGs r),
               st_LvmLvs = (case lvm of Inl e \<Rightarrow> [] | Inr r \<Rightarrow> lvm_LVs r),
               st_Smart = collectSmart texts (sc_smart c) devices, st_Btrfs = bts,
               st_ZfsPools = (case zfs of Inl e \<Rightarrow> [] | Inr ps \<Rightarrow> ps), st_Errors = e3 @ e4 @ e5 @ e6\<rparr>,
              w1 @ w2 @ w3 @ w4 @ w5 @ w6))"

subsection \<open>The goroutines of collectSmart\<close>

text \<open>
  \<open>fa_next\<close> is the loop's index, \<open>fa_sem\<close> the tokens in the semaphore, \<open>fa_wg\<close> the counter of the wait group.
  A goroutine calls the helper, writes its element, gives its token back and leaves the wait
  group, in this order; the three lists hold the indices of those that are at each point.
\<close>

record 'a fan =
  fa_next :: nat
  fa_sem :: nat
  fa_wg :: nat
  fa_calling :: "nat list"
  fa_written :: "nat list"
  fa_released :: "nat list"
  fa_out :: "'a option list"

definition fan_init :: "nat \<Rightarrow> 'a fan \<Rightarrow> bool" where
  "fan_init n s \<longleftrightarrow> s = \<lparr>fa_next = 0, fa_sem = 0, fa_wg = 0, fa_calling = [], fa_written = [], fa_released = [], fa_out = replicate n None\<rparr>"

inductive fan_step :: "nat \<Rightarrow> 'a list \<Rightarrow> 'a fan \<Rightarrow> 'a fan \<Rightarrow> bool" for cap results where
  fan_start: "fa_next s < length results \<Longrightarrow> fa_sem s < cap \<Longrightarrow>
    fan_step cap results s (s\<lparr>fa_next := fa_next s + 1, fa_sem := fa_sem s + 1, fa_wg := fa_wg s + 1, fa_calling := fa_next s # fa_calling s\<rparr>)"
| fan_write: "i \<in> set (fa_calling s) \<Longrightarrow>
    fan_step cap results s (s\<lparr>fa_calling := remove1 i (fa_calling s), fa_out := (fa_out s)[i := Some (results ! i)], fa_written := i # fa_written s\<rparr>)"
| fan_release: "i \<in> set (fa_written s) \<Longrightarrow>
    fan_step cap results s (s\<lparr>fa_written := remove1 i (fa_written s), fa_sem := fa_sem s - 1, fa_released := i # fa_released s\<rparr>)"
| fan_done: "i \<in> set (fa_released s) \<Longrightarrow>
    fan_step cap results s (s\<lparr>fa_released := remove1 i (fa_released s), fa_wg := fa_wg s - 1\<rparr>)"

inductive_cases fan_stepE: "fan_step cap results s t"

text \<open>\<^verbatim>\<open>wg.Wait\<close> returns after the loop when the counter is zero.\<close>

definition fan_returned :: "'a list \<Rightarrow> 'a fan \<Rightarrow> bool" where
  "fan_returned results s \<longleftrightarrow> fa_next s = length results \<and> fa_wg s = 0"

definition fan_inv :: "nat \<Rightarrow> 'a list \<Rightarrow> 'a fan \<Rightarrow> bool" where
  "fan_inv cap results s \<longleftrightarrow>
     fa_next s \<le> length results \<and> fa_sem s \<le> cap \<and> length (fa_out s) = length results \<and>
     fa_sem s = length (fa_calling s) + length (fa_written s) \<and>
     fa_wg s = length (fa_calling s) + length (fa_written s) + length (fa_released s) \<and>
     (\<forall>i < fa_next s. i \<in> set (fa_calling s) \<or> fa_out s ! i = Some (results ! i)) \<and>
     (\<forall>i \<in> set (fa_calling s). i < fa_next s)"

definition fan_left :: "'a list \<Rightarrow> 'a fan \<Rightarrow> nat" where
  "fan_left results s =
     4 * (length results - fa_next s) + 3 * length (fa_calling s) + 2 * length (fa_written s) + length (fa_released s)"

lemma length_remove1_in: "x \<in> set xs \<Longrightarrow> Suc (length (remove1 x xs)) = length xs"
  by (induction xs) auto

lemma in_remove1_other: "y \<in> set xs \<Longrightarrow> y \<noteq> x \<Longrightarrow> y \<in> set (remove1 x xs)"
  by (induction xs) auto

lemma fan_step_inv:
  assumes "fan_inv cap results s" and "fan_step cap results s t"
  shows "fan_inv cap results t"
  using assms(2)
proof (cases rule: fan_step.cases)
  case fan_start
  then show ?thesis using assms(1) by (auto simp: fan_inv_def less_Suc_eq)
next
  case (fan_write i)
  have "j \<in> set (remove1 i (fa_calling s)) \<or> (fa_out s)[i := Some (results ! i)] ! j = Some (results ! j)" if "j < fa_next s" for j
    using that assms(1) fan_write(2) in_remove1_other [of j "fa_calling s" i] by (cases "j = i") (auto simp: fan_inv_def)
  then show ?thesis
    using assms(1) length_remove1_in [OF fan_write(2)] set_remove1_subset [of i "fa_calling s"]
    by (auto simp: fan_inv_def fan_write(1))
next
  case (fan_release i)
  then show ?thesis using assms(1) length_remove1_in [of i "fa_written s"] by (auto simp: fan_inv_def)
next
  case (fan_done i)
  then show ?thesis using assms(1) length_remove1_in [of i "fa_released s"] by (auto simp: fan_inv_def)
qed

interpretation fan: invariant_system "fan_init (length results)" "fan_step cap results" "fan_inv cap results" for cap results
proof
  show "fan_inv cap results s" if "fan_init (length results) s" for s using that by (simp add: fan_init_def fan_inv_def)
  show "fan_inv cap results t" if "fan_inv cap results s" "fan_step cap results s t" for s t using that by (rule fan_step_inv)
qed

lemma fan_step_left: "fan_step cap results s t \<Longrightarrow> fan_left results s = Suc (fan_left results t)"
  by (elim fan_stepE) (auto simp: fan_left_def dest: length_remove1_in)

lemma fan_steps_left: "(fan_step cap results ^^ k) s t \<Longrightarrow> fan_left results s = k + fan_left results t"
proof (induction k arbitrary: t)
  case (Suc k)
  then obtain u where "(fan_step cap results ^^ k) s u" "fan_step cap results u t" by auto
  then show ?case using Suc.IH fan_step_left by fastforce
qed simp

text \<open>While the call has not returned, some goroutine or the loop can go on.\<close>

lemma fan_progress:
  assumes "fan_inv cap results s" and "0 < cap" and "\<not> fan_returned results s"
  shows "\<exists>t. fan_step cap results s t"
proof (cases "fa_calling s = [] \<and> fa_written s = [] \<and> fa_released s = []")
  case True
  then have "fa_next s < length results" "fa_sem s < cap" using assms by (auto simp: fan_inv_def fan_returned_def)
  then show ?thesis by (blast intro: fan_start)
next
  case False
  then show ?thesis by (metis list.set_sel(1) fan_write fan_release fan_done)
qed

lemma fan_result:
  assumes "fan_inv cap results s" and "fan_returned results s"
  shows "fa_out s = map Some results"
  using assms by (intro nth_equalityI) (auto simp: fan_inv_def fan_returned_def)

text \<open>
  C38: The collection of the SMART readings ends, with every reading in its place. However the
  goroutines interleave, at most eight calls of the helper are outstanding at any moment, every run
  takes exactly four steps for each device until it cannot go on, it cannot stop before the wait group
  lets the function return, and then the slice holds for each device, in the order of the
  devices, what the helper answered for it or its error block: no device is dropped and no element
  is left unwritten.
\<close>

theorem smart_collection_terminates:
  assumes "fan_init (length devices) s0" and "(fan_step fanout (collectSmart texts call devices) ^^ k) s0 s"
  shows "length (fa_calling s) \<le> 8 \<and> k \<le> 4 * length devices \<and>
    ((\<nexists>t. fan_step fanout (collectSmart texts call devices) s t) \<longleftrightarrow> k = 4 * length devices) \<and>
    (k = 4 * length devices \<longrightarrow> fan_returned (collectSmart texts call devices) s) \<and>
    (fan_returned (collectSmart texts call devices) s \<longrightarrow> fa_out s = map (Some \<circ> smart_entry texts call) devices)"
proof -
  let ?rs = "collectSmart texts call devices"
  have n: "length ?rs = length devices" by (simp add: collectSmart_def)
  have "reachable (fan_init (length ?rs)) (fan_step fanout ?rs) s"
    unfolding reachable_def n using assms relpowp_imp_rtranclp by fast
  then have inv: "fan_inv fanout ?rs s" by (rule fan.reachable_inv)
  have "fan_left ?rs s0 = 4 * length devices" using assms(1) by (simp add: fan_init_def fan_left_def n)
  then have k: "4 * length devices = k + fan_left ?rs s" using fan_steps_left [OF assms(2)] by simp
  have "fan_left ?rs s = 0 \<Longrightarrow> fan_returned ?rs s" using inv by (simp add: fan_left_def fan_inv_def fan_returned_def)
  moreover have "(\<nexists>t. fan_step fanout ?rs s t) \<longleftrightarrow> fan_left ?rs s = 0"
  proof
    assume stuck: "\<nexists>t. fan_step fanout ?rs s t"
    then have "fan_returned ?rs s" using fan_progress [OF inv] by (auto simp: fanout_def)
    then show "fan_left ?rs s = 0" using inv by (simp add: fan_left_def fan_inv_def fan_returned_def)
  next
    assume "fan_left ?rs s = 0"
    then show "\<nexists>t. fan_step fanout ?rs s t" using fan_step_left [of fanout ?rs s] by fastforce
  qed
  moreover have "length (fa_calling s) \<le> 8" using inv by (simp add: fan_inv_def fanout_def)
  moreover have "fan_returned ?rs s \<Longrightarrow> fa_out s = map (Some \<circ> smart_entry texts call) devices"
    using fan_result [OF inv] by (simp add: collectSmart_def)
  ultimately show ?thesis using k by auto
qed

definition sample_summary :: SmartSummary where
  "sample_summary = \<lparr>sm_Device = ''sda'', sm_Model = None, sm_SmartOverall = Some ''PASSED'', sm_TemperatureC = Some 31,
     sm_ReallocatedSectors = Some 0, sm_PowerOnHours = None, sm_SmartctlExitCode = None\<rparr>"

definition sample_fan :: "nat \<Rightarrow> nat \<Rightarrow> nat \<Rightarrow> nat list \<Rightarrow> nat list \<Rightarrow> nat list \<Rightarrow> smart_device option list \<Rightarrow> smart_device fan" where
  "sample_fan n s g a b c out = \<lparr>fa_next = n, fa_sem = s, fa_wg = g, fa_calling = a, fa_written = b, fa_released = c, fa_out = out\<rparr>"

theorem smart_collection_terminates_witness:
  "fa_out (sample_fan 1 0 0 [] [] [] [Some (smart_entry (\<lambda>e. []) (\<lambda>op d. Inr sample_summary) ''sda'')]) =
     map (Some \<circ> smart_entry (\<lambda>e. []) (\<lambda>op d. Inr sample_summary)) [''sda'']"
proof -
  let ?call = "\<lambda>(op :: bytes) (d :: bytes). Inr sample_summary" and ?texts = "\<lambda>(e :: call_error). [] :: bytes"
  let ?e = "smart_entry ?texts ?call ''sda''" let ?R = "fan_step fanout (collectSmart ?texts ?call [''sda''])"
  have rs: "collectSmart ?texts ?call [''sda''] = [?e]" by (simp add: collectSmart_def)
  have 1: "?R (sample_fan 0 0 0 [] [] [] [None]) (sample_fan 1 1 1 [0] [] [] [None])"
    unfolding rs using fan_start [of "sample_fan 0 0 0 [] [] [] [None]" "[?e]" fanout] by (simp add: sample_fan_def fanout_def)
  have 2: "?R (sample_fan 1 1 1 [0] [] [] [None]) (sample_fan 1 1 1 [] [0] [] [Some ?e])"
    unfolding rs using fan_write [of 0 "sample_fan 1 1 1 [0] [] [] [None]" fanout "[?e]"] by (simp add: sample_fan_def)
  have 3: "?R (sample_fan 1 1 1 [] [0] [] [Some ?e]) (sample_fan 1 0 1 [] [] [0] [Some ?e])"
    unfolding rs using fan_release [of 0 "sample_fan 1 1 1 [] [0] [] [Some ?e]" fanout "[?e]"] by (simp add: sample_fan_def)
  have 4: "?R (sample_fan 1 0 1 [] [] [0] [Some ?e]) (sample_fan 1 0 0 [] [] [] [Some ?e])"
    unfolding rs using fan_done [of 0 "sample_fan 1 0 1 [] [] [0] [Some ?e]" fanout "[?e]"] by (simp add: sample_fan_def)
  have "(?R ^^ 4) (sample_fan 0 0 0 [] [] [] [None]) (sample_fan 1 0 0 [] [] [] [Some ?e])"
    unfolding eval_nat_numeral BitM.simps using 1 2 3 4 by (meson relpowp_0_I relpowp_Suc_I)
  moreover have "fan_init (length [''sda'']) (sample_fan 0 0 0 [] [] [] [None])" by (simp add: fan_init_def sample_fan_def)
  ultimately show ?thesis using smart_collection_terminates [of "[''sda'']"] by fastforce
qed

text \<open>
  An array of the kernel is among the block devices, and its name is not one that the SMART op
  accepts.
\<close>

lemma md_device_refused:
  "\<not> virtual_device ''md0'' \<and> SmartSummaryHandler w ''md0'' = Inl (op_error CodeBadParam ''device name failed whitelist'') \<and>
   mapHelperCode CodeBadParam = ''parse_failed''"
proof (intro conjI)
  have "\<not> deviceRE ''md0''" by code_simp
  then show "SmartSummaryHandler w ''md0'' = Inl (op_error CodeBadParam ''device name failed whitelist'')" by (simp add: SmartSummaryHandler_def)
  show "mapHelperCode CodeBadParam = ''parse_failed''" by code_simp
  show "\<not> virtual_device ''md0''" by code_simp
qed

text \<open>Every failure of an op leaves an entry in the error block, and the results keep the order of the names.\<close>

lemma each_op_complete:
  "length (fst (each_op texts op call names)) + length (fst (snd (each_op texts op call names))) = length names"
  by (induction names) (auto simp: each_op_def failed_op_def Let_def op_failure_def split: sum.splits)

end
