(* ===== verification/ToolSecurity.thy ===== *)
theory ToolSecurity
  imports ToolBase OpsUpdates OpsSecurity OpsJournal
begin

text \<open>
  \<^verbatim>\<open>tools/security/security.go\<close>: the integrity checkers, the audit subsystem, the intrusion prevention
  and the counts of SSH logins.
\<close>

subsection \<open>Times in warnings\<close>

text \<open>\<^verbatim>\<open>time.Unix(s, 0).UTC().Format(time.RFC3339)\<close>, with the days of the Gregorian calendar counted from a first of March.\<close>

definition civil :: "int \<Rightarrow> int \<times> int \<times> int" where
  "civil days =
     (let z = days + 719468; era = z div 146097; doe = z mod 146097;
          yoe = (doe - doe div 1460 + doe div 36524 - doe div 146096) div 365;
          doy = doe - (365 * yoe + yoe div 4 - yoe div 100);
          mp = (5 * doy + 2) div 153;
          d = doy - (153 * mp + 2) div 5 + 1;
          m = (if mp < 10 then mp + 3 else mp - 9);
          y = yoe + era * 400
      in (if m \<le> 2 then y + 1 else y, m, d))"

definition pad :: "nat \<Rightarrow> int \<Rightarrow> bytes" where
  "pad k n = (let s = itoa n in replicate (k - length s) CHR ''0'' @ s)"

definition format_RFC3339 :: "int \<Rightarrow> bytes" where
  "format_RFC3339 s =
     (let (y, m, d) = civil (s div 86400); t = s mod 86400
      in pad 4 y @ ''-'' @ pad 2 m @ ''-'' @ pad 2 d @ ''T'' @ pad 2 (t div 3600) @ '':'' @ pad 2 (t div 60 mod 60) @ '':'' @ pad 2 (t mod 60) @ ''Z'')"

lemma format_example: "format_RFC3339 1700000000 = ''2023-11-14T22:13:20Z''" "format_RFC3339 951782400 = ''2000-02-29T00:00:00Z''"
  by code_simp+

subsection \<open>The data\<close>

record Debsums =
  ds_Present :: bool
  ds_LastRunTS :: "time option"
  ds_ModifiedCount :: "int option"

record Auditd =
  aud_Present :: bool
  aud_QueueDepth :: "int option"
  aud_LostEvents :: "int option"
  aud_LastRotationTS :: "time option"

record IPS =
  ip_BackendInUse :: bytes
  ip_CurrentBanCount :: int

record SSHLogins =
  sl_AcceptedRecent :: "int option"
  sl_FailedRecent :: "int option"
  sl_Window :: bytes

record security_Data =
  se_Aide :: AideSummary
  se_Auditd :: Auditd
  se_Rkhunter :: RkhunterSummaryResult
  se_Debsums :: Debsums
  se_IPS :: IPS
  se_SSHLogins :: SSHLogins
  se_Errors :: "HelperOpError list"

definition sshWindowLast24h :: bytes where
  "sshWindowLast24h = ''last_24h''"

definition sshWindowSinceLogRotation :: bytes where
  "sshWindowSinceLogRotation = ''since_log_rotation''"

definition sshWindowUnavailable :: bytes where
  "sshWindowUnavailable = ''unavailable''"

lemmas ssh_window_defs = sshWindowLast24h_def sshWindowSinceLogRotation_def sshWindowUnavailable_def

text \<open>The paths of the manifest, and the calls of the ops.\<close>

record security_Tool =
  sk_debsumsLogPath :: bytes
  sk_aideLogPath :: bytes

record security_calls =
  sq_aide :: "bytes \<Rightarrow> bytes \<Rightarrow> call_error + AideSummary"
  sq_audit :: "bytes \<Rightarrow> bytes \<Rightarrow> call_error + AuditStatus"
  sq_fail2ban :: "bytes \<Rightarrow> bytes \<Rightarrow> call_error + Fail2banStatusResult"
  sq_rkhunter :: "bytes \<Rightarrow> bytes \<Rightarrow> call_error + RkhunterSummaryResult"
  sq_timer :: "bytes \<Rightarrow> bytes \<Rightarrow> call_error + SystemdTimerLastTriggerResult"
  sq_ssh :: "bytes \<Rightarrow> bytes \<Rightarrow> call_error + SshJournalCountsResult"

subsection \<open>Presence\<close>

text \<open>Whether a path exists, and the last error that leaves it open when none does.\<close>

fun any_exists_from :: "bytes option \<Rightarrow> world \<Rightarrow> bytes list \<Rightarrow> bool \<times> bytes option" where
  "any_exists_from unc w [] = (False, unc)"
| "any_exists_from unc w (p # ps) =
     (case wd_stat w p of
        Inr i \<Rightarrow> (True, None)
      | Inl (NotExist m) \<Rightarrow> any_exists_from unc w ps
      | Inl (StatFailed m) \<Rightarrow> any_exists_from (Some m) w ps)"

definition anyExists :: "world \<Rightarrow> bytes list \<Rightarrow> bool \<times> bytes option" where
  "anyExists w paths = any_exists_from None w paths"

definition existsOrWarn :: "world \<Rightarrow> bytes \<Rightarrow> bytes list \<Rightarrow> bool \<times> bytes list" where
  "existsOrWarn w what paths =
     (let (present, uncertain) = anyExists w paths
      in (present, case uncertain of
            None \<Rightarrow> []
          | Some e \<Rightarrow> [''security: cannot determine whether '' @ what @ '' is installed: '' @ e @ '' (reported as absent)'']))"

text \<open>The probe after \<^verbatim>\<open>||\<close> runs only when the op did not report presence.\<close>

definition or_exists :: "bool \<Rightarrow> world \<Rightarrow> bytes \<Rightarrow> bytes list \<Rightarrow> bool \<times> bytes list" where
  "or_exists p w what paths = (if p then (True, []) else existsOrWarn w what paths)"

definition detectIPS :: "world \<Rightarrow> bytes" where
  "detectIPS w =
     (if fst (anyExists w [''/usr/bin/fail2ban-client'', ''/usr/local/bin/fail2ban-client'']) then ''fail2ban''
      else if fst (anyExists w [''/usr/bin/crowdsec'', ''/usr/local/bin/crowdsec'']) then ''crowdsec''
      else ''none'')"

subsection \<open>AIDE, auditd and rkhunter\<close>

definition zero_aide :: AideSummary where
  "zero_aide = \<lparr>ai_Present = False, ai_LastRunTS = None, ai_LastExitCode = None, ai_ChangeCount = None\<rparr>"

definition result_or :: "'r \<Rightarrow> call_error + 'r \<Rightarrow> 'r" where
  "result_or z r = (case r of Inl e \<Rightarrow> z | Inr v \<Rightarrow> v)"

text \<open>The log is scanned for the totals and headlines that the helper looks for too.\<close>

definition fillAideFromLog :: "world \<Rightarrow> bytes \<Rightarrow> AideSummary \<Rightarrow> AideSummary \<times> bytes list" where
  "fillAideFromLog w path d =
     (case wd_stat w path of
        Inl e \<Rightarrow> (d, [''security: aide_log_path '' @ path @ '': '' @ stat_text e])
      | Inr info \<Rightarrow>
          (let d1 = d\<lparr>ai_LastRunTS := Some (fi_ModTime info)\<rparr>
           in case wd_file w path of
                Inl e \<Rightarrow> (d1, [''security: aide_log_path open: '' @ stat_text e])
              | Inr rd \<Rightarrow>
                  (let (ls, err) = scan_reader path rd;
                       st = aide_scan_lines ls;
                       d2 = (case aide_detail st of None \<Rightarrow> d1 | Some n \<Rightarrow> d1\<lparr>ai_ChangeCount := Some n\<rparr>);
                       d3 = (if as_foundNoDiff st \<and> \<not> as_foundDiff st then d2\<lparr>ai_LastExitCode := Some 0, ai_ChangeCount := Some 0\<rparr>
                             else if as_foundDiff st then d2\<lparr>ai_LastExitCode := Some 1\<rparr> else d2)
                   in (d3, case err of None \<Rightarrow> [] | Some e \<Rightarrow> [''security: aide log: '' @ e]))))"

definition aide_hint :: "bytes \<Rightarrow> bytes" where
  "aide_hint path =
     (if path \<noteq> [] then
        ''aide_log_path is set to '' @ path @ '' but no 'Total number of differences:' / 'Added/Removed/Changed entries:' totals were found''
      else ''ensure /var/log/aide/aide.log captures 'Total number of differences:' or 'Added/Removed/Changed entries:' totals, or set aide_log_path in manifest.yml'')"

definition aide_block :: "world \<Rightarrow> bytes \<Rightarrow> AideSummary \<Rightarrow> AideSummary \<times> bytes list" where
  "aide_block w logPath aide =
     (let (present, w1) = or_exists (ai_Present aide) w ''aide'' [''/usr/bin/aide'', ''/usr/sbin/aide''];
          d0 = aide\<lparr>ai_Present := present\<rparr>;
          (d, w2) = (if logPath \<noteq> [] then fillAideFromLog w logPath d0 else (d0, []));
          w3 = (if ai_Present d \<and> ai_LastRunTS d \<noteq> None \<and> ai_ChangeCount d = None
                then [''security: aide change_count unparseable; '' @ aide_hint logPath] else [])
      in (d, w1 @ w2 @ w3))"

definition auditd_paths :: "bytes list" where
  "auditd_paths = [''/sbin/auditd'', ''/usr/sbin/auditd'']"

definition zero_audit :: AuditStatus where
  "zero_audit = \<lparr>ad_Present = False, ad_QueueDepth = None, ad_LostEvents = None, ad_LastRotationTS = None, ad_NetlinkError = []\<rparr>"

definition no_audit_subsystem :: bytes where
  "no_audit_subsystem =
     ''security: auditd binary present but kernel has no audit subsystem (CONFIG_AUDIT=n); queue_depth/lost_events null''"

definition auditd_block :: "world \<Rightarrow> AuditStatus \<Rightarrow> Auditd \<times> bytes list" where
  "auditd_block w audit =
     (let (present, w1) = or_exists (ad_Present audit) w ''auditd'' auditd_paths;
          w2 = (if ad_NetlinkError audit \<noteq> [] then
                  [''security: AUDIT_GET netlink failed: '' @ ad_NetlinkError audit @
                   '' (queue_depth/lost_events null; last_rotation_ts still derived from /var/log/audit/)'']
                else if \<not> ad_Present audit \<and> fst (anyExists w auditd_paths) then [no_audit_subsystem] else [])
      in (\<lparr>aud_Present = present, aud_QueueDepth = ad_QueueDepth audit, aud_LostEvents = ad_LostEvents audit,
           aud_LastRotationTS = ad_LastRotationTS audit\<rparr>, w1 @ w2))"

definition zero_rkhunter :: RkhunterSummaryResult where
  "zero_rkhunter = \<lparr>rk_Present = False, rk_LastRunTS = None, rk_WarningCount = None\<rparr>"

definition rkhunter_block :: "world \<Rightarrow> call_error + RkhunterSummaryResult \<Rightarrow> RkhunterSummaryResult \<times> bytes list" where
  "rkhunter_block w r =
     (let rk = result_or zero_rkhunter r;
          (present, w1) = or_exists (rk_Present rk) w ''rkhunter'' [''/usr/bin/rkhunter'', ''/usr/sbin/rkhunter''];
          w2 = (case r of
             Inl e \<Rightarrow> []
           | Inr v \<Rightarrow>
               if present \<and> rk_LastRunTS rk = None then
                 [''security: rkhunter binary present but /var/log/rkhunter.log absent; last_run_ts and warning_count null'']
               else if present \<and> rk_LastRunTS rk \<noteq> None \<and> rk_WarningCount rk = None then
                 [''security: rkhunter log present but unreadable from the helper; warning_count null'']
               else [])
      in (rk\<lparr>rk_Present := present\<rparr>, w1 @ w2))"

subsection \<open>debsums\<close>

definition debsums_changed :: "bytes \<Rightarrow> bool" where
  "debsums_changed raw = (let line = trim_space raw in line \<noteq> [] \<and> \<not> has_prefix line ''debsums:'' \<and> has_prefix line ''/'')"

text \<open>A plain \<^verbatim>\<open>bufio.Scanner\<close> with a limit of 1 MiB, and its own error texts.\<close>

definition countDebsumsChanged :: "world \<Rightarrow> bytes \<Rightarrow> bytes + int" where
  "countDebsumsChanged w path =
     (case wd_file w path of
        Inl e \<Rightarrow> Inl (stat_text e)
      | Inr rd \<Rightarrow>
          (let sc = \<lparr>sc_input = fst rd, sc_readerr = snd rd, sc_max = 1048576, sc_what = []\<rparr>
           in case bufio_Err sc of
                Some ErrTooLong \<Rightarrow> Inl ''bufio.Scanner: token too long''
              | Some (ReadError e) \<Rightarrow> Inl e
              | None \<Rightarrow> Inr (int (length (filter debsums_changed (Lines sc))))))"

definition debsums_timer_warning :: "SystemdTimerLastTriggerResult \<Rightarrow> bytes" where
  "debsums_timer_warning tim =
     (if st_Present tim \<and> st_LastTrigger tim \<noteq> None then
        ''security: debsums last_run_ts derived from debsums-check.timer; modified_count unknown (set debsums_log_path in manifest.yml to populate)''
      else if st_Present tim then
        ''security: debsums installed; no debsums_log_path is configured; debsums-check.timer is registered but has never been triggered (LastTriggerUSec=0); last_run_ts and modified_count are null''
      else
        ''security: debsums installed; no debsums_log_path is configured and no debsums-check.timer present; last_run_ts and modified_count are null'')"

definition fillDebsums ::
  "(call_error \<Rightarrow> bytes) \<Rightarrow> world \<Rightarrow> security_calls \<Rightarrow> bytes \<Rightarrow> Debsums \<Rightarrow> Debsums \<times> HelperOpError list \<times> bytes list" where
  "fillDebsums texts w c logPath d =
     (if logPath \<noteq> [] then
        (case wd_stat w logPath of
           Inl e \<Rightarrow> (d, [], [''security: debsums_log_path: '' @ stat_text e])
         | Inr info \<Rightarrow>
             (let d1 = d\<lparr>ds_LastRunTS := Some (fi_ModTime info)\<rparr>
              in case countDebsumsChanged w logPath of
                   Inr n \<Rightarrow> (d1\<lparr>ds_ModifiedCount := Some n\<rparr>, [], [])
                 | Inl e \<Rightarrow> (d1, [], [''security: debsums log parse: '' @ e])))
      else let r = sq_timer c OpSystemdTimerLastTrigger ''debsums-check.timer'';
               (es, ws) = failed_op texts ''security'' OpSystemdTimerLastTrigger r
           in case r of
                Inl e \<Rightarrow>
                  (d, es, ws @ [''security: debsums installed but no debsums_log_path is configured and debsums-check.timer is unreachable; see errors[] for cause''])
              | Inr tim \<Rightarrow>
                  (if st_Present tim \<and> st_LastTrigger tim \<noteq> None then d\<lparr>ds_LastRunTS := st_LastTrigger tim\<rparr> else d, [],
                   [debsums_timer_warning tim]))"

definition debsums_block :: "(call_error \<Rightarrow> bytes) \<Rightarrow> world \<Rightarrow> security_calls \<Rightarrow> bytes \<Rightarrow> Debsums \<times> HelperOpError list \<times> bytes list" where
  "debsums_block texts w c logPath =
     (let (present, w1) = existsOrWarn w ''debsums'' [''/usr/bin/debsums''];
          d = \<lparr>ds_Present = present, ds_LastRunTS = None, ds_ModifiedCount = None\<rparr>
      in if present then (let (d', es, ws) = fillDebsums texts w c logPath d in (d', es, w1 @ ws)) else (d, [], w1))"

subsection \<open>SSH logins\<close>

definition authLogPaths :: "bytes list" where
  "authLogPaths = [''/var/log/auth.log'', ''/var/log/secure'']"

definition maxAuthLogBytes :: int where
  "maxAuthLogBytes = 8 * 1024 * 1024"

definition isSSHDLine :: "bytes \<Rightarrow> bool" where
  "isSSHDLine line \<longleftrightarrow> contains_sub line ''sshd['' \<or> contains_sub line ''sshd-session[''"

definition isSSHFailedLine :: "bytes \<Rightarrow> bool" where
  "isSSHFailedLine line \<longleftrightarrow>
     contains_sub line ''Failed '' \<or>
     contains_sub line ''[preauth]'' \<and> (contains_sub line ''Disconnected from '' \<or> contains_sub line ''Connection closed by '') \<or>
     contains_sub line ''kex_exchange_identification''"

definition auth_line :: "int \<times> int \<Rightarrow> bytes \<Rightarrow> int \<times> int" where
  "auth_line n line =
     (if \<not> isSSHDLine line then n
      else if contains_sub line ''Accepted '' then (fst n + 1, snd n)
      else if isSSHFailedLine line then (fst n, snd n + 1) else n)"

record auth_counts =
  ac_accepted :: int
  ac_failed :: int
  ac_found :: bool
  ac_truncated :: bool
  ac_err :: "bytes option"

text \<open>The open file has the size the path was found with; a seek on a regular file succeeds.\<close>

definition readAuthLogCounters :: "world \<Rightarrow> auth_counts" where
  "readAuthLogCounters w =
     (let none = \<lparr>ac_accepted = 0, ac_failed = 0, ac_found = False, ac_truncated = False, ac_err = None\<rparr>
      in case find (file_exists w) authLogPaths of
           None \<Rightarrow> none
         | Some path \<Rightarrow>
             (case wd_file w path of
                Inl e \<Rightarrow> none
              | Inr (content, rerr) \<Rightarrow>
                  (let size = (case wd_stat w path of Inr st \<Rightarrow> fi_Size st | Inl e \<Rightarrow> 0);
                       truncated = (maxAuthLogBytes < size);
                       inp = (if truncated then drop (nat (size - maxAuthLogBytes)) content else content);
                       (ls, err) = scan_reader path (inp, rerr);
                       (a, f) = foldl auth_line (0, 0) (if truncated then drop 1 ls else ls)
                   in \<lparr>ac_accepted = a, ac_failed = f, ac_found = (err = None), ac_truncated = truncated, ac_err = err\<rparr>)))"

definition Hour :: duration where
  "Hour = 3600 * Second"

definition shortDuration :: "duration \<Rightarrow> bytes" where
  "shortDuration d =
     (if 24 * Hour \<le> d then itoa (trunc_div d (24 * Hour)) @ ''d''
      else if Hour \<le> d then itoa (trunc_div d Hour) @ ''h''
      else itoa (trunc_div d Minute) @ ''m'')"

text \<open>The dash is the UTF-8 encoding of U+2014.\<close>

definition formatSshJournalTruncationWarning :: "world \<Rightarrow> int \<Rightarrow> bytes" where
  "formatSshJournalTruncationWarning w oldest =
     (let retained = max 0 (int64 (wd_now w div 10 ^ 9 - oldest))
      in ''ssh_logins: journal retains less than 24h '' @ [CHR 0xE2, CHR 0x80, CHR 0x94] @ '' oldest entry '' @ format_RFC3339 oldest @
         ''; last_24h counters reflect only ~'' @ shortDuration (int64 (retained * Second)) @
         '' of the 24h window (volatile journald or aggressive rotation)'')"

definition unavailable_logins :: SSHLogins where
  "unavailable_logins = \<lparr>sl_AcceptedRecent = None, sl_FailedRecent = None, sl_Window = sshWindowUnavailable\<rparr>"

definition journalCounters :: "(call_error \<Rightarrow> bytes) \<Rightarrow> world \<Rightarrow> security_calls \<Rightarrow> SSHLogins \<times> HelperOpError list \<times> bytes list" where
  "journalCounters texts w c =
     (let r = sq_ssh c OpSshJournalCounts []; (es, ws) = failed_op texts ''security'' OpSshJournalCounts r
      in case r of
           Inl e \<Rightarrow> (unavailable_logins, es, ws)
         | Inr jc \<Rightarrow>
             if \<not> sj_Present jc then (unavailable_logins, [], [])
             else (\<lparr>sl_AcceptedRecent = Some (sj_AcceptedLast24h jc), sl_FailedRecent = Some (sj_FailedLast24h jc), sl_Window = sshWindowLast24h\<rparr>, [],
                   if sj_Truncated jc \<and> 0 < sj_OldestEntryUnixS jc
                   then [formatSshJournalTruncationWarning w (sj_OldestEntryUnixS jc)] else []))"

definition ssh_block :: "(call_error \<Rightarrow> bytes) \<Rightarrow> world \<Rightarrow> security_calls \<Rightarrow> SSHLogins \<times> HelperOpError list \<times> bytes list" where
  "ssh_block texts w c =
     (let ac = readAuthLogCounters w;
          w1 = (case ac_err ac of
             None \<Rightarrow> [] | Some e \<Rightarrow> [''security: auth log read incomplete ('' @ e @ ''); falling back to journal counters'']);
          (j, es, w3) = journalCounters texts w c
      in if ac_found ac \<and> \<not> ac_truncated ac then
           (\<lparr>sl_AcceptedRecent = Some (ac_accepted ac), sl_FailedRecent = Some (ac_failed ac), sl_Window = sshWindowSinceLogRotation\<rparr>, [], w1)
         else if ac_found ac then
           (j, es, w1 @ [''security: auth log exceeded the read cap; counting from the journal instead, which covers a different window''] @ w3)
         else (j, es, w1 @ w3))"

subsection \<open>The handler\<close>

text \<open>The number of bans, and what the call of the op leaves behind; it is made for fail2ban alone.\<close>

definition ips_block :: "(call_error \<Rightarrow> bytes) \<Rightarrow> world \<Rightarrow> security_calls \<Rightarrow> IPS \<times> HelperOpError list \<times> bytes list" where
  "ips_block texts w c =
     (let backend = detectIPS w
      in if backend \<noteq> ''fail2ban'' then (\<lparr>ip_BackendInUse = backend, ip_CurrentBanCount = 0\<rparr>, [], [])
         else let r = sq_fail2ban c OpFail2banStatus []; (es, ws) = failed_op texts ''security'' OpFail2banStatus r;
                  n = (case r of Inr fb \<Rightarrow> if fb_Present fb then fb_TotalBanned fb else - 1 | Inl e \<Rightarrow> - 1)
              in (\<lparr>ip_BackendInUse = backend, ip_CurrentBanCount = n\<rparr>, es, ws))"

definition security_Handle ::
  "(call_error \<Rightarrow> bytes) \<Rightarrow> world \<Rightarrow> security_calls \<Rightarrow> security_Tool \<Rightarrow> bytes \<Rightarrow> security_Data handled" where
  "security_Handle texts w c t body =
     (let ra = sq_aide c OpReadAideSummary []; ru = sq_audit c OpReadAuditStatus [];
          (e1, w1) = failed_op texts ''security'' OpReadAideSummary ra;
          (e2, w2) = failed_op texts ''security'' OpReadAuditStatus ru;
          (ips, e3, w3) = ips_block texts w c;
          (aide, w4) = aide_block w (sk_aideLogPath t) (result_or zero_aide ra);
          (auditd, w5) = auditd_block w (result_or zero_audit ru);
          rr = sq_rkhunter c OpRkhunterSummary [];
          (e6, w6) = failed_op texts ''security'' OpRkhunterSummary rr;
          (rk, w7) = rkhunter_block w rr;
          (ds, e8, w8) = debsums_block texts w c (sk_debsumsLogPath t);
          (ssh, e9, w9) = ssh_block texts w c
      in Inr (\<lparr>se_Aide = aide, se_Auditd = auditd, se_Rkhunter = rk, se_Debsums = ds, se_IPS = ips, se_SSHLogins = ssh,
               se_Errors = e1 @ e2 @ e3 @ e6 @ e8 @ e9\<rparr>,
              w1 @ w2 @ w3 @ w4 @ w5 @ w6 @ w7 @ w8 @ w9))"

subsection \<open>Properties\<close>

lemma any_exists_from_iff: "fst (any_exists_from unc w ps) \<longleftrightarrow> list_ex (file_exists w) ps"
  by (induction unc w ps rule: any_exists_from.induct) (auto simp: file_exists_def split: sum.splits stat_error.splits)

lemma or_exists_iff: "fst (or_exists p w what ps) \<longleftrightarrow> p \<or> list_ex (file_exists w) ps"
  by (simp add: or_exists_def existsOrWarn_def anyExists_def any_exists_from_iff split_beta Let_def)

lemma fillAide_present: "ai_Present (fst (fillAideFromLog w path d)) = ai_Present d"
  by (simp add: fillAideFromLog_def Let_def split_beta split: sum.splits option.splits)

lemma fillDebsums_present: "ds_Present (fst (fillDebsums texts w c path d)) = ds_Present d"
  by (simp add: fillDebsums_def Let_def split_beta split: sum.splits)

lemma blocks_present:
  "ai_Present (fst (aide_block w path a)) \<longleftrightarrow> ai_Present a \<or> list_ex (file_exists w) [''/usr/bin/aide'', ''/usr/sbin/aide'']"
  "aud_Present (fst (auditd_block w u)) \<longleftrightarrow> ad_Present u \<or> list_ex (file_exists w) auditd_paths"
  "rk_Present (fst (rkhunter_block w r)) \<longleftrightarrow> rk_Present (result_or zero_rkhunter r) \<or> list_ex (file_exists w) [''/usr/bin/rkhunter'', ''/usr/sbin/rkhunter'']"
  "ds_Present (fst (debsums_block texts w c path)) \<longleftrightarrow> file_exists w ''/usr/bin/debsums''"
proof -
  show "ai_Present (fst (aide_block w path a)) \<longleftrightarrow> ai_Present a \<or> list_ex (file_exists w) [''/usr/bin/aide'', ''/usr/sbin/aide'']"
    unfolding aide_block_def Let_def split_beta fst_conv by (simp add: fillAide_present or_exists_iff)
  show "aud_Present (fst (auditd_block w u)) \<longleftrightarrow> ad_Present u \<or> list_ex (file_exists w) auditd_paths"
    unfolding auditd_block_def Let_def split_beta fst_conv by (simp add: or_exists_iff)
  show "rk_Present (fst (rkhunter_block w r)) \<longleftrightarrow> rk_Present (result_or zero_rkhunter r) \<or> list_ex (file_exists w) [''/usr/bin/rkhunter'', ''/usr/sbin/rkhunter'']"
    unfolding rkhunter_block_def Let_def split_beta fst_conv by (simp add: or_exists_iff)
  have "fst (existsOrWarn w ''debsums'' [''/usr/bin/debsums'']) \<longleftrightarrow> file_exists w ''/usr/bin/debsums''"
    using or_exists_iff [of False w "''debsums''"] by (simp add: or_exists_def)
  then show "ds_Present (fst (debsums_block texts w c path)) \<longleftrightarrow> file_exists w ''/usr/bin/debsums''"
    unfolding debsums_block_def Let_def split_beta by (simp add: fillDebsums_present)
qed

lemma foldl_auth_line:
  "foldl auth_line n ls =
     (fst n + int (length (filter (\<lambda>l. isSSHDLine l \<and> contains_sub l ''Accepted '') ls)),
      snd n + int (length (filter (\<lambda>l. isSSHDLine l \<and> \<not> contains_sub l ''Accepted '' \<and> isSSHFailedLine l) ls)))"
  by (induction ls arbitrary: n) (auto simp: auth_line_def)

text \<open>The lines of the first log there is, if it can be opened, is not too long and was read to its end.\<close>

definition whole_auth_log :: "world \<Rightarrow> bytes list option" where
  "whole_auth_log w =
     (case find (file_exists w) authLogPaths of
        None \<Rightarrow> None
      | Some path \<Rightarrow>
          (case (wd_stat w path, wd_file w path) of
             (Inr st, Inr rd) \<Rightarrow>
               (case scan_reader path rd of
                  (ls, None) \<Rightarrow> if fi_Size st \<le> 8 * 1024 * 1024 then Some ls else None
                | (ls, Some e) \<Rightarrow> None)
           | _ \<Rightarrow> None))"

definition journal_logins :: "call_error + SshJournalCountsResult \<Rightarrow> SSHLogins" where
  "journal_logins r =
     (case r of
        Inl e \<Rightarrow> \<lparr>sl_AcceptedRecent = None, sl_FailedRecent = None, sl_Window = ''unavailable''\<rparr>
      | Inr jc \<Rightarrow>
          if sj_Present jc
          then \<lparr>sl_AcceptedRecent = Some (sj_AcceptedLast24h jc), sl_FailedRecent = Some (sj_FailedLast24h jc), sl_Window = ''last_24h''\<rparr>
          else \<lparr>sl_AcceptedRecent = None, sl_FailedRecent = None, sl_Window = ''unavailable''\<rparr>)"

lemma journal_logins: "fst (journalCounters texts w c) = journal_logins (sq_ssh c OpSshJournalCounts [])"
  by (simp add: journalCounters_def journal_logins_def unavailable_logins_def ssh_window_defs Let_def split_beta split: sum.split)

lemma file_exists_Inr: "file_exists w p \<Longrightarrow> \<exists>st. wd_stat w p = Inr st"
  by (simp add: file_exists_def split: sum.splits)

lemma auth_log_whole:
  "ac_found (readAuthLogCounters w) \<and> \<not> ac_truncated (readAuthLogCounters w) \<longleftrightarrow> whole_auth_log w \<noteq> None"
  "whole_auth_log w = Some ls \<Longrightarrow> ac_accepted (readAuthLogCounters w) = fst (foldl auth_line (0, 0) ls)"
  "whole_auth_log w = Some ls \<Longrightarrow> ac_failed (readAuthLogCounters w) = snd (foldl auth_line (0, 0) ls)"
proof -
  have "(ac_found (readAuthLogCounters w) \<and> \<not> ac_truncated (readAuthLogCounters w) \<longleftrightarrow> whole_auth_log w \<noteq> None) \<and>
    (whole_auth_log w = Some ls \<longrightarrow> ac_accepted (readAuthLogCounters w) = fst (foldl auth_line (0, 0) ls) \<and>
       ac_failed (readAuthLogCounters w) = snd (foldl auth_line (0, 0) ls))" for ls
  proof (cases "find (file_exists w) authLogPaths")
    case None
    then show ?thesis by (simp add: readAuthLogCounters_def whole_auth_log_def Let_def)
  next
    case (Some path)
    then have "file_exists w path" by (metis find_Some_iff)
    then obtain st where st: "wd_stat w path = Inr st" using file_exists_Inr by blast
    show ?thesis
    proof (cases "wd_file w path")
      case (Inl e)
      then show ?thesis using Some st by (simp add: readAuthLogCounters_def whole_auth_log_def Let_def)
    next
      case (Inr rd)
      obtain content rerr where rd: "rd = (content, rerr)" by (cases rd)
      show ?thesis
        using Some st Inr rd
        by (cases "scan_reader path (content, rerr)"; cases "snd (scan_reader path (content, rerr))")
          (auto simp: readAuthLogCounters_def whole_auth_log_def maxAuthLogBytes_def Let_def split_beta not_less)
    qed
  qed
  then show "ac_found (readAuthLogCounters w) \<and> \<not> ac_truncated (readAuthLogCounters w) \<longleftrightarrow> whole_auth_log w \<noteq> None"
    "whole_auth_log w = Some ls \<Longrightarrow> ac_accepted (readAuthLogCounters w) = fst (foldl auth_line (0, 0) ls)"
    "whole_auth_log w = Some ls \<Longrightarrow> ac_failed (readAuthLogCounters w) = snd (foldl auth_line (0, 0) ls)" by auto
qed

lemma ssh_block_value:
  "fst (ssh_block texts w c) =
     (case whole_auth_log w of
        Some ls \<Rightarrow>
          \<lparr>sl_AcceptedRecent = Some (int (length (filter (\<lambda>l. isSSHDLine l \<and> contains_sub l ''Accepted '') ls))),
           sl_FailedRecent = Some (int (length (filter (\<lambda>l. isSSHDLine l \<and> \<not> contains_sub l ''Accepted '' \<and> isSSHFailedLine l) ls))),
           sl_Window = ''since_log_rotation''\<rparr>
      | None \<Rightarrow> journal_logins (sq_ssh c OpSshJournalCounts []))"
proof (cases "whole_auth_log w")
  case None
  then have "\<not> (ac_found (readAuthLogCounters w) \<and> \<not> ac_truncated (readAuthLogCounters w))" using auth_log_whole(1) by blast
  then show ?thesis using None journal_logins [of texts w c] by (auto simp: ssh_block_def Let_def split_beta)
next
  case (Some ls)
  then have "ac_found (readAuthLogCounters w) \<and> \<not> ac_truncated (readAuthLogCounters w)" using auth_log_whole(1) by blast
  then show ?thesis
    using Some auth_log_whole(2,3) [OF Some] by (simp add: ssh_block_def foldl_auth_line ssh_window_defs Let_def split_beta)
qed

text \<open>
  C39: What the security tool asserts is backed by what it saw. A checker is reported as installed
  exactly when its op said so or one of its binaries was found, so that neither a failed op nor a
  path that cannot be examined counts as one; and the counts of SSH logins always carry the window
  they were taken from: the log since its rotation only when all of it, at most eight megabytes, was
  read, otherwise the journal of the last day, and no number at all when neither can be read.
\<close>

theorem security_claims_backed:
  "\<exists>d ws. security_Handle texts w c t body = Inr (d, ws) \<and>
     (ai_Present (se_Aide d) \<longleftrightarrow> ai_Present (result_or zero_aide (sq_aide c OpReadAideSummary [])) \<or>
        list_ex (file_exists w) [''/usr/bin/aide'', ''/usr/sbin/aide'']) \<and>
     (aud_Present (se_Auditd d) \<longleftrightarrow> ad_Present (result_or zero_audit (sq_audit c OpReadAuditStatus [])) \<or>
        list_ex (file_exists w) [''/sbin/auditd'', ''/usr/sbin/auditd'']) \<and>
     (rk_Present (se_Rkhunter d) \<longleftrightarrow> rk_Present (result_or zero_rkhunter (sq_rkhunter c OpRkhunterSummary [])) \<or>
        list_ex (file_exists w) [''/usr/bin/rkhunter'', ''/usr/sbin/rkhunter'']) \<and>
     (ds_Present (se_Debsums d) \<longleftrightarrow> file_exists w ''/usr/bin/debsums'') \<and>
     se_SSHLogins d =
       (case whole_auth_log w of
          Some ls \<Rightarrow>
            \<lparr>sl_AcceptedRecent = Some (int (length (filter (\<lambda>l. isSSHDLine l \<and> contains_sub l ''Accepted '') ls))),
             sl_FailedRecent = Some (int (length (filter (\<lambda>l. isSSHDLine l \<and> \<not> contains_sub l ''Accepted '' \<and> isSSHFailedLine l) ls))),
             sl_Window = ''since_log_rotation''\<rparr>
        | None \<Rightarrow> journal_logins (sq_ssh c OpSshJournalCounts []))"
  unfolding security_Handle_def Let_def split_beta
  by (intro exI conjI, rule refl)
    (simp_all only: security_Data.simps blocks_present auditd_paths_def ssh_block_value)

text \<open>
  When the audit op fails, its zero value is taken for the answer that the kernel has no audit
  subsystem, and this is announced next to the error.
\<close>

lemma audit_failure_misdiagnosed:
  assumes "sq_audit c OpReadAuditStatus [] = Inl e" and "file_exists w ''/sbin/auditd''"
  shows "\<exists>d ws. security_Handle texts w c t body = Inr (d, ws) \<and> no_audit_subsystem \<in> set ws"
proof -
  have "fst (anyExists w auditd_paths)" using assms(2) unfolding anyExists_def any_exists_from_iff by (simp add: auditd_paths_def)
  then have "no_audit_subsystem \<in> set (snd (auditd_block w zero_audit))" by (simp add: auditd_block_def zero_audit_def Let_def split_beta)
  then show ?thesis unfolding security_Handle_def Let_def split_beta by (simp add: assms(1) result_or_def)
qed

text \<open>The name a client gives at a failed login can make the line count as an accepted one.\<close>

lemma failed_login_counted_accepted:
  "auth_line (a, f) ''Jan  1 00:00:00 h sshd[7]: Failed password for invalid user Accepted from 192.0.2.1 port 4 ssh2'' = (a + 1, f)"
  by (simp add: auth_line_def isSSHDLine_def)

text \<open>A file that debsums found intact counts as modified.\<close>

lemma debsums_ok_counted: "debsums_changed ''/usr/bin/ls                OK''"
  by code_simp

text \<open>The totals of another log stay when the configured one reports differences without totals.\<close>

lemma aide_stale_count_kept:
  assumes "wd_stat w p = Inr info" and "wd_file w p = Inr (''AIDE found differences between database and filesystem!!'', None)"
  shows "fst (fillAideFromLog w p d) = d\<lparr>ai_LastRunTS := Some (fi_ModTime info), ai_LastExitCode := Some 1\<rparr>"
proof -
  let ?l = "''AIDE found differences between database and filesystem!!''"
  have "scan_with p (concat (map (\<lambda>l. l @ [CHR 0x0A]) []) @ ?l) = ([?l], None)"
    by (subst scan_with_spec) (simp_all add: MaxLine_def drop_cr_def)
  then have s: "scan_reader p (?l, None) = ([?l], None)" by (simp add: scan_with_def scan_reader_def)
  have "aide_scan_lines [?l] = \<lparr>as_cnt = None, as_added = 0, as_removed = 0, as_changed = 0, as_haveDetail = False, as_foundDiff = True, as_foundNoDiff = False\<rparr>"
    by code_simp
  then show ?thesis by (simp add: fillAideFromLog_def assms s Let_def aide_detail_def)
qed

end
