(* ===== verification/ToolUnits.thy ===== *)
theory ToolUnits
  imports ToolBase
begin

text \<open>
  \<^verbatim>\<open>tools/systemd_units/systemd_units.go\<close>, \<^verbatim>\<open>tools/certs/certs.go\<close> and \<^verbatim>\<open>tools/manifest/manifest.go\<close>. The replies of systemd
  on the bus (\<^verbatim>\<open>coreos/go-systemd\<close>) and the parsing of certificates are arguments.
\<close>

subsection \<open>Units\<close>

record UnitStatus =
  us_Name :: bytes
  us_LoadState :: bytes
  us_ActiveState :: bytes
  us_SubState :: bytes

record sd_unit =
  un_Name :: bytes
  un_LoadState :: bytes
  un_ActiveState :: bytes
  un_SubState :: bytes
  un_Result :: bytes
  un_ExecMainStatus :: int
  un_ActiveEnterTS :: "time option"
  un_ActiveExitTS :: "time option"
  un_RestartCount :: int

record units_Data =
  ud_Units :: "sd_unit list"
  ud_PatternUnits :: "sd_unit list"

text \<open>A property on the bus, by its type.\<close>

datatype dbus_value = DStr bytes | DInt32 "32 word" | DUint32 "32 word" | DUint64 "64 word" | DOther

text \<open>
  The connection: units by name, units by pattern, the properties of a unit's service interface and
  of the unit itself; an error is given by its text.
\<close>

record bus =
  bus_names :: "bytes list \<Rightarrow> bytes + UnitStatus list"
  bus_patterns :: "bytes list \<Rightarrow> bytes + UnitStatus list"
  bus_service :: "bytes \<Rightarrow> bytes + (bytes \<rightharpoonup> dbus_value)"
  bus_unit :: "bytes \<Rightarrow> bytes + (bytes \<rightharpoonup> dbus_value)"

definition maxPatternUnits :: nat where
  "maxPatternUnits = 100"

definition sortUnits :: "UnitStatus list \<Rightarrow> UnitStatus list" where
  "sortUnits units = sort_key us_Name units"

definition excludeNamed :: "UnitStatus list \<Rightarrow> UnitStatus list \<Rightarrow> UnitStatus list" where
  "excludeNamed matched exact = filter (\<lambda>u. us_Name u \<notin> set (map us_Name exact)) matched"

definition capUnits :: "UnitStatus list \<Rightarrow> nat \<Rightarrow> UnitStatus list \<times> nat" where
  "capUnits units m = (if length units \<le> m then (units, 0) else (take m units, length units - m))"

definition plan :: "UnitStatus list \<Rightarrow> UnitStatus list \<Rightarrow> UnitStatus list \<times> UnitStatus list \<times> bytes list" where
  "plan named matched =
     (let (pattern, dropped) = capUnits (sortUnits (excludeNamed matched named)) maxPatternUnits
      in (named, pattern,
          if 0 < dropped then
            [''systemd_units: whitelisted_unit_patterns matched '' @ itoa (int (length pattern + dropped)) @
             '' units beyond those named exactly, capped at '' @ itoa (int maxPatternUnits) @ ''; narrow the patterns'']
          else []))"

text \<open>\<^verbatim>\<open>time.UnixMicro(int64(v))\<close> of a property that is present, of the right type and not zero.\<close>

definition timestamp_of :: "dbus_value option \<Rightarrow> time option" where
  "timestamp_of v = (case v of Some (DUint64 n) \<Rightarrow> if 0 < n then Some (sint n * 1000) else None | _ \<Rightarrow> None)"

definition collect_unit :: "bus \<Rightarrow> UnitStatus \<Rightarrow> sd_unit" where
  "collect_unit b u =
     (let sp = (case bus_service b (us_Name u) of Inl e \<Rightarrow> Map.empty | Inr m \<Rightarrow> m);
          up = (case bus_unit b (us_Name u) of Inl e \<Rightarrow> Map.empty | Inr m \<Rightarrow> m)
      in \<lparr>un_Name = us_Name u, un_LoadState = us_LoadState u, un_ActiveState = us_ActiveState u, un_SubState = us_SubState u,
          un_Result = (case sp ''Result'' of Some (DStr s) \<Rightarrow> s | _ \<Rightarrow> []),
          un_ExecMainStatus = (case sp ''ExecMainStatus'' of Some (DInt32 n) \<Rightarrow> sint n | _ \<Rightarrow> 0),
          un_ActiveEnterTS = timestamp_of (up ''ActiveEnterTimestamp''),
          un_ActiveExitTS = timestamp_of (up ''ActiveExitTimestamp''),
          un_RestartCount = (case sp ''NRestarts'' of Some (DUint32 n) \<Rightarrow> uint n | _ \<Rightarrow> 0)\<rparr>)"

definition collect :: "bus \<Rightarrow> UnitStatus list \<Rightarrow> sd_unit list" where
  "collect b listed = map (collect_unit b) listed"

record units_Tool =
  ut_whitelisted :: "bytes list"
  ut_patterns :: "bytes list"

definition units_Handle :: "bytes + bus \<Rightarrow> units_Tool \<Rightarrow> bytes \<Rightarrow> units_Data handled" where
  "units_Handle connect t body =
     (if ut_whitelisted t = [] \<and> ut_patterns t = [] then Inr (\<lparr>ud_Units = [], ud_PatternUnits = []\<rparr>, [])
      else case connect of
        Inl e \<Rightarrow> Inl (ToolOther (''dbus: '' @ e))
      | Inr b \<Rightarrow>
          (case (if ut_whitelisted t = [] then Inr [] else bus_names b (ut_whitelisted t)) of
             Inl e \<Rightarrow> Inl (ToolOther (''dbus list: '' @ e))
           | Inr named \<Rightarrow>
               (case (if ut_patterns t = [] then Inr [] else bus_patterns b (ut_patterns t)) of
                  Inl e \<Rightarrow> Inl (ToolOther (''dbus list by patterns: '' @ e))
                | Inr matched \<Rightarrow>
                    (let (exact, pattern, warnings) = plan named matched
                     in Inr (\<lparr>ud_Units = collect b exact, ud_PatternUnits = collect b pattern\<rparr>, warnings)))))"

subsection \<open>Certificates\<close>

record parsed_cert =
  pc_Subject :: bytes
  pc_Issuer :: bytes
  pc_NotAfter :: time

record CertEntry =
  ce_Path :: bytes
  ce_Subject :: bytes
  ce_Issuer :: bytes
  ce_NotAfter :: time
  ce_DaysRemaining :: int
  ce_RenewalUnit :: "bytes option"

text \<open>\<^verbatim>\<open>Time.Sub\<close> stops at the ends of the range of a duration.\<close>

definition time_Sub :: "time \<Rightarrow> time \<Rightarrow> duration" where
  "time_Sub a b = max (- (2 ^ 63)) (min (2 ^ 63 - 1) (a - b))"

text \<open>\<^verbatim>\<open>int(d.Hours() / 24)\<close>, with the division of floating-point numbers taken as exact.\<close>

definition whole_days :: "duration \<Rightarrow> int" where
  "whole_days d = (let day = 24 * 3600 * Second in if d < 0 then - (- d div day) else d div day)"

text \<open>\<open>pem\<close> and \<open>x509\<close> stand for \<^verbatim>\<open>pem.Decode\<close> and \<^verbatim>\<open>x509.ParseCertificate\<close>.\<close>

definition parseCertPath ::
  "(bytes \<Rightarrow> bytes option) \<Rightarrow> (bytes \<Rightarrow> bytes + parsed_cert) \<Rightarrow> world \<Rightarrow> bytes \<Rightarrow> time \<Rightarrow> bytes + CertEntry" where
  "parseCertPath pem x509 w path now =
     (case ReadFile w path of
        Inl e \<Rightarrow> Inl (stat_text e)
      | Inr b \<Rightarrow>
          (case pem b of
             None \<Rightarrow> Inl ''not PEM''
           | Some block \<Rightarrow>
               (case x509 block of
                  Inl e \<Rightarrow> Inl e
                | Inr cert \<Rightarrow>
                    Inr \<lparr>ce_Path = path, ce_Subject = pc_Subject cert, ce_Issuer = pc_Issuer cert, ce_NotAfter = pc_NotAfter cert,
                         ce_DaysRemaining = whole_days (time_Sub (pc_NotAfter cert) now), ce_RenewalUnit = None\<rparr>)))"

record certs_Tool =
  ct_paths :: "bytes list"
  ct_renewalUnit :: "bytes list"

text \<open>The renewal units are as many as the paths: cut off, or filled up with empty strings.\<close>

definition NewCerts :: "bytes list \<Rightarrow> bytes list \<Rightarrow> certs_Tool" where
  "NewCerts paths renewalUnits =
     \<lparr>ct_paths = paths, ct_renewalUnit = take (length paths) renewalUnits @ replicate (length paths - length renewalUnits) []\<rparr>"

definition cert_entry ::
  "(bytes \<Rightarrow> bytes option) \<Rightarrow> (bytes \<Rightarrow> bytes + parsed_cert) \<Rightarrow> world \<Rightarrow> certs_Tool \<Rightarrow> nat \<Rightarrow> bytes + CertEntry" where
  "cert_entry pem x509 w t i =
     (case parseCertPath pem x509 w (ct_paths t ! i) (wd_now w) of
        Inl e \<Rightarrow> Inl (''certs: '' @ ct_paths t ! i @ '': '' @ e)
      | Inr entry \<Rightarrow>
          Inr (if i < length (ct_renewalUnit t) \<and> ct_renewalUnit t ! i \<noteq> []
               then entry\<lparr>ce_RenewalUnit := Some (ct_renewalUnit t ! i)\<rparr> else entry))"

definition certs_Handle ::
  "(bytes \<Rightarrow> bytes option) \<Rightarrow> (bytes \<Rightarrow> bytes + parsed_cert) \<Rightarrow> world \<Rightarrow> certs_Tool \<Rightarrow> bytes \<Rightarrow> CertEntry list handled" where
  "certs_Handle pem x509 w t body =
     (let rs = map (cert_entry pem x509 w t) [0..<length (ct_paths t)]
      in Inr (concat (map (\<lambda>r. case r of Inr e \<Rightarrow> [e] | Inl m \<Rightarrow> []) rs), concat (map (\<lambda>r. case r of Inr e \<Rightarrow> [] | Inl m \<Rightarrow> [m]) rs)))"

subsection \<open>The manifest\<close>

record Snapshot =
  sp_DaemonVersion :: bytes
  sp_BuildID :: bytes
  sp_StartedAt :: time
  sp_EnabledTools :: "bytes list"
  sp_EnabledWorkloadPlugins :: "bytes list"
  sp_WhitelistedUnits :: "bytes list"
  sp_WhitelistedUnitPatterns :: "bytes list"

record manifest_Data = Snapshot +
  mn_SchemaVersion :: bytes

text \<open>The nil slices that \<^verbatim>\<open>New\<close> replaces by empty ones are the empty list here.\<close>

definition manifest_Handle :: "Snapshot \<Rightarrow> bytes \<Rightarrow> manifest_Data handled" where
  "manifest_Handle snap body = Inr (Snapshot.extend snap (manifest_Data.fields SchemaVersion), [])"

subsection \<open>Properties\<close>

text \<open>What the two selectors share is listed once, and no unit of the pattern selector is lost below the cap.\<close>

lemma plan_disjoint:
  assumes "plan named matched = (exact, pattern, ws)"
  shows "exact = named" and "set (map us_Name pattern) \<inter> set (map us_Name named) = {}" and "length pattern \<le> 100"
    and "sorted (map us_Name pattern)"
    and "ws = [] \<Longrightarrow> set pattern = {u \<in> set matched. us_Name u \<notin> set (map us_Name named)}"
proof -
  let ?s = "sortUnits (excludeNamed matched named)"
  have p: "exact = named" "pattern = take 100 ?s"
    using assms by (auto simp: plan_def capUnits_def maxPatternUnits_def split: if_splits)
  have s: "set ?s = {u \<in> set matched. us_Name u \<notin> set (map us_Name named)}" by (auto simp: sortUnits_def excludeNamed_def)
  show "exact = named" by (rule p)
  show "set (map us_Name pattern) \<inter> set (map us_Name named) = {}" using p(2) s by (auto dest!: in_set_takeD)
  show "length pattern \<le> 100" using p(2) by simp
  have "sorted (map us_Name ?s)" by (simp add: sortUnits_def)
  then show "sorted (map us_Name pattern)" using p(2) by (simp add: take_map [symmetric] sorted_wrt_take)
  show "set pattern = {u \<in> set matched. us_Name u \<notin> set (map us_Name named)}" if "ws = []"
  proof -
    have "length ?s \<le> 100" using assms that by (auto simp: plan_def capUnits_def maxPatternUnits_def split: if_splits)
    then show ?thesis using p(2) s by simp
  qed
qed

text \<open>A certificate that ran out less than a day ago has as many days left as one that runs out within a day.\<close>

lemma expired_today_zero: "- (24 * 3600 * Second) < d \<Longrightarrow> d < 24 * 3600 * Second \<Longrightarrow> whole_days d = 0"
  by (auto simp: whole_days_def Let_def)

text \<open>Every path of the manifest is either listed or warned about.\<close>

lemma certs_complete:
  assumes "certs_Handle pem x509 w t body = Inr (es, ws)"
  shows "length es + length ws = length (ct_paths t)"
proof -
  have "length (concat (map (\<lambda>r. case r of Inr e \<Rightarrow> [e] | Inl m \<Rightarrow> []) rs)) + length (concat (map (\<lambda>r. case r of Inr e \<Rightarrow> [] | Inl m \<Rightarrow> [m]) rs)) = length rs"
    for rs :: "(bytes + CertEntry) list" by (induction rs) (auto split: sum.splits)
  from this [of "map (cert_entry pem x509 w t) [0..<length (ct_paths t)]"] show ?thesis using assms by (auto simp: certs_Handle_def Let_def)
qed

end
