(* ===== verification/ToolWorkload.thy ===== *)
theory ToolWorkload
  imports ToolBase OpsMail OpsWeb OpsWireguard JsonCodec
begin

text \<open>
  \<^verbatim>\<open>tools/workload\<close>: the registry of the plugins that are compiled in, the tool that runs those of the
  manifest, and the four plugins. A plugin gets the call of the helper as an argument.
\<close>

subsection \<open>The plugins\<close>

text \<open>The typed sub-object of a plugin, as it goes into the response.\<close>

datatype workload_result =
    WlDovecot bytes int
  | WlNginxApache bytes int "int option" "int option" int bytes
  | WlPostfix int int
  | WlWireguard WireguardShowResult

text \<open>The calls of the ops the plugins use, with the parameter.\<close>

record workload_calls =
  wc_dovecot :: "bytes \<Rightarrow> bytes \<Rightarrow> call_error + DovecotStatusResult"
  wc_nginx :: "bytes \<Rightarrow> bytes \<Rightarrow> call_error + NginxApacheStatusResult"
  wc_postqueue :: "bytes \<Rightarrow> bytes \<Rightarrow> call_error + PostqueueResult"
  wc_wireguard :: "bytes \<Rightarrow> bytes \<Rightarrow> call_error + WireguardShowResult"

datatype plugin_error = PluginCall call_error | PluginOther bytes

type_synonym plugin_cfg = "bytes \<Rightarrow> bytes"

type_synonym plugin_result = "plugin_error + workload_result \<times> bytes list"

record workload_Plugin =
  pl_Name :: bytes
  pl_Collect :: "workload_calls \<Rightarrow> plugin_cfg \<Rightarrow> plugin_result"

definition nonempty :: "bytes \<Rightarrow> bytes list" where
  "nonempty w = (if w \<noteq> [] then [w] else [])"

definition dovecot_Collect :: "workload_calls \<Rightarrow> plugin_cfg \<Rightarrow> plugin_result" where
  "dovecot_Collect c cfg =
     (case wc_dovecot c OpDovecotStatus [] of
        Inl e \<Rightarrow> Inl (PluginCall e)
      | Inr st \<Rightarrow> Inr (WlDovecot (dv_ProcessState st) (dv_ConnectionCount st), nonempty (dv_Warning st)))"

definition enc_nginx_param :: "NginxApacheStatusParam \<Rightarrow> json" where
  "enc_nginx_param p = JObj
     (field ''access_log_path'' (JStr (np_AccessLogPath p)) @
      field ''access_log_window_minutes'' (json_int (np_AccessLogWindowMin p)) @
      field ''access_log_tail_bytes'' (json_int (np_AccessLogTailBytes p)))"

definition plugin_maxAccessLogTailBytes :: int where
  "plugin_maxAccessLogTailBytes = 4 * 1024 * 1024"

text \<open>The parameter the configuration gives, or the text of the error; \<open>quote\<close> is the verb \<^verbatim>\<open>%q\<close>.\<close>

definition nginx_window :: "(bytes \<Rightarrow> bytes) \<Rightarrow> bytes \<Rightarrow> bytes + int" where
  "nginx_window quote s =
     (if s = [] then Inr 0
      else let bad = Inl (''nginx_apache: access_log_window_minutes: '' @ quote s @ '' must be an integer in 1..1440'')
      in case atoi s of None \<Rightarrow> bad | Some v \<Rightarrow> if v < 1 \<or> 1440 < v then bad else Inr v)"

definition nginx_tail_bytes :: "(bytes \<Rightarrow> bytes) \<Rightarrow> bytes \<Rightarrow> bytes + int" where
  "nginx_tail_bytes quote s =
     (if s = [] then Inr 0
      else let bad = Inl (''nginx_apache: access_log_tail_bytes: '' @ quote s @ '' is not a non-negative integer'')
      in case atoi s of
           None \<Rightarrow> bad
         | Some v \<Rightarrow>
             if v < 0 then bad
             else if plugin_maxAccessLogTailBytes < v then
               Inl (''nginx_apache: access_log_tail_bytes '' @ itoa v @ '' exceeds the '' @ itoa plugin_maxAccessLogTailBytes @ ''-byte maximum'')
             else Inr v)"

definition nginx_param :: "(bytes \<Rightarrow> bytes) \<Rightarrow> plugin_cfg \<Rightarrow> bytes + NginxApacheStatusParam" where
  "nginx_param quote cfg =
     (case nginx_window quote (cfg ''access_log_window_minutes'') of
        Inl e \<Rightarrow> Inl e
      | Inr win \<Rightarrow>
          (case nginx_tail_bytes quote (cfg ''access_log_tail_bytes'') of
             Inl e \<Rightarrow> Inl e
           | Inr tail \<Rightarrow>
               Inr \<lparr>np_AccessLogPath = cfg ''access_log_path'', np_AccessLogWindowMin = win, np_AccessLogTailBytes = tail\<rparr>))"

definition nginx_Collect :: "(bytes \<Rightarrow> bytes) \<Rightarrow> workload_calls \<Rightarrow> plugin_cfg \<Rightarrow> plugin_result" where
  "nginx_Collect quote c cfg =
     (case nginx_param quote cfg of
        Inl e \<Rightarrow> Inl (PluginOther e)
      | Inr param \<Rightarrow>
          (case wc_nginx c OpNginxApacheStatus (marshal_json (enc_nginx_param param)) of
             Inl e \<Rightarrow> Inl (PluginCall e)
           | Inr st \<Rightarrow>
               Inr (WlNginxApache (ng_Server st) (ng_WorkerCount st) (ng_Recent4xx st) (ng_Recent5xx st)
                      (ng_RecentWindowMinutes st) (ng_RecentCoverage st), nonempty (ng_Warning st))))"

definition postfix_Collect :: "workload_calls \<Rightarrow> plugin_cfg \<Rightarrow> plugin_result" where
  "postfix_Collect c cfg =
     (case wc_postqueue c OpPostqueue [] of
        Inl e \<Rightarrow> Inl (PluginCall e)
      | Inr pq \<Rightarrow>
          if pq_QueueDepth pq < 0 then Inl (PluginOther ''postqueue returned negative depth'')
          else if pq_DeferredCount pq < 0 then Inl (PluginOther ''postqueue returned negative deferred count'')
          else if pq_QueueDepth pq < pq_DeferredCount pq then
            Inr (WlPostfix (pq_QueueDepth pq) (pq_QueueDepth pq),
                 [''deferred_count > queue_depth (postqueue reported '' @ itoa (pq_DeferredCount pq) @ '' > '' @
                  itoa (pq_QueueDepth pq) @ ''); clamping''])
          else Inr (WlPostfix (pq_QueueDepth pq) (pq_DeferredCount pq), []))"

definition wireguard_Collect :: "workload_calls \<Rightarrow> plugin_cfg \<Rightarrow> plugin_result" where
  "wireguard_Collect c cfg =
     (case wc_wireguard c OpWireguardShow [] of Inl e \<Rightarrow> Inl (PluginCall e) | Inr r \<Rightarrow> Inr (WlWireguard r, []))"

subsection \<open>The registry\<close>

type_synonym plugin_registry = "workload_Plugin list"

definition workload_Register :: "plugin_registry \<Rightarrow> workload_Plugin \<Rightarrow> plugin_registry go" where
  "workload_Register reg p =
     (if pl_Name p \<in> set (map pl_Name reg) then Panic (''workload: duplicate plugin: '' @ pl_Name p) else Ret (reg @ [p]))"

definition workload_Lookup :: "plugin_registry \<Rightarrow> bytes \<Rightarrow> workload_Plugin option" where
  "workload_Lookup reg name = find (\<lambda>p. pl_Name p = name) reg"

definition CompiledIn :: "plugin_registry \<Rightarrow> bytes list" where
  "CompiledIn reg = map pl_Name reg"

text \<open>The plugins of the four files, each compiled in under a build tag of its own.\<close>

definition dovecotPlugin :: workload_Plugin where
  "dovecotPlugin = \<lparr>pl_Name = ''dovecot'', pl_Collect = dovecot_Collect\<rparr>"

definition nginxApachePlugin :: "(bytes \<Rightarrow> bytes) \<Rightarrow> workload_Plugin" where
  "nginxApachePlugin quote = \<lparr>pl_Name = ''nginx_apache'', pl_Collect = nginx_Collect quote\<rparr>"

definition postfixPlugin :: workload_Plugin where
  "postfixPlugin = \<lparr>pl_Name = ''postfix'', pl_Collect = postfix_Collect\<rparr>"

definition wireguardPlugin :: workload_Plugin where
  "wireguardPlugin = \<lparr>pl_Name = ''wireguard'', pl_Collect = wireguard_Collect\<rparr>"

subsection \<open>The tool\<close>

definition NewWorkload :: "bytes list \<Rightarrow> bytes list" where
  "NewWorkload enabled = sort enabled"

text \<open>\<^verbatim>\<open>err.Error()\<close> of a failed call.\<close>

definition call_text :: "(call_error \<Rightarrow> bytes) \<Rightarrow> call_error \<Rightarrow> bytes" where
  "call_text texts e = (case e of HelperErr he \<Rightarrow> HelperError_Error he | _ \<Rightarrow> texts e)"

text \<open>One plugin: what it adds to the data, and the warnings.\<close>

definition run_plugin ::
  "(call_error \<Rightarrow> bytes) \<Rightarrow> plugin_registry \<Rightarrow> workload_calls \<Rightarrow> (bytes \<Rightarrow> plugin_cfg) \<Rightarrow> bytes \<Rightarrow> workload_result option \<times> bytes list" where
  "run_plugin texts reg c cfg name =
     (case workload_Lookup reg name of
        None \<Rightarrow> (None, [''workload: plugin not compiled in: '' @ name])
      | Some p \<Rightarrow>
          (case pl_Collect p c (cfg name) of
             Inl (PluginCall e) \<Rightarrow> (None, [''workload: '' @ name @ '': '' @ call_text texts e])
           | Inl (PluginOther m) \<Rightarrow> (None, [''workload: '' @ name @ '': '' @ m])
           | Inr (result, pwarns) \<Rightarrow> (Some result, map (\<lambda>w. ''workload: '' @ name @ '': '' @ w) pwarns)))"

definition workload_Handle ::
  "(call_error \<Rightarrow> bytes) \<Rightarrow> plugin_registry \<Rightarrow> workload_calls \<Rightarrow> (bytes \<Rightarrow> plugin_cfg) \<Rightarrow> bytes list \<Rightarrow> bytes \<Rightarrow>
   (bytes \<rightharpoonup> workload_result) handled" where
  "workload_Handle texts reg c cfg enabled body =
     Inr (foldl (\<lambda>d name. case fst (run_plugin texts reg c cfg name) of None \<Rightarrow> d | Some r \<Rightarrow> d(name \<mapsto> r)) Map.empty enabled,
          concat (map (\<lambda>name. snd (run_plugin texts reg c cfg name)) enabled))"

subsection \<open>Properties\<close>

lemma nginx_names: "plain_key ''access_log_path''" "plain_key ''access_log_window_minutes''" "plain_key ''access_log_tail_bytes''"
  by (simp_all add: plain_key_def)

lemma nginx_param_range:
  assumes "nginx_param quote cfg = Inr p"
  shows "0 \<le> np_AccessLogWindowMin p \<and> np_AccessLogWindowMin p \<le> 1440 \<and> 0 \<le> np_AccessLogTailBytes p \<and>
    np_AccessLogTailBytes p \<le> 4194304 \<and> np_AccessLogPath p = cfg ''access_log_path''"
  using assms
  by (auto simp: nginx_param_def nginx_window_def nginx_tail_bytes_def plugin_maxAccessLogTailBytes_def Let_def split: sum.splits if_splits option.splits)

text \<open>
  The configuration of the web server plugin arrives in the helper as it is: the parameter is read
  back as the same record, within the ranges the helper works with, so that its own cap never
  applies.
\<close>

lemma nginx_param_reads_back:
  assumes "nginx_param quote cfg = Inr p" and "utf8_valid (cfg ''access_log_path'')"
  shows "dec_nginx_param (marshal_json (enc_nginx_param p)) = Some p" and "cap_warning (np_AccessLogTailBytes (nginx_defaults p)) = []"
proof -
  note r = nginx_param_range [OF assms(1)]
  have ok: "utf8_valid (np_AccessLogPath p)" "int64_ok (np_AccessLogWindowMin p)" "int64_ok (np_AccessLogTailBytes p)"
    using r assms(2) by (auto simp: int64_ok_def)
  have "fits (Suc 0) (enc_nginx_param p)" unfolding enc_nginx_param_def using ok by (intro fits_object) (simp add: nginx_names utf8_valid_plain)
  from dec_struct_written [OF this [unfolded enc_nginx_param_def]] ok
  show "dec_nginx_param (marshal_json (enc_nginx_param p)) = Some p"
    by (simp add: dec_nginx_param_def enc_nginx_param_def maxNestingDepth_def nginx_names fold_name_plain)
  show "cap_warning (np_AccessLogTailBytes (nginx_defaults p)) = []"
    using r by (simp add: cap_warning_def nginx_defaults_def maxAccessLogTailBytes_def defaultAccessLogTailBytes_def)
qed

text \<open>The names a registry ends up with are distinct, and a lookup finds what was registered.\<close>

lemma register_distinct:
  assumes "distinct (CompiledIn reg)" and "workload_Register reg p = Ret reg'"
  shows "distinct (CompiledIn reg')" and "workload_Lookup reg' (pl_Name p) = Some p"
proof -
  have n: "pl_Name p \<notin> set (map pl_Name reg)" and r: "reg' = reg @ [p]" using assms(2) by (auto simp: workload_Register_def split: if_splits)
  show "distinct (CompiledIn reg')" using assms(1) n by (simp add: r CompiledIn_def)
  have "find (\<lambda>q. pl_Name q = pl_Name p) reg = None" unfolding find_None_iff using n by (metis image_eqI image_set)
  moreover have "find P (xs @ ys) = (case find P xs of None \<Rightarrow> find P ys | Some x \<Rightarrow> Some x)" for P and xs ys :: "workload_Plugin list"
    by (induction xs) auto
  ultimately show "workload_Lookup reg' (pl_Name p) = Some p" by (simp add: r workload_Lookup_def)
qed

text \<open>The value of a key after the loop is that of the plugin's own run, whatever the others did.\<close>

lemma workload_values:
  "foldl (\<lambda>d name. case f name of None \<Rightarrow> d | Some r \<Rightarrow> d(name \<mapsto> r)) m names k =
     (if k \<in> set names \<and> f k \<noteq> None then f k else m k)"
  by (induction names arbitrary: m) (auto split: option.splits)

text \<open>
  C40: Plugins do not affect each other. Whatever is registered, configured and answered, the data of
  the workload tool has a member for a plugin exactly when the manifest enables it, it is compiled
  in, and its own collection succeeded, and the member is what that collection returned; every
  enabled plugin without a member is named in a warning. The order of the manifest does not matter.
\<close>

theorem workload_plugins_isolated:
  "\<exists>d ws. workload_Handle texts reg c cfg (NewWorkload enabled) body = Inr (d, ws) \<and>
     (\<forall>name r. d name = Some r \<longleftrightarrow>
        name \<in> set enabled \<and> (\<exists>p pws. workload_Lookup reg name = Some p \<and> pl_Collect p c (cfg name) = Inr (r, pws))) \<and>
     list_all (\<lambda>name. list_ex (\<lambda>w. contains_sub w name) ws) (filter (\<lambda>name. d name = None) enabled)"
proof -
  let ?d = "foldl (\<lambda>d name. case fst (run_plugin texts reg c cfg name) of None \<Rightarrow> d | Some r \<Rightarrow> d(name \<mapsto> r)) Map.empty (NewWorkload enabled)"
  let ?ws = "concat (map (\<lambda>name. snd (run_plugin texts reg c cfg name)) (NewWorkload enabled))"
  have s: "set (NewWorkload enabled) = set enabled" by (simp add: NewWorkload_def)
  have v: "?d name = (if name \<in> set enabled \<and> fst (run_plugin texts reg c cfg name) \<noteq> None then fst (run_plugin texts reg c cfg name) else None)" for name
    using workload_values [of "\<lambda>n. fst (run_plugin texts reg c cfg n)" Map.empty "NewWorkload enabled" name] s by simp
  have f: "fst (run_plugin texts reg c cfg name) = Some r \<longleftrightarrow>
      (\<exists>p pws. workload_Lookup reg name = Some p \<and> pl_Collect p c (cfg name) = Inr (r, pws))" for name r
    by (auto simp: run_plugin_def split: option.splits sum.splits plugin_error.splits)
  have w: "list_ex (\<lambda>m. contains_sub m name) (snd (run_plugin texts reg c cfg name))" if "fst (run_plugin texts reg c cfg name) = None" for name
  proof -
    have "contains_sub (''workload: '' @ name @ '': '' @ x) name" "contains_sub (''workload: plugin not compiled in: '' @ name) name" for x
      unfolding contains_sub_iff by (intro exI, rule refl)+ (metis append_Nil2 append_assoc)
    then show ?thesis using that by (auto simp: run_plugin_def split: option.splits sum.splits plugin_error.splits)
  qed
  have "workload_Handle texts reg c cfg (NewWorkload enabled) body = Inr (?d, ?ws)" by (simp add: workload_Handle_def)
  moreover have "\<forall>name r. ?d name = Some r \<longleftrightarrow>
      name \<in> set enabled \<and> (\<exists>p pws. workload_Lookup reg name = Some p \<and> pl_Collect p c (cfg name) = Inr (r, pws))"
    using v f by auto
  moreover have "list_all (\<lambda>name. list_ex (\<lambda>m. contains_sub m name) ?ws) (filter (\<lambda>name. ?d name = None) enabled)"
    unfolding list_all_iff
  proof
    fix name assume n: "name \<in> set (filter (\<lambda>name. ?d name = None) enabled)"
    then have "fst (run_plugin texts reg c cfg name) = None" using v by (auto split: if_splits)
    from w [OF this] n s show "list_ex (\<lambda>m. contains_sub m name) ?ws" by (auto simp: list_ex_iff)
  qed
  ultimately show ?thesis by blast
qed

text \<open>
  The warning of a failed plugin carries the message of the helper as it is: the paths in it are not
  removed, as they are in the error blocks of the other tools.
\<close>

lemma workload_warning_unscrubbed:
  assumes "wc_postqueue c OpPostqueue [] = Inl (HelperErr he)" and "he_Message he = ''open /var/spool/postfix: denied''"
    and "workload_Lookup reg ''postfix'' = Some postfixPlugin"
  shows "run_plugin texts reg c cfg ''postfix'' = (None, [''workload: postfix: helper: '' @ he_Code he @ '': open /var/spool/postfix: denied''])"
  using assms by (simp add: run_plugin_def postfixPlugin_def postfix_Collect_def call_text_def HelperError_Error_def)

text \<open>The clamp keeps the two numbers consistent.\<close>

lemma postfix_consistent:
  assumes "postfix_Collect c cfg = Inr (WlPostfix q d, ws)"
  shows "0 \<le> d \<and> d \<le> q"
  using assms by (auto simp: postfix_Collect_def split: sum.splits if_splits)

end
