(* ===== verification/ServiceLife.thy ===== *)
theory ServiceLife
  imports Prelude
begin

text \<open>
  The life of the two services as their \<^verbatim>\<open>main\<close> functions run it once the server is built: the notifications to
  systemd, the watchdog goroutine (\<^verbatim>\<open>runWatchdog\<close>), the signal that cancels the context, and the return or the
  failure of the server. The server inside is an argument: a step relation that may look at whether the context
  is cancelled, and the result it has returned, if any.
\<close>

section \<open>The process\<close>

text \<open>The states reported with \<^verbatim>\<open>sd_notify\<close>.\<close>

datatype sd_state = SdReady | SdWatchdog | SdStopping

text \<open>
  \<open>pc_ticker\<close> is the time of the next tick of the watchdog goroutine, if it runs. \<open>pc_exit\<close> is \<^const>\<open>None\<close> while
  \<^verbatim>\<open>main\<close> runs; then it has returned, or \<^verbatim>\<open>log.Fatalf\<close> has ended the process with a message.
\<close>

record 's process =
  pc_server :: 's
  pc_clock :: time
  pc_cancelled :: bool
  pc_ticker :: "time option"
  pc_notes :: "(time \<times> sd_state) list"
  pc_exit :: "bytes option option"

text \<open>
  \<^verbatim>\<open>SdWatchdogEnabled\<close> gives an error or the interval systemd asked for, 0 for none; the goroutine ticks at half
  of it.
\<close>

definition watchdog_period :: "bytes + duration \<Rightarrow> duration option" where
  "watchdog_period wd =
     (case wd of Inl e \<Rightarrow> None | Inr interval \<Rightarrow> if 0 < interval then Some (interval div 2) else None)"

text \<open>\<^verbatim>\<open>main\<close> when it enters the server: readiness has been reported and the goroutine started.\<close>

definition process_start :: "'s \<Rightarrow> time \<Rightarrow> duration option \<Rightarrow> 's process" where
  "process_start s now period =
     \<lparr>pc_server = s, pc_clock = now, pc_cancelled = False, pc_ticker = map_option (\<lambda>w. now + w) period,
      pc_notes = [(now, SdReady)], pc_exit = None\<rparr>"

text \<open>
  The steps. Time does not pass beyond a due tick while the context is live: the goroutine is taken to be
  scheduled when its timer fires, and no promise about the watchdog could be made without that. After the
  cancellation a tick and the end of the goroutine are both possible.
\<close>

inductive service_step ::
  "(bool \<Rightarrow> 's \<Rightarrow> 's \<Rightarrow> bool) \<Rightarrow> ('s \<Rightarrow> bytes option option) \<Rightarrow> duration option \<Rightarrow> 's process \<Rightarrow> 's process \<Rightarrow> bool"
  for step finished period where
  pass: "pc_exit p = None \<Longrightarrow> 0 < d \<Longrightarrow> pc_cancelled p \<or> (\<forall>due. pc_ticker p = Some due \<longrightarrow> pc_clock p + d \<le> due) \<Longrightarrow>
    service_step step finished period p (p\<lparr>pc_clock := pc_clock p + d\<rparr>)"
| signal: "pc_exit p = None \<Longrightarrow> service_step step finished period p (p\<lparr>pc_cancelled := True\<rparr>)"
| tick: "pc_exit p = None \<Longrightarrow> pc_ticker p = Some due \<Longrightarrow> due \<le> pc_clock p \<Longrightarrow> period = Some w \<Longrightarrow>
    service_step step finished period p
      (p\<lparr>pc_notes := pc_notes p @ [(pc_clock p, SdWatchdog)], pc_ticker := Some (due + w)\<rparr>)"
| tick_end: "pc_exit p = None \<Longrightarrow> pc_cancelled p \<Longrightarrow> service_step step finished period p (p\<lparr>pc_ticker := None\<rparr>)"
| serve: "pc_exit p = None \<Longrightarrow> finished (pc_server p) = None \<Longrightarrow> step (pc_cancelled p) (pc_server p) s \<Longrightarrow>
    service_step step finished period p (p\<lparr>pc_server := s\<rparr>)"
| return: "pc_exit p = None \<Longrightarrow> finished (pc_server p) = Some None \<Longrightarrow>
    service_step step finished period p
      (p\<lparr>pc_notes := pc_notes p @ [(pc_clock p, SdStopping)], pc_exit := Some None\<rparr>)"
| fatal: "pc_exit p = None \<Longrightarrow> finished (pc_server p) = Some (Some e) \<Longrightarrow>
    service_step step finished period p (p\<lparr>pc_exit := Some (Some e)\<rparr>)"

section \<open>What holds throughout\<close>

text \<open>The notifications in order: readiness, pings, and the stop exactly when \<^verbatim>\<open>main\<close> has returned.\<close>

definition notes_ok :: "'s process \<Rightarrow> bool" where
  "notes_ok p \<longleftrightarrow>
     (\<exists>n. map snd (pc_notes p) = SdReady # replicate n SdWatchdog @ (if pc_exit p = Some None then [SdStopping] else [])) \<and>
     sorted (map fst (pc_notes p)) \<and> (\<forall>t \<in> set (map fst (pc_notes p)). t \<le> pc_clock p)"

text \<open>A live process has its next ping due within one period of the last notification.\<close>

definition ticker_ok :: "duration option \<Rightarrow> 's process \<Rightarrow> bool" where
  "ticker_ok period p \<longleftrightarrow>
     (\<forall>w. period = Some w \<and> pc_exit p = None \<and> \<not> pc_cancelled p \<longrightarrow>
        (\<exists>due. pc_ticker p = Some due \<and> pc_clock p \<le> due \<and> due \<le> fst (last (pc_notes p)) + w))"

definition service_inv ::
  "(bool \<Rightarrow> 's \<Rightarrow> bool) \<Rightarrow> ('s \<Rightarrow> bytes option option) \<Rightarrow> duration option \<Rightarrow> 's process \<Rightarrow> bool" where
  [inv_defs]: "service_inv sinv finished period p \<longleftrightarrow>
     sinv (pc_cancelled p) (pc_server p) \<and> (\<forall>r. pc_exit p = Some r \<longrightarrow> finished (pc_server p) = Some r) \<and> notes_ok p \<and> ticker_ok period p \<and> (\<forall>w. period = Some w \<longrightarrow> 0 \<le> w)"

lemma notes_ok_ping:
  assumes "notes_ok p" "pc_exit p = None"
  shows "notes_ok (p\<lparr>pc_notes := pc_notes p @ [(pc_clock p, SdWatchdog)], pc_ticker := t\<rparr>)"
proof -
  obtain n where "map snd (pc_notes p) = SdReady # replicate n SdWatchdog" using assms by (auto simp: notes_ok_def)
  then have "map snd (pc_notes p @ [(pc_clock p, SdWatchdog)]) = SdReady # replicate (Suc n) SdWatchdog"
    by (simp add: replicate_append_same)
  then show ?thesis using assms unfolding notes_ok_def
    by (auto simp: sorted_append simp del: replicate_Suc intro!: exI [of _ "Suc n"])
qed

lemma notes_ok_stop:
  assumes "notes_ok p" "pc_exit p = None"
  shows "notes_ok (p\<lparr>pc_notes := pc_notes p @ [(pc_clock p, SdStopping)], pc_exit := Some None\<rparr>)"
  using assms by (auto simp: notes_ok_def sorted_append)

text \<open>A server with an inductive invariant, which may mention the cancellation of the context, inside a process.\<close>

locale service_process =
  fixes init :: "'s \<Rightarrow> bool"
    and step :: "bool \<Rightarrow> 's \<Rightarrow> 's \<Rightarrow> bool"
    and finished :: "'s \<Rightarrow> bytes option option"
    and sinv :: "bool \<Rightarrow> 's \<Rightarrow> bool"
  assumes server_init: "init s \<Longrightarrow> sinv False s"
    and server_step: "sinv c s \<Longrightarrow> step c s t \<Longrightarrow> sinv c t"
    and server_signal: "sinv c s \<Longrightarrow> sinv True s"
begin

lemma service_inv_step:
  assumes "service_step step finished period p q" "service_inv sinv finished period p"
  shows "service_inv sinv finished period q"
  using assms
proof (induction rule: service_step.induct)
  case (pass p d)
  then show ?case by (force simp: service_inv_def ticker_ok_def notes_ok_def)
next
  case (signal p)
  then show ?case by (auto simp: service_inv_def ticker_ok_def notes_ok_def intro: server_signal)
next
  case (tick p due w)
  then have "ticker_ok (Some w) p" by (simp add: service_inv_def)
  then have "ticker_ok (Some w) (p\<lparr>pc_notes := pc_notes p @ [(pc_clock p, SdWatchdog)], pc_ticker := Some (due + w)\<rparr>)"
    using tick by (auto simp: ticker_ok_def service_inv_def)
  then show ?case using tick notes_ok_ping by (auto simp: service_inv_def)
next
  case (tick_end p)
  then show ?case by (auto simp: service_inv_def ticker_ok_def notes_ok_def)
next
  case (serve p s)
  then show ?case by (auto simp: service_inv_def ticker_ok_def notes_ok_def intro: server_step)
next
  case (return p)
  then show ?case using notes_ok_stop by (auto simp: service_inv_def ticker_ok_def)
next
  case (fatal p e)
  then show ?case by (auto simp: service_inv_def ticker_ok_def notes_ok_def)
qed

end

definition service_init :: "('s \<Rightarrow> bool) \<Rightarrow> duration option \<Rightarrow> 's process \<Rightarrow> bool" where
  "service_init init period p \<longleftrightarrow> (\<exists>s now. init s \<and> p = process_start s now period) \<and> (\<forall>w. period = Some w \<longrightarrow> 0 \<le> w)"

sublocale service_process \<subseteq> life: invariant_system "service_init init period" "service_step step finished period"
    "service_inv sinv finished period" for period
proof (unfold_locales, goal_cases)
  case (1 p)
  then show ?case
    by (auto simp: service_init_def service_inv_def process_start_def notes_ok_def ticker_ok_def intro: server_init)
next
  case (2 p q)
  then show ?case using service_inv_step by blast
qed

lemma watchdog_period_nonneg: "watchdog_period wd = Some w \<Longrightarrow> 0 \<le> w"
  by (auto simp: watchdog_period_def split: sum.splits if_splits)

lemma watchdog_period_half: "watchdog_period (Inr i) = Some w \<Longrightarrow> 2 * w \<le> i"
  by (auto simp: watchdog_period_def split: if_splits)

context service_process
begin

text \<open>
  Everything a process keeps: its server's invariant, the order of its notifications, and that a live process
  has notified systemd within half the watchdog interval.
\<close>

lemma process_safe:
  assumes "reachable (service_init init (watchdog_period wd)) (service_step step finished (watchdog_period wd)) p"
  shows "sinv (pc_cancelled p) (pc_server p)" "pc_exit p = Some r \<Longrightarrow> finished (pc_server p) = Some r" "notes_ok p"
    "wd = Inr interval \<Longrightarrow> 0 < interval \<Longrightarrow> pc_exit p = None \<Longrightarrow> \<not> pc_cancelled p \<Longrightarrow>
       2 * (pc_clock p - fst (last (pc_notes p))) \<le> interval"
proof -
  have i: "service_inv sinv finished (watchdog_period wd) p" using assms by (rule life.reachable_inv)
  then show "sinv (pc_cancelled p) (pc_server p)" "pc_exit p = Some r \<Longrightarrow> finished (pc_server p) = Some r" "notes_ok p"
    by (simp_all add: service_inv_def)
  assume "wd = Inr interval" "0 < interval" "pc_exit p = None" "\<not> pc_cancelled p"
  then obtain w due where w: "watchdog_period wd = Some w" "pc_clock p \<le> due" "due \<le> fst (last (pc_notes p)) + w"
    using i by (auto simp: service_inv_def ticker_ok_def watchdog_period_def)
  moreover have "2 * w \<le> interval" using w(1) watchdog_period_half \<open>wd = Inr interval\<close> by blast
  moreover from w have "pc_clock p - fst (last (pc_notes p)) \<le> w" by simp
  ultimately show "2 * (pc_clock p - fst (last (pc_notes p))) \<le> interval" by simp
qed

end

end
