(* ===== verification/HelperMain.thy ===== *)
theory HelperMain
  imports HelperServer ServiceLife OpsWeb
begin

text \<open>
  \<^verbatim>\<open>daemon/cmd/helper\<close>: the start of the helper from its configuration file, and its life as a service around
  \<^verbatim>\<open>Server.Serve\<close>: binding the socket, accepting until the signal, removing the socket. The handlers are given as
  a function of the prefixes permitted for access logs and of the name of the handler.
\<close>

section \<open>Start-up\<close>

record helper_env =
  he_version :: bool
  he_buildID :: bytes
  he_cfgPath :: bytes
  he_readfile :: "bytes \<Rightarrow> helper_file"
  he_decode :: "bytes \<Rightarrow> Config \<Rightarrow> Config option"
  he_user :: "bytes \<Rightarrow> bytes option"
  he_group :: "bytes \<Rightarrow> bytes option"
  he_setenv :: "bytes \<Rightarrow> bytes \<Rightarrow> bytes option"
  he_handler :: "bytes list \<Rightarrow> bytes \<Rightarrow> handler"
  he_status :: "bytes option"
  he_sys :: "sys_call \<Rightarrow> sys_error option"
  he_watchdog :: "bytes + duration"
  he_now :: time

text \<open>\<^verbatim>\<open>SetProcessPath\<close>: the error of setting the variable, if any.\<close>

definition SetProcessPath :: "(bytes \<Rightarrow> bytes \<Rightarrow> bytes option) \<Rightarrow> bytes option" where
  "SetProcessPath setenv = setenv ''PATH'' safePath"

text \<open>
  \<^verbatim>\<open>Serve\<close> inside the process: before the socket is bound, after that has failed, and the accept loop, each
  with the system calls made so far.
\<close>

datatype serve_state = Binding | BindFailed "sys_call list" bytes | Listening "sys_call list" accept_state

record helper_running =
  hr_config :: Config
  hr_prefixes :: "bytes list"
  hr_server :: Server
  hr_log :: bytes
  hr_process :: "serve_state process"

datatype helper_outcome =
    HelperVersion bytes
  | HelperFatal helper_config_error
  | HelperPathFatal bytes
  | HelperPanic bytes
  | HelperStarted helper_running

definition helper_main :: "helper_env \<Rightarrow> helper_outcome" where
  "helper_main env =
     (if he_version env then HelperVersion (''host-health-mcp-helper '' @ he_buildID env)
      else case Load (he_readfile env) (he_decode env) (he_cfgPath env) of
        Inl e \<Rightarrow> HelperFatal e
      | Inr cfg \<Rightarrow>
        (case ResolveUID (he_user env) cfg of
           Inl e \<Rightarrow> HelperFatal e
         | Inr uid \<Rightarrow>
           (case ResolveGID (he_group env) cfg of
              Inl e \<Rightarrow> HelperFatal e
            | Inr gid \<Rightarrow>
              (case SetProcessPath (he_setenv env) of
                 Some e \<Rightarrow> HelperPathFatal (''pin PATH: '' @ e)
               | None \<Rightarrow>
                 (let prefixes = SetAccessLogPrefixes accessLogAllowedPrefixes (h_AccessLogPrefixes cfg)
                  in case RegisterAll (he_handler env prefixes) NewRegistry of
                       Panic m \<Rightarrow> HelperPanic m
                     | Ret reg \<Rightarrow>
                       (let srv = NewServer
                              \<lparr>sc_SocketPath = h_SocketPath cfg, sc_AllowedUID = uid, sc_SocketGID = gid,
                               sc_SocketMode = 0x1B0, sc_Registry = reg, sc_OpDeadline = Some (OpDeadline cfg)\<rparr>
                              (he_status env)
                        in HelperStarted
                             \<lparr>hr_config = cfg, hr_prefixes = prefixes, hr_server = srv,
                              hr_log = ''helper: effective capabilities: '' @ capset_String (Effective (he_status env)),
                              hr_process = process_start Binding (he_now env) (watchdog_period (he_watchdog env))\<rparr>))))))"

section \<open>Serving\<close>

text \<open>
  The listener is closed by the goroutine that waits for the cancellation and by nothing else, so the accept
  loop returns without an error only then.
\<close>

inductive serve_step ::
  "(sys_call \<Rightarrow> sys_error option) \<Rightarrow> ServerConfig \<Rightarrow> bool \<Rightarrow> serve_state \<Rightarrow> serve_state \<Rightarrow> bool" for sys cfg cancelled where
  bind_failed: "Serve_bind sys cfg = (calls, Some e) \<Longrightarrow> serve_step sys cfg cancelled Binding (BindFailed calls e)"
| bound: "Serve_bind sys cfg = (calls, None) \<Longrightarrow> accept_init a \<Longrightarrow> serve_step sys cfg cancelled Binding (Listening calls a)"
| accepting: "accept_step cfg a b \<Longrightarrow> cancelled \<or> ac_stopped a \<or> \<not> ac_stopped b \<or> ac_error b \<noteq> None \<Longrightarrow>
    serve_step sys cfg cancelled (Listening calls a) (Listening calls b)"

fun accept_err_text :: "accept_err \<Rightarrow> bytes" where
  "accept_err_text EMFILE = ''too many open files''"
| "accept_err_text ENFILE = ''too many open files in system''"
| "accept_err_text ENOBUFS = ''no buffer space available''"
| "accept_err_text ENOMEM = ''cannot allocate memory''"
| "accept_err_text ErrClosed = ''use of closed network connection''"
| "accept_err_text (OtherErr m) = m"

text \<open>
  What \<^verbatim>\<open>Serve\<close> has returned, as \<^verbatim>\<open>main\<close> takes it: the error of the cancelled context counts as none.
\<close>

fun serve_result :: "serve_state \<Rightarrow> bytes option option" where
  "serve_result Binding = None"
| "serve_result (BindFailed calls e) = Some (Some e)"
| "serve_result (Listening calls a) =
     (if ac_stopped a
      then Some (map_option (\<lambda>e. ''server: accept: '' @ accept_err_text e) (ac_error a))
      else None)"

abbreviation helper_step :: "helper_env \<Rightarrow> helper_running \<Rightarrow> serve_state process \<Rightarrow> serve_state process \<Rightarrow> bool" where
  "helper_step env h \<equiv>
     service_step (serve_step (he_sys env) (sv_cfg (hr_server h))) serve_result (watchdog_period (he_watchdog env))"

text \<open>The system calls on the socket over the life of the process; a clean return unlinks it.\<close>

fun bind_calls :: "serve_state \<Rightarrow> sys_call list" where
  "bind_calls Binding = []"
| "bind_calls (BindFailed calls e) = calls"
| "bind_calls (Listening calls a) = calls"

definition socket_calls :: "helper_running \<Rightarrow> serve_state process \<Rightarrow> sys_call list" where
  "socket_calls h p =
     bind_calls (pc_server p) @ (if pc_exit p = Some None then [Unlink (h_SocketPath (hr_config h))] else [])"

section \<open>What a helper keeps\<close>

definition serve_inv :: "(sys_call \<Rightarrow> sys_error option) \<Rightarrow> ServerConfig \<Rightarrow> bool \<Rightarrow> serve_state \<Rightarrow> bool" where
  [inv_defs]: "serve_inv sys cfg cancelled st =
     (case st of
        Binding \<Rightarrow> True
      | BindFailed calls e \<Rightarrow> Serve_bind sys cfg = (calls, Some e)
      | Listening calls a \<Rightarrow>
          Serve_bind sys cfg = (calls, None) \<and> accept_inv cfg a \<and> (ac_stopped a \<and> ac_error a = None \<longrightarrow> cancelled))"

inductive_cases serve_step_from_failed: "serve_step sys cfg c (BindFailed calls e) t"

lemma accept_stopped_stays:
  "accept_step cfg a b \<Longrightarrow> ac_stopped a \<Longrightarrow> ac_stopped b \<and> ac_error b = ac_error a"
  by (induction rule: accept_step.induct) auto

interpretation helper_service: service_process "\<lambda>s. s = Binding" "serve_step sys cfg" serve_result "serve_inv sys cfg" for sys cfg
proof (unfold_locales, goal_cases)
  case (1 s)
  then show ?case by (simp add: serve_inv_def)
next
  case (2 c s t)
  from 2(2,1) show ?case
  proof (induction rule: serve_step.induct)
    case (bound calls a)
    then have "accept_inv cfg a" by (intro accept_loop.reachable_inv reachable_init)
    with bound show ?case by (auto simp: serve_inv_def accept_init_def)
  next
    case (accepting a b calls)
    then show ?case using accept_inv_step accept_stopped_stays by (auto simp: serve_inv_def)
  qed (simp add: serve_inv_def)
next
  case (3 c s)
  then show ?case by (auto simp: serve_inv_def split: serve_state.splits)
qed

section \<open>The socket\<close>

text \<open>The calls that bring the socket up, with its mode and its group.\<close>

definition socket_set_up :: "ServerConfig \<Rightarrow> sys_call list" where
  "socket_set_up cfg =
     (let path = sc_SocketPath cfg; gid = unat (sc_SocketGID cfg)
      in [Unlink path, ListenUnix path, Chmod path (sc_SocketMode cfg)] @
         (if gid \<noteq> 0 then [Lchown (filepath_Dir path) 0 gid, Lchown path 0 gid] else []))"

lemma socket_steps_ok: "socket_steps sys cs = (calls, None) \<Longrightarrow> calls = map fst cs \<and> list_all (\<lambda>c. sys c = None) calls"
  by (induction cs arbitrary: calls) (auto split: option.splits prod.splits)

lemma socket_steps_failed: "socket_steps sys cs = (calls, Some e) \<Longrightarrow> calls \<noteq> [] \<and> last calls = CloseListener"
  by (induction cs arbitrary: calls) (auto split: option.splits prod.splits)

lemma Serve_bind_ok:
  assumes "Serve_bind sys cfg = (calls, None)"
  shows "calls = socket_set_up cfg" "list_all (\<lambda>c. sys c = None) (tl calls)"
  using assms socket_steps_ok
  by (auto simp: Serve_bind_def socket_set_up_def Let_def
      split: option.splits sys_error.splits prod.splits if_splits dest!: socket_steps_ok)

lemma Serve_bind_total: "Serve_bind (\<lambda>c. None) cfg = (socket_set_up cfg, None)"
  by (cases "unat (sc_SocketGID cfg) = 0") (simp_all add: Serve_bind_def socket_set_up_def Let_def)

text \<open>A socket that came to be and could not be handed over is closed again.\<close>

lemma Serve_bind_failed:
  assumes "Serve_bind sys cfg = (calls, Some e)" and "sys (ListenUnix (sc_SocketPath cfg)) = None"
    and "ListenUnix (sc_SocketPath cfg) \<in> set calls"
  shows "last calls = CloseListener"
  using assms unfolding Serve_bind_def Let_def
  by (auto split: option.splits sys_error.splits prod.splits if_splits)

section \<open>The helper from its file to its end\<close>

lemma helper_main_started:
  assumes "helper_main env = HelperStarted h"
  obtains uid gid reg where "Load (he_readfile env) (he_decode env) (he_cfgPath env) = Inr (hr_config h)"
    "ResolveUID (he_user env) (hr_config h) = Inr uid" "ResolveGID (he_group env) (hr_config h) = Inr gid"
    "he_setenv env ''PATH'' safePath = None"
    "hr_prefixes h = SetAccessLogPrefixes accessLogAllowedPrefixes (h_AccessLogPrefixes (hr_config h))"
    "RegisterAll (he_handler env (hr_prefixes h)) NewRegistry = Ret reg"
    "sv_cfg (hr_server h) = \<lparr>sc_SocketPath = h_SocketPath (hr_config h), sc_AllowedUID = uid, sc_SocketGID = gid,
       sc_SocketMode = 0x1B0, sc_Registry = reg, sc_OpDeadline = Some (OpDeadline (hr_config h))\<rparr>"
    "hr_process h = process_start Binding (he_now env) (watchdog_period (he_watchdog env))"
  using assms unfolding helper_main_def Let_def
  by (auto simp: SetProcessPath_def NewServer_def split: if_splits sum.splits option.splits go.splits)

lemma started_ops:
  assumes "helper_main env = HelperStarted h"
  shows "LookupOp (sc_Registry (sv_cfg (hr_server h))) op =
    map_option (he_handler env (hr_prefixes h)) (map_of register_calls op)"
proof -
  obtain reg where "RegisterAll (he_handler env (hr_prefixes h)) NewRegistry = Ret reg"
      "sc_Registry (sv_cfg (hr_server h)) = reg"
    by (rule helper_main_started [OF assms], rule that, assumption, simp)
  moreover obtain r where "RegisterAll (he_handler env (hr_prefixes h)) NewRegistry = Ret r"
      "LookupOp r op = map_option (he_handler env (hr_prefixes h)) (map_of register_calls op)"
    using register_all_covers_protocol [of "he_handler env (hr_prefixes h)"] by auto
  ultimately show ?thesis by simp
qed

lemma helper_process_reachable:
  assumes "helper_main env = HelperStarted h" and "(helper_step env h)\<^sup>*\<^sup>* (hr_process h) p"
  shows "reachable (service_init (\<lambda>s. s = Binding) (watchdog_period (he_watchdog env))) (helper_step env h) p"
proof -
  have "service_init (\<lambda>s. s = Binding) (watchdog_period (he_watchdog env)) (hr_process h)"
    by (rule helper_main_started [OF assms(1)]) (auto simp: service_init_def intro: watchdog_period_nonneg)
  with assms(2) show ?thesis by (auto simp: reachable_def)
qed

text \<open>
  C8: A helper that started serves what its file says, for the whole life of the process and however
  connections, signals and timers interleave. When it accepts connections, the socket has mode 0660 and the
  group of the daemon, set before the first one; it serves at most sixteen at once, each from the user the file
  names. The process ends without an error only after a signal, and then the socket has been unlinked. Systemd
  is told of readiness first, of the stop last and only on a clean return, and while no signal has come never
  less than once in half its watchdog interval.
\<close>

theorem helper_service_safe:
  assumes "helper_main env = HelperStarted h" and "(helper_step env h)\<^sup>*\<^sup>* (hr_process h) p"
  shows "(\<forall>calls a. pc_server p = Listening calls a \<longrightarrow>
            (\<exists>gid. ResolveGID (he_group env) (hr_config h) = Inr gid \<and>
               calls = [Unlink (h_SocketPath (hr_config h)), ListenUnix (h_SocketPath (hr_config h)),
                        Chmod (h_SocketPath (hr_config h)) 0x1B0] @
                 (if gid = 0 then []
                  else [Lchown (filepath_Dir (h_SocketPath (hr_config h))) 0 (unat gid),
                        Lchown (h_SocketPath (hr_config h)) 0 (unat gid)])) \<and>
            length (ac_handlers a) \<le> 16 \<and>
            (\<forall>(c, uid) \<in> set (ac_handlers a). ResolveUID (he_user env) (hr_config h) = Inr uid)) \<and>
    (pc_exit p = Some None \<longrightarrow>
       pc_cancelled p \<and> last (socket_calls h p) = Unlink (h_SocketPath (hr_config h))) \<and>
    (\<exists>n. map snd (pc_notes p) =
       SdReady # replicate n SdWatchdog @ (if pc_exit p = Some None then [SdStopping] else [])) \<and>
    (\<forall>interval. he_watchdog env = Inr interval \<and> 0 < interval \<and> pc_exit p = None \<and> \<not> pc_cancelled p \<longrightarrow>
       2 * (pc_clock p - fst (last (pc_notes p))) \<le> interval)"
proof -
  note safe = helper_service.process_safe [OF helper_process_reachable [OF assms]]
  let ?cfg = "sv_cfg (hr_server h)" and ?path = "h_SocketPath (hr_config h)"
  obtain uid gid where u: "ResolveUID (he_user env) (hr_config h) = Inr uid" "ResolveGID (he_group env) (hr_config h) = Inr gid"
      "sc_AllowedUID ?cfg = uid" "sc_SocketGID ?cfg = gid" "sc_SocketMode ?cfg = 0x1B0" "sc_SocketPath ?cfg = ?path"
    by (rule helper_main_started [OF assms(1)]) simp
  have listening: "(\<exists>gid. ResolveGID (he_group env) (hr_config h) = Inr gid \<and>
      calls = [Unlink ?path, ListenUnix ?path, Chmod ?path 0x1B0] @
        (if gid = 0 then [] else [Lchown (filepath_Dir ?path) 0 (unat gid), Lchown ?path 0 (unat gid)])) \<and>
      length (ac_handlers a) \<le> 16 \<and> (\<forall>(c, uid) \<in> set (ac_handlers a). ResolveUID (he_user env) (hr_config h) = Inr uid)"
    if l: "pc_server p = Listening calls a" for calls a
  proof -
    from safe(1) l have b: "Serve_bind (he_sys env) ?cfg = (calls, None)" "accept_inv ?cfg a"
      by (simp_all add: serve_inv_def)
    have "calls = [Unlink ?path, ListenUnix ?path, Chmod ?path 0x1B0] @
        (if gid = 0 then [] else [Lchown (filepath_Dir ?path) 0 (unat gid), Lchown ?path 0 (unat gid)])"
      using Serve_bind_ok(1) [OF b(1)] u by (auto simp: socket_set_up_def Let_def unat_eq_0)
    moreover have "length (ac_handlers a) \<le> 16" "\<forall>(c, uid) \<in> set (ac_handlers a). ResolveUID (he_user env) (hr_config h) = Inr uid"
      using b(2) u by (auto simp: accept_inv_def maxConns_def)
    ultimately show ?thesis using u(2) by blast
  qed
  have clean: "pc_cancelled p \<and> last (socket_calls h p) = Unlink ?path" if x: "pc_exit p = Some None"
  proof -
    from safe(2) [OF x] have "serve_result (pc_server p) = Some None" .
    with safe(1) show ?thesis using x by (cases "pc_server p") (auto simp: serve_inv_def socket_calls_def split: if_splits)
  qed
  show ?thesis using listening clean safe(3) safe(4) unfolding notes_ok_def by blast
qed

definition sample_helper_env :: helper_env where
  "sample_helper_env =
     \<lparr>he_version = False, he_buildID = ''dev'', he_cfgPath = ''/etc/host-health-mcp/helper.yml'',
      he_readfile = (\<lambda>_. NoFile), he_decode = (\<lambda>_ c. Some c), he_user = (\<lambda>_. Some ''101''), he_group = (\<lambda>_. Some ''102''),
      he_setenv = (\<lambda>_ _. None), he_handler = (\<lambda>_ _ p _. HandlerOk p), he_status = None, he_sys = (\<lambda>_. None),
      he_watchdog = Inr (30 * Second), he_now = 0\<rparr>"

lemma sample_helper_starts:
  assumes "env = sample_helper_env\<lparr>he_handler := fs\<rparr>"
  shows "\<exists>h. helper_main env = HelperStarted h \<and> hr_config h = Defaults"
proof -
  obtain reg where "RegisterAll (he_handler env
      (SetAccessLogPrefixes accessLogAllowedPrefixes (h_AccessLogPrefixes Defaults))) NewRegistry = Ret reg"
    using register_all_covers_protocol by fast
  moreover have "ResolveUID (he_user sample_helper_env) Defaults = Inr 101" by code_simp
  moreover have "ResolveGID (he_group sample_helper_env) Defaults = Inr 102" by code_simp
  moreover have "Load (he_readfile env) (he_decode env) (he_cfgPath env) = Inr Defaults"
    by (simp add: Load_def sample_helper_env_def assms)
  ultimately show ?thesis
    unfolding helper_main_def by (simp add: SetProcessPath_def Let_def sample_helper_env_def assms)
qed

lemma sample_helper_started: "\<exists>h. helper_main sample_helper_env = HelperStarted h \<and> hr_config h = Defaults"
  by (rule sample_helper_starts [of _ "he_handler sample_helper_env"]) simp

theorem helper_service_safe_witness:
  "\<exists>h p calls a. helper_main sample_helper_env = HelperStarted h \<and>
     (helper_step sample_helper_env h)\<^sup>*\<^sup>* (hr_process h) p \<and> pc_server p = Listening calls a \<and>
     calls = [Unlink (h_SocketPath Defaults), ListenUnix (h_SocketPath Defaults), Chmod (h_SocketPath Defaults) 0x1B0,
       Lchown ''/run/host-health-mcp'' 0 102, Lchown (h_SocketPath Defaults) 0 102]"
proof -
  obtain h where h: "helper_main sample_helper_env = HelperStarted h" "hr_config h = Defaults"
    using sample_helper_started by blast
  let ?cfg = "sv_cfg (hr_server h)" and ?start = "hr_process h" and ?run = "\<lambda>c a. (hr_process h)\<lparr>pc_server := Listening c a\<rparr>"
  have start: "pc_exit ?start = None" "pc_server ?start = Binding"
    by (rule helper_main_started [OF h(1)], simp add: process_start_def)+
  obtain calls where b: "Serve_bind (he_sys sample_helper_env) ?cfg = (calls, None)"
    using Serve_bind_total by (simp add: sample_helper_env_def)
  obtain a where a: "accept_init a" by (simp add: accept_init_def)
  have "serve_step (he_sys sample_helper_env) ?cfg (pc_cancelled ?start) (pc_server ?start) (Listening calls a)"
    using b a start by (simp add: serve_step.bound)
  then have run: "(helper_step sample_helper_env h)\<^sup>*\<^sup>* ?start (?run calls a)"
    using start by (intro r_into_rtranclp service_step.serve) simp_all
  have gid: "ResolveGID (he_group sample_helper_env) Defaults = Inr 102" by code_simp
  have dir: "filepath_Dir (h_SocketPath Defaults) = ''/run/host-health-mcp''" by code_simp
  from conjunct1 [OF helper_service_safe [OF h(1) run]] gid dir h run show ?thesis
    by (intro exI [of _ h] exI [of _ "?run calls a"] exI [of _ calls] exI [of _ a]) simp
qed

text \<open>
  Readiness is reported before the socket exists: a process that has told systemd so may still have bound
  nothing, and may fail to.
\<close>

lemma ready_before_bound:
  assumes "helper_main env = HelperStarted h"
  shows "map snd (pc_notes (hr_process h)) = [SdReady] \<and> socket_calls h (hr_process h) = []"
  by (rule helper_main_started [OF assms]) (simp add: process_start_def socket_calls_def)

end
