(* ===== verification/DaemonLife.thy ===== *)
theory DaemonLife
  imports DaemonMain ServiceLife
begin

text \<open>
  The daemon as a running service: \<^verbatim>\<open>httpserver.Server.Start\<close> with the TLS configuration, the listener and the
  timeouts of the HTTP server, the requests that arrive over accepted connections, the two sweeper goroutines,
  and the end of the process. Of \<^verbatim>\<open>crypto/tls\<close> the model has what the configuration asks of a handshake; key
  pairs, the certificates in a bundle and the network are arguments.
\<close>

section \<open>TLS and the listener\<close>

datatype client_auth = NoClientCert | RequestClientCert | RequireAnyClientCert | VerifyClientCertIfGiven | RequireAndVerifyClientCert

definition VersionTLS13 :: nat where "VersionTLS13 = 0x304"

record tls_Config =
  tls_Certificates :: "bytes list"
  tls_ClientAuth :: client_auth
  tls_ClientCAs :: "bytes list"
  tls_MinVersion :: nat
  tls_VerifyConnection :: "Cert list list \<Rightarrow> tls_error option"

record net_env =
  ne_loadKeyPair :: "bytes \<Rightarrow> bytes \<Rightarrow> bytes + bytes"
  ne_readFile :: "bytes \<Rightarrow> bytes + bytes"
  ne_parseCerts :: "bytes \<Rightarrow> bytes list"
  ne_listen :: "bytes \<Rightarrow> bytes + bytes"

definition buildTLSConfig :: "net_env \<Rightarrow> Daemon \<Rightarrow> bytes + tls_Config" where
  "buildTLSConfig ne c =
     (case ne_loadKeyPair ne (d_TLSCertPath c) (d_TLSKeyPath c) of
        Inl e \<Rightarrow> Inl (''httpserver: load TLS keypair: '' @ e)
      | Inr cert \<Rightarrow>
          (case ne_readFile ne (d_ClientCAPath c) of
             Inl e \<Rightarrow> Inl (''httpserver: read client CA: '' @ e)
           | Inr caPEM \<Rightarrow>
               (let pool = ne_parseCerts ne caPEM
                in if pool = [] then Inl ''httpserver: client CA bundle has no certs''
                   else Inr \<lparr>tls_Certificates = [cert], tls_ClientAuth = RequireAndVerifyClientCert, tls_ClientCAs = pool,
                             tls_MinVersion = VersionTLS13, tls_VerifyConnection = verifyClientCert\<rparr>)))"

text \<open>
  When a handshake ends in a connection: with \<^const>\<open>RequireAndVerifyClientCert\<close> the peer has sent certificates and
  the chains \<open>verified\<close> from the first of them to the pool were found; then the hook of the configuration decides.
\<close>

definition handshake_ok :: "tls_Config \<Rightarrow> Cert list \<Rightarrow> Cert list list \<Rightarrow> bool" where
  "handshake_ok t peers verified \<longleftrightarrow>
     (tls_ClientAuth t = RequireAndVerifyClientCert \<longrightarrow>
        peers \<noteq> [] \<and> verified \<noteq> [] \<and> list_all (\<lambda>ch. ch \<noteq> [] \<and> hd ch = hd peers) verified) \<and>
     tls_VerifyConnection t verified = None"

definition readHeaderTimeout :: duration where "readHeaderTimeout = 5 * Second"
definition readTimeout :: duration where "readTimeout = 10 * Second"
definition writeTimeout :: duration where "writeTimeout = 30 * Second"
definition idleTimeout :: duration where "idleTimeout = 10 * Second"
definition maxHeaderBytes :: nat where "maxHeaderBytes = 16 * 1024"

record http_Server =
  srv_ReadHeaderTimeout :: duration
  srv_ReadTimeout :: duration
  srv_WriteTimeout :: duration
  srv_IdleTimeout :: duration
  srv_MaxHeaderBytes :: nat

text \<open>What \<^verbatim>\<open>Start\<close> has set up when it serves: \<open>sd_cap\<close> is the cap of the listener, if it has one.\<close>

record started =
  sd_tls :: tls_Config
  sd_addr :: bytes
  sd_cap :: "nat option"
  sd_srv :: http_Server

definition Start_bind :: "net_env \<Rightarrow> Daemon \<Rightarrow> bytes + started" where
  "Start_bind ne cfg =
     (case buildTLSConfig ne cfg of
        Inl e \<Rightarrow> Inl e
      | Inr tlsCfg \<Rightarrow>
          (case ne_listen ne (d_BindAddr cfg) of
             Inl e \<Rightarrow> Inl (''httpserver: listen '' @ d_BindAddr cfg @ '': '' @ e)
           | Inr addr \<Rightarrow>
               Inr \<lparr>sd_tls = tlsCfg, sd_addr = addr,
                    sd_cap = (if 0 < d_MaxConcurrentHandshakes cfg then Some (nat (d_MaxConcurrentHandshakes cfg)) else None),
                    sd_srv = \<lparr>srv_ReadHeaderTimeout = readHeaderTimeout, srv_ReadTimeout = readTimeout,
                              srv_WriteTimeout = writeTimeout, srv_IdleTimeout = idleTimeout,
                              srv_MaxHeaderBytes = maxHeaderBytes\<rparr>\<rparr>))"

section \<open>Serving\<close>

datatype start_phase = Starting | StartFailed bytes | Serving started | Ended "bytes option"

text \<open>\<open>ds_handled\<close> counts the requests that have been handed to \<^verbatim>\<open>handleRequest\<close>.\<close>

record daemon_state =
  ds_phase :: start_phase
  ds_http :: http_state
  ds_listener :: listener
  ds_handled :: nat

text \<open>\<^verbatim>\<open>Addr\<close> and the channel of \<^verbatim>\<open>Serving\<close>: the address of the listener once it is bound, and whether it is.\<close>

definition Addr :: "daemon_state \<Rightarrow> bytes" where
  "Addr s = (case ds_phase s of Serving st \<Rightarrow> sd_addr st | _ \<Rightarrow> [])"

definition is_serving :: "daemon_state \<Rightarrow> bool" where
  "is_serving s = (case ds_phase s of Serving st \<Rightarrow> True | _ \<Rightarrow> False)"

text \<open>
  The steps of \<^verbatim>\<open>Start\<close>, of the connections and requests, and of the goroutines beside it. \<^verbatim>\<open>Serve\<close> reports that
  the server was closed only when \<^verbatim>\<open>Shutdown\<close> has been called, which \<^verbatim>\<open>Start\<close> does after the cancellation; the
  error of \<^verbatim>\<open>Shutdown\<close> is dropped.
\<close>

inductive daemon_step ::
  "net_env \<Rightarrow> 'j deps \<Rightarrow> http_config \<Rightarrow> bool \<Rightarrow> daemon_state \<Rightarrow> daemon_state \<Rightarrow> bool" for ne dp c cancelled where
  start_failed: "ds_phase s = Starting \<Longrightarrow> Start_bind ne (hc_daemon c) = Inl e \<Longrightarrow>
    daemon_step ne dp c cancelled s (s\<lparr>ds_phase := StartFailed e\<rparr>)"
| started: "ds_phase s = Starting \<Longrightarrow> Start_bind ne (hc_daemon c) = Inr st \<Longrightarrow>
    daemon_step ne dp c cancelled s (s\<lparr>ds_phase := Serving st\<rparr>)"
| connection: "ds_phase s = Serving st \<Longrightarrow> sd_cap st = Some n \<Longrightarrow> listener_step n (ds_listener s) l \<Longrightarrow>
    daemon_step ne dp c cancelled s (s\<lparr>ds_listener := l\<rparr>)"
| request: "ds_phase s = Serving st \<Longrightarrow> handshake_ok (sd_tls st) (rq_peers r) verified \<Longrightarrow>
    daemon_step ne dp c cancelled s
      (s\<lparr>ds_http := fst (handleRequest dp c ft (ds_http s) r), ds_handled := ds_handled s + 1\<rparr>)"
| sweep_cache: "daemon_step ne dp c cancelled s (s\<lparr>ds_http := happen dp c (ds_http s) (SweepCache t)\<rparr>)"
| sweep_limiter: "daemon_step ne dp c cancelled s (s\<lparr>ds_http := happen dp c (ds_http s) (SweepLimiter t)\<rparr>)"
| serve_failed: "ds_phase s = Serving st \<Longrightarrow> daemon_step ne dp c cancelled s (s\<lparr>ds_phase := Ended (Some e)\<rparr>)"
| shut_down: "ds_phase s = Serving st \<Longrightarrow> cancelled \<Longrightarrow> daemon_step ne dp c cancelled s (s\<lparr>ds_phase := Ended None\<rparr>)"

definition start_returned :: "daemon_state \<Rightarrow> bytes option option" where
  "start_returned s =
     (case ds_phase s of StartFailed e \<Rightarrow> Some (Some e) | Ended r \<Rightarrow> Some r | _ \<Rightarrow> None)"

text \<open>The server as \<^verbatim>\<open>main\<close> builds it with \<^verbatim>\<open>httpserver.New\<close>, before it is started.\<close>

definition NewHttpServer :: "http_state \<Rightarrow> daemon_state" where
  "NewHttpServer st = \<lparr>ds_phase = Starting, ds_http = st, ds_listener = \<lparr>ls_sem = 0, ls_conns = []\<rparr>, ds_handled = 0\<rparr>"

definition daemon_run ::
  "net_env \<Rightarrow> 'j deps \<Rightarrow> running \<Rightarrow> bytes + duration \<Rightarrow> daemon_state process \<Rightarrow> daemon_state process \<Rightarrow> bool" where
  "daemon_run ne dp rn wd = service_step (daemon_step ne dp (rn_http rn)) start_returned (watchdog_period wd)"

definition daemon_start :: "running \<Rightarrow> time \<Rightarrow> bytes + duration \<Rightarrow> daemon_state process" where
  "daemon_start rn now wd = process_start (NewHttpServer (rn_state rn)) now (watchdog_period wd)"

section \<open>What a running daemon keeps\<close>

text \<open>An audit entry that names a client which passed the checks of the handshake.\<close>

definition client_leaf :: "Cert \<Rightarrow> bool" where
  "client_leaf leaf \<longleftrightarrow>
     \<not> cert_IsCA leaf \<and> ExtKeyUsageClientAuth \<in> set (cert_ExtKeyUsage leaf) \<and>
     (trim_space (cert_CommonName leaf) \<noteq> [] \<or> cert_DNSNames leaf \<noteq> [])"

definition audit_identified :: "audit_Entry \<Rightarrow> bool" where
  "audit_identified e \<longleftrightarrow> (\<exists>leaf. client_leaf leaf \<and> au_CallerIdentity e = callerIdentity [leaf])"

definition daemon_inv :: "net_env \<Rightarrow> http_config \<Rightarrow> bool \<Rightarrow> daemon_state \<Rightarrow> bool" where
  [inv_defs]: "daemon_inv ne c cancelled s \<longleftrightarrow>
     length (hs_audit (ds_http s)) = ds_handled s \<and> list_all audit_identified (hs_audit (ds_http s)) \<and>
     (case ds_phase s of
        Starting \<Rightarrow> listener_init (ds_listener s)
      | StartFailed e \<Rightarrow> True
      | Serving st \<Rightarrow>
          Start_bind ne (hc_daemon c) = Inr st \<and> (\<forall>n. sd_cap st = Some n \<longrightarrow> listener_inv n (ds_listener s))
      | Ended r \<Rightarrow> r = None \<longrightarrow> cancelled)"

definition daemon_init :: "daemon_state \<Rightarrow> bool" where
  "daemon_init s \<longleftrightarrow> (\<exists>st. hs_audit st = [] \<and> s = NewHttpServer st)"

lemma Start_bind_tls: "Start_bind ne cfg = Inr st \<Longrightarrow> buildTLSConfig ne cfg = Inr (sd_tls st)"
  by (auto simp: Start_bind_def split: sum.splits)

lemma buildTLSConfig_strict:
  "buildTLSConfig ne cfg = Inr t \<Longrightarrow>
     tls_ClientAuth t = RequireAndVerifyClientCert \<and> tls_MinVersion t = VersionTLS13 \<and>
     tls_VerifyConnection t = verifyClientCert \<and> tls_ClientCAs t \<noteq> []"
  by (auto simp: buildTLSConfig_def Let_def split: sum.splits if_splits)

lemma verifyClientCert_leaf: "verifyClientCert ((leaf # rest) # others) = None \<longleftrightarrow> client_leaf leaf"
  by (auto simp: verifyClientCert_def client_leaf_def)

text \<open>A connection that the configuration lets through has a client certificate as its first peer.\<close>

lemma handshake_client:
  assumes "buildTLSConfig ne cfg = Inr t" "handshake_ok t peers verified"
  shows "\<exists>leaf rest. peers = leaf # rest \<and> client_leaf leaf"
proof -
  from assms buildTLSConfig_strict [OF assms(1)] have v: "peers \<noteq> []" "verified \<noteq> []"
      "list_all (\<lambda>ch. ch \<noteq> [] \<and> hd ch = hd peers) verified" "verifyClientCert verified = None"
    by (simp_all add: handshake_ok_def)
  then obtain leaf rest ch others where "peers = leaf # rest" "verified = (leaf # ch) # others"
    by (cases peers; cases verified) (auto simp: neq_Nil_conv)
  then show ?thesis using v(4) verifyClientCert_leaf by auto
qed

lemma callerIdentity_first: "callerIdentity (leaf # rest) = callerIdentity [leaf]"
  by (simp add: callerIdentity_def)

lemma happen_sweep_audit [simp]:
  "hs_audit (happen dp c s (SweepCache t)) = hs_audit s" "hs_audit (happen dp c s (SweepLimiter t)) = hs_audit s"
  by (simp_all add: happen_def)

lemma daemon_inv_step:
  assumes "daemon_step ne dp c cancelled s t" "daemon_inv ne c cancelled s"
  shows "daemon_inv ne c cancelled t"
  using assms
proof (induction rule: daemon_step.induct)
  case (started s st)
  have "listener_inv n (ds_listener s)" for n
    using started by (intro capped_listener.reachable_inv reachable_init) (simp add: daemon_inv_def)
  then show ?case using started by (simp add: daemon_inv_def)
next
  case (connection s st n l)
  then show ?case using capped_listener.step_inv by (auto simp: daemon_inv_def)
next
  case (request s st r verified ft)
  then have "buildTLSConfig ne (hc_daemon c) = Inr (sd_tls st)" by (simp add: daemon_inv_def Start_bind_tls)
  then obtain leaf rest where leaf: "rq_peers r = leaf # rest" "client_leaf leaf"
    using handshake_client request.hyps(2) by blast
  obtain e where e: "hs_audit (fst (handleRequest dp c ft (ds_http s) r)) = hs_audit (ds_http s) @ [e]"
      "au_CallerIdentity e = callerIdentity (rq_peers r)"
    using one_audit_entry_per_request by blast
  then have "audit_identified e" using leaf callerIdentity_first audit_identified_def by metis
  then show ?case using request e(1) by (simp add: daemon_inv_def)
qed (auto simp: daemon_inv_def split: start_phase.splits)

interpretation daemon_service: service_process daemon_init "daemon_step ne dp c" start_returned "daemon_inv ne c" for ne dp c
proof (unfold_locales, goal_cases)
  case (1 s)
  then show ?case by (auto simp: daemon_init_def daemon_inv_def NewHttpServer_def listener_init_def)
next
  case (2 c s t)
  then show ?case by (rule daemon_inv_step [rotated])
next
  case (3 c s)
  then show ?case by (auto simp: daemon_inv_def split: start_phase.splits)
qed

section \<open>The daemon from its files to its end\<close>

lemma daemon_main_handshakes:
  assumes "daemon_main env path = Inr rn"
  shows "0 < d_MaxConcurrentHandshakes (hc_daemon (rn_http rn))" "hs_audit (rn_state rn) = []"
proof -
  show "0 < d_MaxConcurrentHandshakes (hc_daemon (rn_http rn))"
  proof (rule daemon_main_cases [OF assms])
    fix cfg
    assume "LoadDaemon (se_readfile env) (se_decodeDaemon env) path = Inr cfg" "hc_daemon (rn_http rn) = cfg"
    then show ?thesis using LoadDaemon_valid Validate_None_iff by metis
  qed
  show "hs_audit (rn_state rn) = []"
    using assms unfolding daemon_main_def Let_def by (auto split: sum.splits option.splits if_splits)
qed

lemma daemon_process_reachable:
  assumes "daemon_main env path = Inr rn" and "(daemon_run ne dp rn wd)\<^sup>*\<^sup>* (daemon_start rn now wd) p"
  shows "reachable (service_init daemon_init (watchdog_period wd)) (daemon_run ne dp rn wd) p"
proof -
  have "service_init daemon_init (watchdog_period wd) (daemon_start rn now wd)"
    using daemon_main_handshakes(2) [OF assms(1)] watchdog_period_nonneg
    by (auto simp: service_init_def daemon_init_def daemon_start_def)
  with assms(2) show ?thesis by (auto simp: reachable_def)
qed


text \<open>One request over a verified connection.\<close>

definition sample_net :: net_env where
  "sample_net = \<lparr>ne_loadKeyPair = (\<lambda>c k. Inr c), ne_readFile = Inr, ne_parseCerts = (\<lambda>pem. [pem]), ne_listen = Inr\<rparr>"


section \<open>The timeouts\<close>

text \<open>
  The time to write covers the reading of the body, the longest tool call and twice that for the answer; a
  caller who keeps \<open>n\<close> connections idle must send \<open>6 n\<close> requests a minute to keep their slots, which the
  limiter refuses from six connections on.
\<close>

lemma write_timeout_covers: "readTimeout + 10 * Second + 10 * Second \<le> writeTimeout"
  by (simp add: readTimeout_def writeTimeout_def)

lemma idle_slots_exceed_rate:
  "SustainedPerMin global_bucket < int n * (Minute div idleTimeout) \<longleftrightarrow> 6 \<le> n"
  by (simp add: global_bucket_def idleTimeout_def) linarith

text \<open>
  A certificate with a blank common name and an empty first DNS name passes the handshake, although no
  identity can be derived from it; its requests are refused one by one.
\<close>

lemma verified_without_identity:
  "client_leaf leaf \<and> callerIdentity [leaf] = [] \<longleftrightarrow>
     \<not> cert_IsCA leaf \<and> ExtKeyUsageClientAuth \<in> set (cert_ExtKeyUsage leaf) \<and>
     trim_space (cert_CommonName leaf) = [] \<and> (\<exists>ds. cert_DNSNames leaf = [] # ds)"
  by (auto simp: client_leaf_def callerIdentity_def Let_def split: list.splits)

end
