(* ===== verification/OpsWire.thy ===== *)
theory OpsWire
  imports HelperOps FirewallWire ToolUpdates
begin

text \<open>
  The results of the ops on the wire. The helper writes the struct of the op, the daemon reads it into a struct of
  its own tool (\<^verbatim>\<open>tools/security\<close>, \<^verbatim>\<open>tools/storage\<close>, \<^verbatim>\<open>tools/updates\<close>, \<^verbatim>\<open>tools/workload\<close>) with the same fields, so
  that the records of the ops serve for both. (The struct of the storage tool has one more member, an error that the helper never
  writes; the mail tool reads of the queue only the depth.) A type is written by \<open>enc_\<close>, read by \<open>dec_\<close>; \<open>ok_\<close> says that its strings
  are UTF-8, its numbers fit 64 bits and its times and fractions are read as they were written. At the end the types
  are put together: an op token determines the type of its result, and the daemon's reader for that op takes it.
\<close>

section \<open>Pointers, times and fractions\<close>

text \<open>A pointer without \<^verbatim>\<open>omitempty\<close> is \<^verbatim>\<open>null\<close> when it is nil; so is a slice that was never appended to.\<close>

definition json_ptr :: "('a \<Rightarrow> json) \<Rightarrow> 'a option \<Rightarrow> json" where
  "json_ptr enc p = (case p of None \<Rightarrow> JNull | Some x \<Rightarrow> enc x)"

definition nil_if_empty :: "'a list \<Rightarrow> 'a list option" where
  "nil_if_empty xs = (if xs = [] then None else Some xs)"

lemma view_null: "json_view (marshal_json JNull) = Some VNull"
  using view_fits [of 0 JNull] by simp

lemma elems_nil_if_empty [simp]: "elems (nil_if_empty xs) = xs"
  by (simp add: nil_if_empty_def)

context wire_type
begin

lemma json_ptr_read: "pred_option wire_ok p \<Longrightarrow> dec_ptr dec zero old (marshal_json (json_ptr enc p)) = Some p"
proof (cases p)
  case None
  then show ?thesis by (simp add: json_ptr_def dec_ptr_def view_null del: marshal_json.simps)
qed (simp add: json_ptr_def ptr_read)

lemma json_ptr_fit: "pred_option wire_ok p \<Longrightarrow> depth \<le> n \<Longrightarrow> fits n (json_ptr enc p)"
  by (cases p) (simp_all add: json_ptr_def fit_in)

lemma json_slice_read: "pred_option (list_all wire_ok) xs \<Longrightarrow> dec_slice dec zero old (marshal_json (json_slice enc xs)) = Some xs"
proof (cases xs)
  case None
  then show ?thesis by (simp add: json_slice_def dec_slice_def view_null del: marshal_json.simps)
qed (simp add: slice_read)

lemma json_slice_fit: "pred_option (list_all wire_ok) xs \<Longrightarrow> Suc depth \<le> n \<Longrightarrow> fits n (json_slice enc xs)"
proof (cases xs)
  case None
  then show ?thesis by (simp add: json_slice_def)
qed (simp add: slice_fit)

lemma nil_slice_ok: "list_all wire_ok xs \<Longrightarrow> pred_option (list_all wire_ok) (nil_if_empty xs)"
  by (simp add: nil_if_empty_def)

lemmas ptr_rules = json_ptr_read json_ptr_fit
lemmas nil_rules = json_slice_read json_slice_fit nil_slice_ok

end

text \<open>
  A time is written as a string (\<open>tf\<close> is its text in RFC 3339), a fraction as a number (\<open>ff\<close>); of the latter only
  those that print as a whole number are covered.
\<close>

definition enc_time :: "(time \<Rightarrow> bytes) \<Rightarrow> time \<Rightarrow> json" where
  "enc_time tf t = JStr (tf t)"

definition time_ok :: "world \<Rightarrow> (time \<Rightarrow> bytes) \<Rightarrow> time \<Rightarrow> bool" where
  "time_ok w tf t \<longleftrightarrow> list_all html_safe (tf t) \<and> wd_parse_time w ''2006-01-02T15:04:05Z07:00'' (tf t) = Some t"

definition enc_float :: "(rat \<Rightarrow> bytes) \<Rightarrow> rat \<Rightarrow> json" where
  "enc_float ff r = JNum (ff r)"

definition dec_float :: "world \<Rightarrow> rat decoder" where
  "dec_float w old s =
     (case json_view s of Some (VNum t) \<Rightarrow> wd_parse_float w t | Some VNull \<Rightarrow> Some old | _ \<Rightarrow> None)"

definition float_ok :: "world \<Rightarrow> (rat \<Rightarrow> bytes) \<Rightarrow> rat \<Rightarrow> bool" where
  "float_ok w ff r \<longleftrightarrow> number_text (ff r) \<and> wd_parse_float w (ff r) = Some r"

lemma quote_body_safe: "list_all html_safe s \<Longrightarrow> quote_body s = s"
proof (induction s)
  case (Cons c s)
  then show ?case using quote_ascii_Cons [of c s] by (simp add: html_safe_def quote_ascii_def)
qed simp

lemma utf8_valid_safe: "list_all html_safe s \<Longrightarrow> utf8_valid s"
proof (induction s)
  case (Cons c s)
  then have "(of_char c :: nat) < 128" "utf8_valid s" by (simp_all add: html_safe_def)
  then show ?case by (subst utf8_valid.simps) (simp add: rune_len_ascii del: rune_len.simps)
qed simp

interpretation wire_time: wire_type "enc_time tf" "dec_time w" zero_time "time_ok w tf" 0 for w tf
proof unfold_locales
  fix t
  assume "time_ok w tf t"
  then have t: "list_all html_safe (tf t)" "wd_parse_time w ''2006-01-02T15:04:05Z07:00'' (tf t) = Some t"
    by (simp_all add: time_ok_def)
  show "fits 0 (enc_time tf t)" using utf8_valid_safe [OF t(1)] by (simp add: enc_time_def)
  show "dec_time w zero_time (marshal_json (enc_time tf t)) = Some t"
    using t by (simp add: enc_time_def dec_time_def marshal_json.simps marshal_string_def quote_body_safe)
qed (simp_all add: enc_time_def)

interpretation wire_float: wire_type "enc_float ff" "dec_float w" 0 "float_ok w ff" 0 for w ff
proof unfold_locales
  fix r
  assume r: "float_ok w ff r"
  then show f: "fits 0 (enc_float ff r)" by (simp add: enc_float_def float_ok_def fits_def)
  show "dec_float w 0 (marshal_json (enc_float ff r)) = Some r"
    using view_fits [OF f] r by (simp add: enc_float_def dec_float_def float_ok_def del: marshal_json.simps)
qed (simp_all add: enc_float_def)

section \<open>The types\<close>

lemma plain_op_names [simp]:
  "plain_key ''accepted_last_24h''" "plain_key ''array_name''" "plain_key ''boot_unix_s''"
  "plain_key ''change_count''" "plain_key ''connection_count''" "plain_key ''deferred_count''"
  "plain_key ''degraded''" "plain_key ''device''" "plain_key ''devices''" "plain_key ''enabled''"
  "plain_key ''errors_count''" "plain_key ''errors_total''" "plain_key ''failed_last_24h''"
  "plain_key ''free_b''" "plain_key ''health_status''" "plain_key ''held_packages''"
  "plain_key ''jail_count''" "plain_key ''last_exit_code''" "plain_key ''last_rotation_ts''"
  "plain_key ''last_run_ts''" "plain_key ''last_scrub_status''" "plain_key ''last_scrub_ts''"
  "plain_key ''last_trigger''" "plain_key ''level''" "plain_key ''lock_state''"
  "plain_key ''lost_events''" "plain_key ''lvs''" "plain_key ''model''" "plain_key ''mountpoint''"
  "plain_key ''netlink_error''" "plain_key ''oldest_entry_unix_s''" "plain_key ''pending_services''"
  "plain_key ''pools''" "plain_key ''power_on_hours''" "plain_key ''present''"
  "plain_key ''process_state''" "plain_key ''queue_depth''" "plain_key ''reallocated_sectors''"
  "plain_key ''recent_4xx''" "plain_key ''recent_5xx''" "plain_key ''recent_coverage''"
  "plain_key ''recent_window_minutes''" "plain_key ''regular_updates_pending''" "plain_key ''scan_state''"
  "plain_key ''security_updates_pending''" "plain_key ''server''" "plain_key ''size_b''"
  "plain_key ''smart_overall''" "plain_key ''smartctl_exit_code''" "plain_key ''state''"
  "plain_key ''sync_progress_pct''" "plain_key ''temperature_c''" "plain_key ''total_banned''"
  "plain_key ''truncated''" "plain_key ''vg''" "plain_key ''vgs''" "plain_key ''warning''"
  "plain_key ''warning_count''" "plain_key ''worker_count''"
  by (simp_all add: plain_key_def)

definition zero_fail2ban :: Fail2banStatusResult where
  "zero_fail2ban = \<lparr>fb_Present = False, fb_JailCount = 0, fb_TotalBanned = 0\<rparr>"

definition enc_fail2ban :: "Fail2banStatusResult \<Rightarrow> json" where
  "enc_fail2ban x = JObj
     (field ''present'' (JBool (fb_Present x)) @
      field ''jail_count'' (json_int (fb_JailCount x)) @
      field ''total_banned'' (json_int (fb_TotalBanned x)))"

definition dec_fail2ban :: "Fail2banStatusResult decoder" where
  "dec_fail2ban old s = do {
     ms \<leftarrow> dec_struct s;
     va \<leftarrow> dec_field dec_bool (fb_Present old) ms ''present'';
     vb \<leftarrow> dec_field dec_int (fb_JailCount old) ms ''jail_count'';
     vc \<leftarrow> dec_field dec_int (fb_TotalBanned old) ms ''total_banned'';
     Some \<lparr>fb_Present = va, fb_JailCount = vb, fb_TotalBanned = vc\<rparr> }"

definition ok_fail2ban :: "Fail2banStatusResult \<Rightarrow> bool" where
  "ok_fail2ban x \<longleftrightarrow>
     int64_ok (fb_JailCount x) \<and> int64_ok (fb_TotalBanned x)"

interpretation wire_fail2ban: wire_type enc_fail2ban dec_fail2ban zero_fail2ban ok_fail2ban "Suc (0)"
proof unfold_locales
  fix x
  assume ok: "ok_fail2ban x"
  then show f: "fits (Suc (0)) (enc_fail2ban x)" unfolding enc_fail2ban_def
    by (intro fits_object) (simp add: ok_fail2ban_def )
  from dec_struct_written [OF f [unfolded enc_fail2ban_def]] ok
  show "dec_fail2ban zero_fail2ban (marshal_json (enc_fail2ban x)) = Some x"
    by (simp add: enc_fail2ban_def dec_fail2ban_def zero_fail2ban_def ok_fail2ban_def maxNestingDepth_def )
qed (simp_all add: enc_fail2ban_def)

definition zero_ssh_counts :: SshJournalCountsResult where
  "zero_ssh_counts = \<lparr>sj_Present = False, sj_AcceptedLast24h = 0, sj_FailedLast24h = 0, sj_Truncated = False,
     sj_OldestEntryUnixS = 0, sj_BootUnixS = 0\<rparr>"

definition enc_ssh_counts :: "SshJournalCountsResult \<Rightarrow> json" where
  "enc_ssh_counts x = JObj
     (field ''present'' (JBool (sj_Present x)) @
      field ''accepted_last_24h'' (json_int (sj_AcceptedLast24h x)) @
      field ''failed_last_24h'' (json_int (sj_FailedLast24h x)) @
      omit_bool ''truncated'' (sj_Truncated x) @
      omit_int ''oldest_entry_unix_s'' (sj_OldestEntryUnixS x) @
      omit_int ''boot_unix_s'' (sj_BootUnixS x))"

definition dec_ssh_counts :: "SshJournalCountsResult decoder" where
  "dec_ssh_counts old s = do {
     ms \<leftarrow> dec_struct s;
     va \<leftarrow> dec_field dec_bool (sj_Present old) ms ''present'';
     vb \<leftarrow> dec_field dec_int (sj_AcceptedLast24h old) ms ''accepted_last_24h'';
     vc \<leftarrow> dec_field dec_int (sj_FailedLast24h old) ms ''failed_last_24h'';
     vd \<leftarrow> dec_field dec_bool (sj_Truncated old) ms ''truncated'';
     ve \<leftarrow> dec_field dec_int (sj_OldestEntryUnixS old) ms ''oldest_entry_unix_s'';
     vf \<leftarrow> dec_field dec_int (sj_BootUnixS old) ms ''boot_unix_s'';
     Some \<lparr>sj_Present = va, sj_AcceptedLast24h = vb, sj_FailedLast24h = vc, sj_Truncated = vd,
       sj_OldestEntryUnixS = ve, sj_BootUnixS = vf\<rparr> }"

definition ok_ssh_counts :: "SshJournalCountsResult \<Rightarrow> bool" where
  "ok_ssh_counts x \<longleftrightarrow>
     int64_ok (sj_AcceptedLast24h x) \<and> int64_ok (sj_FailedLast24h x) \<and>
     int64_ok (sj_OldestEntryUnixS x) \<and> int64_ok (sj_BootUnixS x)"

interpretation wire_ssh_counts: wire_type enc_ssh_counts dec_ssh_counts zero_ssh_counts ok_ssh_counts "Suc (0)"
proof unfold_locales
  fix x
  assume ok: "ok_ssh_counts x"
  then show f: "fits (Suc (0)) (enc_ssh_counts x)" unfolding enc_ssh_counts_def
    by (intro fits_object) (simp add: ok_ssh_counts_def )
  from dec_struct_written [OF f [unfolded enc_ssh_counts_def]] ok
  show "dec_ssh_counts zero_ssh_counts (marshal_json (enc_ssh_counts x)) = Some x"
    by (simp add: enc_ssh_counts_def dec_ssh_counts_def zero_ssh_counts_def ok_ssh_counts_def maxNestingDepth_def )
qed (simp_all add: enc_ssh_counts_def)

definition zero_postqueue :: PostqueueResult where
  "zero_postqueue = \<lparr>pq_QueueDepth = 0, pq_DeferredCount = 0\<rparr>"

definition enc_postqueue :: "PostqueueResult \<Rightarrow> json" where
  "enc_postqueue x = JObj
     (field ''queue_depth'' (json_int (pq_QueueDepth x)) @
      field ''deferred_count'' (json_int (pq_DeferredCount x)))"

definition dec_postqueue :: "PostqueueResult decoder" where
  "dec_postqueue old s = do {
     ms \<leftarrow> dec_struct s;
     va \<leftarrow> dec_field dec_int (pq_QueueDepth old) ms ''queue_depth'';
     vb \<leftarrow> dec_field dec_int (pq_DeferredCount old) ms ''deferred_count'';
     Some \<lparr>pq_QueueDepth = va, pq_DeferredCount = vb\<rparr> }"

definition ok_postqueue :: "PostqueueResult \<Rightarrow> bool" where
  "ok_postqueue x \<longleftrightarrow>
     int64_ok (pq_QueueDepth x) \<and> int64_ok (pq_DeferredCount x)"

interpretation wire_postqueue: wire_type enc_postqueue dec_postqueue zero_postqueue ok_postqueue "Suc (0)"
proof unfold_locales
  fix x
  assume ok: "ok_postqueue x"
  then show f: "fits (Suc (0)) (enc_postqueue x)" unfolding enc_postqueue_def
    by (intro fits_object) (simp add: ok_postqueue_def )
  from dec_struct_written [OF f [unfolded enc_postqueue_def]] ok
  show "dec_postqueue zero_postqueue (marshal_json (enc_postqueue x)) = Some x"
    by (simp add: enc_postqueue_def dec_postqueue_def zero_postqueue_def ok_postqueue_def maxNestingDepth_def )
qed (simp_all add: enc_postqueue_def)

definition zero_dovecot :: DovecotStatusResult where
  "zero_dovecot = \<lparr>dv_ProcessState = [], dv_ConnectionCount = 0, dv_Warning = []\<rparr>"

definition enc_dovecot :: "DovecotStatusResult \<Rightarrow> json" where
  "enc_dovecot x = JObj
     (field ''process_state'' (JStr (dv_ProcessState x)) @
      field ''connection_count'' (json_int (dv_ConnectionCount x)) @
      omit_str ''warning'' (dv_Warning x))"

definition dec_dovecot :: "DovecotStatusResult decoder" where
  "dec_dovecot old s = do {
     ms \<leftarrow> dec_struct s;
     va \<leftarrow> dec_field dec_string (dv_ProcessState old) ms ''process_state'';
     vb \<leftarrow> dec_field dec_int (dv_ConnectionCount old) ms ''connection_count'';
     vc \<leftarrow> dec_field dec_string (dv_Warning old) ms ''warning'';
     Some \<lparr>dv_ProcessState = va, dv_ConnectionCount = vb, dv_Warning = vc\<rparr> }"

definition ok_dovecot :: "DovecotStatusResult \<Rightarrow> bool" where
  "ok_dovecot x \<longleftrightarrow>
     utf8_valid (dv_ProcessState x) \<and> int64_ok (dv_ConnectionCount x) \<and> utf8_valid (dv_Warning x)"

interpretation wire_dovecot: wire_type enc_dovecot dec_dovecot zero_dovecot ok_dovecot "Suc (0)"
proof unfold_locales
  fix x
  assume ok: "ok_dovecot x"
  then show f: "fits (Suc (0)) (enc_dovecot x)" unfolding enc_dovecot_def
    by (intro fits_object) (simp add: ok_dovecot_def )
  from dec_struct_written [OF f [unfolded enc_dovecot_def]] ok
  show "dec_dovecot zero_dovecot (marshal_json (enc_dovecot x)) = Some x"
    by (simp add: enc_dovecot_def dec_dovecot_def zero_dovecot_def ok_dovecot_def maxNestingDepth_def )
qed (simp_all add: enc_dovecot_def)

definition zero_nginx :: NginxApacheStatusResult where
  "zero_nginx = \<lparr>ng_Server = [], ng_WorkerCount = 0, ng_Recent4xx = None, ng_Recent5xx = None,
     ng_RecentWindowMinutes = 0, ng_RecentCoverage = [], ng_Warning = []\<rparr>"

definition enc_nginx :: "NginxApacheStatusResult \<Rightarrow> json" where
  "enc_nginx x = JObj
     (field ''server'' (JStr (ng_Server x)) @
      field ''worker_count'' (json_int (ng_WorkerCount x)) @
      field ''recent_4xx'' (json_ptr json_int (ng_Recent4xx x)) @
      field ''recent_5xx'' (json_ptr json_int (ng_Recent5xx x)) @
      field ''recent_window_minutes'' (json_int (ng_RecentWindowMinutes x)) @
      field ''recent_coverage'' (JStr (ng_RecentCoverage x)) @
      omit_str ''warning'' (ng_Warning x))"

definition dec_nginx :: "NginxApacheStatusResult decoder" where
  "dec_nginx old s = do {
     ms \<leftarrow> dec_struct s;
     va \<leftarrow> dec_field dec_string (ng_Server old) ms ''server'';
     vb \<leftarrow> dec_field dec_int (ng_WorkerCount old) ms ''worker_count'';
     vc \<leftarrow> dec_field (dec_ptr dec_int 0) (ng_Recent4xx old) ms ''recent_4xx'';
     vd \<leftarrow> dec_field (dec_ptr dec_int 0) (ng_Recent5xx old) ms ''recent_5xx'';
     ve \<leftarrow> dec_field dec_int (ng_RecentWindowMinutes old) ms ''recent_window_minutes'';
     vf \<leftarrow> dec_field dec_string (ng_RecentCoverage old) ms ''recent_coverage'';
     vg \<leftarrow> dec_field dec_string (ng_Warning old) ms ''warning'';
     Some \<lparr>ng_Server = va, ng_WorkerCount = vb, ng_Recent4xx = vc, ng_Recent5xx = vd, ng_RecentWindowMinutes = ve,
       ng_RecentCoverage = vf, ng_Warning = vg\<rparr> }"

definition ok_nginx :: "NginxApacheStatusResult \<Rightarrow> bool" where
  "ok_nginx x \<longleftrightarrow>
     utf8_valid (ng_Server x) \<and> int64_ok (ng_WorkerCount x) \<and>
     pred_option int64_ok (ng_Recent4xx x) \<and> pred_option int64_ok (ng_Recent5xx x) \<and>
     int64_ok (ng_RecentWindowMinutes x) \<and> utf8_valid (ng_RecentCoverage x) \<and>
     utf8_valid (ng_Warning x)"

interpretation wire_nginx: wire_type enc_nginx dec_nginx zero_nginx ok_nginx "Suc (0)"
proof unfold_locales
  fix x
  assume ok: "ok_nginx x"
  then show f: "fits (Suc (0)) (enc_nginx x)" unfolding enc_nginx_def
    by (intro fits_object) (simp add: ok_nginx_def wire_int.ptr_rules wire_int.wire_rules)
  from dec_struct_written [OF f [unfolded enc_nginx_def]] ok
  show "dec_nginx zero_nginx (marshal_json (enc_nginx x)) = Some x"
    by (simp add: enc_nginx_def dec_nginx_def zero_nginx_def ok_nginx_def maxNestingDepth_def wire_int.ptr_rules wire_int.wire_rules)
qed (simp_all add: enc_nginx_def)

definition zero_lvm_vg :: LvmVg where
  "zero_lvm_vg = \<lparr>vg_Name = [], vg_SizeB = 0, vg_FreeB = 0\<rparr>"

definition enc_lvm_vg :: "LvmVg \<Rightarrow> json" where
  "enc_lvm_vg x = JObj
     (field ''name'' (JStr (vg_Name x)) @
      field ''size_b'' (json_int (vg_SizeB x)) @
      field ''free_b'' (json_int (vg_FreeB x)))"

definition dec_lvm_vg :: "LvmVg decoder" where
  "dec_lvm_vg old s = do {
     ms \<leftarrow> dec_struct s;
     va \<leftarrow> dec_field dec_string (vg_Name old) ms ''name'';
     vb \<leftarrow> dec_field dec_int (vg_SizeB old) ms ''size_b'';
     vc \<leftarrow> dec_field dec_int (vg_FreeB old) ms ''free_b'';
     Some \<lparr>vg_Name = va, vg_SizeB = vb, vg_FreeB = vc\<rparr> }"

definition ok_lvm_vg :: "LvmVg \<Rightarrow> bool" where
  "ok_lvm_vg x \<longleftrightarrow>
     utf8_valid (vg_Name x) \<and> int64_ok (vg_SizeB x) \<and> int64_ok (vg_FreeB x)"

interpretation wire_lvm_vg: wire_type enc_lvm_vg dec_lvm_vg zero_lvm_vg ok_lvm_vg "Suc (0)"
proof unfold_locales
  fix x
  assume ok: "ok_lvm_vg x"
  then show f: "fits (Suc (0)) (enc_lvm_vg x)" unfolding enc_lvm_vg_def
    by (intro fits_object) (simp add: ok_lvm_vg_def )
  from dec_struct_written [OF f [unfolded enc_lvm_vg_def]] ok
  show "dec_lvm_vg zero_lvm_vg (marshal_json (enc_lvm_vg x)) = Some x"
    by (simp add: enc_lvm_vg_def dec_lvm_vg_def zero_lvm_vg_def ok_lvm_vg_def maxNestingDepth_def )
qed (simp_all add: enc_lvm_vg_def)

definition zero_lvm_lv :: LvmLv where
  "zero_lvm_lv = \<lparr>lv_VG = [], lv_Name = [], lv_SizeB = 0, lv_HealthStatus = None\<rparr>"

definition enc_lvm_lv :: "LvmLv \<Rightarrow> json" where
  "enc_lvm_lv x = JObj
     (field ''vg'' (JStr (lv_VG x)) @
      field ''name'' (JStr (lv_Name x)) @
      field ''size_b'' (json_int (lv_SizeB x)) @
      field ''health_status'' (json_ptr JStr (lv_HealthStatus x)))"

definition dec_lvm_lv :: "LvmLv decoder" where
  "dec_lvm_lv old s = do {
     ms \<leftarrow> dec_struct s;
     va \<leftarrow> dec_field dec_string (lv_VG old) ms ''vg'';
     vb \<leftarrow> dec_field dec_string (lv_Name old) ms ''name'';
     vc \<leftarrow> dec_field dec_int (lv_SizeB old) ms ''size_b'';
     vd \<leftarrow> dec_field (dec_ptr dec_string []) (lv_HealthStatus old) ms ''health_status'';
     Some \<lparr>lv_VG = va, lv_Name = vb, lv_SizeB = vc, lv_HealthStatus = vd\<rparr> }"

definition ok_lvm_lv :: "LvmLv \<Rightarrow> bool" where
  "ok_lvm_lv x \<longleftrightarrow>
     utf8_valid (lv_VG x) \<and> utf8_valid (lv_Name x) \<and> int64_ok (lv_SizeB x) \<and>
     pred_option utf8_valid (lv_HealthStatus x)"

interpretation wire_lvm_lv: wire_type enc_lvm_lv dec_lvm_lv zero_lvm_lv ok_lvm_lv "Suc (0)"
proof unfold_locales
  fix x
  assume ok: "ok_lvm_lv x"
  then show f: "fits (Suc (0)) (enc_lvm_lv x)" unfolding enc_lvm_lv_def
    by (intro fits_object) (simp add: ok_lvm_lv_def wire_string.ptr_rules wire_string.wire_rules)
  from dec_struct_written [OF f [unfolded enc_lvm_lv_def]] ok
  show "dec_lvm_lv zero_lvm_lv (marshal_json (enc_lvm_lv x)) = Some x"
    by (simp add: enc_lvm_lv_def dec_lvm_lv_def zero_lvm_lv_def ok_lvm_lv_def maxNestingDepth_def wire_string.ptr_rules wire_string.wire_rules)
qed (simp_all add: enc_lvm_lv_def)

definition zero_lvm_report :: LvmReportResult where
  "zero_lvm_report = \<lparr>lvm_VGs = [], lvm_LVs = []\<rparr>"

definition enc_lvm_report :: "LvmReportResult \<Rightarrow> json" where
  "enc_lvm_report x = JObj
     (field ''vgs'' (json_slice enc_lvm_vg (Some (lvm_VGs x))) @
      field ''lvs'' (json_slice enc_lvm_lv (Some (lvm_LVs x))))"

definition dec_lvm_report :: "LvmReportResult decoder" where
  "dec_lvm_report old s = do {
     ms \<leftarrow> dec_struct s;
     va \<leftarrow> dec_field (dec_slice dec_lvm_vg zero_lvm_vg) None ms ''vgs'';
     vb \<leftarrow> dec_field (dec_slice dec_lvm_lv zero_lvm_lv) None ms ''lvs'';
     Some \<lparr>lvm_VGs = elems va, lvm_LVs = elems vb\<rparr> }"

definition ok_lvm_report :: "LvmReportResult \<Rightarrow> bool" where
  "ok_lvm_report x \<longleftrightarrow>
     list_all ok_lvm_vg (lvm_VGs x) \<and> list_all ok_lvm_lv (lvm_LVs x)"

interpretation wire_lvm_report: wire_type enc_lvm_report dec_lvm_report zero_lvm_report ok_lvm_report "Suc (Suc (Suc 0))"
proof unfold_locales
  fix x
  assume ok: "ok_lvm_report x"
  then show f: "fits (Suc (Suc (Suc 0))) (enc_lvm_report x)" unfolding enc_lvm_report_def
    by (intro fits_object) (simp add: ok_lvm_report_def wire_lvm_lv.wire_rules wire_lvm_vg.wire_rules)
  from dec_struct_written [OF f [unfolded enc_lvm_report_def]] ok
  show "dec_lvm_report zero_lvm_report (marshal_json (enc_lvm_report x)) = Some x"
    by (simp add: enc_lvm_report_def dec_lvm_report_def zero_lvm_report_def ok_lvm_report_def maxNestingDepth_def wire_lvm_lv.wire_rules wire_lvm_vg.wire_rules)
qed (simp_all add: enc_lvm_report_def)

definition zero_zfs_pool :: ZfsPool where
  "zero_zfs_pool = \<lparr>zp_Name = [], zp_State = [], zp_ScanState = [], zp_ErrorsTotal = 0\<rparr>"

definition enc_zfs_pool :: "ZfsPool \<Rightarrow> json" where
  "enc_zfs_pool x = JObj
     (field ''name'' (JStr (zp_Name x)) @
      field ''state'' (JStr (zp_State x)) @
      field ''scan_state'' (JStr (zp_ScanState x)) @
      field ''errors_total'' (json_int (zp_ErrorsTotal x)))"

definition dec_zfs_pool :: "ZfsPool decoder" where
  "dec_zfs_pool old s = do {
     ms \<leftarrow> dec_struct s;
     va \<leftarrow> dec_field dec_string (zp_Name old) ms ''name'';
     vb \<leftarrow> dec_field dec_string (zp_State old) ms ''state'';
     vc \<leftarrow> dec_field dec_string (zp_ScanState old) ms ''scan_state'';
     vd \<leftarrow> dec_field dec_int (zp_ErrorsTotal old) ms ''errors_total'';
     Some \<lparr>zp_Name = va, zp_State = vb, zp_ScanState = vc, zp_ErrorsTotal = vd\<rparr> }"

definition ok_zfs_pool :: "ZfsPool \<Rightarrow> bool" where
  "ok_zfs_pool x \<longleftrightarrow>
     utf8_valid (zp_Name x) \<and> utf8_valid (zp_State x) \<and> utf8_valid (zp_ScanState x) \<and>
     int64_ok (zp_ErrorsTotal x)"

interpretation wire_zfs_pool: wire_type enc_zfs_pool dec_zfs_pool zero_zfs_pool ok_zfs_pool "Suc (0)"
proof unfold_locales
  fix x
  assume ok: "ok_zfs_pool x"
  then show f: "fits (Suc (0)) (enc_zfs_pool x)" unfolding enc_zfs_pool_def
    by (intro fits_object) (simp add: ok_zfs_pool_def )
  from dec_struct_written [OF f [unfolded enc_zfs_pool_def]] ok
  show "dec_zfs_pool zero_zfs_pool (marshal_json (enc_zfs_pool x)) = Some x"
    by (simp add: enc_zfs_pool_def dec_zfs_pool_def zero_zfs_pool_def ok_zfs_pool_def maxNestingDepth_def )
qed (simp_all add: enc_zfs_pool_def)

definition zero_smart_summary :: SmartSummary where
  "zero_smart_summary = \<lparr>sm_Device = [], sm_Model = None, sm_SmartOverall = None, sm_TemperatureC = None,
     sm_ReallocatedSectors = None, sm_PowerOnHours = None, sm_SmartctlExitCode = None\<rparr>"

definition enc_smart_summary :: "SmartSummary \<Rightarrow> json" where
  "enc_smart_summary x = JObj
     (field ''device'' (JStr (sm_Device x)) @
      omit_ptr JStr ''model'' (sm_Model x) @
      omit_ptr JStr ''smart_overall'' (sm_SmartOverall x) @
      omit_ptr json_int ''temperature_c'' (sm_TemperatureC x) @
      omit_ptr json_int ''reallocated_sectors'' (sm_ReallocatedSectors x) @
      omit_ptr json_int ''power_on_hours'' (sm_PowerOnHours x) @
      omit_ptr json_int ''smartctl_exit_code'' (sm_SmartctlExitCode x))"

definition dec_smart_summary :: "SmartSummary decoder" where
  "dec_smart_summary old s = do {
     ms \<leftarrow> dec_struct s;
     va \<leftarrow> dec_field dec_string (sm_Device old) ms ''device'';
     vb \<leftarrow> dec_field (dec_ptr dec_string []) (sm_Model old) ms ''model'';
     vc \<leftarrow> dec_field (dec_ptr dec_string []) (sm_SmartOverall old) ms ''smart_overall'';
     vd \<leftarrow> dec_field (dec_ptr dec_int 0) (sm_TemperatureC old) ms ''temperature_c'';
     ve \<leftarrow> dec_field (dec_ptr dec_int 0) (sm_ReallocatedSectors old) ms ''reallocated_sectors'';
     vf \<leftarrow> dec_field (dec_ptr dec_int 0) (sm_PowerOnHours old) ms ''power_on_hours'';
     vg \<leftarrow> dec_field (dec_ptr dec_int 0) (sm_SmartctlExitCode old) ms ''smartctl_exit_code'';
     Some \<lparr>sm_Device = va, sm_Model = vb, sm_SmartOverall = vc, sm_TemperatureC = vd, sm_ReallocatedSectors = ve,
       sm_PowerOnHours = vf, sm_SmartctlExitCode = vg\<rparr> }"

definition ok_smart_summary :: "SmartSummary \<Rightarrow> bool" where
  "ok_smart_summary x \<longleftrightarrow>
     utf8_valid (sm_Device x) \<and> pred_option utf8_valid (sm_Model x) \<and>
     pred_option utf8_valid (sm_SmartOverall x) \<and> pred_option int64_ok (sm_TemperatureC x) \<and>
     pred_option int64_ok (sm_ReallocatedSectors x) \<and> pred_option int64_ok (sm_PowerOnHours x) \<and>
     pred_option int64_ok (sm_SmartctlExitCode x)"

interpretation wire_smart_summary: wire_type enc_smart_summary dec_smart_summary zero_smart_summary ok_smart_summary "Suc (0)"
proof unfold_locales
  fix x
  assume ok: "ok_smart_summary x"
  then show f: "fits (Suc (0)) (enc_smart_summary x)" unfolding enc_smart_summary_def
    by (intro fits_object) (simp add: ok_smart_summary_def wire_int.wire_rules wire_string.wire_rules)
  from dec_struct_written [OF f [unfolded enc_smart_summary_def]] ok
  show "dec_smart_summary zero_smart_summary (marshal_json (enc_smart_summary x)) = Some x"
    by (simp add: enc_smart_summary_def dec_smart_summary_def zero_smart_summary_def ok_smart_summary_def maxNestingDepth_def wire_int.wire_rules wire_string.wire_rules)
qed (simp_all add: enc_smart_summary_def)

definition zero_apt :: AptPendingResult where
  "zero_apt = \<lparr>ap_LockState = [], ap_SecurityUpdatesPending = None, ap_RegularUpdatesPending = None,
     ap_HeldPackages = None\<rparr>"

definition enc_apt :: "AptPendingResult \<Rightarrow> json" where
  "enc_apt x = JObj
     (field ''lock_state'' (JStr (ap_LockState x)) @
      field ''security_updates_pending'' (json_ptr json_int (ap_SecurityUpdatesPending x)) @
      field ''regular_updates_pending'' (json_ptr json_int (ap_RegularUpdatesPending x)) @
      field ''held_packages'' (json_slice JStr (ap_HeldPackages x)))"

definition dec_apt :: "AptPendingResult decoder" where
  "dec_apt old s = do {
     ms \<leftarrow> dec_struct s;
     va \<leftarrow> dec_field dec_string (ap_LockState old) ms ''lock_state'';
     vb \<leftarrow> dec_field (dec_ptr dec_int 0) (ap_SecurityUpdatesPending old) ms ''security_updates_pending'';
     vc \<leftarrow> dec_field (dec_ptr dec_int 0) (ap_RegularUpdatesPending old) ms ''regular_updates_pending'';
     vd \<leftarrow> dec_field (dec_slice dec_string []) (ap_HeldPackages old) ms ''held_packages'';
     Some \<lparr>ap_LockState = va, ap_SecurityUpdatesPending = vb, ap_RegularUpdatesPending = vc, ap_HeldPackages = vd\<rparr> }"

definition ok_apt :: "AptPendingResult \<Rightarrow> bool" where
  "ok_apt x \<longleftrightarrow>
     utf8_valid (ap_LockState x) \<and> pred_option int64_ok (ap_SecurityUpdatesPending x) \<and>
     pred_option int64_ok (ap_RegularUpdatesPending x) \<and>
     pred_option (list_all utf8_valid) (ap_HeldPackages x)"

interpretation wire_apt: wire_type enc_apt dec_apt zero_apt ok_apt "Suc (Suc 0)"
proof unfold_locales
  fix x
  assume ok: "ok_apt x"
  then show f: "fits (Suc (Suc 0)) (enc_apt x)" unfolding enc_apt_def
    by (intro fits_object) (simp add: ok_apt_def wire_int.ptr_rules wire_int.wire_rules wire_string.nil_rules wire_string.wire_rules)
  from dec_struct_written [OF f [unfolded enc_apt_def]] ok
  show "dec_apt zero_apt (marshal_json (enc_apt x)) = Some x"
    by (simp add: enc_apt_def dec_apt_def zero_apt_def ok_apt_def maxNestingDepth_def wire_int.ptr_rules wire_int.wire_rules wire_string.nil_rules wire_string.wire_rules)
qed (simp_all add: enc_apt_def)

definition zero_aide_summary :: AideSummary where
  "zero_aide_summary = \<lparr>ai_Present = False, ai_LastRunTS = None, ai_LastExitCode = None, ai_ChangeCount = None\<rparr>"

definition enc_aide_summary :: "(time \<Rightarrow> bytes) \<Rightarrow> AideSummary \<Rightarrow> json" where
  "enc_aide_summary tf x = JObj
     (field ''present'' (JBool (ai_Present x)) @
      field ''last_run_ts'' (json_ptr (enc_time tf) (ai_LastRunTS x)) @
      field ''last_exit_code'' (json_ptr json_int (ai_LastExitCode x)) @
      field ''change_count'' (json_ptr json_int (ai_ChangeCount x)))"

definition dec_aide_summary :: "world \<Rightarrow> AideSummary decoder" where
  "dec_aide_summary w old s = do {
     ms \<leftarrow> dec_struct s;
     va \<leftarrow> dec_field dec_bool (ai_Present old) ms ''present'';
     vb \<leftarrow> dec_field (dec_ptr (dec_time w) zero_time) (ai_LastRunTS old) ms ''last_run_ts'';
     vc \<leftarrow> dec_field (dec_ptr dec_int 0) (ai_LastExitCode old) ms ''last_exit_code'';
     vd \<leftarrow> dec_field (dec_ptr dec_int 0) (ai_ChangeCount old) ms ''change_count'';
     Some \<lparr>ai_Present = va, ai_LastRunTS = vb, ai_LastExitCode = vc, ai_ChangeCount = vd\<rparr> }"

definition ok_aide_summary :: "world \<Rightarrow> (time \<Rightarrow> bytes) \<Rightarrow> AideSummary \<Rightarrow> bool" where
  "ok_aide_summary w tf x \<longleftrightarrow>
     pred_option (time_ok w tf) (ai_LastRunTS x) \<and> pred_option int64_ok (ai_LastExitCode x) \<and>
     pred_option int64_ok (ai_ChangeCount x)"

interpretation wire_aide_summary: wire_type "enc_aide_summary tf" "dec_aide_summary w" zero_aide_summary "ok_aide_summary w tf" "Suc (0)" for w tf
proof unfold_locales
  fix x
  assume ok: "ok_aide_summary w tf x"
  then show f: "fits (Suc (0)) (enc_aide_summary tf x)" unfolding enc_aide_summary_def
    by (intro fits_object) (simp add: ok_aide_summary_def wire_int.ptr_rules wire_int.wire_rules wire_time.ptr_rules [where w = w] wire_time.wire_rules [where w = w])
  from dec_struct_written [OF f [unfolded enc_aide_summary_def]] ok
  show "dec_aide_summary w zero_aide_summary (marshal_json (enc_aide_summary tf x)) = Some x"
    by (simp add: enc_aide_summary_def dec_aide_summary_def zero_aide_summary_def ok_aide_summary_def maxNestingDepth_def wire_int.ptr_rules wire_int.wire_rules wire_time.ptr_rules [where w = w] wire_time.wire_rules [where w = w])
qed (simp_all add: enc_aide_summary_def)

definition zero_audit_status :: AuditStatus where
  "zero_audit_status = \<lparr>ad_Present = False, ad_QueueDepth = None, ad_LostEvents = None, ad_LastRotationTS = None,
     ad_NetlinkError = []\<rparr>"

definition enc_audit_status :: "(time \<Rightarrow> bytes) \<Rightarrow> AuditStatus \<Rightarrow> json" where
  "enc_audit_status tf x = JObj
     (field ''present'' (JBool (ad_Present x)) @
      field ''queue_depth'' (json_ptr json_int (ad_QueueDepth x)) @
      field ''lost_events'' (json_ptr json_int (ad_LostEvents x)) @
      field ''last_rotation_ts'' (json_ptr (enc_time tf) (ad_LastRotationTS x)) @
      omit_str ''netlink_error'' (ad_NetlinkError x))"

definition dec_audit_status :: "world \<Rightarrow> AuditStatus decoder" where
  "dec_audit_status w old s = do {
     ms \<leftarrow> dec_struct s;
     va \<leftarrow> dec_field dec_bool (ad_Present old) ms ''present'';
     vb \<leftarrow> dec_field (dec_ptr dec_int 0) (ad_QueueDepth old) ms ''queue_depth'';
     vc \<leftarrow> dec_field (dec_ptr dec_int 0) (ad_LostEvents old) ms ''lost_events'';
     vd \<leftarrow> dec_field (dec_ptr (dec_time w) zero_time) (ad_LastRotationTS old) ms ''last_rotation_ts'';
     ve \<leftarrow> dec_field dec_string (ad_NetlinkError old) ms ''netlink_error'';
     Some \<lparr>ad_Present = va, ad_QueueDepth = vb, ad_LostEvents = vc, ad_LastRotationTS = vd, ad_NetlinkError = ve\<rparr> }"

definition ok_audit_status :: "world \<Rightarrow> (time \<Rightarrow> bytes) \<Rightarrow> AuditStatus \<Rightarrow> bool" where
  "ok_audit_status w tf x \<longleftrightarrow>
     pred_option int64_ok (ad_QueueDepth x) \<and> pred_option int64_ok (ad_LostEvents x) \<and>
     pred_option (time_ok w tf) (ad_LastRotationTS x) \<and> utf8_valid (ad_NetlinkError x)"

interpretation wire_audit_status: wire_type "enc_audit_status tf" "dec_audit_status w" zero_audit_status "ok_audit_status w tf" "Suc (0)" for w tf
proof unfold_locales
  fix x
  assume ok: "ok_audit_status w tf x"
  then show f: "fits (Suc (0)) (enc_audit_status tf x)" unfolding enc_audit_status_def
    by (intro fits_object) (simp add: ok_audit_status_def wire_int.ptr_rules wire_int.wire_rules wire_time.ptr_rules [where w = w] wire_time.wire_rules [where w = w])
  from dec_struct_written [OF f [unfolded enc_audit_status_def]] ok
  show "dec_audit_status w zero_audit_status (marshal_json (enc_audit_status tf x)) = Some x"
    by (simp add: enc_audit_status_def dec_audit_status_def zero_audit_status_def ok_audit_status_def maxNestingDepth_def wire_int.ptr_rules wire_int.wire_rules wire_time.ptr_rules [where w = w] wire_time.wire_rules [where w = w])
qed (simp_all add: enc_audit_status_def)

definition zero_rkhunter_summary :: RkhunterSummaryResult where
  "zero_rkhunter_summary = \<lparr>rk_Present = False, rk_LastRunTS = None, rk_WarningCount = None\<rparr>"

definition enc_rkhunter :: "(time \<Rightarrow> bytes) \<Rightarrow> RkhunterSummaryResult \<Rightarrow> json" where
  "enc_rkhunter tf x = JObj
     (field ''present'' (JBool (rk_Present x)) @
      field ''last_run_ts'' (json_ptr (enc_time tf) (rk_LastRunTS x)) @
      field ''warning_count'' (json_ptr json_int (rk_WarningCount x)))"

definition dec_rkhunter :: "world \<Rightarrow> RkhunterSummaryResult decoder" where
  "dec_rkhunter w old s = do {
     ms \<leftarrow> dec_struct s;
     va \<leftarrow> dec_field dec_bool (rk_Present old) ms ''present'';
     vb \<leftarrow> dec_field (dec_ptr (dec_time w) zero_time) (rk_LastRunTS old) ms ''last_run_ts'';
     vc \<leftarrow> dec_field (dec_ptr dec_int 0) (rk_WarningCount old) ms ''warning_count'';
     Some \<lparr>rk_Present = va, rk_LastRunTS = vb, rk_WarningCount = vc\<rparr> }"

definition ok_rkhunter :: "world \<Rightarrow> (time \<Rightarrow> bytes) \<Rightarrow> RkhunterSummaryResult \<Rightarrow> bool" where
  "ok_rkhunter w tf x \<longleftrightarrow>
     pred_option (time_ok w tf) (rk_LastRunTS x) \<and> pred_option int64_ok (rk_WarningCount x)"

interpretation wire_rkhunter: wire_type "enc_rkhunter tf" "dec_rkhunter w" zero_rkhunter_summary "ok_rkhunter w tf" "Suc (0)" for w tf
proof unfold_locales
  fix x
  assume ok: "ok_rkhunter w tf x"
  then show f: "fits (Suc (0)) (enc_rkhunter tf x)" unfolding enc_rkhunter_def
    by (intro fits_object) (simp add: ok_rkhunter_def wire_int.ptr_rules wire_int.wire_rules wire_time.ptr_rules [where w = w] wire_time.wire_rules [where w = w])
  from dec_struct_written [OF f [unfolded enc_rkhunter_def]] ok
  show "dec_rkhunter w zero_rkhunter_summary (marshal_json (enc_rkhunter tf x)) = Some x"
    by (simp add: enc_rkhunter_def dec_rkhunter_def zero_rkhunter_summary_def ok_rkhunter_def maxNestingDepth_def wire_int.ptr_rules wire_int.wire_rules wire_time.ptr_rules [where w = w] wire_time.wire_rules [where w = w])
qed (simp_all add: enc_rkhunter_def)

definition zero_timer :: SystemdTimerLastTriggerResult where
  "zero_timer = \<lparr>st_Present = False, st_LastTrigger = None\<rparr>"

definition enc_timer :: "(time \<Rightarrow> bytes) \<Rightarrow> SystemdTimerLastTriggerResult \<Rightarrow> json" where
  "enc_timer tf x = JObj
     (field ''present'' (JBool (st_Present x)) @
      field ''last_trigger'' (json_ptr (enc_time tf) (st_LastTrigger x)))"

definition dec_timer :: "world \<Rightarrow> SystemdTimerLastTriggerResult decoder" where
  "dec_timer w old s = do {
     ms \<leftarrow> dec_struct s;
     va \<leftarrow> dec_field dec_bool (st_Present old) ms ''present'';
     vb \<leftarrow> dec_field (dec_ptr (dec_time w) zero_time) (st_LastTrigger old) ms ''last_trigger'';
     Some \<lparr>st_Present = va, st_LastTrigger = vb\<rparr> }"

definition ok_timer :: "world \<Rightarrow> (time \<Rightarrow> bytes) \<Rightarrow> SystemdTimerLastTriggerResult \<Rightarrow> bool" where
  "ok_timer w tf x \<longleftrightarrow>
     pred_option (time_ok w tf) (st_LastTrigger x)"

interpretation wire_timer: wire_type "enc_timer tf" "dec_timer w" zero_timer "ok_timer w tf" "Suc (0)" for w tf
proof unfold_locales
  fix x
  assume ok: "ok_timer w tf x"
  then show f: "fits (Suc (0)) (enc_timer tf x)" unfolding enc_timer_def
    by (intro fits_object) (simp add: ok_timer_def wire_time.ptr_rules [where w = w] wire_time.wire_rules [where w = w])
  from dec_struct_written [OF f [unfolded enc_timer_def]] ok
  show "dec_timer w zero_timer (marshal_json (enc_timer tf x)) = Some x"
    by (simp add: enc_timer_def dec_timer_def zero_timer_def ok_timer_def maxNestingDepth_def wire_time.ptr_rules [where w = w] wire_time.wire_rules [where w = w])
qed (simp_all add: enc_timer_def)

definition zero_unattended :: UnattendedUpgradesStatusResult where
  "zero_unattended = \<lparr>uu_Enabled = False, uu_LastRunTS = None, uu_LastExitCode = None\<rparr>"

definition enc_unattended :: "(time \<Rightarrow> bytes) \<Rightarrow> UnattendedUpgradesStatusResult \<Rightarrow> json" where
  "enc_unattended tf x = JObj
     (field ''enabled'' (JBool (uu_Enabled x)) @
      field ''last_run_ts'' (json_ptr (enc_time tf) (uu_LastRunTS x)) @
      field ''last_exit_code'' (json_ptr json_int (uu_LastExitCode x)))"

definition dec_unattended :: "world \<Rightarrow> UnattendedUpgradesStatusResult decoder" where
  "dec_unattended w old s = do {
     ms \<leftarrow> dec_struct s;
     va \<leftarrow> dec_field dec_bool (uu_Enabled old) ms ''enabled'';
     vb \<leftarrow> dec_field (dec_ptr (dec_time w) zero_time) (uu_LastRunTS old) ms ''last_run_ts'';
     vc \<leftarrow> dec_field (dec_ptr dec_int 0) (uu_LastExitCode old) ms ''last_exit_code'';
     Some \<lparr>uu_Enabled = va, uu_LastRunTS = vb, uu_LastExitCode = vc\<rparr> }"

definition ok_unattended :: "world \<Rightarrow> (time \<Rightarrow> bytes) \<Rightarrow> UnattendedUpgradesStatusResult \<Rightarrow> bool" where
  "ok_unattended w tf x \<longleftrightarrow>
     pred_option (time_ok w tf) (uu_LastRunTS x) \<and> pred_option int64_ok (uu_LastExitCode x)"

interpretation wire_unattended: wire_type "enc_unattended tf" "dec_unattended w" zero_unattended "ok_unattended w tf" "Suc (0)" for w tf
proof unfold_locales
  fix x
  assume ok: "ok_unattended w tf x"
  then show f: "fits (Suc (0)) (enc_unattended tf x)" unfolding enc_unattended_def
    by (intro fits_object) (simp add: ok_unattended_def wire_int.ptr_rules wire_int.wire_rules wire_time.ptr_rules [where w = w] wire_time.wire_rules [where w = w])
  from dec_struct_written [OF f [unfolded enc_unattended_def]] ok
  show "dec_unattended w zero_unattended (marshal_json (enc_unattended tf x)) = Some x"
    by (simp add: enc_unattended_def dec_unattended_def zero_unattended_def ok_unattended_def maxNestingDepth_def wire_int.ptr_rules wire_int.wire_rules wire_time.ptr_rules [where w = w] wire_time.wire_rules [where w = w])
qed (simp_all add: enc_unattended_def)

definition zero_btrfs :: BtrfsScrubResult where
  "zero_btrfs = \<lparr>bt_Mountpoint = [], bt_LastScrubTS = None, bt_LastScrubStatus = None, bt_ErrorsCount = 0\<rparr>"

definition enc_btrfs :: "(time \<Rightarrow> bytes) \<Rightarrow> BtrfsScrubResult \<Rightarrow> json" where
  "enc_btrfs tf x = JObj
     (field ''mountpoint'' (JStr (bt_Mountpoint x)) @
      field ''last_scrub_ts'' (json_ptr (enc_time tf) (bt_LastScrubTS x)) @
      field ''last_scrub_status'' (json_ptr JStr (bt_LastScrubStatus x)) @
      field ''errors_count'' (json_int (bt_ErrorsCount x)))"

definition dec_btrfs :: "world \<Rightarrow> BtrfsScrubResult decoder" where
  "dec_btrfs w old s = do {
     ms \<leftarrow> dec_struct s;
     va \<leftarrow> dec_field dec_string (bt_Mountpoint old) ms ''mountpoint'';
     vb \<leftarrow> dec_field (dec_ptr (dec_time w) zero_time) (bt_LastScrubTS old) ms ''last_scrub_ts'';
     vc \<leftarrow> dec_field (dec_ptr dec_string []) (bt_LastScrubStatus old) ms ''last_scrub_status'';
     vd \<leftarrow> dec_field dec_int (bt_ErrorsCount old) ms ''errors_count'';
     Some \<lparr>bt_Mountpoint = va, bt_LastScrubTS = vb, bt_LastScrubStatus = vc, bt_ErrorsCount = vd\<rparr> }"

definition ok_btrfs :: "world \<Rightarrow> (time \<Rightarrow> bytes) \<Rightarrow> BtrfsScrubResult \<Rightarrow> bool" where
  "ok_btrfs w tf x \<longleftrightarrow>
     utf8_valid (bt_Mountpoint x) \<and> pred_option (time_ok w tf) (bt_LastScrubTS x) \<and>
     pred_option utf8_valid (bt_LastScrubStatus x) \<and> int64_ok (bt_ErrorsCount x)"

interpretation wire_btrfs: wire_type "enc_btrfs tf" "dec_btrfs w" zero_btrfs "ok_btrfs w tf" "Suc (0)" for w tf
proof unfold_locales
  fix x
  assume ok: "ok_btrfs w tf x"
  then show f: "fits (Suc (0)) (enc_btrfs tf x)" unfolding enc_btrfs_def
    by (intro fits_object) (simp add: ok_btrfs_def wire_string.ptr_rules wire_string.wire_rules wire_time.ptr_rules [where w = w] wire_time.wire_rules [where w = w])
  from dec_struct_written [OF f [unfolded enc_btrfs_def]] ok
  show "dec_btrfs w zero_btrfs (marshal_json (enc_btrfs tf x)) = Some x"
    by (simp add: enc_btrfs_def dec_btrfs_def zero_btrfs_def ok_btrfs_def maxNestingDepth_def wire_string.ptr_rules wire_string.wire_rules wire_time.ptr_rules [where w = w] wire_time.wire_rules [where w = w])
qed (simp_all add: enc_btrfs_def)

definition zero_mdraid :: MdraidDetailResult where
  "zero_mdraid = \<lparr>md_ArrayName = [], md_Level = [], md_State = [], md_Devices = [], md_Degraded = False,
     md_SyncProgress = None\<rparr>"

definition enc_mdraid :: "(rat \<Rightarrow> bytes) \<Rightarrow> MdraidDetailResult \<Rightarrow> json" where
  "enc_mdraid ff x = JObj
     (field ''array_name'' (JStr (md_ArrayName x)) @
      field ''level'' (JStr (md_Level x)) @
      field ''state'' (JStr (md_State x)) @
      field ''devices'' (json_slice JStr (nil_if_empty (md_Devices x))) @
      field ''degraded'' (JBool (md_Degraded x)) @
      omit_ptr (enc_float ff) ''sync_progress_pct'' (md_SyncProgress x))"

definition dec_mdraid :: "world \<Rightarrow> MdraidDetailResult decoder" where
  "dec_mdraid w old s = do {
     ms \<leftarrow> dec_struct s;
     va \<leftarrow> dec_field dec_string (md_ArrayName old) ms ''array_name'';
     vb \<leftarrow> dec_field dec_string (md_Level old) ms ''level'';
     vc \<leftarrow> dec_field dec_string (md_State old) ms ''state'';
     vd \<leftarrow> dec_field (dec_slice dec_string []) None ms ''devices'';
     ve \<leftarrow> dec_field dec_bool (md_Degraded old) ms ''degraded'';
     vf \<leftarrow> dec_field (dec_ptr (dec_float w) 0) (md_SyncProgress old) ms ''sync_progress_pct'';
     Some \<lparr>md_ArrayName = va, md_Level = vb, md_State = vc, md_Devices = elems vd, md_Degraded = ve,
       md_SyncProgress = vf\<rparr> }"

definition ok_mdraid :: "world \<Rightarrow> (rat \<Rightarrow> bytes) \<Rightarrow> MdraidDetailResult \<Rightarrow> bool" where
  "ok_mdraid w ff x \<longleftrightarrow>
     utf8_valid (md_ArrayName x) \<and> utf8_valid (md_Level x) \<and> utf8_valid (md_State x) \<and>
     list_all utf8_valid (md_Devices x) \<and> pred_option (float_ok w ff) (md_SyncProgress x)"

interpretation wire_mdraid: wire_type "enc_mdraid ff" "dec_mdraid w" zero_mdraid "ok_mdraid w ff" "Suc (Suc 0)" for w ff
proof unfold_locales
  fix x
  assume ok: "ok_mdraid w ff x"
  then show f: "fits (Suc (Suc 0)) (enc_mdraid ff x)" unfolding enc_mdraid_def
    by (intro fits_object) (simp add: ok_mdraid_def wire_float.wire_rules [where w = w] wire_string.nil_rules wire_string.wire_rules)
  from dec_struct_written [OF f [unfolded enc_mdraid_def]] ok
  show "dec_mdraid w zero_mdraid (marshal_json (enc_mdraid ff x)) = Some x"
    by (simp add: enc_mdraid_def dec_mdraid_def zero_mdraid_def ok_mdraid_def maxNestingDepth_def wire_float.wire_rules [where w = w] wire_string.nil_rules wire_string.wire_rules)
qed (simp_all add: enc_mdraid_def)

section \<open>The types of the ops\<close>

text \<open>Two results are a single slice in a struct.\<close>

definition enc_pools :: "ZfsPool list \<Rightarrow> json" where
  "enc_pools xs = JObj (field ''pools'' (json_slice enc_zfs_pool (Some xs)))"

definition dec_pools :: "ZfsPool list decoder" where
  "dec_pools old s = do {
     ms \<leftarrow> dec_struct s;
     xs \<leftarrow> dec_field (dec_slice dec_zfs_pool zero_zfs_pool) None ms ''pools'';
     Some (elems xs) }"

definition enc_services :: "bytes list \<Rightarrow> json" where
  "enc_services xs = JObj (field ''pending_services'' (json_slice JStr (Some xs)))"

definition dec_services :: "bytes list decoder" where
  "dec_services old s = do {
     ms \<leftarrow> dec_struct s;
     xs \<leftarrow> dec_field (dec_slice dec_string []) None ms ''pending_services'';
     Some (elems xs) }"

interpretation wire_pools: wire_type enc_pools dec_pools "[]" "list_all ok_zfs_pool" "Suc (Suc (Suc 0))"
proof unfold_locales
  fix xs
  assume ok: "list_all ok_zfs_pool xs"
  then show f: "fits (Suc (Suc (Suc 0))) (enc_pools xs)" unfolding enc_pools_def
    by (intro fits_object) (simp add: wire_zfs_pool.wire_rules)
  from dec_struct_written [OF f [unfolded enc_pools_def]] ok show "dec_pools [] (marshal_json (enc_pools xs)) = Some xs"
    by (simp add: enc_pools_def dec_pools_def maxNestingDepth_def wire_zfs_pool.wire_rules)
qed (simp_all add: enc_pools_def)

interpretation wire_services: wire_type enc_services dec_services "[]" "list_all utf8_valid" "Suc (Suc 0)"
proof unfold_locales
  fix xs
  assume ok: "list_all utf8_valid xs"
  then show f: "fits (Suc (Suc 0)) (enc_services xs)" unfolding enc_services_def
    by (intro fits_object) (simp add: wire_string.wire_rules)
  from dec_struct_written [OF f [unfolded enc_services_def]] ok show "dec_services [] (marshal_json (enc_services xs)) = Some xs"
    by (simp add: enc_services_def dec_services_def maxNestingDepth_def wire_string.wire_rules)
qed (simp_all add: enc_services_def)

text \<open>The token of the op a result belongs to.\<close>

fun op_of :: "any_result \<Rightarrow> bytes" where
  "op_of (RAuditStatus x) = OpReadAuditStatus"
| "op_of (RAideSummary x) = OpReadAideSummary"
| "op_of (RRebootMarker x) = OpReadRebootMarker"
| "op_of (RSmartSummary x) = OpSmartSummary"
| "op_of (RMdraidDetail x) = OpMdraidDetail"
| "op_of (RLvmReport x) = OpLvmReport"
| "op_of (RZpoolStatus x) = OpZpoolStatus"
| "op_of (RBtrfsScrub x) = OpBtrfsScrub"
| "op_of (RPostqueue x) = OpPostqueue"
| "op_of (RWireguardShow x) = OpWireguardShow"
| "op_of (RAptPending x) = OpAptPending"
| "op_of (RNeedrestart x) = OpNeedrestart"
| "op_of (RJournalQuery x) = OpJournalQuery"
| "op_of (RNftTableCounts x) = OpNftTableCounts"
| "op_of (RFail2banStatus x) = OpFail2banStatus"
| "op_of (RSshJournalCounts x) = OpSshJournalCounts"
| "op_of (RSystemdTimer x) = OpSystemdTimerLastTrigger"
| "op_of (RRkhunterSummary x) = OpRkhunterSummary"
| "op_of (RUnattendedUpgrades x) = OpUnattendedUpgradesStatus"
| "op_of (RFirewallInspect x) = OpFirewallInspect"
| "op_of (RFirewallLookup x) = OpFirewallLookup"
| "op_of (RDovecotStatus x) = OpDovecotStatus"
| "op_of (RNginxApacheStatus x) = OpNginxApacheStatus"

text \<open>
  The JSON of a result, for the types the daemon reads into a struct: the counts of the journal and of nft are
  keyed by names, the interfaces of WireGuard are passed on as they are, and nothing reads the reboot marker.
\<close>

fun enc_result :: "(time \<Rightarrow> bytes) \<Rightarrow> (rat \<Rightarrow> bytes) \<Rightarrow> any_result \<Rightarrow> json option" where
  "enc_result tf ff (RAuditStatus x) = Some (enc_audit_status tf x)"
| "enc_result tf ff (RAideSummary x) = Some (enc_aide_summary tf x)"
| "enc_result tf ff (RSmartSummary x) = Some (enc_smart_summary x)"
| "enc_result tf ff (RMdraidDetail x) = Some (enc_mdraid ff x)"
| "enc_result tf ff (RLvmReport x) = Some (enc_lvm_report x)"
| "enc_result tf ff (RZpoolStatus x) = Some (enc_pools x)"
| "enc_result tf ff (RBtrfsScrub x) = Some (enc_btrfs tf x)"
| "enc_result tf ff (RPostqueue x) = Some (enc_postqueue x)"
| "enc_result tf ff (RAptPending x) = Some (enc_apt x)"
| "enc_result tf ff (RNeedrestart x) = Some (enc_services x)"
| "enc_result tf ff (RFail2banStatus x) = Some (enc_fail2ban x)"
| "enc_result tf ff (RSshJournalCounts x) = Some (enc_ssh_counts x)"
| "enc_result tf ff (RSystemdTimer x) = Some (enc_timer tf x)"
| "enc_result tf ff (RRkhunterSummary x) = Some (enc_rkhunter tf x)"
| "enc_result tf ff (RUnattendedUpgrades x) = Some (enc_unattended tf x)"
| "enc_result tf ff (RFirewallInspect x) = Some (enc_fw_result x)"
| "enc_result tf ff (RFirewallLookup x) = Some (enc_lookup_result x)"
| "enc_result tf ff (RDovecotStatus x) = Some (enc_dovecot x)"
| "enc_result tf ff (RNginxApacheStatus x) = Some (enc_nginx x)"
| "enc_result tf ff r = None"

fun result_ok :: "world \<Rightarrow> (time \<Rightarrow> bytes) \<Rightarrow> (rat \<Rightarrow> bytes) \<Rightarrow> any_result \<Rightarrow> bool" where
  "result_ok w tf ff (RAuditStatus x) = ok_audit_status w tf x"
| "result_ok w tf ff (RAideSummary x) = ok_aide_summary w tf x"
| "result_ok w tf ff (RSmartSummary x) = ok_smart_summary x"
| "result_ok w tf ff (RMdraidDetail x) = ok_mdraid w ff x"
| "result_ok w tf ff (RLvmReport x) = ok_lvm_report x"
| "result_ok w tf ff (RZpoolStatus x) = list_all ok_zfs_pool x"
| "result_ok w tf ff (RBtrfsScrub x) = ok_btrfs w tf x"
| "result_ok w tf ff (RPostqueue x) = ok_postqueue x"
| "result_ok w tf ff (RAptPending x) = ok_apt x"
| "result_ok w tf ff (RNeedrestart x) = list_all utf8_valid x"
| "result_ok w tf ff (RFail2banStatus x) = ok_fail2ban x"
| "result_ok w tf ff (RSshJournalCounts x) = ok_ssh_counts x"
| "result_ok w tf ff (RSystemdTimer x) = ok_timer w tf x"
| "result_ok w tf ff (RRkhunterSummary x) = ok_rkhunter w tf x"
| "result_ok w tf ff (RUnattendedUpgrades x) = ok_unattended w tf x"
| "result_ok w tf ff (RFirewallInspect x) = ok_fw_result x"
| "result_ok w tf ff (RFirewallLookup x) = ok_lookup_result x"
| "result_ok w tf ff (RDovecotStatus x) = ok_dovecot x"
| "result_ok w tf ff (RNginxApacheStatus x) = ok_nginx x"
| "result_ok w tf ff r = False"

text \<open>What the daemon's tools read the data of an op into.\<close>

definition read_result :: "world \<Rightarrow> (bytes \<times> (bytes \<Rightarrow> any_result option)) list" where
  "read_result w =
     [(OpReadAuditStatus, \<lambda>s. map_option RAuditStatus (dec_audit_status w zero_audit_status s)),
      (OpReadAideSummary, \<lambda>s. map_option RAideSummary (dec_aide_summary w zero_aide_summary s)),
      (OpSmartSummary, \<lambda>s. map_option RSmartSummary (dec_smart_summary zero_smart_summary s)),
      (OpMdraidDetail, \<lambda>s. map_option RMdraidDetail (dec_mdraid w zero_mdraid s)),
      (OpLvmReport, \<lambda>s. map_option RLvmReport (dec_lvm_report zero_lvm_report s)),
      (OpZpoolStatus, \<lambda>s. map_option RZpoolStatus (dec_pools [] s)),
      (OpBtrfsScrub, \<lambda>s. map_option RBtrfsScrub (dec_btrfs w zero_btrfs s)),
      (OpPostqueue, \<lambda>s. map_option RPostqueue (dec_postqueue zero_postqueue s)),
      (OpAptPending, \<lambda>s. map_option RAptPending (dec_apt zero_apt s)),
      (OpNeedrestart, \<lambda>s. map_option RNeedrestart (dec_services [] s)),
      (OpFail2banStatus, \<lambda>s. map_option RFail2banStatus (dec_fail2ban zero_fail2ban s)),
      (OpSshJournalCounts, \<lambda>s. map_option RSshJournalCounts (dec_ssh_counts zero_ssh_counts s)),
      (OpSystemdTimerLastTrigger, \<lambda>s. map_option RSystemdTimer (dec_timer w zero_timer s)),
      (OpRkhunterSummary, \<lambda>s. map_option RRkhunterSummary (dec_rkhunter w zero_rkhunter_summary s)),
      (OpUnattendedUpgradesStatus, \<lambda>s. map_option RUnattendedUpgrades (dec_unattended w zero_unattended s)),
      (OpFirewallInspect, \<lambda>s. map_option RFirewallInspect (dec_fw_result zero_fw_result s)),
      (OpFirewallLookup, \<lambda>s. map_option RFirewallLookup (dec_lookup_result zero_lookup_result s)),
      (OpDovecotStatus, \<lambda>s. map_option RDovecotStatus (dec_dovecot zero_dovecot s)),
      (OpNginxApacheStatus, \<lambda>s. map_option RNginxApacheStatus (dec_nginx zero_nginx s))]"

lemma ex_entry: "(\<exists>v. (k, v) \<in> set xs \<and> P v) \<longleftrightarrow> list_ex (\<lambda>(a, v). a = k \<and> P v) xs"
  by (auto simp: list_ex_iff)

lemmas read_backs = wire_audit_status.read_back wire_aide_summary.read_back wire_smart_summary.read_back
  wire_mdraid.read_back wire_lvm_report.read_back wire_pools.read_back wire_btrfs.read_back wire_postqueue.read_back
  wire_apt.read_back wire_services.read_back wire_fail2ban.read_back wire_ssh_counts.read_back wire_timer.read_back
  wire_rkhunter.read_back wire_unattended.read_back wire_fw_result.read_back wire_lookup_result.read_back
  wire_dovecot.read_back wire_nginx.read_back

lemma read_result_written:
  assumes "enc_result tf ff r = Some v" and "result_ok w tf ff r"
  shows "\<exists>rd. (op_of r, rd) \<in> set (read_result w) \<and> rd (marshal_json v) = Some r"
  unfolding ex_entry read_result_def using assms by (cases r) (auto simp: read_backs)

lemma read_result_distinct: "distinct (map fst (read_result w))"
proof -
  have "distinct (map fst (read_result w)) = distinct [OpReadAuditStatus, OpReadAideSummary, OpSmartSummary, OpMdraidDetail,
      OpLvmReport, OpZpoolStatus, OpBtrfsScrub, OpPostqueue, OpAptPending, OpNeedrestart, OpFail2banStatus, OpSshJournalCounts,
      OpSystemdTimerLastTrigger, OpRkhunterSummary, OpUnattendedUpgradesStatus, OpFirewallInspect, OpFirewallLookup, OpDovecotStatus, OpNginxApacheStatus]"
    by (simp only: read_result_def list.map fst_conv)
  also have "\<dots>" by code_simp
  finally show ?thesis .
qed

lemmas fits_in = wire_audit_status.fit_in wire_aide_summary.fit_in wire_smart_summary.fit_in wire_mdraid.fit_in
  wire_lvm_report.fit_in wire_pools.fit_in wire_btrfs.fit_in wire_postqueue.fit_in wire_apt.fit_in wire_services.fit_in
  wire_fail2ban.fit_in wire_ssh_counts.fit_in wire_timer.fit_in wire_rkhunter.fit_in wire_unattended.fit_in
  wire_fw_result.fit_in wire_lookup_result.fit_in wire_dovecot.fit_in wire_nginx.fit_in

lemma result_fits:
  assumes "enc_result tf ff r = Some v" and "result_ok w tf ff r"
  shows "fits 1000 v"
  using assms by (cases r) (auto intro!: fits_in)

text \<open>The handler of an op returns the type of that op.\<close>

lemma ret_result: "ret f x = Ret (Inr r) \<longleftrightarrow> (\<exists>y. x = Inr y \<and> r = f y)"
  by (cases x) (auto simp: ret_def)

lemma map_go_result: "map_go (map_sum id f) g = Ret (Inr r) \<longleftrightarrow> (\<exists>y. g = Ret (Inr y) \<and> r = f y)"
proof (cases g)
  case (Ret x)
  then show ?thesis by (cases x) (auto simp: map_go_def)
qed (simp add: map_go_def)

lemma handler_table_typed:
  "list_all (\<lambda>(name, h). \<forall>p r. h p = Ret (Inr r) \<longrightarrow> (op_of r, name) \<in> set register_calls) (handler_table env w)"
  by (simp add: handler_table_def register_calls_def ret_result map_go_result; intro conjI allI impI; clarsimp)

lemma helper_op_typed:
  assumes "helper_op env w op = Some h" and "h p = Ret (Inr r)"
  shows "op_of r = op"
proof -
  from assms(1) obtain name where n: "map_of register_calls op = Some name" "map_of (handler_table env w) name = Some h"
    by (auto simp: helper_op_def bind_eq_Some_conv)
  have d: "distinct (map snd register_calls)" by code_simp
  have "(op_of r, name) \<in> set register_calls"
    using handler_table_typed [of env w] map_of_SomeD [OF n(2)] assms(2) by (force simp: list_all_iff)
  moreover have "(op, name) \<in> set register_calls" by (rule map_of_SomeD [OF n(1)])
  ultimately show ?thesis using d by (metis (no_types, lifting) distinct_map inj_onD prod.inject snd_conv)
qed

text \<open>
  The token of an op is the type of its result: whatever the op of a token returns, the daemon's reader for
  that token takes its JSON and gets back the same value, field by field, with absent values absent; provided
  that its strings are UTF-8, its numbers fit 64 bits and its times print as they are parsed.
\<close>

lemma op_results_well_typed:
  assumes "helper_op env w op = Some h" and "h param = Ret (Inr r)"
    and "enc_result tf ff r = Some v" and "result_ok w' tf ff r"
  shows "\<exists>rd. map_of (read_result w') op = Some rd \<and> rd (marshal_json v) = Some r"
proof -
  obtain rd where "(op_of r, rd) \<in> set (read_result w')" "rd (marshal_json v) = Some r"
    using read_result_written [OF assms(3,4)] by blast
  then show ?thesis using helper_op_typed [OF assms(1,2)] map_of_mem [OF read_result_distinct] by blast
qed

end
