(* ===== verification/ForbiddenLint.thy ===== *)
theory ForbiddenLint
  imports GoPath "HOL-Library.List_Lexorder" "HOL-Library.Char_ord" "HOL-Library.Product_Lexorder"
begin

text \<open>
  The forbidden-call linter of the build (\<^verbatim>\<open>build/linter/forbidden\<close>): the table of calls, the scan of one
  file, the walk over a source tree and the exit code. The result of Go's parser on each file is an argument;
  of a syntax tree the model keeps what the linter looks at, identifiers and selectors, under nodes of any
  other kind. The verdict is compared with a declarative reading of the rules.
\<close>

section \<open>The table of calls\<close>

record lint_rule =
  Reason :: bytes
  TestsToo :: bool

abbreviation shipped :: "bytes \<Rightarrow> lint_rule" where "shipped r \<equiv> \<lparr>Reason = r, TestsToo = False\<rparr>"
abbreviation both :: "bytes \<Rightarrow> lint_rule" where "both r \<equiv> \<lparr>Reason = r, TestsToo = True\<rparr>"

definition osRules :: "(bytes \<times> lint_rule) list" where
  "osRules = [
     (''Create'', shipped ''always write-mode; route writes through the daemon's state dir API''),
     (''CreateTemp'', shipped ''creates and writes a file''),
     (''OpenFile'', shipped ''may be write-mode; reviewer must confirm read-only and add a // forbidden:allow comment with justification''),
     (''WriteFile'', shipped ''writes a file''),
     (''Remove'', shipped ''unlinks a filesystem object''),
     (''RemoveAll'', shipped ''unlinks a filesystem subtree''),
     (''Rename'', shipped ''moves a filesystem object''),
     (''Truncate'', shipped ''changes file length''),
     (''Mkdir'', shipped ''creates a directory''),
     (''MkdirAll'', shipped ''creates a directory tree''),
     (''MkdirTemp'', shipped ''creates a directory''),
     (''Chmod'', shipped ''changes file mode''),
     (''Chown'', shipped ''changes file ownership''),
     (''Lchown'', shipped ''changes file ownership''),
     (''Chtimes'', shipped ''changes file timestamps''),
     (''Symlink'', shipped ''creates a symlink''),
     (''Link'', shipped ''creates a hard link''),
     (''Chdir'', both ''changes process working directory''),
     (''Setenv'', both ''mutates process environment''),
     (''Unsetenv'', both ''mutates process environment''),
     (''StartProcess'', both ''fork+exec; only the helper exec chokepoint may spawn processes'')]"

definition lowLevel :: "(bytes \<times> lint_rule) list" where
  "lowLevel = [
     (''Open'', shipped ''takes a mode and can create/truncate; use os.Open for read-only access''),
     (''Openat'', shipped ''takes a mode and can create/truncate''),
     (''Openat2'', shipped ''takes a mode and can create/truncate''),
     (''Creat'', shipped ''creates a file''),
     (''Write'', shipped ''writes to a descriptor''),
     (''Pwrite'', shipped ''writes to a descriptor''),
     (''Syscall'', both ''raw syscall; bypasses every check in this table''),
     (''Syscall6'', both ''raw syscall; bypasses every check in this table''),
     (''RawSyscall'', both ''raw syscall; bypasses every check in this table''),
     (''ForkExec'', both ''only the helper exec chokepoint may fork''),
     (''Exec'', both ''replaces the current process; never permitted''),
     (''Kill'', both ''signals a process; the daemon never changes system state''),
     (''Tgkill'', both ''signals a thread''),
     (''Ptrace'', both ''attaches to another process''),
     (''Mount'', both ''changes system state''),
     (''Unmount'', both ''changes system state''),
     (''Reboot'', both ''changes system state''),
     (''Chroot'', both ''changes the process root''),
     (''Setns'', both ''joins another namespace''),
     (''Setuid'', both ''changes process credentials''),
     (''Setgid'', both ''changes process credentials''),
     (''Setreuid'', both ''changes process credentials''),
     (''Setregid'', both ''changes process credentials''),
     (''Setgroups'', both ''changes process credentials''),
     (''Unlink'', shipped ''unlinks a filesystem object''),
     (''Unlinkat'', shipped ''unlinks a filesystem object''),
     (''Rename'', shipped ''moves a filesystem object''),
     (''Renameat'', shipped ''moves a filesystem object''),
     (''Mkdir'', shipped ''creates a directory''),
     (''Mkdirat'', shipped ''creates a directory''),
     (''Rmdir'', shipped ''removes a directory''),
     (''Chmod'', shipped ''changes file mode''),
     (''Fchmod'', shipped ''changes file mode''),
     (''Fchmodat'', shipped ''changes file mode''),
     (''Chown'', shipped ''changes file ownership''),
     (''Fchown'', shipped ''changes file ownership''),
     (''Fchownat'', shipped ''changes file ownership''),
     (''Lchown'', shipped ''changes file ownership''),
     (''Symlink'', shipped ''creates a symlink''),
     (''Symlinkat'', shipped ''creates a symlink''),
     (''Link'', shipped ''creates a hard link''),
     (''Linkat'', shipped ''creates a hard link''),
     (''Truncate'', shipped ''changes file length''),
     (''Ftruncate'', shipped ''changes file length'')]"

text \<open>\<^verbatim>\<open>withExtra\<close>: the entries of the second table replace those of the first.\<close>

definition withExtra :: "(bytes \<rightharpoonup> lint_rule) \<Rightarrow> (bytes \<rightharpoonup> lint_rule) \<Rightarrow> (bytes \<rightharpoonup> lint_rule)" where
  "withExtra base extra = base ++ extra"

definition syscallRules :: "bytes \<rightharpoonup> lint_rule" where
  "syscallRules = withExtra (map_of lowLevel) (map_of [
     (''StartProcess'', both ''low-level fork+exec; only the helper exec chokepoint may spawn processes''),
     (''Setresuid'', both ''changes process credentials''),
     (''Setresgid'', both ''changes process credentials'')])"

definition unixRules :: "bytes \<rightharpoonup> lint_rule" where
  "unixRules = withExtra (map_of lowLevel) (map_of [
     (''Setresuid'', both ''changes process credentials''),
     (''Setresgid'', both ''changes process credentials''),
     (''Pivotroot'', both ''changes the process root''),
     (''Fsopen'', both ''changes system state''),
     (''Fsmount'', both ''changes system state'')])"

text \<open>A missing package has the empty table, as indexing a nil map has in Go.\<close>

definition forbiddenCalls :: "bytes \<Rightarrow> (bytes \<rightharpoonup> lint_rule)" where
  "forbiddenCalls pkg =
     (if pkg = ''os'' then map_of osRules
      else if pkg = ''syscall'' then syscallRules
      else if pkg = ''golang.org/x/sys/unix'' then unixRules
      else Map.empty)"

definition dotImportBanned :: "bytes list" where
  "dotImportBanned = [''os'', ''syscall'', ''golang.org/x/sys/unix'', ''os/exec'']"

definition chokepoints :: "bytes list" where
  "chokepoints = [''daemon/internal/daemon/helperinvoke'', ''daemon/internal/helper/exec'']"

definition narrowChokepoints :: "bytes \<rightharpoonup> bytes list" where
  "narrowChokepoints =
     [''daemon/cmd/capstemplate'' \<mapsto> [''os.MkdirAll'', ''os.WriteFile'', ''os.Remove'']]"

section \<open>Syntax trees\<close>

record Position =
  pos_Filename :: bytes
  pos_Offset :: nat
  pos_Line :: nat
  pos_Column :: nat

text \<open>\<open>AstNode\<close> is any node of another kind, with its children in the order of the traversal.\<close>

datatype ast_node =
    Ident Position bytes
  | SelectorExpr ast_node Position bytes
  | AstNode "ast_node list"

text \<open>An import: the name it is given, if any, and its path as the literal is written, quotes included.\<close>

record ImportSpec =
  imp_Name :: "bytes option"
  imp_Value :: bytes
  imp_Pos :: Position

record CommentGroup =
  cg_List :: "bytes list"
  cg_start :: nat
  cg_end :: nat

record ast_File =
  file_Imports :: "ImportSpec list"
  file_Comments :: "CommentGroup list"
  file_Node :: ast_node

text \<open>The nodes \<^verbatim>\<open>ast.Inspect\<close> visits when the visitor never prunes: in preorder.\<close>

fun Inspect :: "ast_node \<Rightarrow> ast_node list" where
  "Inspect (Ident p n) = [Ident p n]"
| "Inspect (SelectorExpr x p s) = SelectorExpr x p s # Inspect x @ [Ident p s]"
| "Inspect (AstNode ns) = AstNode ns # concat (map Inspect ns)"

section \<open>Scanning a file\<close>

record lint_finding =
  lf_Path :: bytes
  lf_Pos :: Position
  lf_Symbol :: bytes
  lf_Reason :: bytes

text \<open>The import path and the local name of an import.\<close>

definition import_path :: "ImportSpec \<Rightarrow> bytes" where
  "import_path imp = trim_chars (imp_Value imp) [CHR 0x22]"

definition local_name :: "ImportSpec \<Rightarrow> bytes" where
  "local_name imp = (case imp_Name imp of Some n \<Rightarrow> n | None \<Rightarrow> filepath_Base (import_path imp))"

definition exec_import_symbol :: bytes where
  "exec_import_symbol = ''import '' @ [CHR 0x22] @ ''os/exec'' @ [CHR 0x22]"

definition dot_import_symbol :: "bytes \<Rightarrow> bytes" where
  "dot_import_symbol ip = ''dot-import '' @ [CHR 0x22] @ ip @ [CHR 0x22]"

definition import_findings :: "bytes \<Rightarrow> ImportSpec \<Rightarrow> lint_finding list" where
  "import_findings path imp =
     (if import_path imp = ''os/exec''
      then [\<lparr>lf_Path = path, lf_Pos = imp_Pos imp, lf_Symbol = exec_import_symbol,
             lf_Reason = ''only daemon/internal/daemon/helperinvoke/ and daemon/internal/helper/exec/ may import os/exec (design ''
               @ [CHR 0xC2, CHR 0xA7] @ ''7.4)''\<rparr>]
      else []) @
     (if local_name imp = ''.'' \<and> import_path imp \<in> set dotImportBanned
      then [\<lparr>lf_Path = path, lf_Pos = imp_Pos imp, lf_Symbol = dot_import_symbol (import_path imp),
             lf_Reason = ''a dot-import hides the package qualifier from the selector checks below; import it normally''\<rparr>]
      else [])"

text \<open>\<^verbatim>\<open>importedAs\<close>: a later import of the same local name replaces an earlier one.\<close>

definition importedAs :: "ImportSpec list \<Rightarrow> (bytes \<rightharpoonup> bytes)" where
  "importedAs imps = foldl (\<lambda>m imp. m(local_name imp \<mapsto> import_path imp)) Map.empty imps"

text \<open>The visitor on one node. The position of a selector is that of its operand.\<close>

definition node_findings :: "bytes \<Rightarrow> (bytes \<rightharpoonup> bytes) \<Rightarrow> bool \<Rightarrow> ast_node \<Rightarrow> lint_finding list" where
  "node_findings path imported isTest n =
     (case n of
        SelectorExpr (Ident pos ident) _ sel \<Rightarrow>
          (case imported ident of
             None \<Rightarrow> []
           | Some pkgPath \<Rightarrow>
               (case forbiddenCalls pkgPath sel of
                  None \<Rightarrow> []
                | Some r \<Rightarrow>
                    if isTest \<and> \<not> TestsToo r then []
                    else [\<lparr>lf_Path = path, lf_Pos = pos, lf_Symbol = filepath_Base pkgPath @ ''.'' @ sel,
                           lf_Reason = Reason r\<rparr>]))
      | _ \<Rightarrow> [])"

text \<open>
  The regular expression \<^verbatim>\<open>^(//|/\*)\s*forbidden:allow\b\<close>: the white space it skips has no \<^verbatim>\<open>f\<close> in it, so one
  pass decides it.
\<close>

definition word_char :: "char \<Rightarrow> bool" where
  "word_char c \<longleftrightarrow> (CHR ''a'' \<le> c \<and> c \<le> CHR ''z'') \<or> (CHR ''A'' \<le> c \<and> c \<le> CHR ''Z'') \<or>
     (CHR ''0'' \<le> c \<and> c \<le> CHR ''9'') \<or> c = CHR ''_''"

definition regex_space :: "char \<Rightarrow> bool" where
  "regex_space c \<longleftrightarrow> c \<in> {CHR 0x09, CHR 0x0A, CHR 0x0C, CHR 0x0D, CHR 0x20}"

definition suppression :: "bytes \<Rightarrow> bool" where
  "suppression t \<longleftrightarrow>
     (has_prefix t ''//'' \<or> has_prefix t ''/*'') \<and>
     (let rest = dropWhile regex_space (drop 2 t); token = ''forbidden:allow''
      in has_prefix rest token \<and>
         (case drop (length token) rest of [] \<Rightarrow> True | c # _ \<Rightarrow> \<not> word_char c))"

text \<open>\<^verbatim>\<open>buildCommentMap\<close>: the lines on which findings are suppressed.\<close>

definition buildCommentMap :: "ast_File \<Rightarrow> nat \<Rightarrow> bool" where
  "buildCommentMap file l =
     list_ex (\<lambda>cg. list_ex suppression (cg_List cg) \<and> cg_start cg \<le> l \<and> l \<le> cg_end cg + 1) (file_Comments file)"

definition scanFile :: "ast_File \<Rightarrow> bytes \<Rightarrow> lint_finding list" where
  "scanFile file path =
     (let isTest = has_suffix path ''_test.go'';
          imported = importedAs (file_Imports file);
          out = concat (map (import_findings path) (file_Imports file)) @
                concat (map (node_findings path imported isTest) (Inspect (file_Node file)))
      in if out = [] then out
         else filter (\<lambda>f. \<not> buildCommentMap file (pos_Line (lf_Pos f))) out)"

section \<open>Walking a tree\<close>

text \<open>
  What is on disk: a directory has the entries that reading it returns, in the order of their names, or cannot
  be read. Anything that is not a directory counts as a file.
\<close>

datatype dirent = FileEnt bytes | DirEnt bytes "bytes + dirent list"

definition parseErrorFinding :: "bytes \<Rightarrow> bytes \<Rightarrow> lint_finding" where
  "parseErrorFinding path err =
     \<lparr>lf_Path = path, lf_Pos = \<lparr>pos_Filename = path, pos_Offset = 0, pos_Line = 0, pos_Column = 0\<rparr>,
      lf_Symbol = ''parse error'', lf_Reason = ''cannot verify this file: '' @ err\<rparr>"

text \<open>The visit of one file: what it adds to the findings.\<close>

definition visit_file ::
  "(bytes \<Rightarrow> bytes + ast_File) \<Rightarrow> bytes list \<Rightarrow> (bytes \<rightharpoonup> bytes list) \<Rightarrow> bytes \<Rightarrow> lint_finding list" where
  "visit_file parseFile allowed narrow path =
     (if \<not> has_suffix path ''.go'' then []
      else let dir = filepath_Dir path in
        if dir \<in> set allowed then []
        else (case parseFile path of
                Inl err \<Rightarrow> [parseErrorFinding path err]
              | Inr file \<Rightarrow>
                  (let got = scanFile file path in
                   case narrow dir of
                     None \<Rightarrow> got
                   | Some permitted \<Rightarrow> filter (\<lambda>f. lf_Symbol f \<notin> set permitted) got)))"

definition skip_dir :: "bytes \<Rightarrow> bool" where
  "skip_dir name \<longleftrightarrow> name = ''vendor'' \<or> has_prefix name ''.''"

text \<open>
  \<^verbatim>\<open>filepath.WalkDir\<close> with the linter's callback, below the root: \<open>Inl\<close> is an error that ends the walk.
\<close>

fun walk_entries ::
  "(bytes \<Rightarrow> lint_finding list) \<Rightarrow> bytes \<Rightarrow> dirent list \<Rightarrow> bytes + lint_finding list" where
  "walk_entries visit dir [] = Inr []"
| "walk_entries visit dir (FileEnt name # es) =
     (case walk_entries visit dir es of
        Inl e \<Rightarrow> Inl e
      | Inr fs \<Rightarrow> Inr (visit (filepath_Join dir name) @ fs))"
| "walk_entries visit dir (DirEnt name content # es) =
     (if skip_dir name then walk_entries visit dir es
      else (case content of
              Inl e \<Rightarrow> Inl e
            | Inr sub \<Rightarrow>
                (case walk_entries visit (filepath_Join dir name) sub of
                   Inl e \<Rightarrow> Inl e
                 | Inr fs \<Rightarrow>
                     (case walk_entries visit dir es of
                        Inl e \<Rightarrow> Inl e
                      | Inr gs \<Rightarrow> Inr (fs @ gs)))))"

text \<open>The root is descended into whatever its name; a root that is a file is visited as a file.\<close>

datatype root_entry = RootMissing bytes | RootFile | RootDir "bytes + dirent list"

definition finding_key :: "lint_finding \<Rightarrow> bytes \<times> nat" where
  "finding_key f = (lf_Path f, pos_Offset (lf_Pos f))"

text \<open>\<^verbatim>\<open>sort.Slice\<close> leaves the order of findings at one place open; the model keeps the order of the scan there.\<close>

definition walkRoot ::
  "(bytes \<Rightarrow> bytes + ast_File) \<Rightarrow> bytes \<Rightarrow> root_entry \<Rightarrow> bytes list \<Rightarrow> (bytes \<rightharpoonup> bytes list) \<Rightarrow> bytes + lint_finding list" where
  "walkRoot parseFile root t allowed narrow =
     (let visit = visit_file parseFile allowed narrow;
          res = (case t of
                   RootMissing e \<Rightarrow> Inl e
                 | RootFile \<Rightarrow> Inr (visit root)
                 | RootDir (Inl e) \<Rightarrow> Inl e
                 | RootDir (Inr es) \<Rightarrow> walk_entries visit root es)
      in case res of Inl e \<Rightarrow> Inl e | Inr fs \<Rightarrow> Inr (sort_key finding_key fs))"

text \<open>The exit code and what is printed: position, symbol and reason of each finding.\<close>

definition lint_main :: "(bytes \<Rightarrow> bytes + ast_File) \<Rightarrow> bytes \<Rightarrow> root_entry \<Rightarrow> nat \<times> lint_finding list" where
  "lint_main parseFile root t =
     (case walkRoot parseFile root t chokepoints narrowChokepoints of
        Inl e \<Rightarrow> (2, [])
      | Inr findings \<Rightarrow> if findings = [] then (0, []) else (1, findings))"

section \<open>A declarative reading\<close>

text \<open>A node occurs in a tree.\<close>

inductive occurs :: "ast_node \<Rightarrow> ast_node \<Rightarrow> bool" where
  here: "occurs n n"
| operand: "occurs m x \<Longrightarrow> occurs m (SelectorExpr x p s)"
| selected: "occurs (Ident p s) (SelectorExpr x p s)"
| child: "occurs m n \<Longrightarrow> n \<in> set ns \<Longrightarrow> occurs m (AstNode ns)"

inductive_simps occurs_Ident: "occurs m (Ident p n)"
inductive_simps occurs_SelectorExpr: "occurs m (SelectorExpr x p s)"
inductive_simps occurs_AstNode: "occurs m (AstNode ns)"

lemma Inspect_occurs: "m \<in> set (Inspect n) \<longleftrightarrow> occurs m n"
  by (induction n) (auto simp: occurs_Ident occurs_SelectorExpr occurs_AstNode)

text \<open>The package a name stands for: the path of the last import with that local name.\<close>

definition bound_to :: "ImportSpec list \<Rightarrow> bytes \<Rightarrow> bytes \<Rightarrow> bool" where
  "bound_to imps name pkg \<longleftrightarrow>
     (\<exists>before imp after. imps = before @ imp # after \<and> local_name imp = name \<and> import_path imp = pkg \<and>
        name \<notin> local_name ` set after)"

lemma importedAs_snoc: "importedAs (imps @ [imp]) = (importedAs imps)(local_name imp \<mapsto> import_path imp)"
  by (simp add: importedAs_def)

lemma bound_to_snoc:
  "bound_to (imps @ [imp]) name pkg \<longleftrightarrow>
     (if local_name imp = name then import_path imp = pkg else bound_to imps name pkg)"
proof -
  have "bound_to (imps @ [imp]) name pkg" if "bound_to imps name pkg" "local_name imp \<noteq> name"
  proof -
    from that(1) obtain before i after where "imps = before @ i # after" "local_name i = name"
        "import_path i = pkg" "name \<notin> local_name ` set after"
      by (auto simp: bound_to_def)
    with that(2) have "imps @ [imp] = before @ i # (after @ [imp]) \<and> name \<notin> local_name ` set (after @ [imp])" by auto
    with \<open>local_name i = name\<close> \<open>import_path i = pkg\<close> show ?thesis unfolding bound_to_def by blast
  qed
  moreover have "bound_to (imps @ [imp]) name pkg" if "local_name imp = name" "import_path imp = pkg"
    using that unfolding bound_to_def by (intro exI [of _ imps] exI [of _ imp] exI [of _ "[]"]) simp
  moreover have "if local_name imp = name then import_path imp = pkg else bound_to imps name pkg"
    if "bound_to (imps @ [imp]) name pkg"
  proof -
    from that obtain before i after where s: "imps @ [imp] = before @ i # after" "local_name i = name"
        "import_path i = pkg" "name \<notin> local_name ` set after"
      by (auto simp: bound_to_def)
    show ?thesis
    proof (cases after rule: rev_cases)
      case Nil
      with s show ?thesis by simp
    next
      case (snoc a x)
      with s have "imps = before @ i # a" "imp = x" by simp_all
      with s snoc show ?thesis by (auto simp: bound_to_def)
    qed
  qed
  ultimately show ?thesis unfolding if_bool_eq_conj by blast
qed

lemma importedAs_bound: "importedAs imps name = Some pkg \<longleftrightarrow> bound_to imps name pkg"
proof (induction imps rule: rev_induct)
  case Nil
  then show ?case by (simp add: importedAs_def bound_to_def)
next
  case (snoc imp imps)
  then show ?case by (simp add: importedAs_snoc bound_to_snoc)
qed

text \<open>What the rules object to in a file: the line and the symbol of each use.\<close>

inductive offends :: "bytes \<Rightarrow> ast_File \<Rightarrow> nat \<Rightarrow> bytes \<Rightarrow> bool" for path src where
  exec_import:
    "imp \<in> set (file_Imports src) \<Longrightarrow> import_path imp = ''os/exec'' \<Longrightarrow>
     offends path src (pos_Line (imp_Pos imp)) exec_import_symbol"
| dot_import:
    "imp \<in> set (file_Imports src) \<Longrightarrow> imp_Name imp = Some ''.'' \<Longrightarrow> import_path imp \<in> set dotImportBanned \<Longrightarrow>
     offends path src (pos_Line (imp_Pos imp)) (dot_import_symbol (import_path imp))"
| call:
    "occurs (SelectorExpr (Ident pos q) p s) (file_Node src) \<Longrightarrow> bound_to (file_Imports src) q pkg \<Longrightarrow>
     forbiddenCalls pkg s = Some r \<Longrightarrow> \<not> (has_suffix path ''_test.go'' \<and> \<not> TestsToo r) \<Longrightarrow>
     offends path src (pos_Line pos) (filepath_Base pkg @ ''.'' @ s)"

text \<open>A directive covers the lines of its comment group and the line after it.\<close>

definition excused :: "ast_File \<Rightarrow> nat \<Rightarrow> bool" where
  "excused file l \<longleftrightarrow>
     (\<exists>cg \<in> set (file_Comments file). \<exists>c \<in> set (cg_List cg). suppression c \<and> cg_start cg \<le> l \<and> l \<le> cg_end cg + 1)"

lemma buildCommentMap_excused: "buildCommentMap file l \<longleftrightarrow> excused file l"
  by (auto simp: buildCommentMap_def excused_def list_ex_iff)

lemma banned_base: "p \<in> set dotImportBanned \<Longrightarrow> filepath_Base p \<noteq> ''.''"
  by (auto simp: dotImportBanned_def filepath_Base_def)

lemma local_dot: "import_path imp \<in> set dotImportBanned \<Longrightarrow> local_name imp = ''.'' \<longleftrightarrow> imp_Name imp = Some ''.''"
  by (auto simp: local_name_def banned_base split: option.splits)

lemma import_findings_iff:
  "(\<exists>f \<in> set (import_findings path imp). pos_Line (lf_Pos f) = l \<and> lf_Symbol f = s) \<longleftrightarrow>
     pos_Line (imp_Pos imp) = l \<and>
     (import_path imp = ''os/exec'' \<and> s = exec_import_symbol \<or>
      imp_Name imp = Some ''.'' \<and> import_path imp \<in> set dotImportBanned \<and> s = dot_import_symbol (import_path imp))"
  using local_dot [of imp] by (auto simp: import_findings_def)

lemma node_findings_iff:
  "(\<exists>f \<in> set (node_findings path imported isTest n). pos_Line (lf_Pos f) = l \<and> lf_Symbol f = s) \<longleftrightarrow>
     (\<exists>pos q p sel pkg r. n = SelectorExpr (Ident pos q) p sel \<and> imported q = Some pkg \<and>
        forbiddenCalls pkg sel = Some r \<and> \<not> (isTest \<and> \<not> TestsToo r) \<and> l = pos_Line pos \<and> s = filepath_Base pkg @ ''.'' @ sel)"
proof (cases "\<exists>pos q p sel. n = SelectorExpr (Ident pos q) p sel")
  case True
  then obtain pos q p sel where n: "n = SelectorExpr (Ident pos q) p sel" by blast
  show ?thesis
  proof (cases "imported q")
    case None
    then show ?thesis by (simp add: n node_findings_def)
  next
    case (Some pkg)
    then show ?thesis by (cases "forbiddenCalls pkg sel") (auto simp: n node_findings_def)
  qed
next
  case False
  then show ?thesis by (auto simp: node_findings_def split: ast_node.splits)
qed

lemma scanFile_exact:
  "(\<exists>f \<in> set (scanFile file path). pos_Line (lf_Pos f) = l \<and> lf_Symbol f = s) \<longleftrightarrow>
     offends path file l s \<and> \<not> excused file l"
proof -
  have "scanFile file path = filter (\<lambda>f. \<not> excused file (pos_Line (lf_Pos f)))
      (concat (map (import_findings path) (file_Imports file)) @
       concat (map (node_findings path (importedAs (file_Imports file)) (has_suffix path ''_test.go'')) (Inspect (file_Node file))))"
    by (simp add: scanFile_def Let_def buildCommentMap_excused)
  then have "(\<exists>f \<in> set (scanFile file path). pos_Line (lf_Pos f) = l \<and> lf_Symbol f = s) \<longleftrightarrow>
     \<not> excused file l \<and>
     ((\<exists>imp \<in> set (file_Imports file). \<exists>f \<in> set (import_findings path imp). pos_Line (lf_Pos f) = l \<and> lf_Symbol f = s) \<or>
      (\<exists>n. occurs n (file_Node file) \<and> (\<exists>f \<in> set (node_findings path (importedAs (file_Imports file))
           (has_suffix path ''_test.go'') n). pos_Line (lf_Pos f) = l \<and> lf_Symbol f = s)))"
    by (auto simp: Inspect_occurs)
  also have "\<dots> \<longleftrightarrow> offends path file l s \<and> \<not> excused file l"
    unfolding import_findings_iff node_findings_iff importedAs_bound offends.simps by blast
  finally show ?thesis .
qed

lemma scanFile_kept_empty:
  "filter (\<lambda>f. P (lf_Symbol f)) (scanFile file path) = [] \<longleftrightarrow>
     (\<forall>l s. offends path file l s \<longrightarrow> excused file l \<or> \<not> P s)"
proof -
  have "filter (\<lambda>f. P (lf_Symbol f)) (scanFile file path) = [] \<longleftrightarrow>
      (\<forall>l s. (\<exists>f \<in> set (scanFile file path). pos_Line (lf_Pos f) = l \<and> lf_Symbol f = s) \<longrightarrow> \<not> P s)"
    by (auto simp: filter_empty_conv)
  also have "\<dots> \<longleftrightarrow> (\<forall>l s. offends path file l s \<longrightarrow> excused file l \<or> \<not> P s)"
    unfolding scanFile_exact by blast
  finally show ?thesis .
qed

text \<open>A symbol a package may use although the rules name it.\<close>

definition permitted_symbol :: "(bytes \<rightharpoonup> bytes list) \<Rightarrow> bytes \<Rightarrow> bytes \<Rightarrow> bool" where
  "permitted_symbol narrow dir s \<longleftrightarrow> (\<exists>ps. narrow dir = Some ps \<and> s \<in> set ps)"

text \<open>What it means that a file sanctioned: it parses, and each use the rules name is excused or permitted.\<close>

definition sanctioned ::
  "(bytes \<Rightarrow> bytes + ast_File) \<Rightarrow> bytes list \<Rightarrow> (bytes \<rightharpoonup> bytes list) \<Rightarrow> bytes \<Rightarrow> bool" where
  "sanctioned parseFile allowed narrow path \<longleftrightarrow>
     \<not> has_suffix path ''.go'' \<or> filepath_Dir path \<in> set allowed \<or>
     (\<exists>src. parseFile path = Inr src \<and>
        (\<forall>l s. offends path src l s \<longrightarrow> excused src l \<or> permitted_symbol narrow (filepath_Dir path) s))"

lemma visit_file_empty: "visit_file parseFile allowed narrow path = [] \<longleftrightarrow> sanctioned parseFile allowed narrow path"
proof (cases "parseFile path")
  case (Inl e)
  then show ?thesis by (simp add: visit_file_def sanctioned_def Let_def)
next
  case (Inr src)
  show ?thesis
  proof (cases "narrow (filepath_Dir path)")
    case None
    then show ?thesis
      using scanFile_kept_empty [of "\<lambda>_. True" src path]
      by (simp add: visit_file_def sanctioned_def permitted_symbol_def Let_def Inr)
  next
    case (Some ps)
    then show ?thesis
      using scanFile_kept_empty [of "\<lambda>s. s \<notin> set ps" src path]
      by (simp add: visit_file_def sanctioned_def permitted_symbol_def Let_def Inr)
  qed
qed

text \<open>The files of a tree outside the directories that are skipped, and that all directories can be read.\<close>

inductive in_tree :: "bytes \<Rightarrow> dirent list \<Rightarrow> bytes \<Rightarrow> bool" where
  in_dir: "FileEnt name \<in> set es \<Longrightarrow> in_tree dir es (filepath_Join dir name)"
| in_sub: "DirEnt name (Inr sub) \<in> set es \<Longrightarrow> \<not> skip_dir name \<Longrightarrow> in_tree (filepath_Join dir name) sub p \<Longrightarrow> in_tree dir es p"

inductive unreadable :: "dirent list \<Rightarrow> bool" where
  unreadable_dir: "DirEnt name (Inl e) \<in> set es \<Longrightarrow> \<not> skip_dir name \<Longrightarrow> unreadable es"
| unreadable_sub: "DirEnt name (Inr sub) \<in> set es \<Longrightarrow> \<not> skip_dir name \<Longrightarrow> unreadable sub \<Longrightarrow> unreadable es"

lemma in_tree_Nil: "\<not> in_tree dir [] p"
  by (auto elim: in_tree.cases)

lemma in_tree_file:
  "in_tree dir (FileEnt name # es) p \<longleftrightarrow> p = filepath_Join dir name \<or> in_tree dir es p"
  unfolding in_tree.simps [of dir "FileEnt name # es"] in_tree.simps [of dir es] by auto

lemma in_tree_dir:
  "in_tree dir (DirEnt name c # es) p \<longleftrightarrow>
     \<not> skip_dir name \<and> (\<exists>sub. c = Inr sub \<and> in_tree (filepath_Join dir name) sub p) \<or> in_tree dir es p"
  unfolding in_tree.simps [of dir "DirEnt name c # es"] in_tree.simps [of dir es] by auto

lemma unreadable_Nil: "\<not> unreadable []"
  by (auto elim: unreadable.cases)

lemma unreadable_file: "unreadable (FileEnt name # es) \<longleftrightarrow> unreadable es"
  unfolding unreadable.simps [of "FileEnt name # es"] unreadable.simps [of es] by auto

lemma unreadable_dir_iff:
  "unreadable (DirEnt name c # es) \<longleftrightarrow>
     \<not> skip_dir name \<and> ((\<exists>e. c = Inl e) \<or> (\<exists>sub. c = Inr sub \<and> unreadable sub)) \<or> unreadable es"
  unfolding unreadable.simps [of "DirEnt name c # es"] unreadable.simps [of es] by auto

lemmas tree_simps = in_tree_Nil in_tree_file in_tree_dir unreadable_Nil unreadable_file unreadable_dir_iff

lemma walk_entries_clean:
  "walk_entries visit dir es = Inr [] \<longleftrightarrow> \<not> unreadable es \<and> (\<forall>p. in_tree dir es p \<longrightarrow> visit p = [])"
proof (induction visit dir es rule: walk_entries.induct)
  case (1 visit dir)
  then show ?case by (simp add: tree_simps)
next
  case (2 visit dir name es)
  then show ?case by (cases "walk_entries visit dir es") (auto simp: tree_simps)
next
  case (3 visit dir name content es)
  show ?case
  proof (cases "skip_dir name")
    case True
    with 3(1) show ?thesis by (simp add: tree_simps)
  next
    case False
    note ih = 3(2,3) [OF False]
    show ?thesis
    proof (cases content)
      case (Inl e)
      with False show ?thesis by (simp add: tree_simps)
    next
      case (Inr sub)
      from ih(1) [OF Inr] ih(2) [OF Inr] False show ?thesis
        by (cases "walk_entries visit (filepath_Join dir name) sub"; cases "walk_entries visit dir es")
          (auto simp: tree_simps Inr)
    qed
  qed
qed

lemma walkRoot_clean:
  "walkRoot parseFile root (RootDir (Inr es)) allowed narrow = Inr [] \<longleftrightarrow>
     \<not> unreadable es \<and> (\<forall>p. in_tree root es p \<longrightarrow> sanctioned parseFile allowed narrow p)"
proof -
  have "sort_key finding_key fs = [] \<longleftrightarrow> fs = []" for fs
    by (metis length_0_conv length_sort)
  then have "walkRoot parseFile root (RootDir (Inr es)) allowed narrow = Inr [] \<longleftrightarrow>
      walk_entries (visit_file parseFile allowed narrow) root es = Inr []"
    by (simp add: walkRoot_def Let_def split: sum.splits)
  then show ?thesis by (simp add: walk_entries_clean visit_file_empty)
qed

section \<open>The verdict\<close>


text \<open>A tree of one file that calls \<^verbatim>\<open>os.Remove\<close> under a directive.\<close>

definition sample_pos :: "nat \<Rightarrow> Position" where
  "sample_pos l = \<lparr>pos_Filename = ''daemon/a.go'', pos_Offset = 100 * l, pos_Line = l, pos_Column = 2\<rparr>"

definition sample_source :: ast_File where
  "sample_source =
     \<lparr>file_Imports = [\<lparr>imp_Name = None, imp_Value = [CHR 0x22] @ ''os'' @ [CHR 0x22], imp_Pos = sample_pos 3\<rparr>],
      file_Comments = [\<lparr>cg_List = [''// forbidden:allow - own socket''], cg_start = 9, cg_end = 9\<rparr>],
      file_Node = AstNode [SelectorExpr (Ident (sample_pos 10) ''os'') (sample_pos 10) ''Remove'']\<rparr>"


text \<open>
  A path in back quotes is a legal import path, but only double quotes are taken off before it is compared: no
  use of a package imported that way is reported, \<^verbatim>\<open>os/exec\<close> included.
\<close>

lemma bound_to_import: "bound_to imps q pkg \<Longrightarrow> \<exists>imp \<in> set imps. import_path imp = pkg"
  by (auto simp: bound_to_def)

lemma raw_path_kept: "import_path imp = CHR 0x60 # p @ [CHR 0x60]" if "imp_Value imp = CHR 0x60 # p @ [CHR 0x60]"
  using that by (simp add: import_path_def trim_chars_def)

lemma raw_string_import_evades:
  assumes "\<And>imp. imp \<in> set (file_Imports src) \<Longrightarrow> \<exists>p. imp_Value imp = CHR 0x60 # p @ [CHR 0x60]"
  shows "scanFile src path = []"
proof -
  have raw: "\<exists>p. import_path imp = CHR 0x60 # p" if "imp \<in> set (file_Imports src)" for imp
    using assms [OF that] raw_path_kept by blast
  have none: "forbiddenCalls (CHR 0x60 # p) = Map.empty" for p by (simp add: forbiddenCalls_def)
  have "\<not> offends path src l s" for l s
  proof
    assume "offends path src l s"
    then show False
    proof cases
      case (call pos q p s pkg r)
      then obtain imp where "imp \<in> set (file_Imports src)" "import_path imp = pkg"
        using bound_to_import by blast
      then obtain p' where "pkg = CHR 0x60 # p'" using raw by blast
      with call none show False by simp
    qed (use raw in \<open>fastforce simp: dotImportBanned_def\<close>)+
  qed
  then have "\<forall>f \<in> set (scanFile src path). False" using scanFile_exact [of src path] by blast
  then show ?thesis by (simp add: set_empty [symmetric] del: set_empty)
qed

text \<open>
  The tables are not in step: what the table of \<^verbatim>\<open>os\<close> forbids is open through \<^verbatim>\<open>syscall\<close> and \<^verbatim>\<open>unix\<close>, where
  the same calls exist, and one of the four raw system calls is missing.
\<close>

lemma tables_out_of_step:
  "list_all (\<lambda>n. forbiddenCalls ''os'' n \<noteq> None \<and> forbiddenCalls ''syscall'' n = None \<and>
     forbiddenCalls ''golang.org/x/sys/unix'' n = None) [''Chdir'', ''Setenv'', ''Unsetenv'']"
  by code_simp

lemma raw_syscall6_unchecked:
  "forbiddenCalls ''syscall'' ''RawSyscall'' \<noteq> None" "forbiddenCalls ''syscall'' ''RawSyscall6'' = None"
  by code_simp+

text \<open>A directive needs no justification, although the documentation asks for one.\<close>

lemma bare_directive_suppresses: "suppression ''// forbidden:allow''"
  by code_simp

end
