(* ===== verification/Spec2Isabelle.thy ===== *)
theory Spec2Isabelle
  imports DaemonMain HelperServer CapsTemplate Plugin OpsMail OpsNft OpsWireguard ToolLogs ToolFirewall ProtoJson HelperOps
    ToolUpdates ToolSystem ToolNetwork ToolStorage ToolSecurity ToolUnits ToolWorkload HelperMain DaemonLife OpsWire ForbiddenLint
begin

text \<open>
  A verification library for \<^bold>\<open>host-health-mcp\<close>, which lets an assistant read the health of a fleet of
  Linux hosts. Three programs make up the system. The \<^bold>\<open>plugin\<close> (\<^verbatim>\<open>plugin/\<close>) speaks the MCP protocol on
  its standard streams and calls the daemons of the hosts over HTTPS. The \<^bold>\<open>daemon\<close> (\<^verbatim>\<open>daemon/cmd/daemon\<close>,
  \<^verbatim>\<open>daemon/internal/daemon\<close>) runs unprivileged: it identifies the caller by its certificate, limits its
  rate, caches answers, runs a tool and writes an audit line. The \<^bold>\<open>helper\<close> (\<^verbatim>\<open>daemon/internal/helper\<close>) runs
  as root and serves a closed list of read-only ops to the daemon over a Unix socket, with framed JSON
  messages (\<^verbatim>\<open>daemon/internal/shared/proto\<close>). A generator (\<^verbatim>\<open>daemon/cmd/capstemplate\<close>) derives from the
  manifest the Linux capabilities the helper is started with. A linter (\<^verbatim>\<open>build/linter/forbidden\<close>) rejects a build
  whose source changes the host or runs processes outside two packages.

  \<^bold>\<open>The language and its library.\<close> \<^verbatim>\<open>Prelude\<close> names the types (bytes, times, 64-bit wrap-around) and holds the
  transition-system interface \<^verbatim>\<open>invariant_system\<close>. \<^verbatim>\<open>GoStrings\<close>, \<^verbatim>\<open>GoConv\<close>, \<^verbatim>\<open>GoPath\<close>, \<^verbatim>\<open>Netip\<close>,
  \<^verbatim>\<open>NetipText\<close>, \<^verbatim>\<open>Json\<close>, \<^verbatim>\<open>JsonText\<close>, \<^verbatim>\<open>JsonEncode\<close> and \<^verbatim>\<open>JsonCodec\<close> model what the source uses of \<^verbatim>\<open>strings\<close>,
  \<^verbatim>\<open>unicode/utf8\<close>, \<^verbatim>\<open>strconv\<close>, \<^verbatim>\<open>path/filepath\<close>, \<^verbatim>\<open>net/netip\<close> and \<^verbatim>\<open>encoding/json\<close>: functions on byte strings,
  with the round trips of numbers, addresses and JSON texts. Strings are lists of bytes throughout, times are
  integers in nanoseconds, Go's \<^verbatim>\<open>int\<close> is an integer that is wrapped where the code can overflow it; fractions
  are rational numbers.

  \<^bold>\<open>Shared parts.\<close> \<^verbatim>\<open>Proto\<close>: op tokens, codes, the frame format; a frame written within its cap reads back,
  and no reader takes more than its cap. \<^verbatim>\<open>ProtoJson\<close>: the messages as JSON. \<^verbatim>\<open>Schema\<close>: the envelope, the error codes, the bound on messages.
  \<^verbatim>\<open>Linescan\<close>: the line scanner; it delivers all lines or an error. \<^verbatim>\<open>CapsPlan\<close>: which capability is granted
  for which tool, plugin and backend, and how the helper reads its effective set.

  \<^bold>\<open>The helper.\<close> \<^verbatim>\<open>Registry\<close>: the tables of ops and tools behind one interface. \<^verbatim>\<open>HelperConfig\<close>: deadlines,
  which stay between their bounds. \<^verbatim>\<open>HelperExec\<close>: the runner of subprocesses; what it captures is a prefix
  of the output and truncation is an error. \<^verbatim>\<open>HelperServer\<close>: the set-up of the socket, the accept loop as a transition
  system, the connection loop, the dispatcher. \<^verbatim>\<open>HelperMain\<close>: the command from its file to the end of the process. \<^verbatim>\<open>OpsBase\<close> is the host as an argument of the ops (a record of what
  commands print and files hold); over it \<^verbatim>\<open>Nft\<close>, \<^verbatim>\<open>FirewallLookup\<close>, \<^verbatim>\<open>OpsFirewall\<close>, \<^verbatim>\<open>OpsNft\<close>,
  \<^verbatim>\<open>OpsJournal\<close>, \<^verbatim>\<open>OpsMail\<close>, \<^verbatim>\<open>OpsWireguard\<close>, \<^verbatim>\<open>OpsStorage\<close> (SMART, MD, LVM, ZFS, btrfs), \<^verbatim>\<open>OpsUpdates\<close> (apt,
  needrestart, unattended upgrades, AIDE, rkhunter, timers), \<^verbatim>\<open>OpsSecurity\<close> (fail2ban, the audit netlink socket) and
  \<^verbatim>\<open>OpsWeb\<close> (dovecot, nginx and apache) model the ops. The address lookup is proved equivalent to a specification
  by sets of addresses; the inspection keeps its caps and its table filter. \<^verbatim>\<open>HelperOps\<close> puts all ops behind their
  tokens: whatever token and parameter arrive, only commands and files of a closed list are used. \<^verbatim>\<open>OpsWire\<close> has the
  results as JSON, written from the structs of the ops and read into those of the tools; a token determines the type.

  \<^bold>\<open>The daemon.\<close> \<^verbatim>\<open>DaemonConfig\<close>: validation of the configuration and the values derived from it. \<^verbatim>\<open>Redact\<close>: the
  positive-list filter of log text and the scrubber of paths. \<^verbatim>\<open>RateLimit\<close>: the two-level token buckets with
  their sweeper, refined to one bucket per caller. \<^verbatim>\<open>Cache\<close>: entries with age and cap, and the callers that
  share one invocation, as a transition system. \<^verbatim>\<open>HttpServer\<close>: one request from the certificate to the
  envelope and its audit entry, and the listener with its connection cap. \<^verbatim>\<open>HelperInvoke\<close>: one call of the
  helper. \<^verbatim>\<open>DaemonMain\<close>: the start of the daemon from its two files, and what its clients get through the limiter.
  \<^verbatim>\<open>DaemonLife\<close>: the TLS configuration, and the running daemon with its connections, requests, sweepers and shutdown.
  \<^verbatim>\<open>ServiceLife\<close> is what both commands share: signals, the watchdog and the notifications of systemd around a server.
  \<^verbatim>\<open>CapsTemplate\<close>: the generator of the capability drop-ins.

  \<^bold>\<open>The tools.\<close> \<^verbatim>\<open>ToolBase\<close>: what they share, the error block of a failed op among it. \<^verbatim>\<open>ToolLogs\<close> and
  \<^verbatim>\<open>ToolFirewall\<close> (with \<^verbatim>\<open>FirewallWire\<close> for the JSON of its results) are composed with their ops from the body of the
  request to the data of the answer. \<^verbatim>\<open>ToolSystem\<close> lists every mount of a kernel's table, and its probes of silent
  mounts are a transition system; \<^verbatim>\<open>ToolSockets\<close> lists exactly the sockets of the kernel's tables; \<^verbatim>\<open>ToolNetwork\<close>
  (network, dns) decides the IPv6 policy as the addresses themselves do; \<^verbatim>\<open>ToolStorage\<close> has the goroutines that collect
  the SMART readings as a transition system that ends with every reading in place; \<^verbatim>\<open>ToolSecurity\<close>, \<^verbatim>\<open>ToolKernel\<close> (kernel,
  pressure, sensors), \<^verbatim>\<open>ToolUpdates\<close> (mail, updates, backup), \<^verbatim>\<open>ToolUnits\<close> (systemd units, certificates, manifest) and
  \<^verbatim>\<open>ToolWorkload\<close> (the plugins) report what was read and nothing for what was not. A tool gets the host as the record
  of \<^verbatim>\<open>OpsBase\<close> and a function for each op it calls; a result that does not decode is an error of the call and leaves no
  part of itself behind.

  \<^bold>\<open>The plugin.\<close> \<^verbatim>\<open>Plugin\<close>: host names, the TLS client, calls, the gate on the schema version, the JSON-RPC loop.

  \<^bold>\<open>The linter.\<close> \<^verbatim>\<open>ForbiddenLint\<close>: its tables, the scan of a file, the comments that suppress a finding, the walk and
  the verdict, which is that of a declarative specification.

  This theory composes the daemon's client with the helper's server, first for any request, then with the types of
  the results from the op to the tool.

  \<^bold>\<open>Interfaces.\<close> \<^verbatim>\<open>invariant_system\<close> (interpreted by the accept loop, the capped listener, the shared
  invocations, the probes of mounts and the collection of SMART readings), \<^verbatim>\<open>service_process\<close> (a server and what it
  keeps, which gives an \<^verbatim>\<open>invariant_system\<close> of the process around it; the helper and the daemon), \<^verbatim>\<open>entry_cache\<close>, \<^verbatim>\<open>token_meter\<close>, \<^verbatim>\<open>stream_code\<close>
  (requests and responses), \<^verbatim>\<open>registry\<close> (ops and tools) and \<^verbatim>\<open>wire_type\<close> (a type with its JSON encoder and decoder)
  are locales; each is interpreted on the model of the code that provides it.

  \<^bold>\<open>Code outside the repository.\<close> The YAML decoder, regular expressions given by the operator, SHA-256, the
  operating system, the subprocesses, the system bus, the resolver, the parsers of times, fractions, certificates, Go files and
  compressed files, and the network are arguments. What is assumed of them is a hypothesis
  of the theorem that needs it.

  \<^bold>\<open>Not modelled.\<close> Code of the standard library around the modelled code: the TLS handshake (only when it lets a
  connection through), the HTTP server and client, Go's parser in front of the linter, the flags of the command lines.
  Log messages on standard error are left out unless an operator is told to read them, and the printing of times and
  of fractions is an argument.

  \<^bold>\<open>Termination.\<close> No definition uses fuel. Loops over input are recursions on the input; the loops that serve
  for ever (accepting connections, listening, the processes themselves) are step relations, and their theorems hold in every reachable state.
\<close>

section \<open>A helper call from end to end\<close>

text \<open>What the helper sends back on a connection on which it receives the given bytes.\<close>

definition helper_peer ::
  "(bytes \<Rightarrow> Request option) \<Rightarrow> (Response \<Rightarrow> bytes option) \<Rightarrow> Server \<Rightarrow> bytes \<Rightarrow> bytes" where
  "helper_peer dec enc s bs = w_out (snd (handleConn dec enc s bs \<lparr>w_out = [], w_room = None\<rparr>))"

definition too_large :: Response where
  "too_large = errResp CodeOutputTruncated ''response exceeds the helper/daemon frame cap; narrow the request''"

text \<open>The response that crosses the socket: the dispatcher's, or the notice that it does not fit.\<close>

definition framed_response :: "(Response \<Rightarrow> bytes option) \<Rightarrow> Response \<Rightarrow> Response" where
  "framed_response enc resp =
     (if length (the (enc resp)) \<le> MaxResponseFrame then resp else too_large)"

lemma conn_loop_too_large:
  assumes "dec body = Some q" and "length body \<le> MaxRequestFrame" and "dispatch s q = (s1, resp)"
    and "enc resp = Some out" and "MaxResponseFrame < length out" and "w_room w = None"
    and "enc too_large = Some notice" and "length notice \<le> MaxResponseFrame"
  shows "conn_loop dec enc s (frame_bytes body @ r) w = (s1, w\<lparr>w_out := w_out w @ frame_bytes notice\<rparr>)"
proof -
  have "ReadFrame dec (frame_bytes body @ r) = (Inr q, r)"
    using assms(1,2) by (simp add: ReadFrame_def ReadFrameWithCap_frame MaxRequestFrame_def)
  then show ?thesis
    using assms(3-8) by (subst conn_loop.simps) (simp add: WriteFrameWithCap_ok too_large_def)
qed

lemma helper_peer_one:
  assumes "dec body = Some q" "length body \<le> MaxRequestFrame"
    and "enc (snd (dispatch s q)) = Some out" and "enc too_large = Some notice" and "length notice \<le> MaxResponseFrame"
  shows "helper_peer dec enc s (frame_bytes body) =
    frame_bytes (the (enc (framed_response enc (snd (dispatch s q)))))"
proof -
  obtain s1 resp where d: "dispatch s q = (s1, resp)" by fastforce
  show ?thesis
  proof (cases "length out \<le> MaxResponseFrame")
    case True
    then show ?thesis
      using assms d conn_loop_one [of dec body q s s1 resp enc out "\<lparr>w_out = [], w_room = None\<rparr>" "[]"]
      by (simp add: helper_peer_def handleConn_def conn_loop_end framed_response_def)
  next
    case False
    then show ?thesis
      using assms d conn_loop_too_large [of dec body q s s1 resp enc out "\<lparr>w_out = [], w_room = None\<rparr>" notice "[]"]
      by (simp add: helper_peer_def handleConn_def framed_response_def)
  qed
qed

text \<open>For any coding that reads back the messages of the call.\<close>

lemma helper_call_any_codec:
  fixes c :: Client
  assumes "IsKnownOp op"
    and "q = \<lparr>req_op = op, req_param = param, req_deadline_ms = deadline_ms dl now1 now2\<rparr>"
    and "encq q = Some body" "decq body = Some q" "length body \<le> MaxRequestFrame"
    and "encp (snd (dispatch s q)) = Some out" "decp out = Some (snd (dispatch s q))"
    and "encp too_large = Some notice" "decp notice = Some too_large" "length notice \<le> MaxResponseFrame"
  shows "HelperInvoke.Call encq decp c dl now1 now2 True True (helper_peer decq encp s) op param =
    response_result c (framed_response encp (snd (dispatch s q)))"
proof -
  let ?resp = "framed_response encp (snd (dispatch s q))"
  have w: "WriteFrame encq \<lparr>w_out = [], w_room = None\<rparr> q = (\<lparr>w_out = frame_bytes body, w_room = None\<rparr>, None)"
    using assms(3,5) by (simp add: WriteFrame_def WriteFrameWithCap_ok)
  have p: "helper_peer decq encp s (frame_bytes body) = frame_bytes (the (encp ?resp))"
    using assms by (intro helper_peer_one) auto
  have r: "length (the (encp ?resp)) \<le> MaxResponseFrame" "decp (the (encp ?resp)) = Some ?resp"
    using assms(6-10) by (auto simp: framed_response_def)
  have "ReadFrameWithCap decp (frame_bytes (the (encp ?resp)) @ []) MaxResponseFrame = (Inr ?resp, [])"
    using r by (subst ReadFrameWithCap_frame) (simp_all add: MaxResponseFrame_def)
  then show ?thesis using assms(1) w p by (simp add: HelperInvoke.Call_def assms(2))
qed

lemma known_op_plain: "IsKnownOp op \<Longrightarrow> plain_key op"
  by (auto simp: IsKnownOp_iff AllOps_def op_token_defs plain_key_def)

lemma deadline_ms_range: "int64_ok (deadline_ms dl now1 now2)"
proof -
  have "int64_ok (int64 x div Millisecond)" for x
    using int64_range [of x] by (simp add: int64_ok_def) linarith
  then show ?thesis by (auto simp: deadline_ms_def Let_def int64_ok_def split: option.splits)
qed

lemma too_large_reads_back:
  obtains notice where "marshal_response too_large = Some notice" "unmarshal_response notice = Some too_large" "length notice \<le> MaxResponseFrame"
proof -
  have "response_ok None too_large"
    by (simp add: response_ok_def too_large_def errResp_def empty_response_def proto_code_defs utf8_valid_plain plain_key_def int64_ok_def)
  from response_reads_back [OF this] obtain notice
    where n: "marshal_response too_large = Some notice" "unmarshal_response notice = Some too_large" by blast
  moreover have "length (the (marshal_response too_large)) \<le> MaxResponseFrame" by code_simp
  ultimately show thesis using that by simp
qed

text \<open>With the JSON of both ends.\<close>

lemma json_call:
  fixes c :: Client
  assumes "IsKnownOp op" and "utf8_valid param"
    and "q = \<lparr>req_op = op, req_param = param, req_deadline_ms = deadline_ms dl now1 now2\<rparr>"
    and "length (marshal_json (enc_request q)) \<le> MaxRequestFrame"
    and "response_ok v (snd (dispatch s q))"
  shows "HelperInvoke.Call marshal_request unmarshal_response c dl now1 now2 True True
      (helper_peer unmarshal_request marshal_response s) op param =
    response_result c (framed_response marshal_response (snd (dispatch s q)))"
proof -
  have "request_ok q"
    using assms(1-3) known_op_plain deadline_ms_range by (simp add: request_ok_def utf8_valid_plain)
  note q = request_reads_back [OF this]
  obtain out where out: "marshal_response (snd (dispatch s q)) = Some out" "unmarshal_response out = Some (snd (dispatch s q))"
    using response_reads_back [OF assms(5)] by blast
  obtain notice where n: "marshal_response too_large = Some notice" "unmarshal_response notice = Some too_large"
      "length notice \<le> MaxResponseFrame"
    by (rule too_large_reads_back)
  show ?thesis
    by (rule helper_call_any_codec [where encq = marshal_request and decq = unmarshal_request and encp = marshal_response
          and decp = unmarshal_response, OF assms(1,3) q assms(4) out n])
qed

text \<open>
  C1: A call of the daemon's helper client, over a connection served by the helper, with both ends
  writing and reading JSON frames, returns exactly what the helper's dispatcher answers to the op,
  the parameter and the time budget the client sent: the data of a success, or the helper's error
  with all its diagnostics. An answer that does not fit a frame is reported as
  \<^verbatim>\<open>output_truncated\<close>, never as a broken connection.
\<close>

theorem helper_call_end_to_end:
  fixes c :: Client
  assumes "IsKnownOp op" and "utf8_valid param"
    and "q = \<lparr>req_op = op, req_param = param, req_deadline_ms = deadline_ms dl now1 now2\<rparr>"
    and "length (marshal_json (enc_request q)) \<le> MaxRequestFrame"
    and "response_ok v (snd (dispatch s q))"
  shows "HelperInvoke.Call marshal_request unmarshal_response c dl now1 now2 True True
      (helper_peer unmarshal_request marshal_response s) op param =
    response_result c (framed_response marshal_response (snd (dispatch s q)))"
  using assms by (rule json_call)

theorem helper_call_end_to_end_witness:
  "HelperInvoke.Call marshal_request unmarshal_response (NewClient ''/run/h.sock'' 8 None) None 0 0 True True
     (helper_peer unmarshal_request marshal_response (NewServer sample_config None)) ''postqueue'' ''7'' = Inr ''7''"
proof -
  let ?q = "\<lparr>req_op = ''postqueue'', req_param = ''7'', req_deadline_ms = deadline_ms None 0 0\<rparr>"
  let ?resp = "empty_response\<lparr>resp_status := StatusOK, resp_data := ''7''\<rparr>"
  have known: "IsKnownOp ''postqueue''" by (simp add: IsKnownOp_iff AllOps_def op_token_defs)
  then have d: "snd (dispatch (NewServer sample_config None) ?q) = ?resp"
    by (simp add: dispatch_def LookupOp_def NewServer_def sample_config_def RequiredCap_def handler_response_def)
  have param: "utf8_valid ''7''" by code_simp
  have body: "length (marshal_json (enc_request ?q)) \<le> MaxRequestFrame" by code_simp
  have "fits 1000 (JNum ''7'')" by code_simp
  then have ok: "response_ok (Some (JNum ''7'')) ?resp"
    by (simp add: response_ok_def empty_response_def proto_code_defs utf8_valid_plain plain_key_def int64_ok_def marshal_json.simps)
  have small: "framed_response marshal_response ?resp = ?resp" by code_simp
  show ?thesis
    using helper_call_end_to_end [OF known param refl body ok [folded d]]
    unfolding d small by (simp add: response_result_def)
qed

section \<open>The type of a result from the op to the tool\<close>

text \<open>
  A helper whose handlers are the ops: a result of an op is written as the JSON of its type. \<open>w\<close> is the host,
  \<open>tf\<close> and \<open>ff\<close> print times and fractions.
\<close>

definition runs_ops :: "helper_env \<Rightarrow> ops_env \<Rightarrow> world \<Rightarrow> (time \<Rightarrow> bytes) \<Rightarrow> (rat \<Rightarrow> bytes) \<Rightarrow> bool" where
  "runs_ops he oe w tf ff \<longleftrightarrow>
     (\<forall>pre name f p d r v. map_of (handler_table (oe\<lparr>oe_prefixes := pre\<rparr>) w) name = Some f \<and> f p = Ret (Inr r) \<and>
        enc_result tf ff r = Some v \<longrightarrow> he_handler he pre name p d = HandlerOk (marshal_json v))"

abbreviation ok_response :: "json \<Rightarrow> Response" where
  "ok_response v \<equiv> empty_response\<lparr>resp_status := StatusOK, resp_data := marshal_json v\<rparr>"

lemma dispatch_runs_op:
  assumes "helper_main he = HelperStarted h" and "runs_ops he oe w tf ff"
    and "helper_op (oe\<lparr>oe_prefixes := hr_prefixes h\<rparr>) w (req_op q) = Some f" and "f (req_param q) = Ret (Inr r)"
    and "enc_result tf ff r = Some v"
  shows "snd (dispatch (hr_server h) q) = ok_response v"
proof -
  from assms(3) obtain name where n: "map_of register_calls (req_op q) = Some name"
      "map_of (handler_table (oe\<lparr>oe_prefixes := hr_prefixes h\<rparr>) w) name = Some f"
    by (auto simp: helper_op_def bind_eq_Some_conv)
  have "he_handler he (hr_prefixes h) name (req_param q) d = HandlerOk (marshal_json v)" for d
    using assms(2) n(2) assms(4,5) unfolding runs_ops_def by blast
  moreover have "IsKnownOp (req_op q)"
    using helper_op_known [of "oe\<lparr>oe_prefixes := hr_prefixes h\<rparr>" w "req_op q"] assms(3) by simp
  ultimately show ?thesis
    using started_ops [OF assms(1), of "req_op q"] n(1) by (simp add: dispatch_def handler_response_def Let_def)
qed

lemma ok_response_ok: "fits 1000 v \<Longrightarrow> response_ok (Some v) (ok_response v)"
  by (simp add: response_ok_def empty_response_def proto_code_defs utf8_valid_plain plain_key_def int64_ok_def)


definition ops_handlers ::
  "ops_env \<Rightarrow> world \<Rightarrow> (time \<Rightarrow> bytes) \<Rightarrow> (rat \<Rightarrow> bytes) \<Rightarrow> bytes list \<Rightarrow> bytes \<Rightarrow> handler" where
  "ops_handlers oe w tf ff pre name p d =
     (case map_of (handler_table (oe\<lparr>oe_prefixes := pre\<rparr>) w) name of
        Some f \<Rightarrow> (case f p of
                     Ret (Inr r) \<Rightarrow> (case enc_result tf ff r of Some v \<Rightarrow> HandlerOk (marshal_json v) | None \<Rightarrow> HandlerPlain [])
                   | _ \<Rightarrow> HandlerPlain [])
      | None \<Rightarrow> HandlerPlain [])"

definition queue_world :: world where
  "queue_world = sample_world (terminated [''A1B2C3D4E5 1024 Mon alice@example.org''] @ ''-- 5 Kbytes in 3 Requests.'')"


end
